(* ===== verification/Prelude.thy ===== *)
theory Prelude
  imports Main "HOL-Library.Word" "HOL-Library.Sublist" "HOL-Library.Char_ord"
    "HOL-Library.List_Lexorder" "HOL-Library.AList"
begin

text \<open>
  Shared vocabulary of the development: machine bytes, results (an error on the left, a value on
  the right), state-passing operations, the stream of random bytes that the program draws from the
  operating system, and the collections of rewrite rules the component theories extend.
\<close>

section \<open>Bytes and entropy\<close>

unbundle bit_operations_syntax

type_synonym byte = "8 word"
type_synonym bytes = "byte list"

text \<open>The bytes \<open>crypto/rand.Reader\<close> will deliver; the reader fails when they run out.\<close>

type_synonym entropy = bytes

definition read_full :: "nat \<Rightarrow> entropy \<Rightarrow> (bytes \<times> entropy) option" where
  "read_full n e = (if n \<le> length e then Some (take n e, drop n e) else None)"

lemma read_full_length: "read_full n e = Some (b, e') \<Longrightarrow> length b = n \<and> e = b @ e'"
  by (auto simp: read_full_def split: if_splits)

lemma unat_byte: "unat (b :: byte) < 256"
  using unsigned_less [of b] by simp

section \<open>Results\<close>

type_synonym ('e, 'a) result = "'e + 'a"

definition bind_result :: "('e, 'a) result \<Rightarrow> ('a \<Rightarrow> ('e, 'b) result) \<Rightarrow> ('e, 'b) result" where
  "bind_result m f = (case m of Inl e \<Rightarrow> Inl e | Inr x \<Rightarrow> f x)"

lemma bind_result_simps [simp]:
  "bind_result (Inl e) f = Inl e"
  "bind_result (Inr x) f = f x"
  by (simp_all add: bind_result_def)

lemma bind_result_Inr_iff: "bind_result m f = Inr y \<longleftrightarrow> (\<exists>x. m = Inr x \<and> f x = Inr y)"
  by (cases m) auto

definition is_ok :: "('e, 'a) result \<Rightarrow> bool" where
  "is_ok r = (case r of Inl _ \<Rightarrow> False | Inr _ \<Rightarrow> True)"

lemma is_ok_simps [simp]: "\<not> is_ok (Inl e)" "is_ok (Inr x)"
  by (simp_all add: is_ok_def)

section \<open>Operations on a state\<close>

text \<open>
  A Go method with an error result: it returns an error or a value, and leaves a state in either
  case (an error does not undo what was already written).
\<close>

type_synonym ('s, 'e, 'a) op = "'s \<Rightarrow> ('e, 'a) result \<times> 's"

named_theorems op_simps \<open>how each step of an operation computes\<close>

definition ret :: "'a \<Rightarrow> ('s, 'e, 'a) op" where
  "ret x s = (Inr x, s)"

definition raise_err :: "'e \<Rightarrow> ('s, 'e, 'a) op" where
  "raise_err e s = (Inl e, s)"

definition bind_op :: "('s, 'e, 'a) op \<Rightarrow> ('a \<Rightarrow> ('s, 'e, 'b) op) \<Rightarrow> ('s, 'e, 'b) op" where
  "bind_op m f s = (case m s of (Inl e, s') \<Rightarrow> (Inl e, s') | (Inr x, s') \<Rightarrow> f x s')"

definition then_op :: "('s, 'e, unit) op \<Rightarrow> ('s, 'e, 'b) op \<Rightarrow> ('s, 'e, 'b) op" where
  "then_op m k = bind_op m (\<lambda>_. k)"

definition guard_op :: "bool \<Rightarrow> 'e \<Rightarrow> ('s, 'e, unit) op" where
  "guard_op ok e = (if ok then ret () else raise_err e)"

definition lift_option :: "'e \<Rightarrow> 'a option \<Rightarrow> ('s, 'e, 'a) op" where
  "lift_option e x = (case x of None \<Rightarrow> raise_err e | Some y \<Rightarrow> ret y)"

definition lift_result :: "('e \<Rightarrow> 'f) \<Rightarrow> ('e, 'a) result \<Rightarrow> ('s, 'f, 'a) op" where
  "lift_result w x = (case x of Inl e \<Rightarrow> raise_err (w e) | Inr y \<Rightarrow> ret y)"

lemma op_monad_simps [op_simps]:
  "ret x s = (Inr x, s)"
  "raise_err e s = (Inl e, s)"
  "m s = (Inl e, s') \<Longrightarrow> bind_op m f s = (Inl e, s')"
  "m s = (Inr y, s') \<Longrightarrow> bind_op m f s = f y s'"
  "then_op n k = bind_op n (\<lambda>_. k)"
  "guard_op True e' = ret ()"
  "guard_op False e' = raise_err e'"
  "lift_option e' None = raise_err e'"
  "lift_option e' (Some y) = ret y"
  "lift_result w (Inl e) = raise_err (w e)"
  "lift_result w (Inr y) = ret y"
  by (simp_all add: ret_def raise_err_def bind_op_def then_op_def guard_op_def lift_option_def lift_result_def)

lemma bind_op_Inr_iff:
  "bind_op m f s = (Inr y, s') \<longleftrightarrow> (\<exists>x s1. m s = (Inr x, s1) \<and> f x s1 = (Inr y, s'))"
  by (auto simp: bind_op_def split: prod.splits sum.splits)

lemma bind_op_Inl_iff:
  "bind_op m f s = (Inl e, s') \<longleftrightarrow>
    m s = (Inl e, s') \<or> (\<exists>x s1. m s = (Inr x, s1) \<and> f x s1 = (Inl e, s'))"
  by (auto simp: bind_op_def split: prod.splits sum.splits)

lemma then_op_Inr_iff:
  "then_op m k s = (Inr y, s') \<longleftrightarrow> (\<exists>s1. m s = (Inr (), s1) \<and> k s1 = (Inr y, s'))"
  by (auto simp: then_op_def bind_op_Inr_iff)

lemma ret_Inr_iff: "ret x s = (Inr y, s') \<longleftrightarrow> y = x \<and> s' = s"
  by (auto simp: ret_def)

lemma ret_Inl_iff: "ret x s = (Inl e, s') \<longleftrightarrow> False"
  by (simp add: ret_def)

lemma raise_err_Inr_iff: "raise_err e s = (Inr y, s') \<longleftrightarrow> False"
  by (simp add: raise_err_def)

lemma raise_err_Inl_iff: "raise_err e s = (Inl e', s') \<longleftrightarrow> e' = e \<and> s' = s"
  by (auto simp: raise_err_def)

lemma guard_op_Inr_iff: "guard_op ok e s = (Inr u, s') \<longleftrightarrow> ok \<and> s' = s"
  by (auto simp: guard_op_def ret_def raise_err_def)

lemma guard_op_Inl_iff: "guard_op ok e s = (Inl e', s') \<longleftrightarrow> \<not> ok \<and> e' = e \<and> s' = s"
  by (auto simp: guard_op_def ret_def raise_err_def)

lemma lift_option_Inr_iff: "lift_option e x s = (Inr y, s') \<longleftrightarrow> x = Some y \<and> s' = s"
  by (auto simp: lift_option_def ret_def raise_err_def split: option.splits)

lemma lift_option_Inl_iff: "lift_option e x s = (Inl e', s') \<longleftrightarrow> x = None \<and> e' = e \<and> s' = s"
  by (auto simp: lift_option_def ret_def raise_err_def split: option.splits)

lemma lift_result_Inr_iff: "lift_result w x s = (Inr y, s') \<longleftrightarrow> x = Inr y \<and> s' = s"
  by (auto simp: lift_result_def ret_def raise_err_def split: sum.splits)

lemma lift_result_Inl_iff: "lift_result w x s = (Inl e', s') \<longleftrightarrow> (\<exists>e. x = Inl e \<and> e' = w e \<and> s' = s)"
  by (auto simp: lift_result_def ret_def raise_err_def split: sum.splits)

lemmas op_Inr_iff = bind_op_Inr_iff then_op_Inr_iff ret_Inr_iff raise_err_Inr_iff guard_op_Inr_iff
  lift_option_Inr_iff lift_result_Inr_iff

lemmas op_Inl_iff = bind_op_Inl_iff ret_Inl_iff raise_err_Inl_iff guard_op_Inl_iff
  lift_option_Inl_iff lift_result_Inl_iff

text \<open>
  What an operation leaves alone: \<open>preserves P m\<close> says \<open>m\<close> keeps \<open>P\<close> of the state whether or not it
  fails; \<open>frame f m\<close> that it keeps the part \<open>f\<close> of the state.
\<close>

definition preserves :: "('s \<Rightarrow> bool) \<Rightarrow> ('s, 'e, 'a) op \<Rightarrow> bool" where
  "preserves P m \<longleftrightarrow> (\<forall>s. P s \<longrightarrow> P (snd (m s)))"

named_theorems preserves_intros \<open>composition of invariants along an operation\<close>

lemma preserves_bind [preserves_intros]:
  "preserves P m \<Longrightarrow> (\<And>x. preserves P (f x)) \<Longrightarrow> preserves P (bind_op m f)"
  unfolding preserves_def bind_op_def by (auto split: prod.splits sum.splits)

lemma preserves_simple [preserves_intros]:
  "preserves P (ret x)" "preserves P (raise_err e)" "preserves P (guard_op b e)"
  "preserves P (lift_option e y)" "preserves P (lift_result w z)"
  by (auto simp: preserves_def ret_def raise_err_def guard_op_def lift_option_def lift_result_def
      split: option.splits sum.splits)

lemma preserves_then [preserves_intros]:
  "preserves P m \<Longrightarrow> preserves P k \<Longrightarrow> preserves P (then_op m k)"
  by (simp add: then_op_def preserves_intros)

lemma preserves_if [preserves_intros]:
  "(b \<Longrightarrow> preserves P m) \<Longrightarrow> (\<not> b \<Longrightarrow> preserves P k) \<Longrightarrow> preserves P (if b then m else k)"
  by simp

lemma preservesD: "preserves P m \<Longrightarrow> P s \<Longrightarrow> m s = (r, s') \<Longrightarrow> P s'"
  by (metis preserves_def snd_conv)

end
