(* ===== verification/Go_Std.thy ===== *)
theory Go_Std
  imports Prelude
begin

text \<open>
  The functions of Go's standard library that the modelled code calls on strings and bytes:
  \<^verbatim>\<open>encoding/hex\<close>, and \<^verbatim>\<open>strings\<close> on byte strings (\<open>string\<close>, one \<open>char\<close> per byte). White space is
  Go's \<open>unicode.IsSpace\<close> in its UTF-8 encoding.
\<close>

section \<open>Hexadecimal\<close>

definition hex_digit :: "nat \<Rightarrow> char" where
  "hex_digit n = ''0123456789abcdef'' ! n"

definition hex_byte :: "byte \<Rightarrow> string" where
  "hex_byte b = [hex_digit (unat b div 16), hex_digit (unat b mod 16)]"

definition hex_encode :: "bytes \<Rightarrow> string" where
  "hex_encode bs = concat (map hex_byte bs)"

text \<open>\<open>hex.DecodeString\<close> accepts both cases; an odd length or another character is an error.\<close>

definition hex_value :: "char \<Rightarrow> nat option" where
  "hex_value c = map_of (zip ''0123456789abcdefABCDEF'' ([0..<16] @ [10..<16])) c"

fun hex_decode :: "string \<Rightarrow> bytes option" where
  "hex_decode [] = Some []"
| "hex_decode [c] = None"
| "hex_decode (c # d # s) =
    (case (hex_value c, hex_value d, hex_decode s) of
       (Some m, Some n, Some bs) \<Rightarrow> Some (of_nat (16 * m + n) # bs)
     | _ \<Rightarrow> None)"

lemma hex_value_digit: "n < 16 \<Longrightarrow> hex_value (hex_digit n) = Some n"
proof -
  have "\<forall>n \<in> {0..<16}. hex_value (hex_digit n) = Some n"
    unfolding hex_value_def hex_digit_def by code_simp
  then show "n < 16 \<Longrightarrow> hex_value (hex_digit n) = Some n" by simp
qed

lemma hex_decode_encode [simp]: "hex_decode (hex_encode bs) = Some bs"
proof (induction bs)
  case (Cons b bs)
  have b: "unat b div 16 < 16" "unat b mod 16 < 16"
    using unat_byte [of b] by simp_all
  have "(of_nat (16 * (unat b div 16) + unat b mod 16) :: byte) = b" by simp
  with Cons hex_value_digit [OF b(1)] hex_value_digit [OF b(2)] show ?case
    by (simp add: hex_encode_def hex_byte_def del: of_nat_add of_nat_mult)
qed (simp add: hex_encode_def)

lemma length_hex_encode [simp]: "length (hex_encode bs) = 2 * length bs"
  by (induction bs) (simp_all add: hex_encode_def hex_byte_def)

lemma hex_encode_nil [simp]: "hex_encode bs = [] \<longleftrightarrow> bs = []"
  by (cases bs) (simp_all add: hex_encode_def hex_byte_def)

lemma inj_hex_encode: "hex_encode a = hex_encode b \<longleftrightarrow> a = b"
  by (metis hex_decode_encode option.inject)

section \<open>White space\<close>

text \<open>The UTF-8 encodings of the runes for which \<open>unicode.IsSpace\<close> holds.\<close>

definition space_encodings :: "string list" where
  "space_encodings =
    map (\<lambda>n. [char_of n]) [9 :: nat, 10, 11, 12, 13, 32] @
    map (map char_of) [[0xC2 :: nat, 0x85], [0xC2, 0xA0], [0xE1, 0x9A, 0x80], [0xE2, 0x80, 0xA8],
      [0xE2, 0x80, 0xA9], [0xE2, 0x80, 0xAF], [0xE2, 0x81, 0x9F], [0xE3, 0x80, 0x80]] @
    map (\<lambda>n. map char_of [0xE2 :: nat, 0x80, n]) [0x80..<0x8B]"

function trim_left_of :: "string list \<Rightarrow> string \<Rightarrow> string" where
  "trim_left_of sps s =
    (case find (\<lambda>sp. sp \<noteq> [] \<and> prefix sp s) sps of
       None \<Rightarrow> s
     | Some sp \<Rightarrow> trim_left_of sps (drop (length sp) s))"
  by auto
termination
proof (relation "measure (\<lambda>(_, s). length s)")
  fix sps s sp assume "find (\<lambda>sp. sp \<noteq> [] \<and> prefix sp s) sps = Some sp"
  then have "sp \<noteq> [] \<and> prefix sp s" by (auto simp: find_Some_iff)
  then show "((sps, drop (length sp) s), sps, s) \<in> measure (\<lambda>(_, s). length s)"
    by (cases sp) (auto simp: prefix_def)
qed simp

declare trim_left_of.simps [simp del]

definition trim_space :: "string \<Rightarrow> string" where
  "trim_space s =
    (let l = trim_left_of space_encodings s
     in rev (trim_left_of (map rev space_encodings) (rev l)))"

lemma trim_left_of_fix:
  assumes "\<And>sp. sp \<in> set sps \<Longrightarrow> sp \<noteq> [] \<Longrightarrow> \<not> prefix sp s"
  shows "trim_left_of sps s = s"
proof -
  have "find (\<lambda>sp. sp \<noteq> [] \<and> prefix sp s) sps = None"
    using assms by (auto simp: find_None_iff)
  then show ?thesis by (subst trim_left_of.simps) simp
qed

lemma trim_space_nil [simp]: "trim_space [] = []"
  by (simp add: trim_space_def Let_def trim_left_of_fix)

text \<open>A string that begins and ends with a graphic ASCII character has no space around it.\<close>

definition graphic :: "char \<Rightarrow> bool" where
  "graphic c \<longleftrightarrow> 33 \<le> (of_char c :: nat) \<and> (of_char c :: nat) < 128"

lemma space_not_graphic: "\<forall>sp \<in> set space_encodings. sp \<noteq> [] \<and> \<not> graphic (hd sp) \<and> \<not> graphic (last sp)"
  unfolding space_encodings_def graphic_def by code_simp

lemma trim_left_graphic:
  assumes "s \<noteq> []" "graphic (hd s)" "sps = space_encodings \<or> sps = map rev space_encodings"
  shows "trim_left_of sps s = s"
proof (rule trim_left_of_fix)
  fix sp assume "sp \<in> set sps" "sp \<noteq> []"
  then have "\<not> graphic (hd sp)" using space_not_graphic assms(3) by (auto simp: hd_rev)
  with assms(1,2) \<open>sp \<noteq> []\<close> show "\<not> prefix sp s" by (auto simp: prefix_def)
qed

lemma trim_space_graphic:
  assumes "s \<noteq> []" "graphic (hd s)" "graphic (last s)"
  shows "trim_space s = s"
  using assms by (simp add: trim_space_def trim_left_graphic hd_rev)

lemma hex_encode_graphic: "\<forall>c \<in> set (hex_encode bs). graphic c"
proof -
  have d: "\<forall>n \<in> {0..<16}. graphic (hex_digit n)" unfolding graphic_def hex_digit_def by code_simp
  show ?thesis
  proof (induction bs)
    case (Cons b bs)
    have "unat b div 16 < 16" "unat b mod 16 < 16" using unat_byte [of b] by simp_all
    with Cons d show ?case by (simp add: hex_encode_def hex_byte_def)
  qed (simp add: hex_encode_def)
qed

lemma trim_space_hex [simp]: "trim_space (hex_encode bs) = hex_encode bs"
proof (cases "bs = []")
  case True
  then show ?thesis by (simp add: hex_encode_def)
next
  case False
  then show ?thesis using hex_encode_graphic [of bs] by (intro trim_space_graphic) simp_all
qed

end
