(* ===== verification/Vault_Store.thy ===== *)
theory Vault_Store
  imports Go_Std
begin

text \<open>
  The vault's storage interface (\<^verbatim>\<open>pkg/vault/store.go\<close>) as a record of operations, the contract its
  clients rely on as a locale, and the two implementations: the in-memory store
  (\<^verbatim>\<open>store_memory.go\<close>) and the Postgres tables \<^verbatim>\<open>vault_barrier\<close> and \<^verbatim>\<open>vault_secrets\<close>
  (\<^verbatim>\<open>store_postgres.go\<close>), each with its interpretation. A read that finds nothing returns nil
  (\<open>None\<close>) and no error, as the interface asks.
\<close>

section \<open>The interface\<close>

datatype store_error = Empty_Prefix | Store_Failure string

record 's vault_store =
  get_barrier :: "'s \<Rightarrow> (store_error, bytes option \<times> bytes option) result"
  put_barrier :: "bytes \<Rightarrow> bytes \<Rightarrow> ('s, store_error, unit) op"
  get_secret :: "string \<Rightarrow> 's \<Rightarrow> (store_error, bytes option) result"
  put_secret :: "string \<Rightarrow> bytes \<Rightarrow> ('s, store_error, unit) op"
  put_secret_if_absent :: "string \<Rightarrow> bytes \<Rightarrow> ('s, store_error, bool) op"
  delete_secret :: "string \<Rightarrow> ('s, store_error, unit) op"
  delete_prefix :: "string \<Rightarrow> ('s, store_error, nat) op"
  list_secrets :: "string \<Rightarrow> 's \<Rightarrow> (store_error, string list) result"

text \<open>What a client sees of a store: the barrier with its metadata, and the secrets by path.\<close>

record store_view =
  view_barrier :: "(bytes \<times> bytes) option"
  view_secrets :: "string \<rightharpoonup> bytes"

text \<open>
  The contract, on the states in which the store is reachable (\<open>avail\<close>). \<open>norm\<close> is what the store
  does to a metadata document it accepts (a JSONB column keeps its value, not its text).
\<close>

locale vault_store_laws =
  fixes S :: "'s vault_store" and avail :: "'s \<Rightarrow> bool" and view :: "'s \<Rightarrow> store_view"
    and norm :: "bytes \<Rightarrow> bytes option"
  assumes get_barrier_law: "avail s \<Longrightarrow> get_barrier S s =
      Inr (map_option fst (view_barrier (view s)), map_option snd (view_barrier (view s)))"
    and put_barrier_law: "avail s \<Longrightarrow> norm m = Some m' \<Longrightarrow>
      \<exists>s'. put_barrier S b m s = (Inr (), s') \<and> avail s' \<and> view s' = (view s)\<lparr>view_barrier := Some (b, m')\<rparr>"
    and get_secret_law: "avail s \<Longrightarrow> get_secret S p s = Inr (view_secrets (view s) p)"
    and put_secret_law: "avail s \<Longrightarrow> \<exists>s'. put_secret S p d s = (Inr (), s') \<and> avail s' \<and>
      view s' = (view s)\<lparr>view_secrets := (view_secrets (view s))(p \<mapsto> d)\<rparr>"
    and put_secret_if_absent_law: "avail s \<Longrightarrow> \<exists>s'. put_secret_if_absent S p d s
        = (Inr (view_secrets (view s) p = None), s') \<and> avail s' \<and>
      view s' = (if view_secrets (view s) p = None
        then (view s)\<lparr>view_secrets := (view_secrets (view s))(p \<mapsto> d)\<rparr> else view s)"
    and delete_secret_law: "avail s \<Longrightarrow> \<exists>s'. delete_secret S p s = (Inr (), s') \<and> avail s' \<and>
      view s' = (view s)\<lparr>view_secrets := (view_secrets (view s))(p := None)\<rparr>"

text \<open>The prefix operations, where the store takes a prefix literally.\<close>

locale prefix_store_laws = vault_store_laws +
  assumes delete_prefix_empty_law: "delete_prefix S [] s = (Inl Empty_Prefix, s)"
    and delete_prefix_law: "avail s \<Longrightarrow> pre \<noteq> [] \<Longrightarrow> \<exists>s'. delete_prefix S pre s
        = (Inr (card {p \<in> dom (view_secrets (view s)). prefix pre p}), s') \<and> avail s' \<and>
      view s' = (view s)\<lparr>view_secrets := view_secrets (view s) |` {p. \<not> prefix pre p}\<rparr>"
    and list_secrets_law: "avail s \<Longrightarrow> \<exists>ps. list_secrets S pre s = Inr ps \<and> distinct ps \<and>
      set ps = {p \<in> dom (view_secrets (view s)). prefix pre p}"

context prefix_store_laws
begin

lemma list_after_delete_prefix:
  assumes "avail s" "pre \<noteq> []" "delete_prefix S pre s = (Inr n, s')"
  shows "list_secrets S pre s' = Inr []"
proof -
  from delete_prefix_law [OF assms(1,2)] assms(3) have s': "avail s'"
    "view s' = (view s)\<lparr>view_secrets := view_secrets (view s) |` {p. \<not> prefix pre p}\<rparr>" by auto
  from list_secrets_law [OF s'(1), of pre] obtain ps where
    "list_secrets S pre s' = Inr ps" "set ps = {p \<in> dom (view_secrets (view s')). prefix pre p}" by blast
  moreover have "{p \<in> dom (view_secrets (view s')). prefix pre p} = {}"
    using s'(2) by (auto simp: restrict_map_def split: if_splits)
  ultimately show ?thesis by simp
qed

lemma delete_prefix_keeps_others:
  assumes "avail s" "pre \<noteq> []" "delete_prefix S pre s = (Inr n, s')" "\<not> prefix pre p"
  shows "get_secret S p s' = get_secret S p s"
  using delete_prefix_law [OF assms(1,2)] assms(1,3,4) by (auto simp: get_secret_law)

end

section \<open>The in-memory store\<close>

text \<open>
  A Go map is an association list with distinct keys; its iteration order, which Go leaves open, is
  the list's. \<open>cloneBytes\<close> is the identity on values. Writers store non-nil bytes.
\<close>

record memory_store =
  mem_barrier :: "bytes option"
  mem_meta :: "bytes option"
  mem_secrets :: "(string \<times> bytes) list"

definition new_memory_store :: memory_store where
  "new_memory_store = \<lparr>mem_barrier = None, mem_meta = None, mem_secrets = []\<rparr>"

definition mem_get_barrier :: "memory_store \<Rightarrow> (store_error, bytes option \<times> bytes option) result" where
  "mem_get_barrier s = Inr (mem_barrier s, mem_meta s)"

definition mem_put_barrier :: "bytes \<Rightarrow> bytes \<Rightarrow> (memory_store, store_error, unit) op" where
  "mem_put_barrier b m s = (Inr (), s\<lparr>mem_barrier := Some b, mem_meta := Some m\<rparr>)"

definition mem_get_secret :: "string \<Rightarrow> memory_store \<Rightarrow> (store_error, bytes option) result" where
  "mem_get_secret p s = Inr (map_of (mem_secrets s) p)"

definition mem_put_secret :: "string \<Rightarrow> bytes \<Rightarrow> (memory_store, store_error, unit) op" where
  "mem_put_secret p d s = (Inr (), s\<lparr>mem_secrets := AList.update p d (mem_secrets s)\<rparr>)"

definition mem_put_secret_if_absent :: "string \<Rightarrow> bytes \<Rightarrow> (memory_store, store_error, bool) op" where
  "mem_put_secret_if_absent p d s =
    (if map_of (mem_secrets s) p \<noteq> None then (Inr False, s)
     else (Inr True, s\<lparr>mem_secrets := AList.update p d (mem_secrets s)\<rparr>))"

definition mem_delete_secret :: "string \<Rightarrow> (memory_store, store_error, unit) op" where
  "mem_delete_secret p s = (Inr (), s\<lparr>mem_secrets := AList.delete p (mem_secrets s)\<rparr>)"

text \<open>The loop of \<open>DeletePrefix\<close>: the entries kept, and the count of the ones deleted.\<close>

fun delete_prefix_loop :: "string \<Rightarrow> (string \<times> bytes) list \<Rightarrow> nat \<Rightarrow> nat \<times> (string \<times> bytes) list" where
  "delete_prefix_loop pre [] deleted = (deleted, [])"
| "delete_prefix_loop pre ((p, d) # xs) deleted =
    (if prefix pre p then delete_prefix_loop pre xs (deleted + 1)
     else let (n, kept) = delete_prefix_loop pre xs deleted in (n, (p, d) # kept))"

definition mem_delete_prefix :: "string \<Rightarrow> (memory_store, store_error, nat) op" where
  "mem_delete_prefix pre s =
    (if pre = [] then (Inl Empty_Prefix, s)
     else let (n, kept) = delete_prefix_loop pre (mem_secrets s) 0 in (Inr n, s\<lparr>mem_secrets := kept\<rparr>))"

definition mem_list_secrets :: "string \<Rightarrow> memory_store \<Rightarrow> (store_error, string list) result" where
  "mem_list_secrets pre s = Inr (sort (filter (prefix pre) (map fst (mem_secrets s))))"

definition memory_ops :: "memory_store vault_store" where
  "memory_ops = \<lparr>get_barrier = mem_get_barrier, put_barrier = mem_put_barrier, get_secret = mem_get_secret,
    put_secret = mem_put_secret, put_secret_if_absent = mem_put_secret_if_absent,
    delete_secret = mem_delete_secret, delete_prefix = mem_delete_prefix, list_secrets = mem_list_secrets\<rparr>"

text \<open>The invariant of the map, and of the barrier: it is written together with its metadata.\<close>

definition mem_wf :: "memory_store \<Rightarrow> bool" where
  "mem_wf s \<longleftrightarrow> distinct (map fst (mem_secrets s)) \<and> (mem_barrier s = None \<longleftrightarrow> mem_meta s = None)"

definition mem_view :: "memory_store \<Rightarrow> store_view" where
  "mem_view s = \<lparr>view_barrier = (case (mem_barrier s, mem_meta s) of (Some b, Some m) \<Rightarrow> Some (b, m) | _ \<Rightarrow> None),
    view_secrets = map_of (mem_secrets s)\<rparr>"

lemma delete_prefix_loop_eq:
  "delete_prefix_loop pre xs n =
    (n + length (filter (\<lambda>x. prefix pre (fst x)) xs), filter (\<lambda>x. \<not> prefix pre (fst x)) xs)"
  by (induction pre xs n rule: delete_prefix_loop.induct) auto

lemma length_filter_keys:
  assumes "distinct (map fst xs)"
  shows "length (filter (\<lambda>x. prefix pre (fst x)) xs) = card {p \<in> dom (map_of xs). prefix pre p}"
proof -
  let ?ks = "filter (prefix pre) (map fst xs)"
  have "length (filter (\<lambda>x. prefix pre (fst x)) xs) = length ?ks" by (simp add: filter_map comp_def)
  also have "\<dots> = card (set ?ks)" using assms by (simp only: distinct_card distinct_filter)
  also have "set ?ks = {p \<in> dom (map_of xs). prefix pre p}" by (auto simp: dom_map_of_conv_image_fst)
  finally show ?thesis .
qed

lemma map_of_filter_keys:
  "map_of (filter (\<lambda>x. Q (fst x)) xs) = map_of xs |` {p. Q p}"
  by (induction xs) (auto simp: restrict_map_def fun_eq_iff)

lemma distinct_filter_keys: "distinct (map fst xs) \<Longrightarrow> distinct (map fst (filter Q xs))"
  by (simp add: distinct_map_filter)

lemma mem_view_cases:
  "mem_wf s \<Longrightarrow> mem_barrier s = map_option fst (view_barrier (mem_view s)) \<and>
    mem_meta s = map_option snd (view_barrier (mem_view s))"
  by (cases "mem_barrier s"; cases "mem_meta s") (auto simp: mem_wf_def mem_view_def)

lemma mem_view_update [simp]:
  "mem_view (s\<lparr>mem_secrets := m\<rparr>) = (mem_view s)\<lparr>view_secrets := map_of m\<rparr>"
  by (cases "mem_barrier s"; cases "mem_meta s") (simp_all add: mem_view_def)

lemma mem_wf_update [simp]:
  "mem_wf (s\<lparr>mem_secrets := m\<rparr>) \<longleftrightarrow> distinct (map fst m) \<and> (mem_barrier s = None \<longleftrightarrow> mem_meta s = None)"
  by (simp add: mem_wf_def)

lemma view_secrets_mem_view [simp]: "view_secrets (mem_view s) = map_of (mem_secrets s)"
  by (simp add: mem_view_def)

lemma mem_wfD: "mem_wf s \<Longrightarrow> distinct (map fst (mem_secrets s))"
    "mem_wf s \<Longrightarrow> mem_barrier s = None \<longleftrightarrow> mem_meta s = None"
  by (auto simp: mem_wf_def)

interpretation mem: prefix_store_laws memory_ops mem_wf mem_view Some
proof unfold_locales
  show "get_barrier memory_ops s = Inr (map_option fst (view_barrier (mem_view s)),
      map_option snd (view_barrier (mem_view s)))" if "mem_wf s" for s
    using mem_view_cases [OF that] by (simp add: memory_ops_def mem_get_barrier_def)
  show "\<exists>s'. put_barrier memory_ops b m s = (Inr (), s') \<and> mem_wf s' \<and>
      mem_view s' = (mem_view s)\<lparr>view_barrier := Some (b, m')\<rparr>" if "mem_wf s" "Some m = Some m'" for s b m m'
    using that by (simp add: memory_ops_def mem_put_barrier_def mem_wf_def mem_view_def)
  show "\<exists>s'. put_secret memory_ops p d s = (Inr (), s') \<and> mem_wf s' \<and>
      mem_view s' = (mem_view s)\<lparr>view_secrets := (view_secrets (mem_view s))(p \<mapsto> d)\<rparr>" if "mem_wf s" for s p d
    using mem_wfD [OF that] by (simp add: memory_ops_def mem_put_secret_def distinct_update update_conv')
  show "\<exists>s'. put_secret_if_absent memory_ops p d s = (Inr (view_secrets (mem_view s) p = None), s') \<and>
      mem_wf s' \<and> mem_view s' = (if view_secrets (mem_view s) p = None
        then (mem_view s)\<lparr>view_secrets := (view_secrets (mem_view s))(p \<mapsto> d)\<rparr> else mem_view s)"
    if "mem_wf s" for s p d
    using that mem_wfD [OF that]
    by (cases "map_of (mem_secrets s) p")
      (simp_all add: memory_ops_def mem_put_secret_if_absent_def distinct_update update_conv')
  show "\<exists>s'. delete_secret memory_ops p s = (Inr (), s') \<and> mem_wf s' \<and>
      mem_view s' = (mem_view s)\<lparr>view_secrets := (view_secrets (mem_view s))(p := None)\<rparr>" if "mem_wf s" for s p
    using mem_wfD [OF that] by (simp add: memory_ops_def mem_delete_secret_def distinct_delete delete_conv')
  show "\<exists>s'. delete_prefix memory_ops pre s = (Inr (card {p \<in> dom (view_secrets (mem_view s)). prefix pre p}), s') \<and>
      mem_wf s' \<and> mem_view s' = (mem_view s)\<lparr>view_secrets := view_secrets (mem_view s) |` {p. \<not> prefix pre p}\<rparr>"
    if "mem_wf s" "pre \<noteq> []" for s pre
    using that(2) mem_wfD [OF that(1)] by (simp add: memory_ops_def mem_delete_prefix_def delete_prefix_loop_eq
        length_filter_keys map_of_filter_keys [of "\<lambda>p. \<not> prefix pre p"] distinct_filter_keys)
  show "\<exists>ps. list_secrets memory_ops pre s = Inr ps \<and> distinct ps \<and>
      set ps = {p \<in> dom (view_secrets (mem_view s)). prefix pre p}" if "mem_wf s" for s pre
    using mem_wfD [OF that] by (auto simp: memory_ops_def mem_list_secrets_def dom_map_of_conv_image_fst)
qed (simp_all add: memory_ops_def mem_get_secret_def mem_delete_prefix_def)

section \<open>The Postgres store\<close>

text \<open>
  The two tables: a singleton barrier row and the secrets keyed by path. \<open>pg_up\<close> is whether the
  database answers; a statement on a database that does not is an error and changes nothing. The
  metadata column is JSONB: \<open>jsonb\<close> is the column's rendering of a document, \<open>None\<close> where it is not
  JSON. \<open>collate\<close> is the database's \<^verbatim>\<open>ORDER BY path\<close>.
\<close>

record pg_store =
  pg_barrier :: "(bytes \<times> bytes) option"
  pg_secrets :: "(string \<times> bytes) list"
  pg_up :: bool

definition pg_exec :: "(pg_store, store_error, 'a) op \<Rightarrow> (pg_store, store_error, 'a) op" where
  "pg_exec f s = (if pg_up s then f s else (Inl (Store_Failure ''database''), s))"

definition pg_query :: "(pg_store \<Rightarrow> (store_error, 'a) result) \<Rightarrow> pg_store \<Rightarrow> (store_error, 'a) result" where
  "pg_query f s = (if pg_up s then f s else Inl (Store_Failure ''database''))"

text \<open>SQL \<open>LIKE\<close>: \<open>%\<close> any run of characters, \<open>_\<close> one character, a backslash escapes the next one.\<close>

fun like_match :: "string \<Rightarrow> string \<Rightarrow> bool" where
  "like_match [] t = (t = [])"
| "like_match (c # p) t =
    (if c = CHR ''%'' then like_match p t \<or> (case t of [] \<Rightarrow> False | _ # t' \<Rightarrow> like_match (c # p) t')
     else if c = CHR ''_'' then (case t of [] \<Rightarrow> False | _ # t' \<Rightarrow> like_match p t')
     else if c = CHR 0x5C then
       (case (p, t) of (d # p', x # t') \<Rightarrow> x = d \<and> like_match p' t' | _ \<Rightarrow> False)
     else (case t of [] \<Rightarrow> False | x # t' \<Rightarrow> x = c \<and> like_match p t'))"

definition pg_get_barrier :: "pg_store \<Rightarrow> (store_error, bytes option \<times> bytes option) result" where
  "pg_get_barrier = pg_query (\<lambda>s. case pg_barrier s of
     None \<Rightarrow> Inr (None, None)
   | Some (b, m) \<Rightarrow> Inr (Some b, Some m))"

definition pg_put_barrier :: "(bytes \<Rightarrow> bytes option) \<Rightarrow> bytes \<Rightarrow> bytes \<Rightarrow> (pg_store, store_error, unit) op" where
  "pg_put_barrier jsonb b m = pg_exec (\<lambda>s. case jsonb m of
     None \<Rightarrow> (Inl (Store_Failure ''json''), s)
   | Some m' \<Rightarrow> (Inr (), s\<lparr>pg_barrier := Some (b, m')\<rparr>))"

definition pg_get_secret :: "string \<Rightarrow> pg_store \<Rightarrow> (store_error, bytes option) result" where
  "pg_get_secret p = pg_query (\<lambda>s. Inr (map_of (pg_secrets s) p))"

definition pg_put_secret :: "string \<Rightarrow> bytes \<Rightarrow> (pg_store, store_error, unit) op" where
  "pg_put_secret p d = pg_exec (\<lambda>s. (Inr (), s\<lparr>pg_secrets := AList.update p d (pg_secrets s)\<rparr>))"

definition pg_put_secret_if_absent :: "string \<Rightarrow> bytes \<Rightarrow> (pg_store, store_error, bool) op" where
  "pg_put_secret_if_absent p d = pg_exec (\<lambda>s.
     case map_of (pg_secrets s) p of
       Some _ \<Rightarrow> (Inr False, s)
     | None \<Rightarrow> (Inr True, s\<lparr>pg_secrets := AList.update p d (pg_secrets s)\<rparr>))"

definition pg_delete_secret :: "string \<Rightarrow> (pg_store, store_error, unit) op" where
  "pg_delete_secret p = pg_exec (\<lambda>s. (Inr (), s\<lparr>pg_secrets := AList.delete p (pg_secrets s)\<rparr>))"

definition pg_delete_prefix :: "string \<Rightarrow> (pg_store, store_error, nat) op" where
  "pg_delete_prefix pre s =
    (if pre = [] then (Inl Empty_Prefix, s)
     else pg_exec (\<lambda>s.
       let (gone, kept) = partition (\<lambda>x. like_match (pre @ ''%'') (fst x)) (pg_secrets s)
       in (Inr (length gone), s\<lparr>pg_secrets := kept\<rparr>)) s)"

definition pg_list_secrets ::
  "(string list \<Rightarrow> string list) \<Rightarrow> string \<Rightarrow> pg_store \<Rightarrow> (store_error, string list) result" where
  "pg_list_secrets collate pre = pg_query (\<lambda>s. Inr (collate
     (if pre = [] then map fst (pg_secrets s)
      else filter (like_match (pre @ ''%'')) (map fst (pg_secrets s)))))"

definition postgres_ops :: "(bytes \<Rightarrow> bytes option) \<Rightarrow> (string list \<Rightarrow> string list) \<Rightarrow> pg_store vault_store" where
  "postgres_ops jsonb collate = \<lparr>get_barrier = pg_get_barrier, put_barrier = pg_put_barrier jsonb,
    get_secret = pg_get_secret, put_secret = pg_put_secret, put_secret_if_absent = pg_put_secret_if_absent,
    delete_secret = pg_delete_secret, delete_prefix = pg_delete_prefix, list_secrets = pg_list_secrets collate\<rparr>"

definition pg_avail :: "pg_store \<Rightarrow> bool" where
  "pg_avail s \<longleftrightarrow> pg_up s \<and> distinct (map fst (pg_secrets s))"

definition pg_view :: "pg_store \<Rightarrow> store_view" where
  "pg_view s = \<lparr>view_barrier = pg_barrier s, view_secrets = map_of (pg_secrets s)\<rparr>"

lemmas pg_defs = pg_get_barrier_def pg_put_barrier_def pg_get_secret_def pg_put_secret_def
  pg_put_secret_if_absent_def pg_delete_secret_def pg_exec_def pg_query_def pg_avail_def pg_view_def

interpretation pg: vault_store_laws "postgres_ops jsonb collate" pg_avail pg_view jsonb for jsonb collate
proof unfold_locales
  show "\<exists>s'. put_secret_if_absent (postgres_ops jsonb collate) p d s
      = (Inr (view_secrets (pg_view s) p = None), s') \<and> pg_avail s' \<and> pg_view s' =
      (if view_secrets (pg_view s) p = None
       then (pg_view s)\<lparr>view_secrets := (view_secrets (pg_view s))(p \<mapsto> d)\<rparr> else pg_view s)"
    if "pg_avail s" for s p d
    using that by (cases "map_of (pg_secrets s) p") (simp_all add: postgres_ops_def pg_defs distinct_update update_conv')
  show "\<exists>s'. delete_secret (postgres_ops jsonb collate) p s = (Inr (), s') \<and> pg_avail s' \<and>
      pg_view s' = (pg_view s)\<lparr>view_secrets := (view_secrets (pg_view s))(p := None)\<rparr>" if "pg_avail s" for s p
    using that by (simp add: postgres_ops_def pg_defs distinct_delete delete_conv')
qed (auto simp: postgres_ops_def pg_defs distinct_update update_conv' split: option.splits)

section \<open>Prefixes\<close>

definition like_literal :: "char \<Rightarrow> bool" where
  "like_literal c \<longleftrightarrow> c \<noteq> CHR ''%'' \<and> c \<noteq> CHR ''_'' \<and> c \<noteq> CHR 0x5C"

lemma like_match_percent [simp]: "like_match ''%'' t"
  by (induction t) simp_all

lemma like_match_prefix:
  "\<forall>c \<in> set pre. like_literal c \<Longrightarrow> like_match (pre @ ''%'') t \<longleftrightarrow> prefix pre t"
proof (induction pre arbitrary: t)
  case Nil
  show ?case by (simp del: like_match.simps)
next
  case (Cons c pre)
  then show ?case by (cases t) (auto simp: like_literal_def)
qed

text \<open>
  On a prefix without \<open>%\<close>, \<open>_\<close> or a backslash the Postgres store agrees with the contract: \<open>DeletePrefix\<close>
  removes exactly the secrets whose path starts with the prefix, and reports their number.
\<close>

theorem pg_delete_prefix_literal:
  assumes "pg_up s" "distinct (map fst (pg_secrets s))" "pre \<noteq> []" "\<forall>c \<in> set pre. like_literal c"
  shows "\<exists>s'. pg_delete_prefix pre s = (Inr (card {p \<in> dom (map_of (pg_secrets s)). prefix pre p}), s') \<and>
    map_of (pg_secrets s') = map_of (pg_secrets s) |` {p. \<not> prefix pre p} \<and> pg_barrier s' = pg_barrier s"
  using assms by (simp add: pg_delete_prefix_def pg_exec_def like_match_prefix length_filter_keys
      map_of_filter_keys [of "\<lambda>p. \<not> prefix pre p"] comp_def)

theorem pg_delete_prefix_literal_witness:
  "\<exists>s'. pg_delete_prefix ''a/'' \<lparr>pg_barrier = None, pg_secrets = [(''a/x'', [1]), (''b/y'', [2])], pg_up = True\<rparr>
      = (Inr (card {p \<in> dom (map_of [(''a/x'', [1 :: byte]), (''b/y'', [2])]). prefix ''a/'' p}), s') \<and>
    map_of (pg_secrets s') = map_of [(''a/x'', [1]), (''b/y'', [2])] |` {p. \<not> prefix ''a/'' p} \<and>
    pg_barrier s' = None"
  using pg_delete_prefix_literal [of
      "\<lparr>pg_barrier = None, pg_secrets = [(''a/x'', [1]), (''b/y'', [2])], pg_up = True\<rparr>" "''a/''"]
  by (simp add: like_literal_def)

text \<open>
  The prefix is a \<open>LIKE\<close> pattern in Postgres: an underscore in it matches any character, so deleting the
  prefix of one project's secrets removes another's too, which the in-memory store does not.
\<close>

theorem pg_delete_prefix_wildcard:
  "pg_delete_prefix ''projects/my_app/''
     \<lparr>pg_barrier = None, pg_secrets = [(''projects/my_app/k'', [1]), (''projects/my-app/k'', [2])], pg_up = True\<rparr>
   = (Inr 2, \<lparr>pg_barrier = None, pg_secrets = [], pg_up = True\<rparr>) \<and>
   mem_delete_prefix ''projects/my_app/''
     \<lparr>mem_barrier = None, mem_meta = None, mem_secrets = [(''projects/my_app/k'', [1]), (''projects/my-app/k'', [2])]\<rparr>
   = (Inr 1, \<lparr>mem_barrier = None, mem_meta = None, mem_secrets = [(''projects/my-app/k'', [2])]\<rparr>)"
  by (simp add: pg_delete_prefix_def pg_exec_def mem_delete_prefix_def)

text \<open>
  In the in-memory store \<open>DeletePrefix\<close> removes exactly the paths with the prefix: none is listed
  afterwards, and every other secret reads as before.
\<close>

theorem mem_delete_prefix_exact:
  assumes "mem_wf s" "pre \<noteq> []" "mem_delete_prefix pre s = (Inr n, s')"
  shows "n = card {p \<in> dom (map_of (mem_secrets s)). prefix pre p} \<and> mem_list_secrets pre s' = Inr [] \<and>
    (\<forall>p. mem_get_secret p s' = (if prefix pre p then Inr None else mem_get_secret p s))"
proof -
  have d: "delete_prefix memory_ops pre s = (Inr n, s')" using assms(3) by (simp add: memory_ops_def)
  have o: "list_secrets memory_ops = mem_list_secrets" "get_secret memory_ops = mem_get_secret"
    by (simp_all add: memory_ops_def)
  note law = mem.delete_prefix_law [OF assms(1,2)]
  have "mem_get_secret p s' = Inr None" if "prefix pre p" for p
    using law d that mem.get_secret_law [of s' p] by (auto simp: o(2))
  moreover have "n = card {p \<in> dom (map_of (mem_secrets s)). prefix pre p}" using law d by auto
  ultimately show ?thesis
    using mem.list_after_delete_prefix [OF assms(1,2) d] mem.delete_prefix_keeps_others [OF assms(1,2) d]
    by (simp add: o)
qed

theorem mem_delete_prefix_exact_witness:
  "\<exists>s'. mem_delete_prefix ''a'' (new_memory_store\<lparr>mem_secrets := [(''ab'', [1]), (''b'', [2])]\<rparr>) = (Inr 1, s') \<and>
    mem_list_secrets ''a'' s' = Inr []"
proof -
  have "\<exists>s'. mem_delete_prefix ''a'' (new_memory_store\<lparr>mem_secrets := [(''ab'', [1]), (''b'', [2])]\<rparr>) = (Inr 1, s')"
    by (simp add: mem_delete_prefix_def new_memory_store_def)
  then obtain s' where
    s': "mem_delete_prefix ''a'' (new_memory_store\<lparr>mem_secrets := [(''ab'', [1]), (''b'', [2])]\<rparr>) = (Inr 1, s')" ..
  from mem_delete_prefix_exact [OF _ _ s'] have "mem_list_secrets ''a'' s' = Inr []"
    by (simp add: mem_wf_def new_memory_store_def)
  with s' show ?thesis by blast
qed

end
