(* ===== verification/GF256.thy ===== *)
theory GF256
  imports Prelude
begin

text \<open>
  Arithmetic in GF(2^8) as \<^verbatim>\<open>pkg/vault/shamir/shamir.go\<close> computes it on bytes: \<open>add\<close>, the
  constant-time \<open>mult\<close>, the addition chain \<open>inverse\<close> and the panicking \<open>div\<close>. The lemmas show
  that the eight-step shift-and-mask loop is bilinear over exclusive or, hence commutative,
  associative and distributive, and that the addition chain computes multiplicative inverses. The
  type \<open>gf\<close> packages the bytes with these operations as an instance of the library's class
  \<open>field\<close>, so that the interpolation proof of theory \<open>Shamir\<close> is ordinary field algebra.
\<close>

section \<open>The code's operations\<close>

text \<open>\<open>add\<close>: exclusive or (also the subtraction).\<close>

definition gf_add :: "byte \<Rightarrow> byte \<Rightarrow> byte" where
  "gf_add a b = a XOR b"

text \<open>The loop of \<open>mult\<close>: \<open>i\<close> counts down from 8 and is decremented before each step.\<close>

fun mult_loop :: "byte \<Rightarrow> byte \<Rightarrow> byte \<Rightarrow> nat \<Rightarrow> byte" where
  "mult_loop a b r 0 = r"
| "mult_loop a b r (Suc i) =
     mult_loop a b
       (((- (drop_bit i b AND 1)) AND a) XOR ((- drop_bit 7 r) AND 0x1B) XOR (r + r)) i"

definition gf_mult :: "byte \<Rightarrow> byte \<Rightarrow> byte" where
  "gf_mult a b = mult_loop a b 0 8"

text \<open>\<open>inverse\<close>: the addition chain for the exponent 254, with the code's reassignments.\<close>

definition gf_inverse :: "byte \<Rightarrow> byte" where
  "gf_inverse a =
    (let b = gf_mult a a; c = gf_mult a b; b = gf_mult c c; b = gf_mult b b; c = gf_mult b c;
         b = gf_mult b b; b = gf_mult b b; b = gf_mult b c; b = gf_mult b b; b = gf_mult a b
     in gf_mult b b)"

text \<open>
  \<open>div\<close> panics on a zero divisor (\<open>None\<close>); its constant-time select returns zero for a zero
  dividend.
\<close>

definition gf_div :: "byte \<Rightarrow> byte \<Rightarrow> byte option" where
  "gf_div a b =
    (if b = 0 then None
     else let ret = gf_mult a (gf_inverse b) in Some (if a = 0 then 0 else ret))"

section \<open>Multiplication by the generator, and bilinearity\<close>

text \<open>\<open>xtime\<close> is one step of the loop: a shift, reduced by the field's polynomial.\<close>

definition xtime :: "byte \<Rightarrow> byte" where
  "xtime r = (if bit r 7 then 0x1B else 0) XOR push_bit 1 r"

lemma neg_and_bit: "(- (drop_bit i b AND 1)) AND a = (if bit b i then a else (0::byte))"
  by (simp add: and_one_eq mod_2_eq_odd bit_iff_odd_drop_bit)

lemma drop7: "drop_bit 7 (r::byte) = (if bit r 7 then 1 else 0)"
proof (rule bit_eqI)
  fix n assume "possible_bit TYPE(8 word) n"
  show "bit (drop_bit 7 r) n = bit (if bit r 7 then 1 else 0 :: byte) n"
    by (cases "n = 0") (auto simp: bit_simps dest: bit_imp_le_length)
qed

lemma carry_mask: "(- drop_bit 7 r) AND 0x1B = (if bit r 7 then 0x1B else (0::byte))"
  by (simp add: drop7)

lemma double_shift: "(r::byte) + r = push_bit 1 r"
  by (simp only: push_bit_eq_mult power_one_right mult_2_right)

lemma mult_loop_Suc:
  "mult_loop a b r (Suc i) = mult_loop a b ((if bit b i then a else 0) XOR xtime r) i"
  by (simp only: mult_loop.simps neg_and_bit carry_mask double_shift xtime_def xor.assoc)

lemma xor_self_left: "(a::byte) XOR (a XOR b) = b"
  by (rule bit_eqI) (auto simp: bit_simps)

lemma xtime_xor: "xtime (r XOR s) = xtime r XOR xtime s"
proof -
  have shift: "push_bit 1 (r XOR s) = push_bit 1 r XOR push_bit 1 s" by (rule push_bit_xor)
  show ?thesis
    unfolding xtime_def shift bit_xor_iff
    by (cases "bit r 7"; cases "bit s 7") (simp_all add: xor_self_left ac_simps del: push_bit_Suc)
qed

lemma xtime_0[simp]: "xtime 0 = 0" by (simp add: xtime_def)

lemma xtime_pow_xor: "(xtime ^^ n) (r XOR s) = (xtime ^^ n) r XOR (xtime ^^ n) s"
  by (induction n) (auto simp: xtime_xor)
lemma xtime_pow_0[simp]: "(xtime ^^ n) 0 = 0"
  by (induction n) auto

fun msum :: "byte \<Rightarrow> byte \<Rightarrow> nat \<Rightarrow> byte" where
  "msum a b 0 = 0"
| "msum a b (Suc i) = (if bit b i then (xtime ^^ i) a else 0) XOR msum a b i"

lemma mult_loop_msum: "mult_loop a b r n = msum a b n XOR (xtime ^^ n) r"
proof (induction n arbitrary: r)
  case 0
  then show ?case by simp
next
  case (Suc n)
  have "(xtime ^^ n) (xtime r) = (xtime ^^ Suc n) r" by (simp only: funpow_Suc_right o_apply)
  then show ?case
    by (simp add: mult_loop_Suc Suc xtime_pow_xor ac_simps del: mult_loop.simps funpow.simps)
qed

lemma gf_mult_msum: "gf_mult a b = msum a b 8"
  by (simp add: gf_mult_def mult_loop_msum)

lemma msum_xor_left: "msum (a XOR a') b n = msum a b n XOR msum a' b n"
  by (induction n) (auto simp: xtime_pow_xor ac_simps)
lemma msum_xor_right: "msum a (b XOR b') n = msum a b n XOR msum a b' n"
  by (induction n) (auto simp: bit_simps xor_self_left ac_simps)

lemma mult_xor_left: "gf_mult (a XOR a') b = gf_mult a b XOR gf_mult a' b"
  and mult_xor_right: "gf_mult a (b XOR b') = gf_mult a b XOR gf_mult a b'"
  by (simp_all add: gf_mult_msum msum_xor_left msum_xor_right)

lemma msum_basis: "i < 8 \<Longrightarrow> msum a (push_bit i 1) n = (if i < n then (xtime ^^ i) a else 0)"
proof (induction n)
  case (Suc n)
  then show ?case by (cases "n = i") (simp_all add: bit_simps less_Suc_eq)
qed simp

lemma mult_basis: "i < 8 \<Longrightarrow> gf_mult a (push_bit i 1) = (xtime ^^ i) a"
  by (simp only: gf_mult_msum msum_basis if_True)

fun bsum :: "byte \<Rightarrow> nat \<Rightarrow> byte" where
  "bsum w 0 = 0"
| "bsum w (Suc i) = (if bit w i then push_bit i 1 else 0) XOR bsum w i"

lemma bit_bsum: "n \<le> 8 \<Longrightarrow> bit (bsum w n) k = (k < n \<and> bit w k)"
proof (induction n)
  case (Suc n)
  then show ?case by (cases "k = n") (auto simp: bit_simps less_Suc_eq)
qed simp

lemma byte_expand: "bsum w 8 = w"
  by (rule bit_eqI) (simp add: bit_bsum)

lemma byte_induct:
  assumes "P (0::byte)" "\<And>i. i < 8 \<Longrightarrow> P (push_bit i 1)" "\<And>x y. P x \<Longrightarrow> P y \<Longrightarrow> P (x XOR y)"
  shows "P w"
proof -
  have "n \<le> 8 \<Longrightarrow> P (bsum w n)" for n
    by (induction n) (use assms in \<open>auto simp: xor.left_neutral\<close>)
  from this[of 8] show ?thesis by (simp add: byte_expand)
qed

lemma mult_0_right[simp]: "gf_mult a 0 = 0" and mult_0_left[simp]: "gf_mult 0 b = 0"
proof -
  have "msum a 0 n = 0" "msum 0 b n = 0" for n by (induction n) auto
  then show "gf_mult a 0 = 0" "gf_mult 0 b = 0" by (simp_all add: gf_mult_msum)
qed

lemma lt8E:
  assumes "i < (8::nat)"
  obtains "i = 0" | "i = 1" | "i = 2" | "i = 3" | "i = 4" | "i = 5" | "i = 6" | "i = 7"
proof -
  have "i = 0 \<or> i = 1 \<or> i = 2 \<or> i = 3 \<or> i = 4 \<or> i = 5 \<or> i = 6 \<or> i = 7" using assms by presburger
  then show ?thesis using that by blast
qed

lemma xtime_unfold:
  "(xtime ^^ 0) r = r" "(xtime ^^ 1) r = xtime r" "(xtime ^^ 2) r = xtime (xtime r)"
  "(xtime ^^ 3) r = xtime (xtime (xtime r))" "(xtime ^^ 4) r = xtime (xtime (xtime (xtime r)))"
  "(xtime ^^ 5) r = xtime (xtime (xtime (xtime (xtime r))))"
  "(xtime ^^ 6) r = xtime (xtime (xtime (xtime (xtime (xtime r)))))"
  "(xtime ^^ 7) r = xtime (xtime (xtime (xtime (xtime (xtime (xtime r))))))"
  "(xtime ^^ 8) r = xtime (xtime (xtime (xtime (xtime (xtime (xtime (xtime r)))))))"
  by (simp_all add: numeral_eq_Suc)

lemma xtime_8: "(xtime ^^ 8) r = (xtime ^^ 4) r XOR (xtime ^^ 3) r XOR (xtime ^^ 1) r XOR r"
proof (induction r rule: byte_induct)
  case (2 i)
  then show ?case unfolding xtime_unfold by (elim lt8E) (simp_all add: xtime_def)
next
  case (3 x y)
  then show ?case unfolding xtime_pow_xor by (simp add: ac_simps)
qed simp

lemma mult_1_right [simp]: "gf_mult a 1 = a"
  using mult_basis[of 0 a] by simp

lemma mult_1b: "gf_mult a 0x1B = (xtime ^^ 4) a XOR (xtime ^^ 3) a XOR (xtime ^^ 1) a XOR a"
proof -
  have "(0x1B::byte) = push_bit 4 1 XOR push_bit 3 1 XOR push_bit 1 1 XOR push_bit 0 1" by simp
  then show ?thesis by (simp only: mult_xor_right mult_basis[of 4] mult_basis[of 3] mult_basis[of 1] mult_basis[of 0]) simp
qed

lemma xtime_basis: "i < 7 \<Longrightarrow> xtime (push_bit i 1) = push_bit (Suc i) 1"
  and xtime_basis7: "xtime (push_bit 7 1) = 0x1B"
  by (simp_all add: xtime_def bit_simps)

lemma mult_xtime_right: "gf_mult a (xtime b) = xtime (gf_mult a b)"
proof (induction b rule: byte_induct)
  case (2 i)
  show ?case
  proof (cases "i = 7")
    case True
    have "xtime ((xtime ^^ 7) a) = (xtime ^^ 8) a" by (simp add: xtime_unfold)
    moreover note True
    moreover have "gf_mult a (push_bit 7 1) = (xtime ^^ 7) a" by (rule mult_basis) simp
    ultimately show ?thesis by (simp add: xtime_basis7 mult_1b xtime_8 del: push_bit_of_1)
  next
    case False
    with 2 have "i < 7" by simp
    then have "Suc i < 8" by simp
    from mult_basis [OF this, of a] mult_basis [OF 2, of a] show ?thesis
      by (simp only: xtime_basis [OF \<open>i < 7\<close>]) simp
  qed
next
  case (3 x y)
  then show ?case by (simp only: xtime_xor mult_xor_right)
qed simp

lemma mult_xtime_pow: "gf_mult a ((xtime ^^ n) b) = (xtime ^^ n) (gf_mult a b)"
  by (induction n) (simp_all add: mult_xtime_right)

lemma gf_mult_assoc: "gf_mult (gf_mult a b) c = gf_mult a (gf_mult b c)"
proof (induction c rule: byte_induct)
  case (2 i)
  then show ?case by (simp only: mult_basis mult_xtime_pow)
next
  case (3 x y)
  then show ?case by (simp only: mult_xor_right)
qed simp

lemma mult_1_left [simp]: "gf_mult 1 b = b"
proof (induction b rule: byte_induct)
  case (2 i)
  have "(xtime ^^ j) 1 = push_bit j 1" if "j < 8" for j
    using that by (induction j) (simp_all add: xtime_basis del: push_bit_of_1)
  with 2 show ?case by (simp only: mult_basis)
next
  case (3 x y)
  then show ?case by (simp only: mult_xor_right)
qed simp

lemma xtime_eq_mult: "xtime b = gf_mult b 2"
  using mult_basis[of 1 b] by simp

lemma mult_xtime_left: "gf_mult (xtime a) b = xtime (gf_mult a b)"
proof (induction b rule: byte_induct)
  case (2 i)
  then show ?case by (simp only: mult_basis funpow_swap1)
next
  case (3 x y)
  then show ?case by (simp only: mult_xor_right xtime_xor)
qed simp

lemma mult_xtime_pow_left: "gf_mult ((xtime ^^ n) a) b = (xtime ^^ n) (gf_mult a b)"
  by (induction n) (simp_all add: mult_xtime_left)

lemma gf_mult_commute: "gf_mult a b = gf_mult b a"
proof (induction b rule: byte_induct)
  case (2 i)
  have "gf_mult (push_bit i 1) a = gf_mult ((xtime ^^ i) 1) a" using mult_basis[OF 2, of 1] by simp
  also have "\<dots> = (xtime ^^ i) a" by (simp add: mult_xtime_pow_left)
  finally show ?case by (simp only: mult_basis[OF 2])
next
  case (3 x y)
  then show ?case by (simp only: mult_xor_right mult_xor_left)
qed simp

lemma sq_xor: "gf_mult (x XOR y) (x XOR y) = gf_mult x x XOR gf_mult y y"
  by (simp add: mult_xor_left mult_xor_right gf_mult_commute [of y x] xor_self_left ac_simps)

lemma square_expand:
  "gf_mult x x = (if bit x 7 then 0x9A else 0) XOR (if bit x 6 then 0xAB else 0)
     XOR (if bit x 5 then 0x6C else 0) XOR (if bit x 4 then 0x1B else 0)
     XOR (if bit x 3 then 0x40 else 0) XOR (if bit x 2 then 0x10 else 0)
     XOR (if bit x 1 then 4 else 0) XOR (if bit x 0 then 1 else 0)" (is "_ = ?R x")
proof (induction x rule: byte_induct)
  case 1
  show ?case by simp
next
  case (2 i)
  then show ?case unfolding mult_basis [OF 2] by (elim lt8E) (simp_all add: xtime_unfold xtime_def)
next
  case (3 x y)
  have c: "(if A \<noteq> B then u else 0) = (if A then u else 0) XOR (if B then u else (0::byte))" for A B u by simp
  show ?case unfolding sq_xor 3 bit_xor_iff c by (simp only: ac_simps)
qed

lemma gf_idempotent: "gf_mult x x = x \<Longrightarrow> x = 0 \<or> x = 1"
proof -
  assume a: "gf_mult x x = x"
  have e: "bit x n = bit (gf_mult x x) n" for n using a by simp
  note eqs = e[of 0, unfolded square_expand] e[of 1, unfolded square_expand] e[of 2, unfolded square_expand]
     e[of 3, unfolded square_expand] e[of 4, unfolded square_expand] e[of 5, unfolded square_expand] e[of 6, unfolded square_expand] e[of 7, unfolded square_expand]
  have "\<not> bit x 7 \<and> \<not> bit x 6 \<and> \<not> bit x 5 \<and> \<not> bit x 4 \<and> \<not> bit x 3 \<and> \<not> bit x 2 \<and> \<not> bit x 1"
    using eqs by (auto simp: bit_simps split: if_splits)
  then have "bsum x 8 = (if bit x 0 then 1 else 0)" by (simp add: eval_nat_numeral)
  then show ?thesis by (auto simp: byte_expand split: if_splits)
qed

section \<open>The field\<close>

typedef gf = "UNIV :: byte set"
  morphisms byte_of gf_of by simp

setup_lifting type_definition_gf

instantiation gf :: comm_ring_1
begin

lift_definition zero_gf :: gf is 0 .
lift_definition one_gf :: gf is 1 .
lift_definition plus_gf :: "gf \<Rightarrow> gf \<Rightarrow> gf" is gf_add .
lift_definition minus_gf :: "gf \<Rightarrow> gf \<Rightarrow> gf" is gf_add .
lift_definition uminus_gf :: "gf \<Rightarrow> gf" is "\<lambda>a. a" .
lift_definition times_gf :: "gf \<Rightarrow> gf \<Rightarrow> gf" is gf_mult .

instance
proof
  fix a b c :: gf
  show "a * b * c = a * (b * c)" by transfer (rule gf_mult_assoc)
  show "a * b = b * a" by transfer (rule gf_mult_commute)
  show "1 * a = a" by transfer simp
  show "a + b + c = a + (b + c)" by transfer (simp add: gf_add_def xor.assoc)
  show "a + b = b + a" by transfer (simp add: gf_add_def xor.commute)
  show "0 + a = a" by transfer (simp add: gf_add_def)
  show "- a + a = 0" by transfer (simp add: gf_add_def)
  show "a - b = a + - b" by transfer simp
  show "(a + b) * c = a * c + b * c" by transfer (simp add: gf_add_def mult_xor_left)
  show "(0::gf) \<noteq> 1" by transfer simp
qed

end

lemma gf_add_self [simp]: "(x::gf) + x = 0"
  by transfer (simp add: gf_add_def)

lemma gf_square_add: "((x::gf) + y) ^ 2 = x ^ 2 + y ^ 2"
proof -
  have "(x + y) ^ 2 = x ^ 2 + (x * y + x * y) + y ^ 2"
    by (simp only: power2_eq_square distrib_left distrib_right mult.commute [of y x] add.assoc)
  then show ?thesis by simp
qed

text \<open>Eight squarings are the identity, as they are on the basis.\<close>

lemma gf_frobenius_add: "((x::gf) + y) ^ (2 ^ n) = x ^ (2 ^ n) + y ^ (2 ^ n)"
proof (induction n)
  case (Suc n)
  have "((x + y) ^ 2 ^ n) ^ 2 = (x ^ 2 ^ n) ^ 2 + (y ^ 2 ^ n) ^ 2"
    by (simp only: Suc gf_square_add)
  then show ?case by (simp add: mult.commute flip: power_mult)
qed simp

lemma gf_of_xor: "gf_of (x XOR y) = gf_of x + gf_of y"
  by (simp add: plus_gf_def gf_of_inverse gf_add_def)

lemma gf_of_mult: "gf_of (gf_mult x y) = gf_of x * gf_of y"
  by (simp add: times_gf_def gf_of_inverse)

lemma gf_of_0 [simp]: "gf_of 0 = 0" and gf_of_1 [simp]: "gf_of 1 = 1"
  by (simp_all add: zero_gf_def one_gf_def)

lemma gf_of_basis: "i < 8 \<Longrightarrow> gf_of (push_bit i 1) = gf_of 2 ^ i"
proof (induction i)
  case (Suc i)
  then have "gf_of (push_bit (Suc i) 1) = gf_of (xtime (push_bit i 1))"
    by (simp only: xtime_basis)
  also have "\<dots> = gf_of 2 * gf_of 2 ^ i"
    using Suc by (simp only: xtime_eq_mult gf_of_mult) (simp add: mult.commute)
  finally show ?case by simp
qed simp

lemma power_256: "(x :: 'a :: monoid_mult) ^ 256 = (((((((x\<^sup>2)\<^sup>2)\<^sup>2)\<^sup>2)\<^sup>2)\<^sup>2)\<^sup>2)\<^sup>2"
  by (simp only: power_mult [symmetric]) simp

lemma gf_two_256: "(gf_of 2) ^ 256 = gf_of 2"
proof -
  have sq: "gf_of x ^ 2 = gf_of (gf_mult x x)" for x
    by (simp add: power2_eq_square gf_of_mult)
  have "gf_mult 2 2 = 4" "gf_mult 4 4 = 0x10" "gf_mult 0x10 0x10 = 0x1B"
    "gf_mult 0x1B 0x1B = 0x5E" "gf_mult 0x5E 0x5E = 0xE4" "gf_mult 0xE4 0xE4 = 0x4D"
    "gf_mult 0x4D 0x4D = 0xFA" "gf_mult 0xFA 0xFA = 2"
    by (simp_all add: square_expand)
  then show ?thesis by (simp only: power_256 sq)
qed

lemma gf_256: "(x::gf) ^ 256 = x"
proof (cases x)
  case (gf_of w)
  have "gf_of w ^ 256 = gf_of w"
  proof (induction w rule: byte_induct)
    case (2 i)
    show ?case unfolding gf_of_basis [OF 2]
      by (metis gf_two_256 power_commutes power_mult mult.commute)
  next
    case (3 u v)
    then show ?case using gf_frobenius_add [of _ _ 8] by (simp add: gf_of_xor)
  qed simp_all
  with gf_of show ?thesis by simp
qed

lemma gf_idempotent_cases: "(x::gf) * x = x \<Longrightarrow> x = 0 \<or> x = 1"
  by transfer (rule gf_idempotent)

lemma gf_255: "(x::gf) \<noteq> 0 \<Longrightarrow> x ^ 255 = 1"
proof -
  assume "x \<noteq> 0"
  have s: "x * x ^ 255 = x" using gf_256 [of x] by (simp flip: power_Suc)
  have "x ^ 255 * x ^ 255 = x ^ 256 * x ^ 254" by (simp flip: power_add)
  also have "\<dots> = x ^ 255" unfolding gf_256 by (simp flip: power_Suc)
  finally have "x ^ 255 * x ^ 255 = x ^ 255" .
  then have "x ^ 255 = 0 \<or> x ^ 255 = 1"
    by (rule gf_idempotent_cases)
  with s \<open>x \<noteq> 0\<close> show ?thesis by auto
qed

lemma gf_of_mult_pow:
  "gf_of x = a ^ m \<Longrightarrow> gf_of y = a ^ n \<Longrightarrow> gf_of (gf_mult x y) = a ^ (m + n)"
  by (simp add: gf_of_mult power_add)

lemma gf_of_inverse_pow: "gf_of (gf_inverse a) = gf_of a ^ 254"
proof -
  define a2 where "a2 = gf_mult a a"
  define a3 where "a3 = gf_mult a a2"
  define a6 where "a6 = gf_mult a3 a3"
  define a12 where "a12 = gf_mult a6 a6"
  define a15 where "a15 = gf_mult a12 a3"
  define a24 where "a24 = gf_mult a12 a12"
  define a48 where "a48 = gf_mult a24 a24"
  define a63 where "a63 = gf_mult a48 a15"
  define a126 where "a126 = gf_mult a63 a63"
  define a127 where "a127 = gf_mult a a126"
  note defs = a2_def a3_def a6_def a12_def a15_def a24_def a48_def a63_def a126_def a127_def
  let ?g = "gf_of a"
  have 2: "gf_of a2 = ?g ^ 2" by (simp add: a2_def gf_of_mult power2_eq_square)
  have 3: "gf_of a3 = ?g ^ 3" by (simp add: a3_def gf_of_mult 2 flip: power_Suc)
  have 6: "gf_of a6 = ?g ^ 6" using gf_of_mult_pow [OF 3 3] by (simp add: a6_def)
  have 12: "gf_of a12 = ?g ^ 12" using gf_of_mult_pow [OF 6 6] by (simp add: a12_def)
  have 15: "gf_of a15 = ?g ^ 15" using gf_of_mult_pow [OF 12 3] by (simp add: a15_def)
  have 24: "gf_of a24 = ?g ^ 24" using gf_of_mult_pow [OF 12 12] by (simp add: a24_def)
  have 48: "gf_of a48 = ?g ^ 48" using gf_of_mult_pow [OF 24 24] by (simp add: a48_def)
  have 63: "gf_of a63 = ?g ^ 63" using gf_of_mult_pow [OF 48 15] by (simp add: a63_def)
  have 126: "gf_of a126 = ?g ^ 126" using gf_of_mult_pow [OF 63 63] by (simp add: a126_def)
  have 127: "gf_of a127 = ?g ^ 127" by (simp add: a127_def gf_of_mult 126 flip: power_Suc)
  have "gf_inverse a = gf_mult a127 a127" by (simp only: gf_inverse_def Let_def defs)
  with gf_of_mult_pow [OF 127 127] show ?thesis by simp
qed

instantiation gf :: field
begin

lift_definition inverse_gf :: "gf \<Rightarrow> gf" is gf_inverse .
lift_definition divide_gf :: "gf \<Rightarrow> gf \<Rightarrow> gf" is "\<lambda>a b. gf_mult a (gf_inverse b)" .

instance
proof
  fix a b :: gf
  have inv: "inverse a = a ^ 254" for a :: gf
    by (cases a) (simp add: inverse_gf_def gf_of_inverse gf_of_inverse_pow)
  show "inverse a * a = 1" if "a \<noteq> 0"
    using gf_255 [OF that] by (simp add: inv flip: power_Suc2)
  show "a div b = a * inverse b" by transfer simp
  show "inverse (0::gf) = 0" by (simp add: inv)
qed

end

lemma gf_of_div: "b \<noteq> 0 \<Longrightarrow> \<exists>q. gf_div a b = Some q \<and> gf_of q = gf_of a / gf_of b"
  by (simp add: gf_div_def Let_def gf_of_mult divide_gf_def gf_of_inverse)

end
