(* ===== verification/Lagrange.thy ===== *)
theory Lagrange
  imports Main
begin

text \<open>
  Polynomial functions over a field, as coefficient lists, and Lagrange interpolation: a polynomial
  with \<open>n\<close> coefficients is determined by its values at \<open>n\<close> distinct points, and there is one
  through any \<open>n\<close> prescribed values. Theory \<open>Shamir\<close> applies both to the field of bytes.
\<close>

section \<open>Polynomial functions\<close>

fun horner :: "'a::field list \<Rightarrow> 'a \<Rightarrow> 'a" where
  "horner [] x = 0"
| "horner (c # cs) x = c + x * horner cs x"

definition poly_fun :: "nat \<Rightarrow> ('a::field \<Rightarrow> 'a) \<Rightarrow> bool" where
  "poly_fun n f \<longleftrightarrow> (\<exists>cs. length cs = n \<and> f = horner cs)"

lemma poly_fun_0: "poly_fun 0 f \<longleftrightarrow> f = (\<lambda>_. 0)"
  by (auto simp: poly_fun_def)

lemma poly_fun_Suc: "poly_fun (Suc n) f \<longleftrightarrow> (\<exists>c g. poly_fun n g \<and> f = (\<lambda>x. c + x * g x))"
proof
  assume "poly_fun (Suc n) f"
  then obtain c cs where "length cs = n" "f = horner (c # cs)"
    by (auto simp: poly_fun_def length_Suc_conv)
  then show "\<exists>c g. poly_fun n g \<and> f = (\<lambda>x. c + x * g x)"
    by (intro exI [of _ c] exI [of _ "horner cs"]) (auto simp: poly_fun_def)
next
  assume "\<exists>c g. poly_fun n g \<and> f = (\<lambda>x. c + x * g x)"
  then obtain c cs where "length cs = n" "f = (\<lambda>x. c + x * horner cs x)"
    by (auto simp: poly_fun_def)
  then show "poly_fun (Suc n) f"
    unfolding poly_fun_def by (intro exI [of _ "c # cs"]) auto
qed

lemma poly_fun_horner [intro]: "poly_fun (length cs) (horner cs)"
  by (auto simp: poly_fun_def)

lemma poly_fun_zero [intro]: "poly_fun n (\<lambda>_. 0)"
  by (induction n) (auto simp: poly_fun_0 poly_fun_Suc intro!: exI [of _ 0])

lemma poly_fun_add: "poly_fun n f \<Longrightarrow> poly_fun n g \<Longrightarrow> poly_fun n (\<lambda>x. f x + g x)"
proof (induction n arbitrary: f g)
  case (Suc n)
  then obtain c d f' g' where p: "poly_fun n f'" "poly_fun n g'"
    and e: "f = (\<lambda>x. c + x * f' x)" "g = (\<lambda>x. d + x * g' x)"
    by (auto simp: poly_fun_Suc)
  from p have "poly_fun n (\<lambda>x. f' x + g' x)" by (rule Suc.IH)
  moreover have "(\<lambda>x. f x + g x) = (\<lambda>x. (c + d) + x * (f' x + g' x))"
    by (simp add: e algebra_simps)
  ultimately show ?case unfolding poly_fun_Suc by blast
qed (simp add: poly_fun_0)

lemma poly_fun_scale: "poly_fun n f \<Longrightarrow> poly_fun n (\<lambda>x. a * f x)"
proof (induction n arbitrary: f)
  case (Suc n)
  then obtain c f' where p: "poly_fun n f'" and e: "f = (\<lambda>x. c + x * f' x)"
    by (auto simp: poly_fun_Suc)
  have "(\<lambda>x. a * f x) = (\<lambda>x. a * c + x * (a * f' x))" by (simp add: e algebra_simps)
  with Suc.IH [OF p] show ?case unfolding poly_fun_Suc by blast
qed (simp add: poly_fun_0)

lemma poly_fun_times_x: "poly_fun n f \<Longrightarrow> poly_fun (Suc n) (\<lambda>x. x * f x)"
  unfolding poly_fun_Suc by (intro exI [of _ 0] exI [of _ f]) simp

lemma poly_fun_SucI: "poly_fun n f \<Longrightarrow> poly_fun (Suc n) f"
proof (induction n arbitrary: f)
  case 0
  then show ?case by (simp add: poly_fun_0 poly_fun_zero)
next
  case (Suc n)
  then obtain c f' where p: "poly_fun n f'" and e: "f = (\<lambda>x. c + x * f' x)"
    by (auto simp: poly_fun_Suc)
  with Suc.IH [OF p] show ?case unfolding poly_fun_Suc [of "Suc n"] by blast
qed

lemma poly_fun_mono: "poly_fun m f \<Longrightarrow> m \<le> n \<Longrightarrow> poly_fun n f"
  by (induction n) (auto simp: le_Suc_eq intro: poly_fun_SucI)

lemma poly_fun_linear:
  assumes "poly_fun n f"
  shows "poly_fun (Suc n) (\<lambda>x. (x - a) / d * f x)"
proof -
  have e: "(\<lambda>x. (x - a) / d * f x) = (\<lambda>x. (1 / d) * (x * f x) + (- a / d) * f x)"
    by (simp add: divide_inverse algebra_simps)
  show ?thesis
    unfolding e using assms
    by (intro poly_fun_add poly_fun_scale poly_fun_times_x poly_fun_SucI)
qed

section \<open>Roots\<close>

text \<open>Division by a linear factor.\<close>

lemma poly_fun_factor:
  "poly_fun (Suc n) f \<Longrightarrow> \<exists>q. poly_fun n q \<and> (\<forall>x. f x = f a + (x - a) * q x)"
proof (induction n arbitrary: f)
  case 0
  then show ?case by (auto simp: poly_fun_Suc poly_fun_0)
next
  case (Suc n)
  then obtain c g where g: "poly_fun (Suc n) g" and f: "f = (\<lambda>x. c + x * g x)"
    by (auto simp: poly_fun_Suc [of "Suc n"])
  from Suc.IH [OF g] obtain q where q: "poly_fun n q" and gq: "\<And>x. g x = g a + (x - a) * q x"
    by blast
  have "poly_fun (Suc n) (\<lambda>x. g a + x * q x)" using q by (auto simp: poly_fun_Suc)
  moreover have "f x = f a + (x - a) * (g a + x * q x)" for x
    unfolding f by (subst gq [of x]) (simp add: algebra_simps)
  ultimately show ?case by blast
qed

lemma poly_fun_roots:
  assumes "poly_fun n f" "distinct xs" "n \<le> length xs" "\<forall>x \<in> set xs. f x = 0"
  shows "f = (\<lambda>_. 0)"
  using assms
proof (induction n arbitrary: f xs)
  case 0
  then show ?case by (simp add: poly_fun_0)
next
  case (Suc n)
  then obtain a ys where xs: "xs = a # ys" by (cases xs) auto
  obtain q where q: "poly_fun n q" and fq: "\<And>x. f x = f a + (x - a) * q x"
    using poly_fun_factor [OF Suc.prems(1)] by blast
  have "q x = 0" if "x \<in> set ys" for x
    using fq [of x] that Suc.prems(2,4) xs by auto
  with Suc.IH [OF q, of ys] Suc.prems xs have "q = (\<lambda>_. 0)" by simp
  with fq Suc.prems(4) xs show ?case by fastforce
qed

section \<open>Interpolation\<close>

definition lagrange_basis :: "'a::field list \<Rightarrow> nat \<Rightarrow> 'a \<Rightarrow> 'a" where
  "lagrange_basis xs i x = (\<Prod>j \<in> {..<length xs} - {i}. (x - xs ! j) / (xs ! i - xs ! j))"

definition lagrange :: "'a::field list \<Rightarrow> 'a list \<Rightarrow> 'a \<Rightarrow> 'a" where
  "lagrange xs ys x = (\<Sum>i<length xs. ys ! i * lagrange_basis xs i x)"

lemma poly_fun_prod:
  "finite A \<Longrightarrow> poly_fun (Suc (card A)) (\<lambda>x. \<Prod>j\<in>A. (x - a j) / d j)"
proof (induction A rule: finite_induct)
  case empty
  show ?case by (auto simp: poly_fun_Suc poly_fun_0)
next
  case (insert j A)
  then show ?case using poly_fun_linear by simp
qed

lemma poly_fun_sum: "finite A \<Longrightarrow> (\<And>i. i \<in> A \<Longrightarrow> poly_fun n (f i)) \<Longrightarrow> poly_fun n (\<lambda>x. \<Sum>i\<in>A. f i x)"
  by (induction A rule: finite_induct) (auto intro: poly_fun_add)

lemma poly_fun_lagrange: "poly_fun (length xs) (lagrange xs ys)"
proof -
  have "poly_fun (length xs) (\<lambda>x. ys ! i * lagrange_basis xs i x)" if "i < length xs" for i
  proof -
    have "Suc (card ({..<length xs} - {i})) = length xs" using that by simp
    with poly_fun_prod [of "{..<length xs} - {i}" "\<lambda>j. xs ! j" "\<lambda>j. xs ! i - xs ! j"] show ?thesis
      unfolding lagrange_basis_def by (intro poly_fun_scale) simp
  qed
  then have "poly_fun (length xs) (\<lambda>x. \<Sum>i<length xs. ys ! i * lagrange_basis xs i x)"
    by (intro poly_fun_sum) auto
  moreover have "lagrange xs ys = (\<lambda>x. \<Sum>i<length xs. ys ! i * lagrange_basis xs i x)"
    by (rule ext) (simp add: lagrange_def)
  ultimately show ?thesis by simp
qed

lemma lagrange_basis_at:
  assumes "distinct xs" "i < length xs" "k < length xs"
  shows "lagrange_basis xs i (xs ! k) = (if i = k then 1 else 0)"
proof (cases "i = k")
  case True
  have "(xs ! k - xs ! j) / (xs ! k - xs ! j) = 1" if "j \<in> {..<length xs} - {k}" for j
    using assms that by (simp add: nth_eq_iff_index_eq)
  with True show ?thesis by (simp add: lagrange_basis_def)
next
  case False
  then have "k \<in> {..<length xs} - {i}" using assms by simp
  then have "lagrange_basis xs i (xs ! k) = 0"
    unfolding lagrange_basis_def by (intro prod_zero) (auto intro!: bexI [of _ k])
  with False show ?thesis by simp
qed

lemma lagrange_at:
  assumes "distinct xs" "k < length xs"
  shows "lagrange xs ys (xs ! k) = ys ! k"
proof -
  have "lagrange xs ys (xs ! k) = (\<Sum>i<length xs. if i = k then ys ! i else 0)"
    unfolding lagrange_def using assms by (intro sum.cong) (auto simp: lagrange_basis_at)
  with assms show ?thesis by simp
qed

lemma lagrange_unique:
  assumes "poly_fun m f" "m \<le> length xs" "distinct xs"
  shows "lagrange xs (map f xs) x = f x"
proof -
  have "poly_fun (length xs) (\<lambda>x. lagrange xs (map f xs) x + (- 1) * f x)"
    using assms by (intro poly_fun_add poly_fun_scale poly_fun_lagrange) (rule poly_fun_mono)
  moreover have "\<forall>z \<in> set xs. lagrange xs (map f xs) z + (- 1) * f z = 0"
    using assms by (auto simp: in_set_conv_nth lagrange_at)
  ultimately have "(\<lambda>x. lagrange xs (map f xs) x + (- 1) * f x) = (\<lambda>_. 0)"
    using assms(3) poly_fun_roots by blast
  then show ?thesis by (metis add_neg_numeral_special(7) add_right_cancel mult_minus1 right_minus)
qed

lemma interpolation_exists:
  assumes "distinct xs" "length ys = length xs"
  shows "\<exists>cs. length cs = length xs \<and> map (horner cs) xs = ys"
proof -
  obtain cs where "length cs = length xs" and l: "lagrange xs ys = horner cs"
    using poly_fun_lagrange [of xs ys] by (auto simp: poly_fun_def)
  moreover have "map (horner cs) xs = ys"
    using assms by (intro nth_equalityI) (simp_all flip: l add: lagrange_at)
  ultimately show ?thesis by blast
qed

end
