(* ===== verification/Shamir.thy ===== *)
theory Shamir
  imports GF256 Lagrange "HOL-Library.Multiset"
begin

text \<open>
  Shamir secret sharing as \<^verbatim>\<open>pkg/vault/shamir/shamir.go\<close> implements it: random polynomials over
  GF(2^8), their evaluation by Horner's method, Lagrange interpolation, \<open>Split\<close>, \<open>Combine\<close> and the
  Fisher-Yates permutation that chooses the shares' x coordinates. Randomness is an explicit
  entropy argument, returned with what is left of it. Errors are the constructors of
  \<open>shamir_error\<close>, a panic of \<open>div\<close> is \<open>None\<close>.
\<close>

section \<open>Polynomials\<close>

text \<open>
  \<open>makePolynomial\<close>: \<open>degree + 1\<close> is computed in \<open>uint8\<close>, so degree 255 would make an empty slice
  whose first element does not exist (a panic, \<open>None\<close> without entropy left to return).
\<close>

datatype poly_failure = Poly_Panic | Poly_Entropy

definition make_polynomial :: "byte \<Rightarrow> byte \<Rightarrow> entropy \<Rightarrow> (poly_failure, bytes \<times> entropy) result" where
  "make_polynomial intercept degree e =
    (let n = unat (degree + 1)
     in if n = 0 then Inl Poly_Panic
        else case read_full (n - 1) e of
          None \<Rightarrow> Inl Poly_Entropy
        | Some (cs, e') \<Rightarrow> Inr (intercept # cs, e'))"

text \<open>\<open>evaluate\<close>: the origin is special-cased, otherwise Horner from the highest coefficient.\<close>

definition poly_evaluate :: "bytes \<Rightarrow> byte \<Rightarrow> byte" where
  "poly_evaluate coefficients x =
    (if x = 0 then hd coefficients
     else foldl (\<lambda>out coeff. gf_add (gf_mult out x) coeff)
            (last coefficients) (rev (butlast coefficients)))"

text \<open>\<open>interpolatePolynomial\<close>: the inner loop multiplies the basis, the outer one sums the groups.\<close>

fun basis_loop :: "bytes \<Rightarrow> byte \<Rightarrow> nat \<Rightarrow> nat list \<Rightarrow> byte \<Rightarrow> byte option" where
  "basis_loop xs x i [] basis = Some basis"
| "basis_loop xs x i (j # js) basis =
    (if i = j then basis_loop xs x i js basis
     else let num = gf_add x (xs ! j); denom = gf_add (xs ! i) (xs ! j)
       in case gf_div num denom of
            None \<Rightarrow> None
          | Some term \<Rightarrow> basis_loop xs x i js (gf_mult basis term))"

fun interpolate_loop :: "bytes \<Rightarrow> bytes \<Rightarrow> byte \<Rightarrow> nat list \<Rightarrow> byte \<Rightarrow> byte option" where
  "interpolate_loop xs ys x [] result = Some result"
| "interpolate_loop xs ys x (i # is) result =
    (case basis_loop xs x i [0..<length xs] 1 of
       None \<Rightarrow> None
     | Some basis \<Rightarrow>
         let group = gf_mult (ys ! i) basis
         in interpolate_loop xs ys x is (gf_add result group))"

definition interpolate_polynomial :: "bytes \<Rightarrow> bytes \<Rightarrow> byte \<Rightarrow> byte option" where
  "interpolate_polynomial x_samples y_samples x =
     interpolate_loop x_samples y_samples x [0..<length x_samples] 0"

section \<open>The random permutation\<close>

text \<open>
  \<open>rand.Int(rand.Reader, max)\<close> for \<open>1 \<le> max \<le> 256\<close>, as the standard library computes it: no byte
  is read for \<open>max = 1\<close>; otherwise one byte per try, cut to the bit length of \<open>max - 1\<close>, until it
  is below \<open>max\<close>. \<open>None\<close> is the reader's error.
\<close>

definition bit_length :: "nat \<Rightarrow> nat" where
  "bit_length n = length (takeWhile (\<lambda>k. 2 ^ k \<le> n) [0..<64])"

fun rand_int_loop :: "nat \<Rightarrow> nat \<Rightarrow> entropy \<Rightarrow> (nat \<times> entropy) option" where
  "rand_int_loop bits mx [] = None"
| "rand_int_loop bits mx (b # e) =
    (let n = take_bit bits (unat b) in if n < mx then Some (n, e) else rand_int_loop bits mx e)"

definition rand_int :: "nat \<Rightarrow> entropy \<Rightarrow> (nat \<times> entropy) option" where
  "rand_int mx e =
    (let bits = bit_length (mx - 1)
     in if bits = 0 then Some (0, e) else rand_int_loop bits mx e)"

text \<open>\<open>cryptoPerm\<close>: Fisher-Yates from the last index down to 1.\<close>

definition swap_at :: "'a list \<Rightarrow> nat \<Rightarrow> nat \<Rightarrow> 'a list" where
  "swap_at xs i j = xs[i := xs ! j, j := xs ! i]"

fun perm_loop :: "nat \<Rightarrow> nat list \<Rightarrow> entropy \<Rightarrow> (nat list \<times> entropy) option" where
  "perm_loop 0 perm e = Some (perm, e)"
| "perm_loop (Suc k) perm e =
    (case rand_int (Suc k + 1) e of
       None \<Rightarrow> None
     | Some (j, e') \<Rightarrow> perm_loop k (swap_at perm (Suc k) j) e')"

definition crypto_perm :: "nat \<Rightarrow> entropy \<Rightarrow> (nat list \<times> entropy) option" where
  "crypto_perm n e = perm_loop (n - 1) [0..<n] e"

section \<open>Split and Combine\<close>

datatype shamir_error =
    Parts_Below_Threshold
  | Parts_Exceed_255
  | Threshold_Below_2
  | Threshold_Exceeds_255
  | Empty_Secret
  | No_Coordinates
  | No_Polynomial
  | Less_Than_Two_Parts
  | Part_Too_Short
  | Parts_Length_Differ
  | Duplicate_Part
  | Shamir_Panic

text \<open>One polynomial per byte of the secret, in order.\<close>

fun make_polynomials :: "bytes \<Rightarrow> byte \<Rightarrow> entropy \<Rightarrow> (shamir_error, bytes list \<times> entropy) result" where
  "make_polynomials [] degree e = Inr ([], e)"
| "make_polynomials (val # secret) degree e =
    (case make_polynomial val degree e of
       Inl Poly_Panic \<Rightarrow> Inl Shamir_Panic
     | Inl Poly_Entropy \<Rightarrow> Inl No_Polynomial
     | Inr (p, e') \<Rightarrow>
         (case make_polynomials secret degree e' of
            Inl err \<Rightarrow> Inl err
          | Inr (ps, e'') \<Rightarrow> Inr (p # ps, e'')))"

text \<open>A share is \<open>{y1, ..., yN, x}\<close> with \<open>x\<close> the coordinate plus one.\<close>

definition share_of :: "bytes list \<Rightarrow> nat \<Rightarrow> bytes" where
  "share_of polys coordinate =
    (let x = (of_nat coordinate :: byte) + 1 in map (\<lambda>p. poly_evaluate p x) polys @ [x])"

definition shamir_split ::
  "bytes \<Rightarrow> int \<Rightarrow> int \<Rightarrow> entropy \<Rightarrow> (shamir_error, bytes list \<times> entropy) result" where
  "shamir_split secret parts threshold e =
    (if parts < threshold then Inl Parts_Below_Threshold
     else if parts > 255 then Inl Parts_Exceed_255
     else if threshold < 2 then Inl Threshold_Below_2
     else if threshold > 255 then Inl Threshold_Exceeds_255
     else if secret = [] then Inl Empty_Secret
     else case crypto_perm 255 e of
       None \<Rightarrow> Inl No_Coordinates
     | Some (x_coordinates, e1) \<Rightarrow>
         bind_result (make_polynomials secret (of_int (threshold - 1)) e1)
           (\<lambda>(polys, e2). Inr (map (share_of polys) (take (nat parts) x_coordinates), e2)))"

text \<open>The length check of every part after the first, and the duplicate check on the tags.\<close>

fun duplicate_tag :: "byte list \<Rightarrow> bool" where
  "duplicate_tag [] = False"
| "duplicate_tag (x # xs) = (x \<in> set xs \<or> duplicate_tag xs)"

fun combine_bytes :: "bytes \<Rightarrow> bytes list \<Rightarrow> nat list \<Rightarrow> (shamir_error, bytes) result" where
  "combine_bytes xs parts [] = Inr []"
| "combine_bytes xs parts (idx # idxs) =
    (case interpolate_polynomial xs (map (\<lambda>part. part ! idx) parts) 0 of
       None \<Rightarrow> Inl Shamir_Panic
     | Some val \<Rightarrow> bind_result (combine_bytes xs parts idxs) (\<lambda>rest. Inr (val # rest)))"

definition shamir_combine :: "bytes list \<Rightarrow> (shamir_error, bytes) result" where
  "shamir_combine parts =
    (if length parts < 2 then Inl Less_Than_Two_Parts
     else let first_len = length (hd parts)
     in if first_len < 2 then Inl Part_Too_Short
     else if \<exists>part \<in> set (tl parts). length part \<noteq> first_len then Inl Parts_Length_Differ
     else let x_samples = map (\<lambda>part. part ! (first_len - 1)) parts
     in if duplicate_tag x_samples then Inl Duplicate_Part
     else combine_bytes x_samples parts [0..<first_len - 1])"

section \<open>The loops compute polynomial evaluation and interpolation\<close>

lemma gf_of_add: "gf_of (gf_add x y) = gf_of x + gf_of y"
  by (simp add: gf_add_def gf_of_xor)

lemma gf_of_eq_iff [simp]: "gf_of x = gf_of y \<longleftrightarrow> x = y"
  by (simp add: gf_of_inject)

lemma gf_diff_eq_add: "(x::gf) - y = x + y"
  by transfer simp

lemma gf_add_eq_0: "gf_add x y = 0 \<longleftrightarrow> x = y"
  by (metis gf_diff_eq_add gf_of_0 gf_of_add gf_of_eq_iff right_minus_eq)

lemma horner_loop:
  "gf_of (foldr (\<lambda>coeff out. gf_add (gf_mult out x) coeff) cs out)
     = horner (map gf_of (cs @ [out])) (gf_of x)"
  by (induction cs) (simp_all add: gf_of_add gf_of_mult algebra_simps)

lemma poly_evaluate_horner:
  assumes "cs \<noteq> []"
  shows "gf_of (poly_evaluate cs x) = horner (map gf_of cs) (gf_of x)"
proof (cases "x = 0")
  case True
  with assms show ?thesis by (cases cs) (simp_all add: poly_evaluate_def)
next
  case False
  with assms show ?thesis
    by (simp add: poly_evaluate_def foldl_conv_foldr horner_loop append_butlast_last_id)
qed

lemma basis_loop_eq:
  assumes "distinct xs" "i < length xs" "\<forall>j \<in> set js. j < length xs"
  shows "\<exists>v. basis_loop xs x i js b = Some v \<and>
    gf_of v = gf_of b * prod_list (map (\<lambda>j. (gf_of x - gf_of (xs ! j)) / (gf_of (xs ! i) - gf_of (xs ! j)))
      (filter (\<lambda>j. j \<noteq> i) js))"
  using assms(3)
proof (induction js arbitrary: b)
  case (Cons j js)
  show ?case
  proof (cases "i = j")
    case True
    with Cons show ?thesis by simp
  next
    case False
    with Cons.prems assms have "gf_add (xs ! i) (xs ! j) \<noteq> 0"
      by (simp add: gf_add_eq_0 nth_eq_iff_index_eq)
    from gf_of_div [OF this, of "gf_add x (xs ! j)"] obtain q where
      "gf_div (gf_add x (xs ! j)) (gf_add (xs ! i) (xs ! j)) = Some q"
      "gf_of q = (gf_of x - gf_of (xs ! j)) / (gf_of (xs ! i) - gf_of (xs ! j))"
      by (auto simp: gf_of_add gf_diff_eq_add)
    with False Cons.IH [of "gf_mult b q"] Cons.prems show ?thesis
      by (auto simp: Let_def gf_of_mult ac_simps)
  qed
qed simp

lemma basis_loop_lagrange:
  assumes "distinct xs" "i < length xs"
  shows "\<exists>v. basis_loop xs x i [0..<length xs] 1 = Some v \<and>
    gf_of v = lagrange_basis (map gf_of xs) i (gf_of x)"
proof -
  let ?f = "\<lambda>j. (gf_of x - gf_of (xs ! j)) / (gf_of (xs ! i) - gf_of (xs ! j))"
  have "prod_list (map ?f (filter (\<lambda>j. j \<noteq> i) [0..<length xs]))
      = prod ?f (set (filter (\<lambda>j. j \<noteq> i) [0..<length xs]))"
    by (intro prod.distinct_set_conv_list [symmetric]) simp
  also have "\<dots> = lagrange_basis (map gf_of xs) i (gf_of x)"
    unfolding lagrange_basis_def using assms(2) by (intro prod.cong) auto
  finally show ?thesis using basis_loop_eq [OF assms, of "[0..<length xs]" x 1] by auto
qed

lemma interpolate_loop_eq:
  assumes "distinct xs" "\<forall>i \<in> set is. i < length xs"
  shows "\<exists>v. interpolate_loop xs ys x is r = Some v \<and>
    gf_of v = gf_of r + sum_list (map (\<lambda>i. gf_of (ys ! i) * lagrange_basis (map gf_of xs) i (gf_of x)) is)"
  using assms(2)
proof (induction "is" arbitrary: r)
  case (Cons i "is")
  then obtain b where "basis_loop xs x i [0..<length xs] 1 = Some b"
    "gf_of b = lagrange_basis (map gf_of xs) i (gf_of x)"
    using basis_loop_lagrange [OF assms(1), of i x] by auto
  with Cons.IH [of "gf_add r (gf_mult (ys ! i) b)"] Cons.prems show ?case
    by (auto simp: Let_def gf_of_mult gf_of_add ac_simps)
qed simp

lemma interpolate_polynomial_lagrange:
  assumes "distinct xs" "length ys = length xs"
  shows "\<exists>v. interpolate_polynomial xs ys x = Some v \<and>
    gf_of v = lagrange (map gf_of xs) (map gf_of ys) (gf_of x)"
proof -
  let ?f = "\<lambda>i. gf_of (ys ! i) * lagrange_basis (map gf_of xs) i (gf_of x)"
  have "sum_list (map ?f [0..<length xs]) = sum ?f (set [0..<length xs])"
    by (intro sum.distinct_set_conv_list [symmetric]) simp
  also have "\<dots> = lagrange (map gf_of xs) (map gf_of ys) (gf_of x)"
    unfolding lagrange_def using assms(2) by (intro sum.cong) auto
  finally show ?thesis
    using interpolate_loop_eq [OF assms(1), of "[0..<length xs]" ys x 0]
    by (auto simp: interpolate_polynomial_def)
qed

lemma interpolate_at_intercept:
  assumes "distinct xs" "cs \<noteq> []" "length cs \<le> length xs"
  shows "interpolate_polynomial xs (map (poly_evaluate cs) xs) 0 = Some (hd cs)"
proof -
  let ?f = "horner (map gf_of cs)"
  have d: "distinct (map gf_of xs)" using assms(1) by (simp add: distinct_map inj_on_def)
  have ys: "map gf_of (map (poly_evaluate cs) xs) = map ?f (map gf_of xs)"
    using assms(2) by (simp add: poly_evaluate_horner)
  obtain v where v: "interpolate_polynomial xs (map (poly_evaluate cs) xs) 0 = Some v"
    "gf_of v = lagrange (map gf_of xs) (map ?f (map gf_of xs)) (gf_of 0)"
    using interpolate_polynomial_lagrange [OF assms(1), of "map (poly_evaluate cs) xs" 0]
    unfolding ys by auto
  have "gf_of v = ?f (gf_of 0)"
    unfolding v(2) using assms d by (intro lagrange_unique [where m = "length cs"])
      (auto simp: poly_fun_def intro!: exI [of _ "map gf_of cs"])
  also have "\<dots> = gf_of (hd cs)" using assms(2) by (cases cs) simp_all
  finally show ?thesis using v(1) by simp
qed

section \<open>The permutation\<close>

lemma rand_int_loop_less: "rand_int_loop bits mx e = Some (n, e') \<Longrightarrow> n < mx"
  by (induction e) (auto simp: Let_def split: if_splits)

lemma rand_int_less: "rand_int mx e = Some (n, e') \<Longrightarrow> 0 < mx \<Longrightarrow> n < mx"
  by (auto simp: rand_int_def Let_def split: if_splits dest: rand_int_loop_less)

lemma mset_swap_at: "i < length xs \<Longrightarrow> j < length xs \<Longrightarrow> mset (swap_at xs i j) = mset xs"
  by (simp add: swap_at_def mset_swap)

lemma perm_loop_mset:
  "perm_loop k perm e = Some (q, e') \<Longrightarrow> k < length perm \<Longrightarrow> mset q = mset perm"
proof (induction k arbitrary: perm e)
  case (Suc k)
  then obtain j e1 where j: "rand_int (Suc k + 1) e = Some (j, e1)"
    and r: "perm_loop k (swap_at perm (Suc k) j) e1 = Some (q, e')"
    by (auto split: option.splits)
  from rand_int_less [OF j] have "j < length perm" using Suc.prems by simp
  with Suc.IH [OF r] Suc.prems show ?case by (simp add: mset_swap_at) (simp add: swap_at_def)
qed simp

lemma crypto_perm_mset: "crypto_perm n e = Some (p, e') \<Longrightarrow> mset p = mset [0..<n]"
  using perm_loop_mset [of "n - 1" "[0..<n]" e p e'] by (cases n) (auto simp: crypto_perm_def)

lemma crypto_perm_props:
  assumes "crypto_perm n e = Some (p, e')"
  shows "distinct p" "set p = {0..<n}" "length p = n"
proof -
  note m = crypto_perm_mset [OF assms]
  show "distinct p" using m mset_eq_imp_distinct_iff [OF m] by simp
  show "set p = {0..<n}" using m by (metis atLeast_upt mset_eq_setD set_upt)
  show "length p = n" using mset_eq_length [OF m] by simp
qed

section \<open>Shares\<close>

abbreviation coordinate_tag :: "nat \<Rightarrow> byte" where
  "coordinate_tag c \<equiv> of_nat c + 1"

lemma unat_coordinate_tag: "c < 255 \<Longrightarrow> unat (coordinate_tag c) = c + 1"
  by (simp add: unat_word_ariths unat_of_nat)

lemma coordinate_tag_inj: "c < 255 \<Longrightarrow> d < 255 \<Longrightarrow> coordinate_tag c = coordinate_tag d \<Longrightarrow> c = d"
  by (metis add_right_cancel unat_coordinate_tag)

lemma distinct_tags:
  assumes "distinct cs" "set cs \<subseteq> {..<255}"
  shows "distinct (map coordinate_tag cs)"
  unfolding distinct_map
proof (intro conjI assms(1) inj_onI)
  fix x y assume "x \<in> set cs" "y \<in> set cs" and eq: "coordinate_tag x = coordinate_tag y"
  with assms(2) have "x < 255" "y < 255" by auto
  then show "x = y" using eq by (rule coordinate_tag_inj)
qed

lemma coordinate_tag_nonzero: "c < 255 \<Longrightarrow> coordinate_tag c \<noteq> 0"
  by (metis add_is_0 one_neq_zero unat_0 unat_coordinate_tag)

lemma length_share_of [simp]: "length (share_of polys c) = length polys + 1"
  by (simp add: share_of_def Let_def)

lemma share_of_nth [simp]: "i < length polys \<Longrightarrow> share_of polys c ! i = poly_evaluate (polys ! i) (coordinate_tag c)"
  by (simp add: share_of_def Let_def nth_append)

lemma share_of_tag [simp]: "share_of polys c ! length polys = coordinate_tag c"
  "last (share_of polys c) = coordinate_tag c"
  by (simp_all add: share_of_def Let_def nth_append)

lemma duplicate_tag_distinct: "duplicate_tag xs \<longleftrightarrow> \<not> distinct xs"
  by (induction xs) auto

lemma unat_degree:
  assumes "2 \<le> threshold" "threshold \<le> 255"
  shows "unat ((of_int (threshold - 1) :: byte) + 1) = nat threshold"
proof -
  have "(of_int (threshold - 1) :: byte) + 1 = of_int threshold" by simp
  moreover have "uint (of_int threshold :: byte) = threshold"
    using assms by (simp add: uint_word_of_int_eq take_bit_int_eq_self)
  ultimately show ?thesis by (simp flip: nat_uint_eq del: of_int_diff)
qed

text \<open>The polynomials drawn are the secret's bytes followed by consecutive runs of entropy.\<close>

lemma make_polynomials_concat:
  assumes "unat (degree + 1) = Suc d"
  shows "length tails = length secret \<Longrightarrow> \<forall>tl \<in> set tails. length tl = d \<Longrightarrow>
    make_polynomials secret degree (concat tails @ rest) = Inr (map2 (#) secret tails, rest)"
proof (induction secret arbitrary: tails)
  case (Cons v secret)
  then obtain tl tails' where t: "tails = tl # tails'" by (cases tails) auto
  with Cons.prems assms have "make_polynomial v degree (concat tails @ rest) = Inr (v # tl, concat tails' @ rest)"
    by (simp add: make_polynomial_def read_full_def)
  with Cons t show ?case by simp
qed simp

lemma make_polynomial_Inr:
  assumes "unat (degree + 1) = Suc d" "make_polynomial v degree e = Inr (p, e1)"
  shows "\<exists>tl. p = v # tl \<and> length tl = d \<and> e = tl @ e1"
  using assms by (auto simp: make_polynomial_def Let_def dest: read_full_length split: option.splits)

lemma make_polynomials_Cons:
  assumes "make_polynomials (v # secret) degree e = Inr (ps, rest)"
  obtains p e1 ps' where "make_polynomial v degree e = Inr (p, e1)"
    "make_polynomials secret degree e1 = Inr (ps', rest)" "ps = p # ps'"
  using assms by (auto split: sum.splits poly_failure.splits)

lemma make_polynomials_Inr:
  assumes "unat (degree + 1) = Suc d"
  shows "make_polynomials secret degree e = Inr (ps, rest) \<Longrightarrow>
    \<exists>tails. length tails = length secret \<and> (\<forall>tl \<in> set tails. length tl = d) \<and>
      e = concat tails @ rest \<and> ps = map2 (#) secret tails"
proof (induction secret arbitrary: e ps)
  case (Cons v secret)
  from Cons.prems obtain p e1 ps' where p: "make_polynomial v degree e = Inr (p, e1)"
    and 2: "make_polynomials secret degree e1 = Inr (ps', rest)" "ps = p # ps'"
    by (rule make_polynomials_Cons)
  from make_polynomial_Inr [OF assms p] obtain tl where
    1: "p = v # tl" "length tl = d" "e = tl @ e1" by blast
  from Cons.IH [OF 2(1)] obtain tails where "length tails = length secret"
    "\<forall>tl \<in> set tails. length tl = d" "e1 = concat tails @ rest" "ps' = map2 (#) secret tails"
    by blast
  with 1 2 show ?case by (intro exI [of _ "tl # tails"]) auto
qed simp

lemma shamir_split_Inr:
  assumes "shamir_split secret parts threshold e = Inr (shares, rest)"
  obtains coords e1 tails where
    "2 \<le> threshold" "threshold \<le> parts" "parts \<le> 255" "secret \<noteq> []"
    "crypto_perm 255 e = Some (coords, e1)" "e1 = concat tails @ rest"
    "length tails = length secret" "\<forall>tl \<in> set tails. length tl = nat threshold - 1"
    "shares = map (share_of (map2 (#) secret tails)) (take (nat parts) coords)"
proof -
  from assms obtain coords e1 polys where g: "2 \<le> threshold" "threshold \<le> parts" "parts \<le> 255" "secret \<noteq> []"
    and c: "crypto_perm 255 e = Some (coords, e1)"
    and m: "make_polynomials secret (of_int (threshold - 1)) e1 = Inr (polys, rest)"
    and s: "shares = map (share_of polys) (take (nat parts) coords)"
    by (auto simp: shamir_split_def bind_result_Inr_iff split: if_splits option.splits)
  have "unat ((of_int (threshold - 1) :: byte) + 1) = Suc (nat threshold - 1)"
    using g by (subst unat_degree) auto
  from make_polynomials_Inr [OF this m] g c s that show ?thesis by blast
qed

section \<open>Reconstruction\<close>

lemma map2_Cons_nth:
  assumes "length tails = length secret" "i < length secret"
  shows "map2 (#) secret tails ! i = secret ! i # tails ! i"
  using assms by simp

lemma combine_bytes_shares:
  assumes "distinct xs" "\<forall>i \<in> set idxs. i < length polys"
    "\<forall>p \<in> set polys. p \<noteq> [] \<and> length p \<le> length xs"
    "xs = map coordinate_tag cs" "parts = map (share_of polys) cs"
  shows "combine_bytes xs parts idxs = Inr (map (\<lambda>i. hd (polys ! i)) idxs)"
  using assms(2)
proof (induction idxs)
  case (Cons i idxs)
  then have p: "polys ! i \<noteq> []" "length (polys ! i) \<le> length xs" using assms(3) by simp_all
  have "map (\<lambda>part. part ! i) parts = map (poly_evaluate (polys ! i)) xs"
    using Cons.prems assms(4,5) by simp
  with interpolate_at_intercept [OF assms(1) p] Cons show ?case by simp
qed simp

text \<open>Any selection of shares is the shares of a selection of coordinates.\<close>

lemma shares_selection:
  assumes "distinct sub" "set sub \<subseteq> share_of polys ` {..<255}"
  obtains cs where "distinct cs" "set cs \<subseteq> {..<255}" "sub = map (share_of polys) cs"
proof
  let ?coord = "\<lambda>s. unat (last s :: byte) - 1"
  have c: "?coord s < 255 \<and> share_of polys (?coord s) = s" if "s \<in> set sub" for s
  proof -
    from that assms(2) obtain c where "c < 255" "s = share_of polys c" by auto
    then show ?thesis by (simp add: unat_coordinate_tag)
  qed
  show "sub = map (share_of polys) (map ?coord sub)" using c by (simp add: map_idI)
  then show "distinct (map ?coord sub)" using assms(1) by (metis distinct_map)
  show "set (map ?coord sub) \<subseteq> {..<255}" using c by auto
qed

lemma shamir_split_combine_lemma:
  assumes "shamir_split secret parts threshold e = Inr (shares, rest)"
    and "distinct sub" and "set sub \<subseteq> set shares" and "nat threshold \<le> length sub"
  shows "shamir_combine sub = Inr secret"
proof -
  from assms(1) obtain coords e1 tails where
    t: "2 \<le> threshold" "secret \<noteq> []" and perm: "crypto_perm 255 e = Some (coords, e1)"
    and tails: "length tails = length secret" "\<forall>tl \<in> set tails. length tl = nat threshold - 1"
    and shares: "shares = map (share_of (map2 (#) secret tails)) (take (nat parts) coords)"
    by (rule shamir_split_Inr)
  let ?polys = "map2 (#) secret tails"
  have "set (take (nat parts) coords) \<subseteq> {..<255}"
    using crypto_perm_props(2) [OF perm] set_take_subset [of "nat parts" coords]
    by (simp add: lessThan_atLeast0)
  then have "set sub \<subseteq> share_of ?polys ` {..<255}"
    using assms(3) unfolding shares set_map by (blast dest: image_mono)
  then obtain cs where cs: "distinct cs" "set cs \<subseteq> {..<255}" "sub = map (share_of ?polys) cs"
    using shares_selection [OF assms(2)] by metis
  let ?xs = "map coordinate_tag cs"
  have len: "length ?polys = length secret" using tails by simp
  have d: "distinct ?xs" using cs(1,2) by (rule distinct_tags)
  have two: "2 \<le> length sub" using t assms(4) by linarith
  then have ne: "sub \<noteq> []" by auto
  have first: "length (hd sub) = length secret + 1"
    using ne cs(3) len by (cases cs) simp_all
  have all: "\<forall>part \<in> set sub. length part = length secret + 1" using cs(3) len by auto
  have tags: "map (\<lambda>part. part ! length secret) sub = ?xs"
    unfolding len [symmetric] cs(3) by (simp only: map_map comp_def share_of_tag)
  have "nat threshold \<le> length ?xs" using assms(4) cs(3) by simp
  with tails(2) t(1) have p: "\<forall>p \<in> set ?polys. p \<noteq> [] \<and> length p \<le> length ?xs"
    by (fastforce dest: set_zip_rightD)
  have "combine_bytes ?xs sub [0..<length secret]
      = Inr (map (\<lambda>i. hd (?polys ! i)) [0..<length secret])"
    by (rule combine_bytes_shares [OF d _ p refl cs(3)]) (simp add: tails(1))
  also have "map (\<lambda>i. hd (?polys ! i)) [0..<length secret] = secret"
    using tails by (intro nth_equalityI) auto
  finally have "combine_bytes ?xs sub [0..<length secret] = Inr secret" .
  moreover have "0 < length secret" using t by simp
  moreover have "\<forall>part \<in> set (tl sub). length part = length secret + 1"
    using all list.set_sel(2) [OF ne] by blast
  ultimately show ?thesis
    using two first tags d by (simp add: shamir_combine_def duplicate_tag_distinct)
qed

text \<open>
  Claim C1. \<open>Combine\<close> reverses \<open>Split\<close>: any \<open>threshold\<close> or more distinct shares of one split, in any
  order, reconstruct exactly the secret.
\<close>

theorem shamir_split_combine:
  assumes "shamir_split secret parts threshold e = Inr (shares, rest)"
    and "distinct sub" and "set sub \<subseteq> set shares" and "nat threshold \<le> length sub"
  shows "shamir_combine sub = Inr secret"
  using assms by (rule shamir_split_combine_lemma)

lemma combine_bytes_no_panic:
  assumes "distinct xs" "length parts = length xs"
  shows "combine_bytes xs parts idxs \<noteq> Inl Shamir_Panic"
proof (induction idxs)
  case (Cons i idxs)
  obtain v where "interpolate_polynomial xs (map (\<lambda>part. part ! i) parts) 0 = Some v"
    using interpolate_polynomial_lagrange [OF assms(1), of "map (\<lambda>part. part ! i) parts" 0] assms(2)
    by auto
  with Cons show ?case by (cases "combine_bytes xs parts idxs") auto
qed simp

lemma make_polynomials_no_panic:
  assumes "unat (degree + 1) \<noteq> 0"
  shows "make_polynomials secret degree e \<noteq> Inl Shamir_Panic"
proof (induction secret arbitrary: e)
  case (Cons v secret)
  have "make_polynomial v degree e \<noteq> Inl Poly_Panic"
    using assms by (auto simp: make_polynomial_def Let_def split: option.splits)
  with Cons show ?case by (auto split: sum.splits poly_failure.splits)
qed simp

text \<open>
  Neither direction can panic, for any input: \<open>div\<close> is never reached with a zero divisor, since
  \<open>Combine\<close> refuses duplicate tags first, and no polynomial is made with a degree whose successor
  wraps to zero, since \<open>Split\<close> bounds the threshold by 255.
\<close>

theorem shamir_no_panic:
  "shamir_combine shares \<noteq> Inl Shamir_Panic \<and> shamir_split secret parts threshold e \<noteq> Inl Shamir_Panic"
proof
  show "shamir_combine shares \<noteq> Inl Shamir_Panic"
    by (auto simp: shamir_combine_def Let_def duplicate_tag_distinct combine_bytes_no_panic)
  have "unat ((of_int (threshold - 1) :: byte) + 1) \<noteq> 0" if "2 \<le> threshold" "threshold \<le> 255"
    using that by (subst unat_degree) auto
  then show "shamir_split secret parts threshold e \<noteq> Inl Shamir_Panic"
    by (auto simp: shamir_split_def bind_result_def make_polynomials_no_panic
        split: option.splits sum.splits)
qed

section \<open>Secrecy\<close>

text \<open>\<open>cryptoPerm\<close> reads a prefix of the entropy and leaves the rest untouched.\<close>

lemma rand_int_loop_prefix:
  "rand_int_loop bits mx e = Some (n, e') \<Longrightarrow>
    \<exists>pre. e = pre @ e' \<and> (\<forall>x. rand_int_loop bits mx (pre @ x) = Some (n, x))"
proof (induction e)
  case (Cons b e)
  show ?case
  proof (cases "take_bit bits (unat b) < mx")
    case True
    with Cons.prems show ?thesis by (intro exI [of _ "[b]"]) (auto simp: Let_def)
  next
    case False
    with Cons obtain pre where "e = pre @ e'" "\<forall>x. rand_int_loop bits mx (pre @ x) = Some (n, x)"
      by (auto simp: Let_def)
    with False show ?thesis by (intro exI [of _ "b # pre"]) (auto simp: Let_def)
  qed
qed simp

lemma rand_int_prefix:
  "rand_int mx e = Some (n, e') \<Longrightarrow> \<exists>pre. e = pre @ e' \<and> (\<forall>x. rand_int mx (pre @ x) = Some (n, x))"
  using rand_int_loop_prefix [of _ mx e n e']
  by (auto simp: rand_int_def Let_def split: if_splits intro: exI [of _ "[]"])

lemma perm_loop_prefix:
  "perm_loop k perm e = Some (q, e') \<Longrightarrow>
    \<exists>pre. e = pre @ e' \<and> (\<forall>x. perm_loop k perm (pre @ x) = Some (q, x))"
proof (induction k arbitrary: perm e)
  case (Suc k)
  then obtain j e1 where j: "rand_int (Suc k + 1) e = Some (j, e1)"
    and r: "perm_loop k (swap_at perm (Suc k) j) e1 = Some (q, e')"
    by (auto split: option.splits)
  from rand_int_prefix [OF j] obtain p1 where
    1: "e = p1 @ e1" "\<forall>x. rand_int (Suc k + 1) (p1 @ x) = Some (j, x)" by blast
  from Suc.IH [OF r] obtain p2 where
    2: "e1 = p2 @ e'" "\<forall>x. perm_loop k (swap_at perm (Suc k) j) (p2 @ x) = Some (q, x)" by blast
  show ?case using 1 2 by (intro exI [of _ "p1 @ p2"]) auto
qed simp

lemma crypto_perm_prefix:
  assumes "crypto_perm n e = Some (q, e')"
  obtains pre where "e = pre @ e'" "\<And>x. crypto_perm n (pre @ x) = Some (q, x)"
  using perm_loop_prefix assms unfolding crypto_perm_def by blast

text \<open>
  Fewer points than coefficients say nothing about the intercept: for every intercept and every
  list of values there is exactly one choice of the other coefficients.
\<close>

lemma finite_lists_gf: "finite {cs :: gf list. length cs = n}"
proof -
  have "UNIV = gf_of ` (UNIV :: byte set)" by (metis byte_of_inverse surjI)
  then have "finite (UNIV :: gf set)" by (metis finite finite_imageI)
  from finite_lists_length_eq [OF this, of n] show ?thesis by simp
qed

lemma interpolation_unique:
  fixes xs :: "gf list"
  assumes "distinct xs" "length cs = length xs" "length ds = length xs"
    and "map (horner cs) xs = map (horner ds) xs"
  shows "cs = ds"
proof -
  let ?A = "{cs :: gf list. length cs = length xs}" and ?f = "\<lambda>cs. map (horner cs) xs"
  have "?A \<subseteq> ?f ` ?A"
  proof
    fix ys assume "ys \<in> ?A"
    with interpolation_exists [OF assms(1), of ys] show "ys \<in> ?f ` ?A" by force
  qed
  from finite_surj_inj [OF finite_lists_gf this] assms(2-4) show ?thesis by (auto dest: inj_onD)
qed

lemma byte_secrecy:
  assumes "distinct xs" "0 \<notin> set xs" "length ys = length xs"
  shows "\<exists>!tl. length tl = length xs \<and> map (poly_evaluate (v # tl)) xs = ys"
proof -
  let ?xs = "0 # map gf_of xs"
  have g: "gf_of x = 0 \<longleftrightarrow> x = 0" for x by (metis gf_of_0 gf_of_eq_iff)
  have d: "distinct ?xs" using assms by (auto simp: distinct_map inj_on_def g)
  have h: "map (horner (map gf_of (v # tl))) ?xs = gf_of v # map gf_of (map (poly_evaluate (v # tl)) xs)"
    for tl by (simp add: poly_evaluate_horner)
  show ?thesis
  proof (rule ex_ex1I)
    obtain cs where cs: "length cs = length ?xs" "map (horner cs) ?xs = map gf_of (v # ys)"
      using interpolation_exists [OF d, of "map gf_of (v # ys)"] assms(3) by auto
    then obtain c tl where c: "cs = c # tl" by (cases cs) auto
    define tl' where "tl' = map byte_of tl"
    have tl: "tl = map gf_of tl'" unfolding tl'_def map_map comp_def byte_of_inverse by simp
    have "c = gf_of v" using cs(2) c by simp
    with c tl have cs': "cs = map gf_of (v # tl')" by simp
    have "gf_of v # map gf_of (map (poly_evaluate (v # tl')) xs) = map gf_of (v # ys)"
      using cs(2) unfolding cs' h .
    then have "map gf_of (map (poly_evaluate (v # tl')) xs) = map gf_of ys" by simp
    then have "map (poly_evaluate (v # tl')) xs = ys"
      by (rule map_injective) (simp add: inj_def)
    moreover have "length tl' = length xs" using cs(1) c by (simp add: tl'_def)
    ultimately show "\<exists>tl. length tl = length xs \<and> map (poly_evaluate (v # tl)) xs = ys" by blast
  next
    fix t1 t2
    assume 1: "length t1 = length xs \<and> map (poly_evaluate (v # t1)) xs = ys"
      and 2: "length t2 = length xs \<and> map (poly_evaluate (v # t2)) xs = ys"
    have "map (horner (map gf_of (v # t1))) ?xs = map (horner (map gf_of (v # t2))) ?xs"
      unfolding h using 1 2 by simp
    from interpolation_unique [OF d _ _ this] 1 2 have "map gf_of (v # t1) = map gf_of (v # t2)" by simp
    then show "t1 = t2" by (simp add: inj_map_eq_map inj_def)
  qed
qed

lemma pointwise_unique:
  assumes "\<And>k. k < n \<Longrightarrow> \<exists>!y. P k y"
  shows "\<exists>!ys. length ys = n \<and> (\<forall>k < n. P k (ys ! k))"
proof (rule ex_ex1I)
  have "\<forall>k < n. P k (THE y. P k y)" using theI' [OF assms] by blast
  then show "\<exists>ys. length ys = n \<and> (\<forall>k < n. P k (ys ! k))"
    by (intro exI [of _ "map (\<lambda>k. THE y. P k y) [0..<n]"]) simp
  fix ys zs assume "length ys = n \<and> (\<forall>k < n. P k (ys ! k))" "length zs = n \<and> (\<forall>k < n. P k (zs ! k))"
  then show "ys = zs" using assms by (intro nth_equalityI) (auto, blast)
qed

lemma length_concat_uniform: "\<forall>tl \<in> set tails. length tl = d \<Longrightarrow> length (concat tails) = length tails * d"
  by (induction tails) auto

lemma share_of_eq_iff:
  assumes "length p = length q"
  shows "share_of p c = share_of q c \<longleftrightarrow>
    (\<forall>k < length p. poly_evaluate (p ! k) (coordinate_tag c) = poly_evaluate (q ! k) (coordinate_tag c))"
  using assms by (simp add: share_of_def Let_def) (simp add: list_eq_iff_nth_eq)

lemma shamir_split_intro:
  assumes "2 \<le> threshold" "threshold \<le> parts" "parts \<le> 255" "secret \<noteq> []"
    and "crypto_perm 255 e = Some (coords, concat tails @ rest)"
    and "length tails = length secret" "\<forall>tl \<in> set tails. length tl = nat threshold - 1"
  shows "shamir_split secret parts threshold e
    = Inr (map (share_of (map2 (#) secret tails)) (take (nat parts) coords), rest)"
proof -
  have "unat ((of_int (threshold - 1) :: byte) + 1) = Suc (nat threshold - 1)"
    using assms by (subst unat_degree) auto
  from make_polynomials_concat [OF this assms(6,7)] assms(1-5) show ?thesis
    by (simp add: shamir_split_def)
qed

lemma set_nth_all: "(\<forall>tl \<in> set tails. Q tl) \<longleftrightarrow> (\<forall>k < length tails. Q (tails ! k))"
  by (simp add: all_set_conv_all_nth)

lemma shares_agree_iff:
  assumes "length us = length s" "length ts = length s" "length s' = length s" "i < length coords"
  shows "map (share_of (map2 (#) s' us)) coords ! i = map (share_of (map2 (#) s ts)) coords ! i \<longleftrightarrow>
    (\<forall>k < length s. poly_evaluate (s' ! k # us ! k) (coordinate_tag (coords ! i))
      = poly_evaluate (s ! k # ts ! k) (coordinate_tag (coords ! i)))"
  using assms by (simp add: share_of_eq_iff)

lemma coordinate_points:
  assumes "distinct coords" "set coords \<subseteq> {..<255}" "finite I" "I \<subseteq> {..<length coords}"
  defines "xs \<equiv> map (\<lambda>i. coordinate_tag (coords ! i)) (sorted_list_of_set I)"
  shows "distinct xs" "0 \<notin> set xs" "length xs = card I"
proof -
  let ?cs = "map ((!) coords) (sorted_list_of_set I)"
  have xs: "xs = map coordinate_tag ?cs" by (simp add: xs_def comp_def)
  have b: "set ?cs \<subseteq> {..<255}"
  proof
    fix c assume "c \<in> set ?cs"
    then obtain i where "i \<in> I" "c = coords ! i" using assms(3) by auto
    with assms(2,4) nth_mem [of i coords] show "c \<in> {..<255}" by blast
  qed
  have lt: "\<forall>i \<in> I. i < length coords" using assms(4) by blast
  have "distinct ?cs"
    using inj_on_nth [OF assms(1) lt] assms(3) by (simp add: distinct_map)
  then show "distinct xs" unfolding xs using b by (rule distinct_tags)
  show "0 \<notin> set xs"
  proof
    assume "0 \<in> set xs"
    then obtain c where c: "c \<in> set ?cs" "0 = coordinate_tag c" unfolding xs set_map by (rule imageE)
    from c(1) b have "c < 255" by blast
    from coordinate_tag_nonzero [OF this] c(2) show False by simp
  qed
  show "length xs = card I" by (simp add: xs_def)
qed

text \<open>
  For one list of points, the coefficient lists of another secret that agree with the given ones at
  every point and every byte exist and are unique.
\<close>

lemma tails_secrecy:
  assumes "distinct xs" "0 \<notin> set xs" "length s' = length s"
  shows "\<exists>!us. (length us = length s \<and> (\<forall>u \<in> set us. length u = length xs)) \<and>
    (\<forall>x \<in> set xs. \<forall>k < length s. poly_evaluate (s' ! k # us ! k) x = poly_evaluate (s ! k # ts ! k) x)"
proof -
  define P where "P k tl \<longleftrightarrow> length tl = length xs \<and>
    map (poly_evaluate (s' ! k # tl)) xs = map (poly_evaluate (s ! k # ts ! k)) xs" for k tl
  have "\<exists>!tl. P k tl" for k unfolding P_def by (rule byte_secrecy [OF assms(1,2)]) simp
  from pointwise_unique [where P = P and n = "length s", OF this]
  have "\<exists>!us. length us = length s \<and> (\<forall>k < length s. P k (us ! k))" .
  moreover have "length us = length s \<and> (\<forall>k < length s. P k (us ! k)) \<longleftrightarrow>
      (length us = length s \<and> (\<forall>u \<in> set us. length u = length xs)) \<and>
      (\<forall>x \<in> set xs. \<forall>k < length s. poly_evaluate (s' ! k # us ! k) x = poly_evaluate (s ! k # ts ! k) x)" for us
    unfolding P_def set_nth_all [of us] by auto
  ultimately show ?thesis by simp
qed

text \<open>The permutation of a split whose entropy is cut where its coefficients begin.\<close>

lemma split_entropy:
  assumes "shamir_split secret parts threshold (pre @ coeffs @ rest) = Inr (shares, rest)"
    and "length coeffs = length secret * (nat threshold - 1)"
  obtains coords tails where
    "2 \<le> threshold" "threshold \<le> parts" "parts \<le> 255" "secret \<noteq> []"
    "\<forall>x. crypto_perm 255 (pre @ x) = Some (coords, x)"
    "length tails = length secret"
    "shares = map (share_of (map2 (#) secret tails)) (take (nat parts) coords)"
proof -
  from assms(1) obtain coords e1 tails where
    g: "2 \<le> threshold" "threshold \<le> parts" "parts \<le> 255" "secret \<noteq> []"
    and perm: "crypto_perm 255 (pre @ coeffs @ rest) = Some (coords, e1)" and e1: "e1 = concat tails @ rest"
    and tails: "length tails = length secret" "\<forall>tl \<in> set tails. length tl = nat threshold - 1"
    and shares: "shares = map (share_of (map2 (#) secret tails)) (take (nat parts) coords)"
    by (rule shamir_split_Inr)
  from crypto_perm_prefix [OF perm] obtain pre0 where
    pre0: "pre @ coeffs @ rest = pre0 @ e1" "\<And>x. crypto_perm 255 (pre0 @ x) = Some (coords, x)" by blast
  have "pre0 = pre"
    using pre0(1) e1 assms(2) length_concat_uniform [OF tails(2)] tails(1) by (simp add: append_eq_append_conv)
  with pre0(2) have "\<forall>x. crypto_perm 255 (pre @ x) = Some (coords, x)" by simp
  from that [OF g this tails(1) shares] show ?thesis .
qed

text \<open>
  Claim C6. \<open>threshold - 1\<close> shares carry no information: with the same coordinates, every other secret of the
  same length is consistent with them through exactly one choice of the random coefficients, so
  every candidate secret is equally likely.
\<close>

theorem shamir_secrecy:
  assumes split: "shamir_split secret parts threshold (pre @ coeffs @ rest) = Inr (shares, rest)"
    and clen: "length coeffs = length secret * (nat threshold - 1)"
    and slen: "length secret' = length secret"
    and I: "I \<subseteq> {..<nat parts}" "card I = nat threshold - 1"
  shows "\<exists>!coeffs'. length coeffs' = length coeffs \<and>
    (\<exists>shares'. shamir_split secret' parts threshold (pre @ coeffs' @ rest) = Inr (shares', rest) \<and>
      (\<forall>i \<in> I. shares' ! i = shares ! i))"
proof -
  from split clen obtain coords tails where
    g: "2 \<le> threshold" "threshold \<le> parts" "parts \<le> 255" "secret \<noteq> []"
    and perm: "\<forall>x. crypto_perm 255 (pre @ x) = Some (coords, x)" and tails: "length tails = length secret"
    and shares: "shares = map (share_of (map2 (#) secret tails)) (take (nat parts) coords)"
    by (rule split_entropy)
  let ?d = "nat threshold - 1" and ?cs = "take (nat parts) coords"
  let ?shares = "\<lambda>us. map (share_of (map2 (#) secret' us)) ?cs"
  let ?xs = "map (\<lambda>i. coordinate_tag (?cs ! i)) (sorted_list_of_set I)"
  have fin: "finite I" using I(1) finite_subset by blast
  note perm' = perm [rule_format]
  note cp = crypto_perm_props [OF perm']
  have cs: "distinct ?cs" "set ?cs \<subseteq> {..<255}" "I \<subseteq> {..<length ?cs}"
    using cp I(1) g set_take_subset [of "nat parts" coords] by (simp_all add: lessThan_atLeast0)
  note pts = coordinate_points [OF cs(1,2) fin cs(3)]
  define shape where "shape us \<longleftrightarrow> length us = length secret \<and> (\<forall>u \<in> set us. length u = ?d)" for us :: "bytes list"
  have new: "shamir_split secret' parts threshold (pre @ concat us @ rest) = Inr (?shares us, rest)"
    if "shape us" for us
    using that g slen by (intro shamir_split_intro perm') (auto simp: shape_def)
  have agree: "(\<forall>i \<in> I. ?shares us ! i = shares ! i) \<longleftrightarrow> (\<forall>x \<in> set ?xs. \<forall>k < length secret.
      poly_evaluate (secret' ! k # us ! k) x = poly_evaluate (secret ! k # tails ! k) x)" if "shape us" for us
    using that tails slen cs(3) fin shares_agree_iff [of us secret tails secret' _ ?cs]
    by (simp add: shares shape_def subset_iff)
  have sh: "shape us \<longleftrightarrow> length us = length secret \<and> (\<forall>u \<in> set us. length u = length ?xs)" for us
    by (simp only: shape_def pts(3) I(2))
  have "\<exists>!us. shape us \<and> (\<forall>x \<in> set ?xs. \<forall>k < length secret.
      poly_evaluate (secret' ! k # us ! k) x = poly_evaluate (secret ! k # tails ! k) x)"
    unfolding sh by (rule tails_secrecy [OF pts(1,2) slen])
  then have "\<exists>!us. shape us \<and> (\<forall>i \<in> I. ?shares us ! i = shares ! i)"
    by (simp only: agree cong: conj_cong)
  then obtain ts where ts: "shape ts" "\<forall>i \<in> I. ?shares ts ! i = shares ! i"
    and uniq: "\<And>us. shape us \<Longrightarrow> \<forall>i \<in> I. ?shares us ! i = shares ! i \<Longrightarrow> us = ts"
    by (elim ex1E) blast
  have len: "length (concat us) = length coeffs" if "shape us" for us
    using that clen length_concat_uniform [of us ?d] by (simp add: shape_def)
  show ?thesis
  proof (rule ex1I)
    show "length (concat ts) = length coeffs \<and>
      (\<exists>shares'. shamir_split secret' parts threshold (pre @ concat ts @ rest) = Inr (shares', rest) \<and>
        (\<forall>i \<in> I. shares' ! i = shares ! i))"
      using new [OF ts(1)] ts len by blast
  next
    fix c assume "length c = length coeffs \<and>
      (\<exists>shares'. shamir_split secret' parts threshold (pre @ c @ rest) = Inr (shares', rest) \<and>
        (\<forall>i \<in> I. shares' ! i = shares ! i))"
    then obtain us where us: "c = concat us" "shape us" "\<forall>i \<in> I. ?shares us ! i = shares ! i"
      using slen by (auto simp: perm' shape_def elim!: shamir_split_Inr)
    with uniq show "c = concat ts" by blast
  qed
qed

section \<open>Witnesses\<close>

lemma rand_int_zero: "1 \<le> mx \<Longrightarrow> \<exists>k. k \<le> (1::nat) \<and> (\<forall>e. rand_int mx (replicate k 0 @ e) = Some (0, e))"
  by (cases "bit_length (mx - 1) = 0") (auto simp: rand_int_def intro: exI [of _ 0] exI [of _ 1])

lemma perm_loop_zeros:
  "\<exists>k q. k \<le> n \<and> (\<forall>e. perm_loop n perm (replicate k 0 @ e) = Some (q, e))"
proof (induction n arbitrary: perm)
  case (Suc n)
  obtain j where j: "j \<le> 1" "\<forall>e. rand_int (Suc n + 1) (replicate j 0 @ e) = Some (0, e)"
    using rand_int_zero [of "Suc n + 1"] by auto
  obtain k q where k: "k \<le> n" "\<forall>e. perm_loop n (swap_at perm (Suc n) 0) (replicate k 0 @ e) = Some (q, e)"
    using Suc by blast
  show ?case using j k
    by (intro exI [of _ "j + k"] exI [of _ q]) (auto simp: replicate_add)
qed auto

text \<open>A stream of zero bytes is a reader from which every split succeeds.\<close>

lemma shamir_split_zeros:
  assumes "2 \<le> threshold" "threshold \<le> parts" "parts \<le> 255" "secret \<noteq> []"
    and "length tails = length secret" "\<forall>tl \<in> set tails. length tl = nat threshold - 1"
  shows "\<exists>k \<le> 254. \<exists>shares. shamir_split secret parts threshold (replicate k 0 @ concat tails @ rest) = Inr (shares, rest)"
proof -
  obtain k q where "k \<le> 254" "\<forall>e. crypto_perm 255 (replicate k 0 @ e) = Some (q, e)"
    using perm_loop_zeros [of 254 "[0..<255]"] unfolding crypto_perm_def by auto
  with shamir_split_intro [OF assms(1-4) _ assms(5,6)] show ?thesis by blast
qed

text \<open>The shares of one split are pairwise distinct and there are \<open>parts\<close> of them.\<close>

lemma shamir_split_shape:
  assumes "shamir_split secret parts threshold e = Inr (shares, rest)"
  shows "length shares = nat parts" "distinct shares" "2 \<le> threshold" "threshold \<le> parts"
    "\<forall>s \<in> set shares. length s = length secret + 1"
proof -
  from assms obtain coords e1 tails where
    g: "2 \<le> threshold" "threshold \<le> parts" "parts \<le> 255" "secret \<noteq> []"
    and perm: "crypto_perm 255 e = Some (coords, e1)" and tails: "length tails = length secret"
    and shares: "shares = map (share_of (map2 (#) secret tails)) (take (nat parts) coords)"
    by (rule shamir_split_Inr)
  note cp = crypto_perm_props [OF perm]
  show "2 \<le> threshold" "threshold \<le> parts" by fact+
  show "length shares = nat parts" using shares cp(3) g by simp
  show "\<forall>s \<in> set shares. length s = length secret + 1" using shares tails by simp
  have sub: "set (take (nat parts) coords) \<subseteq> {..<255}"
    using cp(2) set_take_subset [of "nat parts" coords] by (simp add: lessThan_atLeast0)
  have "distinct (map last shares)"
    unfolding shares map_map comp_def share_of_tag by (rule distinct_tags [OF _ sub]) (simp add: cp(1))
  then show "distinct shares" by (simp add: distinct_map)
qed

theorem shamir_split_combine_witness:
  "\<exists>e shares. shamir_split [7, 9] 3 2 e = Inr (shares, []) \<and> shamir_combine (rev shares) = Inr [7, 9]"
proof -
  obtain k shares where split: "shamir_split [7, 9] 3 2 (replicate k 0 @ concat [[5], [6]] @ []) = Inr (shares, [])"
    using shamir_split_zeros [of 2 3 "[7, 9]" "[[5], [6]]" "[]"] by auto
  note shape = shamir_split_shape [OF split]
  have "shamir_combine (rev shares) = Inr [7, 9]"
    by (rule shamir_split_combine [OF split]) (use shape in simp_all)
  with split show ?thesis by blast
qed

theorem shamir_secrecy_witness:
  "\<exists>pre shares. shamir_split [7] 2 2 (pre @ [5] @ []) = Inr (shares, []) \<and>
    (\<exists>c shares'. shamir_split [8] 2 2 (pre @ c @ []) = Inr (shares', []) \<and> shares' ! 1 = shares ! 1)"
proof -
  obtain k shares where split: "shamir_split [7] 2 2 (replicate k 0 @ [5] @ []) = Inr (shares, [])"
    using shamir_split_zeros [of 2 2 "[7]" "[[5]]" "[]"] by auto
  have "\<exists>!c. length c = length [5 :: byte] \<and>
    (\<exists>shares'. shamir_split [8] 2 2 (replicate k 0 @ c @ []) = Inr (shares', []) \<and>
      (\<forall>i \<in> {1}. shares' ! i = shares ! i))"
    by (rule shamir_secrecy [OF split]) simp_all
  with split show ?thesis by (metis singletonI)
qed

end
