(* ===== verification/Vault.thy ===== *)
theory Vault
  imports Vault_Store Shamir
begin

text \<open>
  The vault of \<^verbatim>\<open>pkg/vault\<close>: a barrier key that encrypts every secret, itself encrypted under a
  master key that only exists as Shamir shares. The vault is sealed while it does not hold the
  barrier key. State: the store it writes to, the barrier key, the shares gathered by an unseal in
  progress, and the bytes the random reader has left. Every method is one definition; a method that
  fails keeps what it wrote before it failed.
\<close>

section \<open>Data\<close>

record barrier_meta =
  encrypted_barrier :: bytes
  meta_threshold :: int
  meta_shares :: int

record secret_entry =
  encrypted_data :: bytes
  encrypted_dek :: bytes

type_synonym secret_data = "string \<rightharpoonup> string"

text \<open>
  The cryptographic primitives and codecs the package calls: AES-GCM, the JSON of its three
  documents, and the generation of a PEM key pair (\<open>generatePKI\<close>).
\<close>

record platform =
  gcm_seal :: "bytes \<Rightarrow> bytes \<Rightarrow> bytes \<Rightarrow> bytes"
  gcm_open :: "bytes \<Rightarrow> bytes \<Rightarrow> bytes \<Rightarrow> bytes option"
  meta_json :: "barrier_meta \<Rightarrow> bytes"
  meta_parse :: "bytes \<Rightarrow> barrier_meta option"
  entry_json :: "secret_entry \<Rightarrow> bytes"
  entry_parse :: "bytes \<Rightarrow> secret_entry option"
  data_json :: "secret_data \<Rightarrow> bytes"
  data_parse :: "bytes \<Rightarrow> secret_data option"
  generate_pki :: "entropy \<Rightarrow> ((string \<times> string) \<times> entropy) option"

datatype vault_error =
    Err_Sealed | Err_Not_Initialized | Err_Already_Init | Err_Not_Found
  | Invalid_Shares int int
  | Random_Failed
  | Bad_Key_Size | Ciphertext_Too_Short | Open_Failed
  | Split_Failed shamir_error | Combine_Failed shamir_error
  | Wrap_Failed | Wrap_Count nat nat
  | Store_Error store_error
  | Invalid_Hex | Meta_Missing | Meta_Malformed | Entry_Malformed | Data_Malformed
  | Empty_Prefix_Denied
  | Pki_Failed
  | Key_File_Failed

record 's vault =
  vstore :: 's
  barrier_key :: "bytes option"
  unseal_shares :: "bytes list"
  threshold :: int
  rng :: entropy

type_synonym ('s, 'a) vop = "('s vault, vault_error, 'a) op"

definition store_op :: "('s, store_error, 'a) op \<Rightarrow> ('s, 'a) vop" where
  "store_op f v = (case f (vstore v) of
     (Inl e, s) \<Rightarrow> (Inl (Store_Error e), v\<lparr>vstore := s\<rparr>)
   | (Inr x, s) \<Rightarrow> (Inr x, v\<lparr>vstore := s\<rparr>))"

definition store_read :: "('s \<Rightarrow> (store_error, 'a) result) \<Rightarrow> ('s, 'a) vop" where
  "store_read f v = lift_result Store_Error (f (vstore v)) v"

section \<open>Encryption (\<^verbatim>\<open>crypto.go\<close>)\<close>

text \<open>A reader that ends early has delivered all it had.\<close>

definition random_bytes :: "nat \<Rightarrow> ('s, bytes) vop" where
  "random_bytes n v = (case read_full n (rng v) of
     None \<Rightarrow> (Inl Random_Failed, v\<lparr>rng := []\<rparr>)
   | Some (b, e) \<Rightarrow> (Inr b, v\<lparr>rng := e\<rparr>))"

definition valid_aes_key :: "bytes \<Rightarrow> bool" where
  "valid_aes_key k \<longleftrightarrow> length k = 16 \<or> length k = 24 \<or> length k = 32"

definition nonce_size :: nat where
  "nonce_size = 12"

definition encrypt :: "platform \<Rightarrow> bytes \<Rightarrow> bytes \<Rightarrow> ('s, bytes) vop" where
  "encrypt P key plaintext =
    then_op (guard_op (valid_aes_key key) Bad_Key_Size)
      (bind_op (random_bytes nonce_size) (\<lambda>nonce. ret (nonce @ gcm_seal P key nonce plaintext)))"

definition decrypt :: "platform \<Rightarrow> bytes \<Rightarrow> bytes \<Rightarrow> (vault_error, bytes) result" where
  "decrypt P key data =
    (if \<not> valid_aes_key key then Inl Bad_Key_Size
     else if length data < nonce_size then Inl Ciphertext_Too_Short
     else case gcm_open P key (take nonce_size data) (drop nonce_size data) of
       None \<Rightarrow> Inl Open_Failed
     | Some plaintext \<Rightarrow> Inr plaintext)"

section \<open>Reading the state\<close>

definition check_initialized :: "'s vault_store \<Rightarrow> 's vault \<Rightarrow> (store_error, bool) result" where
  "check_initialized S v =
    bind_result (get_barrier S (vstore v)) (\<lambda>(barrier, _). Inr (barrier \<noteq> None))"

definition initialized :: "'s vault_store \<Rightarrow> 's vault \<Rightarrow> bool" where
  "initialized S v = (case check_initialized S v of Inl _ \<Rightarrow> False | Inr b \<Rightarrow> b)"

definition sealed :: "'s vault \<Rightarrow> bool" where
  "sealed v \<longleftrightarrow> barrier_key v = None"

definition get_meta :: "'s vault_store \<Rightarrow> platform \<Rightarrow> 's vault \<Rightarrow> (vault_error, barrier_meta) result" where
  "get_meta S P v = (case get_barrier S (vstore v) of
     Inl e \<Rightarrow> Inl (Store_Error e)
   | Inr (_, None) \<Rightarrow> Inl Meta_Missing
   | Inr (_, Some m) \<Rightarrow> (case meta_parse P m of None \<Rightarrow> Inl Meta_Malformed | Some meta \<Rightarrow> Inr meta))"

record seal_status =
  st_initialized :: bool
  st_sealed :: bool
  st_threshold :: int
  st_shares :: int
  st_progress :: nat
  st_type :: string

definition status :: "'s vault_store \<Rightarrow> platform \<Rightarrow> 's vault \<Rightarrow> seal_status" where
  "status S P v =
    (let s = \<lparr>st_initialized = initialized S v, st_sealed = sealed v, st_threshold = 0, st_shares = 0,
        st_progress = 0, st_type = ''shamir''\<rparr>
     in if \<not> st_initialized s then s
     else let s' = (case get_meta S P v of
         Inl _ \<Rightarrow> s
       | Inr meta \<Rightarrow> s\<lparr>st_threshold := meta_threshold meta, st_shares := meta_shares meta\<rparr>)
     in s'\<lparr>st_progress := length (unseal_shares v)\<rparr>)"

section \<open>Secrets\<close>

text \<open>The guard every secret operation starts with, and the copy of the barrier key it takes.\<close>

definition with_barrier :: "(bytes \<Rightarrow> ('s, 'a) vop) \<Rightarrow> ('s, 'a) vop" where
  "with_barrier f v = (case barrier_key v of None \<Rightarrow> (Inl Err_Sealed, v) | Some key \<Rightarrow> f key v)"

definition seal_entry :: "platform \<Rightarrow> secret_data \<Rightarrow> ('s, bytes) vop" where
  "seal_entry P data = with_barrier (\<lambda>key.
    bind_op (random_bytes 32) (\<lambda>dek.
    bind_op (encrypt P dek (data_json P data)) (\<lambda>enc_data.
    bind_op (encrypt P key dek) (\<lambda>enc_dek.
    ret (entry_json P \<lparr>encrypted_data = enc_data, encrypted_dek = enc_dek\<rparr>)))))"

definition vault_put :: "'s vault_store \<Rightarrow> platform \<Rightarrow> string \<Rightarrow> secret_data \<Rightarrow> ('s, unit) vop" where
  "vault_put S P path data = bind_op (seal_entry P data) (\<lambda>entry. store_op (put_secret S path entry))"

definition vault_put_if_absent :: "'s vault_store \<Rightarrow> platform \<Rightarrow> string \<Rightarrow> secret_data \<Rightarrow> ('s, bool) vop" where
  "vault_put_if_absent S P path data =
    bind_op (seal_entry P data) (\<lambda>entry. store_op (put_secret_if_absent S path entry))"

definition open_entry :: "platform \<Rightarrow> bytes \<Rightarrow> bytes \<Rightarrow> (vault_error, secret_data) result" where
  "open_entry P key entry_bytes = (case entry_parse P entry_bytes of
     None \<Rightarrow> Inl Entry_Malformed
   | Some entry \<Rightarrow>
       bind_result (decrypt P key (encrypted_dek entry)) (\<lambda>dek.
       bind_result (decrypt P dek (encrypted_data entry)) (\<lambda>plaintext.
       case data_parse P plaintext of None \<Rightarrow> Inl Data_Malformed | Some data \<Rightarrow> Inr data)))"

definition vault_get :: "'s vault_store \<Rightarrow> platform \<Rightarrow> string \<Rightarrow> ('s, secret_data) vop" where
  "vault_get S P path = with_barrier (\<lambda>key.
    bind_op (store_read (get_secret S path)) (\<lambda>entry_bytes. case entry_bytes of
      None \<Rightarrow> raise_err Err_Not_Found
    | Some b \<Rightarrow> lift_result id (open_entry P key b)))"

definition vault_delete :: "'s vault_store \<Rightarrow> string \<Rightarrow> ('s, unit) vop" where
  "vault_delete S path = with_barrier (\<lambda>_. store_op (delete_secret S path))"

definition vault_delete_prefix :: "'s vault_store \<Rightarrow> string \<Rightarrow> ('s, nat) vop" where
  "vault_delete_prefix S pre = with_barrier (\<lambda>_.
    if pre = [] then raise_err Empty_Prefix_Denied else store_op (delete_prefix S pre))"

definition vault_list :: "'s vault_store \<Rightarrow> string \<Rightarrow> ('s, string list) vop" where
  "vault_list S pre = with_barrier (\<lambda>_. store_read (list_secrets S pre))"

definition public_path :: string where
  "public_path = ''pki/signing/public''"

definition get_public_key :: "'s vault_store \<Rightarrow> platform \<Rightarrow> ('s, string) vop" where
  "get_public_key S P = bind_op (vault_get S P public_path)
    (\<lambda>data. ret (case data ''key'' of None \<Rightarrow> [] | Some k \<Rightarrow> k))"

section \<open>Initialisation\<close>

definition generate_barrier_keys :: "platform \<Rightarrow> ('s, bytes \<times> bytes \<times> bytes) vop" where
  "generate_barrier_keys P =
    bind_op (random_bytes 32) (\<lambda>key. bind_op (random_bytes 32) (\<lambda>mek.
    bind_op (encrypt P mek key) (\<lambda>enc. ret (key, mek, enc))))"

definition store_barrier_meta :: "'s vault_store \<Rightarrow> platform \<Rightarrow> bytes \<Rightarrow> int \<Rightarrow> int \<Rightarrow> ('s, unit) vop" where
  "store_barrier_meta S P enc shares thr = store_op (put_barrier S enc
    (meta_json P \<lparr>encrypted_barrier = enc, meta_threshold = thr, meta_shares = shares\<rparr>))"

text \<open>\<open>Split\<close> with its entropy taken from the vault's reader; 1-of-1 is the master key itself.\<close>

definition split_mek :: "bytes \<Rightarrow> int \<Rightarrow> int \<Rightarrow> ('s, bytes list) vop" where
  "split_mek mek shares thr v =
    (if shares = 1 \<and> thr = 1 then (Inr [mek], v)
     else case shamir_split mek shares thr (rng v) of
       Inl e \<Rightarrow> (Inl (Split_Failed e), if e \<in> {No_Coordinates, No_Polynomial} then v\<lparr>rng := []\<rparr> else v)
     | Inr (share_bytes, e) \<Rightarrow> (Inr share_bytes, v\<lparr>rng := e\<rparr>))"

definition split_mek_to_hex :: "bytes \<Rightarrow> int \<Rightarrow> int \<Rightarrow> ('s, string list) vop" where
  "split_mek_to_hex mek shares thr =
    bind_op (split_mek mek shares thr) (\<lambda>share_bytes. ret (map hex_encode share_bytes))"

definition pki_op :: "platform \<Rightarrow> ('s, string \<times> string) vop" where
  "pki_op P v = (case generate_pki P (rng v) of
     None \<Rightarrow> (Inl Pki_Failed, v)
   | Some (keys, e) \<Rightarrow> (Inr keys, v\<lparr>rng := e\<rparr>))"

definition store_pki_keys :: "'s vault_store \<Rightarrow> platform \<Rightarrow> ('s, unit) vop" where
  "store_pki_keys S P = bind_op (pki_op P) (\<lambda>(priv, pub).
    then_op (vault_put S P ''pki/signing/private'' [''key'' \<mapsto> priv, ''algorithm'' \<mapsto> ''EC-P256''])
      (vault_put S P public_path [''key'' \<mapsto> pub, ''algorithm'' \<mapsto> ''EC-P256'']))"

definition set_barrier :: "bytes \<Rightarrow> int \<Rightarrow> ('s, unit) vop" where
  "set_barrier key thr v = (Inr (), v\<lparr>barrier_key := Some key, threshold := thr\<rparr>)"

record init_result =
  result_shares :: "string list"
  result_threshold :: int

definition init_wrapped ::
  "'s vault_store \<Rightarrow> platform \<Rightarrow> int \<Rightarrow> int \<Rightarrow> (string list \<Rightarrow> string list option) \<Rightarrow> ('s, init_result) vop" where
  "init_wrapped S P shares thr wrap v =
    (if initialized S v then (Inl Err_Already_Init, v)
     else if shares < 1 \<or> thr < 1 \<or> thr > shares then (Inl (Invalid_Shares shares thr), v)
     else bind_op (generate_barrier_keys P) (\<lambda>(key, mek, enc).
       bind_op (split_mek_to_hex mek shares thr) (\<lambda>hex_shares.
       bind_op (lift_option Wrap_Failed (wrap hex_shares)) (\<lambda>wrapped.
       then_op (guard_op (length wrapped = length hex_shares) (Wrap_Count (length wrapped) (length hex_shares)))
       (then_op (store_barrier_meta S P enc shares thr)
       (then_op (set_barrier key thr)
       (then_op (store_pki_keys S P)
       (ret \<lparr>result_shares = wrapped, result_threshold = thr\<rparr>))))))) v)"

definition vault_init :: "'s vault_store \<Rightarrow> platform \<Rightarrow> int \<Rightarrow> int \<Rightarrow> ('s, init_result) vop" where
  "vault_init S P shares thr = init_wrapped S P shares thr Some"

section \<open>Sealing, unsealing and rekeying\<close>

definition seal_vault :: "'s vault \<Rightarrow> 's vault" where
  "seal_vault v = v\<lparr>barrier_key := None, unseal_shares := []\<rparr>"

definition reset_unseal :: "'s vault \<Rightarrow> 's vault" where
  "reset_unseal v = v\<lparr>unseal_shares := []\<rparr>"

record unseal_progress =
  up_done :: bool
  up_progress :: int
  up_threshold :: int

definition reconstruct_mek :: "bytes list \<Rightarrow> barrier_meta \<Rightarrow> (vault_error, bytes) result" where
  "reconstruct_mek shares meta =
    (if meta_shares meta = 1 \<and> meta_threshold meta = 1 then Inr (hd shares)
     else case shamir_combine shares of Inl e \<Rightarrow> Inl (Combine_Failed e) | Inr mek \<Rightarrow> Inr mek)"

text \<open>
  \<open>gcm.Open\<close> into a nil slice returns nil for an empty plaintext, so an empty barrier key is no
  barrier key.
\<close>

definition barrier_of :: "bytes \<Rightarrow> bytes option" where
  "barrier_of k = (if k = [] then None else Some k)"

definition apply_unseal_shares :: "'s vault_store \<Rightarrow> platform \<Rightarrow> barrier_meta \<Rightarrow> ('s, unit) vop" where
  "apply_unseal_shares S P meta v =
    (case reconstruct_mek (unseal_shares v) meta of
       Inl e \<Rightarrow> (Inl e, v\<lparr>unseal_shares := []\<rparr>)
     | Inr mek \<Rightarrow> (case get_barrier S (vstore v) of
         Inl e \<Rightarrow> (Inl (Store_Error e), v\<lparr>unseal_shares := []\<rparr>)
       | Inr (enc, _) \<Rightarrow> (case decrypt P mek (case enc of None \<Rightarrow> [] | Some b \<Rightarrow> b) of
           Inl e \<Rightarrow> (Inl e, v\<lparr>unseal_shares := []\<rparr>)
         | Inr key \<Rightarrow> (Inr (), v\<lparr>barrier_key := barrier_of key, unseal_shares := []\<rparr>))))"

definition unseal :: "'s vault_store \<Rightarrow> platform \<Rightarrow> string \<Rightarrow> ('s, unseal_progress) vop" where
  "unseal S P share_hex v =
    (if \<not> initialized S v then (Inl Err_Not_Initialized, v)
     else if \<not> sealed v then (Inr \<lparr>up_done = True, up_progress = 0, up_threshold = 0\<rparr>, v)
     else case hex_decode share_hex of
       None \<Rightarrow> (Inl Invalid_Hex, v)
     | Some share_bytes \<Rightarrow> (case get_meta S P v of
         Inl e \<Rightarrow> (Inl e, v)
       | Inr meta \<Rightarrow>
           let v1 = v\<lparr>threshold := meta_threshold meta, unseal_shares := unseal_shares v @ [share_bytes]\<rparr>;
             n = int (length (unseal_shares v1))
           in if n < meta_threshold meta
              then (Inr \<lparr>up_done = False, up_progress = n, up_threshold = meta_threshold meta\<rparr>, v1)
              else then_op (apply_unseal_shares S P meta)
                (ret \<lparr>up_done = True, up_progress = meta_threshold meta, up_threshold = meta_threshold meta\<rparr>) v1))"

definition rekey :: "'s vault_store \<Rightarrow> platform \<Rightarrow> int \<Rightarrow> int \<Rightarrow> ('s, init_result) vop" where
  "rekey S P shares thr = with_barrier (\<lambda>current.
    bind_op (random_bytes 32) (\<lambda>mek.
    bind_op (encrypt P mek current) (\<lambda>enc.
    then_op (store_barrier_meta S P enc shares thr)
    (bind_op (split_mek_to_hex mek shares thr) (\<lambda>hex_shares.
    ret \<lparr>result_shares = hex_shares, result_threshold = thr\<rparr>)))))"

section \<open>Construction and the self-hosted start (\<^verbatim>\<open>autoready.go\<close>)\<close>

text \<open>\<open>newVault\<close>: unseal with the environment's key; a failure is only logged.\<close>

definition new_vault :: "'s vault_store \<Rightarrow> platform \<Rightarrow> 's \<Rightarrow> entropy \<Rightarrow> string \<Rightarrow> 's vault" where
  "new_vault S P st e env_key =
    (let v = \<lparr>vstore = st, barrier_key = None, unseal_shares = [], threshold = 0, rng = e\<rparr>
     in if initialized S v \<and> env_key \<noteq> [] then snd (unseal S P env_key v) else v)"

text \<open>The key file of \<open>EnsureReady\<close>: its content, and whether the path can be written.\<close>

record key_file =
  file_content :: "string option"
  file_writable :: bool

definition ensure_ready ::
  "'s vault_store \<Rightarrow> platform \<Rightarrow> string \<Rightarrow> ('s vault \<times> key_file, vault_error, unit) op" where
  "ensure_ready S P env_key = (\<lambda>(v, f).
    if \<not> initialized S v then
      (case vault_init S P 1 1 v of
         (Inl e, v') \<Rightarrow> (Inl e, (v', f))
       | (Inr res, v') \<Rightarrow>
           if env_key \<noteq> [] then (Inr (), (v', f))
           else if file_writable f then (Inr (), (v', f\<lparr>file_content := Some (hd (result_shares res))\<rparr>))
           else (Inl Key_File_Failed, (v', f)))
    else if \<not> sealed v then (Inr (), (v, f))
    else let key = trim_space env_key
      in case (if key = [] then map_option trim_space (file_content f) else Some key) of
           None \<Rightarrow> (Inl Key_File_Failed, (v, f))
         | Some k \<Rightarrow> (case unseal S P k v of
             (Inl e, v') \<Rightarrow> (Inl e, (v', f))
           | (Inr _, v') \<Rightarrow> (Inr (), (v', f))))"

end
