(* ===== verification/Vault_Correct.thy ===== *)
theory Vault_Correct
  imports Vault
begin

text \<open>
  What the vault promises, for every store that keeps the contract of \<^verbatim>\<open>Vault_Store\<close>: the client
  lemmas are proved in the locale \<open>vault_store_laws\<close> and stated below, as theorems, for the Postgres
  and the in-memory store through their interpretations.
\<close>

section \<open>The documented behaviour of the primitives\<close>

text \<open>
  Opening undoes sealing under the same key and nonce; the two documents decode to what was encoded,
  the metadata also after the store has rendered it (\<open>norm\<close>).
\<close>

definition platform_ok :: "platform \<Rightarrow> (bytes \<Rightarrow> bytes option) \<Rightarrow> bool" where
  "platform_ok P norm \<longleftrightarrow>
    (\<forall>k n p. valid_aes_key k \<longrightarrow> length n = nonce_size \<longrightarrow> gcm_open P k n (gcm_seal P k n p) = Some p) \<and>
    (\<forall>m. \<exists>m'. norm (meta_json P m) = Some m' \<and> meta_parse P m' = Some m) \<and>
    (\<forall>x. entry_parse P (entry_json P x) = Some x)"

definition data_ok :: "platform \<Rightarrow> secret_data \<Rightarrow> bool" where
  "data_ok P d \<longleftrightarrow> data_parse P (data_json P d) = Some d"

lemma platform_okD:
  assumes "platform_ok P norm"
  shows "valid_aes_key k \<Longrightarrow> length n = nonce_size \<Longrightarrow> gcm_open P k n (gcm_seal P k n p) = Some p"
    and "\<exists>m'. norm (meta_json P m) = Some m' \<and> meta_parse P m' = Some m"
    and "entry_parse P (entry_json P x) = Some x"
  using assms unfolding platform_ok_def by blast+

section \<open>Steps that only draw random bytes\<close>

definition draws :: "('s, 'a) vop \<Rightarrow> bool" where
  "draws m \<longleftrightarrow> (\<forall>v r v'. m v = (r, v') \<longrightarrow> v' = v\<lparr>rng := rng v'\<rparr>)"

named_theorems draws_intros \<open>operations that change nothing but the random reader\<close>

lemma drawsD: "draws m \<Longrightarrow> m v = (r, v') \<Longrightarrow> v' = v\<lparr>rng := rng v'\<rparr>"
  unfolding draws_def by blast

lemma draws_basic [draws_intros]:
  "draws (ret x)" "draws (raise_err e)" "draws (guard_op b e)" "draws (lift_option e y)"
  "draws (lift_result w z)" "draws (random_bytes n)"
  by (auto simp: draws_def ret_def raise_err_def guard_op_def lift_option_def lift_result_def random_bytes_def
      split: option.splits sum.splits prod.splits)

lemma draws_bind [draws_intros]:
  assumes "draws m" "\<And>x. draws (f x)"
  shows "draws (bind_op m f)"
  unfolding draws_def
proof (intro allI impI)
  fix v r v' assume h: "bind_op m f v = (r, v')"
  obtain r1 v1 where m: "m v = (r1, v1)" by force
  from drawsD [OF assms(1) this] have 1: "v1 = v\<lparr>rng := rng v1\<rparr>" .
  show "v' = v\<lparr>rng := rng v'\<rparr>"
  proof (cases r1)
    case (Inl e)
    with h m 1 show ?thesis by (simp add: bind_op_def)
  next
    case (Inr x)
    with h m have "f x v1 = (r, v')" by (simp add: bind_op_def)
    from drawsD [OF assms(2) this] 1 show ?thesis by (metis vault.surjective vault.update_convs(5))
  qed
qed

lemma draws_then [draws_intros]: "draws m \<Longrightarrow> draws k \<Longrightarrow> draws (then_op m k)"
  by (simp add: then_op_def draws_intros)

lemma draws_encrypt [draws_intros]: "draws (encrypt P k p)"
  unfolding encrypt_def by (intro draws_intros)

lemma draws_with_barrier [draws_intros]: "(\<And>k. draws (f k)) \<Longrightarrow> draws (with_barrier f)"
  by (auto simp: draws_def with_barrier_def split: option.splits)

lemma draws_seal_entry [draws_intros]: "draws (seal_entry P d)"
  unfolding seal_entry_def by (intro draws_intros)

lemma draws_split_mek [draws_intros]: "draws (split_mek mek n t)"
  by (auto simp: draws_def split_mek_def split: if_splits sum.splits prod.splits)

lemma draws_split_hex [draws_intros]: "draws (split_mek_to_hex mek n t)"
  unfolding split_mek_to_hex_def by (intro draws_intros)

lemma draws_keys [draws_intros]: "draws (generate_barrier_keys P)"
  unfolding generate_barrier_keys_def by (intro draws_intros)

lemma draws_pki [draws_intros]: "draws (pki_op P)"
  by (auto simp: draws_def pki_op_def split: option.splits prod.splits)

section \<open>What encryption and sealing produce\<close>

lemma random_bytes_Inr: "random_bytes n v = (Inr b, v') \<Longrightarrow> length b = n"
  by (auto simp: random_bytes_def dest: read_full_length split: option.splits prod.splits)

lemma encrypt_Inr:
  assumes "platform_ok P norm" "encrypt P k p v = (Inr c, v')"
  shows "decrypt P k c = Inr p"
proof -
  from assms(2) obtain nonce v1 where k: "valid_aes_key k" and n: "random_bytes nonce_size v = (Inr nonce, v1)"
    and c: "c = nonce @ gcm_seal P k nonce p"
    by (auto simp: encrypt_def op_Inr_iff)
  from random_bytes_Inr [OF n] platform_okD(1) [OF assms(1) k] c k show ?thesis by (simp add: decrypt_def)
qed

lemma with_barrier_Inr: "with_barrier f v = (Inr x, v') \<longleftrightarrow> (\<exists>k. barrier_key v = Some k \<and> f k v = (Inr x, v'))"
  by (auto simp: with_barrier_def split: option.splits)

lemma seal_entry_Inr:
  fixes v :: "'s vault"
  assumes "platform_ok P norm" "data_ok P d" "seal_entry P d v = (Inr entry, v')"
  obtains key where "barrier_key v = Some key" "open_entry P key entry = Inr d"
proof -
  from assms(3) obtain key dek ed ek and v1 v2 v3 :: "'s vault" where key: "barrier_key v = Some key"
    and 2: "encrypt P dek (data_json P d) v1 = (Inr ed, v2)"
    and 3: "encrypt P key dek v2 = (Inr ek, v3)"
    and e: "entry = entry_json P \<lparr>encrypted_data = ed, encrypted_dek = ek\<rparr>"
    by (auto simp: seal_entry_def with_barrier_Inr op_Inr_iff)
  from encrypt_Inr [OF assms(1) 2] encrypt_Inr [OF assms(1) 3] platform_okD(3) [OF assms(1)] assms(2) e key that
  show ?thesis by (simp add: open_entry_def data_ok_def)
qed

lemma generate_barrier_keys_Inr:
  assumes "platform_ok P norm" "generate_barrier_keys P v = (Inr (key, mek, enc), v')"
  shows "decrypt P mek enc = Inr key" "length key = 32" "length mek = 32"
  using assms(2) encrypt_Inr [OF assms(1)]
  by (auto simp: generate_barrier_keys_def op_Inr_iff dest: random_bytes_Inr)

section \<open>Shares of the master key\<close>

text \<open>
  Any \<open>threshold\<close> distinct shares that \<open>splitMEKToHex\<close> returned give the master key back through
  \<open>reconstructMEK\<close>, in the 1-of-1 form as well.
\<close>

lemma split_mek_reconstruct:
  assumes "split_mek mek n t v = (Inr shares, v')"
    and "distinct sub" "set sub \<subseteq> set shares" "length sub = nat t" "1 \<le> t"
  shows "reconstruct_mek sub \<lparr>encrypted_barrier = enc, meta_threshold = t, meta_shares = n\<rparr> = Inr mek"
proof (cases "n = 1 \<and> t = 1")
  case True
  with assms have "sub = [mek]" by (auto simp: split_mek_def length_Suc_conv)
  with True show ?thesis by (simp add: reconstruct_mek_def)
next
  case False
  with assms(1) obtain e where "shamir_split mek n t (rng v) = Inr (shares, e)"
    by (auto simp: split_mek_def split: if_splits sum.splits)
  from shamir_split_combine_lemma [OF this assms(2,3)] assms(4) False show ?thesis
    by (auto simp: reconstruct_mek_def)
qed

text \<open>A selection of hex shares is the encoding of a selection of shares.\<close>

lemma hex_selection:
  assumes "set sub \<subseteq> set (map hex_encode shares)"
  obtains bs where "sub = map hex_encode bs" "set bs \<subseteq> set shares"
proof
  have h: "hex_encode (the (hex_decode h)) = h \<and> the (hex_decode h) \<in> set shares" if "h \<in> set sub" for h
  proof -
    from that assms obtain b where "h = hex_encode b" "b \<in> set shares" by auto
    then show ?thesis by simp
  qed
  then show "sub = map hex_encode (map (\<lambda>h. the (hex_decode h)) sub)" by (simp add: map_idI)
  show "set (map (\<lambda>h. the (hex_decode h)) sub) \<subseteq> set shares" using h by auto
qed

section \<open>The vault over a lawful store\<close>

text \<open>\<open>feed S P hs v\<close> submits the shares \<open>hs\<close> one after the other.\<close>

fun feed :: "'s vault_store \<Rightarrow> platform \<Rightarrow> string list \<Rightarrow> 's vault \<Rightarrow>
    (vault_error, unseal_progress) result list \<times> 's vault" where
  "feed S P [] v = ([], v)"
| "feed S P (h # hs) v =
    (let (r, v1) = unseal S P h v; (rs, v2) = feed S P hs v1 in (r # rs, v2))"

context vault_store_laws
begin

lemma initialized_view: "avail (vstore v) \<Longrightarrow> initialized S v \<longleftrightarrow> view_barrier (view (vstore v)) \<noteq> None"
  by (simp add: initialized_def check_initialized_def get_barrier_law)

lemma get_meta_view:
  assumes "avail (vstore v)" "view_barrier (view (vstore v)) = Some (enc, m)" "meta_parse P m = Some meta"
  shows "get_meta S P v = Inr meta"
  using assms by (simp add: get_meta_def get_barrier_law)

lemma put_get_same:
  assumes "platform_ok P nrm" "data_ok P d" "avail (vstore v)" "vault_put S P p d v = (Inr (), v')"
  shows "vault_get S P p v' = (Inr d, v')"
    and "avail (vstore v')" and "barrier_key v' = barrier_key v" "unseal_shares v' = unseal_shares v"
    and "view (vstore v') = (view (vstore v))
      \<lparr>view_secrets := (view_secrets (view (vstore v')))\<rparr>"
    and "q \<noteq> p \<Longrightarrow> fst (vault_get S P q v') = fst (vault_get S P q v)"
proof -
  from assms(4) obtain entry v1 where e: "seal_entry P d v = (Inr entry, v1)"
    and s: "store_op (put_secret S p entry) v1 = (Inr (), v')"
    by (auto simp: vault_put_def op_Inr_iff)
  from drawsD [OF draws_seal_entry e] have v1: "v1 = v\<lparr>rng := rng v1\<rparr>" .
  then have st: "vstore v1 = vstore v" "barrier_key v1 = barrier_key v" "unseal_shares v1 = unseal_shares v"
    by (metis vault.select_convs vault.surjective vault.update_convs(5))+
  from put_secret_law [OF assms(3), of p entry] obtain s' where
    s': "put_secret S p entry (vstore v) = (Inr (), s')" "avail s'"
    "view s' = (view (vstore v))\<lparr>view_secrets := (view_secrets (view (vstore v)))(p \<mapsto> entry)\<rparr>" by blast
  from s s'(1) st(1) have v': "v' = v1\<lparr>vstore := s'\<rparr>" by (simp add: store_op_def)
  from seal_entry_Inr [OF assms(1,2) e] obtain key where
    key: "barrier_key v = Some key" "open_entry P key entry = Inr d" by blast
  have get: "vault_get S P r v' = (case view_secrets (view (vstore v')) r of
      None \<Rightarrow> (Inl Err_Not_Found, v') | Some b \<Rightarrow> (map_sum id id (open_entry P key b), v'))" for r
    using key st v' s'(2) get_secret_law [of s' r]
    by (cases "view_secrets (view s') r"; cases "open_entry P key (the (view_secrets (view s') r))")
      (auto simp: vault_get_def with_barrier_def store_read_def bind_op_def lift_result_def ret_def raise_err_def)
  show "vault_get S P p v' = (Inr d, v')" using get s'(3) key v' by simp
  show "avail (vstore v')" using v' s' by simp
  show "barrier_key v' = barrier_key v" "unseal_shares v' = unseal_shares v" using v' st by simp_all
  show "view (vstore v') = (view (vstore v))\<lparr>view_secrets := (view_secrets (view (vstore v')))\<rparr>"
    using v' s' by simp
  show "fst (vault_get S P q v') = fst (vault_get S P q v)" if "q \<noteq> p"
    using get [of q] that key v' s'(3) get_secret_law [OF assms(3), of q]
    by (cases "view_secrets (view (vstore v)) q"; cases "open_entry P key (the (view_secrets (view (vstore v)) q))")
      (auto simp: vault_get_def with_barrier_def store_read_def bind_op_def lift_result_def ret_def raise_err_def)
qed

lemma vault_put_frame:
  assumes "avail (vstore v)" "vault_put S P p d v = (r, v')"
  shows "avail (vstore v') \<and> barrier_key v' = barrier_key v \<and> unseal_shares v' = unseal_shares v \<and>
    view_barrier (view (vstore v')) = view_barrier (view (vstore v))"
proof -
  obtain r1 v1 where e: "seal_entry P d v = (r1, v1)" by force
  from drawsD [OF draws_seal_entry this] obtain g where v1: "v1 = v\<lparr>rng := g\<rparr>" by blast
  show ?thesis
  proof (cases r1)
    case (Inl x)
    with assms e v1 show ?thesis by (auto simp: vault_put_def bind_op_def)
  next
    case (Inr entry)
    from put_secret_law [OF assms(1), of p entry] obtain s' where
      "put_secret S p entry (vstore v) = (Inr (), s')" "avail s'"
      "view s' = (view (vstore v))\<lparr>view_secrets := (view_secrets (view (vstore v)))(p \<mapsto> entry)\<rparr>" by blast
    with Inr assms e v1 show ?thesis by (auto simp: vault_put_def bind_op_def store_op_def)
  qed
qed

lemma store_pki_frame:
  assumes "avail (vstore v)" "store_pki_keys S P v = (Inr (), v')"
  shows "avail (vstore v') \<and> barrier_key v' = barrier_key v \<and> unseal_shares v' = unseal_shares v \<and>
    view_barrier (view (vstore v')) = view_barrier (view (vstore v))"
proof -
  from assms(2) obtain priv pub v1 v2 where 1: "pki_op P v = (Inr (priv, pub), v1)"
    and 2: "vault_put S P ''pki/signing/private'' [''key'' \<mapsto> priv, ''algorithm'' \<mapsto> ''EC-P256''] v1 = (Inr (), v2)"
    and 3: "vault_put S P public_path [''key'' \<mapsto> pub, ''algorithm'' \<mapsto> ''EC-P256''] v2 = (Inr (), v')"
    by (auto simp: store_pki_keys_def op_Inr_iff)
  from drawsD [OF draws_pki 1] obtain g where "v1 = v\<lparr>rng := g\<rparr>" by blast
  with vault_put_frame [OF _ 2] vault_put_frame [OF _ 3] assms(1) show ?thesis by simp
qed

lemma init_wrapped_Inr:
  fixes v :: "'s vault"
  assumes "platform_ok P norm" "avail (vstore v)" "init_wrapped S P n t wrap v = (Inr res, v')"
  obtains key mek enc m shares and w w' :: "'s vault" where
    "barrier_key v' = Some key" "length key = 32" "decrypt P mek enc = Inr key"
    "view_barrier (view (vstore v')) = Some (enc, m)"
    "meta_parse P m = Some \<lparr>encrypted_barrier = enc, meta_threshold = t, meta_shares = n\<rparr>"
    "split_mek mek n t w = (Inr shares, w')" "wrap (map hex_encode shares) = Some (result_shares res)"
    "result_threshold res = t" "1 \<le> t" "t \<le> n" "avail (vstore v')" "unseal_shares v' = unseal_shares v"
proof -
  from assms(3) obtain key mek enc shares and w w' w2 w3 :: "'s vault" where t: "1 \<le> t" "t \<le> n"
    and 1: "generate_barrier_keys P v = (Inr (key, mek, enc), w)"
    and 2: "split_mek mek n t w = (Inr shares, w')"
    and 3: "wrap (map hex_encode shares) = Some (result_shares res)" "result_threshold res = t"
    and 4: "store_barrier_meta S P enc n t w' = (Inr (), w2)"
    and 5: "set_barrier key t w2 = (Inr (), w3)" and 6: "store_pki_keys S P w3 = (Inr (), v')"
    by (auto simp: init_wrapped_def split_mek_to_hex_def op_Inr_iff not_less split: if_splits prod.splits)
  let ?meta = "\<lparr>encrypted_barrier = enc, meta_threshold = t, meta_shares = n\<rparr>"
  from drawsD [OF draws_keys 1] obtain g where w: "w = v\<lparr>rng := g\<rparr>" by blast
  from drawsD [OF draws_split_mek 2] obtain g' where w': "w' = w\<lparr>rng := g'\<rparr>" by blast
  from platform_okD(2) [OF assms(1)] obtain m where
    m: "norm (meta_json P ?meta) = Some m" "meta_parse P m = Some ?meta" by blast
  from put_barrier_law [OF assms(2) m(1), of enc] obtain s' where
    s': "put_barrier S enc (meta_json P ?meta) (vstore v) = (Inr (), s')" "avail s'"
      "view s' = (view (vstore v))\<lparr>view_barrier := Some (enc, m)\<rparr>" by blast
  with 4 5 w w' have w3: "w3 = w'\<lparr>vstore := s', barrier_key := Some key, threshold := t\<rparr>"
    by (simp add: store_barrier_meta_def store_op_def set_barrier_def)
  with store_pki_frame [OF _ 6] s' w w' have "avail (vstore v')" "barrier_key v' = Some key"
    "unseal_shares v' = unseal_shares v" "view_barrier (view (vstore v')) = Some (enc, m)" by simp_all
  with generate_barrier_keys_Inr [OF assms(1) 1] m(2) 2 3 t that show ?thesis by blast
qed

lemma unseal_share:
  assumes "avail (vstore v)" "sealed v" "view_barrier (view (vstore v)) = Some (enc, m)" "meta_parse P m = Some meta"
  shows "unseal S P (hex_encode b) v =
    (let v1 = v\<lparr>threshold := meta_threshold meta, unseal_shares := unseal_shares v @ [b]\<rparr>;
       n = int (length (unseal_shares v1))
     in if n < meta_threshold meta
        then (Inr \<lparr>up_done = False, up_progress = n, up_threshold = meta_threshold meta\<rparr>, v1)
        else then_op (apply_unseal_shares S P meta)
          (ret \<lparr>up_done = True, up_progress = meta_threshold meta, up_threshold = meta_threshold meta\<rparr>) v1)"
  using assms by (simp add: unseal_def initialized_view get_meta_view)

lemma feed_unseals:
  assumes "avail (vstore v)" "sealed v" "view_barrier (view (vstore v)) = Some (enc, m)" "meta_parse P m = Some meta"
    and "reconstruct_mek (unseal_shares v @ bs) meta = Inr mek" "decrypt P mek enc = Inr key" "key \<noteq> []"
    and "bs \<noteq> []" "int (length (unseal_shares v @ bs)) = meta_threshold meta"
  shows "\<exists>rs. feed S P (map hex_encode bs) v = (rs, v\<lparr>threshold := meta_threshold meta,
      barrier_key := Some key, unseal_shares := []\<rparr>) \<and> length rs = length bs \<and>
    (\<forall>r \<in> set (butlast rs). \<exists>p. r = Inr p \<and> \<not> up_done p) \<and>
    last rs = Inr \<lparr>up_done = True, up_progress = meta_threshold meta, up_threshold = meta_threshold meta\<rparr>"
  using assms
proof (induction bs arbitrary: v)
  case (Cons b bs)
  let ?v1 = "v\<lparr>threshold := meta_threshold meta, unseal_shares := unseal_shares v @ [b]\<rparr>"
  note u = unseal_share [OF Cons.prems(1-4), of b]
  show ?case
  proof (cases "bs = []")
    case True
    have "apply_unseal_shares S P meta ?v1 = (Inr (), v\<lparr>threshold := meta_threshold meta,
        barrier_key := Some key, unseal_shares := []\<rparr>)"
      using Cons.prems True by (simp add: apply_unseal_shares_def get_barrier_law barrier_of_def)
    with u Cons.prems True show ?thesis by (simp add: op_simps Let_def)
  next
    case False
    then have lt: "int (length (unseal_shares v @ [b])) < meta_threshold meta"
      using Cons.prems(9) by (cases bs) auto
    have "\<exists>rs. feed S P (map hex_encode bs) ?v1 = (rs, ?v1\<lparr>threshold := meta_threshold meta,
        barrier_key := Some key, unseal_shares := []\<rparr>) \<and> length rs = length bs \<and>
      (\<forall>r \<in> set (butlast rs). \<exists>p. r = Inr p \<and> \<not> up_done p) \<and>
      last rs = Inr \<lparr>up_done = True, up_progress = meta_threshold meta, up_threshold = meta_threshold meta\<rparr>"
      by (rule Cons.IH) (use Cons.prems False in \<open>simp_all add: sealed_def\<close>)
    then obtain rs where "feed S P (map hex_encode bs) ?v1 = (rs, ?v1\<lparr>threshold := meta_threshold meta,
        barrier_key := Some key, unseal_shares := []\<rparr>)" "length rs = length bs"
      "\<forall>r \<in> set (butlast rs). \<exists>p. r = Inr p \<and> \<not> up_done p"
      "last rs = Inr \<lparr>up_done = True, up_progress = meta_threshold meta, up_threshold = meta_threshold meta\<rparr>" by blast
    moreover from this False have "rs \<noteq> []" by auto
    ultimately show ?thesis using u lt by (auto simp: Let_def)
  qed
qed simp

text \<open>The life of a vault: initialise, seal, and unseal with any \<open>threshold\<close> of the shares.\<close>

lemma init_seal_unseal:
  assumes "platform_ok P norm" "avail (vstore v)" "vault_init S P n t v = (Inr res, v')"
    and "distinct sub" "set sub \<subseteq> set (result_shares res)" "int (length sub) = t"
  shows "\<exists>rs w. feed S P sub (seal_vault v') = (rs, w) \<and> barrier_key w = barrier_key v' \<and> \<not> sealed w \<and>
    vstore w = vstore v' \<and> last rs = Inr \<lparr>up_done = True, up_progress = t, up_threshold = t\<rparr>"
proof -
  from assms(3) have "init_wrapped S P n t Some v = (Inr res, v')" by (simp add: vault_init_def)
  from init_wrapped_Inr [OF assms(1,2) this] obtain key mek enc m shares and w w' :: "'s vault" where
    i: "barrier_key v' = Some key" "length key = 32" "decrypt P mek enc = Inr key"
      "view_barrier (view (vstore v')) = Some (enc, m)"
      "meta_parse P m = Some \<lparr>encrypted_barrier = enc, meta_threshold = t, meta_shares = n\<rparr>"
      "split_mek mek n t w = (Inr shares, w')" "Some (map hex_encode shares) = Some (result_shares res)"
      "result_threshold res = t" "1 \<le> t" "t \<le> n" "avail (vstore v')" "unseal_shares v' = unseal_shares v" .
  have "set sub \<subseteq> set (map hex_encode shares)" using assms(5) i(7) by simp
  then obtain bs where sub: "sub = map hex_encode bs" "set bs \<subseteq> set shares" by (rule hex_selection)
  then have "distinct bs" using assms(4) by (simp add: distinct_map)
  moreover have "length bs = nat t" using assms(6) sub(1) by simp
  ultimately have r: "reconstruct_mek bs \<lparr>encrypted_barrier = enc, meta_threshold = t, meta_shares = n\<rparr> = Inr mek"
    using split_mek_reconstruct [OF i(6) _ sub(2)] i(9) by blast
  have ne: "key \<noteq> []" "bs \<noteq> []" using i(2,9) \<open>length bs = nat t\<close> by auto
  have "\<exists>rs. feed S P (map hex_encode bs) (seal_vault v') = (rs, (seal_vault v')
      \<lparr>threshold := t, barrier_key := Some key, unseal_shares := []\<rparr>) \<and> length rs = length bs \<and>
    (\<forall>r \<in> set (butlast rs). \<exists>p. r = Inr p \<and> \<not> up_done p) \<and>
    last rs = Inr \<lparr>up_done = True, up_progress = t, up_threshold = t\<rparr>"
    using feed_unseals [of "seal_vault v'", OF _ _ _ i(5), of enc bs mek key] i(1-5,9,11) r \<open>length bs = nat t\<close> ne
    by (simp add: seal_vault_def sealed_def)
  then show ?thesis using i(1) sub(1) by (auto simp: seal_vault_def sealed_def)
qed

text \<open>A successful rekeying keeps the barrier key, and its new shares unseal the vault.\<close>

lemma rekey_unseal:
  assumes "platform_ok P norm" "avail (vstore v)" "rekey S P n t v = (Inr res, v')"
    and "1 \<le> t" "barrier_key v \<noteq> Some []"
    and "distinct sub" "set sub \<subseteq> set (result_shares res)" "int (length sub) = t"
  shows "\<exists>rs w. feed S P sub (seal_vault v') = (rs, w) \<and> barrier_key w = barrier_key v \<and> barrier_key v' = barrier_key v \<and>
    vstore w = vstore v' \<and> last rs = Inr \<lparr>up_done = True, up_progress = t, up_threshold = t\<rparr>"
proof -
  from assms(3) obtain key mek enc shares and w1 w2 w3 :: "'s vault" where key: "barrier_key v = Some key"
    and 1: "random_bytes 32 v = (Inr mek, w1)" and 2: "encrypt P mek key w1 = (Inr enc, w2)"
    and 3: "store_barrier_meta S P enc n t w2 = (Inr (), w3)"
    and 4: "split_mek mek n t w3 = (Inr shares, v')" and res: "result_shares res = map hex_encode shares"
    by (auto simp: rekey_def with_barrier_Inr split_mek_to_hex_def op_Inr_iff)
  let ?meta = "\<lparr>encrypted_barrier = enc, meta_threshold = t, meta_shares = n\<rparr>"
  from drawsD [OF draws_basic(6) 1] obtain g where w1: "w1 = v\<lparr>rng := g\<rparr>" by blast
  from drawsD [OF draws_encrypt 2] obtain g' where w2: "w2 = w1\<lparr>rng := g'\<rparr>" by blast
  from platform_okD(2) [OF assms(1)] obtain m where
    m: "norm (meta_json P ?meta) = Some m" "meta_parse P m = Some ?meta" by blast
  from put_barrier_law [OF assms(2) m(1), of enc] obtain s' where
    s': "put_barrier S enc (meta_json P ?meta) (vstore v) = (Inr (), s')" "avail s'"
      "view s' = (view (vstore v))\<lparr>view_barrier := Some (enc, m)\<rparr>" by blast
  with 3 w1 w2 have w3: "w3 = w2\<lparr>vstore := s'\<rparr>" by (simp add: store_barrier_meta_def store_op_def)
  from drawsD [OF draws_split_mek 4] obtain g'' where v': "v' = w3\<lparr>rng := g''\<rparr>" by blast
  obtain bs where sub: "sub = map hex_encode bs" "set bs \<subseteq> set shares"
    by (rule hex_selection [OF assms(7) [unfolded res]])
  then have "distinct bs" and len: "length bs = nat t" using assms(6,8) by (auto simp: distinct_map)
  with split_mek_reconstruct [OF 4 _ sub(2) _ assms(4)] have r: "reconstruct_mek bs ?meta = Inr mek" by blast
  have ne: "key \<noteq> []" "bs \<noteq> []" using key assms(4,5) len by auto
  show ?thesis
    using feed_unseals [of "seal_vault v'", OF _ _ _ m(2), of enc bs mek key]
      encrypt_Inr [OF assms(1) 2] r len ne assms(4) s' v' w1 w2 w3 sub(1) key
    by (auto simp: seal_vault_def sealed_def)
qed

text \<open>The self-hosted start: a first start initialises, a restart unseals from the key file.\<close>

lemma ensure_ready_first:
  assumes "avail (vstore v)" "\<not> initialized S v" "ensure_ready S P [] (v, f) = (Inr (), (v', f'))"
  obtains res where "init_wrapped S P 1 1 Some v = (Inr res, v')"
    "f' = f\<lparr>file_content := Some (hd (result_shares res))\<rparr>"
  using assms by (auto simp: ensure_ready_def vault_init_def split: prod.splits sum.splits if_splits)

lemma ensure_ready_restart:
  assumes "platform_ok P norm" "avail (vstore v)" "\<not> initialized S v"
    and "ensure_ready S P [] (v, f) = (Inr (), (v', f'))"
  shows "\<exists>w. ensure_ready S P [] (new_vault S P (vstore v') e [], f') = (Inr (), (w, f')) \<and>
    barrier_key w = barrier_key v' \<and> \<not> sealed w \<and> vstore w = vstore v'"
proof -
  from ensure_ready_first [OF assms(2-4)] obtain res where
    init: "init_wrapped S P 1 1 Some v = (Inr res, v')"
    and f': "f' = f\<lparr>file_content := Some (hd (result_shares res))\<rparr>" by blast
  from init_wrapped_Inr [OF assms(1,2) init] obtain key mek enc m shares and w w' :: "'s vault" where
    i: "barrier_key v' = Some key" "length key = 32" "decrypt P mek enc = Inr key"
      "view_barrier (view (vstore v')) = Some (enc, m)"
      "meta_parse P m = Some \<lparr>encrypted_barrier = enc, meta_threshold = 1, meta_shares = 1\<rparr>"
      "split_mek mek 1 1 w = (Inr shares, w')" "Some (map hex_encode shares) = Some (result_shares res)"
      "result_threshold res = 1" "1 \<le> (1 :: int)" "(1 :: int) \<le> 1" "avail (vstore v')"
      "unseal_shares v' = unseal_shares v" .
  have shares: "result_shares res = [hex_encode mek]" using i(6,7) by (auto simp: split_mek_def)
  let ?v = "new_vault S P (vstore v') e []"
  have v: "sealed ?v" "vstore ?v = vstore v'" "unseal_shares ?v = []" by (simp_all add: new_vault_def sealed_def)
  have "key \<noteq> []" using i(2) by auto
  with feed_unseals [of ?v, OF _ v(1) _ i(5), of enc "[mek]" mek key] v i(3,4,11)
  have "\<exists>r. unseal S P (hex_encode mek) ?v = (Inr r, ?v\<lparr>threshold := 1, barrier_key := Some key, unseal_shares := []\<rparr>)"
    by (auto simp: reconstruct_mek_def split: prod.splits)
  then obtain r where "unseal S P (hex_encode mek) ?v
    = (Inr r, ?v\<lparr>threshold := 1, barrier_key := Some key, unseal_shares := []\<rparr>)" by blast
  moreover have "initialized S ?v" using i(4,11) v(2) by (simp add: initialized_view)
  moreover have "mek \<noteq> []" using i(3) by (auto simp: decrypt_def valid_aes_key_def)
  ultimately have "ensure_ready S P [] (?v, f')
      = (Inr (), (?v\<lparr>threshold := 1, barrier_key := Some key, unseal_shares := []\<rparr>, f'))"
    using v(1) f' shares by (simp add: ensure_ready_def Let_def)
  then show ?thesis using v(2) i(1) by (intro exI conjI) (assumption, simp_all add: sealed_def)
qed

end

section \<open>An instance of the primitives\<close>

text \<open>
  A platform on which the documented behaviour holds, for the witnesses: sealing is the identity and
  the documents are written with unary lengths.
\<close>

definition unary :: "nat \<Rightarrow> bytes" where
  "unary n = replicate n 1 @ [0]"

definition read_unary :: "bytes \<Rightarrow> nat \<times> bytes" where
  "read_unary bs = (length (takeWhile (\<lambda>b. b = 1) bs), drop 1 (dropWhile (\<lambda>b. b = 1) bs))"

lemma read_unary_unary [simp]: "read_unary (unary n @ bs) = (n, bs)"
proof -
  have "takeWhile (\<lambda>b. b = (1 :: byte)) (replicate n 1 @ 0 # bs) = replicate n 1"
    "dropWhile (\<lambda>b. b = (1 :: byte)) (replicate n 1 @ 0 # bs) = 0 # bs" by (induction n) simp_all
  then show ?thesis by (simp add: unary_def read_unary_def)
qed

definition plain_platform :: platform where
  "plain_platform = \<lparr>
    gcm_seal = (\<lambda>k n p. p), gcm_open = (\<lambda>k n c. Some c),
    meta_json = (\<lambda>m. unary (nat (meta_threshold m)) @ unary (nat (- meta_threshold m)) @
      unary (nat (meta_shares m)) @ unary (nat (- meta_shares m)) @ encrypted_barrier m),
    meta_parse = (\<lambda>bs. let (a, r) = read_unary bs; (b, r) = read_unary r; (c, r) = read_unary r; (d, r) = read_unary r
      in Some \<lparr>encrypted_barrier = r, meta_threshold = int a - int b, meta_shares = int c - int d\<rparr>),
    entry_json = (\<lambda>x. unary (length (encrypted_data x)) @ encrypted_data x @ encrypted_dek x),
    entry_parse = (\<lambda>bs. let (n, r) = read_unary bs in Some \<lparr>encrypted_data = take n r, encrypted_dek = drop n r\<rparr>),
    data_json = (\<lambda>d. case d ''key'' of None \<Rightarrow> [0] | Some s \<Rightarrow> 1 # map (\<lambda>c. of_nat (of_char c)) s),
    data_parse = (\<lambda>bs. case bs of [] \<Rightarrow> None | b # r \<Rightarrow> Some (if b = 1 then [''key'' \<mapsto> map (\<lambda>b. char_of (unat b)) r] else Map.empty)),
    generate_pki = (\<lambda>e. case e of [] \<Rightarrow> None | _ # e' \<Rightarrow> Some ((''private'', ''public''), e'))\<rparr>"

lemma plain_platform_ok: "platform_ok plain_platform Some"
  unfolding platform_ok_def
proof (intro conjI allI impI)
  fix m
  have "int (nat i) - int (nat (- i)) = i" for i by simp
  then have "meta_parse plain_platform (meta_json plain_platform m) = Some m"
    by (simp add: plain_platform_def)
  then show "\<exists>m'. Some (meta_json plain_platform m) = Some m' \<and> meta_parse plain_platform m' = Some m" by blast
qed (simp_all add: plain_platform_def)

definition fresh_vault :: "'s \<Rightarrow> entropy \<Rightarrow> 's vault" where
  "fresh_vault st e = \<lparr>vstore = st, barrier_key = None, unseal_shares = [], threshold = 0, rng = e\<rparr>"

definition empty_pg :: pg_store where
  "empty_pg = \<lparr>pg_barrier = None, pg_secrets = [], pg_up = True\<rparr>"

lemma fresh_vault_simps [simp]:
  "vstore (fresh_vault st e) = st" "barrier_key (fresh_vault st e) = None"
  "unseal_shares (fresh_vault st e) = []" "rng (fresh_vault st e) = e"
  by (simp_all add: fresh_vault_def)

definition ones :: "nat \<Rightarrow> bytes" where
  "ones n = replicate n 1"

lemma ones_simps [simp]: "length (ones n) = n" "read_full n (ones n @ e) = Some (ones n, e)"
  by (simp_all add: ones_def read_full_def)

lemma valid_ones [simp]: "valid_aes_key (ones 32)"
  by (simp add: valid_aes_key_def)

text \<open>The entropy of one put, and of an initialisation after its keys and shares are drawn.\<close>

definition put_entropy :: entropy where
  "put_entropy = ones 32 @ ones nonce_size @ ones nonce_size"

lemma random_ones: "random_bytes n (v\<lparr>rng := ones n @ e\<rparr>) = (Inr (ones n), v\<lparr>rng := e\<rparr>)"
  by (simp add: random_bytes_def)

lemma encrypt_ones:
  "valid_aes_key k \<Longrightarrow> encrypt P k p (v\<lparr>rng := ones nonce_size @ e\<rparr>)
    = (Inr (ones nonce_size @ gcm_seal P k (ones nonce_size) p), v\<lparr>rng := e\<rparr>)"
  by (simp add: encrypt_def op_simps random_ones)

lemma seal_entry_example:
  assumes "barrier_key v = Some key" "valid_aes_key key"
  shows "\<exists>entry. seal_entry P d (v\<lparr>rng := put_entropy @ e\<rparr>) = (Inr entry, v\<lparr>rng := e\<rparr>)"
  using assms by (simp add: seal_entry_def with_barrier_def put_entropy_def op_simps random_ones encrypt_ones)

lemma pg_put_example:
  assumes "barrier_key v = Some key" "valid_aes_key key" "pg_up (vstore v)"
  shows "\<exists>s. vault_put (postgres_ops Some sort) P p d (v\<lparr>rng := put_entropy @ e\<rparr>)
    = (Inr (), v\<lparr>vstore := s, rng := e\<rparr>) \<and> pg_up s"
proof -
  obtain entry where "seal_entry P d (v\<lparr>rng := put_entropy @ e\<rparr>) = (Inr entry, v\<lparr>rng := e\<rparr>)"
    using seal_entry_example [OF assms(1,2)] by blast
  with assms(3) show ?thesis
    by (cases v) (auto simp: vault_put_def op_simps store_op_def postgres_ops_def pg_put_secret_def pg_exec_def)
qed

lemma plain_pki: "pki_op plain_platform (v\<lparr>rng := x # e\<rparr>) = (Inr (''private'', ''public''), v\<lparr>rng := e\<rparr>)"
  by (simp add: pki_op_def plain_platform_def)

lemma pki_example:
  assumes "barrier_key v = Some key" "valid_aes_key key" "pg_up (vstore v)"
  shows "\<exists>s. store_pki_keys (postgres_ops Some sort) plain_platform (v\<lparr>rng := 1 # put_entropy @ put_entropy @ e\<rparr>)
    = (Inr (), v\<lparr>vstore := s, rng := e\<rparr>)"
proof -
  obtain s where 1: "vault_put (postgres_ops Some sort) plain_platform ''pki/signing/private''
      [''key'' \<mapsto> ''private'', ''algorithm'' \<mapsto> ''EC-P256''] (v\<lparr>rng := put_entropy @ put_entropy @ e\<rparr>)
    = (Inr (), v\<lparr>vstore := s, rng := put_entropy @ e\<rparr>)" "pg_up s"
    using pg_put_example [OF assms] by blast
  obtain s' where 2: "vault_put (postgres_ops Some sort) plain_platform public_path
      [''key'' \<mapsto> ''public'', ''algorithm'' \<mapsto> ''EC-P256''] (v\<lparr>vstore := s, rng := put_entropy @ e\<rparr>)
    = (Inr (), v\<lparr>vstore := s', rng := e\<rparr>)"
    using pg_put_example [of "v\<lparr>vstore := s\<rparr>" key plain_platform public_path _ e] assms 1(2) by auto
  show ?thesis by (auto simp: store_pki_keys_def op_simps plain_pki 1 2)
qed

text \<open>A 2-of-3 initialisation of a new Postgres vault that succeeds.\<close>

lemma init_example:
  "\<exists>e res v'. vault_init (postgres_ops Some sort) plain_platform 3 2 (fresh_vault empty_pg e) = (Inr res, v') \<and>
    length (result_shares res) = 3 \<and> distinct (result_shares res)"
proof -
  let ?S = "postgres_ops Some sort" and ?rest = "1 # put_entropy @ put_entropy @ []"
  obtain k shares where split: "shamir_split (ones 32) 3 2
      (replicate k 0 @ concat (replicate 32 [1]) @ ?rest) = (Inr (shares, ?rest))"
    using shamir_split_zeros [of 2 3 "ones 32" "replicate 32 [1]" ?rest] by (auto simp: ones_def)
  note shape = shamir_split_shape [OF split]
  define z where "z = replicate k 0 @ concat (replicate 32 [1 :: byte]) @ ?rest"
  define e where "e = ones 32 @ ones 32 @ ones nonce_size @ z"
  let ?v = "fresh_vault empty_pg []" and ?enc = "ones nonce_size @ ones 32"
  have v: "fresh_vault empty_pg e = ?v\<lparr>rng := e\<rparr>" by (simp add: fresh_vault_def)
  have 1: "generate_barrier_keys plain_platform (?v\<lparr>rng := e\<rparr>) = (Inr (ones 32, ones 32, ?enc), ?v\<lparr>rng := z\<rparr>)"
    by (simp add: generate_barrier_keys_def e_def op_simps random_ones encrypt_ones) (simp add: plain_platform_def)
  have 2: "split_mek_to_hex (ones 32) 3 2 (?v\<lparr>rng := z\<rparr>) = (Inr (map hex_encode shares), ?v\<lparr>rng := ?rest\<rparr>)"
    using split by (simp add: split_mek_to_hex_def split_mek_def z_def op_simps)
  obtain s where 3: "store_barrier_meta ?S plain_platform ?enc 3 2 (?v\<lparr>rng := ?rest\<rparr>)
      = (Inr (), ?v\<lparr>rng := ?rest, vstore := s\<rparr>)" "pg_up s"
    by (auto simp: store_barrier_meta_def store_op_def postgres_ops_def pg_put_barrier_def pg_exec_def empty_pg_def)
  let ?w = "?v\<lparr>vstore := s, barrier_key := Some (ones 32), threshold := 2\<rparr>"
  obtain s' where 4: "store_pki_keys ?S plain_platform (?w\<lparr>rng := ?rest\<rparr>) = (Inr (), ?w\<lparr>vstore := s', rng := []\<rparr>)"
    using pki_example [of ?w "ones 32" "[]"] 3(2) by auto
  have "\<not> initialized ?S (?v\<lparr>rng := e\<rparr>)"
    by (simp add: initialized_def check_initialized_def postgres_ops_def pg_get_barrier_def pg_query_def empty_pg_def)
  then have "vault_init ?S plain_platform 3 2 (?v\<lparr>rng := e\<rparr>)
      = (Inr \<lparr>result_shares = map hex_encode shares, result_threshold = 2\<rparr>, ?w\<lparr>vstore := s', rng := []\<rparr>)"
    using 1 2 3 4 by (simp add: vault_init_def init_wrapped_def op_simps set_barrier_def fresh_vault_def)
  moreover have "distinct (map hex_encode shares)"
    using shape(2) by (simp add: distinct_map inj_on_def inj_hex_encode)
  ultimately show ?thesis using shape(1) unfolding v [symmetric] by force
qed

text \<open>The first steps of an initialisation with the entropy of \<open>ones\<close>.\<close>

lemma keys_example:
  "generate_barrier_keys plain_platform (v\<lparr>rng := ones 32 @ ones 32 @ ones nonce_size @ e\<rparr>)
    = (Inr (ones 32, ones 32, ones nonce_size @ ones 32), v\<lparr>rng := e\<rparr>)"
  by (simp add: generate_barrier_keys_def op_simps random_ones encrypt_ones) (simp add: plain_platform_def)

lemma ready_example:
  "\<exists>e v'. ensure_ready (postgres_ops Some sort) plain_platform []
      (fresh_vault empty_pg e, \<lparr>file_content = None, file_writable = True\<rparr>)
    = (Inr (), (v', \<lparr>file_content = Some (hex_encode (ones 32)), file_writable = True\<rparr>))"
proof -
  let ?S = "postgres_ops Some sort" and ?rest = "1 # put_entropy @ put_entropy @ []"
  let ?v = "fresh_vault empty_pg []" and ?enc = "ones nonce_size @ ones 32"
  define e where "e = ones 32 @ ones 32 @ ones nonce_size @ ?rest"
  have v: "fresh_vault empty_pg e = ?v\<lparr>rng := e\<rparr>" by (simp add: fresh_vault_def)
  have 1: "generate_barrier_keys plain_platform (?v\<lparr>rng := e\<rparr>) = (Inr (ones 32, ones 32, ?enc), ?v\<lparr>rng := ?rest\<rparr>)"
    unfolding e_def by (rule keys_example)
  obtain s where 3: "store_barrier_meta ?S plain_platform ?enc 1 1 (?v\<lparr>rng := ?rest\<rparr>)
      = (Inr (), ?v\<lparr>rng := ?rest, vstore := s\<rparr>)" "pg_up s"
    by (auto simp: store_barrier_meta_def store_op_def postgres_ops_def pg_put_barrier_def pg_exec_def empty_pg_def)
  let ?w = "?v\<lparr>vstore := s, barrier_key := Some (ones 32), threshold := 1\<rparr>"
  obtain s' where 4: "store_pki_keys ?S plain_platform (?w\<lparr>rng := ?rest\<rparr>) = (Inr (), ?w\<lparr>vstore := s', rng := []\<rparr>)"
    using pki_example [of ?w "ones 32" "[]"] 3(2) by auto
  have n: "\<not> initialized ?S (?v\<lparr>rng := e\<rparr>)"
    by (simp add: initialized_def check_initialized_def postgres_ops_def pg_get_barrier_def pg_query_def empty_pg_def)
  then have "vault_init ?S plain_platform 1 1 (?v\<lparr>rng := e\<rparr>)
      = (Inr \<lparr>result_shares = [hex_encode (ones 32)], result_threshold = 1\<rparr>, ?w\<lparr>vstore := s', rng := []\<rparr>)"
    using 1 3 4 by (simp add: vault_init_def init_wrapped_def op_simps set_barrier_def split_mek_to_hex_def
        split_mek_def fresh_vault_def)
  with n show ?thesis unfolding v [symmetric] by (intro exI [of _ e]) (simp add: ensure_ready_def)
qed

section \<open>Theorems\<close>

text \<open>
  Claim C2. A vault on Postgres that was initialised with \<open>n\<close> shares and threshold \<open>t\<close>, then sealed, is unsealed by
  any \<open>t\<close> distinct shares of the result submitted in any order: the last one reports done, the
  barrier key is the one from before, and the store was not touched.
\<close>

theorem vault_init_seal_unseal:
  assumes "platform_ok P jsonb" "pg_up (vstore v)" "distinct (map fst (pg_secrets (vstore v)))"
    and "vault_init (postgres_ops jsonb collate) P n t v = (Inr res, v')"
    and "distinct sub" "set sub \<subseteq> set (result_shares res)" "int (length sub) = t"
  shows "\<exists>rs w. feed (postgres_ops jsonb collate) P sub (seal_vault v') = (rs, w) \<and>
    barrier_key w = barrier_key v' \<and> \<not> sealed w \<and> vstore w = vstore v' \<and>
    last rs = Inr \<lparr>up_done = True, up_progress = t, up_threshold = t\<rparr>"
  by (rule pg.init_seal_unseal [OF assms(1) _ assms(4-7)]) (simp add: pg_avail_def assms)

theorem vault_init_seal_unseal_witness:
  "\<exists>e res v' rs w. vault_init (postgres_ops Some sort) plain_platform 3 2 (fresh_vault empty_pg e) = (Inr res, v') \<and>
    feed (postgres_ops Some sort) plain_platform [result_shares res ! 2, result_shares res ! 0] (seal_vault v') = (rs, w) \<and>
    barrier_key w = barrier_key v' \<and> \<not> sealed w"
proof -
  obtain e res v' where i: "vault_init (postgres_ops Some sort) plain_platform 3 2 (fresh_vault empty_pg e) = (Inr res, v')"
    "length (result_shares res) = 3" "distinct (result_shares res)"
    using init_example by blast
  then have "result_shares res ! 2 \<noteq> result_shares res ! 0" by (simp add: nth_eq_iff_index_eq)
  with i vault_init_seal_unseal [OF plain_platform_ok _ _ i(1), of "[result_shares res ! 2, result_shares res ! 0]"]
  show ?thesis by (simp add: empty_pg_def) blast
qed

text \<open>
  Claim C7. What \<open>Put\<close> stored, \<open>Get\<close> returns, and every other path reads as it did before; the vault stays
  unsealed.
\<close>

theorem vault_put_get:
  assumes "platform_ok P jsonb" "data_ok P d" "pg_up (vstore v)" "distinct (map fst (pg_secrets (vstore v)))"
    and "vault_put (postgres_ops jsonb collate) P p d v = (Inr (), v')"
  shows "vault_get (postgres_ops jsonb collate) P p v' = (Inr d, v') \<and> barrier_key v' = barrier_key v \<and>
    (\<forall>q. q \<noteq> p \<longrightarrow> fst (vault_get (postgres_ops jsonb collate) P q v') = fst (vault_get (postgres_ops jsonb collate) P q v))"
proof -
  have "pg_avail (vstore v)" by (simp add: pg_avail_def assms)
  note put_get = pg.put_get_same [OF assms(1,2) this assms(5)]
  show ?thesis using put_get(1,3,6) by blast
qed

definition example_vault :: "pg_store vault" where
  "example_vault = fresh_vault empty_pg []\<lparr>barrier_key := Some (ones 32), rng := put_entropy @ put_entropy\<rparr>"

theorem vault_put_get_witness:
  "\<exists>v'. vault_put (postgres_ops Some sort) plain_platform ''a'' [''key'' \<mapsto> ''x''] example_vault = (Inr (), v') \<and>
    vault_get (postgres_ops Some sort) plain_platform ''a'' v' = (Inr [''key'' \<mapsto> ''x''], v')"
proof -
  have "\<exists>s. vault_put (postgres_ops Some sort) plain_platform ''a'' [''key'' \<mapsto> ''x'']
      ((fresh_vault empty_pg []\<lparr>barrier_key := Some (ones 32)\<rparr>)\<lparr>rng := put_entropy @ put_entropy\<rparr>)
    = (Inr (), fresh_vault empty_pg []\<lparr>barrier_key := Some (ones 32), vstore := s, rng := put_entropy\<rparr>) \<and> pg_up s"
    by (rule pg_put_example [of _ "ones 32"]) (simp_all add: empty_pg_def)
  then obtain v' where p: "vault_put (postgres_ops Some sort) plain_platform ''a'' [''key'' \<mapsto> ''x''] example_vault = (Inr (), v')"
    unfolding example_vault_def by blast
  have "data_ok plain_platform [''key'' \<mapsto> ''x'']" by (simp add: data_ok_def plain_platform_def char_of_def bit_0)
  from vault_put_get [OF plain_platform_ok this _ _ p] p show ?thesis
    by (auto simp: example_vault_def empty_pg_def)
qed

text \<open>
  Claim C11. A sealed vault refuses every secret operation and the rekeying with \<open>ErrSealed\<close>, on any store, and
  changes nothing.
\<close>

theorem vault_sealed_refuses:
  assumes "sealed v"
  shows "vault_put S P p d v = (Inl Err_Sealed, v) \<and> vault_put_if_absent S P p d v = (Inl Err_Sealed, v) \<and>
    vault_get S P p v = (Inl Err_Sealed, v) \<and> vault_delete S p v = (Inl Err_Sealed, v) \<and>
    vault_delete_prefix S p v = (Inl Err_Sealed, v) \<and> vault_list S p v = (Inl Err_Sealed, v) \<and>
    get_public_key S P v = (Inl Err_Sealed, v) \<and> rekey S P n t v = (Inl Err_Sealed, v)"
  using assms by (simp add: sealed_def vault_put_def vault_put_if_absent_def vault_get_def vault_delete_def
      vault_delete_prefix_def vault_list_def get_public_key_def rekey_def seal_entry_def with_barrier_def bind_op_def)

theorem vault_sealed_refuses_witness:
  "vault_put memory_ops plain_platform ''a'' Map.empty (seal_vault (fresh_vault new_memory_store [1]))
    = (Inl Err_Sealed, seal_vault (fresh_vault new_memory_store [1]))"
  using vault_sealed_refuses [of "seal_vault (fresh_vault new_memory_store [1])" memory_ops plain_platform "''a''" Map.empty]
  by (simp add: seal_vault_def sealed_def)

text \<open>
  If wrapping the shares fails, or returns another number of them, an initialisation fails having
  drawn random bytes and nothing else: the vault stays uninitialised.
\<close>

theorem init_wrap_failure:
  assumes "\<And>ys zs. wrap ys = Some zs \<Longrightarrow> length zs \<noteq> length ys"
  shows "\<exists>e g. init_wrapped S P n t wrap v = (Inl e, v\<lparr>rng := g\<rparr>)"
proof (cases "initialized S v \<or> n < 1 \<or> t < 1 \<or> t > n")
  case True
  have "v = v\<lparr>rng := rng v\<rparr>" by simp
  with True show ?thesis unfolding init_wrapped_def by metis
next
  case False
  let ?f = "\<lambda>key mek enc. bind_op (split_mek_to_hex mek n t) (\<lambda>hex_shares.
    bind_op (lift_option Wrap_Failed (wrap hex_shares)) (\<lambda>wrapped.
    then_op (guard_op (length wrapped = length hex_shares) (Wrap_Count (length wrapped) (length hex_shares)))
    (then_op (store_barrier_meta S P enc n t) (then_op (set_barrier key t) (then_op (store_pki_keys S P)
    (ret \<lparr>result_shares = wrapped, result_threshold = t\<rparr>))))))"
  have f: "\<exists>e g. ?f key mek enc w = (Inl e, w\<lparr>rng := g\<rparr>)" for key mek enc w
  proof -
    obtain r w1 where r: "split_mek_to_hex mek n t w = (r, w1)" by force
    from drawsD [OF draws_split_hex r] obtain g where w1: "w1 = w\<lparr>rng := g\<rparr>" by blast
    show ?thesis
    proof (cases r)
      case (Inr hs)
      with r w1 assms [of hs] show ?thesis
        by (cases "wrap hs") (auto simp: bind_op_def then_op_def lift_option_def guard_op_def ret_def raise_err_def)
    qed (use r w1 in \<open>auto simp: bind_op_def\<close>)
  qed
  obtain r v1 where r: "generate_barrier_keys P v = (r, v1)" by force
  from drawsD [OF draws_keys r] obtain g where v1: "v1 = v\<lparr>rng := g\<rparr>" by blast
  from False have init: "init_wrapped S P n t wrap v
      = bind_op (generate_barrier_keys P) (\<lambda>(key, mek, enc). ?f key mek enc) v"
    by (simp add: init_wrapped_def)
  show ?thesis
  proof (cases r)
    case (Inr x)
    obtain key mek enc where x: "x = (key, mek, enc)" by (cases x)
    from f [of mek enc key v1] obtain e g' where
      "?f key mek enc v1 = (Inl e, v\<lparr>rng := g'\<rparr>)" unfolding v1 by auto
    with init r Inr x show ?thesis by (simp add: bind_op_def) blast
  qed (use init r v1 in \<open>auto simp: bind_op_def\<close>)
qed

theorem init_wrap_failure_witness:
  "\<exists>e g. init_wrapped memory_ops plain_platform 1 1 (\<lambda>_. None) (fresh_vault new_memory_store (ones 76))
    = (Inl e, (fresh_vault new_memory_store (ones 76))\<lparr>rng := g\<rparr>)"
  using init_wrap_failure [of "\<lambda>_. None"] by simp

text \<open>
  Claim C9. A successful rekeying keeps the barrier key, and any threshold of the new shares unseals the vault
  to that same key.
\<close>

theorem vault_rekey_unseal:
  assumes "platform_ok P jsonb" "pg_up (vstore v)" "distinct (map fst (pg_secrets (vstore v)))"
    and "rekey (postgres_ops jsonb collate) P n t v = (Inr res, v')" "1 \<le> t" "barrier_key v \<noteq> Some []"
    and "distinct sub" "set sub \<subseteq> set (result_shares res)" "int (length sub) = t"
  shows "\<exists>rs w. feed (postgres_ops jsonb collate) P sub (seal_vault v') = (rs, w) \<and>
    barrier_key w = barrier_key v \<and> barrier_key v' = barrier_key v \<and> vstore w = vstore v' \<and>
    last rs = Inr \<lparr>up_done = True, up_progress = t, up_threshold = t\<rparr>"
  by (rule pg.rekey_unseal [OF assms(1) _ assms(4-9)]) (simp add: pg_avail_def assms)

lemma rekey_example:
  "rekey (postgres_ops Some sort) plain_platform 1 1
     (fresh_vault empty_pg (ones 32 @ ones nonce_size)\<lparr>barrier_key := Some (ones 32)\<rparr>)
   = (Inr \<lparr>result_shares = [hex_encode (ones 32)], result_threshold = 1\<rparr>,
      fresh_vault (empty_pg\<lparr>pg_barrier := Some (ones nonce_size @ ones 32, meta_json plain_platform
        \<lparr>encrypted_barrier = ones nonce_size @ ones 32, meta_threshold = 1, meta_shares = 1\<rparr>)\<rparr>) []
        \<lparr>barrier_key := Some (ones 32)\<rparr>)"
proof -
  let ?v = "fresh_vault empty_pg []\<lparr>barrier_key := Some (ones 32)\<rparr>"
  have v: "fresh_vault empty_pg e\<lparr>barrier_key := Some (ones 32)\<rparr> = ?v\<lparr>rng := e\<rparr>" for e
    by (simp add: fresh_vault_def)
  have "random_bytes 32 (?v\<lparr>rng := ones 32 @ ones nonce_size @ []\<rparr>) = (Inr (ones 32), ?v\<lparr>rng := ones nonce_size @ []\<rparr>)"
    by (rule random_ones)
  moreover have "encrypt plain_platform (ones 32) (ones 32) (?v\<lparr>rng := ones nonce_size @ []\<rparr>)
      = (Inr (ones nonce_size @ ones 32), ?v\<lparr>rng := []\<rparr>)"
    by (subst encrypt_ones) (simp_all add: plain_platform_def)
  ultimately show ?thesis
    unfolding v [of "ones 32 @ ones nonce_size"]
    by (simp add: rekey_def with_barrier_def op_simps store_barrier_meta_def store_op_def postgres_ops_def
        pg_put_barrier_def pg_exec_def split_mek_to_hex_def split_mek_def)
      (simp add: fresh_vault_def empty_pg_def op_simps store_op_def pg_exec_def split_mek_def)
qed

theorem vault_rekey_unseal_witness:
  "\<exists>v v' w rs. rekey (postgres_ops Some sort) plain_platform 1 1 v
      = (Inr \<lparr>result_shares = [hex_encode (ones 32)], result_threshold = 1\<rparr>, v') \<and>
    feed (postgres_ops Some sort) plain_platform [hex_encode (ones 32)] (seal_vault v') = (rs, w) \<and>
    barrier_key w = Some (ones 32)"
proof -
  note r = vault_rekey_unseal [OF plain_platform_ok _ _ rekey_example, of "[hex_encode (ones 32)]"]
  have "ones 32 \<noteq> []" by (simp add: ones_def)
  with r show ?thesis using rekey_example by (simp add: empty_pg_def) blast
qed

text \<open>
  Claim C10. \<open>Rekey\<close> writes the barrier before it validates the shares: asked for a threshold of 1 of several
  shares it reports an error, but the stored barrier is by then encrypted under a master key that is
  returned to nobody.
\<close>

theorem rekey_invalid_threshold:
  assumes "barrier_key v = Some key" "rng v = mek @ nonce @ e" "length mek = 32" "length nonce = nonce_size" "1 < n" "n \<le> 255"
  shows "rekey memory_ops P n 1 v = (Inl (Split_Failed Threshold_Below_2),
    v\<lparr>rng := e, vstore := (vstore v)\<lparr>mem_barrier := Some (nonce @ gcm_seal P mek nonce key), mem_meta := Some (meta_json P
      \<lparr>encrypted_barrier = nonce @ gcm_seal P mek nonce key, meta_threshold = 1, meta_shares = n\<rparr>)\<rparr>\<rparr>)"
proof -
  let ?enc = "nonce @ gcm_seal P mek nonce key"
  have "random_bytes 32 v = (Inr mek, v\<lparr>rng := nonce @ e\<rparr>)"
    using assms by (simp add: random_bytes_def read_full_def)
  moreover have "encrypt P mek key (v\<lparr>rng := nonce @ e\<rparr>) = (Inr ?enc, v\<lparr>rng := e\<rparr>)"
    using assms by (simp add: encrypt_def op_simps random_bytes_def read_full_def valid_aes_key_def)
  moreover have "split_mek mek n 1 w = (Inl (Split_Failed Threshold_Below_2), w)" for w :: "memory_store vault"
    using assms(5,6) by (simp add: split_mek_def shamir_split_def)
  ultimately show ?thesis
    using assms(1,5) by (simp add: rekey_def with_barrier_def op_simps store_barrier_meta_def store_op_def
        memory_ops_def mem_put_barrier_def split_mek_to_hex_def)
qed

theorem rekey_invalid_threshold_witness:
  "\<exists>v'. rekey memory_ops plain_platform 3 1
      (fresh_vault new_memory_store (ones 32 @ ones nonce_size)\<lparr>barrier_key := Some (ones 32)\<rparr>)
      = (Inl (Split_Failed Threshold_Below_2), v') \<and>
    mem_barrier (vstore v') = Some (ones nonce_size @ ones 32)"
  using rekey_invalid_threshold [of "fresh_vault new_memory_store (ones 32 @ ones nonce_size)\<lparr>barrier_key := Some (ones 32)\<rparr>"
      "ones 32" "ones 32" "ones nonce_size" "[]" 3 plain_platform]
  by (simp add: plain_platform_def)

text \<open>
  The self-hosted start is repeatable: after a first start on an empty store without an operator key, a
  new process over the same store and key file unseals with the same barrier key and writes nothing.
\<close>

theorem vault_restart:
  assumes "platform_ok P jsonb" "pg_up (vstore v)" "distinct (map fst (pg_secrets (vstore v)))"
    and "pg_barrier (vstore v) = None"
    and "ensure_ready (postgres_ops jsonb collate) P [] (v, f) = (Inr (), (v', f'))"
  shows "\<exists>w. ensure_ready (postgres_ops jsonb collate) P []
      (new_vault (postgres_ops jsonb collate) P (vstore v') e [], f') = (Inr (), (w, f')) \<and>
    barrier_key w = barrier_key v' \<and> \<not> sealed w \<and> vstore w = vstore v'"
proof -
  have a: "pg_avail (vstore v)" by (simp add: pg_avail_def assms)
  moreover have "\<not> initialized (postgres_ops jsonb collate) v"
    using pg.initialized_view [OF a] assms(4) by (simp add: pg_view_def)
  ultimately show ?thesis by (rule pg.ensure_ready_restart [OF assms(1) _ _ assms(5)])
qed

theorem vault_restart_witness:
  "\<exists>(v :: pg_store vault) w f. ensure_ready (postgres_ops Some sort) plain_platform []
      (new_vault (postgres_ops Some sort) plain_platform (vstore v) [] [], f) = (Inr (), (w, f)) \<and>
    barrier_key w = barrier_key v \<and> \<not> sealed w"
proof -
  obtain e v' f where r: "ensure_ready (postgres_ops Some sort) plain_platform []
      (fresh_vault empty_pg e, \<lparr>file_content = None, file_writable = True\<rparr>) = (Inr (), (v', f))"
    using ready_example by blast
  have "\<exists>w. ensure_ready (postgres_ops Some sort) plain_platform []
      (new_vault (postgres_ops Some sort) plain_platform (vstore v') [] [], f) = (Inr (), (w, f)) \<and>
    barrier_key w = barrier_key v' \<and> \<not> sealed w \<and> vstore w = vstore v'"
    by (rule vault_restart [OF plain_platform_ok _ _ _ r]) (simp_all add: empty_pg_def)
  then show ?thesis by blast
qed

lemma no_pki_failure:
  "generate_barrier_keys P v \<noteq> (Inl Pki_Failed, v')"
  "split_mek_to_hex mek n t v \<noteq> (Inl Pki_Failed, v')"
  "vault_put S P p d v \<noteq> (Inl Pki_Failed, v')"
  by (auto simp: generate_barrier_keys_def encrypt_def random_bytes_def split_mek_to_hex_def split_mek_def
      vault_put_def seal_entry_def with_barrier_def store_op_def
      bind_op_def then_op_def guard_op_def ret_def raise_err_def split: prod.splits sum.splits option.splits if_splits)

lemma store_pki_failure:
  "store_pki_keys S P v = (Inl Pki_Failed, v') \<longleftrightarrow> generate_pki P (rng v) = None \<and> v' = v"
  by (auto simp: store_pki_keys_def pki_op_def bind_op_Inl_iff then_op_def no_pki_failure split: option.splits prod.splits)

lemma init_pki_failure_lemma:
  assumes "init_wrapped memory_ops P n t wrap v = (Inl Pki_Failed, v')" "\<not> initialized memory_ops v"
  shows "initialized memory_ops v' \<and> \<not> sealed v'"
proof -
  from assms obtain key enc and w w3 w4 :: "memory_store vault" where
    b: "store_barrier_meta memory_ops P enc n t w = (Inr (), w3)" "set_barrier key t w3 = (Inr (), w4)"
    "store_pki_keys memory_ops P w4 = (Inl Pki_Failed, v')"
    by (fastforce simp: init_wrapped_def bind_op_Inl_iff then_op_def op_Inl_iff op_Inr_iff no_pki_failure
        store_barrier_meta_def store_op_def memory_ops_def mem_put_barrier_def set_barrier_def split: if_splits)
  then have "v' = w3\<lparr>barrier_key := Some key, threshold := t\<rparr>" "mem_barrier (vstore w3) = Some enc"
    by (auto simp: store_pki_failure set_barrier_def store_barrier_meta_def store_op_def memory_ops_def mem_put_barrier_def)
  then show ?thesis
    by (simp add: initialized_def check_initialized_def memory_ops_def mem_get_barrier_def sealed_def)
qed

text \<open>
  If storing the signing keys fails, \<open>Init\<close> reports the error and drops the shares, although the
  barrier is already stored: the vault is initialised, its shares are lost and no later \<open>Init\<close> is accepted.
\<close>

theorem init_pki_failure:
  assumes "init_wrapped memory_ops P n t wrap v = (Inl Pki_Failed, v')" "\<not> initialized memory_ops v"
  shows "initialized memory_ops v' \<and> \<not> sealed v' \<and>
    init_wrapped memory_ops P n' t' wrap' v' = (Inl Err_Already_Init, v')"
  using init_pki_failure_lemma [OF assms] by (simp add: init_wrapped_def)

theorem init_pki_failure_witness:
  "\<exists>v'. init_wrapped memory_ops plain_platform 1 1 Some
      (fresh_vault new_memory_store (ones 32 @ ones 32 @ ones nonce_size)) = (Inl Pki_Failed, v') \<and>
    initialized memory_ops v' \<and> init_wrapped memory_ops plain_platform 1 1 Some v' = (Inl Err_Already_Init, v')"
proof -
  let ?v = "fresh_vault new_memory_store []"
  have v: "fresh_vault new_memory_store (ones 32 @ ones 32 @ ones nonce_size)
      = ?v\<lparr>rng := ones 32 @ ones 32 @ ones nonce_size @ []\<rparr>" by (simp add: fresh_vault_def)
  have n: "\<not> initialized memory_ops (?v\<lparr>rng := e\<rparr>)" for e
    by (simp add: initialized_def check_initialized_def memory_ops_def mem_get_barrier_def new_memory_store_def)
  have pki: "store_pki_keys memory_ops plain_platform w = (Inl Pki_Failed, w)" if "rng w = []" for w
    using that by (simp add: store_pki_failure) (simp add: plain_platform_def)
  have "\<exists>v'. init_wrapped memory_ops plain_platform 1 1 Some
      (?v\<lparr>rng := ones 32 @ ones 32 @ ones nonce_size @ []\<rparr>) = (Inl Pki_Failed, v')"
    using n by (simp add: init_wrapped_def op_simps keys_example [where e = "[]", simplified] split_mek_to_hex_def split_mek_def
        store_barrier_meta_def store_op_def memory_ops_def [THEN arg_cong [of _ _ put_barrier]] mem_put_barrier_def
        set_barrier_def pki)
  then obtain v' where i: "init_wrapped memory_ops plain_platform 1 1 Some
      (?v\<lparr>rng := ones 32 @ ones 32 @ ones nonce_size @ []\<rparr>) = (Inl Pki_Failed, v')" ..
  from init_pki_failure [OF i n, of 1 1 Some] i show ?thesis unfolding v by blast
qed

end
