(* ===== verification/Vault_Safety.thy ===== *)
theory Vault_Safety
  imports Vault_Correct
begin

text \<open>
  The vault as a state machine: the steps a process can take on one vault handle over the Postgres
  store with calls that do not overlap, and what every state reached from a new handle satisfies.
\<close>

section \<open>Steps\<close>

inductive vault_step :: "'s vault_store \<Rightarrow> platform \<Rightarrow> 's vault \<Rightarrow> 's vault \<Rightarrow> bool" for S P where
  step_init: "vault_step S P v (snd (init_wrapped S P n t wrap v))"
| step_unseal: "vault_step S P v (snd (unseal S P h v))"
| step_seal: "vault_step S P v (seal_vault v)"
| step_reset: "vault_step S P v (reset_unseal v)"
| step_rekey: "vault_step S P v (snd (rekey S P n t v))"
| step_put: "vault_step S P v (snd (vault_put S P p d v))"
| step_put_if_absent: "vault_step S P v (snd (vault_put_if_absent S P p d v))"
| step_get: "vault_step S P v (snd (vault_get S P p v))"
| step_delete: "vault_step S P v (snd (vault_delete S p v))"
| step_delete_prefix: "vault_step S P v (snd (vault_delete_prefix S p v))"
| step_list: "vault_step S P v (snd (vault_list S p v))"

inductive_cases vault_step_cases: "vault_step S P v v'"

inductive vault_reaches :: "'s vault_store \<Rightarrow> platform \<Rightarrow> 's vault \<Rightarrow> 's vault \<Rightarrow> bool" for S P v0 where
  reaches_start: "vault_reaches S P v0 v0"
| reaches_step: "vault_reaches S P v0 v \<Longrightarrow> vault_step S P v v' \<Longrightarrow> vault_reaches S P v0 v'"

text \<open>
  An unsealed vault holds no half-gathered shares, and a vault whose store has no barrier holds
  neither a barrier key nor shares.
\<close>

definition vault_inv :: "pg_store vault \<Rightarrow> bool" where
  "vault_inv v \<longleftrightarrow> pg_avail (vstore v) \<and> (\<not> sealed v \<longrightarrow> unseal_shares v = []) \<and>
    (pg_barrier (vstore v) = None \<longrightarrow> sealed v \<and> unseal_shares v = [])"

section \<open>Every step keeps the invariant\<close>

named_theorems inv_intros \<open>operations that keep the invariant\<close>

lemma preserves_draws:
  assumes "draws m" "\<And>v g. Q (v\<lparr>rng := g\<rparr>) \<longleftrightarrow> Q v"
  shows "preserves Q m"
  unfolding preserves_def
proof (intro allI impI)
  fix v assume "Q v"
  obtain r v' where m: "m v = (r, v')" by force
  from drawsD [OF assms(1) this] obtain g where "v' = v\<lparr>rng := g\<rparr>" by blast
  with \<open>Q v\<close> assms(2) m show "Q (snd (m v))" by simp
qed

lemma vault_inv_rng [simp]: "vault_inv (v\<lparr>rng := g\<rparr>) \<longleftrightarrow> vault_inv v"
  by (simp add: vault_inv_def sealed_def)

lemmas inv_draws = preserves_draws [of _ vault_inv, OF _ vault_inv_rng]

lemma preserves_store_op:
  assumes "\<And>s. pg_avail s \<Longrightarrow> pg_avail (snd (f s)) \<and> (pg_barrier (snd (f s)) = None \<longrightarrow> pg_barrier s = None)"
  shows "preserves vault_inv (store_op f)"
  unfolding preserves_def
proof (intro allI impI)
  fix v assume "vault_inv v"
  with assms [of "vstore v"] show "vault_inv (snd (store_op f v))"
    by (cases "f (vstore v)"; cases "fst (f (vstore v))") (auto simp: store_op_def vault_inv_def sealed_def)
qed

lemma inv_store_ops [inv_intros]:
  "preserves vault_inv (store_op (put_secret (postgres_ops jsonb collate) p x))"
  "preserves vault_inv (store_op (put_secret_if_absent (postgres_ops jsonb collate) p x))"
  "preserves vault_inv (store_op (delete_secret (postgres_ops jsonb collate) p))"
  "preserves vault_inv (store_op (delete_prefix (postgres_ops jsonb collate) p))"
  "preserves vault_inv (store_barrier_meta (postgres_ops jsonb collate) P enc n t)"
  unfolding store_barrier_meta_def
  by (rule preserves_store_op; force simp: postgres_ops_def pg_defs pg_delete_prefix_def distinct_update
      distinct_delete distinct_filter_keys split: option.splits)+

lemma inv_with_barrier [inv_intros]:
  "(\<And>k. preserves vault_inv (f k)) \<Longrightarrow> preserves vault_inv (with_barrier f)"
  by (auto simp: preserves_def with_barrier_def split: option.splits)

lemma inv_store_read [inv_intros]: "preserves vault_inv (store_read f)"
  by (auto simp: preserves_def store_read_def lift_result_def ret_def raise_err_def split: sum.splits)

lemma inv_drawing [inv_intros]:
  "preserves vault_inv (seal_entry P d)" "preserves vault_inv (random_bytes n)"
  "preserves vault_inv (encrypt P k p)" "preserves vault_inv (split_mek_to_hex mek m t)"
  by (rule inv_draws, rule draws_intros)+

lemma inv_secrets [inv_intros]:
  "preserves vault_inv (vault_put (postgres_ops jsonb collate) P p d)"
  "preserves vault_inv (vault_put_if_absent (postgres_ops jsonb collate) P p d)"
  "preserves vault_inv (vault_delete (postgres_ops jsonb collate) p)"
  "preserves vault_inv (vault_delete_prefix (postgres_ops jsonb collate) p)"
  "preserves vault_inv (vault_list (postgres_ops jsonb collate) p)"
  "preserves vault_inv (rekey (postgres_ops jsonb collate) P n t)"
  unfolding vault_put_def vault_put_if_absent_def vault_delete_def vault_delete_prefix_def vault_list_def rekey_def
  by (intro inv_intros preserves_intros)+

lemma inv_get [inv_intros]: "preserves vault_inv (vault_get (postgres_ops jsonb collate) P p)"
  unfolding vault_get_def
  by (intro inv_intros preserves_bind) (auto intro: preserves_intros split: option.splits)

text \<open>
  Initialisation runs only where there is no barrier, hence with no shares gathered; from there its
  steps keep \<open>init_inv\<close>, where the barrier is stored before the key is held.
\<close>

definition init_inv :: "pg_store vault \<Rightarrow> bool" where
  "init_inv v \<longleftrightarrow> pg_avail (vstore v) \<and> unseal_shares v = [] \<and> (pg_barrier (vstore v) = None \<longrightarrow> sealed v)"

lemma init_inv_rng [simp]: "init_inv (v\<lparr>rng := g\<rparr>) \<longleftrightarrow> init_inv v"
  by (simp add: init_inv_def sealed_def)

lemmas init_draws = preserves_draws [of _ init_inv, OF _ init_inv_rng]

lemma init_inv_put: "preserves init_inv (vault_put (postgres_ops jsonb collate) P p d)"
  unfolding vault_put_def
proof (rule preserves_bind [OF init_draws [OF draws_seal_entry]])
  fix x show "preserves init_inv (store_op (put_secret (postgres_ops jsonb collate) p x))"
    by (auto simp: preserves_def store_op_def postgres_ops_def pg_defs init_inv_def sealed_def distinct_update)
qed

lemma init_inv_pki: "preserves init_inv (store_pki_keys (postgres_ops jsonb collate) P)"
  unfolding store_pki_keys_def
  by (rule preserves_bind [OF init_draws [OF draws_pki]]) (auto intro!: preserves_then init_inv_put split: prod.splits)

lemma init_inv_barrier:
  assumes "preserves init_inv k"
  shows "preserves init_inv (then_op (store_barrier_meta (postgres_ops jsonb collate) P enc n t)
    (then_op (set_barrier key t) k))"
  using assms
  by (auto simp: preserves_def then_op_def bind_op_def store_barrier_meta_def store_op_def postgres_ops_def pg_defs
      set_barrier_def init_inv_def sealed_def split: option.splits)

lemma inv_init: "preserves vault_inv (init_wrapped (postgres_ops jsonb collate) P n t wrap)"
  unfolding preserves_def
proof (intro allI impI)
  fix v assume v: "vault_inv v"
  let ?S = "postgres_ops jsonb collate"
  show "vault_inv (snd (init_wrapped ?S P n t wrap v))"
  proof (cases "initialized ?S v \<or> n < 1 \<or> t < 1 \<or> t > n")
    case True
    with v show ?thesis unfolding init_wrapped_def by auto
  next
    case False
    have "pg_avail (vstore v)" using v by (simp add: vault_inv_def)
    with False have "pg_barrier (vstore v) = None" using pg.initialized_view [of v jsonb collate]
      by (cases "pg_barrier (vstore v)") (auto simp: pg_view_def)
    with v have "init_inv v" by (simp add: init_inv_def vault_inv_def)
    moreover have "preserves init_inv (bind_op (generate_barrier_keys P) (\<lambda>(key, mek, enc).
       bind_op (split_mek_to_hex mek n t) (\<lambda>hex_shares.
       bind_op (lift_option Wrap_Failed (wrap hex_shares)) (\<lambda>wrapped.
       then_op (guard_op (length wrapped = length hex_shares) (Wrap_Count (length wrapped) (length hex_shares)))
       (then_op (store_barrier_meta ?S P enc n t)
       (then_op (set_barrier key t)
       (then_op (store_pki_keys ?S P)
       (ret \<lparr>result_shares = wrapped, result_threshold = t\<rparr>))))))))"
      by (rule preserves_bind [OF init_draws [OF draws_keys]])
        (auto intro!: preserves_bind [OF init_draws [OF draws_split_hex]] preserves_bind [OF preserves_simple(4)]
          preserves_then [OF preserves_simple(3)] init_inv_barrier preserves_then [OF init_inv_pki] preserves_simple(1)
          split: prod.splits)
    ultimately have "init_inv (snd (init_wrapped ?S P n t wrap v))"
      using False unfolding preserves_def init_wrapped_def by auto
    then show ?thesis by (auto simp: init_inv_def vault_inv_def)
  qed
qed

text \<open>An unseal never writes the store; it gathers a share or, with the last one, takes the key and drops them.\<close>

lemma apply_unseal_frame:
  "\<exists>k. snd (apply_unseal_shares S P meta v) = v\<lparr>barrier_key := k, unseal_shares := []\<rparr>"
proof -
  have "v\<lparr>unseal_shares := []\<rparr> = v\<lparr>barrier_key := barrier_key v, unseal_shares := []\<rparr>" by simp
  then show ?thesis
    by (auto simp: apply_unseal_shares_def intro: exI [of _ "barrier_key v"] split: sum.splits prod.splits)
qed

lemma then_ret: "snd (then_op m (ret x) v) = snd (m v)"
  by (auto simp: then_op_def bind_op_def ret_def split: prod.splits sum.splits)

lemma inv_unseal: "preserves vault_inv (unseal (postgres_ops jsonb collate) P h)"
  unfolding preserves_def
proof (intro allI impI)
  fix v assume v: "vault_inv v"
  let ?S = "postgres_ops jsonb collate"
  have i: "initialized ?S v \<Longrightarrow> pg_barrier (vstore v) \<noteq> None"
    using v pg.initialized_view [of v jsonb collate] by (auto simp: vault_inv_def pg_view_def)
  show "vault_inv (snd (unseal ?S P h v))"
  proof (cases "initialized ?S v \<and> sealed v")
    case False
    with v show ?thesis by (auto simp: unseal_def)
  next
    case True
    have "vault_inv (snd (then_op (apply_unseal_shares ?S P meta) (ret x) (v\<lparr>threshold := t, unseal_shares := us\<rparr>)))"
      for meta x t us
      using v i True apply_unseal_frame [of ?S P meta "v\<lparr>threshold := t, unseal_shares := us\<rparr>"]
      unfolding then_ret by (auto simp: vault_inv_def)
    moreover have "vault_inv (v\<lparr>threshold := t, unseal_shares := us\<rparr>)" for t us
      using v i True by (auto simp: vault_inv_def sealed_def)
    ultimately show ?thesis
      using v True by (auto simp: unseal_def Let_def split: option.splits sum.splits)
  qed
qed

lemma vault_step_inv:
  assumes "vault_step (postgres_ops jsonb collate) P v v'" "vault_inv v"
  shows "vault_inv v'"
  using assms
proof (cases rule: vault_step.cases)
  case step_seal
  with assms show ?thesis by (simp add: vault_inv_def seal_vault_def sealed_def)
next
  case step_reset
  with assms show ?thesis by (simp add: vault_inv_def reset_unseal_def sealed_def)
qed (use assms(2) inv_init inv_unseal inv_secrets inv_get in \<open>auto simp: preserves_def\<close>)

section \<open>Safety\<close>

text \<open>
  Whatever a process does with a vault handle on a Postgres store, once it is unsealed it holds no
  gathered shares, and while the store has no barrier it is sealed and holds none either.
\<close>

theorem vault_reachable_inv:
  assumes "vault_reaches (postgres_ops jsonb collate) P (fresh_vault st e) v" "pg_avail st"
  shows "(\<not> sealed v \<longrightarrow> unseal_shares v = []) \<and> (pg_barrier (vstore v) = None \<longrightarrow> sealed v \<and> unseal_shares v = [])"
proof -
  from assms have "vault_inv v"
  proof (induction rule: vault_reaches.induct)
    case reaches_start
    then show ?case by (simp add: vault_inv_def sealed_def)
  qed (blast intro: vault_step_inv)
  then show ?thesis by (simp add: vault_inv_def)
qed

theorem vault_reachable_inv_witness:
  "unseal_shares (seal_vault (fresh_vault empty_pg [])) = []"
proof -
  have "vault_reaches (postgres_ops Some sort) plain_platform (fresh_vault empty_pg []) (seal_vault (fresh_vault empty_pg []))"
    by (intro reaches_step [OF reaches_start] step_seal)
  from vault_reachable_inv [OF this] show ?thesis by (simp add: pg_avail_def empty_pg_def seal_vault_def)
qed

text \<open>
  Unsealing writes nothing to the store, and a vault that is sealed before and unsealed after holds the
  decryption of the stored barrier under the key the gathered shares reconstruct.
\<close>

theorem unseal_opens_barrier:
  assumes "unseal S P h v = (r, v')"
  shows "vstore v' = vstore v \<and> (sealed v \<longrightarrow> \<not> sealed v' \<longrightarrow>
    (\<exists>b meta enc m mek key. hex_decode h = Some b \<and> get_meta S P v = Inr meta \<and>
      meta_threshold meta \<le> int (length (unseal_shares v) + 1) \<and>
      reconstruct_mek (unseal_shares v @ [b]) meta = Inr mek \<and> get_barrier S (vstore v) = Inr (Some enc, m) \<and>
      decrypt P mek enc = Inr key \<and> barrier_key v' = Some key))"
proof -
  have d: "decrypt P mek [] \<noteq> Inr key" for mek key
    by (simp add: decrypt_def nonce_size_def)
  have "vstore v' = vstore v"
    using assms apply_unseal_frame [of S P]
    by (auto simp: unseal_def Let_def then_op_def bind_op_def ret_def apply_unseal_shares_def
        split: if_splits option.splits sum.splits prod.splits)
  moreover have "\<exists>b meta enc m mek key. hex_decode h = Some b \<and> get_meta S P v = Inr meta \<and>
      meta_threshold meta \<le> int (length (unseal_shares v) + 1) \<and>
      reconstruct_mek (unseal_shares v @ [b]) meta = Inr mek \<and> get_barrier S (vstore v) = Inr (Some enc, m) \<and>
      decrypt P mek enc = Inr key \<and> barrier_key v' = Some key" if "sealed v" "\<not> sealed v'"
    using assms that d
    by (auto simp: unseal_def Let_def then_op_def bind_op_def ret_def apply_unseal_shares_def sealed_def barrier_of_def
        not_less split: if_splits option.splits sum.splits prod.splits)
  ultimately show ?thesis by blast
qed

theorem unseal_opens_barrier_witness:
  "vstore (snd (unseal memory_ops plain_platform ''00'' (fresh_vault new_memory_store []))) = new_memory_store"
  using unseal_opens_barrier [of memory_ops plain_platform "''00''" "fresh_vault new_memory_store []"]
  by (metis fresh_vault_simps(1) prod.collapse)

text \<open>
  \<open>Initialized\<close> reads a store that fails to answer as one that is not initialised, so an \<open>Init\<close> whose
  read fails replaces the barrier of an initialised vault when the write then succeeds.
\<close>

theorem init_after_failed_read:
  "\<exists>e res v'. vault_init (memory_ops\<lparr>get_barrier := \<lambda>s. Inl (Store_Failure [])\<rparr>) plain_platform 1 1
      (fresh_vault (new_memory_store\<lparr>mem_barrier := Some old, mem_meta := Some m\<rparr>) e) = (Inr res, v') \<and>
    mem_barrier (vstore v') = Some (ones nonce_size @ ones 32)"
proof -
  let ?S = "memory_ops\<lparr>get_barrier := \<lambda>s. Inl (Store_Failure [])\<rparr>" and ?rest = "1 # put_entropy @ put_entropy @ []"
  let ?v = "fresh_vault (new_memory_store\<lparr>mem_barrier := Some old, mem_meta := Some m\<rparr>) []"
  have put: "\<exists>s. vault_put ?S P p d (w\<lparr>rng := put_entropy @ e\<rparr>) = (Inr (), w\<lparr>vstore := s, rng := e\<rparr>) \<and>
      mem_barrier s = mem_barrier (vstore w)" if k: "barrier_key w = Some (ones 32)" for w P p d e
  proof -
    obtain entry where "seal_entry P d (w\<lparr>rng := put_entropy @ e\<rparr>) = (Inr entry, w\<lparr>rng := e\<rparr>)"
      using seal_entry_example [OF k valid_ones, where P = P and d = d and e = e] by blast
    then show ?thesis
      by (cases w) (auto simp: vault_put_def op_simps store_op_def memory_ops_def mem_put_secret_def)
  qed
  define w where "w = ?v\<lparr>barrier_key := Some (ones 32), threshold := 1, vstore := snd (mem_put_barrier
    (ones nonce_size @ ones 32) (meta_json plain_platform \<lparr>encrypted_barrier = ones nonce_size @ ones 32,
      meta_threshold = 1, meta_shares = 1\<rparr>) (vstore ?v))\<rparr>"
  have w: "barrier_key w = Some (ones 32)" "mem_barrier (vstore w) = Some (ones nonce_size @ ones 32)"
    by (simp_all add: w_def mem_put_barrier_def)
  obtain s1 where 1: "vault_put ?S plain_platform ''pki/signing/private''
      [''key'' \<mapsto> ''private'', ''algorithm'' \<mapsto> ''EC-P256''] (w\<lparr>rng := put_entropy @ put_entropy\<rparr>)
    = (Inr (), w\<lparr>vstore := s1, rng := put_entropy\<rparr>)" "mem_barrier s1 = mem_barrier (vstore w)"
    using put [OF w(1)] by blast
  obtain s2 where 2: "vault_put ?S plain_platform public_path
      [''key'' \<mapsto> ''public'', ''algorithm'' \<mapsto> ''EC-P256''] (w\<lparr>vstore := s1, rng := put_entropy @ []\<rparr>)
    = (Inr (), w\<lparr>vstore := s2, rng := []\<rparr>)" "mem_barrier s2 = mem_barrier (vstore w)"
    using put [of "w\<lparr>vstore := s1\<rparr>" plain_platform public_path _ "[]"] w(1) 1(2) by auto
  have 3: "store_pki_keys ?S plain_platform (w\<lparr>rng := ?rest\<rparr>) = (Inr (), w\<lparr>vstore := s2, rng := []\<rparr>)"
    using 1 2 by (simp add: store_pki_keys_def op_simps plain_pki)
  have 4: "generate_barrier_keys plain_platform (?v\<lparr>rng := ones 32 @ ones 32 @ ones nonce_size @ ?rest\<rparr>)
      = (Inr (ones 32, ones 32, ones nonce_size @ ones 32), ?v\<lparr>rng := ?rest\<rparr>)" by (rule keys_example)
  have "vault_init ?S plain_platform 1 1 (?v\<lparr>rng := ones 32 @ ones 32 @ ones nonce_size @ ?rest\<rparr>)
      = (Inr \<lparr>result_shares = [hex_encode (ones 32)], result_threshold = 1\<rparr>, w\<lparr>vstore := s2, rng := []\<rparr>)"
    using 3 4 unfolding w_def
    by (simp add: vault_init_def init_wrapped_def initialized_def check_initialized_def op_simps
        set_barrier_def split_mek_to_hex_def split_mek_def store_barrier_meta_def store_op_def
        memory_ops_def mem_put_barrier_def fresh_vault_def)
  moreover have "?v\<lparr>rng := e\<rparr> = fresh_vault (new_memory_store\<lparr>mem_barrier := Some old, mem_meta := Some m\<rparr>) e" for e
    by (simp add: fresh_vault_def)
  moreover have "mem_barrier (vstore (w\<lparr>vstore := s2, rng := []\<rparr>)) = Some (ones nonce_size @ ones 32)"
    using 2(2) w(2) by simp
  ultimately show ?thesis by metis
qed

end
