(* ===== verification/Programs.thy ===== *)
theory Programs
  imports Prelude
begin

text \<open>
  Methods that run at the same time over shared state. A method is a tree of the calls it makes: \<open>Act a k\<close>
  makes the call \<open>a\<close> and goes on with \<open>k\<close> of its answer. The same tree runs alone or interleaved, call by call,
  with any number of others, and what each thread did can be read off the run: its own events determine
  where in its tree it stands. The locale \<open>protocol\<close> turns a rule each thread obeys on its own (a call is only
  made after such and such answers) and an invariant of single calls into an invariant of every run.
\<close>

section \<open>Methods as trees of calls\<close>

datatype ('a, 'x, 'r) prog = Return 'r | Act 'a "'x \<Rightarrow> ('a, 'x, 'r) prog"

primrec bind_prog :: "('a, 'x, 'r) prog \<Rightarrow> ('r \<Rightarrow> ('a, 'x, 'q) prog) \<Rightarrow> ('a, 'x, 'q) prog" where
  "bind_prog (Return r) f = f r"
| "bind_prog (Act a k) f = Act a (\<lambda>x. bind_prog (k x) f)"

text \<open>Go's \<^verbatim>\<open>if err != nil { return err }\<close> after a call.\<close>

definition try_prog :: "('a, 'x, ('e, 'r) result) prog \<Rightarrow> ('r \<Rightarrow> ('a, 'x, ('e, 'q) result) prog) \<Rightarrow> ('a, 'x, ('e, 'q) result) prog" where
  "try_prog m f = bind_prog m (\<lambda>r. case r of Inl e \<Rightarrow> Return (Inl e) | Inr y \<Rightarrow> f y)"

definition ask :: "'a \<Rightarrow> ('x \<Rightarrow> 'r) \<Rightarrow> ('a, 'x, 'r) prog" where
  "ask a d = Act a (\<lambda>x. Return (d x))"

text \<open>Where a method stands after the calls \<open>es\<close> with their answers.\<close>

fun follow :: "('a, 'x, 'r) prog \<Rightarrow> ('a \<times> 'x) list \<Rightarrow> ('a, 'x, 'r) prog option" where
  "follow p [] = Some p"
| "follow (Act a k) ((b, x) # es) = (if b = a then follow (k x) es else None)"
| "follow (Return r) (e # es) = None"

lemma follow_append: "follow p (es @ fs) = (case follow p es of None \<Rightarrow> None | Some q \<Rightarrow> follow q fs)"
  by (induction p es rule: follow.induct) auto

lemma follow_Return: "follow (Return r) es = Some q \<longleftrightarrow> es = [] \<and> q = Return r"
  by (cases es) auto

lemma follow_Act_Return:
  "follow (Act a k) es = Some (Return r) \<longleftrightarrow> (\<exists>x fs. es = (a, x) # fs \<and> follow (k x) fs = Some (Return r))"
  by (cases es) (auto split: if_splits)

lemma follow_ask: "follow (ask a d) es = Some (Return r) \<longleftrightarrow> (\<exists>x. es = [(a, x)] \<and> r = d x)"
  by (auto simp: ask_def follow_Act_Return follow_Return)

lemma follow_bind:
  "follow (bind_prog p f) es = Some (Return r) \<longleftrightarrow>
    (\<exists>fs gs q. es = fs @ gs \<and> follow p fs = Some (Return q) \<and> follow (f q) gs = Some (Return r))"
proof (induction p arbitrary: es)
  case (Return q)
  then show ?case by (auto simp: follow_Return)
next
  case (Act a k)
  show ?case
  proof
    assume "follow (bind_prog (Act a k) f) es = Some (Return r)"
    then obtain x es' where es: "es = (a, x) # es'" and "follow (bind_prog (k x) f) es' = Some (Return r)"
      by (auto simp: follow_Act_Return)
    then obtain fs gs q where "es' = fs @ gs" "follow (k x) fs = Some (Return q)" "follow (f q) gs = Some (Return r)"
      using Act.IH [of "k x" es'] by auto
    with es show "\<exists>fs gs q. es = fs @ gs \<and> follow (Act a k) fs = Some (Return q) \<and> follow (f q) gs = Some (Return r)"
      by (intro exI [of _ "(a, x) # fs"] exI [of _ gs] exI [of _ q]) simp
  next
    assume "\<exists>fs gs q. es = fs @ gs \<and> follow (Act a k) fs = Some (Return q) \<and> follow (f q) gs = Some (Return r)"
    then show "follow (bind_prog (Act a k) f) es = Some (Return r)"
      using Act.IH by (fastforce simp: follow_Act_Return)
  qed
qed

lemma follow_try:
  "follow (try_prog m f) es = Some (Return (Inr r)) \<longleftrightarrow>
    (\<exists>fs gs y. es = fs @ gs \<and> follow m fs = Some (Return (Inr y)) \<and> follow (f y) gs = Some (Return (Inr r)))"
  unfolding try_prog_def follow_bind by (fastforce simp: follow_Return split: sum.splits)

lemmas follow_iff = follow_Return follow_ask follow_bind follow_try

section \<open>Interleaved runs\<close>

text \<open>
  \<open>perf w a x w'\<close> says the call \<open>a\<close> may answer \<open>x\<close> in the world \<open>w\<close> and leave \<open>w'\<close>. An event is a call of one
  thread with its answer. A method that has not begun is one that has made no call yet, so a list
  of methods stands for calls that arrive at any time.
\<close>

type_synonym ('a, 'x) event = "nat \<times> 'a \<times> 'x"

inductive runs :: "('w \<Rightarrow> 'a \<Rightarrow> 'x \<Rightarrow> 'w \<Rightarrow> bool) \<Rightarrow> ('a, 'x, 'r) prog list \<times> 'w \<Rightarrow> ('a, 'x) event list \<Rightarrow>
    ('a, 'x, 'r) prog list \<times> 'w \<Rightarrow> bool"
  for perf c where
  runs_none: "runs perf c [] c"
| runs_step: "runs perf c es (P, w) \<Longrightarrow> i < length P \<Longrightarrow> P ! i = Act a k \<Longrightarrow> perf w a x w' \<Longrightarrow>
    runs perf c (es @ [(i, a, x)]) (P[i := k x], w')"

definition own :: "nat \<Rightarrow> ('a, 'x) event list \<Rightarrow> ('a \<times> 'x) list" where
  "own i es = map snd (filter (\<lambda>e. fst e = i) es)"

lemma own_simps [simp]:
  "own i [] = []" "own i (es @ fs) = own i es @ own i fs"
  "own i ((j, e) # es) = (if j = i then e # own i es else own i es)"
  by (simp_all add: own_def)

lemma own_mem: "(i, e) \<in> set es \<longleftrightarrow> e \<in> set (own i es)"
  by (force simp: own_def)

lemma runs_follow:
  assumes "runs perf (P, w) es (Q, v)"
  shows "length Q = length P \<and> (\<forall>i < length P. follow (P ! i) (own i es) = Some (Q ! i))"
  using assms
proof (induction es "(Q, v)" arbitrary: Q v rule: runs.induct)
  case runs_none
  then show ?case by simp
next
  case (runs_step es Q u i a k x v)
  then show ?case by (auto simp: follow_append nth_list_update)
qed

text \<open>An executable scheduler: each turn names a thread and how its next call goes.\<close>

fun run_with :: "('c \<Rightarrow> 'a \<Rightarrow> 'w \<Rightarrow> ('x \<times> 'w) option) \<Rightarrow> (nat \<times> 'c) list \<Rightarrow> ('a, 'x, 'r) prog list \<times> 'w \<Rightarrow>
    (('a, 'x) event list \<times> ('a, 'x, 'r) prog list \<times> 'w) option" where
  "run_with perf [] (P, w) = Some ([], P, w)"
| "run_with perf ((i, c) # ts) (P, w) = (if i < length P then case P ! i of
     Return r \<Rightarrow> None
   | Act a k \<Rightarrow> (case perf c a w of None \<Rightarrow> None
     | Some (x, w') \<Rightarrow> (case run_with perf ts (P[i := k x], w') of None \<Rightarrow> None
       | Some (es, Q, v) \<Rightarrow> Some ((i, a, x) # es, Q, v))) else None)"

definition may_perform :: "('c \<Rightarrow> 'a \<Rightarrow> 'w \<Rightarrow> ('x \<times> 'w) option) \<Rightarrow> 'w \<Rightarrow> 'a \<Rightarrow> 'x \<Rightarrow> 'w \<Rightarrow> bool" where
  "may_perform perf w a x w' \<longleftrightarrow> (\<exists>c. perf c a w = Some (x, w'))"

lemma run_with_runs:
  assumes "runs (may_perform perf) c es (P, w)" "run_with perf ts (P, w) = Some (fs, Q, v)"
  shows "runs (may_perform perf) c (es @ fs) (Q, v)"
  using assms
proof (induction perf ts "(P, w)" arbitrary: es P w fs rule: run_with.induct)
  case (1 perf P w)
  then show ?case by simp
next
  case (2 perf i c' ts P w)
  then obtain a k x w' gs where s: "i < length P" "P ! i = Act a k" "perf c' a w = Some (x, w')"
    "run_with perf ts (P[i := k x], w') = Some (gs, Q, v)" "fs = (i, a, x) # gs"
    by (auto split: if_splits prog.splits option.splits)
  from runs_step [OF 2(2) s(1,2), of x w'] s(3)
  have "runs (may_perform perf) c (es @ [(i, a, x)]) (P[i := k x], w')" by (auto simp: may_perform_def)
  from 2(1) [OF s(1,2,3) refl this s(4)] s(5) show ?case by simp
qed

section \<open>Rules of a method\<close>

text \<open>\<open>C h a\<close>: with the calls and answers \<open>h\<close> behind it a method may make the call \<open>a\<close>.\<close>

primrec obeys :: "(('a \<times> 'x) list \<Rightarrow> 'a \<Rightarrow> bool) \<Rightarrow> ('a, 'x, 'r) prog \<Rightarrow> ('a \<times> 'x) list \<Rightarrow> bool" where
  "obeys C (Return r) = (\<lambda>h. True)"
| "obeys C (Act a k) = (\<lambda>h. C h a \<and> (\<forall>x. obeys C (k x) (h @ [(a, x)])))"

lemma obeys_follow: "obeys C p h \<Longrightarrow> follow p es = Some (Act a k) \<Longrightarrow> C (h @ es) a"
proof (induction p es arbitrary: h rule: follow.induct)
  case (1 p)
  then show ?case by simp
next
  case (2 b g c x es)
  then have "obeys C (g x) (h @ [(b, x)])" "follow (g x) es = Some (Act a k)" "c = b" by (auto split: if_splits)
  with 2(1) [OF this(3), of "h @ [(b, x)]"] show ?case by simp
qed simp

lemma obeys_bind:
  "obeys C p h \<Longrightarrow> (\<And>es r. follow p es = Some (Return r) \<Longrightarrow> obeys C (f r) (h @ es)) \<Longrightarrow> obeys C (bind_prog p f) h"
proof (induction p arbitrary: h)
  case (Return r)
  from Return.prems(2) [of "[]" r] show ?case by simp
next
  case (Act a k)
  have "obeys C (bind_prog (k x) f) (h @ [(a, x)])" for x
  proof (rule Act.IH)
    show "k x \<in> range k" by simp
    show "obeys C (k x) (h @ [(a, x)])" using Act.prems(1) by simp
    fix es r assume "follow (k x) es = Some (Return r)"
    with Act.prems(2) [of "(a, x) # es" r] show "obeys C (f r) ((h @ [(a, x)]) @ es)" by simp
  qed
  with Act.prems(1) show ?case by simp
qed

lemma obeys_try:
  assumes "obeys C m h" "\<And>es y. follow m es = Some (Return (Inr y)) \<Longrightarrow> obeys C (f y) (h @ es)"
  shows "obeys C (try_prog m f) h"
  unfolding try_prog_def by (rule obeys_bind [OF assms(1)]) (auto intro: assms(2) split: sum.splits)

lemma obeys_mono: "obeys C p h \<Longrightarrow> (\<And>h a. C h a \<Longrightarrow> D h a) \<Longrightarrow> obeys D p h"
  by (induction p arbitrary: h) auto

lemma obeys_ask: "obeys C (ask a d) h \<longleftrightarrow> C h a"
  by (simp add: ask_def)

text \<open>A call that every history allows, and a method all of whose calls are such.\<close>

primrec harmless :: "('a \<Rightarrow> bool) \<Rightarrow> ('a, 'x, 'r) prog \<Rightarrow> bool" where
  "harmless ok (Return r) \<longleftrightarrow> True"
| "harmless ok (Act a k) \<longleftrightarrow> ok a \<and> (\<forall>x. harmless ok (k x))"

lemma harmless_obeys: "harmless ok p \<Longrightarrow> (\<And>h a. ok a \<Longrightarrow> C h a) \<Longrightarrow> obeys C p h"
  by (induction p arbitrary: h) auto

lemma harmless_bind: "harmless ok p \<Longrightarrow> (\<And>r. harmless ok (f r)) \<Longrightarrow> harmless ok (bind_prog p f)"
  by (induction p) auto

lemma harmless_try: "harmless ok p \<Longrightarrow> (\<And>r. harmless ok (f r)) \<Longrightarrow> harmless ok (try_prog p f)"
  unfolding try_prog_def by (rule harmless_bind) (auto split: sum.splits)

lemma harmless_ask: "harmless ok (ask a d) \<longleftrightarrow> ok a"
  by (simp add: ask_def)

section \<open>Invariants of every run\<close>

locale protocol =
  fixes perf :: "'w \<Rightarrow> 'a \<Rightarrow> 'x \<Rightarrow> 'w \<Rightarrow> bool" and rule :: "nat \<Rightarrow> ('a \<times> 'x) list \<Rightarrow> 'a \<Rightarrow> bool"
    and inv :: "('a, 'x) event list \<Rightarrow> 'w \<Rightarrow> bool"
  assumes step: "inv es w \<Longrightarrow> rule i (own i es) a \<Longrightarrow> perf w a x w' \<Longrightarrow> inv (es @ [(i, a, x)]) w'"
begin

lemma runs_inv:
  assumes "runs perf (P, w) es (Q, v)" "inv [] w" "\<And>i. i < length P \<Longrightarrow> obeys (rule i) (P ! i) []"
  shows "inv es v"
  using assms(1)
proof (induction es "(Q, v)" arbitrary: Q v rule: runs.induct)
  case runs_none
  with assms(2) show ?case by simp
next
  case (runs_step es Q u i a k x v)
  from runs_follow [OF runs_step(1)] runs_step(3,4) have i: "i < length P" and f: "follow (P ! i) (own i es) = Some (Act a k)"
    by auto
  from obeys_follow [OF assms(3) [OF i] f] have "rule i (own i es) a" by simp
  from step [OF runs_step(2) this runs_step(5)] show ?case .
qed

end

end
