(* ===== verification/Vault_Concurrent.thy ===== *)
theory Vault_Concurrent
  imports Vault_Correct Programs
begin

text \<open>
  The vault's methods (\<^verbatim>\<open>pkg/vault/vault.go\<close>) at the grain at which they interleave. The code holds its mutex for
  short sections only: the copy of the barrier key, the assignment at the end of an initialisation, the
  gathering of a share with what follows from it, sealing and resetting; every call of the store and every draw
  of random bytes happens outside of them. Here each such section, store call and draw is one call of a method's
  tree. Any store call may fail, and a write that fails may have been done all the same.
\<close>

section \<open>Calls\<close>

datatype vault_call =
    Read_Barrier | Write_Barrier bytes bytes
  | Is_Sealed | Copy_Key | Hold_Key bytes int | Gather bytes barrier_meta | Lock_Seal | Lock_Reset | Count_Shares
  | Draw_Bytes nat | Draw_Shares bytes int int | Draw_Pki
  | Write_Secret string bytes | Write_Absent string bytes | Read_Secret string | Remove_Secret string
  | Remove_Prefix string | List_Paths string

datatype vault_answer =
    Failed_With vault_error | Done | Flag bool | Key_Copy "bytes option" | Barrier "bytes option \<times> bytes option"
  | Progress unseal_progress | Bytes bytes | Share_Bytes "bytes list" | Pem_Pair "string \<times> string"
  | Entry "bytes option" | Count nat | Paths "string list"

definition answer :: "('a \<Rightarrow> vault_answer) \<Rightarrow> (vault_error, 'a) result \<times> 'w \<Rightarrow> vault_answer \<times> 'w" where
  "answer f r = (case fst r of Inl e \<Rightarrow> Failed_With e | Inr x \<Rightarrow> f x, snd r)"

text \<open>The locked section of \<open>Unseal\<close>.\<close>

definition gather_share :: "'s vault_store \<Rightarrow> platform \<Rightarrow> bytes \<Rightarrow> barrier_meta \<Rightarrow> ('s, unseal_progress) vop" where
  "gather_share S P share_bytes meta v =
    (let v1 = v\<lparr>threshold := meta_threshold meta, unseal_shares := unseal_shares v @ [share_bytes]\<rparr>;
       n = int (length (unseal_shares v1))
     in if n < meta_threshold meta
        then (Inr \<lparr>up_done = False, up_progress = n, up_threshold = meta_threshold meta\<rparr>, v1)
        else then_op (apply_unseal_shares S P meta)
          (ret \<lparr>up_done = True, up_progress = meta_threshold meta, up_threshold = meta_threshold meta\<rparr>) v1)"

fun vault_goes :: "'s vault_store \<Rightarrow> platform \<Rightarrow> vault_call \<Rightarrow> 's vault \<Rightarrow> vault_answer \<times> 's vault" where
  "vault_goes S P Read_Barrier v = answer Barrier (store_read (get_barrier S) v)"
| "vault_goes S P (Write_Barrier b m) v = answer (\<lambda>_. Done) (store_op (put_barrier S b m) v)"
| "vault_goes S P Is_Sealed v = (Flag (sealed v), v)"
| "vault_goes S P Copy_Key v = (Key_Copy (barrier_key v), v)"
| "vault_goes S P (Hold_Key k t) v = answer (\<lambda>_. Done) (set_barrier k t v)"
| "vault_goes S P (Gather b meta) v = answer Progress (gather_share S P b meta v)"
| "vault_goes S P Lock_Seal v = (Done, seal_vault v)"
| "vault_goes S P Lock_Reset v = (Done, reset_unseal v)"
| "vault_goes S P Count_Shares v = (Count (length (unseal_shares v)), v)"
| "vault_goes S P (Draw_Bytes n) v = answer Bytes (random_bytes n v)"
| "vault_goes S P (Draw_Shares mek n t) v = answer Share_Bytes (split_mek mek n t v)"
| "vault_goes S P Draw_Pki v = answer Pem_Pair (pki_op P v)"
| "vault_goes S P (Write_Secret p d) v = answer (\<lambda>_. Done) (store_op (put_secret S p d) v)"
| "vault_goes S P (Write_Absent p d) v = answer Flag (store_op (put_secret_if_absent S p d) v)"
| "vault_goes S P (Read_Secret p) v = answer Entry (store_read (get_secret S p) v)"
| "vault_goes S P (Remove_Secret p) v = answer (\<lambda>_. Done) (store_op (delete_secret S p) v)"
| "vault_goes S P (Remove_Prefix p) v = answer Count (store_op (delete_prefix S p) v)"
| "vault_goes S P (List_Paths p) v = answer Paths (store_read (list_secrets S p) v)"

text \<open>How a call turns out; the one store call inside a locked section is the reading of the barrier in \<open>Gather\<close>.\<close>

datatype vault_turn = Goes | Fails store_error | Loses store_error

fun store_call :: "vault_call \<Rightarrow> bool" where
  "store_call Read_Barrier = True" | "store_call (Write_Barrier b m) = True" | "store_call (Write_Secret p d) = True"
| "store_call (Write_Absent p d) = True" | "store_call (Read_Secret p) = True" | "store_call (Remove_Secret p) = True"
| "store_call (Remove_Prefix p) = True" | "store_call (List_Paths p) = True" | "store_call _ = False"

fun vault_do :: "'s vault_store \<Rightarrow> platform \<Rightarrow> vault_turn \<Rightarrow> vault_call \<Rightarrow> 's vault \<Rightarrow> (vault_answer \<times> 's vault) option" where
  "vault_do S P Goes a v = Some (vault_goes S P a v)"
| "vault_do S P (Fails e) a v = (if store_call a then Some (Failed_With (Store_Error e), v) else case a of
     Gather b meta \<Rightarrow> Some (vault_goes (S\<lparr>get_barrier := \<lambda>s. Inl e\<rparr>) P a v) | _ \<Rightarrow> None)"
| "vault_do S P (Loses e) a v = (if store_call a then Some (Failed_With (Store_Error e), snd (vault_goes S P a v)) else None)"

section \<open>Methods\<close>

type_synonym 'r vault_prog = "(vault_call, vault_answer, (vault_error, 'r) result) prog"

text \<open>What a method makes of an answer. An answer of another kind does not occur.\<close>

definition odd_answer :: "vault_answer \<Rightarrow> vault_error" where
  "odd_answer x = (case x of Failed_With e \<Rightarrow> e | _ \<Rightarrow> Data_Malformed)"

definition as_done :: "vault_answer \<Rightarrow> (vault_error, unit) result" where
  "as_done x = (case x of Done \<Rightarrow> Inr () | _ \<Rightarrow> Inl (odd_answer x))"
definition as_flag :: "vault_answer \<Rightarrow> (vault_error, bool) result" where
  "as_flag x = (case x of Flag b \<Rightarrow> Inr b | _ \<Rightarrow> Inl (odd_answer x))"
definition as_key :: "vault_answer \<Rightarrow> (vault_error, bytes) result" where
  "as_key x = (case x of Key_Copy None \<Rightarrow> Inl Err_Sealed | Key_Copy (Some k) \<Rightarrow> Inr k | _ \<Rightarrow> Inl (odd_answer x))"
definition as_barrier :: "vault_answer \<Rightarrow> (vault_error, bytes option \<times> bytes option) result" where
  "as_barrier x = (case x of Barrier b \<Rightarrow> Inr b | _ \<Rightarrow> Inl (odd_answer x))"
definition as_progress :: "vault_answer \<Rightarrow> (vault_error, unseal_progress) result" where
  "as_progress x = (case x of Progress p \<Rightarrow> Inr p | _ \<Rightarrow> Inl (odd_answer x))"
definition as_bytes :: "vault_answer \<Rightarrow> (vault_error, bytes) result" where
  "as_bytes x = (case x of Bytes b \<Rightarrow> Inr b | _ \<Rightarrow> Inl (odd_answer x))"
definition as_shares :: "vault_answer \<Rightarrow> (vault_error, bytes list) result" where
  "as_shares x = (case x of Share_Bytes b \<Rightarrow> Inr b | _ \<Rightarrow> Inl (odd_answer x))"
definition as_pems :: "vault_answer \<Rightarrow> (vault_error, string \<times> string) result" where
  "as_pems x = (case x of Pem_Pair b \<Rightarrow> Inr b | _ \<Rightarrow> Inl (odd_answer x))"
definition as_entry :: "vault_answer \<Rightarrow> (vault_error, bytes option) result" where
  "as_entry x = (case x of Entry b \<Rightarrow> Inr b | _ \<Rightarrow> Inl (odd_answer x))"
definition as_count :: "vault_answer \<Rightarrow> (vault_error, nat) result" where
  "as_count x = (case x of Count b \<Rightarrow> Inr b | _ \<Rightarrow> Inl (odd_answer x))"
definition as_paths :: "vault_answer \<Rightarrow> (vault_error, string list) result" where
  "as_paths x = (case x of Paths b \<Rightarrow> Inr b | _ \<Rightarrow> Inl (odd_answer x))"

lemmas as_defs = as_done_def as_flag_def as_key_def as_barrier_def as_progress_def as_bytes_def as_shares_def as_pems_def
  as_entry_def as_count_def as_paths_def odd_answer_def

text \<open>\<open>Initialized\<close>: a read that fails counts as no.\<close>

definition initialized_calls :: "(vault_call, vault_answer, bool) prog" where
  "initialized_calls = ask Read_Barrier (\<lambda>x. case as_barrier x of Inl _ \<Rightarrow> False | Inr (b, _) \<Rightarrow> b \<noteq> None)"

definition get_meta_calls :: "platform \<Rightarrow> barrier_meta vault_prog" where
  "get_meta_calls P = try_prog (ask Read_Barrier as_barrier) (\<lambda>(_, m). Return (case m of
     None \<Rightarrow> Inl Meta_Missing
   | Some m \<Rightarrow> (case meta_parse P m of None \<Rightarrow> Inl Meta_Malformed | Some meta \<Rightarrow> Inr meta)))"

definition unseal_calls :: "platform \<Rightarrow> string \<Rightarrow> unseal_progress vault_prog" where
  "unseal_calls P share_hex = bind_prog initialized_calls (\<lambda>init.
     if \<not> init then Return (Inl Err_Not_Initialized)
     else try_prog (ask Is_Sealed as_flag) (\<lambda>sealed.
       if \<not> sealed then Return (Inr \<lparr>up_done = True, up_progress = 0, up_threshold = 0\<rparr>)
       else case hex_decode share_hex of None \<Rightarrow> Return (Inl Invalid_Hex)
         | Some share_bytes \<Rightarrow> try_prog (get_meta_calls P) (\<lambda>meta. ask (Gather share_bytes meta) as_progress)))"

definition encrypt_calls :: "platform \<Rightarrow> bytes \<Rightarrow> bytes \<Rightarrow> bytes vault_prog" where
  "encrypt_calls P key plaintext = (if \<not> valid_aes_key key then Return (Inl Bad_Key_Size)
     else try_prog (ask (Draw_Bytes nonce_size) as_bytes) (\<lambda>nonce. Return (Inr (nonce @ gcm_seal P key nonce plaintext))))"

definition seal_entry_calls :: "platform \<Rightarrow> secret_data \<Rightarrow> bytes vault_prog" where
  "seal_entry_calls P data = try_prog (ask Copy_Key as_key) (\<lambda>key.
     try_prog (ask (Draw_Bytes 32) as_bytes) (\<lambda>dek.
     try_prog (encrypt_calls P dek (data_json P data)) (\<lambda>enc_data.
     try_prog (encrypt_calls P key dek) (\<lambda>enc_dek.
     Return (Inr (entry_json P \<lparr>encrypted_data = enc_data, encrypted_dek = enc_dek\<rparr>))))))"

definition put_calls :: "platform \<Rightarrow> string \<Rightarrow> secret_data \<Rightarrow> unit vault_prog" where
  "put_calls P path data = try_prog (seal_entry_calls P data) (\<lambda>entry. ask (Write_Secret path entry) as_done)"

definition put_if_absent_calls :: "platform \<Rightarrow> string \<Rightarrow> secret_data \<Rightarrow> bool vault_prog" where
  "put_if_absent_calls P path data = try_prog (seal_entry_calls P data) (\<lambda>entry. ask (Write_Absent path entry) as_flag)"

definition get_calls :: "platform \<Rightarrow> string \<Rightarrow> secret_data vault_prog" where
  "get_calls P path = try_prog (ask Copy_Key as_key) (\<lambda>key. try_prog (ask (Read_Secret path) as_entry) (\<lambda>entry_bytes.
     Return (case entry_bytes of None \<Rightarrow> Inl Err_Not_Found | Some b \<Rightarrow> open_entry P key b)))"

definition delete_calls :: "string \<Rightarrow> unit vault_prog" where
  "delete_calls path = try_prog (ask Copy_Key as_key) (\<lambda>_. ask (Remove_Secret path) as_done)"

definition delete_prefix_calls :: "string \<Rightarrow> nat vault_prog" where
  "delete_prefix_calls pre = try_prog (ask Copy_Key as_key) (\<lambda>_.
     if pre = [] then Return (Inl Empty_Prefix_Denied) else ask (Remove_Prefix pre) as_count)"

definition list_calls :: "string \<Rightarrow> string list vault_prog" where
  "list_calls pre = try_prog (ask Copy_Key as_key) (\<lambda>_. ask (List_Paths pre) as_paths)"

definition write_meta_calls :: "platform \<Rightarrow> bytes \<Rightarrow> int \<Rightarrow> int \<Rightarrow> unit vault_prog" where
  "write_meta_calls P enc shares thr = ask (Write_Barrier enc
     (meta_json P \<lparr>encrypted_barrier = enc, meta_threshold = thr, meta_shares = shares\<rparr>)) as_done"

definition pki_calls :: "platform \<Rightarrow> unit vault_prog" where
  "pki_calls P = try_prog (ask Draw_Pki as_pems) (\<lambda>(priv, pub).
     try_prog (put_calls P ''pki/signing/private'' [''key'' \<mapsto> priv, ''algorithm'' \<mapsto> ''EC-P256'']) (\<lambda>_.
       put_calls P public_path [''key'' \<mapsto> pub, ''algorithm'' \<mapsto> ''EC-P256'']))"

text \<open>\<open>InitWrapped\<close>, the part after its checks first.\<close>

definition init_rest_calls :: "platform \<Rightarrow> int \<Rightarrow> int \<Rightarrow> (string list \<Rightarrow> string list option) \<Rightarrow> init_result vault_prog" where
  "init_rest_calls P shares thr wrap =
     try_prog (ask (Draw_Bytes 32) as_bytes) (\<lambda>key. try_prog (ask (Draw_Bytes 32) as_bytes) (\<lambda>mek.
     try_prog (encrypt_calls P mek key) (\<lambda>enc.
     try_prog (ask (Draw_Shares mek shares thr) as_shares) (\<lambda>share_bytes. let hex_shares = map hex_encode share_bytes in
     case wrap hex_shares of None \<Rightarrow> Return (Inl Wrap_Failed)
     | Some wrapped \<Rightarrow>
         if length wrapped \<noteq> length hex_shares then Return (Inl (Wrap_Count (length wrapped) (length hex_shares)))
         else try_prog (write_meta_calls P enc shares thr) (\<lambda>_. try_prog (ask (Hold_Key key thr) as_done) (\<lambda>_.
           try_prog (pki_calls P) (\<lambda>_. Return (Inr \<lparr>result_shares = wrapped, result_threshold = thr\<rparr>))))))))"

definition init_calls :: "platform \<Rightarrow> int \<Rightarrow> int \<Rightarrow> (string list \<Rightarrow> string list option) \<Rightarrow> init_result vault_prog" where
  "init_calls P shares thr wrap = bind_prog initialized_calls (\<lambda>init.
     if init then Return (Inl Err_Already_Init)
     else if shares < 1 \<or> thr < 1 \<or> thr > shares then Return (Inl (Invalid_Shares shares thr))
     else init_rest_calls P shares thr wrap)"

definition rekey_calls :: "platform \<Rightarrow> int \<Rightarrow> int \<Rightarrow> init_result vault_prog" where
  "rekey_calls P shares thr = try_prog (ask Copy_Key as_key) (\<lambda>current.
     try_prog (ask (Draw_Bytes 32) as_bytes) (\<lambda>mek. try_prog (encrypt_calls P mek current) (\<lambda>enc.
     try_prog (write_meta_calls P enc shares thr) (\<lambda>_. try_prog (ask (Draw_Shares mek shares thr) as_shares) (\<lambda>share_bytes.
     Return (Inr \<lparr>result_shares = map hex_encode share_bytes, result_threshold = thr\<rparr>))))))"

definition seal_calls :: "unit vault_prog" where "seal_calls = ask Lock_Seal as_done"
definition reset_calls :: "unit vault_prog" where "reset_calls = ask Lock_Reset as_done"

definition status_calls :: "platform \<Rightarrow> seal_status vault_prog" where
  "status_calls P = bind_prog initialized_calls (\<lambda>init. try_prog (ask Is_Sealed as_flag) (\<lambda>sealed.
     let s = \<lparr>st_initialized = init, st_sealed = sealed, st_threshold = 0, st_shares = 0, st_progress = 0, st_type = ''shamir''\<rparr>
     in if \<not> init then Return (Inr s)
     else bind_prog (get_meta_calls P) (\<lambda>m. let s' = (case m of Inl _ \<Rightarrow> s
         | Inr meta \<Rightarrow> s\<lparr>st_threshold := meta_threshold meta, st_shares := meta_shares meta\<rparr>)
       in try_prog (ask Count_Shares as_count) (\<lambda>n. Return (Inr (s'\<lparr>st_progress := n\<rparr>))))))"

section \<open>Alone, a method is the operation\<close>

primrec alone :: "'s vault_store \<Rightarrow> platform \<Rightarrow> (vault_call, vault_answer, 'r) prog \<Rightarrow> 's vault \<Rightarrow> 'r \<times> 's vault" where
  "alone S P (Return r) = (\<lambda>v. (r, v))"
| "alone S P (Act a k) = (\<lambda>v. case vault_goes S P a v of (x, v') \<Rightarrow> alone S P (k x) v')"

named_theorems alone_simps \<open>how a method without interference computes\<close>

lemma alone_bind [alone_simps]: "alone S P (bind_prog p f) v = (case alone S P p v of (r, v') \<Rightarrow> alone S P (f r) v')"
  by (induction p arbitrary: v) (auto split: prod.splits)

lemma alone_try: "alone S P (try_prog p f) = bind_op (alone S P p) (\<lambda>x. alone S P (f x))"
  by (rule ext) (auto simp: try_prog_def alone_bind bind_op_def split: prod.splits sum.splits)

lemma alone_ask: "alone S P (ask a d) v = (case vault_goes S P a v of (x, v') \<Rightarrow> (d x, v'))"
  by (simp add: ask_def)

lemma alone_ret: "alone S P (Return (Inr x)) = ret x" "alone S P (Return (Inl e)) = raise_err e"
  by (rule ext, simp add: ret_def raise_err_def)+

lemma alone_store:
  "alone S P (ask Read_Barrier as_barrier) = store_read (get_barrier S)"
  "alone S P (ask (Write_Barrier b m) as_done) = store_op (put_barrier S b m)"
  "alone S P (ask (Write_Secret p d) as_done) = store_op (put_secret S p d)"
  "alone S P (ask (Write_Absent p d) as_flag) = store_op (put_secret_if_absent S p d)"
  "alone S P (ask (Read_Secret p) as_entry) = store_read (get_secret S p)"
  "alone S P (ask (Remove_Secret p) as_done) = store_op (delete_secret S p)"
  "alone S P (ask (Remove_Prefix p) as_count) = store_op (delete_prefix S p)"
  "alone S P (ask (List_Paths p) as_paths) = store_read (list_secrets S p)"
  by (rule ext, simp add: alone_ask answer_def as_defs store_op_def store_read_def lift_result_def ret_def raise_err_def
      split: sum.splits prod.splits)+

lemma alone_local:
  "alone S P (ask (Draw_Bytes n) as_bytes) = random_bytes n"
  "alone S P (ask (Draw_Shares mek m t) as_shares) = split_mek mek m t"
  "alone S P (ask Draw_Pki as_pems) = pki_op P"
  "alone S P (ask (Hold_Key k t) as_done) = set_barrier k t"
  "alone S P (ask (Gather b meta) as_progress) = gather_share S P b meta"
  by (rule ext, simp add: alone_ask answer_def as_defs split: sum.splits prod.splits;
      metis prod.collapse)+

lemma alone_key: "alone S P (ask Copy_Key as_key) = with_barrier ret"
  by (rule ext) (simp add: alone_ask as_defs with_barrier_def ret_def split: option.splits)

lemma with_key: "bind_op (with_barrier ret) f = with_barrier f"
  by (rule ext) (simp add: bind_op_def with_barrier_def ret_def split: option.splits)

declare alone.simps(1) [simp del]

lemma alone_end [simp]: "alone S P (Return r) v = (r, v)"
  by (simp add: alone.simps(1))

lemma alone_initialized: "alone S P initialized_calls v = (initialized S v, v)"
  by (auto simp: initialized_calls_def alone_ask answer_def as_defs store_read_def lift_result_def ret_def
      raise_err_def initialized_def check_initialized_def bind_result_def split: sum.splits prod.splits)

lemma alone_sealed: "alone S P (ask Is_Sealed as_flag) v = (Inr (sealed v), v)"
  by (simp add: alone_ask as_defs)

lemma alone_get_meta: "alone S P (get_meta_calls P) v = (get_meta S P v, v)"
  by (auto simp: get_meta_calls_def alone_try alone_store store_read_def lift_result_def bind_op_def ret_def raise_err_def
      get_meta_def split: sum.splits prod.splits option.splits)

lemma bind_ret: "bind_op m ret = m"
  by (rule ext) (auto simp: bind_op_def ret_def split: prod.splits sum.splits)

lemma bind_assoc: "bind_op (bind_op m f) g = bind_op m (\<lambda>x. bind_op (f x) g)"
  by (rule ext) (auto simp: bind_op_def split: prod.splits sum.splits)

lemma bind_ret_left: "bind_op (ret x) f = f x"
  by (rule ext) (simp add: bind_op_def ret_def)

lemma bind_raise: "bind_op (raise_err e) f = raise_err e"
  by (rule ext) (simp add: bind_op_def raise_err_def)

lemmas bind_laws = bind_ret bind_assoc bind_ret_left bind_raise then_op_def

lemma alone_encrypt: "alone S P (encrypt_calls P k x) = encrypt P k x"
  by (simp add: encrypt_calls_def encrypt_def alone_try alone_local alone_ret then_op_def guard_op_def bind_ret_left bind_raise)

lemma alone_seal_entry: "alone S P (seal_entry_calls P d) = seal_entry P d"
  unfolding seal_entry_calls_def seal_entry_def alone_try alone_key with_key alone_local alone_encrypt alone_ret ..

lemma alone_put: "alone S P (put_calls P p d) = vault_put S P p d"
  unfolding put_calls_def vault_put_def alone_try alone_seal_entry alone_store ..

lemma alone_write_meta: "alone S P (write_meta_calls P enc n t) = store_barrier_meta S P enc n t"
  unfolding write_meta_calls_def store_barrier_meta_def alone_store ..

lemma alone_pki: "alone S P (pki_calls P) = store_pki_keys S P"
  unfolding pki_calls_def store_pki_keys_def alone_try alone_local then_op_def
  by (rule ext) (auto simp: bind_op_def alone_try alone_put split: prod.splits sum.splits)

lemma alone_init_rest:
  "alone S P (init_rest_calls P n t wrap) = bind_op (generate_barrier_keys P) (\<lambda>(key, mek, enc).
     bind_op (split_mek_to_hex mek n t) (\<lambda>hex_shares.
     bind_op (lift_option Wrap_Failed (wrap hex_shares)) (\<lambda>wrapped.
     then_op (guard_op (length wrapped = length hex_shares) (Wrap_Count (length wrapped) (length hex_shares)))
     (then_op (store_barrier_meta S P enc n t)
     (then_op (set_barrier key t)
     (then_op (store_pki_keys S P)
     (ret \<lparr>result_shares = wrapped, result_threshold = t\<rparr>)))))))"
proof -
  have w: "alone S P (case wrap hs of None \<Rightarrow> Return (Inl Wrap_Failed)
     | Some wrapped \<Rightarrow> if length wrapped \<noteq> length hs then Return (Inl (Wrap_Count (length wrapped) (length hs))) else f wrapped) =
    bind_op (lift_option Wrap_Failed (wrap hs)) (\<lambda>wrapped.
     then_op (guard_op (length wrapped = length hs) (Wrap_Count (length wrapped) (length hs))) (alone S P (f wrapped)))" for hs f
    by (cases "wrap hs") (simp_all add: alone_ret bind_laws op_simps(8,9) guard_op_def)
  show ?thesis
    unfolding init_rest_calls_def alone_try alone_local alone_encrypt alone_write_meta alone_pki alone_ret Let_def w
      generate_barrier_keys_def split_mek_to_hex_def
    by (simp add: bind_laws)
qed

text \<open>
  The calls a method makes, run with nothing in between and a store that carries them out, are the operation
  that models the method as one step: same result, same state, on every branch. So what is shown of the operations
  holds of methods that do not overlap.
\<close>

theorem methods_alone:
  "alone S P (init_calls P n t wrap) v = init_wrapped S P n t wrap v"
  "alone S P (unseal_calls P h) v = unseal S P h v"
  "alone S P (rekey_calls P n t) v = rekey S P n t v"
  "alone S P (put_calls P p d) v = vault_put S P p d v"
  "alone S P (put_if_absent_calls P p d) v = vault_put_if_absent S P p d v"
  "alone S P (get_calls P p) v = vault_get S P p v"
  "alone S P (delete_calls p) v = vault_delete S p v"
  "alone S P (delete_prefix_calls p) v = vault_delete_prefix S p v"
  "alone S P (list_calls p) v = vault_list S p v"
  "alone S P seal_calls v = (Inr (), seal_vault v)"
  "alone S P reset_calls v = (Inr (), reset_unseal v)"
  "alone S P (status_calls P) v = (Inr (status S P v), v)"
proof -
  show "alone S P (init_calls P n t wrap) v = init_wrapped S P n t wrap v"
    by (simp add: init_calls_def alone_bind alone_initialized alone_init_rest init_wrapped_def)
  show "alone S P (unseal_calls P h) v = unseal S P h v"
    by (auto simp: unseal_calls_def alone_bind alone_initialized alone_sealed alone_try bind_op_def alone_get_meta alone_local unseal_def
        gather_share_def split: option.splits sum.splits)
  show "alone S P (rekey_calls P n t) v = rekey S P n t v"
    unfolding rekey_calls_def rekey_def alone_try alone_key with_key alone_local alone_encrypt alone_write_meta alone_ret
      split_mek_to_hex_def by (simp add: bind_laws)
  show "alone S P (put_calls P p d) v = vault_put S P p d v" by (simp add: alone_put)
  show "alone S P (put_if_absent_calls P p d) v = vault_put_if_absent S P p d v"
    by (simp add: put_if_absent_calls_def vault_put_if_absent_def alone_try alone_seal_entry alone_store)
  have r: "alone S P (Return (case x of None \<Rightarrow> Inl e | Some b \<Rightarrow> f b)) =
      (case x of None \<Rightarrow> raise_err e | Some b \<Rightarrow> lift_result id (f b))" for e :: vault_error and x :: "'b option" and f :: "'b \<Rightarrow> (vault_error, 'c) result"
    by (rule ext) (auto simp: raise_err_def lift_result_def ret_def split: option.splits sum.splits)
  show "alone S P (get_calls P p) v = vault_get S P p v"
    unfolding get_calls_def vault_get_def alone_try alone_key with_key alone_store r ..
  show "alone S P (delete_calls p) v = vault_delete S p v"
    by (simp add: delete_calls_def vault_delete_def alone_try alone_key with_key alone_store)
  show "alone S P (delete_prefix_calls p) v = vault_delete_prefix S p v"
    by (simp add: delete_prefix_calls_def vault_delete_prefix_def alone_try alone_key with_key alone_store alone_ret)
  show "alone S P (list_calls p) v = vault_list S p v"
    by (simp add: list_calls_def vault_list_def alone_try alone_key with_key alone_store)
  show "alone S P seal_calls v = (Inr (), seal_vault v)" "alone S P reset_calls v = (Inr (), reset_unseal v)"
    by (simp_all add: seal_calls_def reset_calls_def alone_ask as_defs)
  show "alone S P (status_calls P) v = (Inr (status S P v), v)"
    by (auto simp: status_calls_def alone_initialized alone_sealed alone_bind alone_get_meta alone_try alone_ask bind_op_def
        as_defs status_def Let_def split: sum.splits)
qed

end
