(* ===== verification/Vault_Concurrent_Correct.thy ===== *)
theory Vault_Concurrent_Correct
  imports Vault_Concurrent
begin

text \<open>
  What holds of the vault under every interleaving of its methods, on a Postgres store any call of which may fail:
  how it can come to be unsealed. And what does not hold: a late share stays behind in an unsealed vault,
  and two initialisations that overlap both succeed. The processes of other replicas on the same store are not part
  of the runs; the store changes through the methods of this one.
\<close>

section \<open>Methods in flight\<close>

datatype vault_method =
    M_Init int int "string list \<Rightarrow> string list option" | M_Unseal string | M_Seal | M_Reset | M_Rekey int int | M_Status
  | M_Put string secret_data | M_Put_If_Absent string secret_data | M_Get string | M_Delete string | M_Delete_Prefix string
  | M_List string

definition forget_result :: "'r vault_prog \<Rightarrow> unit vault_prog" where
  "forget_result p = bind_prog p (\<lambda>r. Return (map_sum id (\<lambda>_. ()) r))"

fun method_calls :: "platform \<Rightarrow> vault_method \<Rightarrow> unit vault_prog" where
  "method_calls P (M_Init n t wrap) = forget_result (init_calls P n t wrap)"
| "method_calls P (M_Unseal h) = forget_result (unseal_calls P h)"
| "method_calls P M_Seal = seal_calls"
| "method_calls P M_Reset = reset_calls"
| "method_calls P (M_Rekey n t) = forget_result (rekey_calls P n t)"
| "method_calls P M_Status = forget_result (status_calls P)"
| "method_calls P (M_Put p d) = put_calls P p d"
| "method_calls P (M_Put_If_Absent p d) = forget_result (put_if_absent_calls P p d)"
| "method_calls P (M_Get p) = forget_result (get_calls P p)"
| "method_calls P (M_Delete p) = delete_calls p"
| "method_calls P (M_Delete_Prefix p) = forget_result (delete_prefix_calls p)"
| "method_calls P (M_List p) = forget_result (list_calls p)"

section \<open>The rule each method keeps\<close>

text \<open>
  A key is held only by an initialisation that has stored its barrier, and a share is gathered only by an unseal it
  was submitted to, that has found a barrier and read the metadata it goes by.
\<close>

fun vault_rule :: "platform \<Rightarrow> vault_method \<Rightarrow> (vault_call \<times> vault_answer) list \<Rightarrow> vault_call \<Rightarrow> bool" where
  "vault_rule P m h (Hold_Key k t) = ((\<exists>n wrap. m = M_Init n t wrap) \<and> (\<exists>enc md. (Write_Barrier enc md, Done) \<in> set h))"
| "vault_rule P m h (Gather b meta) = ((\<exists>s. m = M_Unseal s \<and> hex_decode s = Some b) \<and>
     (\<exists>enc md. (Read_Barrier, Barrier (Some enc, md)) \<in> set h) \<and>
     (\<exists>enc md. (Read_Barrier, Barrier (enc, Some md)) \<in> set h \<and> meta_parse P md = Some meta))"
| "vault_rule P m h _ = True"

fun plain_call :: "vault_call \<Rightarrow> bool" where
  "plain_call (Hold_Key k t) = False" | "plain_call (Gather b meta) = False" | "plain_call _ = True"

lemma plain_rule: "plain_call a \<Longrightarrow> vault_rule P m h a"
  by (cases a) simp_all

lemmas plain_intros = harmless_bind harmless_try

lemma harmless_ends: "harmless ok (Return r)"
  by simp

lemma harmless_calls:
  "harmless plain_call initialized_calls" "harmless plain_call (get_meta_calls P)" "harmless plain_call (encrypt_calls P k x)"
  "harmless plain_call (seal_entry_calls P d)" "harmless plain_call (put_calls P p d)"
  by (auto simp: initialized_calls_def get_meta_calls_def encrypt_calls_def seal_entry_calls_def put_calls_def harmless_ask
      intro!: plain_intros split: prod.split)

lemma harmless_methods:
  "harmless plain_call (rekey_calls P n t)" "harmless plain_call (status_calls P)" "harmless plain_call (get_calls P p)"
  "harmless plain_call (delete_calls p)" "harmless plain_call (delete_prefix_calls p)" "harmless plain_call (list_calls p)"
  "harmless plain_call (put_if_absent_calls P p d)" "harmless plain_call seal_calls" "harmless plain_call reset_calls"
  "harmless plain_call (pki_calls P)" "harmless plain_call (write_meta_calls P enc n t)"
  by (auto simp: rekey_calls_def status_calls_def get_calls_def delete_calls_def delete_prefix_calls_def list_calls_def
      put_if_absent_calls_def seal_calls_def reset_calls_def pki_calls_def write_meta_calls_def harmless_ask harmless_calls Let_def
      intro!: plain_intros split: prod.split)

lemma obeys_plain: "harmless plain_call p \<Longrightarrow> obeys (vault_rule P m) p h"
  by (erule harmless_obeys) (rule plain_rule)

lemma obeys_forget: "obeys C p h \<Longrightarrow> obeys C (forget_result p) h"
  unfolding forget_result_def by (erule obeys_bind) simp

lemma as_done_ok: "Inr u = as_done x \<longleftrightarrow> x = Done"
  by (cases x) (auto simp: as_done_def)

lemma as_barrier_ok: "as_barrier x = Inr r \<longleftrightarrow> x = Barrier r" "Inr r = as_barrier x \<longleftrightarrow> x = Barrier r"
  by (cases x; auto simp: as_barrier_def)+

lemma follow_initialized:
  assumes "follow initialized_calls es = Some (Return True)"
  shows "\<exists>enc md. (Read_Barrier, Barrier (Some enc, md)) \<in> set es"
proof -
  from assms obtain x where x: "es = [(Read_Barrier, x)]"
    "True = (case as_barrier x of Inl _ \<Rightarrow> False | Inr (b, _) \<Rightarrow> b \<noteq> None)"
    unfolding initialized_calls_def follow_ask by blast
  then obtain enc md where "as_barrier x = Inr (Some enc, md)" by (auto split: sum.splits)
  with x(1) show ?thesis by (auto simp: as_barrier_ok)
qed

lemma follow_get_meta:
  assumes "follow (get_meta_calls P) es = Some (Return (Inr meta))"
  shows "\<exists>enc md. (Read_Barrier, Barrier (enc, Some md)) \<in> set es \<and> meta_parse P md = Some meta"
proof -
  from assms obtain x y where x: "(Read_Barrier, x) \<in> set es" "Inr y = as_barrier x"
    "Inr meta = (case snd y of None \<Rightarrow> Inl Meta_Missing
       | Some m \<Rightarrow> (case meta_parse P m of None \<Rightarrow> Inl Meta_Malformed | Some meta \<Rightarrow> Inr meta))"
    unfolding get_meta_calls_def follow_try follow_ask by (auto simp: follow_Return)
  then obtain md where "snd y = Some md" "meta_parse P md = Some meta" by (auto split: option.splits)
  with x show ?thesis by (cases y) (auto simp: as_barrier_ok)
qed

lemma unseal_obeys: "obeys (vault_rule P (M_Unseal s)) (unseal_calls P s) []"
  unfolding unseal_calls_def
proof (rule obeys_bind [OF obeys_plain [OF harmless_calls(1)]])
  fix es init assume f: "follow initialized_calls es = Some (Return init)"
  show "obeys (vault_rule P (M_Unseal s)) (if \<not> init then Return (Inl Err_Not_Initialized)
     else try_prog (ask Is_Sealed as_flag) (\<lambda>sealed.
       if \<not> sealed then Return (Inr \<lparr>up_done = True, up_progress = 0, up_threshold = 0\<rparr>)
       else case hex_decode s of None \<Rightarrow> Return (Inl Invalid_Hex)
         | Some share_bytes \<Rightarrow> try_prog (get_meta_calls P) (\<lambda>meta. ask (Gather share_bytes meta) as_progress))) ([] @ es)"
  proof (cases init)
    case True
    with f obtain enc md where r: "(Read_Barrier, Barrier (Some enc, md)) \<in> set es"
      using follow_initialized [of es] by auto
    have gather: "obeys (vault_rule P (M_Unseal s)) (try_prog (get_meta_calls P) (\<lambda>meta. ask (Gather b meta) as_progress)) h"
      if b: "hex_decode s = Some b" and h: "set es \<subseteq> set h" for b h
    proof (rule obeys_try [OF obeys_plain [OF harmless_calls(2)]])
      fix gs meta assume "follow (get_meta_calls P) gs = Some (Return (Inr meta))"
      from follow_get_meta [OF this] r b h show "obeys (vault_rule P (M_Unseal s)) (ask (Gather b meta) as_progress) (h @ gs)"
        by (auto simp: obeys_ask)
    qed
    have "obeys (vault_rule P (M_Unseal s)) (try_prog (ask Is_Sealed as_flag) (\<lambda>sealed.
       if \<not> sealed then Return (Inr \<lparr>up_done = True, up_progress = 0, up_threshold = 0\<rparr>)
       else case hex_decode s of None \<Rightarrow> Return (Inl Invalid_Hex)
         | Some share_bytes \<Rightarrow> try_prog (get_meta_calls P) (\<lambda>meta. ask (Gather share_bytes meta) as_progress))) es"
      by (rule obeys_try) (auto simp: obeys_ask intro!: gather split: option.split)
    with True show ?thesis by simp
  qed simp
qed

lemma hold_obeys:
  assumes "(Write_Barrier enc md, Done) \<in> set h"
  shows "obeys (vault_rule P (M_Init n t wrap)) (try_prog (ask (Hold_Key key t) as_done) (\<lambda>_.
    try_prog (pki_calls P) (\<lambda>_. Return (Inr r)))) h"
  by (rule obeys_try) (use assms in \<open>auto simp: obeys_ask intro!: obeys_plain harmless_try harmless_methods\<close>)

lemma write_obeys:
  "obeys (vault_rule P (M_Init n t wrap)) (try_prog (write_meta_calls P enc n t) (\<lambda>_. try_prog (ask (Hold_Key key t) as_done) (\<lambda>_.
    try_prog (pki_calls P) (\<lambda>_. Return (Inr r))))) h"
proof (rule obeys_try [OF obeys_plain [OF harmless_methods(11)]])
  fix gs and u :: unit assume "follow (write_meta_calls P enc n t) gs = Some (Return (Inr u))"
  then obtain md where "(Write_Barrier enc md, Done) \<in> set (h @ gs)"
    by (auto simp: write_meta_calls_def follow_ask as_done_ok)
  then show "obeys (vault_rule P (M_Init n t wrap)) (try_prog (ask (Hold_Key key t) as_done) (\<lambda>_.
    try_prog (pki_calls P) (\<lambda>_. Return (Inr r)))) (h @ gs)" by (rule hold_obeys)
qed

lemma init_rest_obeys: "obeys (vault_rule P (M_Init n t wrap)) (init_rest_calls P n t wrap) h"
  unfolding init_rest_calls_def
  by (intro obeys_try) (auto simp: obeys_ask Let_def obeys_plain [OF harmless_calls(3)] write_obeys split: option.split)

lemma init_obeys: "obeys (vault_rule P (M_Init n t wrap)) (init_calls P n t wrap) h"
  unfolding init_calls_def by (rule obeys_bind [OF obeys_plain [OF harmless_calls(1)]]) (simp add: init_rest_obeys)

lemma method_obeys: "obeys (vault_rule P m) (method_calls P m) []"
  by (cases m) (simp_all add: obeys_forget unseal_obeys init_obeys obeys_plain harmless_methods harmless_calls)

section \<open>How the vault comes to be unsealed\<close>

definition submitted :: "vault_method list \<Rightarrow> bytes \<Rightarrow> bool" where
  "submitted ms b \<longleftrightarrow> (\<exists>s. M_Unseal s \<in> set ms \<and> hex_decode s = Some b)"

text \<open>The shares waiting in memory after the calls \<open>es\<close>, as the calls' answers tell.\<close>

fun gather_event :: "bytes list \<Rightarrow> (vault_call, vault_answer) event \<Rightarrow> bytes list" where
  "gather_event bs (i, Gather b meta, x) = (case x of Progress p \<Rightarrow> if up_done p then [] else bs @ [b] | _ \<Rightarrow> [])"
| "gather_event bs (i, Lock_Seal, x) = []"
| "gather_event bs (i, Lock_Reset, x) = []"
| "gather_event bs (i, a, x) = bs"

definition gathered :: "(vault_call, vault_answer) event list \<Rightarrow> bytes list" where
  "gathered es = foldl gather_event [] es"

lemma gathered_simps [simp]: "gathered [] = []" "gathered (es @ [e]) = gather_event (gathered es) e"
  by (simp_all add: gathered_def)

text \<open>Some event satisfies \<open>Q\<close>, given the events before it, and no seal came after.\<close>

definition since_seal :: "(vault_call, vault_answer) event list \<Rightarrow>
    ((vault_call, vault_answer) event list \<Rightarrow> (vault_call, vault_answer) event \<Rightarrow> bool) \<Rightarrow> bool" where
  "since_seal es Q \<longleftrightarrow> (\<exists>es1 e es2. es = es1 @ e # es2 \<and> Q es1 e \<and> list_all (\<lambda>(i, a, x). a \<noteq> Lock_Seal) es2)"

lemma since_seal_snoc: "since_seal (es @ [(i, a, x)]) Q \<longleftrightarrow> Q es (i, a, x) \<or> since_seal es Q \<and> a \<noteq> Lock_Seal"
proof
  assume "since_seal (es @ [(i, a, x)]) Q"
  then obtain es1 e es2 where s: "es @ [(i, a, x)] = es1 @ e # es2" "Q es1 e" "list_all (\<lambda>(i, a, x). a \<noteq> Lock_Seal) es2"
    unfolding since_seal_def by blast
  show "Q es (i, a, x) \<or> since_seal es Q \<and> a \<noteq> Lock_Seal"
  proof (cases es2 rule: rev_cases)
    case Nil
    with s show ?thesis by simp
  next
    case (snoc es2' e')
    with s have e: "es = es1 @ e # es2'" "(i, a, x) = e'" "list_all (\<lambda>(i, a, x). a \<noteq> Lock_Seal) (es2' @ [e'])" by simp_all
    from e(1,3) s(2) have "since_seal es Q" unfolding since_seal_def by (intro exI [of _ es1] exI [of _ e] exI [of _ es2']) simp
    with e(2,3) show ?thesis by auto
  qed
next
  assume "Q es (i, a, x) \<or> since_seal es Q \<and> a \<noteq> Lock_Seal"
  then show "since_seal (es @ [(i, a, x)]) Q"
  proof
    assume "Q es (i, a, x)"
    then show ?thesis unfolding since_seal_def by (intro exI [of _ es] exI [of _ "(i, a, x)"] exI [of _ "[]"]) simp
  next
    assume "since_seal es Q \<and> a \<noteq> Lock_Seal"
    then obtain es1 e es2 where "es = es1 @ e # es2" "Q es1 e" "list_all (\<lambda>(i, a, x). a \<noteq> Lock_Seal) (es2 @ [(i, a, x)])"
      unfolding since_seal_def by auto
    then show ?thesis unfolding since_seal_def by (metis append_Cons append_assoc)
  qed
qed

text \<open>A barrier that was stored when the process started, or that one of its calls wrote or tried to write.\<close>

definition stored_barrier :: "pg_store \<Rightarrow> (vault_call, vault_answer) event list \<Rightarrow> bytes \<Rightarrow> bool" where
  "stored_barrier st es enc \<longleftrightarrow> (\<exists>md. pg_barrier st = Some (enc, md)) \<or> (\<exists>i md x. (i, Write_Barrier enc md, x) \<in> set es)"

text \<open>An initialisation that has stored its barrier puts the key \<open>k\<close> in memory.\<close>

fun held_by_init :: "vault_method list \<Rightarrow> bytes \<Rightarrow> (vault_call, vault_answer) event list \<Rightarrow> (vault_call, vault_answer) event \<Rightarrow> bool" where
  "held_by_init ms k es (i, a, x) \<longleftrightarrow> (\<exists>n t wrap. a = Hold_Key k t \<and> i < length ms \<and> ms ! i = M_Init n t wrap \<and>
     (\<exists>enc md. (i, Write_Barrier enc md, Done) \<in> set es))"

text \<open>
  A share is gathered after those still waiting, completes the threshold of the metadata its method read, and
  together they open a stored barrier onto \<open>k\<close>.
\<close>

fun opened_by_shares :: "platform \<Rightarrow> pg_store \<Rightarrow> vault_method list \<Rightarrow> bytes \<Rightarrow> (vault_call, vault_answer) event list \<Rightarrow>
    (vault_call, vault_answer) event \<Rightarrow> bool" where
  "opened_by_shares P st ms k es (i, a, x) \<longleftrightarrow> (\<exists>b meta mek enc. a = Gather b meta \<and>
     (\<forall>c \<in> set (gathered es @ [b]). submitted ms c) \<and> meta_threshold meta \<le> int (length (gathered es @ [b])) \<and>
     (\<exists>enc' md. (i, Read_Barrier, Barrier (enc', Some md)) \<in> set es \<and> meta_parse P md = Some meta) \<and>
     reconstruct_mek (gathered es @ [b]) meta = Inr mek \<and> stored_barrier st es enc \<and> decrypt P mek enc = Inr k)"

definition vault_run_inv :: "platform \<Rightarrow> pg_store \<Rightarrow> vault_method list \<Rightarrow> (vault_call, vault_answer) event list \<Rightarrow> pg_store vault \<Rightarrow> bool" where
  "vault_run_inv P st ms es v \<longleftrightarrow>
    (pg_barrier (vstore v) = None \<longrightarrow> barrier_key v = None \<and> unseal_shares v = [] \<and>
      (\<forall>i enc md. (i, Read_Barrier, Barrier (Some enc, md)) \<notin> set es) \<and> (\<forall>i enc md. (i, Write_Barrier enc md, Done) \<notin> set es)) \<and>
    (\<forall>enc md. pg_barrier (vstore v) = Some (enc, md) \<longrightarrow> stored_barrier st es enc) \<and>
    unseal_shares v = gathered es \<and> (\<forall>b \<in> set (gathered es). submitted ms b) \<and>
    (\<forall>k. barrier_key v = Some k \<longrightarrow> since_seal es (\<lambda>es1 e. held_by_init ms k es1 e \<or> opened_by_shares P st ms k es1 e))"

lemma stored_mono: "stored_barrier st es enc \<Longrightarrow> stored_barrier st (es @ fs) enc"
  unfolding stored_barrier_def by auto

declare held_by_init.simps [simp del] opened_by_shares.simps [simp del]

text \<open>The part of the state the invariant is about, and the calls that leave it alone.\<close>

definition core :: "pg_store vault \<Rightarrow> bytes option \<times> bytes list \<times> (bytes \<times> bytes) option" where
  "core v = (barrier_key v, unseal_shares v, pg_barrier (vstore v))"

fun quiet_call :: "vault_call \<Rightarrow> bool" where
  "quiet_call (Write_Barrier b m) = False" | "quiet_call (Hold_Key k t) = False" | "quiet_call (Gather b meta) = False"
| "quiet_call Lock_Seal = False" | "quiet_call Lock_Reset = False" | "quiet_call _ = True"

lemma core_draws: "draws m \<Longrightarrow> core (snd (m v)) = core v"
  by (metis core_def drawsD prod.collapse vault.select_convs(1-3) vault.surjective vault.update_convs(5))

lemma core_store: "(\<And>s. pg_barrier (snd (f s)) = pg_barrier s) \<Longrightarrow> core (snd (store_op f v)) = core v"
proof -
  assume f: "\<And>s. pg_barrier (snd (f s)) = pg_barrier s"
  show ?thesis using f [of "vstore v"] by (auto simp: store_op_def core_def split: sum.splits prod.splits)
qed

lemma core_read: "snd (store_read f v) = v"
  by (simp add: store_read_def lift_result_def ret_def raise_err_def split: sum.split)

lemma quiet_core: "quiet_call a \<Longrightarrow> core (snd (vault_goes (postgres_ops jsonb collate) P a v)) = core v"
proof (cases a)
  case (Draw_Bytes n) then show ?thesis by (simp add: answer_def core_draws [OF draws_basic(6)])
next
  case (Draw_Shares mek n t) then show ?thesis by (simp add: answer_def core_draws [OF draws_split_mek])
next
  case Draw_Pki then show ?thesis by (simp add: answer_def core_draws [OF draws_pki])
next
  case (Write_Secret p d)
  then show ?thesis by (simp add: answer_def) (rule core_store, simp add: postgres_ops_def pg_defs)
next
  case (Write_Absent p d)
  then show ?thesis by (simp add: answer_def) (rule core_store, simp add: postgres_ops_def pg_defs split: option.split)
next
  case (Remove_Secret p)
  then show ?thesis by (simp add: answer_def) (rule core_store, simp add: postgres_ops_def pg_defs)
next
  case (Remove_Prefix p)
  then show ?thesis by (simp add: answer_def) (rule core_store, simp add: postgres_ops_def pg_defs pg_delete_prefix_def Let_def)
qed (simp_all add: answer_def core_read)

definition thread_rule :: "platform \<Rightarrow> vault_method list \<Rightarrow> nat \<Rightarrow> (vault_call \<times> vault_answer) list \<Rightarrow> vault_call \<Rightarrow> bool" where
  "thread_rule P ms i h a \<longleftrightarrow> i < length ms \<and> vault_rule P (ms ! i) h a"

lemma answer_cases: "answer f r = (x, w) \<longleftrightarrow> w = snd r \<and> (case fst r of Inl e \<Rightarrow> x = Failed_With e | Inr y \<Rightarrow> x = f y)"
  by (auto simp: answer_def split: sum.split)

lemma quiet_gathers: "quiet_call a \<or> store_call a \<Longrightarrow> gather_event bs (i, a, x) = bs \<and> a \<noteq> Lock_Seal"
  by (cases a) auto

lemma quiet_step:
  assumes "vault_run_inv P st ms es v" "core v' = core v" "quiet_call a \<or> store_call a"
    and "\<And>enc md. a = Read_Barrier \<Longrightarrow> x = Barrier (Some enc, md) \<Longrightarrow> pg_barrier (vstore v) \<noteq> None"
    and "\<And>b m. a = Write_Barrier b m \<Longrightarrow> x \<noteq> Done"
  shows "vault_run_inv P st ms (es @ [(i, a, x)]) v'"
proof -
  from assms(2) have "barrier_key v' = barrier_key v" "unseal_shares v' = unseal_shares v"
    "pg_barrier (vstore v') = pg_barrier (vstore v)" by (simp_all add: core_def)
  with assms(1,4,5) quiet_gathers [OF assms(3)] stored_mono [where es = es and fs = "[(i, a, x)]"] show ?thesis
    unfolding vault_run_inv_def since_seal_snoc by (auto 0 3)
qed

lemma write_step:
  assumes "vault_run_inv P st ms es v" "pg_barrier (vstore v') = Some (b, m')"
    "barrier_key v' = barrier_key v" "unseal_shares v' = unseal_shares v"
  shows "vault_run_inv P st ms (es @ [(i, Write_Barrier b m, x)]) v'"
proof -
  have b: "stored_barrier st (es @ [(i, Write_Barrier b m, x)]) b" unfolding stored_barrier_def by auto
  show ?thesis using assms(1) b unfolding vault_run_inv_def assms(2-) since_seal_snoc by simp
qed

lemma put_barrier_goes:
  assumes "vault_goes (postgres_ops jsonb collate) P (Write_Barrier b m) v = (x, v')"
  shows "core v' = core v \<and> x \<noteq> Done \<or> (\<exists>m'. pg_barrier (vstore v') = Some (b, m') \<and> barrier_key v' = barrier_key v \<and>
    unseal_shares v' = unseal_shares v)"
  using assms by (auto simp: answer_cases store_op_def postgres_ops_def pg_defs core_def split: option.splits if_splits)

text \<open>Gathering a share keeps it, or drops all, or takes the key they open.\<close>

lemma gather_result:
  assumes "gather_share S P b meta v = (r, v')"
  obtains (keeps) p where "r = Inr p" "\<not> up_done p" "unseal_shares v' = unseal_shares v @ [b]" "barrier_key v' = barrier_key v"
      "vstore v' = vstore v"
    | (drops) e where "r = Inl e" "unseal_shares v' = []" "barrier_key v' = barrier_key v" "vstore v' = vstore v"
    | (opens) p mek enc m key where "r = Inr p" "up_done p" "unseal_shares v' = []" "vstore v' = vstore v"
      "meta_threshold meta \<le> int (length (unseal_shares v @ [b]))" "reconstruct_mek (unseal_shares v @ [b]) meta = Inr mek"
      "get_barrier S (vstore v) = Inr (Some enc, m)" "decrypt P mek enc = Inr key" "barrier_key v' = barrier_of key"
proof -
  have d: "decrypt P mek [] \<noteq> Inr key" for mek key by (simp add: decrypt_def nonce_size_def)
  show thesis using assms d that
    by (auto simp: gather_share_def Let_def then_op_def bind_op_def ret_def apply_unseal_shares_def
        split: if_splits sum.splits prod.splits option.splits)
qed

lemma gather_step:
  assumes inv: "vault_run_inv P st ms es v" and rule: "thread_rule P ms i (own i es) (Gather b meta)"
    and g: "gather_share S P b meta v = (r, v')" and x: "x = (case r of Inl e \<Rightarrow> Failed_With e | Inr p \<Rightarrow> Progress p)"
    and S: "\<And>enc m. get_barrier S (vstore v) = Inr (Some enc, m) \<Longrightarrow> \<exists>md. pg_barrier (vstore v) = Some (enc, md)"
  shows "vault_run_inv P st ms (es @ [(i, Gather b meta, x)]) v'"
proof -
  let ?es = "es @ [(i, Gather b meta, x)]"
  note mono = since_seal_snoc stored_mono [where es = es and fs = "[(i, Gather b meta, x)]"]
  from rule have b: "submitted ms b" and ne: "pg_barrier (vstore v) \<noteq> None"
    and meta: "\<exists>enc' md. (i, Read_Barrier, Barrier (enc', Some md)) \<in> set es \<and> meta_parse P md = Some meta"
    using inv by (auto simp: thread_rule_def submitted_def own_mem [symmetric] vault_run_inv_def intro: nth_mem) (metis nth_mem)+
  from inv have sh: "unseal_shares v = gathered es" and old: "\<forall>c \<in> set (gathered es @ [b]). submitted ms c"
    using b by (auto simp: vault_run_inv_def)
  from g show ?thesis
  proof (cases rule: gather_result)
    case (keeps p)
    with x inv ne old mono(2) show ?thesis unfolding vault_run_inv_def mono(1) by auto
  next
    case (drops e)
    with x inv ne mono(2) show ?thesis unfolding vault_run_inv_def mono(1) by auto
  next
    case (opens p mek enc m key)
    from S [OF opens(7)] inv have "stored_barrier st es enc" by (auto simp: vault_run_inv_def)
    with meta old opens(5,6,8) have "opened_by_shares P st ms key es (i, Gather b meta, x)"
      unfolding opened_by_shares.simps sh by blast
    with opens x inv ne mono(2) show ?thesis unfolding vault_run_inv_def mono(1) by (auto simp: barrier_of_def split: if_splits)
  qed
qed

lemma get_barrier_stored:
  "get_barrier (postgres_ops jsonb collate) s = Inr (Some enc, m) \<Longrightarrow> \<exists>md. pg_barrier s = Some (enc, md)"
  by (auto simp: postgres_ops_def pg_defs split: if_splits option.splits)

lemma goes_step:
  assumes inv: "vault_run_inv P st ms es v" and rule: "thread_rule P ms i (own i es) a"
    and g: "vault_goes (postgres_ops jsonb collate) P a v = (x, v')"
  shows "vault_run_inv P st ms (es @ [(i, a, x)]) v'"
proof (cases "quiet_call a")
  case True
  from quiet_core [OF this, of jsonb collate P v] g have "core v' = core v" by simp
  then show ?thesis
  proof (rule quiet_step [OF inv])
    fix enc md assume "a = Read_Barrier" "x = Barrier (Some enc, md)"
    with g show "pg_barrier (vstore v) \<noteq> None"
      by (auto simp: answer_cases store_read_def lift_result_def ret_def raise_err_def dest!: get_barrier_stored split: sum.splits)
  qed (use True in auto)
next
  case False
  show ?thesis
  proof (cases a)
    case (Write_Barrier b m)
    from put_barrier_goes [OF g [unfolded Write_Barrier]] show ?thesis unfolding Write_Barrier
      by (auto intro: write_step [OF inv] quiet_step [OF inv])
  next
    case (Hold_Key k t)
    from rule have "pg_barrier (vstore v) \<noteq> None" and h: "i < length ms" "\<exists>n wrap. ms ! i = M_Init n t wrap"
      using inv by (auto simp: Hold_Key thread_rule_def own_mem [symmetric] vault_run_inv_def)
    moreover from g have "v' = v\<lparr>barrier_key := Some k, threshold := t\<rparr>" "x = Done"
      by (auto simp: Hold_Key answer_cases set_barrier_def)
    moreover have "held_by_init ms k es (i, Hold_Key k t, x)"
      using h rule by (auto simp: Hold_Key thread_rule_def own_mem [symmetric] held_by_init.simps)
    ultimately show ?thesis using inv stored_mono [where fs = "[(i, a, x)]" and es = es]
      unfolding vault_run_inv_def Hold_Key since_seal_snoc by auto
  next
    case (Gather b meta)
    obtain r w where r: "gather_share (postgres_ops jsonb collate) P b meta v = (r, w)" by (rule prod.exhaust)
    from g r Gather have w: "w = v'" "x = (case r of Inl e \<Rightarrow> Failed_With e | Inr p \<Rightarrow> Progress p)"
      by (auto simp: answer_def split: sum.splits)
    from gather_step [OF inv rule [unfolded Gather] r w(2)] get_barrier_stored [of jsonb collate "vstore v"]
    show ?thesis unfolding Gather w(1) by blast
  next
    case Lock_Seal
    with g inv stored_mono [where fs = "[(i, a, x)]" and es = es] show ?thesis
      unfolding vault_run_inv_def since_seal_snoc by (auto simp: seal_vault_def)
  next
    case Lock_Reset
    with g inv stored_mono [where fs = "[(i, a, x)]" and es = es] show ?thesis
      unfolding vault_run_inv_def since_seal_snoc by (auto simp: reset_unseal_def)
  qed (use False in auto)
qed

text \<open>The same when calls of the store fail, a write with or without its effect.\<close>

lemma fails_gather_step:
  assumes inv: "vault_run_inv P st ms es v" and rule: "thread_rule P ms i (own i es) (Gather b meta)"
    and g: "vault_goes (S\<lparr>get_barrier := \<lambda>s. Inl e\<rparr>) P (Gather b meta) v = (x, v')"
  shows "vault_run_inv P st ms (es @ [(i, Gather b meta, x)]) v'"
proof -
  let ?S = "S\<lparr>get_barrier := \<lambda>s. Inl e\<rparr>"
  obtain r w where r: "gather_share ?S P b meta v = (r, w)" by (rule prod.exhaust)
  from g r have w: "w = v'" "x = (case r of Inl e \<Rightarrow> Failed_With e | Inr p \<Rightarrow> Progress p)"
    by (auto simp: answer_def split: sum.splits)
  from gather_step [OF inv rule r w(2)] show ?thesis unfolding w(1) by simp
qed

lemma loses_step:
  assumes inv: "vault_run_inv P st ms es v" and a: "store_call a"
    and v': "v' = snd (vault_goes (postgres_ops jsonb collate) P a v)"
  shows "vault_run_inv P st ms (es @ [(i, a, Failed_With e)]) v'"
proof (cases "quiet_call a")
  case True
  from quiet_core [OF this, of jsonb collate P v] v' have "core v' = core v" by simp
  with a show ?thesis by (auto intro: quiet_step [OF inv])
next
  case False
  with a obtain b m where w: "a = Write_Barrier b m" by (cases a) auto
  from put_barrier_goes [OF surjective_pairing, of jsonb collate P b m v] show ?thesis unfolding w v'
    by (elim disjE exE conjE) (rule quiet_step [OF inv], auto intro: write_step [OF inv])
qed

lemma do_step:
  assumes inv: "vault_run_inv P st ms es v" and rule: "thread_rule P ms i (own i es) a"
    and d: "may_perform (vault_do (postgres_ops jsonb collate) P) v a x v'"
  shows "vault_run_inv P st ms (es @ [(i, a, x)]) v'"
proof -
  from d obtain c where c: "vault_do (postgres_ops jsonb collate) P c a v = Some (x, v')" by (auto simp: may_perform_def)
  show ?thesis
  proof (cases c)
    case Goes
    with c show ?thesis by (auto intro: goes_step [OF inv rule])
  next
    case (Loses e)
    with c show ?thesis by (auto intro!: loses_step [OF inv] split: if_splits)
  next
    case (Fails e)
    show ?thesis
    proof (cases "store_call a")
      case True
      with c Fails show ?thesis by (auto intro: quiet_step [OF inv])
    next
      case False
      with c Fails obtain b meta where "a = Gather b meta" by (cases a) auto
      with c Fails rule show ?thesis by (auto intro: fails_gather_step [OF inv])
    qed
  qed
qed

interpretation vault_runs: protocol "may_perform (vault_do (postgres_ops jsonb collate) P)" "thread_rule P ms" "vault_run_inv P st ms"
  for jsonb collate P ms st
  by unfold_locales (rule do_step)

lemma thread_obeys: "i < length ms \<Longrightarrow> obeys (thread_rule P ms i) (method_calls P (ms ! i)) []"
  using method_obeys [of P "ms ! i"] unfolding thread_rule_def by (auto elim!: obeys_mono)

section \<open>Runs\<close>

text \<open>Two concrete interleavings, one turn after the other, in which every call goes through.\<close>

definition returned :: "('a, 'x, 'r) prog \<Rightarrow> 'r option" where
  "returned p = (case p of Return r \<Rightarrow> Some r | Act a k \<Rightarrow> None)"

definition turns :: "nat list \<Rightarrow> (nat \<times> vault_turn) list" where
  "turns is = map (\<lambda>i. (i, Goes)) is"

definition play :: "nat list \<Rightarrow> vault_method list \<Rightarrow> pg_store vault \<Rightarrow>
    ((vault_error, unit) result option list \<times> bytes option \<times> bytes list \<times> bytes option) option" where
  "play is ms v = map_option (\<lambda>(es, Q, w). (map returned Q, barrier_key w, unseal_shares w, map_option fst (pg_barrier (vstore w))))
     (run_with (vault_do (postgres_ops Some sort) plain_platform) (turns is) (map (method_calls plain_platform) ms, v))"

abbreviation plain_runs :: "vault_method list \<Rightarrow> pg_store vault \<Rightarrow> (vault_call, vault_answer) event list \<Rightarrow>
    unit vault_prog list \<times> pg_store vault \<Rightarrow> bool" where
  "plain_runs ms v \<equiv> runs (may_perform (vault_do (postgres_ops Some sort) plain_platform)) (map (method_calls plain_platform) ms, v)"

lemma play_runs:
  assumes "play is ms v = Some (rs, key, shares, enc)"
  shows "\<exists>es Q w. plain_runs ms v es (Q, w) \<and> map returned Q = rs \<and> barrier_key w = key \<and> unseal_shares w = shares \<and>
    map_option fst (pg_barrier (vstore w)) = enc"
  using assms run_with_runs [OF runs_none, of _ "turns is" "map (method_calls plain_platform) ms" v]
  unfolding play_def by fastforce

definition one_share_store :: pg_store where
  "one_share_store = empty_pg\<lparr>pg_barrier := Some (ones nonce_size @ ones 32,
     meta_json plain_platform \<lparr>encrypted_barrier = [], meta_threshold = 1, meta_shares = 1\<rparr>)\<rparr>"

lemma late_share_run:
  "play [0, 0, 1, 1, 1, 1, 2, 2, 2, 2, 0, 0] [M_Unseal ''00'', M_Unseal (hex_encode (ones 32)), M_Rekey 2 2]
      (fresh_vault one_share_store (ones 400))
    = Some ([Some (Inr ()), Some (Inr ()), None], Some (ones 32), [[0]], Some (ones nonce_size @ ones 32))"
  by code_simp

definition two_entropies :: entropy where
  "two_entropies = ones (64 + nonce_size) @ replicate (64 + nonce_size) 2 @ ones 400"

lemma two_inits_run:
  "play ([0, 1, 0, 0, 0, 0, 1, 1, 1, 1, 0, 1, 1, 0] @ replicate 11 0 @ replicate 11 1) [M_Init 1 1 Some, M_Init 1 1 Some]
      (fresh_vault empty_pg two_entropies)
    = Some ([Some (Inr ()), Some (Inr ())], Some (ones 32), [], Some (replicate (nonce_size + 32) 2))"
  by code_simp

section \<open>Theorem\<close>

text \<open>
  Claim C3. However the methods of one new vault interleave, and whatever store calls fail, a vault without a stored
  barrier is sealed and gathers nothing; every share in memory is one that was submitted; and a barrier key in
  memory was put there after the last seal, either by an initialisation that had stored its barrier, or by the share
  that completed the threshold, which with the others gathered since the last reset reconstructs a key under
  which a stored barrier decrypts to the very barrier key.
\<close>

theorem unsealed_only_by_shares_or_init:
  assumes "runs (may_perform (vault_do (postgres_ops jsonb collate) P)) (map (method_calls P) ms, fresh_vault st e) es (Q, v)"
  shows "(pg_barrier (vstore v) = None \<longrightarrow> sealed v \<and> unseal_shares v = []) \<and>
    unseal_shares v = gathered es \<and> (\<forall>b \<in> set (unseal_shares v). submitted ms b) \<and>
    (\<forall>k. barrier_key v = Some k \<longrightarrow>
      since_seal es (\<lambda>es1 e1. held_by_init ms k es1 e1 \<or> opened_by_shares P st ms k es1 e1))"
proof -
  have "vault_run_inv P st ms [] (fresh_vault st e)" by (auto simp: vault_run_inv_def stored_barrier_def)
  then have "vault_run_inv P st ms es v"
    by (rule vault_runs.runs_inv [OF assms]) (simp add: thread_obeys)
  then show ?thesis by (auto simp: vault_run_inv_def sealed_def)
qed

theorem unsealed_only_by_shares_or_init_witness:
  "\<exists>es Q v. plain_runs [M_Unseal ''00'', M_Unseal (hex_encode (ones 32)), M_Rekey 2 2]
      (fresh_vault one_share_store (ones 400)) es (Q, v) \<and> barrier_key v = Some (ones 32) \<and>
    gathered es = [[0]] \<and> since_seal es (\<lambda>es1 e1.
      held_by_init [M_Unseal ''00'', M_Unseal (hex_encode (ones 32)), M_Rekey 2 2] (ones 32) es1 e1 \<or>
      opened_by_shares plain_platform one_share_store [M_Unseal ''00'', M_Unseal (hex_encode (ones 32)), M_Rekey 2 2]
        (ones 32) es1 e1)"
proof -
  obtain es Q v where r: "plain_runs [M_Unseal ''00'', M_Unseal (hex_encode (ones 32)), M_Rekey 2 2]
      (fresh_vault one_share_store (ones 400)) es (Q, v)" "barrier_key v = Some (ones 32)" "unseal_shares v = [[0]]"
    using play_runs [OF late_share_run] by (elim exE conjE)
  from unsealed_only_by_shares_or_init [OF r(1)] r show ?thesis by (intro exI [of _ es] exI [of _ Q] exI [of _ v]) auto
qed

text \<open>
  \<open>Unseal\<close> looks at the seal before it takes the mutex and not again. A share whose call had passed that
  look when another call unsealed the vault is gathered all the same, and stays in the memory of the unsealed vault.
\<close>

theorem late_share_stays:
  "\<exists>es Q v. plain_runs [M_Unseal ''00'', M_Unseal (hex_encode (ones 32)), M_Rekey 2 2]
      (fresh_vault one_share_store (ones 400)) es (Q, v) \<and> \<not> sealed v \<and> unseal_shares v = [[0]]"
  using play_runs [OF late_share_run] unfolding sealed_def by (elim exE conjE) (intro exI conjI, assumption, simp_all)

text \<open>
  \<open>InitWrapped\<close> looks for a barrier before it writes its own, and the write replaces. Two initialisations
  that overlap both succeed, and the key in memory, under which secrets are then stored, is one the stored
  barrier does not yield under any master key: no share gives it back once the vault is sealed.
\<close>

theorem overlapping_inits_diverge:
  "\<exists>es Q v enc md key. plain_runs [M_Init 1 1 Some, M_Init 1 1 Some] (fresh_vault empty_pg two_entropies) es (Q, v) \<and>
    map returned Q = [Some (Inr ()), Some (Inr ())] \<and> barrier_key v = Some key \<and>
    pg_barrier (vstore v) = Some (enc, md) \<and> (\<forall>mek. decrypt plain_platform mek enc \<noteq> Inr key)"
proof -
  obtain es Q v where r: "plain_runs [M_Init 1 1 Some, M_Init 1 1 Some] (fresh_vault empty_pg two_entropies) es (Q, v)"
    "map returned Q = [Some (Inr ()), Some (Inr ())]" "barrier_key v = Some (ones 32)"
    "map_option fst (pg_barrier (vstore v)) = Some (replicate (nonce_size + 32) 2)"
    using play_runs [OF two_inits_run] by (elim exE conjE)
  then obtain md where md: "pg_barrier (vstore v) = Some (replicate (nonce_size + 32) 2, md)" by auto
  have d: "decrypt plain_platform mek (replicate (nonce_size + 32) 2) \<noteq> Inr (ones 32)" for mek
    by (auto simp: decrypt_def plain_platform_def ones_def)
  show ?thesis by (intro exI conjI allI) (rule r(1) r(2) r(3) md d)+
qed

end
