(* ===== verification/Go_Strings.thy ===== *)
theory Go_Strings
  imports Go_Std
begin

text \<open>
  More of Go's standard library on byte strings: \<^verbatim>\<open>strings.Split\<close> and \<open>Join\<close> by a one-byte
  separator, \<open>Cut\<close>, \<open>ToLower\<close> (its ASCII part), \<^verbatim>\<open>strconv.Atoi\<close> and \<open>Itoa\<close>, \<^verbatim>\<open>path.Clean\<close>, and 64-bit
  wrap-around of Go's \<open>int\<close> and \<open>time.Duration\<close>.
\<close>

section \<open>Splitting and joining\<close>

fun split_on :: "char \<Rightarrow> string \<Rightarrow> string list" where
  "split_on sep [] = [[]]"
| "split_on sep (c # s) =
    (if c = sep then [] # split_on sep s
     else case split_on sep s of [] \<Rightarrow> [[c]] | w # ws \<Rightarrow> (c # w) # ws)"

fun join_with :: "char \<Rightarrow> string list \<Rightarrow> string" where
  "join_with sep [] = []"
| "join_with sep [w] = w"
| "join_with sep (w # ws) = w @ sep # join_with sep ws"

named_theorems split_simps \<open>splitting and joining\<close>

lemma split_on_nonempty [simp]: "split_on sep s \<noteq> []"
  by (induction s) (auto split: list.splits)

lemma join_split [split_simps, simp]: "join_with sep (split_on sep s) = s"
proof (induction s)
  case (Cons c s)
  then show ?case by (cases "split_on sep s"; cases "tl (split_on sep s)") auto
qed simp

lemma split_on_free: "sep \<notin> set w \<Longrightarrow> split_on sep w = [w]"
  by (induction w) auto

lemma split_on_append: "sep \<notin> set w \<Longrightarrow> split_on sep (w @ sep # s) = w # split_on sep s"
  by (induction w) auto

lemma split_join [split_simps]:
  "ws \<noteq> [] \<Longrightarrow> \<forall>w \<in> set ws. sep \<notin> set w \<Longrightarrow> split_on sep (join_with sep ws) = ws"
  by (induction ws rule: join_with.induct) (auto simp: split_on_free split_on_append)

lemma split_on_parts: "w \<in> set (split_on sep s) \<Longrightarrow> sep \<notin> set w"
  by (induction s arbitrary: w) (auto split: list.splits if_splits)

lemma split_on_subset: "w \<in> set (split_on sep s) \<Longrightarrow> set w \<subseteq> set s"
proof (induction s arbitrary: w)
  case (Cons c s)
  then show ?case by (fastforce split: list.splits if_splits)
qed simp

lemma split_on_inj: "split_on sep a = split_on sep b \<longleftrightarrow> a = b"
  by (metis join_split)

lemma set_join_with: "set (join_with sep ws) \<subseteq> insert sep (\<Union>w \<in> set ws. set w)"
  by (induction ws rule: join_with.induct) auto

text \<open>\<open>strings.CutPrefix\<close>, \<open>CutSuffix\<close>, \<open>Cut\<close>, \<open>TrimPrefix\<close> and \<open>Contains\<close>.\<close>

definition cut_prefix :: "string \<Rightarrow> string \<Rightarrow> string option" where
  "cut_prefix pre s = (if prefix pre s then Some (drop (length pre) s) else None)"

definition cut_suffix :: "string \<Rightarrow> string \<Rightarrow> string option" where
  "cut_suffix suf s = (if suffix suf s then Some (take (length s - length suf) s) else None)"

definition trim_prefix :: "string \<Rightarrow> string \<Rightarrow> string" where
  "trim_prefix pre s = (case cut_prefix pre s of None \<Rightarrow> s | Some r \<Rightarrow> r)"

definition cut_at :: "char \<Rightarrow> string \<Rightarrow> string \<times> string \<times> bool" where
  "cut_at c s = (let b = takeWhile (\<lambda>x. x \<noteq> c) s
    in if length b < length s then (b, drop (length b + 1) s, True) else (s, [], False))"

definition contains_str :: "string \<Rightarrow> string \<Rightarrow> bool" where
  "contains_str s sub = sublist sub s"

lemma cut_prefix_Some: "cut_prefix pre s = Some r \<longleftrightarrow> s = pre @ r"
  by (auto simp: cut_prefix_def prefix_def)

lemma sublist_join:
  assumes "w \<in> set ws"
  shows "sublist w (join_with sep ws)"
  using assms
proof (induction ws rule: join_with.induct)
  case (3 sep w1 w2 ws)
  show ?case
  proof (cases "w = w1")
    case True
    then show ?thesis by simp
  next
    case False
    with 3 have "sublist w (join_with sep (w2 # ws))" by simp
    then have "sublist w ((w1 @ [sep]) @ join_with sep (w2 # ws))" by (simp only: sublist_append simp_thms)
    then show ?thesis by simp
  qed
qed simp_all

lemma contains_char: "contains_str s [c] \<longleftrightarrow> c \<in> set s"
  by (auto simp: contains_str_def sublist_def in_set_conv_decomp)

section \<open>Numbers and case\<close>

definition lower_char :: "char \<Rightarrow> char" where
  "lower_char c = (let n = of_char c :: nat in if 65 \<le> n \<and> n \<le> 90 then char_of (n + 32) else c)"

definition to_lower :: "string \<Rightarrow> string" where
  "to_lower s = map lower_char s"

definition is_digit :: "char \<Rightarrow> bool" where
  "is_digit c \<longleftrightarrow> c \<in> set ''0123456789''"

definition digit_value :: "char \<Rightarrow> nat" where
  "digit_value c = of_char c - 48"

definition decimal :: "string \<Rightarrow> nat" where
  "decimal s = foldl (\<lambda>n c. 10 * n + digit_value c) 0 s"

text \<open>Go's \<open>int\<close> is 64 bits wide: results wrap, and \<open>Atoi\<close> refuses what does not fit.\<close>

definition wrap64 :: "int \<Rightarrow> int" where
  "wrap64 i = (i + 2 ^ 63) mod 2 ^ 64 - 2 ^ 63"

definition fits64 :: "int \<Rightarrow> bool" where
  "fits64 i \<longleftrightarrow> - (2 ^ 63) \<le> i \<and> i < 2 ^ 63"

lemma wrap64_fits [simp]: "fits64 (wrap64 i)"
  unfolding fits64_def wrap64_def by (simp add: algebra_simps)

lemma wrap64_id [simp]: "fits64 i \<Longrightarrow> wrap64 i = i"
  by (simp add: fits64_def wrap64_def)

definition atoi :: "string \<Rightarrow> int option" where
  "atoi s =
    (let (neg, ds) = (case s of [] \<Rightarrow> (False, []) | c # r \<Rightarrow>
        if c = CHR ''-'' then (True, r) else if c = CHR ''+'' then (False, r) else (False, s))
     in if ds = [] \<or> \<not> list_all is_digit ds then None
     else let i = (if neg then - int (decimal ds) else int (decimal ds))
       in if fits64 i then Some i else None)"

lemma atoi_fits: "atoi s = Some i \<Longrightarrow> fits64 i"
  by (auto simp: atoi_def Let_def split: prod.splits if_splits)

text \<open>Decimal text of an integer, as \<open>strconv.Itoa\<close> writes it.\<close>

fun itoa_nat :: "nat \<Rightarrow> string" where
  "itoa_nat n = (if n < 10 then [char_of (n + 48)] else itoa_nat (n div 10) @ [char_of (n mod 10 + 48)])"

definition itoa :: "int \<Rightarrow> string" where
  "itoa i = (if i < 0 then CHR ''-'' # itoa_nat (nat (- i)) else itoa_nat (nat i))"

section \<open>\<^verbatim>\<open>path.Clean\<close>\<close>

text \<open>The stack of segments kept so far, innermost first; an empty segment and \<open>.\<close> vanish.\<close>

fun clean_loop :: "bool \<Rightarrow> string list \<Rightarrow> string list \<Rightarrow> string list" where
  "clean_loop rooted out [] = rev out"
| "clean_loop rooted out (seg # segs) =
    (if seg = [] \<or> seg = ''.'' then clean_loop rooted out segs
     else if seg = ''..'' then
       (if out \<noteq> [] \<and> hd out \<noteq> ''..'' then clean_loop rooted (tl out) segs
        else if rooted then clean_loop rooted out segs
        else clean_loop rooted (seg # out) segs)
     else clean_loop rooted (seg # out) segs)"

definition path_clean :: "string \<Rightarrow> string" where
  "path_clean p =
    (let rooted = prefix ''/'' p; segs = clean_loop rooted [] (split_on CHR ''/'' p)
     in if rooted then CHR ''/'' # join_with CHR ''/'' segs
     else if segs = [] then ''.'' else join_with CHR ''/'' segs)"

lemma clean_loop_plain:
  "\<forall>seg \<in> set segs. seg \<noteq> [] \<and> seg \<noteq> ''.'' \<and> seg \<noteq> ''..'' \<Longrightarrow> clean_loop rooted out segs = rev out @ segs"
  by (induction segs arbitrary: out) auto

lemma clean_loop_filter:
  "\<forall>seg \<in> set segs. seg \<noteq> ''..'' \<Longrightarrow>
    clean_loop rooted out segs = rev out @ filter (\<lambda>s. s \<noteq> [] \<and> s \<noteq> ''.'') segs"
  by (induction segs arbitrary: out) auto

lemma clean_loop_all:
  assumes "list_all Q out" "list_all R segs"
    and q: "\<And>seg. R seg \<Longrightarrow> seg \<noteq> [] \<Longrightarrow> seg \<noteq> ''.'' \<Longrightarrow> (seg = ''..'' \<Longrightarrow> \<not> rooted) \<Longrightarrow> Q seg"
  shows "list_all Q (clean_loop rooted out segs)"
  using assms(1,2)
proof (induction segs arbitrary: out)
  case Nil
  then show ?case by (simp add: list_all_iff)
next
  case (Cons seg segs)
  have tl: "list_all Q (tl out)" using Cons.prems(1) by (cases out) simp_all
  have r: "list_all R segs" "R seg" using Cons.prems(2) by simp_all
  consider "seg = [] \<or> seg = ''.''" | "seg = ''..''" "out \<noteq> [] \<and> hd out \<noteq> ''..''"
    | "seg = ''..''" "\<not> (out \<noteq> [] \<and> hd out \<noteq> ''..'')" rooted
    | "seg \<noteq> []" "seg \<noteq> ''.''" "seg = ''..'' \<longrightarrow> \<not> rooted \<and> \<not> (out \<noteq> [] \<and> hd out \<noteq> ''..'')" by blast
  then show ?case
  proof cases
    case 1
    with Cons.IH [OF Cons.prems(1) r(1)] show ?thesis by simp
  next
    case 2
    with Cons.IH [OF tl r(1)] show ?thesis by simp
  next
    case 3
    with Cons.IH [OF Cons.prems(1) r(1)] show ?thesis by auto
  next
    case 4
    then have "Q seg" using q r(2) by blast
    with Cons.IH [of "seg # out"] Cons.prems(1) r(1) 4 show ?thesis by auto
  qed
qed

abbreviation plain_segment :: "string \<Rightarrow> bool" where
  "plain_segment seg \<equiv> seg \<noteq> [] \<and> seg \<noteq> ''.'' \<and> seg \<noteq> ''..''"

lemma clean_rooted_plain:
  "list_all (\<lambda>seg. plain_segment seg \<and> CHR ''/'' \<notin> set seg) (clean_loop True [] (split_on CHR ''/'' s))"
  by (rule clean_loop_all [where R = "\<lambda>seg. CHR ''/'' \<notin> set seg"]) (auto simp: list_all_iff dest: split_on_parts)

text \<open>A rooted path is its own cleaning exactly when no segment after the root is empty, \<open>.\<close> or \<open>..\<close>.\<close>

lemma path_clean_rooted:
  "path_clean (CHR ''/'' # s) = CHR ''/'' # join_with CHR ''/'' (clean_loop True [] (split_on CHR ''/'' s))"
  by (simp add: path_clean_def Let_def)

lemma path_clean_fix:
  assumes "\<forall>seg \<in> set (split_on CHR ''/'' s). plain_segment seg"
  shows "path_clean (CHR ''/'' # s) = CHR ''/'' # s"
  using clean_loop_plain [OF assms] by (simp add: path_clean_rooted)

lemma path_clean_idem: "path_clean (path_clean (CHR ''/'' # s)) = path_clean (CHR ''/'' # s)"
proof -
  let ?segs = "clean_loop True [] (split_on CHR ''/'' s)"
  note ok = clean_rooted_plain [of s, unfolded list_all_iff]
  show ?thesis
  proof (cases "?segs = []")
    case True
    then show ?thesis by (simp add: path_clean_rooted)
  next
    case False
    from ok split_join [OF False] have "split_on CHR ''/'' (join_with CHR ''/'' ?segs) = ?segs" by blast
    with ok path_clean_fix [of "join_with CHR ''/'' ?segs"] show ?thesis by (simp add: path_clean_rooted)
  qed
qed

end
