(* ===== verification/Auth.thy ===== *)
theory Auth
  imports Go_Strings
begin

text \<open>
  Roles, scopes and lifetimes of \<^verbatim>\<open>internal/auth\<close>: the platform, organisation and project role tables
  (\<^verbatim>\<open>rbac.go\<close>, \<^verbatim>\<open>org_rbac.go\<close>), the access token with its comma-separated scopes (\<^verbatim>\<open>scopes.go\<close>),
  the parsing of a requested lifetime (\<^verbatim>\<open>pat_expiry.go\<close>) and the token that authenticates a request
  (\<^verbatim>\<open>middleware.go\<close>). Times and durations are nanoseconds; a role is the string the database holds.
\<close>

section \<open>Platform roles\<close>

datatype permission =
    Provision | Delete_Perm | View_Instances | View_Credentials | Manage_Backups | Restore_Perm
  | Apply_Migrations | Manage_Snapshots | Manage_Setup | Manage_Users | Manage_Functions | View_Any
  | Manage_Orgs

definition role_permissions :: "(string \<times> permission list) list" where
  "role_permissions =
    [(''platform_admin'', [Provision, Delete_Perm, View_Instances, View_Credentials, Manage_Backups, Restore_Perm,
        Apply_Migrations, Manage_Snapshots, Manage_Setup, Manage_Users, Manage_Functions, View_Any, Manage_Orgs]),
     (''platform_operator'', [Provision, Delete_Perm, View_Instances, View_Credentials, Manage_Backups,
        Apply_Migrations, Manage_Snapshots, Manage_Functions, View_Any]),
     (''platform_viewer'', [View_Instances, View_Any]),
     (''user'', [])]"

definition has_permission :: "string \<Rightarrow> permission \<Rightarrow> bool" where
  "has_permission role perm = (case map_of role_permissions role of None \<Rightarrow> False | Some ps \<Rightarrow> perm \<in> set ps)"

definition is_valid_platform_role :: "string \<Rightarrow> bool" where
  "is_valid_platform_role role \<longleftrightarrow> map_of role_permissions role \<noteq> None"

section \<open>Organisation and project roles\<close>

datatype org_permission = Manage_Members | Create_Project | Delete_Project | Update_Org | Delete_Org | View_Projects

definition org_role_permissions :: "(string \<times> org_permission list) list" where
  "org_role_permissions =
    [(''owner'', [Manage_Members, Create_Project, Delete_Project, Update_Org, Delete_Org, View_Projects]),
     (''admin'', [Manage_Members, Create_Project, Delete_Project, Update_Org, View_Projects]),
     (''developer'', [View_Projects]),
     (''viewer'', [View_Projects])]"

definition has_org_permission :: "string \<Rightarrow> org_permission \<Rightarrow> bool" where
  "has_org_permission role perm =
    (case map_of org_role_permissions role of None \<Rightarrow> False | Some ps \<Rightarrow> perm \<in> set ps)"

definition org_role_rank :: "string \<Rightarrow> nat" where
  "org_role_rank role =
    (if role = ''owner'' then 4 else if role = ''admin'' then 3 else if role = ''developer'' then 2
     else if role = ''viewer'' then 1 else 0)"

definition org_role_at_least :: "string \<Rightarrow> string \<Rightarrow> bool" where
  "org_role_at_least have want = (let h = org_role_rank have in h > 0 \<and> h \<ge> org_role_rank want)"

datatype project_permission = DDL | DML | Read_Perm | Manage_Perm

definition project_role_permissions :: "(string \<times> project_permission list) list" where
  "project_role_permissions =
    [(''admin'', [DDL, DML, Read_Perm, Manage_Perm]), (''editor'', [DML, Read_Perm]), (''viewer'', [Read_Perm])]"

definition has_project_permission :: "string \<Rightarrow> project_permission \<Rightarrow> bool" where
  "has_project_permission role perm =
    (case map_of project_role_permissions role of None \<Rightarrow> False | Some ps \<Rightarrow> perm \<in> set ps)"

section \<open>Users and access tokens\<close>

record user =
  user_id :: string
  user_name :: string
  user_role :: string
  user_active :: bool
  user_kind :: string

definition is_service :: "user \<Rightarrow> bool" where
  "is_service u \<longleftrightarrow> user_kind u = ''service''"

definition human_users :: "user list \<Rightarrow> user list" where
  "human_users us = filter (\<lambda>u. \<not> is_service u) us"

record access_token =
  token_hash :: string
  token_user :: string
  token_scopes :: string
  token_project :: string
  token_permissions :: "string list"
  token_created :: "int option"
  token_expires :: "int option"
  token_last_used :: "int option"

definition is_capability_token :: "access_token option \<Rightarrow> bool" where
  "is_capability_token t = (case t of None \<Rightarrow> False | Some t \<Rightarrow> token_permissions t \<noteq> [])"

section \<open>Scopes\<close>

definition scope_session :: string where "scope_session = ''session''"
definition scope_read :: string where "scope_read = ''read''"
definition scope_write :: string where "scope_write = ''write''"
definition scope_admin :: string where "scope_admin = ''admin''"
definition scope_metrics_read :: string where "scope_metrics_read = ''metrics:read''"

lemmas scope_defs = scope_session_def scope_read_def scope_write_def scope_admin_def scope_metrics_read_def

definition creatable_scopes :: "string list" where
  "creatable_scopes = [scope_read, scope_write, scope_admin]"

definition write_scopes :: "string list" where
  "write_scopes = [scope_session, scope_write, scope_admin]"

text \<open>A Go map used as a set of strings, then sorted: insertion keeps one of each.\<close>

fun seen_scopes :: "string list \<Rightarrow> string list \<Rightarrow> string list option" where
  "seen_scopes seen [] = Some seen"
| "seen_scopes seen (raw # rest) =
    (let scope = trim_space raw
     in if scope \<notin> set creatable_scopes then None
        else seen_scopes (if scope \<in> set seen then seen else scope # seen) rest)"

definition normalize_scopes :: "string list \<Rightarrow> string option" where
  "normalize_scopes requested =
    (case seen_scopes [] requested of None \<Rightarrow> None | Some seen \<Rightarrow> Some (join_with CHR '','' (sort seen)))"

definition scope_set :: "string \<Rightarrow> string set" where
  "scope_set scopes = set (filter (\<lambda>s. s \<noteq> []) (map trim_space (split_on CHR '','' scopes)))"

definition token_has_scope :: "access_token option \<Rightarrow> string \<Rightarrow> bool" where
  "token_has_scope t scope = (case t of
     None \<Rightarrow> False
   | Some t \<Rightarrow> token_scopes t = [] \<or> scope \<in> set (map trim_space (split_on CHR '','' (token_scopes t))))"

definition is_metrics_key :: "access_token option \<Rightarrow> bool" where
  "is_metrics_key t = (case t of None \<Rightarrow> False | Some t \<Rightarrow> scope_metrics_read \<in> scope_set (token_scopes t))"

definition token_bound_to_project :: "access_token option \<Rightarrow> string \<Rightarrow> bool" where
  "token_bound_to_project t project_id = (case t of
     None \<Rightarrow> True
   | Some t \<Rightarrow> token_project t = [] \<or> token_project t = project_id)"

definition token_can_write :: "access_token option \<Rightarrow> bool" where
  "token_can_write t = (case t of
     None \<Rightarrow> True
   | Some a \<Rightarrow> token_scopes a = [] \<or> list_ex (token_has_scope t) write_scopes)"

datatype http_method = GET | HEAD | POST | PUT | PATCH | DELETE | OPTIONS | Other_Method string

definition token_allows_method :: "access_token option \<Rightarrow> http_method \<Rightarrow> bool" where
  "token_allows_method t m \<longleftrightarrow> m = GET \<or> m = HEAD \<or> m = OPTIONS \<or> token_can_write t"

definition token_may_reveal_secrets :: "access_token option \<Rightarrow> bool" where
  "token_may_reveal_secrets t \<longleftrightarrow> is_capability_token t \<or> token_can_write t"

definition is_session_token :: "access_token option \<Rightarrow> bool" where
  "is_session_token t = (case t of
     None \<Rightarrow> False
   | Some t \<Rightarrow> token_scopes t \<noteq> [] \<and> scope_session \<in> scope_set (token_scopes t))"

definition is_unrestricted_credential :: "access_token option \<Rightarrow> bool" where
  "is_unrestricted_credential t = (case t of
     None \<Rightarrow> False
   | Some a \<Rightarrow> \<not> is_capability_token t \<and> (is_session_token t \<or> token_scopes a = [] \<and> token_project a = []))"

definition scopes_subset_of :: "string \<Rightarrow> string \<Rightarrow> bool" where
  "scopes_subset_of requested holder \<longleftrightarrow>
    holder = [] \<or> requested \<noteq> [] \<and> scope_set requested \<subseteq> scope_set holder"

definition project_binding_within :: "string \<Rightarrow> string \<Rightarrow> bool" where
  "project_binding_within requested holder \<longleftrightarrow> holder = [] \<or> requested = holder"

section \<open>Lifetimes\<close>

definition nanos_per_hour :: int where
  "nanos_per_hour = 3600000000000"

definition default_pat_lifetime :: int where
  "default_pat_lifetime = 90 * 24 * nanos_per_hour"

definition max_pat_lifetime :: int where
  "max_pat_lifetime = 365 * 24 * nanos_per_hour"

definition last_used_throttle :: int where
  "last_used_throttle = 60000000000"

datatype pat_lifetime = Never | Lifetime int

text \<open>
  \<^verbatim>\<open>time.ParseDuration\<close>: a sign, then numbers with units, summed in a \<open>uint64\<close> that may not pass
  \<open>2 ^ 63\<close>. \<open>frac\<close> is the floating point product of a fraction's digits, its scale and the unit,
  truncated to nanoseconds.
\<close>

definition unit_map :: "(string \<times> nat) list" where
  "unit_map = [(''ns'', 1), (''us'', 1000), ([CHR 0xC2, CHR 0xB5, CHR ''s''], 1000),
    ([CHR 0xCE, CHR 0xBC, CHR ''s''], 1000), (''ms'', 1000000), (''s'', 1000000000),
    (''m'', 60000000000), (''h'', 3600000000000)]"

fun leading_int :: "nat \<Rightarrow> string \<Rightarrow> (nat \<times> string) option" where
  "leading_int x [] = Some (x, [])"
| "leading_int x (c # s) =
    (if \<not> is_digit c then Some (x, c # s)
     else if x > 2 ^ 63 div 10 then None
     else let x' = x * 10 + digit_value c in if x' > 2 ^ 63 then None else leading_int x' s)"

definition unit_part :: "string \<Rightarrow> string \<times> string" where
  "unit_part s = (let u = takeWhile (\<lambda>c. c \<noteq> CHR ''.'' \<and> \<not> is_digit c) s in (u, drop (length u) s))"

text \<open>One number with its unit; \<open>None\<close> is an error.\<close>

definition duration_term :: "(string \<Rightarrow> nat \<Rightarrow> nat) \<Rightarrow> string \<Rightarrow> (nat \<times> string) option" where
  "duration_term frac s =
    (case leading_int 0 s of
       None \<Rightarrow> None
     | Some (v, r) \<Rightarrow>
         let pre = length r \<noteq> length s;
           fs = (if prefix ''.'' r then takeWhile is_digit (tl r) else []);
           r' = (if prefix ''.'' r then drop (length fs) (tl r) else r)
         in if \<not> pre \<and> fs = [] then None
            else let (u, r'') = unit_part r' in
              (case map_of unit_map u of
                 None \<Rightarrow> None
               | Some n \<Rightarrow>
                   if v > 2 ^ 63 div n then None
                   else let v' = v * n + (if decimal fs > 0 then frac fs n else 0)
                     in if v' > 2 ^ 63 then None else Some (v', r'')))"

lemma leading_int_length: "leading_int x s = Some (v, r) \<Longrightarrow> length r \<le> length s"
  by (induction x s rule: leading_int.induct) (auto simp: Let_def split: if_splits)

lemma duration_term_length: "duration_term frac s = Some (v, r) \<Longrightarrow> length r < length s"
proof -
  assume h: "duration_term frac s = Some (v, r)"
  then obtain v0 r0 where l: "leading_int 0 s = Some (v0, r0)"
    by (auto simp: duration_term_def split: option.splits)
  define fs where "fs = (if prefix ''.'' r0 then takeWhile is_digit (tl r0) else [])"
  define r1 where "r1 = (if prefix ''.'' r0 then drop (length fs) (tl r0) else r0)"
  have "length r1 \<le> length r0" by (auto simp: r1_def)
  then have 1: "length r1 \<le> length s" using leading_int_length [OF l] by simp
  have 2: "map_of unit_map (fst (unit_part r1)) \<noteq> None" "r = snd (unit_part r1)"
    using h l by (auto simp: duration_term_def fs_def r1_def Let_def split: option.splits prod.splits if_splits)
  then have "fst (unit_part r1) \<noteq> []" by (auto simp: unit_map_def)
  then have "length (snd (unit_part r1)) < length r1" unfolding unit_part_def Let_def
    by (cases r1) (auto simp: less_Suc_eq_le)
  with 1 2 show ?thesis by simp
qed

function duration_terms :: "(string \<Rightarrow> nat \<Rightarrow> nat) \<Rightarrow> nat \<Rightarrow> string \<Rightarrow> nat option" where
  "duration_terms frac d s =
    (if s = [] then Some d
     else if hd s \<noteq> CHR ''.'' \<and> \<not> is_digit (hd s) then None
     else case duration_term frac s of
       None \<Rightarrow> None
     | Some (v, r) \<Rightarrow> if d + v > 2 ^ 63 then None else duration_terms frac (d + v) r)"
  by auto
termination
  by (relation "measure (\<lambda>(_, _, s). length s)") (auto dest: duration_term_length)

declare duration_terms.simps [simp del]

definition parse_duration :: "(string \<Rightarrow> nat \<Rightarrow> nat) \<Rightarrow> string \<Rightarrow> int option" where
  "parse_duration frac s =
    (let neg = prefix ''-'' s; s' = (if neg \<or> prefix ''+'' s then tl s else s)
     in if s' = ''0'' then Some 0
        else if s' = [] then None
        else case duration_terms frac 0 s' of
          None \<Rightarrow> None
        | Some d \<Rightarrow> if neg then Some (- int d) else if d > 2 ^ 63 - 1 then None else Some (int d))"

text \<open>A day count is multiplied in \<open>time.Duration\<close>, which wraps.\<close>

definition parse_days_or_duration :: "(string \<Rightarrow> nat \<Rightarrow> nat) \<Rightarrow> string \<Rightarrow> int option" where
  "parse_days_or_duration frac raw = (case cut_suffix ''d'' raw of
     Some days \<Rightarrow> map_option (\<lambda>n. wrap64 (wrap64 (n * 24) * nanos_per_hour)) (atoi days)
   | None \<Rightarrow> parse_duration frac raw)"

definition parse_expires_in :: "(string \<Rightarrow> nat \<Rightarrow> nat) \<Rightarrow> string \<Rightarrow> pat_lifetime option" where
  "parse_expires_in frac raw0 =
    (let raw = trim_space (to_lower raw0)
     in if raw = [] then Some (Lifetime default_pat_lifetime)
        else if raw = ''never'' then Some Never
        else case parse_days_or_duration frac raw of
          None \<Rightarrow> None
        | Some d \<Rightarrow> if d \<le> 0 \<or> d > max_pat_lifetime then None else Some (Lifetime d))"

definition expiry_from :: "pat_lifetime \<Rightarrow> int \<Rightarrow> int option" where
  "expiry_from l now = (case l of Never \<Rightarrow> None | Lifetime d \<Rightarrow> Some (now + d))"

definition lifetime_of :: "access_token \<Rightarrow> pat_lifetime" where
  "lifetime_of t = (case token_expires t of
     None \<Rightarrow> Never
   | Some x \<Rightarrow> (case token_created t of
       None \<Rightarrow> Lifetime default_pat_lifetime
     | Some c \<Rightarrow> Lifetime (max (- (2 ^ 63)) (min (2 ^ 63 - 1) (x - c)))))"

definition token_expired_at :: "access_token \<Rightarrow> int \<Rightarrow> bool" where
  "token_expired_at t now = (case token_expires t of None \<Rightarrow> False | Some x \<Rightarrow> now > x)"

definition last_used_stale :: "access_token \<Rightarrow> int \<Rightarrow> bool" where
  "last_used_stale t now = (case token_last_used t of None \<Rightarrow> True | Some u \<Rightarrow> now - u \<ge> last_used_throttle)"

section \<open>Authenticating a request\<close>

text \<open>
  The bearer token of the \<open>Authorization\<close> header wins over the session cookie. The digest of a raw
  token and the token and user tables are parameters; a lookup that fails reads as absent.
\<close>

record credentials_in =
  authorization :: string
  session_cookie :: "string option"

definition extract_raw_token :: "'z credentials_in_scheme \<Rightarrow> string" where
  "extract_raw_token r =
    (case cut_prefix ''Bearer '' (authorization r) of
       Some raw \<Rightarrow> raw
     | None \<Rightarrow> (case session_cookie r of Some c \<Rightarrow> c | None \<Rightarrow> []))"

record auth_context =
  ctx_user :: "user option"
  ctx_token :: "access_token option"
  ctx_failure :: string

definition anonymous :: auth_context where
  "anonymous = \<lparr>ctx_user = None, ctx_token = None, ctx_failure = []\<rparr>"

record auth_store =
  find_token :: "string \<Rightarrow> access_token option"
  find_user :: "string \<Rightarrow> user option"

definition authenticate :: "auth_store \<Rightarrow> int \<Rightarrow> string \<Rightarrow> auth_context" where
  "authenticate st now hash = (case find_token st hash of
     None \<Rightarrow> anonymous
   | Some t \<Rightarrow>
       if token_expired_at t now then anonymous\<lparr>ctx_failure := ''token_expired''\<rparr>
       else (case find_user st (token_user t) of
         None \<Rightarrow> anonymous
       | Some u \<Rightarrow> if \<not> user_active u then anonymous
           else \<lparr>ctx_user = Some u, ctx_token = Some t, ctx_failure = []\<rparr>))"

text \<open>\<open>recordLastUsed\<close>: whether the request that authenticated writes \<open>last_used\<close>.\<close>

definition records_last_used :: "auth_store \<Rightarrow> int \<Rightarrow> string \<Rightarrow> bool" where
  "records_last_used st now hash = (case ctx_token (authenticate st now hash) of
     None \<Rightarrow> False | Some t \<Rightarrow> last_used_stale t now)"

definition extract_auth :: "(string \<Rightarrow> string) \<Rightarrow> auth_store \<Rightarrow> int \<Rightarrow> 'z credentials_in_scheme \<Rightarrow> auth_context" where
  "extract_auth digest st now r =
    (let raw = extract_raw_token r in if raw = [] then anonymous else authenticate st now (digest raw))"

text \<open>The verdict of a gate: the request continues, or the status of the refusal.\<close>

datatype verdict = Pass | Refuse nat

definition and_then :: "verdict \<Rightarrow> verdict \<Rightarrow> verdict" where
  "and_then a b = (case a of Pass \<Rightarrow> b | Refuse n \<Rightarrow> Refuse n)"

lemma and_then_Pass [simp]: "and_then a b = Pass \<longleftrightarrow> a = Pass \<and> b = Pass"
  by (cases a) (auto simp: and_then_def)

lemma and_then_simps [simp]: "and_then Pass b = b" "and_then (Refuse n) b = Refuse n"
  by (simp_all add: and_then_def)

definition require_auth :: "auth_context \<Rightarrow> http_method \<Rightarrow> verdict" where
  "require_auth c m =
    (if ctx_user c = None then Refuse 401
     else if \<not> token_allows_method (ctx_token c) m then Refuse 403 else Pass)"

definition require_scope :: "string \<Rightarrow> auth_context \<Rightarrow> verdict" where
  "require_scope scope c = (if ctx_token c = None \<or> \<not> token_has_scope (ctx_token c) scope then Refuse 403 else Pass)"

definition require_unrestricted :: "auth_context \<Rightarrow> verdict" where
  "require_unrestricted c = (if is_unrestricted_credential (ctx_token c) then Pass else Refuse 403)"

definition require_unrestricted_for_writes :: "auth_context \<Rightarrow> http_method \<Rightarrow> verdict" where
  "require_unrestricted_for_writes c m = (if m = GET \<or> m = HEAD then Pass else require_unrestricted c)"

definition require_write_capable_for_secrets :: "auth_context \<Rightarrow> verdict" where
  "require_write_capable_for_secrets c = (if token_may_reveal_secrets (ctx_token c) then Pass else Refuse 403)"

definition require_permission :: "permission \<Rightarrow> auth_context \<Rightarrow> verdict" where
  "require_permission perm c = (case ctx_user c of
     None \<Rightarrow> Refuse 403
   | Some u \<Rightarrow> if has_permission (user_role u) perm then Pass else Refuse 403)"

section \<open>Roles are monotone\<close>

lemma has_permission_role: "has_permission role perm \<Longrightarrow> is_valid_platform_role role"
  by (auto simp: has_permission_def is_valid_platform_role_def split: option.splits)

lemma manage_users_admin: "has_permission role Manage_Users \<longleftrightarrow> role = ''platform_admin''"
  by (auto simp: has_permission_def role_permissions_def split: if_splits)

text \<open>
  The organisation roles form a chain: a role at or above another known one holds every permission the
  lower role has.
\<close>

theorem org_role_monotone:
  assumes "org_role_at_least have want" "has_org_permission want perm"
  shows "has_org_permission have perm"
  using assms
  by (auto simp: org_role_at_least_def org_role_rank_def has_org_permission_def org_role_permissions_def Let_def
      split: if_splits)

theorem org_role_monotone_witness: "has_org_permission ''owner'' Create_Project"
  by (rule org_role_monotone [of "''owner''" "''admin''"])
    (simp_all add: org_role_at_least_def org_role_rank_def has_org_permission_def org_role_permissions_def)

section \<open>Scopes a caller can mint\<close>

lemma seen_scopes_Some:
  "seen_scopes seen requested = Some out \<Longrightarrow>
    set out = set seen \<union> trim_space ` set requested \<and> trim_space ` set requested \<subseteq> set creatable_scopes \<and>
    (distinct seen \<longrightarrow> distinct out)"
proof (induction requested arbitrary: seen)
  case (Cons raw rest)
  then have m: "trim_space raw \<in> set creatable_scopes" by (auto simp: Let_def split: if_splits)
  let ?seen = "if trim_space raw \<in> set seen then seen else trim_space raw # seen"
  from Cons.prems m have "seen_scopes ?seen rest = Some out" by (simp add: Let_def)
  from Cons.IH [OF this] m show ?case by auto
qed simp

lemma trim_creatable: "s \<in> set creatable_scopes \<Longrightarrow> trim_space s = s \<and> s \<noteq> [] \<and> CHR '','' \<notin> set s"
  by (auto simp: creatable_scopes_def scope_defs trim_space_graphic graphic_def)

lemma scope_set_join:
  assumes "set ws \<subseteq> set creatable_scopes"
  shows "scope_set (join_with CHR '','' ws) = set ws"
proof (cases "ws = []")
  case True
  then show ?thesis by (simp add: scope_set_def)
next
  case False
  have free: "\<forall>w \<in> set ws. CHR '','' \<notin> set w" using assms trim_creatable by blast
  have "map trim_space ws = ws" using assms trim_creatable by (auto intro!: map_idI)
  then show ?thesis using assms trim_creatable split_join [OF False free] by (auto simp: scope_set_def)
qed

text \<open>
  What \<open>NormalizeScopes\<close> accepts is exactly the requested set, all of it creatable: a token minted
  with it is never a session and never a metrics key, and normalising it again changes nothing.
\<close>

theorem normalize_scopes_sound:
  assumes "normalize_scopes requested = Some s"
  shows "scope_set s = trim_space ` set requested \<and> scope_set s \<subseteq> set creatable_scopes \<and>
    \<not> is_session_token (Some (t\<lparr>token_scopes := s\<rparr>)) \<and> \<not> is_metrics_key (Some (t\<lparr>token_scopes := s\<rparr>)) \<and>
    (s = [] \<or> normalize_scopes (split_on CHR '','' s) = Some s)"
proof -
  from assms obtain out where o: "seen_scopes [] requested = Some out" "s = join_with CHR '','' (sort out)"
    by (auto simp: normalize_scopes_def split: option.splits)
  from seen_scopes_Some [OF o(1)] have set: "set out = trim_space ` set requested" "set out \<subseteq> set creatable_scopes"
    and d: "distinct out" by auto
  have ss: "scope_set s = set out" using scope_set_join [of "sort out"] set(2) o(2) by simp
  have "s = [] \<or> normalize_scopes (split_on CHR '','' s) = Some s"
  proof (cases "out = []")
    case True
    then show ?thesis using o(2) by simp
  next
    case False
    then have ne: "sort out \<noteq> []" by (metis set_empty set_sort)
    have free: "\<forall>w \<in> set (sort out). CHR '','' \<notin> set w" using set(2) trim_creatable by auto
    have sp: "split_on CHR '','' s = sort out" using split_join [OF ne free] o(2) by simp
    have tr: "trim_space ` set (sort out) = set out" using set(2) trim_creatable by force
    obtain out2 where o2: "seen_scopes [] (sort out) = Some out2"
    proof (cases "seen_scopes [] (sort out)")
      case None
      have "seen_scopes seen ws \<noteq> None" if "set ws \<subseteq> set creatable_scopes" for seen ws
        using that by (induction ws arbitrary: seen) (auto simp: Let_def trim_creatable)
      with None set(2) have False by (metis set_sort)
      then show ?thesis ..
    qed blast
    from seen_scopes_Some [OF o2] tr have "set out2 = set out" "distinct out2" by auto
    with d have "sort out2 = sort out" by (metis sorted_distinct_set_unique sorted_sort distinct_sort set_sort)
    with o2 sp o(2) show ?thesis by (simp add: normalize_scopes_def)
  qed
  moreover have "scope_session \<notin> set creatable_scopes" "scope_metrics_read \<notin> set creatable_scopes"
    by (simp_all add: creatable_scopes_def scope_defs)
  ultimately show ?thesis using ss set by (auto simp: is_session_token_def is_metrics_key_def)
qed

theorem normalize_scopes_sound_witness:
  "normalize_scopes [''read'', ''read''] = Some ''read'' \<and> scope_set ''read'' \<subseteq> set creatable_scopes"
proof -
  have "normalize_scopes [''read'', ''read''] = Some ''read''"
    by (simp add: normalize_scopes_def creatable_scopes_def scope_defs trim_space_graphic graphic_def)
  with normalize_scopes_sound [OF this] show ?thesis by blast
qed

lemma token_has_scope_set:
  "token_scopes t \<noteq> [] \<Longrightarrow> scope \<noteq> [] \<Longrightarrow> token_has_scope (Some t) scope \<longleftrightarrow> scope \<in> scope_set (token_scopes t)"
  by (auto simp: token_has_scope_def scope_set_def)

text \<open>
  A token whose only scope is \<open>read\<close> passes authentication for the safe methods and for no other, and
  unless it is a capability token it is handed no secret material.
\<close>

theorem read_only_token:
  assumes "ctx_token c = Some t" "ctx_user c \<noteq> None" "scope_set (token_scopes t) = {scope_read}"
  shows "(require_auth c m = Pass \<longleftrightarrow> m \<in> {GET, HEAD, OPTIONS}) \<and>
    (require_write_capable_for_secrets c = Pass \<longleftrightarrow> is_capability_token (Some t))"
proof -
  have ne: "token_scopes t \<noteq> []"
    using assms(3) by (auto simp: scope_set_def)
  have "\<not> token_can_write (Some t)"
    using ne assms(3) by (simp add: token_can_write_def write_scopes_def token_has_scope_set scope_defs)
  with assms show ?thesis
    by (simp add: require_auth_def token_allows_method_def require_write_capable_for_secrets_def token_may_reveal_secrets_def)
qed

definition example_token :: "string \<Rightarrow> string list \<Rightarrow> access_token" where
  "example_token scopes perms = \<lparr>token_hash = ''h'', token_user = ''u'', token_scopes = scopes, token_project = [],
    token_permissions = perms, token_created = None, token_expires = None, token_last_used = None\<rparr>"

definition example_user :: "string \<Rightarrow> user" where
  "example_user role = \<lparr>user_id = ''u'', user_name = ''u'', user_role = role, user_active = True, user_kind = ''human''\<rparr>"

definition example_ctx :: "string \<Rightarrow> access_token \<Rightarrow> auth_context" where
  "example_ctx role t = \<lparr>ctx_user = Some (example_user role), ctx_token = Some t, ctx_failure = []\<rparr>"

theorem read_only_token_witness:
  "require_auth (example_ctx ''user'' (example_token ''read'' [])) POST \<noteq> Pass"
proof -
  have "scope_set ''read'' = {scope_read}"
    by (simp add: scope_set_def scope_defs trim_space_graphic graphic_def)
  with read_only_token [of "example_ctx ''user'' (example_token ''read'' [])" "example_token ''read'' []" POST]
  show ?thesis by (simp add: example_ctx_def example_token_def)
qed

section \<open>Lifetimes are bounded\<close>

text \<open>
  A personal access token's lifetime is positive and at most 365 days, or never ends, whatever the
  request says.
\<close>

theorem parse_expires_in_bounds:
  "case parse_expires_in frac raw of
     Some (Lifetime d) \<Rightarrow> 0 < d \<and> d \<le> max_pat_lifetime
   | Some Never \<Rightarrow> trim_space (to_lower raw) = ''never''
   | None \<Rightarrow> True"
  by (auto simp: parse_expires_in_def Let_def default_pat_lifetime_def max_pat_lifetime_def nanos_per_hour_def
      split: option.splits)

text \<open>
  The day count is multiplied before it is checked and the product wraps: 213504 days, over 584 years, is
  accepted, as a lifetime of about 25 minutes.
\<close>

theorem parse_expires_in_wraps:
  "parse_expires_in frac ''213504d'' = Some (Lifetime 1526290448384)"
proof -
  have "to_lower ''213504d'' = ''213504d''" by (simp add: to_lower_def lower_char_def)
  moreover have "trim_space ''213504d'' = ''213504d''" by (simp add: trim_space_graphic graphic_def)
  ultimately have t: "trim_space (to_lower ''213504d'') = ''213504d''" by simp
  have "cut_suffix ''d'' ''213504d'' = Some ''213504''" by (simp add: cut_suffix_def suffix_def)
  moreover have "atoi ''213504'' = Some 213504"
    by (simp add: atoi_def is_digit_def decimal_def digit_value_def fits64_def)
  ultimately show ?thesis
    by (simp add: parse_expires_in_def t parse_days_or_duration_def wrap64_def nanos_per_hour_def max_pat_lifetime_def)
qed

end
