(* ===== verification/Capability.thy ===== *)
theory Capability
  imports Auth
begin

text \<open>
  Capability tokens (\<^verbatim>\<open>internal/auth/capability.go\<close>): the grammar of one permission, what a granted
  capability covers, and what a token's permission list grants.
\<close>

section \<open>The grammar\<close>

record capability =
  cap_resource :: string
  cap_action :: string
  cap_selector :: string

definition self_capability :: capability where
  "self_capability = \<lparr>cap_resource = ''self'', cap_action = ''read'', cap_selector = []\<rparr>"

definition name_char :: "char \<Rightarrow> bool" where
  "name_char c \<longleftrightarrow> c \<in> set ''abcdefghijklmnopqrstuvwxyz0123456789_-''"

definition validate_name :: "string \<Rightarrow> bool" where
  "validate_name name \<longleftrightarrow> name \<noteq> [] \<and> list_all name_char name"

text \<open>One pass over the segments: the error cases, and the number of wildcards.\<close>

fun count_wildcards :: "string list \<Rightarrow> nat option" where
  "count_wildcards [] = Some 0"
| "count_wildcards (seg # segs) =
    (if seg = [] \<or> seg = ''.'' then None
     else if seg = ''*'' then map_option Suc (count_wildcards segs)
     else if contains_str seg ''*'' then None
     else count_wildcards segs)"

definition validate_selector :: "string \<Rightarrow> bool" where
  "validate_selector selector =
    (if selector = [] then True
     else if contains_str selector ''..'' then False
     else let segments = split_on CHR ''/'' selector
       in case count_wildcards segments of None \<Rightarrow> False | Some n \<Rightarrow> n \<noteq> length segments)"

definition parse_capability :: "string \<Rightarrow> capability option" where
  "parse_capability raw =
    (case split_on CHR '':'' (trim_space raw) of
       [r, a] \<Rightarrow> if validate_name r \<and> validate_name a
         then Some \<lparr>cap_resource = r, cap_action = a, cap_selector = []\<rparr> else None
     | [r, a, s] \<Rightarrow> if validate_name r \<and> validate_name a \<and> validate_selector s
         then Some \<lparr>cap_resource = r, cap_action = a, cap_selector = s\<rparr> else None
     | _ \<Rightarrow> None)"

definition capability_string :: "capability \<Rightarrow> string" where
  "capability_string c = join_with CHR '':''
    ([cap_resource c, cap_action c] @ (if cap_selector c = [] then [] else [cap_selector c]))"

section \<open>Granting\<close>

definition is_concrete_segment :: "string \<Rightarrow> bool" where
  "is_concrete_segment seg \<longleftrightarrow> seg \<noteq> [] \<and> seg \<noteq> ''.'' \<and> seg \<noteq> ''..''"

fun segments_match :: "string list \<Rightarrow> string list \<Rightarrow> bool" where
  "segments_match [] [] = True"
| "segments_match (p # ps) (w # ws) =
    ((if p = ''*'' then is_concrete_segment w else p = w) \<and> segments_match ps ws)"
| "segments_match _ _ = False"

definition selector_matches :: "string \<Rightarrow> string \<Rightarrow> bool" where
  "selector_matches pattern want = segments_match (split_on CHR ''/'' pattern) (split_on CHR ''/'' want)"

definition grants :: "capability \<Rightarrow> capability \<Rightarrow> bool" where
  "grants c want =
    (if cap_resource c \<noteq> cap_resource want \<or> cap_action c \<noteq> cap_action want then False
     else if \<not> contains_str (cap_selector c) ''*'' then cap_selector c = cap_selector want
     else selector_matches (cap_selector c) (cap_selector want))"

fun seen_capabilities :: "string list \<Rightarrow> string list \<Rightarrow> string list option" where
  "seen_capabilities seen [] = Some seen"
| "seen_capabilities seen (raw # rest) =
    (case parse_capability raw of
       None \<Rightarrow> None
     | Some c \<Rightarrow> let s = capability_string c
         in seen_capabilities (if s \<in> set seen then seen else s # seen) rest)"

definition normalize_capabilities :: "string list \<Rightarrow> string list option" where
  "normalize_capabilities requested = map_option sort (seen_capabilities [] requested)"

section \<open>The platform's own capabilities\<close>

definition manage_service_tokens :: "string \<Rightarrow> capability" where
  "manage_service_tokens name =
    \<lparr>cap_resource = ''service-tokens'', cap_action = ''manage'', cap_selector = name\<rparr>"

definition vault_init_capability :: capability where
  "vault_init_capability = \<lparr>cap_resource = ''vault'', cap_action = ''init'', cap_selector = []\<rparr>"

definition vault_unseal_capability :: capability where
  "vault_unseal_capability = \<lparr>cap_resource = ''vault'', cap_action = ''unseal'', cap_selector = []\<rparr>"

definition manages_service_tokens :: "access_token option \<Rightarrow> bool" where
  "manages_service_tokens t = (case t of
     None \<Rightarrow> False
   | Some a \<Rightarrow> is_capability_token t \<and> list_ex (\<lambda>raw. case parse_capability raw of
       None \<Rightarrow> False
     | Some c \<Rightarrow> cap_resource c = ''service-tokens'' \<and> cap_action c = ''manage'') (token_permissions a))"

definition delegable :: "capability \<Rightarrow> bool" where
  "delegable c =
    (if cap_resource c = ''service-tokens'' then False
     else cap_resource c \<noteq> ''vault'' \<or> cap_action c \<noteq> ''init'' \<and> cap_action c \<noteq> ''unseal'')"

definition token_grants :: "access_token option \<Rightarrow> capability \<Rightarrow> bool" where
  "token_grants t want = (case t of
     None \<Rightarrow> False
   | Some a \<Rightarrow> if \<not> is_capability_token t then False
     else if want = self_capability then True
     else list_ex (\<lambda>raw. case parse_capability raw of None \<Rightarrow> False | Some c \<Rightarrow> grants c want) (token_permissions a))"

section \<open>Parsing and printing\<close>

lemma name_char_not: "name_char c \<Longrightarrow> c \<noteq> CHR '':'' \<and> graphic c"
proof -
  have "\<forall>c \<in> set ''abcdefghijklmnopqrstuvwxyz0123456789_-''. c \<noteq> CHR '':'' \<and> graphic c"
    by (simp add: graphic_def)
  then show "name_char c \<Longrightarrow> c \<noteq> CHR '':'' \<and> graphic c" unfolding name_char_def by blast
qed

lemma validate_nameD:
  assumes "validate_name n"
  shows "n \<noteq> []" "CHR '':'' \<notin> set n" "graphic (hd n)" "graphic (last n)"
proof -
  from assms have n: "n \<noteq> []" "\<And>c. c \<in> set n \<Longrightarrow> name_char c" by (simp_all add: validate_name_def list_all_iff)
  show "n \<noteq> []" by (rule n)
  show "CHR '':'' \<notin> set n" using n(2) name_char_not by blast
  show "graphic (hd n)" "graphic (last n)"
    using name_char_not [OF n(2)] hd_in_set [OF n(1)] last_in_set [OF n(1)] by blast+
qed

text \<open>What a string ends with after trimming cannot be trimmed again.\<close>

lemma trim_left_of_done:
  "find (\<lambda>sp. sp \<noteq> [] \<and> prefix sp (trim_left_of sps s)) sps = None"
proof (induction sps s rule: trim_left_of.induct)
  case (1 sps s)
  show ?case
  proof (cases "find (\<lambda>sp. sp \<noteq> [] \<and> prefix sp s) sps")
    case None
    then show ?thesis by (subst trim_left_of.simps) simp
  next
    case (Some sp)
    with 1 show ?thesis by (subst trim_left_of.simps) simp
  qed
qed

lemma trim_left_of_stuck: "find (\<lambda>sp. sp \<noteq> [] \<and> prefix sp s) sps = None \<Longrightarrow> trim_left_of sps s = s"
  by (subst trim_left_of.simps) simp

lemma trim_space_idem_graphic:
  assumes "graphic (hd (trim_space raw))" "trim_space raw \<noteq> []"
  shows "trim_space (trim_space raw) = trim_space raw"
proof -
  let ?t = "trim_space raw"
  have "trim_left_of space_encodings ?t = ?t" using assms by (intro trim_left_graphic) auto
  moreover have "trim_left_of (map rev space_encodings) (rev ?t) = rev ?t"
    using trim_left_of_done [of "map rev space_encodings" "rev (trim_left_of space_encodings raw)"]
    by (intro trim_left_of_stuck) (simp add: trim_space_def Let_def)
  ultimately show ?thesis by (simp add: trim_space_def Let_def)
qed

lemma parse_capability_Some:
  assumes "parse_capability raw = Some c"
  shows "validate_name (cap_resource c)" "validate_name (cap_action c)" "validate_selector (cap_selector c)"
    "CHR '':'' \<notin> set (cap_selector c)"
    "trim_space raw = capability_string c \<or> cap_selector c = [] \<and> trim_space raw = capability_string c @ '':''"
proof -
  let ?parts = "split_on CHR '':'' (trim_space raw)"
  have j: "trim_space raw = join_with CHR '':'' ?parts" by simp
  have free: "\<forall>w \<in> set ?parts. CHR '':'' \<notin> set w" by (blast dest: split_on_parts)
  from assms consider (two) r a where "?parts = [r, a]" "validate_name r" "validate_name a"
      "c = \<lparr>cap_resource = r, cap_action = a, cap_selector = []\<rparr>"
    | (three) r a s where "?parts = [r, a, s]" "validate_name r" "validate_name a" "validate_selector s"
      "c = \<lparr>cap_resource = r, cap_action = a, cap_selector = s\<rparr>"
    by (auto simp: parse_capability_def split: list.splits if_splits)
  then show "validate_name (cap_resource c)" "validate_name (cap_action c)" "validate_selector (cap_selector c)"
    "CHR '':'' \<notin> set (cap_selector c)"
    "trim_space raw = capability_string c \<or> cap_selector c = [] \<and> trim_space raw = capability_string c @ '':''"
    using j free by (cases; auto simp: capability_string_def validate_selector_def)+
qed

lemma parse_capability_string:
  assumes "parse_capability raw = Some c"
  shows "parse_capability (capability_string c) = Some c"
proof -
  note p = parse_capability_Some [OF assms]
  note r = validate_nameD [OF p(1)] and a = validate_nameD [OF p(2)]
  let ?t = "capability_string c"
  have ne: "?t \<noteq> []" "hd ?t = hd (cap_resource c)" using r by (auto simp: capability_string_def)
  have trim: "trim_space ?t = ?t"
  proof (cases "cap_selector c = []")
    case True
    then have "last ?t = last (cap_action c)" using a by (simp add: capability_string_def)
    with ne r a show ?thesis by (intro trim_space_graphic) simp_all
  next
    case False
    with p(5) have "trim_space raw = ?t" by blast
    with trim_space_idem_graphic [of raw] ne r show ?thesis by simp
  qed
  have "split_on CHR '':'' ?t = [cap_resource c, cap_action c] @ (if cap_selector c = [] then [] else [cap_selector c])"
    unfolding capability_string_def using r a p(4) by (intro split_join) auto
  with trim p(1-3) show ?thesis by (cases c) (auto simp: parse_capability_def)
qed

text \<open>
  A parsed capability prints back to the string it parses from, so what is stored for a token means
  what was requested.
\<close>

theorem capability_roundtrip:
  assumes "parse_capability raw = Some c"
  shows "parse_capability (capability_string c) = Some c \<and>
    (cap_selector c \<noteq> [] \<longrightarrow> capability_string c = trim_space raw)"
  using parse_capability_string [OF assms] parse_capability_Some(5) [OF assms] by auto

lemma parse_example:
  "parse_capability ''vault:read:pki/*'' = Some \<lparr>cap_resource = ''vault'', cap_action = ''read'', cap_selector = ''pki/*''\<rparr>"
  by (simp add: parse_capability_def trim_space_graphic graphic_def validate_name_def name_char_def validate_selector_def
      contains_char contains_str_def [of _ "''..''"] sublist_code)

theorem capability_roundtrip_witness:
  "capability_string \<lparr>cap_resource = ''vault'', cap_action = ''read'', cap_selector = ''pki/*''\<rparr> = trim_space ''vault:read:pki/*''"
  using capability_roundtrip [OF parse_example] by simp

section \<open>What a grant covers\<close>

lemma segments_match_iff:
  "segments_match ps ws \<longleftrightarrow>
    list_all2 (\<lambda>p w. if p = ''*'' then is_concrete_segment w else p = w) ps ws"
  by (induction ps ws rule: segments_match.induct) auto

lemma count_wildcards_Some:
  "count_wildcards segs = Some n \<Longrightarrow>
    n = length (filter (\<lambda>s. s = ''*'') segs) \<and> (\<forall>s \<in> set segs. s \<noteq> [] \<and> s \<noteq> ''.'' \<and> (CHR ''*'' \<in> set s \<longrightarrow> s = ''*''))"
  by (induction segs arbitrary: n) (auto simp: contains_char split: if_splits)

lemma validate_selectorD:
  assumes "validate_selector s" "s \<noteq> []" "seg \<in> set (split_on CHR ''/'' s)"
  shows "seg \<noteq> []" "seg \<noteq> ''.''" "seg \<noteq> ''..''" "CHR ''*'' \<in> set seg \<Longrightarrow> seg = ''*''"
proof -
  from assms(1,2) obtain n where n: "count_wildcards (split_on CHR ''/'' s) = Some n" and dd: "\<not> sublist ''..'' s"
    by (auto simp: validate_selector_def Let_def contains_str_def split: if_splits option.splits)
  from count_wildcards_Some [OF n] assms(3)
  show "seg \<noteq> []" "seg \<noteq> ''.''" "CHR ''*'' \<in> set seg \<Longrightarrow> seg = ''*''" by blast+
  show "seg \<noteq> ''..''"
  proof
    assume "seg = ''..''"
    with assms(3) have "''..'' \<in> set (split_on CHR ''/'' s)" by simp
    then have "sublist ''..'' (join_with CHR ''/'' (split_on CHR ''/'' s))" by (rule sublist_join)
    with dd show False by simp
  qed
qed

text \<open>
  Claim C8. A granted capability covers a request only for the same resource and action, and only for a subject
  with as many segments: each equal to the grant's or, under a wildcard, one concrete segment. So no grant
  reaches a deeper path, a relative one, or a request that names no subject unless the grant names none.
\<close>

theorem grants_exactly:
  assumes "parse_capability raw = Some c"
  shows "grants c want \<longleftrightarrow> cap_resource c = cap_resource want \<and> cap_action c = cap_action want \<and>
    (if cap_selector c = [] then cap_selector want = []
     else list_all2 (\<lambda>p w. p = w \<and> p \<noteq> ''*'' \<or> p = ''*'' \<and> is_concrete_segment w)
       (split_on CHR ''/'' (cap_selector c)) (split_on CHR ''/'' (cap_selector want)))"
proof -
  let ?ps = "split_on CHR ''/'' (cap_selector c)" and ?ws = "split_on CHR ''/'' (cap_selector want)"
  have v: "validate_selector (cap_selector c)" by (rule parse_capability_Some(3) [OF assms])
  have rel: "(\<lambda>p w. if p = ''*'' then is_concrete_segment w else p = w)
    = (\<lambda>p w. p = w \<and> p \<noteq> ''*'' \<or> p = ''*'' \<and> is_concrete_segment w)" by auto
  have "list_all2 (\<lambda>p w. p = w \<and> p \<noteq> ''*'' \<or> p = ''*'' \<and> is_concrete_segment w) ?ps ?ws \<longleftrightarrow> cap_selector c = cap_selector want"
    if "CHR ''*'' \<notin> set (cap_selector c)"
  proof -
    have "p \<noteq> ''*''" if "p \<in> set ?ps" for p
      using that \<open>CHR ''*'' \<notin> set (cap_selector c)\<close> split_on_subset [OF that] by auto
    then have "list_all2 (\<lambda>p w. p = w \<and> p \<noteq> ''*'' \<or> p = ''*'' \<and> is_concrete_segment w) ?ps ?ws \<longleftrightarrow> list_all2 (=) ?ps ?ws"
      by (intro list.rel_cong) auto
    then show ?thesis by (simp add: list.rel_eq split_on_inj)
  qed
  then show ?thesis
    using contains_char [of "cap_selector c" "CHR ''*''"]
    by (auto simp: grants_def selector_matches_def segments_match_iff rel contains_str_def)
qed

theorem grants_exactly_witness:
  "\<not> grants \<lparr>cap_resource = ''vault'', cap_action = ''read'', cap_selector = ''pki/*''\<rparr>
     \<lparr>cap_resource = ''vault'', cap_action = ''read'', cap_selector = ''pki/signing/private''\<rparr>"
  using grants_exactly [OF parse_example, of "\<lparr>cap_resource = ''vault'', cap_action = ''read'', cap_selector = ''pki/signing/private''\<rparr>"]
  by simp

section \<open>Normalised lists\<close>

lemma seen_capabilities_Some:
  "seen_capabilities seen requested = Some out \<Longrightarrow>
    set out = set seen \<union> {capability_string c |c raw. raw \<in> set requested \<and> parse_capability raw = Some c} \<and>
    (\<forall>raw \<in> set requested. parse_capability raw \<noteq> None) \<and> (distinct seen \<longrightarrow> distinct out)"
proof (induction requested arbitrary: seen)
  case (Cons raw rest)
  then obtain c where c: "parse_capability raw = Some c" by (auto split: option.splits)
  let ?seen = "if capability_string c \<in> set seen then seen else capability_string c # seen"
  from Cons.prems c have "seen_capabilities ?seen rest = Some out" by (simp add: Let_def)
  from Cons.IH [OF this] c show ?case by auto
qed auto

text \<open>
  A normalised permission list is sorted and duplicate-free, every entry parses, and a token holding it
  grants exactly what the requested entries grant (besides its own identity).
\<close>

theorem normalize_capabilities_grants:
  assumes "normalize_capabilities requested = Some ps" "ps \<noteq> []"
  shows "sorted ps \<and> distinct ps \<and>
    (token_grants (Some (t\<lparr>token_permissions := ps\<rparr>)) want \<longleftrightarrow>
      want = self_capability \<or> (\<exists>raw \<in> set requested. \<exists>c. parse_capability raw = Some c \<and> grants c want))"
proof -
  from assms obtain out where out: "seen_capabilities [] requested = Some out" "ps = sort out"
    by (auto simp: normalize_capabilities_def)
  from seen_capabilities_Some [OF out(1)] have
    s: "set out = {capability_string c |c raw. raw \<in> set requested \<and> parse_capability raw = Some c}"
    and d: "distinct out" by auto
  have "(\<exists>p \<in> set out. \<exists>c. parse_capability p = Some c \<and> grants c want) \<longleftrightarrow>
      (\<exists>raw \<in> set requested. \<exists>c. parse_capability raw = Some c \<and> grants c want)"
  proof
    assume "\<exists>p \<in> set out. \<exists>c. parse_capability p = Some c \<and> grants c want"
    then obtain c c' raw where r: "raw \<in> set requested" "parse_capability raw = Some c'"
      "parse_capability (capability_string c') = Some c" "grants c want" unfolding s by blast
    from parse_capability_string [OF r(2)] r(3) have "c = c'" by simp
    with r show "\<exists>raw \<in> set requested. \<exists>c. parse_capability raw = Some c \<and> grants c want" by blast
  next
    assume "\<exists>raw \<in> set requested. \<exists>c. parse_capability raw = Some c \<and> grants c want"
    then obtain raw c where r: "raw \<in> set requested" "parse_capability raw = Some c" "grants c want" by blast
    then have "capability_string c \<in> set out" unfolding s by blast
    with parse_capability_string [OF r(2)] r(3) show "\<exists>p \<in> set out. \<exists>c. parse_capability p = Some c \<and> grants c want" by blast
  qed
  then show ?thesis using out(2) d assms(2)
    by (auto simp: token_grants_def is_capability_token_def list_ex_iff split: option.splits)
qed

lemma normalize_capabilities_example:
  "token_grants (Some (example_token [] [''vault:read:pki/*'']))
    \<lparr>cap_resource = ''vault'', cap_action = ''read'', cap_selector = ''pki/k''\<rparr>"
  by (simp add: token_grants_def is_capability_token_def example_token_def parse_example grants_def contains_char
      selector_matches_def is_concrete_segment_def)

theorem normalize_capabilities_grants_witness:
  "\<exists>ps. normalize_capabilities [''vault:read:pki/*''] = Some ps \<and> token_grants (Some (example_token [] ps))
    \<lparr>cap_resource = ''vault'', cap_action = ''read'', cap_selector = ''pki/k''\<rparr>"
proof -
  have "capability_string \<lparr>cap_resource = ''vault'', cap_action = ''read'', cap_selector = ''pki/*''\<rparr> = ''vault:read:pki/*''"
    by (simp add: capability_string_def)
  then have n: "normalize_capabilities [''vault:read:pki/*''] = Some [''vault:read:pki/*'']"
    by (simp add: normalize_capabilities_def parse_example)
  from normalize_capabilities_grants [OF n, of "example_token [] []"] parse_example
  have "token_grants (Some (example_token [] [''vault:read:pki/*'']))
    \<lparr>cap_resource = ''vault'', cap_action = ''read'', cap_selector = ''pki/k''\<rparr>"
    by (simp add: example_token_def grants_def contains_char selector_matches_def is_concrete_segment_def)
  with n show ?thesis by blast
qed

end
