(* ===== verification/Request_Gates.thy ===== *)
theory Request_Gates
  imports Capability
begin

text \<open>
  The gates every request meets on the root router (\<^verbatim>\<open>internal/middleware\<close>): the capability gate
  (\<^verbatim>\<open>capability.go\<close>), the metrics-key gate (\<^verbatim>\<open>metrics_key.go\<close>), the site deploy-token gate
  (\<^verbatim>\<open>site_deploy_token.go\<close>), the origin check on cookie-authenticated writes (\<^verbatim>\<open>cookie_origin.go\<close>) and
  CORS (\<^verbatim>\<open>cors.go\<close>). A route expression is matched on the path's segments.
\<close>

section \<open>Requests\<close>

text \<open>\<open>raw_path\<close> is Go's \<open>URL.RawPath\<close>: empty unless the path was sent with an escape.\<close>

record http_request = credentials_in +
  request_method :: http_method
  url_path :: string
  raw_path :: string
  origin_header :: string
  referer_header :: string

definition segments_of :: "string \<Rightarrow> string list" where
  "segments_of p = split_on CHR ''/'' p"

lemma segments_of_join: "join_with CHR ''/'' (segments_of p) = p"
  by (simp add: segments_of_def)

section \<open>The capability gate\<close>

definition vault_secret_prefix :: string where
  "vault_secret_prefix = ''/api/vault/secrets/''"

definition self_route :: string where
  "self_route = ''/api/auth/me''"

definition normalize_path :: "string \<Rightarrow> string" where
  "normalize_path raw = (if raw = [] then raw else path_clean raw)"

definition has_dot_segment :: "string \<Rightarrow> bool" where
  "has_dot_segment raw = list_ex (\<lambda>seg. seg = ''.'' \<or> seg = ''..'') (segments_of raw)"

text \<open>\<^verbatim>\<open>^/api/projects/[^/]+/info$\<close> and the other route expressions.\<close>

definition project_info_route :: "string \<Rightarrow> bool" where
  "project_info_route p = (case segments_of p of
     [r, a, b, x, c] \<Rightarrow> [r, a, b, c] = [[], ''api'', ''projects'', ''info''] \<and> x \<noteq> []
   | _ \<Rightarrow> False)"

definition permission_document_route :: "string \<Rightarrow> bool" where
  "permission_document_route p = (case segments_of p of
     [r, a, b, x, c] \<Rightarrow> [r, a, b, c] = [[], ''api'', ''provision'', ''permissions''] \<and> x \<noteq> []
   | _ \<Rightarrow> False)"

definition service_account_tokens_route :: "string \<Rightarrow> string option" where
  "service_account_tokens_route p = (case segments_of p of
     [r, a, b, c, x, d] \<Rightarrow>
       if [r, a, b, c, d] = [[], ''api'', ''admin'', ''service-accounts'', ''tokens''] \<and> x \<noteq> [] then Some x else None
   | _ \<Rightarrow> None)"

definition token_by_hash_route :: "string \<Rightarrow> bool" where
  "token_by_hash_route p = (case segments_of p of
     [r, a, b, c, x] \<Rightarrow> [r, a, b, c] = [[], ''api'', ''auth'', ''tokens''] \<and> x \<noteq> []
   | _ \<Rightarrow> False)"

definition token_rotate_route :: "string \<Rightarrow> bool" where
  "token_rotate_route p = (case segments_of p of
     [r, a, b, c, x, d] \<Rightarrow> [r, a, b, c, d] = [[], ''api'', ''auth'', ''tokens'', ''rotate''] \<and> x \<noteq> []
   | _ \<Rightarrow> False)"

definition email_relay_capability :: capability where
  "email_relay_capability = \<lparr>cap_resource = ''email'', cap_action = ''send'', cap_selector = []\<rparr>"

definition vault_read_capability :: "string \<Rightarrow> capability" where
  "vault_read_capability secret = \<lparr>cap_resource = ''vault'', cap_action = ''read'', cap_selector = secret\<rparr>"

definition project_info_capability :: capability where
  "project_info_capability = \<lparr>cap_resource = ''projects'', cap_action = ''info'', cap_selector = ''read''\<rparr>"

definition policies_read_capability :: capability where
  "policies_read_capability = \<lparr>cap_resource = ''policies'', cap_action = ''read'', cap_selector = []\<rparr>"

definition required_capability :: "http_method \<Rightarrow> string \<Rightarrow> capability option" where
  "required_capability m raw =
    (let cleaned = normalize_path raw
     in if m = POST \<and> cleaned = ''/internal/email/send'' then Some email_relay_capability
        else if m = POST \<and> cleaned = ''/api/vault/init'' then Some vault_init_capability
        else if m = POST \<and> cleaned = ''/api/vault/unseal'' then Some vault_unseal_capability
        else if m \<noteq> GET \<and> m \<noteq> HEAD then None
        else case cut_prefix vault_secret_prefix cleaned of
          Some secret \<Rightarrow> if secret = [] then None else Some (vault_read_capability secret)
        | None \<Rightarrow>
            if project_info_route cleaned then Some project_info_capability
            else if permission_document_route cleaned then Some policies_read_capability
            else map_option manage_service_tokens (service_account_tokens_route cleaned))"

definition requires_service_token_manager :: "http_method \<Rightarrow> string \<Rightarrow> bool" where
  "requires_service_token_manager m raw =
    (let cleaned = normalize_path raw
     in if m = POST then cleaned = ''/api/admin/service-accounts'' \<or> cleaned = ''/api/auth/tokens'' \<or>
          token_rotate_route cleaned
        else if m = DELETE then token_by_hash_route cleaned
        else False)"

definition capability_gate :: "access_token option \<Rightarrow> http_request \<Rightarrow> verdict" where
  "capability_gate t r =
    (if \<not> is_capability_token t then Pass
     else if raw_path r \<noteq> [] \<or> has_dot_segment (url_path r) then Refuse 403
     else if normalize_path (url_path r) = self_route then Pass
     else if requires_service_token_manager (request_method r) (url_path r) \<and> manages_service_tokens t then Pass
     else case required_capability (request_method r) (url_path r) of
       None \<Rightarrow> Refuse 403
     | Some want \<Rightarrow> if token_grants t want then Pass else Refuse 403)"

definition require_capability :: "capability \<Rightarrow> access_token option \<Rightarrow> verdict" where
  "require_capability want t = (if token_grants t want then Pass else Refuse 403)"

definition unless_granted_capability :: "access_token option \<Rightarrow> http_request \<Rightarrow> verdict \<Rightarrow> verdict" where
  "unless_granted_capability t r guarded =
    (if is_capability_token t \<and> \<not> has_dot_segment (url_path r) \<and> raw_path r = [] \<and>
        (case required_capability (request_method r) (url_path r) of None \<Rightarrow> False | Some want \<Rightarrow> token_grants t want)
     then Pass else guarded)"

text \<open>The path the vault handler reads behind the wildcard (\<open>extractSecretPath\<close>): one slash is dropped.\<close>

definition handler_secret_path :: "string \<Rightarrow> string option" where
  "handler_secret_path p = map_option (trim_prefix ''/'') (cut_prefix vault_secret_prefix p)"

section \<open>Metrics keys and site deploy tokens\<close>

text \<open>\<^verbatim>\<open>^/api/projects/([^/]+)/metrics/?$\<close>\<close>

definition metrics_key_route :: "string \<Rightarrow> string option" where
  "metrics_key_route p = (case segments_of p of
     r # a # b # x # rest \<Rightarrow>
       if [r, a, b] = [[], ''api'', ''projects''] \<and> x \<noteq> [] \<and> (rest = [''metrics''] \<or> rest = [''metrics'', []])
       then Some x else None
   | _ \<Rightarrow> None)"

definition metrics_key_may_call :: "http_request \<Rightarrow> string \<Rightarrow> bool" where
  "metrics_key_may_call r project_id =
    (if request_method r \<noteq> GET then False
     else if raw_path r \<noteq> [] \<or> has_dot_segment (url_path r) then False
     else case metrics_key_route (url_path r) of
       None \<Rightarrow> False
     | Some x \<Rightarrow> project_id \<noteq> [] \<and> x = project_id)"

definition metrics_key_gate :: "access_token option \<Rightarrow> http_request \<Rightarrow> verdict" where
  "metrics_key_gate t r = (case t of
     None \<Rightarrow> Pass
   | Some a \<Rightarrow> if is_metrics_key t \<and> \<not> metrics_key_may_call r (token_project a) then Refuse 403 else Pass)"

datatype deploy_action = Deploy | Deploys | One_Deploy string

text \<open>\<^verbatim>\<open>^/api/projects/([^/]+)/sites/([^/]+)/(deploy|deploys|deploys/[^/]+)$\<close>\<close>

definition deploy_token_route :: "string \<Rightarrow> (string \<times> string \<times> deploy_action) option" where
  "deploy_token_route p = (case segments_of p of
     r # a # b # x # c # y # rest \<Rightarrow>
       if [r, a, b, c] = [[], ''api'', ''projects'', ''sites''] \<and> x \<noteq> [] \<and> y \<noteq> [] then
         (case rest of
            [d] \<Rightarrow> if d = ''deploy'' then Some (x, y, Deploy) else if d = ''deploys'' then Some (x, y, Deploys) else None
          | [d, z] \<Rightarrow> if d = ''deploys'' \<and> z \<noteq> [] then Some (x, y, One_Deploy z) else None
          | _ \<Rightarrow> None)
       else None
   | _ \<Rightarrow> None)"

definition deploy_token_target :: "http_request \<Rightarrow> (string \<times> string) option" where
  "deploy_token_target r =
    (if raw_path r \<noteq> [] \<or> has_dot_segment (url_path r) then None
     else case deploy_token_route (url_path r) of
       None \<Rightarrow> None
     | Some (x, y, act) \<Rightarrow>
         if act = Deploy \<and> request_method r \<noteq> POST then None
         else if act \<noteq> Deploy \<and> request_method r \<noteq> GET then None
         else Some (x, y))"

record deploy_token =
  dt_id :: string
  dt_name :: string
  dt_project :: string
  dt_site :: string
  dt_created_by :: string

text \<open>\<open>Inl\<close> is a failed read of the token's row or of its creator.\<close>

record deploy_services =
  resolve_deploy_token :: "string \<Rightarrow> (unit, deploy_token option) result"
  find_creator :: "string \<Rightarrow> (unit, user option) result"

definition deploy_token_prefix :: string where
  "deploy_token_prefix = ''excd_''"

definition creator_access_token :: "user \<Rightarrow> deploy_token \<Rightarrow> access_token" where
  "creator_access_token u t = \<lparr>token_hash = [], token_user = user_id u, token_scopes = scope_write,
    token_project = dt_project t, token_permissions = [], token_created = None, token_expires = None,
    token_last_used = None\<rparr>"

definition deploy_token_creator :: "deploy_services \<Rightarrow> deploy_token \<Rightarrow> (unit, user option) result" where
  "deploy_token_creator sv t = (case find_creator sv (dt_created_by t) of
     Inl e \<Rightarrow> Inl e
   | Inr None \<Rightarrow> Inr None
   | Inr (Some u) \<Rightarrow> Inr (if user_active u then Some u else None))"

text \<open>
  The context past the gate, and the use it records; \<open>Inl\<close> is the status of a refusal. A deploy token
  never rides on a session: the context starts anonymous.
\<close>

definition deploy_token_context ::
  "deploy_services option \<Rightarrow> http_request \<Rightarrow> string \<Rightarrow> (nat, auth_context \<times> deploy_token option) result" where
  "deploy_token_context services r raw =
    (case deploy_token_target r of
       None \<Rightarrow> Inl 403
     | Some (project_id, site_id) \<Rightarrow>
         (case services of
            None \<Rightarrow> Inr (anonymous, None)
          | Some sv \<Rightarrow> (case resolve_deploy_token sv raw of
              Inl _ \<Rightarrow> Inl 500
            | Inr None \<Rightarrow> Inr (anonymous, None)
            | Inr (Some t) \<Rightarrow>
                if dt_project t \<noteq> project_id \<or> dt_site t \<noteq> site_id then Inl 403
                else (case deploy_token_creator sv t of
                  Inr (Some u) \<Rightarrow>
                    Inr (\<lparr>ctx_user = Some u, ctx_token = Some (creator_access_token u t), ctx_failure = []\<rparr>, Some t)
                | _ \<Rightarrow> Inr (anonymous, Some t)))))"

definition site_deploy_token_gate ::
  "deploy_services option \<Rightarrow> auth_context \<Rightarrow> http_request \<Rightarrow> (nat, auth_context) result" where
  "site_deploy_token_gate services c r =
    (let raw = trim_prefix ''Bearer '' (authorization r)
     in if \<not> prefix deploy_token_prefix raw then Inr c
        else case deploy_token_context services r raw of Inl n \<Rightarrow> Inl n | Inr (c', _) \<Rightarrow> Inr c')"

section \<open>Origins\<close>

definition trim_right_slash :: "string \<Rightarrow> string" where
  "trim_right_slash s = rev (dropWhile (\<lambda>c. c = CHR ''/'') (rev s))"

definition trusted_origins :: "string \<Rightarrow> string list \<Rightarrow> string list" where
  "trusted_origins studio_url cors_origins =
    map trim_right_slash (filter (\<lambda>x. x \<noteq> ''*'' \<and> x \<noteq> []) (studio_url # cors_origins))"

text \<open>\<open>parse_url\<close> answers the scheme and host of a URL, \<open>None\<close> where \<^verbatim>\<open>url.Parse\<close> fails.\<close>

definition request_origin :: "(string \<Rightarrow> (string \<times> string) option) \<Rightarrow> http_request \<Rightarrow> string" where
  "request_origin parse_url r =
    (if origin_header r \<noteq> [] then origin_header r
     else case parse_url (referer_header r) of
       None \<Rightarrow> []
     | Some (scheme, host) \<Rightarrow> if scheme = [] \<or> host = [] then [] else scheme @ ''://'' @ host)"

definition cookie_authenticated_write :: "http_request \<Rightarrow> bool" where
  "cookie_authenticated_write r =
    (if request_method r \<in> {GET, HEAD, OPTIONS} then False
     else if prefix ''Bearer '' (authorization r) then False
     else case session_cookie r of None \<Rightarrow> False | Some c \<Rightarrow> c \<noteq> [])"

definition trusted_origin :: "string list \<Rightarrow> string \<Rightarrow> bool" where
  "trusted_origin allowed page \<longleftrightarrow> page \<noteq> [] \<and> page \<in> set allowed"

definition require_trusted_origin ::
  "string list \<Rightarrow> (string \<Rightarrow> (string \<times> string) option) \<Rightarrow> http_request \<Rightarrow> verdict" where
  "require_trusted_origin trusted parse_url r =
    (if cookie_authenticated_write r \<and> \<not> trusted_origin trusted (request_origin parse_url r) then Refuse 403 else Pass)"

text \<open>The CORS headers of an answer, and whether the request is answered here as a preflight.\<close>

record cors_answer =
  allow_origin :: "string option"
  allow_credentials :: bool
  allow_methods :: bool
  preflight :: bool

definition cors :: "string list \<Rightarrow> http_request \<Rightarrow> cors_answer" where
  "cors allowed_origins r =
    (let wildcard = (allowed_origins = [''*'']); page = origin_header r;
       allowed = (page \<noteq> [] \<and> (wildcard \<or> page \<in> set allowed_origins)); pre = (request_method r = OPTIONS)
     in \<lparr>allow_origin = (if allowed then Some page else None),
         allow_credentials = allowed \<and> page \<in> set allowed_origins,
         allow_methods = pre \<and> allowed, preflight = pre\<rparr>)"

definition except_path_prefix :: "string \<Rightarrow> (http_request \<Rightarrow> 'a) \<Rightarrow> (http_request \<Rightarrow> 'a) \<Rightarrow> http_request \<Rightarrow> 'a" where
  "except_path_prefix pre mw next_handler r = (if prefix pre (url_path r) then next_handler r else mw r)"

section \<open>The capability gate is default-deny\<close>

lemma vault_prefix_segments:
  "segments_of (vault_secret_prefix @ s) = [[], ''api'', ''vault'', ''secrets''] @ segments_of s"
  by (simp add: segments_of_def vault_secret_prefix_def)

lemma normalize_vault_path:
  assumes "\<forall>seg \<in> set (segments_of s). plain_segment seg"
  shows "normalize_path (vault_secret_prefix @ s) = vault_secret_prefix @ s"
proof -
  let ?tail = "''api/vault/secrets/'' @ s"
  have "split_on CHR ''/'' ?tail = [''api'', ''vault'', ''secrets''] @ segments_of s"
    by (simp add: segments_of_def)
  with assms have "path_clean (CHR ''/'' # ?tail) = CHR ''/'' # ?tail" by (intro path_clean_fix) auto
  then show ?thesis by (simp add: normalize_path_def vault_secret_prefix_def)
qed

lemma dot_segments_plain:
  "\<forall>seg \<in> set (segments_of s). plain_segment seg \<Longrightarrow> \<not> has_dot_segment (vault_secret_prefix @ s)"
  by (auto simp: has_dot_segment_def vault_prefix_segments list_ex_iff)

lemma segments_ne [simp]: "segments_of s \<noteq> []"
  by (simp add: segments_of_def)

text \<open>
  Claim C4. Where a secret is asked for by an unescaped path of plain segments (none empty, none a dot segment), a
  capability token is let through exactly when it asks to read (GET or HEAD) and its list grants reading that
  secret, and the handler then reads the very path the gate authorised. Nothing is said of other
  spellings: \<open>gate_reads_another_path\<close> shows that the gate authorises the cleaned path and the handler reads
  the path as sent.
\<close>

theorem gate_vault_secret:
  assumes "is_capability_token t" "url_path r = vault_secret_prefix @ secret" "raw_path r = []"
    and "\<forall>seg \<in> set (segments_of secret). plain_segment seg"
  shows "(capability_gate t r = Pass \<longleftrightarrow>
      request_method r \<in> {GET, HEAD} \<and> token_grants t (vault_read_capability secret)) \<and>
    handler_secret_path (url_path r) = Some secret"
proof -
  let ?p = "vault_secret_prefix @ secret"
  note n = normalize_vault_path [OF assms(4)] and d = dot_segments_plain [OF assms(4)]
  have ne: "secret \<noteq> []"
  proof
    assume "secret = []"
    then have "[] \<in> set (segments_of secret)" by (simp add: segments_of_def)
    with assms(4) show False by blast
  qed
  have hd: "hd secret \<noteq> CHR ''/''"
  proof
    assume "hd secret = CHR ''/''"
    with ne have "secret = CHR ''/'' # tl secret" by (cases secret) simp_all
    then have "segments_of secret = [] # split_on CHR ''/'' (tl secret)"
      unfolding segments_of_def by (metis split_on.simps(2))
    with assms(4) show False by simp
  qed
  have len: "length (segments_of secret) \<ge> 1" by (cases "segments_of secret") auto
  have other: "?p \<noteq> self_route" "?p \<noteq> ''/internal/email/send''" "?p \<noteq> ''/api/vault/init''" "?p \<noteq> ''/api/vault/unseal''"
    "?p \<noteq> ''/api/admin/service-accounts''" "?p \<noteq> ''/api/auth/tokens''"
    by (simp_all add: vault_secret_prefix_def self_route_def)
  have routes: "\<not> token_rotate_route ?p" "\<not> token_by_hash_route ?p"
    by (auto simp: token_rotate_route_def token_by_hash_route_def vault_prefix_segments split: list.splits)
  have cut: "cut_prefix vault_secret_prefix ?p = Some secret" by (simp add: cut_prefix_Some)
  have "\<not> requires_service_token_manager m ?p" for m
    by (simp add: requires_service_token_manager_def n other routes Let_def)
  moreover have "required_capability m ?p = (if m = GET \<or> m = HEAD then Some (vault_read_capability secret) else None)" for m
    by (simp add: required_capability_def n other cut ne Let_def)
  moreover have "trim_prefix ''/'' secret = secret"
    using hd ne by (cases secret) (auto simp: trim_prefix_def cut_prefix_def)
  ultimately show ?thesis
    using assms(1-3) d n other(1) cut by (auto simp: capability_gate_def handler_secret_path_def)
qed

definition example_request :: "http_method \<Rightarrow> string \<Rightarrow> http_request" where
  "example_request m p = \<lparr>authorization = [], session_cookie = None, request_method = m, url_path = p, raw_path = [],
    origin_header = [], referer_header = []\<rparr>"

theorem gate_vault_secret_witness:
  "capability_gate (Some (example_token [] [''vault:read:pki/*''])) (example_request GET ''/api/vault/secrets/pki/k'') = Pass"
proof -
  have "\<forall>seg \<in> set (segments_of ''pki/k''). plain_segment seg" by (simp add: segments_of_def)
  from gate_vault_secret [OF _ _ _ this, of "Some (example_token [] [''vault:read:pki/*''])"
      "example_request GET ''/api/vault/secrets/pki/k''"] normalize_capabilities_example
  show ?thesis by (simp add: example_request_def is_capability_token_def example_token_def vault_secret_prefix_def
      vault_read_capability_def)
qed

text \<open>
  A capability token's request that names no granted route is refused: a request passes only unescaped,
  without dot segments, and for its own identity, for token management it holds, or for a granted capability.
\<close>

theorem gate_default_deny:
  assumes "is_capability_token t" "capability_gate t r = Pass"
  shows "raw_path r = [] \<and> \<not> has_dot_segment (url_path r) \<and>
    (normalize_path (url_path r) = self_route \<or>
     request_method r \<in> {POST, DELETE} \<and> manages_service_tokens t \<or>
     (\<exists>want. required_capability (request_method r) (url_path r) = Some want \<and> token_grants t want \<and>
       (request_method r \<in> {GET, HEAD} \<or>
        want \<in> {email_relay_capability, vault_init_capability, vault_unseal_capability})))"
proof -
  have "m = POST \<or> m = DELETE" if "requires_service_token_manager m p" for m p
    using that by (auto simp: requires_service_token_manager_def Let_def split: if_splits)
  moreover have "m \<in> {GET, HEAD} \<or> want \<in> {email_relay_capability, vault_init_capability, vault_unseal_capability}"
    if "required_capability m p = Some want" for m p want
    using that by (auto simp: required_capability_def Let_def split: if_splits)
  ultimately show ?thesis
    using assms by (auto simp: capability_gate_def split: if_splits option.splits)
qed

theorem gate_default_deny_witness:
  "capability_gate (Some (example_token [] [''vault:read:pki/*''])) (example_request PUT ''/api/users'') \<noteq> Pass"
proof
  let ?t = "Some (example_token [] [''vault:read:pki/*''])"
  assume "capability_gate ?t (example_request PUT ''/api/users'') = Pass"
  from gate_default_deny [OF _ this] show False
    by (simp add: is_capability_token_def example_token_def example_request_def required_capability_def Let_def
        normalize_path_def path_clean_def self_route_def)
qed

text \<open>
  The gate inspects the cleaned path but the handler reads the path as sent: a token granted the secret
  \<open>a/b\<close> is let through to the secret \<open>a//b\<close>.
\<close>

theorem gate_reads_another_path:
  "required_capability GET ''/api/vault/secrets/a//b'' = Some (vault_read_capability ''a/b'') \<and>
   handler_secret_path ''/api/vault/secrets/a//b'' = Some ''a//b''"
  by (simp add: required_capability_def normalize_path_def path_clean_def vault_secret_prefix_def cut_prefix_def
      handler_secret_path_def trim_prefix_def Let_def)

section \<open>Tokens that reach one project\<close>

lemma segments_of_eq: "segments_of p = ws \<Longrightarrow> p = join_with CHR ''/'' ws"
  using segments_of_join [of p] by simp

text \<open>
  A metrics key passes its gate only to read the metrics of the one project it is bound to; bound to no
  project it passes nowhere.
\<close>

theorem metrics_key_confined:
  assumes "is_metrics_key (Some t)" "metrics_key_gate (Some t) r = Pass"
  shows "request_method r = GET \<and> raw_path r = [] \<and> token_project t \<noteq> [] \<and>
    (url_path r = ''/api/projects/'' @ token_project t @ ''/metrics'' \<or>
     url_path r = ''/api/projects/'' @ token_project t @ ''/metrics/'')"
proof -
  from assms have c: "metrics_key_may_call r (token_project t)"
    by (auto simp: metrics_key_gate_def split: if_splits)
  then have "metrics_key_route (url_path r) = Some (token_project t)" "token_project t \<noteq> []"
    "request_method r = GET" "raw_path r = []"
    by (auto simp: metrics_key_may_call_def split: if_splits option.splits)
  moreover from this(1) consider "segments_of (url_path r) = [[], ''api'', ''projects'', token_project t, ''metrics'']"
    | "segments_of (url_path r) = [[], ''api'', ''projects'', token_project t, ''metrics'', []]"
    by (auto simp: metrics_key_route_def split: list.splits if_splits)
  then have "url_path r = ''/api/projects/'' @ token_project t @ ''/metrics'' \<or>
     url_path r = ''/api/projects/'' @ token_project t @ ''/metrics/''"
    by cases (auto dest!: segments_of_eq)
  ultimately show ?thesis by blast
qed

theorem metrics_key_confined_witness:
  "metrics_key_gate (Some ((example_token ''metrics:read'' [])\<lparr>token_project := ''p1''\<rparr>))
    (example_request GET ''/api/projects/p2/metrics'') \<noteq> Pass"
proof
  let ?t = "(example_token ''metrics:read'' [])\<lparr>token_project := ''p1''\<rparr>"
  assume p: "metrics_key_gate (Some ?t) (example_request GET ''/api/projects/p2/metrics'') = Pass"
  have "is_metrics_key (Some ?t)"
    by (simp add: is_metrics_key_def scope_set_def example_token_def scope_defs trim_space_graphic graphic_def)
  from metrics_key_confined [OF this p] show False by (simp add: example_request_def example_token_def)
qed

text \<open>
  A request carrying a site deploy token is either refused, or anonymous, or acts as the token's active
  creator narrowed to the token's project with the write scope, on a route of that token's own project and
  site; whatever session came with it is dropped.
\<close>

theorem deploy_token_confined:
  assumes "authorization r = ''Bearer '' @ raw" "prefix deploy_token_prefix raw"
    and "site_deploy_token_gate services c r = Inr c'"
  shows "c' = anonymous \<or> (\<exists>sv t u project_id site_id.
    services = Some sv \<and> resolve_deploy_token sv raw = Inr (Some t) \<and> find_creator sv (dt_created_by t) = Inr (Some u) \<and>
    user_active u \<and> deploy_token_target r = Some (project_id, site_id) \<and> dt_project t = project_id \<and> dt_site t = site_id \<and>
    c' = \<lparr>ctx_user = Some u, ctx_token = Some (creator_access_token u t), ctx_failure = []\<rparr> \<and>
    token_scopes (creator_access_token u t) = scope_write \<and> (\<forall>p. token_bound_to_project (ctx_token c') p \<longrightarrow> dt_project t = p \<or> dt_project t = []))"
proof -
  from assms obtain x where d: "deploy_token_context services r raw = Inr (c', x)"
    by (auto simp: site_deploy_token_gate_def trim_prefix_def cut_prefix_def split: sum.splits prod.splits if_splits)
  then obtain project_id site_id where tg: "deploy_token_target r = Some (project_id, site_id)"
    by (auto simp: deploy_token_context_def split: option.splits)
  show ?thesis
  proof (cases "c' = anonymous")
    case False
    with d tg obtain sv t where s: "services = Some sv" "resolve_deploy_token sv raw = Inr (Some t)"
      and m: "dt_project t = project_id" "dt_site t = site_id"
      by (auto simp: deploy_token_context_def split: option.splits sum.splits if_splits)
    with d tg False obtain u where u: "deploy_token_creator sv t = Inr (Some u)"
      "c' = \<lparr>ctx_user = Some u, ctx_token = Some (creator_access_token u t), ctx_failure = []\<rparr>"
      by (auto simp: deploy_token_context_def split: sum.splits option.splits)
    from u(1) have "find_creator sv (dt_created_by t) = Inr (Some u)" "user_active u"
      by (auto simp: deploy_token_creator_def split: sum.splits option.splits if_splits)
    with s m u(2) tg show ?thesis by (auto simp: creator_access_token_def token_bound_to_project_def)
  qed simp
qed

definition example_deploy_token :: deploy_token where
  "example_deploy_token = \<lparr>dt_id = ''t'', dt_name = ''ci'', dt_project = ''p1'', dt_site = ''s1'', dt_created_by = ''u''\<rparr>"

definition example_deploy_services :: deploy_services where
  "example_deploy_services = \<lparr>resolve_deploy_token = \<lambda>_. Inr (Some example_deploy_token),
    find_creator = \<lambda>_. Inr (Some (example_user ''user''))\<rparr>"

theorem deploy_token_confined_witness:
  "\<exists>c'. site_deploy_token_gate (Some example_deploy_services) anonymous
      (example_request POST ''/api/projects/p1/sites/s1/deploy''\<lparr>authorization := ''Bearer excd_x''\<rparr>) = Inr c' \<and>
    \<not> token_bound_to_project (ctx_token c') ''p2''"
proof -
  let ?r = "example_request POST ''/api/projects/p1/sites/s1/deploy''\<lparr>authorization := ''Bearer excd_x''\<rparr>"
  have t: "deploy_token_target ?r = Some (''p1'', ''s1'')"
    by (simp add: deploy_token_target_def example_request_def has_dot_segment_def deploy_token_route_def segments_of_def)
  have "\<exists>c'. site_deploy_token_gate (Some example_deploy_services) anonymous ?r = Inr c' \<and> c' \<noteq> anonymous"
    using t by (simp add: site_deploy_token_gate_def trim_prefix_def cut_prefix_def deploy_token_prefix_def deploy_token_context_def
        example_deploy_services_def example_deploy_token_def deploy_token_creator_def example_user_def anonymous_def)
  then obtain c' where g: "site_deploy_token_gate (Some example_deploy_services) anonymous ?r = Inr c'" "c' \<noteq> anonymous" by blast
  have "prefix deploy_token_prefix ''excd_x''" by (simp add: deploy_token_prefix_def)
  from deploy_token_confined [OF _ this g(1)] g(2) have "\<forall>p. token_bound_to_project (ctx_token c') p \<longrightarrow> ''p1'' = p"
    using t by auto
  then have "\<not> token_bound_to_project (ctx_token c') ''p2''" by auto
  with g(1) show ?thesis by blast
qed

text \<open>
  A write that the session cookie would authenticate passes only when the page that sent it names an
  origin on the trusted list; a request without that cookie, or with a bearer token, is not affected.
\<close>

theorem cookie_writes_trusted:
  assumes "request_method r \<notin> {GET, HEAD, OPTIONS}"
  shows "require_trusted_origin trusted parse_url r = Pass \<longleftrightarrow>
    prefix ''Bearer '' (authorization r) \<or> extract_raw_token r = [] \<or>
    (request_origin parse_url r \<in> set trusted \<and> request_origin parse_url r \<noteq> [])"
  using assms
  by (auto simp: require_trusted_origin_def cookie_authenticated_write_def trusted_origin_def extract_raw_token_def
      cut_prefix_def credentials_in.defs split: option.splits)

theorem cookie_writes_trusted_witness:
  "require_trusted_origin (trusted_origins ''https://studio.example'' [''*'']) (\<lambda>_. None)
    (example_request POST ''/api/x''\<lparr>session_cookie := Some ''c'', origin_header := ''https://evil.example''\<rparr>) \<noteq> Pass"
  using cookie_writes_trusted [of "example_request POST ''/api/x''\<lparr>session_cookie := Some ''c'', origin_header := ''https://evil.example''\<rparr>"
      "trusted_origins ''https://studio.example'' [''*'']" "\<lambda>_. None"]
  by (simp add: example_request_def extract_raw_token_def cut_prefix_def request_origin_def trusted_origins_def trim_right_slash_def)

end
