(* ===== verification/Project_Access.thy ===== *)
theory Project_Access
  imports Request_Gates
begin

text \<open>
  Binding a project to its caller (\<^verbatim>\<open>internal/middleware/project_access.go\<close>), the states in which a project
  is not served (\<^verbatim>\<open>internal/domain/enums.go\<close>), and the gates built on them: \<^verbatim>\<open>servable_project.go\<close>,
  \<^verbatim>\<open>project_database.go\<close> and the classification of \<^verbatim>\<open>project_activity.go\<close>. The instance and
  membership tables are the fields of \<open>project_stores\<close>; \<open>Inl\<close> is a read that failed.
\<close>

section \<open>Projects and their status\<close>

datatype db_type = PostgreSQL | MySQL

record database_instance =
  inst_project :: string
  inst_org :: string
  inst_status :: string
  inst_step :: string
  inst_no_database :: bool
  inst_db_type :: db_type

record org_member =
  member_org :: string
  member_user :: string
  member_role :: string

record project_stores =
  find_project :: "string \<Rightarrow> (unit, database_instance option) result"
  get_org_member :: "string \<Rightarrow> string \<Rightarrow> (unit, org_member option) result"

definition is_active :: "string \<Rightarrow> bool" where
  "is_active s \<longleftrightarrow> s = ''ACTIVE''"

definition is_building_status :: "string \<Rightarrow> bool" where
  "is_building_status s \<longleftrightarrow> s = ''PROVISIONING''"

definition is_deletion_status :: "string \<Rightarrow> bool" where
  "is_deletion_status s \<longleftrightarrow> s = ''DELETING'' \<or> s = ''BACKUPS_PENDING_DELETE''"

definition is_not_servable :: "string \<Rightarrow> bool" where
  "is_not_servable s \<longleftrightarrow> is_deletion_status s \<or> s = ''RESTORING'' \<or> s = ''PENDING_DELETION''"

definition not_servable_reason :: "string \<Rightarrow> string" where
  "not_servable_reason s =
    (if s = ''RESTORING'' then ''project is being restored''
     else if s = ''PENDING_DELETION'' then ''project is scheduled for deletion''
     else ''project is being deleted'')"

section \<open>Resolving the caller's access\<close>

record project_access =
  pa_instance :: "database_instance option"
  pa_member :: "org_member option"
  pa_platform_admin :: bool
  pa_project :: string

definition role_at_least :: "project_access \<Rightarrow> string \<Rightarrow> bool" where
  "role_at_least a min_role =
    (if pa_platform_admin a then True
     else case pa_member a of None \<Rightarrow> False | Some m \<Rightarrow> org_role_at_least (member_role m) min_role)"

text \<open>The stores; \<open>orgs_wired\<close> is whether the server was given a membership store at all.\<close>

definition resolve_project_access ::
  "project_stores \<Rightarrow> bool \<Rightarrow> user option \<Rightarrow> access_token option \<Rightarrow> string \<Rightarrow> project_access option" where
  "resolve_project_access st orgs_wired u t pid = (case u of
     None \<Rightarrow> None
   | Some u \<Rightarrow>
       if \<not> token_bound_to_project t pid then None
       else if has_permission (user_role u) Manage_Users
       then Some \<lparr>pa_instance = None, pa_member = None, pa_platform_admin = True, pa_project = pid\<rparr>
       else (case find_project st pid of
         Inl _ \<Rightarrow> None
       | Inr None \<Rightarrow> None
       | Inr (Some inst) \<Rightarrow>
           if inst_org inst = [] \<or> \<not> orgs_wired then None
           else (case get_org_member st (inst_org inst) (user_id u) of
             Inl _ \<Rightarrow> None
           | Inr None \<Rightarrow> None
           | Inr (Some m) \<Rightarrow>
               Some \<lparr>pa_instance = Some inst, pa_member = Some m, pa_platform_admin = False, pa_project = pid\<rparr>)))"

definition instance_or_lookup :: "project_stores \<Rightarrow> project_access \<Rightarrow> database_instance option" where
  "instance_or_lookup st a = (case pa_instance a of
     Some inst \<Rightarrow> Some inst
   | None \<Rightarrow>
       if \<not> pa_platform_admin a then None
       else (case find_project st (pa_project a) of Inl _ \<Rightarrow> None | Inr r \<Rightarrow> r))"

section \<open>What a project that is not served still answers\<close>

definition provision_base :: "string \<Rightarrow> string" where
  "provision_base pid = ''/api/provision/'' @ pid"

definition info_route :: "string \<Rightarrow> string" where
  "info_route pid = ''/api/projects/'' @ pid @ ''/info''"

definition restore_surface :: "http_method \<Rightarrow> string \<Rightarrow> string \<Rightarrow> string \<Rightarrow> bool" where
  "restore_surface m path pid step =
    (let base = provision_base pid @ ''/backup/''
     in if m = POST then path = base @ ''restore'' \<and> step = ''RESTORE_INTERRUPTED''
        else if m = GET then
          (path = base @ ''list'' \<or>
           (case cut_prefix (base @ ''restore/'') path of
              None \<Rightarrow> False
            | Some rest \<Rightarrow> rest \<noteq> [] \<and> \<not> contains_str rest ''/''))
        else False)"

definition serving_allows :: "http_method \<Rightarrow> string \<Rightarrow> database_instance option \<Rightarrow> bool" where
  "serving_allows m path inst = (case inst of
     None \<Rightarrow> True
   | Some i \<Rightarrow>
       if \<not> is_not_servable (inst_status i) then True
       else let pid = inst_project i; base = provision_base pid
         in if inst_status i = ''RESTORING'' \<and> restore_surface m path pid (inst_step i) then True
            else if path = base \<or> path = base @ ''/'' then m = GET \<or> m = HEAD \<or> m = DELETE
            else if path = base @ ''/backups/purge'' then m = POST \<and> inst_status i \<noteq> ''PENDING_DELETION''
            else if path = base @ ''/deletion/cancel'' then m = POST \<and> inst_status i = ''PENDING_DELETION''
            else if path = info_route pid \<or> path = info_route pid @ ''/'' then m = GET
            else False)"

section \<open>The gates\<close>

text \<open>
  A request within a project-scoped route: who calls, the route's \<open>{projectId}\<close>, and the access an
  earlier gate left on the context.
\<close>

record scoped_request =
  sr_ctx :: auth_context
  sr_request :: http_request
  sr_project :: string
  sr_access :: "project_access option"

definition gate_project_access :: "project_stores \<Rightarrow> bool \<Rightarrow> scoped_request \<Rightarrow> (nat, project_access) result" where
  "gate_project_access st orgs r = (case ctx_user (sr_ctx r) of
     None \<Rightarrow> Inl 401
   | Some u \<Rightarrow>
       (case (case sr_access r of
                Some a \<Rightarrow> Some a
              | None \<Rightarrow> resolve_project_access st orgs (Some u) (ctx_token (sr_ctx r)) (sr_project r)) of
          None \<Rightarrow> Inl 404
        | Some a \<Rightarrow> Inr a))"

definition require_project_access :: "project_stores \<Rightarrow> bool \<Rightarrow> scoped_request \<Rightarrow> (nat, scoped_request) result" where
  "require_project_access st orgs r =
    (if sr_project r = [] then Inr r
     else bind_result (gate_project_access st orgs r) (\<lambda>a.
       if \<not> serving_allows (request_method (sr_request r)) (url_path (sr_request r)) (instance_or_lookup st a) then Inl 409
       else if \<not> token_allows_method (ctx_token (sr_ctx r)) (request_method (sr_request r)) then Inl 403
       else Inr (r\<lparr>sr_access := Some a\<rparr>)))"

definition gate_project_role :: "string \<Rightarrow> project_stores \<Rightarrow> bool \<Rightarrow> scoped_request \<Rightarrow> (nat, scoped_request) result" where
  "gate_project_role min_role st orgs r =
    bind_result (gate_project_access st orgs r) (\<lambda>a. if role_at_least a min_role then Inr r else Inl 403)"

definition require_project_role :: "string \<Rightarrow> project_stores \<Rightarrow> bool \<Rightarrow> scoped_request \<Rightarrow> (nat, scoped_request) result" where
  "require_project_role = gate_project_role"

definition require_project_role_for_writes ::
  "string \<Rightarrow> project_stores \<Rightarrow> bool \<Rightarrow> scoped_request \<Rightarrow> (nat, scoped_request) result" where
  "require_project_role_for_writes min_role st orgs r =
    (if request_method (sr_request r) = GET \<or> request_method (sr_request r) = HEAD then Inr r
     else gate_project_role min_role st orgs r)"

text \<open>The order in which a project subtree mounts them.\<close>

definition project_chain :: "string \<Rightarrow> project_stores \<Rightarrow> bool \<Rightarrow> scoped_request \<Rightarrow> (nat, scoped_request) result" where
  "project_chain min_role st orgs r = (case require_auth (sr_ctx r) (request_method (sr_request r)) of
     Refuse n \<Rightarrow> Inl n
   | Pass \<Rightarrow> bind_result (require_project_access st orgs r) (require_project_role min_role st orgs))"

definition require_servable_project :: "project_stores option \<Rightarrow> string \<Rightarrow> verdict" where
  "require_servable_project instances pid = (case instances of
     None \<Rightarrow> Pass
   | Some st \<Rightarrow>
       if pid = [] then Pass
       else (case find_project st pid of
         Inr (Some i) \<Rightarrow> if is_not_servable (inst_status i) then Refuse 404 else Pass
       | _ \<Rightarrow> Refuse 404))"

text \<open>\<open>serves_mysql\<close> is what the route table says of the matched route.\<close>

definition require_project_database ::
  "(http_method \<Rightarrow> string \<Rightarrow> bool) \<Rightarrow> project_stores option \<Rightarrow> string \<Rightarrow> http_request \<Rightarrow> verdict" where
  "require_project_database serves_mysql instances pid r = (case instances of
     None \<Rightarrow> Refuse 503
   | Some st \<Rightarrow> (case find_project st pid of
       Inl _ \<Rightarrow> Refuse 503
     | Inr None \<Rightarrow> Refuse 404
     | Inr (Some i) \<Rightarrow>
         if inst_no_database i then Refuse 409
         else if inst_db_type i = MySQL \<and> \<not> serves_mysql (request_method r) (url_path r) then Refuse 409
         else Pass))"

section \<open>Activity\<close>

datatype activity_kind =
    Source_API | Source_Policy_Fetch | Source_Info | Source_Functions | Source_Function_Invoke | Source_Schema
  | Source_Migration | Source_Backup | Source_Realtime | Source_Storage

definition activity_source_by_segment :: "(string \<times> activity_kind) list" where
  "activity_source_by_segment =
    [(''permissions'', Source_Policy_Fetch), (''tracked-functions'', Source_Policy_Fetch),
     (''function-permissions'', Source_Policy_Fetch), (''info'', Source_Info), (''functions'', Source_Functions),
     (''schema'', Source_Schema), (''migrations'', Source_Migration), (''backup'', Source_Backup),
     (''snapshot'', Source_Backup), (''realtime'', Source_Realtime), (''storage'', Source_Storage)]"

definition trim_slashes :: "string \<Rightarrow> string" where
  "trim_slashes p = trim_right_slash (dropWhile (\<lambda>c. c = CHR ''/'') p)"

definition activity_source :: "string \<Rightarrow> activity_kind" where
  "activity_source path =
    (if prefix ''/functions/v1/'' path \<or> prefix ''/internal/invoke/'' path then Source_Function_Invoke
     else let segs = split_on CHR ''/'' (trim_slashes path)
       in case find (\<lambda>(seg, _). seg \<in> set segs) activity_source_by_segment of
            None \<Rightarrow> Source_API
          | Some (_, src) \<Rightarrow> src)"

text \<open>What is recorded for an answer: a project id and a successful status.\<close>

definition project_activity :: "string \<Rightarrow> nat \<Rightarrow> string \<Rightarrow> (string \<times> activity_kind) option" where
  "project_activity pid answer_status path =
    (if pid = [] then None else if answer_status < 400 then Some (pid, activity_source path) else None)"

section \<open>Who passes\<close>

lemma resolve_Some:
  "resolve_project_access st orgs u t pid = Some a \<longleftrightarrow>
    (\<exists>x. u = Some x \<and> token_bound_to_project t pid \<and>
      (has_permission (user_role x) Manage_Users \<and>
         a = \<lparr>pa_instance = None, pa_member = None, pa_platform_admin = True, pa_project = pid\<rparr> \<or>
       \<not> has_permission (user_role x) Manage_Users \<and> orgs \<and> (\<exists>inst m. find_project st pid = Inr (Some inst) \<and>
         inst_org inst \<noteq> [] \<and> get_org_member st (inst_org inst) (user_id x) = Inr (Some m) \<and>
         a = \<lparr>pa_instance = Some inst, pa_member = Some m, pa_platform_admin = False, pa_project = pid\<rparr>)))"
  by (auto simp: resolve_project_access_def split: option.splits sum.splits if_splits)

text \<open>
  Claim C5. Past the gates of a project route, for a caller who is not a platform administrator, stands a member
  of the organisation that owns the project named in the path, holding at least the route's role there, on a
  token not bound elsewhere and allowed the method.
\<close>

theorem project_chain_tenant:
  assumes "project_chain min_role st orgs r = Inr r'" "sr_access r = None" "sr_project r \<noteq> []"
  shows "\<exists>u. ctx_user (sr_ctx r) = Some u \<and> token_bound_to_project (ctx_token (sr_ctx r)) (sr_project r) \<and>
    token_allows_method (ctx_token (sr_ctx r)) (request_method (sr_request r)) \<and>
    (user_role u = ''platform_admin'' \<or>
     (\<exists>inst m. find_project st (sr_project r) = Inr (Some inst) \<and> inst_org inst \<noteq> [] \<and>
       get_org_member st (inst_org inst) (user_id u) = Inr (Some m) \<and> org_role_at_least (member_role m) min_role))"
proof -
  from assms obtain u a where u: "ctx_user (sr_ctx r) = Some u"
    and a: "resolve_project_access st orgs (Some u) (ctx_token (sr_ctx r)) (sr_project r) = Some a"
    and m: "token_allows_method (ctx_token (sr_ctx r)) (request_method (sr_request r))"
    and role: "role_at_least a min_role"
    by (auto simp: project_chain_def require_auth_def require_project_access_def require_project_role_def
        gate_project_role_def gate_project_access_def bind_result_Inr_iff split: verdict.splits if_splits option.splits)
  from a role have "token_bound_to_project (ctx_token (sr_ctx r)) (sr_project r) \<and>
    (user_role u = ''platform_admin'' \<or>
     (\<exists>inst m. find_project st (sr_project r) = Inr (Some inst) \<and> inst_org inst \<noteq> [] \<and>
       get_org_member st (inst_org inst) (user_id u) = Inr (Some m) \<and> org_role_at_least (member_role m) min_role))"
    by (auto simp: resolve_Some manage_users_admin role_at_least_def)
  with u m show ?thesis by blast
qed

definition example_instance :: "string \<Rightarrow> database_instance" where
  "example_instance s = \<lparr>inst_project = ''p1'', inst_org = ''o1'', inst_status = s, inst_step = [],
    inst_no_database = False, inst_db_type = PostgreSQL\<rparr>"

definition example_stores :: "string \<Rightarrow> project_stores" where
  "example_stores s = \<lparr>find_project = \<lambda>p. Inr (if p = ''p1'' then Some (example_instance s) else None),
    get_org_member = \<lambda>org usr. Inr (if org = ''o1'' \<and> usr = ''u''
      then Some \<lparr>member_org = ''o1'', member_user = ''u'', member_role = ''admin''\<rparr> else None)\<rparr>"

definition example_scoped :: "http_method \<Rightarrow> string \<Rightarrow> string \<Rightarrow> scoped_request" where
  "example_scoped m pid path = \<lparr>sr_ctx = example_ctx ''user'' (example_token ''session'' []),
    sr_request = example_request m path, sr_project = pid, sr_access = None\<rparr>"

lemma example_session_writes: "token_can_write (Some (example_token ''session'' []))"
  by (simp add: token_can_write_def example_token_def write_scopes_def token_has_scope_def scope_defs
      trim_space_graphic graphic_def)

lemma example_access:
  "resolve_project_access (example_stores s) True (Some (example_user ''user'')) (Some (example_token ''session'' [])) ''p1''
    = Some \<lparr>pa_instance = Some (example_instance s), pa_member = Some \<lparr>member_org = ''o1'', member_user = ''u'',
        member_role = ''admin''\<rparr>, pa_platform_admin = False, pa_project = ''p1''\<rparr>"
  by (simp add: resolve_Some example_user_def example_stores_def example_token_def token_bound_to_project_def
      manage_users_admin example_instance_def)

lemma serving_allows_served: "\<not> is_not_servable (inst_status i) \<Longrightarrow> serving_allows m path (Some i)"
  by (simp add: serving_allows_def)

theorem project_chain_tenant_witness:
  "\<exists>r'. project_chain ''developer'' (example_stores ''ACTIVE'') True (example_scoped POST ''p1'' ''/api/x'') = Inr r' \<and>
    org_role_at_least ''admin'' ''developer''"
proof -
  let ?r = "example_scoped POST ''p1'' ''/api/x''" and ?st = "example_stores ''ACTIVE''"
  have c: "ctx_user (sr_ctx ?r) = Some (example_user ''user'')" "ctx_token (sr_ctx ?r) = Some (example_token ''session'' [])"
    "sr_access ?r = None" "sr_project ?r = ''p1''" "request_method (sr_request ?r) = POST"
    by (simp_all add: example_scoped_def example_ctx_def example_request_def)
  note g = gate_project_access_def [of ?st True ?r, unfolded c option.case example_access]
  have s: "serving_allows m p (Some (example_instance ''ACTIVE''))" for m p
    by (rule serving_allows_served) (simp add: example_instance_def is_not_servable_def is_deletion_status_def)
  let ?a = "\<lparr>pa_instance = Some (example_instance ''ACTIVE''), pa_member = Some \<lparr>member_org = ''o1'', member_user = ''u'',
    member_role = ''admin''\<rparr>, pa_platform_admin = False, pa_project = ''p1''\<rparr>"
  have "require_project_access ?st True ?r = Inr (?r\<lparr>sr_access := Some ?a\<rparr>)"
    using example_session_writes unfolding require_project_access_def c g
    by (simp add: instance_or_lookup_def s token_allows_method_def)
  moreover have "role_at_least ?a ''developer''"
    by (simp add: role_at_least_def org_role_at_least_def org_role_rank_def)
  ultimately have "\<exists>r'. project_chain ''developer'' ?st True ?r = Inr r'"
    using example_session_writes
    by (auto simp: project_chain_def require_auth_def c token_allows_method_def require_project_role_def
        gate_project_role_def gate_project_access_def)
  then obtain r' where r: "project_chain ''developer'' (example_stores ''ACTIVE'') True (example_scoped POST ''p1'' ''/api/x'') = Inr r'" ..
  from project_chain_tenant [OF r] have "org_role_at_least ''admin'' ''developer''"
    by (auto simp: example_scoped_def example_ctx_def example_user_def example_stores_def example_instance_def)
  with r show ?thesis by blast
qed

text \<open>
  A project the caller may not see is answered 404 in every state and for every method its token allows,
  exactly as a project that does not exist: no answer confirms it.
\<close>

theorem hidden_project_404:
  assumes "ctx_user (sr_ctx r) = Some u" "user_role u \<noteq> ''platform_admin''" "sr_access r = None" "sr_project r \<noteq> []"
    and "token_allows_method (ctx_token (sr_ctx r)) (request_method (sr_request r))"
    and hidden: "\<And>inst m. find_project st (sr_project r) = Inr (Some inst) \<Longrightarrow> inst_org inst \<noteq> [] \<Longrightarrow>
      get_org_member st (inst_org inst) (user_id u) \<noteq> Inr (Some m)"
  shows "project_chain min_role st orgs r = Inl 404 \<and>
    project_chain min_role (st\<lparr>find_project := \<lambda>_. Inr None\<rparr>) orgs r = Inl 404"
proof -
  have "resolve_project_access st orgs (Some u) (ctx_token (sr_ctx r)) (sr_project r) \<noteq> Some a" for a
    using assms(2) hidden by (auto simp: resolve_Some manage_users_admin)
  then have "resolve_project_access st orgs (Some u) (ctx_token (sr_ctx r)) (sr_project r) = None"
    by (meson option.exhaust)
  moreover have "resolve_project_access (st\<lparr>find_project := \<lambda>_. Inr None\<rparr>) orgs (Some u) (ctx_token (sr_ctx r)) (sr_project r) \<noteq> Some a" for a
    using assms(2) by (auto simp: resolve_Some manage_users_admin)
  then have "resolve_project_access (st\<lparr>find_project := \<lambda>_. Inr None\<rparr>) orgs (Some u) (ctx_token (sr_ctx r)) (sr_project r) = None"
    by (meson option.exhaust)
  ultimately show ?thesis
    using assms(1,3-5) by (simp add: project_chain_def require_auth_def require_project_access_def gate_project_access_def)
qed

theorem hidden_project_404_witness:
  "project_chain ''viewer'' ((example_stores ''DELETING'')\<lparr>get_org_member := \<lambda>_ _. Inr None\<rparr>) True
    (example_scoped GET ''p1'' ''/api/provision/p1'') = Inl 404"
proof -
  let ?r = "example_scoped GET ''p1'' ''/api/provision/p1''"
  have c: "ctx_user (sr_ctx ?r) = Some (example_user ''user'')" "sr_access ?r = None" "sr_project ?r \<noteq> []"
    "request_method (sr_request ?r) = GET" "user_role (example_user ''user'') \<noteq> ''platform_admin''"
    by (simp_all add: example_scoped_def example_ctx_def example_request_def example_user_def)
  define st where "st = (example_stores ''DELETING'')\<lparr>get_org_member := \<lambda>_ _. Inr None\<rparr>"
  have "token_allows_method t GET" for t by (simp add: token_allows_method_def)
  then have t: "token_allows_method (ctx_token (sr_ctx ?r)) (request_method (sr_request ?r))" unfolding c .
  have "get_org_member st org usr \<noteq> Inr (Some m)" for org usr m by (simp add: st_def)
  then show ?thesis
    unfolding st_def [symmetric] by (intro hidden_project_404 [THEN conjunct1, OF c(1,5,2,3) t])
qed

text \<open>
  Of a project that is not served, only the owner's way out answers: reading or deleting the project,
  the data plane's info read, the purge retry, the cancellation within the grace period and, while restoring,
  the restore's own routes.
\<close>

theorem not_served_surface:
  assumes "is_not_servable (inst_status i)" "serving_allows m path (Some i)"
  shows "(let base = provision_base (inst_project i) in
    (path \<in> {base, base @ ''/''} \<and> m \<in> {GET, HEAD, DELETE}) \<or>
    (path \<in> {info_route (inst_project i), info_route (inst_project i) @ ''/''} \<and> m = GET) \<or>
    (path = base @ ''/backups/purge'' \<and> m = POST \<and> inst_status i \<noteq> ''PENDING_DELETION'') \<or>
    (path = base @ ''/deletion/cancel'' \<and> m = POST \<and> inst_status i = ''PENDING_DELETION'') \<or>
    (inst_status i = ''RESTORING'' \<and>
      (m = POST \<and> path = base @ ''/backup/restore'' \<and> inst_step i = ''RESTORE_INTERRUPTED'' \<or>
       m = GET \<and> (path = base @ ''/backup/list'' \<or>
         (\<exists>job. job \<noteq> [] \<and> CHR ''/'' \<notin> set job \<and> path = base @ ''/backup/restore/'' @ job)))))"
proof -
  define base where "base = provision_base (inst_project i)"
  have "restore_surface m path (inst_project i) (inst_step i) \<Longrightarrow>
    m = POST \<and> path = base @ ''/backup/restore'' \<and> inst_step i = ''RESTORE_INTERRUPTED'' \<or>
    m = GET \<and> (path = base @ ''/backup/list'' \<or>
      (\<exists>job. job \<noteq> [] \<and> CHR ''/'' \<notin> set job \<and> path = base @ ''/backup/restore/'' @ job))"
    unfolding restore_surface_def Let_def base_def [symmetric] append_assoc
    by (simp add: contains_char cut_prefix_Some split: if_splits option.splits)
  moreover have "is_not_servable (inst_status i)" by (rule assms(1))
  moreover note assms(2) [unfolded serving_allows_def Let_def option.case base_def [symmetric]]
  ultimately show ?thesis unfolding Let_def base_def [symmetric] by (simp split: if_split_asm)
qed

theorem not_served_surface_witness:
  "\<not> serving_allows PUT ''/api/provision/p1'' (Some (example_instance ''DELETING''))"
proof
  assume "serving_allows PUT ''/api/provision/p1'' (Some (example_instance ''DELETING''))"
  from not_served_surface [OF _ this] show False
    by (simp add: example_instance_def is_not_servable_def is_deletion_status_def Let_def)
qed

end
