(* ===== verification/Vault_Handler.thy ===== *)
theory Vault_Handler
  imports Vault_Correct Project_Access
begin

text \<open>
  The HTTP surface of the vault (\<^verbatim>\<open>internal/handler/vault.go\<close>): the gates of its routes, the binding of a
  secret path or listing prefix to the project it names, and one definition per handler. A refusal is the
  status answered; the state is the vault with the audit log of its lifecycle calls. A request body is \<open>None\<close>
  where it does not decode.
\<close>

section \<open>The handler and its state\<close>

record audit_event =
  ae_caller :: string
  ae_action :: string
  ae_outcome :: string
  ae_counts :: "int list"

record 's vault_service =
  service_vault :: "'s vault"
  audit_log :: "audit_event list"

type_synonym ('s, 'a) handler = "('s vault_service, nat, 'a) op"

text \<open>
  What the handler was wired with: the instance store (with the membership lookup behind it), whether there is a
  membership store, and the KMS wrapper of an unseal share, if any.
\<close>

record vault_wiring =
  wired_instances :: "project_stores option"
  wired_orgs :: bool
  kms_wrap :: "(string list \<Rightarrow> string list option) option"

text \<open>A call into the vault, whose error is answered with the status \<open>code\<close> gives it.\<close>

definition vault_call :: "('s, 'a) vop \<Rightarrow> (vault_error \<Rightarrow> nat) \<Rightarrow> ('s, 'a) handler" where
  "vault_call f code s = (case f (service_vault s) of
     (Inl e, v) \<Rightarrow> (Inl (code e), s\<lparr>service_vault := v\<rparr>)
   | (Inr x, v) \<Rightarrow> (Inr x, s\<lparr>service_vault := v\<rparr>))"

definition secret_error :: "vault_error \<Rightarrow> nat" where
  "secret_error e = (if e = Err_Sealed then 503 else if e = Err_Not_Found then 404 else 500)"

definition write_error :: "vault_error \<Rightarrow> nat" where
  "write_error e = (if e = Err_Sealed then 503 else 500)"

section \<open>The project a secret belongs to\<close>

definition vault_project_prefix :: string where
  "vault_project_prefix = ''projects/''"

definition project_id_for_secret :: "string \<Rightarrow> string" where
  "project_id_for_secret path = (case cut_prefix vault_project_prefix path of
     None \<Rightarrow> []
   | Some rest \<Rightarrow> let (pid, _, found) = cut_at CHR ''/'' rest in if \<not> found then [] else pid)"

definition project_id_for_secret_prefix :: "string \<Rightarrow> string" where
  "project_id_for_secret_prefix pre = (case cut_prefix vault_project_prefix pre of
     None \<Rightarrow> []
   | Some rest \<Rightarrow> let (pid, _, _) = cut_at CHR ''/'' rest in pid)"

definition is_database_login :: "string \<Rightarrow> string \<Rightarrow> bool" where
  "is_database_login path pid \<longleftrightarrow> trim_prefix (''projects/'' @ pid @ ''/credentials/'') path
    \<in> {''admin'', ''auth_admin'', ''excalibase_app'', ''cdc_watcher'', ''excalibase_scheduler''}"

definition refuse_secret_of_unservable :: "vault_wiring \<Rightarrow> string \<Rightarrow> verdict" where
  "refuse_secret_of_unservable H path = (case wired_instances H of
     None \<Rightarrow> Pass
   | Some st \<Rightarrow>
       let pid = project_id_for_secret path
       in if pid = [] then Pass
          else (case find_project st pid of
            Inl _ \<Rightarrow> Refuse 404
          | Inr None \<Rightarrow> Refuse 404
          | Inr (Some inst) \<Rightarrow>
              if is_not_servable (inst_status inst) then Refuse 404
              else if inst_no_database inst \<and> is_database_login path pid then Refuse 409
              else Pass))"

definition caller_may_see_project :: "vault_wiring \<Rightarrow> user \<Rightarrow> access_token option \<Rightarrow> string \<Rightarrow> bool" where
  "caller_may_see_project H u t pid = (case wired_instances H of
     None \<Rightarrow> False
   | Some st \<Rightarrow> wired_orgs H \<and> resolve_project_access st (wired_orgs H) (Some u) t pid \<noteq> None)"

definition authorize_secret_read :: "vault_wiring \<Rightarrow> auth_context \<Rightarrow> string \<Rightarrow> verdict" where
  "authorize_secret_read H c path = (case ctx_user c of
     None \<Rightarrow> Refuse 401
   | Some u \<Rightarrow>
       let pid = project_id_for_secret path
       in if \<not> is_capability_token (ctx_token c) \<and> pid \<noteq> [] \<and> \<not> caller_may_see_project H u (ctx_token c) pid
          then Refuse 404 else Pass)"

definition authorize_secret_list :: "vault_wiring \<Rightarrow> auth_context \<Rightarrow> string \<Rightarrow> verdict" where
  "authorize_secret_list H c pre = (case ctx_user c of
     None \<Rightarrow> Refuse 401
   | Some u \<Rightarrow>
       let pid = project_id_for_secret_prefix pre
       in if pid = [] then
            (if \<not> has_permission (user_role u) Manage_Users \<or> \<not> is_unrestricted_credential (ctx_token c)
             then Refuse 403 else Pass)
          else if \<not> caller_may_see_project H u (ctx_token c) pid then Refuse 404 else Pass)"

section \<open>The handlers of secrets\<close>

definition gated :: "verdict \<Rightarrow> ('s, 'a) handler \<Rightarrow> ('s, 'a) handler" where
  "gated v k = (case v of Pass \<Rightarrow> k | Refuse n \<Rightarrow> raise_err n)"

definition get_secret_handler ::
  "vault_wiring \<Rightarrow> 's vault_store \<Rightarrow> platform \<Rightarrow> auth_context \<Rightarrow> string \<Rightarrow> ('s, secret_data) handler" where
  "get_secret_handler H S P c path =
    gated (authorize_secret_read H c path)
      (gated (refuse_secret_of_unservable H path)
        (vault_call (vault_get S P path) secret_error))"

definition list_secrets_handler ::
  "vault_wiring \<Rightarrow> 's vault_store \<Rightarrow> auth_context \<Rightarrow> string \<Rightarrow> ('s, string list) handler" where
  "list_secrets_handler H S c pre = gated (authorize_secret_list H c pre) (vault_call (vault_list S pre) write_error)"

definition put_vault_secret :: "'s vault_store \<Rightarrow> platform \<Rightarrow> string \<Rightarrow> secret_data \<Rightarrow> bool \<Rightarrow> ('s, bool) vop" where
  "put_vault_secret S P path data if_absent =
    (if if_absent then vault_put_if_absent S P path data
     else then_op (vault_put S P path data) (ret True))"

definition put_secret_handler ::
  "'s vault_store \<Rightarrow> platform \<Rightarrow> string \<Rightarrow> secret_data option \<Rightarrow> string \<Rightarrow> ('s, unit) handler" where
  "put_secret_handler S P path body if_none_match = (case body of
     None \<Rightarrow> raise_err 400
   | Some data \<Rightarrow>
       bind_op (vault_call (put_vault_secret S P path data (if_none_match = ''*'')) write_error) (\<lambda>written.
       if written then ret () else raise_err 412))"

definition delete_secret_handler :: "'s vault_store \<Rightarrow> string \<Rightarrow> ('s, unit) handler" where
  "delete_secret_handler S path = vault_call (vault_delete S path) write_error"

definition delete_prefix_handler :: "'s vault_store \<Rightarrow> string \<Rightarrow> ('s, nat) handler" where
  "delete_prefix_handler S pre =
    (if pre = [] then raise_err 400 else vault_call (vault_delete_prefix S pre) write_error)"

definition public_key_handler :: "'s vault_store \<Rightarrow> platform \<Rightarrow> ('s, string) handler" where
  "public_key_handler S P = vault_call (get_public_key S P) secret_error"

section \<open>The handlers of the lifecycle\<close>

definition audit_lifecycle :: "auth_context \<Rightarrow> string \<Rightarrow> string \<Rightarrow> int list \<Rightarrow> ('s, unit) handler" where
  "audit_lifecycle c action outcome counts s = (Inr (), s\<lparr>audit_log := audit_log s @
    [\<lparr>ae_caller = (case ctx_user c of None \<Rightarrow> [] | Some u \<Rightarrow> user_id u), ae_action = action, ae_outcome = outcome,
      ae_counts = counts\<rparr>]\<rparr>)"

text \<open>A lifecycle call: audited as refused, or with the outcome its result has.\<close>

definition audited ::
  "auth_context \<Rightarrow> string \<Rightarrow> ('s, 'a) vop \<Rightarrow> ('a \<Rightarrow> string \<times> int list) \<Rightarrow> ('s, 'a) handler" where
  "audited c action f outcome s = (case vault_call f (\<lambda>_. 400) s of
     (Inl n, s1) \<Rightarrow> then_op (audit_lifecycle c action ''refused'' []) (raise_err n) s1
   | (Inr x, s1) \<Rightarrow> then_op (audit_lifecycle c action (fst (outcome x)) (snd (outcome x))) (ret x) s1)"

definition init_wrapped_handler ::
  "'s vault_store \<Rightarrow> platform \<Rightarrow> (string list \<Rightarrow> string list option) \<Rightarrow> int \<Rightarrow> int \<Rightarrow> ('s, init_result) handler" where
  "init_wrapped_handler S P wrap shares thr s =
    (if shares \<noteq> 1 \<or> thr \<noteq> 1 then (Inl 400, s)
     else if initialized S (service_vault s) then (Inl 400, s)
     else vault_call (init_wrapped S P 1 1 wrap) (\<lambda>_. 502) s)"

definition init_handler ::
  "vault_wiring \<Rightarrow> 's vault_store \<Rightarrow> platform \<Rightarrow> auth_context \<Rightarrow> (int \<times> int) option \<Rightarrow> ('s, init_result) handler" where
  "init_handler H S P c body = (case body of
     None \<Rightarrow> raise_err 400
   | Some (n, t) \<Rightarrow>
       let shares = (if n < 1 then 5 else n); thr = (if t < 1 then 3 else t)
       in case kms_wrap H of
            Some wrap \<Rightarrow> init_wrapped_handler S P wrap shares thr
          | None \<Rightarrow> audited c ''vault.init'' (vault_init S P shares thr)
              (\<lambda>res. (''initialized'', [int (length (result_shares res)), result_threshold res])))"

definition unseal_handler ::
  "'s vault_store \<Rightarrow> platform \<Rightarrow> auth_context \<Rightarrow> string option \<Rightarrow> ('s, unseal_progress) handler" where
  "unseal_handler S P c body = (case body of
     None \<Rightarrow> raise_err 400
   | Some share \<Rightarrow> audited c ''vault.unseal'' (unseal S P share)
       (\<lambda>p. (if up_done p then ''unsealed'' else ''accepted'', [up_progress p, up_threshold p])))"

definition seal_handler :: "auth_context \<Rightarrow> ('s, unit) handler" where
  "seal_handler c s = audit_lifecycle c ''vault.seal'' ''sealed'' [] (s\<lparr>service_vault := seal_vault (service_vault s)\<rparr>)"

definition rekey_handler ::
  "vault_wiring \<Rightarrow> 's vault_store \<Rightarrow> platform \<Rightarrow> auth_context \<Rightarrow> (int \<times> int) option \<Rightarrow> ('s, init_result) handler" where
  "rekey_handler H S P c body =
    (if kms_wrap H \<noteq> None then raise_err 409
     else case body of
       None \<Rightarrow> raise_err 400
     | Some (n, t) \<Rightarrow> audited c ''vault.rekey'' (rekey S P n t)
         (\<lambda>res. (''rekeyed'', [int (length (result_shares res)), result_threshold res])))"

section \<open>The gates of the routes\<close>

text \<open>\<open>Routes\<close>: what stands before every route but the public reads, and before a single secret's read.\<close>

definition vault_route_gate :: "auth_context \<Rightarrow> http_request \<Rightarrow> verdict" where
  "vault_route_gate c r =
    and_then (require_auth c (request_method r))
      (and_then (require_permission View_Credentials c)
        (unless_granted_capability (ctx_token c) r (require_unrestricted_for_writes c (request_method r))))"

definition get_secret_route ::
  "vault_wiring \<Rightarrow> 's vault_store \<Rightarrow> platform \<Rightarrow> auth_context \<Rightarrow> http_request \<Rightarrow> string \<Rightarrow> ('s, secret_data) handler" where
  "get_secret_route H S P c r path =
    gated (and_then (vault_route_gate c r) (require_write_capable_for_secrets c)) (get_secret_handler H S P c path)"

definition list_secrets_route ::
  "vault_wiring \<Rightarrow> 's vault_store \<Rightarrow> auth_context \<Rightarrow> http_request \<Rightarrow> string \<Rightarrow> ('s, string list) handler" where
  "list_secrets_route H S c r pre = gated (vault_route_gate c r) (list_secrets_handler H S c pre)"

section \<open>Reading a project's secret\<close>

lemma gated_Inr: "gated v k s = (Inr x, s') \<longleftrightarrow> v = Pass \<and> k s = (Inr x, s')"
  by (cases v) (simp_all add: gated_def raise_err_def)

lemma vault_call_Inr:
  "vault_call f code s = (Inr x, s') \<longleftrightarrow>
    (\<exists>v. f (service_vault s) = (Inr x, v) \<and> s' = s\<lparr>service_vault := v\<rparr>)"
  by (auto simp: vault_call_def split: prod.splits sum.splits)

lemma cut_at_append: "CHR ''/'' \<notin> set pid \<Longrightarrow> cut_at CHR ''/'' (pid @ CHR ''/'' # rest) = (pid, rest, True)"
  by (simp add: cut_at_def Let_def takeWhile_tail takeWhile_append dropWhile_append)

lemma project_id_of_secret:
  assumes "CHR ''/'' \<notin> set pid"
  shows "project_id_for_secret (vault_project_prefix @ pid @ CHR ''/'' # rest) = pid"
  by (simp add: project_id_for_secret_def cut_prefix_Some cut_at_append [OF assms] cut_prefix_def)

lemma view_credentials_roles:
  "has_permission role View_Credentials \<longleftrightarrow> role = ''platform_admin'' \<or> role = ''platform_operator''"
  by (auto simp: has_permission_def role_permissions_def split: if_splits)

text \<open>
  A secret of a project leaves the vault to a human caller only if the caller is a platform administrator
  or a member of the organisation that owns the project the path names, on a token not bound elsewhere, and only
  while that project is served.
\<close>

theorem secret_read_tenant:
  assumes "get_secret_route H S P c r path s = (Inr d, s')"
    and "path = vault_project_prefix @ pid @ CHR ''/'' # rest" "pid \<noteq> []" "CHR ''/'' \<notin> set pid"
    and "\<not> is_capability_token (ctx_token c)"
  shows "\<exists>u st inst. ctx_user c = Some u \<and> wired_instances H = Some st \<and>
    find_project st pid = Inr (Some inst) \<and> \<not> is_not_servable (inst_status inst) \<and>
    user_role u \<in> {''platform_admin'', ''platform_operator''} \<and> token_bound_to_project (ctx_token c) pid \<and>
    (user_role u = ''platform_admin'' \<or>
      inst_org inst \<noteq> [] \<and> (\<exists>m. get_org_member st (inst_org inst) (user_id u) = Inr (Some m))) \<and>
    fst (vault_get S P path (service_vault s)) = Inr d"
proof -
  from assms(1) have gate: "vault_route_gate c r = Pass" and auth: "authorize_secret_read H c path = Pass"
    and serve: "refuse_secret_of_unservable H path = Pass"
    and get: "fst (vault_get S P path (service_vault s)) = Inr d"
    by (auto simp: get_secret_route_def get_secret_handler_def gated_Inr vault_call_Inr)
  have pid: "project_id_for_secret path = pid" using project_id_of_secret [OF assms(4)] assms(2) by simp
  from auth obtain u where u: "ctx_user c = Some u" by (auto simp: authorize_secret_read_def split: option.splits)
  with auth pid assms(3,5) have see: "caller_may_see_project H u (ctx_token c) pid"
    by (auto simp: authorize_secret_read_def Let_def split: if_splits)
  then obtain st a where st: "wired_instances H = Some st"
    and a: "resolve_project_access st (wired_orgs H) (Some u) (ctx_token c) pid = Some a"
    by (auto simp: caller_may_see_project_def split: option.splits)
  from serve st pid assms(3) obtain inst where inst: "find_project st pid = Inr (Some inst)" "\<not> is_not_servable (inst_status inst)"
    by (auto simp: refuse_secret_of_unservable_def Let_def split: sum.splits option.splits if_splits)
  from gate u have "user_role u \<in> {''platform_admin'', ''platform_operator''}"
    by (simp add: vault_route_gate_def require_permission_def view_credentials_roles split: if_splits)
  with u st inst get a show ?thesis by (auto simp: resolve_Some manage_users_admin)
qed

text \<open>An operator who is a member of the organisation of \<open>p1\<close>, on an unscoped token, and an unsealed vault.\<close>

definition operator_ctx :: auth_context where
  "operator_ctx = example_ctx ''platform_operator'' (example_token [] [])"

definition example_wiring :: vault_wiring where
  "example_wiring = \<lparr>wired_instances = Some (example_stores ''ACTIVE''), wired_orgs = True, kms_wrap = None\<rparr>"

lemma operator_ctx_simps [simp]:
  "ctx_user operator_ctx = Some (example_user ''platform_operator'')" "ctx_token operator_ctx = Some (example_token [] [])"
  by (simp_all add: operator_ctx_def example_ctx_def)

lemma unscoped_token [simp]:
  "\<not> is_capability_token (Some (example_token [] []))" "token_can_write (Some (example_token [] []))"
  "token_bound_to_project (Some (example_token [] [])) pid"
  by (simp_all add: is_capability_token_def example_token_def token_can_write_def token_bound_to_project_def)

lemma operator_passes: "vault_route_gate operator_ctx (example_request GET p) = Pass"
  by (simp add: vault_route_gate_def require_auth_def token_allows_method_def example_request_def
      require_permission_def example_user_def view_credentials_roles unless_granted_capability_def
      require_unrestricted_for_writes_def)

lemma operator_sees:
  "caller_may_see_project example_wiring (example_user ''platform_operator'') (Some (example_token [] [])) pid \<longleftrightarrow> pid = ''p1''"
  by (auto simp: caller_may_see_project_def example_wiring_def resolve_project_access_def example_user_def
      manage_users_admin example_stores_def example_instance_def)

theorem secret_read_tenant_witness:
  "\<exists>s d s'. get_secret_route example_wiring (postgres_ops Some sort) plain_platform operator_ctx
      (example_request GET ''/x'') (vault_project_prefix @ ''p1'' @ CHR ''/'' # ''c'') s = (Inr d, s') \<and>
    is_ok (find_project (example_stores ''ACTIVE'') ''p1'')"
proof -
  let ?path = "vault_project_prefix @ ''p1'' @ CHR ''/'' # ''c''" and ?d = "[''key'' \<mapsto> ''x'']"
  have "\<exists>s. vault_put (postgres_ops Some sort) plain_platform ?path ?d
      ((fresh_vault empty_pg []\<lparr>barrier_key := Some (ones 32)\<rparr>)\<lparr>rng := put_entropy @ []\<rparr>)
    = (Inr (), fresh_vault empty_pg []\<lparr>barrier_key := Some (ones 32), vstore := s, rng := []\<rparr>) \<and> pg_up s"
    by (rule pg_put_example [of _ "ones 32"]) (simp_all add: empty_pg_def)
  then obtain v' where put: "vault_put (postgres_ops Some sort) plain_platform ?path ?d
      ((fresh_vault empty_pg []\<lparr>barrier_key := Some (ones 32)\<rparr>)\<lparr>rng := put_entropy @ []\<rparr>) = (Inr (), v')" by blast
  have "data_ok plain_platform ?d" by (simp add: data_ok_def plain_platform_def char_of_def bit_0)
  from pg.put_get_same(1) [OF plain_platform_ok this _ put]
  have get: "vault_get (postgres_ops Some sort) plain_platform ?path v' = (Inr ?d, v')"
    by (simp add: pg_avail_def empty_pg_def)
  define s where "s = \<lparr>service_vault = v', audit_log = []\<rparr>"
  have "project_id_for_secret ?path = ''p1''" by (rule project_id_of_secret) simp
  then have "authorize_secret_read example_wiring operator_ctx ?path = Pass"
    "refuse_secret_of_unservable example_wiring ?path = Pass"
    by (simp add: authorize_secret_read_def operator_sees)
      (simp add: refuse_secret_of_unservable_def example_wiring_def
        example_stores_def example_instance_def is_not_servable_def is_deletion_status_def
        \<open>project_id_for_secret ?path = ''p1''\<close> [simplified])
  then have r: "get_secret_route example_wiring (postgres_ops Some sort) plain_platform operator_ctx
      (example_request GET ''/x'') ?path s = (Inr ?d, s)"
    using get by (simp add: get_secret_route_def get_secret_handler_def gated_Inr vault_call_Inr operator_passes
        require_write_capable_for_secrets_def token_may_reveal_secrets_def s_def)
  from secret_read_tenant [OF r refl] have "is_ok (find_project (example_stores ''ACTIVE'') ''p1'')"
    by (auto simp: example_wiring_def)
  with r show ?thesis by blast
qed

section \<open>Listing by a prefix\<close>

text \<open>
  The prefix is matched character by character, not by path segment: a member of \<open>p1\<close> only, listing the
  prefix \<open>projects/p1\<close>, is answered the path of a secret of \<open>p10\<close>, whose project may not be seen.
\<close>

theorem list_prefix_spans_projects:
  "\<exists>s'. list_secrets_route example_wiring memory_ops operator_ctx (example_request GET ''/api/vault/secrets-list'')
      ''projects/p1''
      \<lparr>service_vault = fresh_vault \<lparr>mem_barrier = None, mem_meta = None,
          mem_secrets = [(''projects/p10/credentials/admin'', [])]\<rparr> []\<lparr>barrier_key := Some (ones 32)\<rparr>,
        audit_log = []\<rparr>
    = (Inr [''projects/p10/credentials/admin''], s') \<and>
   \<not> caller_may_see_project example_wiring (example_user ''platform_operator'') (ctx_token operator_ctx) ''p10''"
proof -
  have "authorize_secret_list example_wiring operator_ctx ''projects/p1'' = Pass"
    by (simp add: authorize_secret_list_def operator_sees project_id_for_secret_prefix_def vault_project_prefix_def
        cut_prefix_def cut_at_def)
  then show ?thesis
    by (simp add: list_secrets_route_def list_secrets_handler_def gated_Inr vault_call_Inr operator_passes operator_sees
        vault_list_def with_barrier_def store_read_def lift_result_def ret_def memory_ops_def mem_list_secrets_def)
qed

section \<open>Writes and the lifecycle\<close>

text \<open>
  A write to the vault is only let through for the two platform roles that may view credentials, and then
  only on a session or an unrestricted token or, for a capability token, for the one lifecycle call it was granted.
\<close>

theorem vault_writes_unrestricted:
  assumes "vault_route_gate c r = Pass" "request_method r \<notin> {GET, HEAD}"
  shows "\<exists>u. ctx_user c = Some u \<and> user_role u \<in> {''platform_admin'', ''platform_operator''} \<and>
    (is_unrestricted_credential (ctx_token c) \<or>
     is_capability_token (ctx_token c) \<and> (\<exists>want \<in> {email_relay_capability, vault_init_capability, vault_unseal_capability}.
       required_capability (request_method r) (url_path r) = Some want \<and> token_grants (ctx_token c) want))"
proof -
  from assms(1) obtain u where u: "ctx_user c = Some u" "user_role u \<in> {''platform_admin'', ''platform_operator''}"
    and w: "unless_granted_capability (ctx_token c) r (require_unrestricted_for_writes c (request_method r)) = Pass"
    by (auto simp: vault_route_gate_def require_permission_def view_credentials_roles split: option.splits if_splits)
  have "want \<in> {email_relay_capability, vault_init_capability, vault_unseal_capability}"
    if "required_capability (request_method r) (url_path r) = Some want" for want
    using that assms(2) by (auto simp: required_capability_def Let_def split: if_splits)
  with w assms(2) have "is_unrestricted_credential (ctx_token c) \<or>
     is_capability_token (ctx_token c) \<and> (\<exists>want \<in> {email_relay_capability, vault_init_capability, vault_unseal_capability}.
       required_capability (request_method r) (url_path r) = Some want \<and> token_grants (ctx_token c) want)"
    unfolding unless_granted_capability_def require_unrestricted_for_writes_def require_unrestricted_def
    by (auto split: if_splits option.splits)
  with u show ?thesis by blast
qed

theorem vault_writes_unrestricted_witness:
  "vault_route_gate (example_ctx ''user'' (example_token [] [])) (example_request PUT ''/api/vault/secrets/a'') \<noteq> Pass"
proof
  assume "vault_route_gate (example_ctx ''user'' (example_token [] [])) (example_request PUT ''/api/vault/secrets/a'') = Pass"
  from vault_writes_unrestricted [OF this] show False
    by (simp add: example_ctx_def example_user_def example_request_def)
qed

lemma audited_log:
  "\<exists>ev. ae_action ev = action \<and> audit_log (snd (audited c action f outcome s)) = audit_log s @ [ev]"
  by (auto simp: audited_def vault_call_def audit_lifecycle_def op_simps ret_def raise_err_def bind_op_def then_op_def
      split: prod.splits sum.splits)

lemma vault_call_log [simp]: "audit_log (snd (vault_call f code s)) = audit_log s"
  by (auto simp: vault_call_def split: prod.splits sum.splits)

text \<open>
  Each lifecycle call with a body that decodes appends exactly one event to the audit log, whether it was
  accepted or refused. An initialisation under a KMS is the exception: it appends none, even where it succeeds.
\<close>

theorem lifecycle_audited:
  "(\<exists>ev. ae_action ev = ''vault.init'' \<and> audit_log (snd (init_handler H S P c (Some (n, t)) s))
      = audit_log s @ (if kms_wrap H = None then [ev] else [])) \<and>
   (\<exists>ev. ae_action ev = ''vault.unseal'' \<and>
      audit_log (snd (unseal_handler S P c (Some share) s)) = audit_log s @ [ev]) \<and>
   (\<exists>ev. ae_action ev = ''vault.seal'' \<and> audit_log (snd (seal_handler c s)) = audit_log s @ [ev]) \<and>
   (\<exists>ev. ae_action ev = ''vault.rekey'' \<and> audit_log (snd (rekey_handler H S P c (Some (n, t)) s))
      = audit_log s @ (if kms_wrap H = None then [ev] else []))"
proof (intro conjI)
  show "\<exists>ev. ae_action ev = ''vault.init'' \<and> audit_log (snd (init_handler H S P c (Some (n, t)) s))
      = audit_log s @ (if kms_wrap H = None then [ev] else [])"
  proof (cases "kms_wrap H")
    case None
    then show ?thesis using audited_log by (simp add: init_handler_def Let_def) blast
  next
    case (Some w)
    have "audit_log (snd (init_wrapped_handler S P w k l s)) = audit_log s" for k l
      by (simp add: init_wrapped_handler_def)
    with Some show ?thesis by (auto simp: init_handler_def Let_def intro: exI [of _ "undefined\<lparr>ae_action := ''vault.init''\<rparr>"])
  qed
  show "\<exists>ev. ae_action ev = ''vault.rekey'' \<and> audit_log (snd (rekey_handler H S P c (Some (n, t)) s))
      = audit_log s @ (if kms_wrap H = None then [ev] else [])"
  proof (cases "kms_wrap H")
    case None
    then show ?thesis using audited_log by (simp add: rekey_handler_def) blast
  next
    case (Some w)
    then show ?thesis by (auto simp: rekey_handler_def raise_err_def intro: exI [of _ "undefined\<lparr>ae_action := ''vault.rekey''\<rparr>"])
  qed
  show "\<exists>ev. ae_action ev = ''vault.unseal'' \<and> audit_log (snd (unseal_handler S P c (Some share) s)) = audit_log s @ [ev]"
    using audited_log by (simp add: unseal_handler_def) blast
  show "\<exists>ev. ae_action ev = ''vault.seal'' \<and> audit_log (snd (seal_handler c s)) = audit_log s @ [ev]"
    by (auto simp: seal_handler_def audit_lifecycle_def)
qed

text \<open>Under a KMS what \<open>init\<close> answers is what the wrapper made of the one share.\<close>

lemma kms_init_answers_wrapped:
  fixes s :: "'s vault_service"
  assumes "kms_wrap H = Some wrap" "init_handler H S P c body s = (Inr res, s')"
  shows "\<exists>share. wrap [share] = Some (result_shares res) \<and> length (result_shares res) = 1"
proof -
  from assms obtain v where "init_wrapped S P 1 1 wrap (service_vault s) = (Inr res, v)"
    by (auto simp: init_handler_def init_wrapped_handler_def vault_call_Inr raise_err_def Let_def
        split: option.splits if_splits)
  then obtain mek hs and v1 v2 :: "'s vault" where hs: "split_mek_to_hex mek 1 1 v1 = (Inr hs, v2)" and
    w: "wrap hs = Some (result_shares res)" "length (result_shares res) = length hs"
    by (auto simp: init_wrapped_def op_Inr_iff split: if_splits prod.splits)
  from hs have "hs = [hex_encode mek]" by (auto simp: split_mek_to_hex_def split_mek_def op_Inr_iff)
  with w show ?thesis by auto
qed

end
