(* ===== verification/Task_Queue.thy ===== *)
theory Task_Queue
  imports Go_Strings
begin

text \<open>
  The queue of deferred calls (\<^verbatim>\<open>internal/scheduler\<close>: \<^verbatim>\<open>row_guard.go\<close>, \<^verbatim>\<open>worker.go\<close>, \<^verbatim>\<open>semaphore.go\<close>
  and \<open>Cancel\<close>): the table \<^verbatim>\<open>excalibase_scheduled_functions\<close> of a project's database as a list of rows, each
  SQL statement as an update of it, the worker's sweep, and the step relation of any number of workers on one
  table. The tenant owns the table, so a row may hold anything: a text column is an option (SQL's NULL).
  Instants are microseconds. JSON validity and the registry of deployed functions are parameters; the overflow
  of the 32-bit \<^verbatim>\<open>attempts\<close> column is left out.
\<close>

section \<open>Names and limits (\<^verbatim>\<open>row_guard.go\<close>)\<close>

definition default_max_args_bytes :: int where
  "default_max_args_bytes = 1024 * 1024"

definition default_project_concurrency :: int where
  "default_project_concurrency = 4"

definition max_module_name_len :: nat where
  "max_module_name_len = 128"

definition max_export_name_len :: nat where
  "max_export_name_len = 64"

definition max_task_id_len :: nat where
  "max_task_id_len = 64"

definition max_cron_name_len :: nat where
  "max_cron_name_len = 128"

definition letter_char :: "char \<Rightarrow> bool" where
  "letter_char c = (let n = of_char c :: nat in 65 \<le> n \<and> n \<le> 90 \<or> 97 \<le> n \<and> n \<le> 122)"

definition word_char :: "char \<Rightarrow> bool" where
  "word_char c \<longleftrightarrow> letter_char c \<or> is_digit c \<or> c = CHR ''_''"

text \<open>\<^verbatim>\<open>modulePattern\<close> and \<^verbatim>\<open>exportPattern\<close>.\<close>

definition module_segment :: "string \<Rightarrow> bool" where
  "module_segment seg = (case seg of [] \<Rightarrow> False
   | c # cs \<Rightarrow> word_char c \<and> list_all (\<lambda>x. word_char x \<or> x = CHR ''.'' \<or> x = CHR ''-'') cs)"

definition module_pattern :: "string \<Rightarrow> bool" where
  "module_pattern name = list_all module_segment (split_on CHR ''/'' name)"

definition export_pattern :: "string \<Rightarrow> bool" where
  "export_pattern name = (case name of [] \<Rightarrow> False
   | c # cs \<Rightarrow> (letter_char c \<or> c = CHR ''_'' \<or> c = CHR ''$'') \<and>
       list_all (\<lambda>x. word_char x \<or> x = CHR ''$'') cs \<and> length cs \<le> 63)"

text \<open>\<open>splitPath\<close>: the characters since the last slash are the segment under construction.\<close>

fun split_path_loop :: "string \<Rightarrow> string \<Rightarrow> string list" where
  "split_path_loop seg [] = [rev seg]"
| "split_path_loop seg (c # cs) =
    (if c = CHR ''/'' then rev seg # split_path_loop [] cs else split_path_loop (c # seg) cs)"

definition split_path :: "string \<Rightarrow> string list" where
  "split_path name = split_path_loop [] name"

definition valid_module_name :: "string \<Rightarrow> bool" where
  "valid_module_name name =
    (if name = [] \<or> length name > max_module_name_len then False
     else if list_ex (\<lambda>seg. seg = ''.'' \<or> seg = ''..'') (split_path name) then False
     else module_pattern name)"

definition valid_export_name :: "string \<Rightarrow> bool" where
  "valid_export_name name = export_pattern name"

definition valid_target :: "string \<Rightarrow> string \<Rightarrow> bool" where
  "valid_target module_name export_name \<longleftrightarrow> valid_module_name module_name \<and> valid_export_name export_name"

definition valid_task_id :: "string \<Rightarrow> bool" where
  "valid_task_id i \<longleftrightarrow> i \<noteq> [] \<and> length i \<le> max_task_id_len"

definition clamp_attempts :: "int \<Rightarrow> int \<Rightarrow> int" where
  "clamp_attempts n mx = (if n < 0 then 0 else if n > mx then mx else n)"

section \<open>The table\<close>

datatype refusal = Malformed_Row | Foreign_Project | Bad_Identifier | Bad_Args | Unknown_Function | Oversized_Row
  | Dispatch_Panicked

datatype task_note = Note_Refused refusal | Note_Reclaimed | Note_Error string

record task_row =
  task_id :: "string option"
  task_project :: "string option"
  task_module :: "string option"
  task_export :: "string option"
  task_args :: "string option"
  scheduled_for :: int
  task_status :: string
  attempts :: "int option"
  last_error :: "task_note option"
  claimed_at :: "int option"

definition st_pending :: string where "st_pending = ''pending''"
definition st_running :: string where "st_running = ''running''"
definition st_failed :: string where "st_failed = ''failed''"
definition st_completed :: string where "st_completed = ''completed''"
definition st_skipped :: string where "st_skipped = ''skipped''"
definition st_cancelled :: string where "st_cancelled = ''cancelled''"

lemmas st_defs = st_pending_def st_running_def st_failed_def st_completed_def st_skipped_def st_cancelled_def

lemma st_distinct [simp]:
  "st_pending \<noteq> st_running" "st_pending \<noteq> st_failed" "st_running \<noteq> st_failed" "st_completed \<noteq> st_pending"
  "st_completed \<noteq> st_running" "st_skipped \<noteq> st_pending" "st_skipped \<noteq> st_running" "st_cancelled \<noteq> st_pending"
  "st_cancelled \<noteq> st_running" "st_running \<noteq> st_pending" "st_failed \<noteq> st_pending" "st_failed \<noteq> st_running"
  by (simp_all add: st_defs)

text \<open>The worker's limits, and what it knows: its project and the registry of deployed functions.\<close>

record worker_config =
  wc_project :: string
  wc_functions :: "(string \<Rightarrow> string \<Rightarrow> (unit, bool) result) option"
  wc_poll :: int
  wc_batch :: int
  wc_max_attempts :: int
  wc_max_args :: int
  wc_lease :: int
  wc_concurrent :: int

definition default_claim_lease :: int where
  "default_claim_lease = 300"

text \<open>\<open>NewWorker\<close>: a limit that is not positive takes its default; times are seconds here.\<close>

definition new_worker :: "worker_config \<Rightarrow> worker_config" where
  "new_worker c = c
    \<lparr>wc_poll := if wc_poll c \<le> 0 then 5 else wc_poll c,
     wc_batch := if wc_batch c \<le> 0 then 32 else wc_batch c,
     wc_max_attempts := if wc_max_attempts c \<le> 0 then 5 else wc_max_attempts c,
     wc_max_args := if wc_max_args c \<le> 0 then default_max_args_bytes else wc_max_args c,
     wc_concurrent := if wc_concurrent c \<le> 0 then default_project_concurrency else wc_concurrent c,
     wc_lease := if wc_lease c \<le> 0 then default_claim_lease else wc_lease c\<rparr>"

section \<open>SQL statements\<close>

text \<open>A comparison with NULL is NULL, \<^verbatim>\<open>AND\<close> and \<^verbatim>\<open>NOT\<close> are three-valued, and a \<^verbatim>\<open>WHERE\<close> takes only true.\<close>

definition sql_le :: "nat option \<Rightarrow> int \<Rightarrow> bool option" where
  "sql_le x b = map_option (\<lambda>n. int n \<le> b) x"

fun sql_and :: "bool option \<Rightarrow> bool option \<Rightarrow> bool option" where
  "sql_and (Some False) _ = Some False"
| "sql_and _ (Some False) = Some False"
| "sql_and (Some True) y = y"
| "sql_and None _ = None"

definition sql_not :: "bool option \<Rightarrow> bool option" where
  "sql_not = map_option Not"

text \<open>The size predicate both statements spell out (\<open>sizeBoundArgs\<close> binds the same limits to both).\<close>

definition within_bounds :: "worker_config \<Rightarrow> task_row \<Rightarrow> bool option" where
  "within_bounds cfg r =
    sql_and (sql_and (sql_and (sql_le (map_option length (task_args r)) (wc_max_args cfg))
      (sql_le (map_option length (task_id r)) (int max_task_id_len)))
      (sql_le (map_option length (task_module r)) (int max_module_name_len)))
      (sql_le (map_option length (task_export r)) (int max_export_name_len))"

text \<open>
  The rows a subquery \<^verbatim>\<open>ORDER BY key LIMIT n FOR UPDATE SKIP LOCKED\<close> names, by their position (\<^verbatim>\<open>ctid\<close>);
  \<open>L\<close> are the positions other transactions have locked. Without an \<^verbatim>\<open>ORDER BY\<close> the order is the table's.
\<close>

definition pick :: "nat set \<Rightarrow> int \<Rightarrow> (task_row \<Rightarrow> int) \<Rightarrow> (task_row \<Rightarrow> bool) \<Rightarrow> task_row list \<Rightarrow> nat list" where
  "pick L n key P rows = map fst (take (nat n)
     (sort_key (\<lambda>(i, r). key r) (filter (\<lambda>(i, r). P r \<and> i \<notin> L) (enumerate 0 rows))))"

definition update_at :: "nat list \<Rightarrow> (task_row \<Rightarrow> task_row) \<Rightarrow> task_row list \<Rightarrow> task_row list" where
  "update_at is f rows = map (\<lambda>(i, r). if i \<in> set is then f r else r) (enumerate 0 rows)"

definition update_id :: "string \<Rightarrow> (task_row \<Rightarrow> task_row) \<Rightarrow> task_row list \<Rightarrow> task_row list" where
  "update_id i f rows = map (\<lambda>r. if task_id r = Some i then f r else r) rows"

definition lease_us :: "worker_config \<Rightarrow> int" where
  "lease_us cfg = wc_lease cfg * 1000000"

definition abandoned :: "worker_config \<Rightarrow> int \<Rightarrow> task_row \<Rightarrow> bool" where
  "abandoned cfg now r \<longleftrightarrow> task_status r = st_running \<and>
    (case claimed_at r of None \<Rightarrow> True | Some t \<Rightarrow> t < now - lease_us cfg)"

definition reap_row :: "worker_config \<Rightarrow> task_row \<Rightarrow> task_row" where
  "reap_row cfg r = r
    \<lparr>task_status := (case attempts r of
       None \<Rightarrow> st_pending
     | Some n \<Rightarrow> if n + 1 \<ge> wc_max_attempts cfg then st_failed else st_pending),
     attempts := map_option (\<lambda>n. n + 1) (attempts r),
     last_error := Some Note_Reclaimed,
     claimed_at := None\<rparr>"

definition reap_abandoned :: "worker_config \<Rightarrow> nat set \<Rightarrow> int \<Rightarrow> task_row list \<Rightarrow> task_row list" where
  "reap_abandoned cfg L now rows =
    update_at (pick L (wc_batch cfg) (\<lambda>_. 0) (abandoned cfg now) rows) (reap_row cfg) rows"

definition is_due :: "int \<Rightarrow> task_row \<Rightarrow> bool" where
  "is_due now r \<longleftrightarrow> task_status r = st_pending \<and> scheduled_for r \<le> now"

definition refuse_row :: "refusal \<Rightarrow> task_row \<Rightarrow> task_row" where
  "refuse_row why r = r\<lparr>task_status := st_failed, last_error := Some (Note_Refused why)\<rparr>"

definition close_oversized :: "worker_config \<Rightarrow> nat set \<Rightarrow> int \<Rightarrow> task_row list \<Rightarrow> task_row list" where
  "close_oversized cfg L now rows =
    update_at (pick L (wc_batch cfg) scheduled_for
      (\<lambda>r. is_due now r \<and> sql_not (within_bounds cfg r) = Some True) rows) (refuse_row Oversized_Row) rows"

record pending_row =
  pr_id :: string
  pr_project :: string
  pr_module :: string
  pr_export :: string
  pr_args :: "string option"
  pr_attempts :: int
  pr_invalid :: bool

definition or_zero :: "string option \<Rightarrow> string" where
  "or_zero x = (case x of None \<Rightarrow> [] | Some s \<Rightarrow> s)"

definition scan_pending_row :: "task_row \<Rightarrow> pending_row" where
  "scan_pending_row r =
    \<lparr>pr_id = or_zero (task_id r), pr_project = or_zero (task_project r), pr_module = or_zero (task_module r),
     pr_export = or_zero (task_export r), pr_args = task_args r,
     pr_attempts = (case attempts r of None \<Rightarrow> 0 | Some n \<Rightarrow> n),
     pr_invalid = (task_id r = None \<or> task_project r = None \<or> task_module r = None \<or> task_export r = None \<or>
       task_args r = None)\<rparr>"

definition mark_running :: "int \<Rightarrow> string list \<Rightarrow> task_row list \<Rightarrow> task_row list" where
  "mark_running now ids rows = map (\<lambda>r. case task_id r of
     None \<Rightarrow> r
   | Some i \<Rightarrow> if i \<in> set ids then r\<lparr>task_status := st_running, claimed_at := Some now\<rparr> else r) rows"

section \<open>The worker\<close>

text \<open>The transaction of \<open>claimDue\<close>, committed: the table it leaves and the rows it returns.\<close>

definition claim_due :: "worker_config \<Rightarrow> nat set \<Rightarrow> int \<Rightarrow> task_row list \<Rightarrow> task_row list \<times> pending_row list" where
  "claim_due cfg L now rows =
    (let rows = reap_abandoned cfg L now rows;
       rows = close_oversized cfg L now rows;
       picked = pick L (wc_batch cfg) scheduled_for (\<lambda>r. is_due now r \<and> within_bounds cfg r = Some True) rows;
       out = map (\<lambda>i. scan_pending_row (rows ! i)) picked
     in if out = [] then (rows, out) else (mark_running now (map pr_id out) rows, out))"

definition reject :: "worker_config \<Rightarrow> (string \<Rightarrow> bool) \<Rightarrow> pending_row \<Rightarrow> refusal option" where
  "reject cfg json_valid r =
    (if pr_invalid r then Some Malformed_Row
     else if wc_project cfg = [] \<or> pr_project r \<noteq> wc_project cfg then Some Foreign_Project
     else if \<not> valid_module_name (pr_module r) \<or> \<not> valid_export_name (pr_export r) then Some Bad_Identifier
     else if int (length (or_zero (pr_args r))) > wc_max_args cfg \<or> \<not> json_valid (or_zero (pr_args r)) then Some Bad_Args
     else case wc_functions cfg of
       None \<Rightarrow> Some Unknown_Function
     | Some has_function \<Rightarrow>
         (case has_function (wc_project cfg) (pr_module r) of
            Inr True \<Rightarrow> None
          | _ \<Rightarrow> Some Unknown_Function))"

definition mark_refused :: "pending_row \<Rightarrow> refusal \<Rightarrow> task_row list \<Rightarrow> task_row list" where
  "mark_refused c why rows = update_id (pr_id c) (refuse_row why) rows"

text \<open>
  The loop of \<open>Tick\<close> over the claimed rows: a refused one is closed, the others are dispatched as long as a slot
  is acquired, which the context allows for \<open>k\<close> of them. The result names the rows dispatched.
\<close>

fun admit ::
  "worker_config \<Rightarrow> (string \<Rightarrow> bool) \<Rightarrow> nat \<Rightarrow> task_row list \<Rightarrow> pending_row list \<Rightarrow> task_row list \<times> pending_row list" where
  "admit cfg jv k rows [] = (rows, [])"
| "admit cfg jv k rows (c # cs) = (case reject cfg jv c of
     Some why \<Rightarrow> admit cfg jv k (mark_refused c why rows) cs
   | None \<Rightarrow>
       if k = 0 then (rows, [])
       else let (rows', started) = admit cfg jv (k - 1) rows cs in (rows', c # started))"

definition tick ::
  "worker_config \<Rightarrow> (string \<Rightarrow> bool) \<Rightarrow> nat set \<Rightarrow> nat \<Rightarrow> int \<Rightarrow> task_row list \<Rightarrow> task_row list \<times> pending_row list" where
  "tick cfg jv L k now rows = (let (rows', claimed) = claim_due cfg L now rows in admit cfg jv k rows' claimed)"

definition backoff_delay :: "int \<Rightarrow> int" where
  "backoff_delay n = (if n \<le> 0 then 0 else min 300 (2 ^ nat (n - 1)))"

datatype invoke_result = Invoked | Not_Servable string | Invoke_Failed string

text \<open>The end of \<open>dispatch\<close>, once the invoker has answered.\<close>

definition finish :: "worker_config \<Rightarrow> int \<Rightarrow> pending_row \<Rightarrow> invoke_result \<Rightarrow> task_row list \<Rightarrow> task_row list" where
  "finish cfg now c res rows = (case res of
     Invoked \<Rightarrow> update_id (pr_id c)
       (\<lambda>r. r\<lparr>task_status := st_completed, attempts := map_option (\<lambda>n. n + 1) (attempts r)\<rparr>) rows
   | Not_Servable e \<Rightarrow> update_id (pr_id c) (\<lambda>r. r\<lparr>task_status := st_skipped, last_error := Some (Note_Error e)\<rparr>) rows
   | Invoke_Failed e \<Rightarrow>
       let n = clamp_attempts (pr_attempts c) (wc_max_attempts cfg) + 1
       in if n \<ge> wc_max_attempts cfg
          then update_id (pr_id c)
            (\<lambda>r. r\<lparr>task_status := st_failed, attempts := Some n, last_error := Some (Note_Error e)\<rparr>) rows
          else update_id (pr_id c)
            (\<lambda>r. r\<lparr>task_status := st_pending, attempts := Some n, last_error := Some (Note_Error e),
               scheduled_for := now + backoff_delay n * 1000000\<rparr>) rows)"

definition cancel_task :: "string \<Rightarrow> task_row list \<Rightarrow> task_row list" where
  "cancel_task i rows =
    map (\<lambda>r. if task_id r = Some i \<and> task_status r = st_pending then r\<lparr>task_status := st_cancelled\<rparr> else r) rows"

section \<open>Slots (\<^verbatim>\<open>semaphore.go\<close>)\<close>

record semaphore =
  sem_slots :: nat
  sem_held :: nat

definition new_semaphore :: "int \<Rightarrow> semaphore" where
  "new_semaphore n = \<lparr>sem_slots = (if n \<le> 0 then 1 else nat n), sem_held = 0\<rparr>"

text \<open>\<open>None\<close> is a call that waits, for \<open>Acquire\<close>, and one that panics, for \<open>Release\<close>.\<close>

definition sem_acquire :: "semaphore \<Rightarrow> semaphore option" where
  "sem_acquire s = (if sem_held s < sem_slots s then Some (s\<lparr>sem_held := sem_held s + 1\<rparr>) else None)"

definition sem_release :: "semaphore \<Rightarrow> semaphore option" where
  "sem_release s = (if sem_held s = 0 then None else Some (s\<lparr>sem_held := sem_held s - 1\<rparr>))"

text \<open>
  The worker takes a slot of the platform's pool, when one is wired, and then one of the project's; \<open>ctx_ends\<close>
  is whether the context ends while it waits for the latter. The flag of the result is whether it holds both.
\<close>

definition worker_acquire :: "bool \<Rightarrow> semaphore option \<times> semaphore \<Rightarrow> (bool \<times> semaphore option \<times> semaphore) option" where
  "worker_acquire ctx_ends = (\<lambda>(g, l).
    case (case g of None \<Rightarrow> Some None | Some s \<Rightarrow> map_option Some (sem_acquire s)) of
      None \<Rightarrow> None
    | Some g' \<Rightarrow>
        if ctx_ends then
          (case g' of None \<Rightarrow> Some (False, None, l) | Some s \<Rightarrow> map_option (\<lambda>s'. (False, Some s', l)) (sem_release s))
        else map_option (\<lambda>l'. (True, g', l')) (sem_acquire l))"

definition worker_release :: "semaphore option \<times> semaphore \<Rightarrow> (semaphore option \<times> semaphore) option" where
  "worker_release = (\<lambda>(g, l). case sem_release l of
     None \<Rightarrow> None
   | Some l' \<Rightarrow> (case g of None \<Rightarrow> Some (None, l') | Some s \<Rightarrow> map_option (\<lambda>s'. (Some s', l')) (sem_release s)))"

text \<open>Slots are neither lost nor invented: a release undoes its acquisition, and a wait cut short gives back what it took.\<close>

lemma acquire_release:
  "worker_acquire e p = Some (True, q) \<Longrightarrow> worker_release q = Some p"
  "worker_acquire e p = Some (False, q) \<Longrightarrow> q = p"
  by (cases p; auto simp: worker_acquire_def worker_release_def sem_acquire_def sem_release_def
      split: option.splits if_splits)+

end
