(* ===== verification/Task_Queue_Correct.thy ===== *)
theory Task_Queue_Correct
  imports Task_Queue
begin

text \<open>
  What the task queue guarantees: whatever the tenant writes, only calls the platform deployed are dispatched;
  on a table no one tampers with, any number of workers keep the retry budget, run a task in one place at a
  time, and leave a finished task alone. The workers are the steps of \<open>queue_step\<close>.
\<close>

section \<open>The statements, row by row\<close>

lemma split_path_loop_split: "split_path_loop seg s = (case split_on CHR ''/'' s of
    [] \<Rightarrow> [rev seg] | w # ws \<Rightarrow> (rev seg @ w) # ws)"
proof (induction seg s rule: split_path_loop.induct)
  case (2 seg c cs)
  have "split_on CHR ''/'' cs \<noteq> []" by simp
  with 2 show ?case by (cases "split_on CHR ''/'' cs") auto
qed simp

text \<open>The hand-written \<open>splitPath\<close> is the split at every slash.\<close>

lemma split_path_split: "split_path name = split_on CHR ''/'' name"
  unfolding split_path_def split_path_loop_split by (cases "split_on CHR ''/'' name") auto

lemma pick_index:
  assumes "i \<in> set (pick L n key P rows)"
  shows "i < length rows" "P (rows ! i)" "i \<notin> L"
proof -
  from assms obtain r where "(i, r) \<in> set (take (nat n)
      (sort_key (\<lambda>(i, r). key r) (filter (\<lambda>(i, r). P r \<and> i \<notin> L) (enumerate 0 rows))))"
    unfolding pick_def by auto
  then have "(i, r) \<in> set (filter (\<lambda>(i, r). P r \<and> i \<notin> L) (enumerate 0 rows))"
    using set_take_subset by fastforce
  then show "i < length rows" "P (rows ! i)" "i \<notin> L" by (auto simp: in_set_enumerate_eq)
qed

lemma distinct_pick: "distinct (pick L n key P rows)"
proof -
  let ?xs = "sort_key (\<lambda>(i, r). key r) (filter (\<lambda>(i, r). P r \<and> i \<notin> L) (enumerate 0 rows))"
  have "distinct (map fst (filter (\<lambda>(i, r). P r \<and> i \<notin> L) (enumerate 0 rows)))"
    by (simp add: distinct_map_filter)
  then have "distinct (map fst ?xs)"
    by (simp only: distinct_map distinct_sort set_sort)
  then show ?thesis unfolding pick_def by (simp only: take_map [symmetric] distinct_take)
qed

lemma length_pick: "length (pick L n key P rows) \<le> nat n"
  by (simp add: pick_def)

lemma update_at_length [simp]: "length (update_at is f rows) = length rows"
  by (simp add: update_at_def)

lemma update_at_nth: "i < length rows \<Longrightarrow> update_at is f rows ! i = (if i \<in> set is then f (rows ! i) else rows ! i)"
  by (simp add: update_at_def nth_enumerate_eq)

lemma update_at_all:
  assumes "\<forall>r \<in> set rs. P r" "\<And>i. i \<in> set is \<Longrightarrow> i < length rs \<Longrightarrow> P (f (rs ! i))"
  shows "\<forall>r \<in> set (update_at is f rs). P r"
proof
  fix r
  assume "r \<in> set (update_at is f rs)"
  then obtain i where "i < length (update_at is f rs)" "r = update_at is f rs ! i" by (metis in_set_conv_nth)
  then have "i < length rs" "r = (if i \<in> set is then f (rs ! i) else rs ! i)" by (simp_all add: update_at_nth)
  with assms show "P r" by (cases "i \<in> set is") simp_all
qed

lemma update_at_ids: "(\<And>r. task_id (f r) = task_id r) \<Longrightarrow> map task_id (update_at is f rows) = map task_id rows"
  by (rule nth_equalityI) (simp_all add: update_at_nth)

lemma update_id_ids: "(\<And>r. task_id (f r) = task_id r) \<Longrightarrow> map task_id (update_id i f rows) = map task_id rows"
  by (auto simp: update_id_def)

lemma reap_row_id [simp]: "task_id (reap_row cfg r) = task_id r"
  by (simp add: reap_row_def)

lemma refuse_row_simps [simp]:
  "task_id (refuse_row w r) = task_id r" "task_status (refuse_row w r) = st_failed" "attempts (refuse_row w r) = attempts r"
  by (simp_all add: refuse_row_def)

section \<open>What is dispatched\<close>

text \<open>A call the platform may run: its own project, plain identifiers, a deployed module and bounded JSON.\<close>

definition callable :: "worker_config \<Rightarrow> (string \<Rightarrow> bool) \<Rightarrow> pending_row \<Rightarrow> bool" where
  "callable cfg jv c \<longleftrightarrow> wc_project cfg \<noteq> [] \<and> pr_project c = wc_project cfg \<and>
    valid_target (pr_module c) (pr_export c) \<and>
    (\<exists>has_function. wc_functions cfg = Some has_function \<and> has_function (wc_project cfg) (pr_module c) = Inr True) \<and>
    (\<exists>a. pr_args c = Some a \<and> jv a \<and> int (length a) \<le> wc_max_args cfg)"

lemma reject_None:
  assumes "reject cfg jv (scan_pending_row r) = None"
  shows "callable cfg jv (scan_pending_row r)"
proof -
  let ?c = "scan_pending_row r"
  from assms have v: "\<not> pr_invalid ?c" "wc_project cfg \<noteq> []" "pr_project ?c = wc_project cfg"
    "valid_module_name (pr_module ?c)" "valid_export_name (pr_export ?c)"
    "int (length (or_zero (pr_args ?c))) \<le> wc_max_args cfg" "jv (or_zero (pr_args ?c))"
    by (auto simp: reject_def split: if_splits)
  from assms obtain h where h: "wc_functions cfg = Some h" "h (wc_project cfg) (pr_module ?c) = Inr True"
    by (auto simp: reject_def split: if_splits option.splits sum.splits bool.splits)
  from v(1) obtain a where "pr_args ?c = Some a" by (auto simp: scan_pending_row_def)
  with v h show ?thesis by (auto simp: callable_def valid_target_def or_zero_def)
qed

lemma admit_started:
  "c \<in> set (snd (admit cfg jv k rows cs)) \<Longrightarrow> c \<in> set cs \<and> reject cfg jv c = None"
  by (induction cfg jv k rows cs rule: admit.induct) (auto simp: split: option.splits if_splits prod.splits)

lemma admit_length: "length (snd (admit cfg jv k rows cs)) \<le> min k (length cs)"
proof (induction cfg jv k rows cs rule: admit.induct)
  case (2 cfg jv k rows c cs)
  then show ?case by (cases k) (auto split: option.splits prod.splits)
qed simp

lemma claimed_rows:
  assumes "claim_due cfg L now rows = (rows', out)"
  shows "\<exists>is R. distinct is \<and> length is \<le> nat (wc_batch cfg) \<and> out = map (\<lambda>i. scan_pending_row (R ! i)) is \<and>
    R = close_oversized cfg L now (reap_abandoned cfg L now rows) \<and> rows' = mark_running now (map pr_id out) R \<and>
    (\<forall>i \<in> set is. i < length R \<and> is_due now (R ! i) \<and> within_bounds cfg (R ! i) = Some True)"
proof -
  define R where "R = close_oversized cfg L now (reap_abandoned cfg L now rows)"
  define ix where "ix = pick L (wc_batch cfg) scheduled_for (\<lambda>r. is_due now r \<and> within_bounds cfg r = Some True) R"
  have nil: "mark_running now [] rs = rs" for rs :: "task_row list"
    by (simp add: mark_running_def if_distrib cong: option.case_cong if_cong) (induction rs, auto split: option.splits)
  from assms have "out = map (\<lambda>i. scan_pending_row (R ! i)) ix" "rows' = mark_running now (map pr_id out) R"
    by (auto simp: claim_due_def Let_def R_def [symmetric] ix_def [symmetric] nil split: if_splits)
  moreover have "distinct ix" "length ix \<le> nat (wc_batch cfg)" by (simp_all add: ix_def distinct_pick length_pick)
  moreover have "i < length R \<and> is_due now (R ! i) \<and> within_bounds cfg (R ! i) = Some True" if "i \<in> set ix" for i
    using that unfolding ix_def by (blast dest: pick_index)
  ultimately show ?thesis using R_def by blast
qed

text \<open>
  Whatever a tenant writes into the queue, every call a sweep dispatches is one for the swept project,
  to a plainly named export of a module the platform deployed for it, with JSON arguments within the limit; and a
  sweep dispatches no more calls than its batch.
\<close>

theorem dispatched_calls_admissible:
  "(\<forall>c \<in> set (snd (tick cfg jv L k now rows)). callable cfg jv c) \<and>
    length (snd (tick cfg jv L k now rows)) \<le> min k (nat (wc_batch cfg))"
proof -
  obtain rows' out where c: "claim_due cfg L now rows = (rows', out)" by force
  from claimed_rows [OF this] obtain ix R where out: "length ix \<le> nat (wc_batch cfg)"
    "out = map (\<lambda>i. scan_pending_row (R ! i)) ix" by blast
  have "callable cfg jv c" if "c \<in> set (snd (admit cfg jv k rows' out))" for c
    using admit_started [OF that] reject_None out(2) by auto
  moreover have "length (snd (admit cfg jv k rows' out)) \<le> min k (nat (wc_batch cfg))"
    using admit_length [of cfg jv k rows' out] out by simp
  ultimately show ?thesis by (simp add: tick_def c)
qed

section \<open>Any number of workers on one table\<close>

text \<open>
  The table, the clock, the calls in flight with the instant their rows were claimed, and the ids of all calls
  dispatched so far. An invocation ends long before the claim lease (\<open>DefaultClaimLease\<close>), so a call finishes
  within the lease or is lost (\<open>Lost\<close>: its replica died, or its final update failed).
\<close>

record queue_state =
  q_rows :: "task_row list"
  q_clock :: int
  q_flights :: "(int \<times> pending_row) list"
  q_runs :: "string list"

definition live :: "worker_config \<Rightarrow> int \<Rightarrow> int \<times> pending_row \<Rightarrow> bool" where
  "live cfg now f \<longleftrightarrow> now - fst f \<le> lease_us cfg"

text \<open>A row the runtime inserts for a new task.\<close>

definition new_task :: "task_row \<Rightarrow> bool" where
  "new_task r \<longleftrightarrow> task_id r \<noteq> None \<and> task_status r = st_pending \<and> attempts r = Some 0 \<and> claimed_at r = None"

inductive queue_step :: "worker_config \<Rightarrow> (string \<Rightarrow> bool) \<Rightarrow> queue_state \<Rightarrow> queue_state \<Rightarrow> bool" for cfg jv where
  Wait: "q_clock s \<le> t \<Longrightarrow> queue_step cfg jv s (s\<lparr>q_clock := t\<rparr>)"
| Sweep: "tick cfg jv L k (q_clock s) (q_rows s) = (rs, started) \<Longrightarrow>
    queue_step cfg jv s (s\<lparr>q_rows := rs, q_flights := q_flights s @ map (Pair (q_clock s)) started,
      q_runs := q_runs s @ map pr_id started\<rparr>)"
| Finish: "f \<in> set (q_flights s) \<Longrightarrow> live cfg (q_clock s) f \<Longrightarrow>
    queue_step cfg jv s (s\<lparr>q_rows := finish cfg (q_clock s) (snd f) res (q_rows s),
      q_flights := remove1 f (q_flights s)\<rparr>)"
| Panic: "f \<in> set (q_flights s) \<Longrightarrow> live cfg (q_clock s) f \<Longrightarrow>
    queue_step cfg jv s (s\<lparr>q_rows := mark_refused (snd f) Dispatch_Panicked (q_rows s),
      q_flights := remove1 f (q_flights s)\<rparr>)"
| Lost: "f \<in> set (q_flights s) \<Longrightarrow> queue_step cfg jv s (s\<lparr>q_flights := remove1 f (q_flights s)\<rparr>)"
| Cancel: "queue_step cfg jv s (s\<lparr>q_rows := cancel_task i (q_rows s)\<rparr>)"
| Schedule: "new_task r \<Longrightarrow> task_id r \<notin> set (map task_id (q_rows s)) \<Longrightarrow>
    queue_step cfg jv s (s\<lparr>q_rows := q_rows s @ [r]\<rparr>)"

inductive_cases queue_step_cases: "queue_step cfg jv s s'"

inductive queue_reaches :: "worker_config \<Rightarrow> (string \<Rightarrow> bool) \<Rightarrow> queue_state \<Rightarrow> queue_state \<Rightarrow> bool" for cfg jv s where
  Here: "queue_reaches cfg jv s s"
| Next: "queue_reaches cfg jv s t \<Longrightarrow> queue_step cfg jv t u \<Longrightarrow> queue_reaches cfg jv s u"

definition empty_queue :: queue_state where
  "empty_queue = \<lparr>q_rows = [], q_clock = 0, q_flights = [], q_runs = []\<rparr>"

definition row_ok :: "worker_config \<Rightarrow> int \<Rightarrow> (int \<times> pending_row) list \<Rightarrow> string list \<Rightarrow> task_row \<Rightarrow> bool" where
  "row_ok cfg now fl runs r \<longleftrightarrow> (\<exists>i a. task_id r = Some i \<and> attempts r = Some a \<and> 0 \<le> a \<and>
    int (count_list runs i) \<le> wc_max_attempts cfg \<and>
    (task_status r = st_pending \<longrightarrow> int (count_list runs i) \<le> a \<and> a < wc_max_attempts cfg) \<and>
    (task_status r = st_running \<longrightarrow> int (count_list runs i) \<le> a + 1 \<and> a < wc_max_attempts cfg) \<and>
    (\<forall>f \<in> set fl. live cfg now f \<and> pr_id (snd f) = i \<longrightarrow>
      task_status r = st_running \<and> claimed_at r = Some (fst f) \<and> pr_attempts (snd f) = a))"

definition queue_inv :: "worker_config \<Rightarrow> queue_state \<Rightarrow> bool" where
  "queue_inv cfg s \<longleftrightarrow> distinct (map task_id (q_rows s)) \<and>
    (\<forall>r \<in> set (q_rows s). row_ok cfg (q_clock s) (q_flights s) (q_runs s) r) \<and>
    distinct (map (pr_id \<circ> snd) (filter (live cfg (q_clock s)) (q_flights s))) \<and>
    (\<forall>f \<in> set (q_flights s). pr_id (snd f) \<in> set (q_runs s)) \<and>
    Some ` set (q_runs s) \<subseteq> set (map task_id (q_rows s))"

lemma live_mono: "live cfg t f \<Longrightarrow> now \<le> t \<Longrightarrow> live cfg now f"
  by (simp add: live_def)

lemma row_ok_mono:
  assumes "row_ok cfg now fl runs r" "\<forall>f \<in> set fl'. live cfg now' f \<longrightarrow> f \<in> set fl \<and> live cfg now f"
  shows "row_ok cfg now' fl' runs r"
  using assms unfolding row_ok_def by blast

text \<open>A row that is not running has no live call.\<close>

lemma row_ok_idle:
  assumes "row_ok cfg now fl runs r" "task_status r \<noteq> st_running" "f \<in> set fl" "live cfg now f"
  shows "task_id r \<noteq> Some (pr_id (snd f))"
  using assms by (auto simp: row_ok_def)

lemma row_ok_reap:
  assumes "row_ok cfg now fl runs r" "abandoned cfg now r"
  shows "row_ok cfg now fl runs (reap_row cfg r)"
proof -
  from assms(1) obtain i a where ia: "task_id r = Some i" "attempts r = Some a" "0 \<le> a"
    "int (count_list runs i) \<le> wc_max_attempts cfg"
    and fl: "\<forall>f \<in> set fl. live cfg now f \<and> pr_id (snd f) = i \<longrightarrow> claimed_at r = Some (fst f)"
    and run: "task_status r = st_running \<longrightarrow> int (count_list runs i) \<le> a + 1 \<and> a < wc_max_attempts cfg"
    unfolding row_ok_def by blast
  from assms(2) have s: "task_status r = st_running" and "\<forall>t. claimed_at r = Some t \<longrightarrow> t < now - lease_us cfg"
    by (auto simp: abandoned_def)
  with fl have "\<not> (live cfg now f \<and> pr_id (snd f) = i)" if "f \<in> set fl" for f
    using that by (fastforce simp: live_def)
  with ia run s show ?thesis
    unfolding row_ok_def by (intro exI [of _ i] exI [of _ "a + 1"]) (auto simp: reap_row_def)
qed

lemma row_ok_close:
  assumes "row_ok cfg now fl runs r" "\<forall>f \<in> set fl. live cfg now f \<longrightarrow> task_id r \<noteq> Some (pr_id (snd f))"
  shows "row_ok cfg now fl runs (refuse_row why r)"
  using assms by (auto simp: row_ok_def refuse_row_def)

lemma inv_reaped:
  assumes "\<forall>r \<in> set rs. row_ok cfg now fl runs r"
  shows "\<forall>r \<in> set (reap_abandoned cfg L now rs). row_ok cfg now fl runs r"
  unfolding reap_abandoned_def
proof (rule update_at_all [OF assms])
  fix i
  assume i: "i \<in> set (pick L (wc_batch cfg) (\<lambda>_. 0) (abandoned cfg now) rs)" "i < length rs"
  with assms pick_index(2) [OF i(1)] show "row_ok cfg now fl runs (reap_row cfg (rs ! i))" by (simp add: row_ok_reap)
qed

lemma inv_closed:
  assumes "\<forall>r \<in> set rs. row_ok cfg now fl runs r"
  shows "\<forall>r \<in> set (close_oversized cfg L now rs). row_ok cfg now fl runs r"
  unfolding close_oversized_def
proof (rule update_at_all [OF assms])
  fix i
  assume i: "i \<in> set (pick L (wc_batch cfg) scheduled_for
    (\<lambda>r. is_due now r \<and> sql_not (within_bounds cfg r) = Some True) rs)" "i < length rs"
  have ok: "row_ok cfg now fl runs (rs ! i)" using assms i(2) by simp
  from pick_index(2) [OF i(1)] have "task_status (rs ! i) \<noteq> st_running" by (simp add: is_due_def)
  with ok show "row_ok cfg now fl runs (refuse_row Oversized_Row (rs ! i))"
    by (blast intro: row_ok_close dest: row_ok_idle)
qed

text \<open>A row just claimed, and what the loop over the claimed rows keeps.\<close>

definition claim_ok ::
  "worker_config \<Rightarrow> int \<Rightarrow> (int \<times> pending_row) list \<Rightarrow> string list \<Rightarrow> task_row list \<Rightarrow> pending_row \<Rightarrow> bool" where
  "claim_ok cfg now fl runs rs c \<longleftrightarrow> Some (pr_id c) \<in> set (map task_id rs) \<and>
    (\<forall>f \<in> set fl. live cfg now f \<longrightarrow> pr_id (snd f) \<noteq> pr_id c) \<and>
    (\<forall>r \<in> set rs. task_id r = Some (pr_id c) \<longrightarrow> task_status r = st_running \<and> claimed_at r = Some now \<and>
      attempts r = Some (pr_attempts c) \<and> int (count_list runs (pr_id c)) \<le> pr_attempts c)"

lemma distinct_ids_eq:
  assumes "distinct (map task_id rs)" "r \<in> set rs" "r' \<in> set rs" "task_id r = task_id r'"
  shows "r = r'"
  using assms by (simp add: distinct_map inj_on_def)

lemma mark_running_ids [simp]: "map task_id (mark_running now ids rs) = map task_id rs"
  by (auto simp: mark_running_def split: option.splits)

lemma claim_due_inv:
  assumes "claim_due cfg L now rs = (rs', out)" and dist: "distinct (map task_id rs)"
    and ok: "\<forall>r \<in> set rs. row_ok cfg now fl runs r"
  shows "map task_id rs' = map task_id rs" "distinct (map pr_id out)"
    and "\<forall>r \<in> set rs'. row_ok cfg now fl runs r" "\<forall>c \<in> set out. claim_ok cfg now fl runs rs' c"
proof -
  from claimed_rows [OF assms(1)] obtain ix R where ix: "distinct ix" "out = map (\<lambda>i. scan_pending_row (R ! i)) ix"
    and R: "R = close_oversized cfg L now (reap_abandoned cfg L now rs)" and rs': "rs' = mark_running now (map pr_id out) R"
    and sel: "\<forall>i \<in> set ix. i < length R \<and> is_due now (R ! i)" by blast
  have ids: "map task_id R = map task_id rs"
    unfolding R close_oversized_def reap_abandoned_def by (simp add: update_at_ids)
  then show "map task_id rs' = map task_id rs" by (simp add: rs')
  have okR: "\<forall>r \<in> set R. row_ok cfg now fl runs r" unfolding R using inv_closed [OF inv_reaped [OF ok]] .
  have dR: "distinct (map task_id R)" using dist ids by simp
  have sc: "task_id (R ! i) = Some (pr_id (scan_pending_row (R ! i)))" if "i \<in> set ix" for i
  proof -
    from that sel have "R ! i \<in> set R" by simp
    with okR have "\<exists>x. task_id (R ! i) = Some x" unfolding row_ok_def by blast
    then show ?thesis by (auto simp: scan_pending_row_def or_zero_def)
  qed
  have "inj_on (\<lambda>i. pr_id (scan_pending_row (R ! i))) (set ix)"
  proof (rule inj_onI)
    fix i j
    assume ij: "i \<in> set ix" "j \<in> set ix" "pr_id (scan_pending_row (R ! i)) = pr_id (scan_pending_row (R ! j))"
    then have "map task_id R ! i = map task_id R ! j" using sc sel by simp
    with dR sel ij(1,2) show "i = j" by (simp add: nth_eq_iff_index_eq del: nth_map)
  qed
  then show "distinct (map pr_id out)" using ix by (simp add: distinct_map comp_def)
  have pend: "task_status r = st_pending" if "r \<in> set R" "task_id r = Some x" "x \<in> set (map pr_id out)" for r x
  proof -
    from that(3) ix(2) obtain i where i: "i \<in> set ix" "x = pr_id (scan_pending_row (R ! i))" by auto
    with sc sel have "R ! i \<in> set R" "task_id (R ! i) = task_id r" using that(2) by simp_all
    then have "R ! i = r" using distinct_ids_eq [OF dR] that(1) by blast
    with sel i(1) show ?thesis by (auto simp: is_due_def)
  qed
  show "\<forall>r \<in> set rs'. row_ok cfg now fl runs r"
  proof
    fix r'
    assume "r' \<in> set rs'"
    then obtain r where r: "r \<in> set R" "r' = (case task_id r of None \<Rightarrow> r | Some i \<Rightarrow>
        if i \<in> set (map pr_id out) then r\<lparr>task_status := st_running, claimed_at := Some now\<rparr> else r)"
      by (auto simp: rs' mark_running_def)
    have o: "row_ok cfg now fl runs r" using okR r(1) by blast
    show "row_ok cfg now fl runs r'"
    proof (cases "\<exists>i \<in> set (map pr_id out). task_id r = Some i")
      case True
      with pend [OF r(1)] have p: "task_status r = st_pending" by blast
      from p row_ok_idle [OF o] have "\<forall>f \<in> set fl. live cfg now f \<longrightarrow> task_id r \<noteq> Some (pr_id (snd f))" by simp
      with o p have "row_ok cfg now fl runs (r\<lparr>task_status := st_running, claimed_at := Some now\<rparr>)"
        by (auto simp: row_ok_def)
      with r(2) True show ?thesis by auto
    next
      case False
      with r(2) o show ?thesis by (auto split: option.splits)
    qed
  qed
  show "\<forall>c \<in> set out. claim_ok cfg now fl runs rs' c"
  proof
    fix c
    assume c: "c \<in> set out"
    then obtain i where i: "i \<in> set ix" "c = scan_pending_row (R ! i)" using ix(2) by auto
    let ?r = "R ! i"
    have r: "?r \<in> set R" "task_id ?r = Some (pr_id c)" "task_status ?r = st_pending"
      using i sel sc by (auto simp: is_due_def)
    have o: "row_ok cfg now fl runs ?r" using okR r(1) by blast
    have pa: "pr_attempts c = (case attempts ?r of None \<Rightarrow> 0 | Some n \<Rightarrow> n)" by (simp add: i(2) scan_pending_row_def)
    from o r(2,3) have "\<exists>a. attempts ?r = Some a \<and> int (count_list runs (pr_id c)) \<le> a" by (auto simp: row_ok_def)
    then have at: "attempts ?r = Some (pr_attempts c)" "int (count_list runs (pr_id c)) \<le> pr_attempts c"
      unfolding pa by auto
    have eq: "r' = ?r\<lparr>task_status := st_running, claimed_at := Some now\<rparr>"
      if r': "r' \<in> set rs'" "task_id r' = Some (pr_id c)" for r'
    proof -
      from r'(1) obtain q where q: "q \<in> set R" "r' = (case task_id q of None \<Rightarrow> q | Some i \<Rightarrow>
        if i \<in> set (map pr_id out) then q\<lparr>task_status := st_running, claimed_at := Some now\<rparr> else q)"
        by (auto simp: rs' mark_running_def)
      then have "task_id q = task_id ?r" using r'(2) r(2) by (auto split: option.splits if_splits)
      then have "q = ?r" using distinct_ids_eq [OF dR] q(1) r(1) by blast
      with q(2) r(2) c show ?thesis by simp
    qed
    have "Some (pr_id c) \<in> set (map task_id rs')"
    proof -
      from r(1,2) have "Some (pr_id c) \<in> task_id ` set R" by (metis image_eqI)
      then show ?thesis unfolding rs' mark_running_ids set_map .
    qed
    moreover have "\<forall>f \<in> set fl. live cfg now f \<longrightarrow> pr_id (snd f) \<noteq> pr_id c"
      using row_ok_idle [OF o] r(2,3) st_distinct(1) by metis
    moreover have "\<forall>q \<in> set rs'. task_id q = Some (pr_id c) \<longrightarrow> task_status q = st_running \<and> claimed_at q = Some now \<and>
        attempts q = Some (pr_attempts c) \<and> int (count_list runs (pr_id c)) \<le> pr_attempts c"
    proof (intro ballI impI)
      fix q
      assume "q \<in> set rs'" "task_id q = Some (pr_id c)"
      from eq [OF this] at show "task_status q = st_running \<and> claimed_at q = Some now \<and>
        attempts q = Some (pr_attempts c) \<and> int (count_list runs (pr_id c)) \<le> pr_attempts c" by simp
    qed
    ultimately show "claim_ok cfg now fl runs rs' c" unfolding claim_ok_def by blast
  qed
qed

lemma update_id_set: "r' \<in> set (update_id i f rs) \<longleftrightarrow> (\<exists>r \<in> set rs. r' = (if task_id r = Some i then f r else r))"
  by (auto simp: update_id_def)

lemma claim_ok_update:
  assumes "claim_ok cfg now fl runs rs d" "pr_id d \<noteq> i" and id: "\<And>r. task_id (f r) = task_id r"
  shows "claim_ok cfg now fl runs (update_id i f rs) d"
proof -
  have "q \<in> set rs" if "q \<in> set (update_id i f rs)" "task_id q = Some (pr_id d)" for q
    using that assms(2) id by (auto simp: update_id_set split: if_splits)
  with assms(1) show ?thesis unfolding claim_ok_def update_id_ids [OF id] by blast
qed

lemma admit_inv:
  assumes "admit cfg jv k rs cs = (rs', started)"
    and "distinct (map pr_id cs)" "\<forall>r \<in> set rs. row_ok cfg now fl runs r" "\<forall>c \<in> set cs. claim_ok cfg now fl runs rs c"
    and "0 \<le> lease_us cfg"
  shows "map task_id rs' = map task_id rs \<and>
    (\<forall>r \<in> set rs'. row_ok cfg now (fl @ map (Pair now) started) (runs @ map pr_id started) r) \<and>
    distinct (map pr_id started) \<and> set started \<subseteq> set cs"
  using assms
proof (induction cs arbitrary: k rs fl runs started)
  case Nil
  then show ?case by simp
next
  case (Cons c cs)
  have c: "claim_ok cfg now fl runs rs c" and cs: "\<forall>d \<in> set cs. claim_ok cfg now fl runs rs d \<and> pr_id d \<noteq> pr_id c"
    using Cons.prems(2,4) by (auto simp: image_iff)
  show ?case
  proof (cases "reject cfg jv c")
    case (Some why)
    let ?rs = "mark_refused c why rs"
    have ids: "map task_id ?rs = map task_id rs" by (simp add: mark_refused_def update_id_ids)
    have 1: "\<forall>r \<in> set ?rs. row_ok cfg now fl runs r"
    proof
      fix r'
      assume "r' \<in> set ?rs"
      then obtain r where r: "r \<in> set rs" "r' = (if task_id r = Some (pr_id c) then refuse_row why r else r)"
        by (auto simp: mark_refused_def update_id_set)
      have o: "row_ok cfg now fl runs r" using Cons.prems(3) r(1) by blast
      from c have n: "\<forall>f \<in> set fl. live cfg now f \<longrightarrow> pr_id (snd f) \<noteq> pr_id c" by (simp add: claim_ok_def)
      show "row_ok cfg now fl runs r'"
      proof (cases "task_id r = Some (pr_id c)")
        case True
        with n have "\<forall>f \<in> set fl. live cfg now f \<longrightarrow> task_id r \<noteq> Some (pr_id (snd f))" by auto
        with r True row_ok_close [OF o] show ?thesis by simp
      qed (use r o in simp)
    qed
    have 2: "\<forall>d \<in> set cs. claim_ok cfg now fl runs ?rs d"
    proof
      fix d
      assume "d \<in> set cs"
      with cs have d: "claim_ok cfg now fl runs rs d" "pr_id d \<noteq> pr_id c" by auto
      then show "claim_ok cfg now fl runs ?rs d" unfolding mark_refused_def by (simp add: claim_ok_update)
    qed
    from Cons.prems(1) Some have "admit cfg jv k ?rs cs = (rs', started)" by simp
    from Cons.IH [OF this _ 1 2 Cons.prems(5)] Cons.prems(2) ids show ?thesis by auto
  next
    case None
    show ?thesis
    proof (cases "k = 0")
      case True
      with None Cons.prems show ?thesis by simp
    next
      case False
      with None Cons.prems(1) obtain st where st: "admit cfg jv (k - 1) rs cs = (rs', st)" "started = c # st"
        by (auto split: prod.splits)
      let ?fl = "fl @ [(now, c)]" and ?runs = "runs @ [pr_id c]"
      have 1: "\<forall>r \<in> set rs. row_ok cfg now ?fl ?runs r"
      proof
        fix r
        assume r: "r \<in> set rs"
        then have o: "row_ok cfg now fl runs r" using Cons.prems(3) by blast
        show "row_ok cfg now ?fl ?runs r"
        proof (cases "task_id r = Some (pr_id c)")
          case True
          with c r have "task_status r = st_running" "claimed_at r = Some now" "attempts r = Some (pr_attempts c)"
            "int (count_list runs (pr_id c)) \<le> pr_attempts c" by (auto simp: claim_ok_def)
          with o True show ?thesis by (auto simp: row_ok_def)
        next
          case False
          with o show ?thesis by (auto simp: row_ok_def)
        qed
      qed
      have 2: "\<forall>d \<in> set cs. claim_ok cfg now ?fl ?runs rs d" using cs by (auto simp: claim_ok_def)
      from Cons.IH [OF st(1) _ 1 2 Cons.prems(5)] Cons.prems(2) st(2) show ?thesis by auto
    qed
  qed
qed

lemma finish_cases:
  assumes "0 < wc_max_attempts cfg"
  shows "\<exists>f. finish cfg now c res rs = update_id (pr_id c) f rs \<and>
    (\<forall>r. task_id (f r) = task_id r \<and> task_status (f r) \<noteq> st_running \<and>
      (\<forall>a \<ge> 0. attempts r = Some a \<longrightarrow> (\<exists>b \<ge> 0. attempts (f r) = Some b)) \<and>
      (task_status (f r) = st_pending \<longrightarrow>
        attempts (f r) = Some (clamp_attempts (pr_attempts c) (wc_max_attempts cfg) + 1) \<and>
        clamp_attempts (pr_attempts c) (wc_max_attempts cfg) + 1 < wc_max_attempts cfg))"
proof -
  let ?n = "clamp_attempts (pr_attempts c) (wc_max_attempts cfg) + 1"
  have n: "0 \<le> ?n" using assms by (simp add: clamp_attempts_def)
  let ?update = "\<lambda>f. finish cfg now c res rs = update_id (pr_id c) f rs"
  consider "?update (\<lambda>r. r\<lparr>task_status := st_completed, attempts := map_option (\<lambda>n. n + 1) (attempts r)\<rparr>)"
    | e where "?update (\<lambda>r. r\<lparr>task_status := st_skipped, last_error := Some (Note_Error e)\<rparr>)"
    | e where "?update (\<lambda>r. r\<lparr>task_status := st_failed, attempts := Some ?n, last_error := Some (Note_Error e)\<rparr>)"
    | e where "?n < wc_max_attempts cfg" "?update (\<lambda>r. r\<lparr>task_status := st_pending, attempts := Some ?n,
        last_error := Some (Note_Error e), scheduled_for := now + backoff_delay ?n * 1000000\<rparr>)"
    by (cases res; cases "?n < wc_max_attempts cfg") (auto simp: finish_def Let_def not_less)
  then show ?thesis using n by cases (force intro: exI)+
qed

lemma tick_inv:
  assumes "tick cfg jv L k now rs = (rs', started)" "distinct (map task_id rs)"
    and "\<forall>r \<in> set rs. row_ok cfg now fl runs r" "0 \<le> lease_us cfg"
  shows "map task_id rs' = map task_id rs"
    and "\<forall>r \<in> set rs'. row_ok cfg now (fl @ map (Pair now) started) (runs @ map pr_id started) r"
    and "distinct (map pr_id started)"
    and "\<forall>c \<in> set started. Some (pr_id c) \<in> set (map task_id rs) \<and> (\<forall>f \<in> set fl. live cfg now f \<longrightarrow> pr_id (snd f) \<noteq> pr_id c)"
proof -
  obtain rs1 out where c: "claim_due cfg L now rs = (rs1, out)" by force
  note claimed = claim_due_inv [OF c assms(2,3)]
  from assms(1) c have "admit cfg jv k rs1 out = (rs', started)" by (simp add: tick_def)
  note admitted = admit_inv [OF this claimed(2-4) assms(4)]
  from admitted claimed(1) show "map task_id rs' = map task_id rs" by simp
  from admitted show "\<forall>r \<in> set rs'. row_ok cfg now (fl @ map (Pair now) started) (runs @ map pr_id started) r"
    "distinct (map pr_id started)" by blast+
  show "\<forall>c \<in> set started. Some (pr_id c) \<in> set (map task_id rs) \<and> (\<forall>f \<in> set fl. live cfg now f \<longrightarrow> pr_id (snd f) \<noteq> pr_id c)"
  proof
    fix d
    assume "d \<in> set started"
    with admitted claimed(4) have "claim_ok cfg now fl runs rs1 d" by blast
    then show "Some (pr_id d) \<in> set (map task_id rs) \<and> (\<forall>f \<in> set fl. live cfg now f \<longrightarrow> pr_id (snd f) \<noteq> pr_id d)"
      unfolding claim_ok_def claimed(1) by blast
  qed
qed

lemma other_flights:
  assumes "distinct (map (pr_id \<circ> snd) (filter (live cfg now) fl))" "f \<in> set fl" "live cfg now f"
  shows "\<forall>g \<in> set (remove1 f fl). live cfg now g \<longrightarrow> g \<in> set fl \<and> pr_id (snd g) \<noteq> pr_id (snd f)"
    and "distinct (map (pr_id \<circ> snd) (filter (live cfg now) (remove1 f fl)))"
proof -
  let ?ys = "filter (live cfg now) fl"
  have rem: "filter (live cfg now) (remove1 f fl) = remove1 f ?ys" by (simp add: filter_remove1)
  have d: "distinct ?ys" "inj_on (pr_id \<circ> snd) (set ?ys)" using assms(1) by (simp_all only: distinct_map)
  have f: "f \<in> set ?ys" using assms(2,3) by simp
  show "\<forall>g \<in> set (remove1 f fl). live cfg now g \<longrightarrow> g \<in> set fl \<and> pr_id (snd g) \<noteq> pr_id (snd f)"
  proof (intro ballI impI)
    fix g
    assume g: "g \<in> set (remove1 f fl)" "live cfg now g"
    then have "g \<in> set (remove1 f ?ys)" unfolding rem [symmetric] by simp
    with d(1) have n: "g \<noteq> f" "g \<in> set ?ys" by (auto simp: set_remove1_eq)
    with inj_onD [OF d(2) _ n(2) f] show "g \<in> set fl \<and> pr_id (snd g) \<noteq> pr_id (snd f)" by auto
  qed
  show "distinct (map (pr_id \<circ> snd) (filter (live cfg now) (remove1 f fl)))"
    unfolding rem using d set_remove1_subset [of f ?ys] by (simp add: distinct_map inj_on_subset)
qed

text \<open>A call that ends inside its lease: its row leaves the running state, and the other rows stay.\<close>

lemma ended_row:
  assumes "row_ok cfg now fl runs r" "0 < wc_max_attempts cfg"
    and "distinct (map (pr_id \<circ> snd) (filter (live cfg now) fl))" "f \<in> set fl" "live cfg now f"
    and g: "task_id (g r) = task_id r" "task_status (g r) \<noteq> st_running"
      "\<forall>a \<ge> 0. attempts r = Some a \<longrightarrow> (\<exists>b \<ge> 0. attempts (g r) = Some b)"
      "task_status (g r) = st_pending \<longrightarrow>
        attempts (g r) = Some (clamp_attempts (pr_attempts (snd f)) (wc_max_attempts cfg) + 1) \<and>
        clamp_attempts (pr_attempts (snd f)) (wc_max_attempts cfg) + 1 < wc_max_attempts cfg"
  shows "row_ok cfg now (remove1 f fl) runs (if task_id r = Some (pr_id (snd f)) then g r else r)"
proof (cases "task_id r = Some (pr_id (snd f))")
  case True
  note others = other_flights(1) [OF assms(3-5)]
  from assms(1) True obtain a where a: "attempts r = Some a" "0 \<le> a"
    "int (count_list runs (pr_id (snd f))) \<le> wc_max_attempts cfg"
    "task_status r = st_running \<longrightarrow> int (count_list runs (pr_id (snd f))) \<le> a + 1 \<and> a < wc_max_attempts cfg"
    "\<forall>h \<in> set fl. live cfg now h \<and> pr_id (snd h) = pr_id (snd f) \<longrightarrow> task_status r = st_running \<and> pr_attempts (snd h) = a"
    by (auto simp: row_ok_def)
  from a(5) assms(4,5) have s: "task_status r = st_running" "pr_attempts (snd f) = a" by blast+
  with a(2,4) have c: "clamp_attempts (pr_attempts (snd f)) (wc_max_attempts cfg) = a" by (simp add: clamp_attempts_def)
  from g(3) a(1,2) obtain b where b: "attempts (g r) = Some b" "0 \<le> b" by blast
  have pend: "task_status (g r) = st_pending \<longrightarrow> int (count_list runs (pr_id (snd f))) \<le> b \<and> b < wc_max_attempts cfg"
    using g(4) b(1) a(4) s(1) unfolding c by auto
  have none: "\<forall>h \<in> set (remove1 f fl). \<not> (live cfg now h \<and> pr_id (snd h) = pr_id (snd f))" using others by blast
  show ?thesis
    unfolding row_ok_def using True g(1,2) b a(3) pend none
    by (intro exI [of _ "pr_id (snd f)"] exI [of _ b]) simp
next
  case False
  have "\<forall>h \<in> set (remove1 f fl). live cfg now h \<longrightarrow> h \<in> set fl \<and> live cfg now h"
    using set_remove1_subset [of f fl] by blast
  from row_ok_mono [OF assms(1) this] False show ?thesis by simp
qed

lemma queue_inv_end:
  assumes "queue_inv cfg s" "f \<in> set (q_flights s)" "live cfg (q_clock s) f" "0 < wc_max_attempts cfg"
    and g: "\<And>r. task_id (g r) = task_id r \<and> task_status (g r) \<noteq> st_running \<and>
      (\<forall>a \<ge> 0. attempts r = Some a \<longrightarrow> (\<exists>b \<ge> 0. attempts (g r) = Some b)) \<and>
      (task_status (g r) = st_pending \<longrightarrow>
        attempts (g r) = Some (clamp_attempts (pr_attempts (snd f)) (wc_max_attempts cfg) + 1) \<and>
        clamp_attempts (pr_attempts (snd f)) (wc_max_attempts cfg) + 1 < wc_max_attempts cfg)"
  shows "queue_inv cfg (s\<lparr>q_rows := update_id (pr_id (snd f)) g (q_rows s), q_flights := remove1 f (q_flights s)\<rparr>)"
proof -
  have inv: "distinct (map task_id (q_rows s))" "\<forall>r \<in> set (q_rows s). row_ok cfg (q_clock s) (q_flights s) (q_runs s) r"
    "distinct (map (pr_id \<circ> snd) (filter (live cfg (q_clock s)) (q_flights s)))"
    "\<forall>f \<in> set (q_flights s). pr_id (snd f) \<in> set (q_runs s)" "Some ` set (q_runs s) \<subseteq> set (map task_id (q_rows s))"
    using assms(1) unfolding queue_inv_def by blast+
  have ids: "map task_id (update_id (pr_id (snd f)) g (q_rows s)) = map task_id (q_rows s)"
    by (rule update_id_ids) (use g in blast)
  have "row_ok cfg (q_clock s) (remove1 f (q_flights s)) (q_runs s) r'"
    if "r' \<in> set (update_id (pr_id (snd f)) g (q_rows s))" for r'
  proof -
    from that obtain r where r: "r \<in> set (q_rows s)" "r' = (if task_id r = Some (pr_id (snd f)) then g r else r)"
      by (auto simp: update_id_set)
    from g [of r] ended_row [OF _ assms(4) inv(3) assms(2,3), of "q_runs s" r g] inv(2) r show ?thesis by blast
  qed
  with inv ids other_flights(2) [OF inv(3) assms(2,3)] set_remove1_subset [of f "q_flights s"] show ?thesis
    unfolding queue_inv_def by auto
qed

lemma queue_inv_sweep:
  assumes inv: "queue_inv cfg s" and "0 \<le> lease_us cfg"
    and t: "tick cfg jv L k (q_clock s) (q_rows s) = (rs, started)"
  shows "queue_inv cfg (s\<lparr>q_rows := rs, q_flights := q_flights s @ map (Pair (q_clock s)) started,
      q_runs := q_runs s @ map pr_id started\<rparr>)"
proof -
  have inv': "distinct (map task_id (q_rows s))" "\<forall>r \<in> set (q_rows s). row_ok cfg (q_clock s) (q_flights s) (q_runs s) r"
    "distinct (map (pr_id \<circ> snd) (filter (live cfg (q_clock s)) (q_flights s)))"
    "\<forall>f \<in> set (q_flights s). pr_id (snd f) \<in> set (q_runs s)" "Some ` set (q_runs s) \<subseteq> set (map task_id (q_rows s))"
    using inv unfolding queue_inv_def by blast+
  note T = tick_inv [OF t inv'(1,2) assms(2)]
  have "filter (live cfg (q_clock s)) (map (Pair (q_clock s)) started) = map (Pair (q_clock s)) started"
    using assms(2) by (auto simp: live_def filter_id_conv)
  moreover have "(pr_id \<circ> snd) ` set (filter (live cfg (q_clock s)) (q_flights s)) \<inter> pr_id ` set started = {}"
    using T(4) by fastforce
  ultimately have "distinct (map (pr_id \<circ> snd) (filter (live cfg (q_clock s)) (q_flights s @ map (Pair (q_clock s)) started)))"
    using inv'(3) T(3) by (simp add: comp_def)
  moreover have "Some ` set (q_runs s @ map pr_id started) \<subseteq> set (map task_id rs)"
    using inv'(5) T(4) unfolding T(1) by (simp only: set_append set_map) blast
  moreover have "\<forall>f \<in> set (q_flights s @ map (Pair (q_clock s)) started). pr_id (snd f) \<in> set (q_runs s @ map pr_id started)"
    using inv'(4) by auto
  ultimately show ?thesis using inv'(1) T(1,2) unfolding queue_inv_def by simp
qed

lemma count_fresh: "Some ` set runs \<subseteq> set (map task_id rs) \<Longrightarrow> Some i \<notin> set (map task_id rs) \<Longrightarrow> count_list runs i = 0"
  by (metis count_list_0_iff image_eqI subset_iff)

lemma queue_step_inv:
  assumes "queue_step cfg jv s s'" "queue_inv cfg s" "0 < wc_max_attempts cfg" "0 \<le> lease_us cfg"
  shows "queue_inv cfg s'"
  using assms(1)
proof cases
  case (Wait t)
  have "row_ok cfg t (q_flights s) (q_runs s) r" if "r \<in> set (q_rows s)" for r
    using row_ok_mono [of cfg "q_clock s" "q_flights s" "q_runs s" r "q_flights s" t] live_mono [of cfg t _ "q_clock s"]
      assms(2) Wait(2) that unfolding queue_inv_def by blast
  moreover have "filter (live cfg t) fs = filter (live cfg t) (filter (live cfg (q_clock s)) fs)" for fs
    using live_mono [of cfg t _ "q_clock s"] Wait(2) by (auto intro!: filter_cong)
  then have "distinct (map (pr_id \<circ> snd) (filter (live cfg t) (q_flights s)))"
    using assms(2) unfolding queue_inv_def by (metis distinct_map_filter)
  ultimately show ?thesis using assms(2) unfolding queue_inv_def Wait(1) by simp
next
  case (Sweep L k rs started)
  with queue_inv_sweep [OF assms(2,4)] show ?thesis by blast
next
  case (Finish f res)
  from finish_cases [OF assms(3), of "q_clock s" "snd f" res "q_rows s"] obtain g where
    "finish cfg (q_clock s) (snd f) res (q_rows s) = update_id (pr_id (snd f)) g (q_rows s)"
    and g: "\<And>r. task_id (g r) = task_id r \<and> task_status (g r) \<noteq> st_running \<and>
      (\<forall>a \<ge> 0. attempts r = Some a \<longrightarrow> (\<exists>b \<ge> 0. attempts (g r) = Some b)) \<and>
      (task_status (g r) = st_pending \<longrightarrow>
        attempts (g r) = Some (clamp_attempts (pr_attempts (snd f)) (wc_max_attempts cfg) + 1) \<and>
        clamp_attempts (pr_attempts (snd f)) (wc_max_attempts cfg) + 1 < wc_max_attempts cfg)"
    by blast
  with queue_inv_end [OF assms(2) Finish(2,3) assms(3) g] Finish(1) show ?thesis by simp
next
  case (Panic f)
  have "queue_inv cfg (s\<lparr>q_rows := update_id (pr_id (snd f)) (refuse_row Dispatch_Panicked) (q_rows s),
      q_flights := remove1 f (q_flights s)\<rparr>)"
    by (rule queue_inv_end [OF assms(2) Panic(2,3) assms(3)]) simp
  with Panic(1) show ?thesis by (simp add: mark_refused_def)
next
  case (Lost f)
  have sub: "set (remove1 f (q_flights s)) \<subseteq> set (q_flights s)" by (rule set_remove1_subset)
  have "row_ok cfg (q_clock s) (remove1 f (q_flights s)) (q_runs s) r" if "r \<in> set (q_rows s)" for r
    using row_ok_mono [of cfg "q_clock s" "q_flights s" "q_runs s" r "remove1 f (q_flights s)" "q_clock s"] sub
      assms(2) that unfolding queue_inv_def by blast
  moreover have "distinct (map (pr_id \<circ> snd) (filter (live cfg (q_clock s)) (remove1 f (q_flights s))))"
  proof -
    let ?ys = "filter (live cfg (q_clock s)) (q_flights s)"
    have "distinct ?ys" "inj_on (pr_id \<circ> snd) (set ?ys)"
      using assms(2) unfolding queue_inv_def by (simp_all only: distinct_map)
    then show ?thesis
      using set_remove1_subset [of f ?ys] by (simp add: filter_remove1 distinct_map inj_on_subset)
  qed
  ultimately show ?thesis using assms(2) sub unfolding queue_inv_def Lost(1) by auto
next
  case (Cancel i)
  have "row_ok cfg (q_clock s) (q_flights s) (q_runs s) r'" if r': "r' \<in> set (cancel_task i (q_rows s))" for r'
  proof -
    from r' obtain r where r: "r \<in> set (q_rows s)"
      "r' = (if task_id r = Some i \<and> task_status r = st_pending then r\<lparr>task_status := st_cancelled\<rparr> else r)"
      by (auto simp: cancel_task_def)
    with assms(2) have ok: "row_ok cfg (q_clock s) (q_flights s) (q_runs s) r" unfolding queue_inv_def by blast
    show ?thesis
    proof (cases "task_id r = Some i \<and> task_status r = st_pending")
      case True
      then have "task_status r \<noteq> st_running" by simp
      from row_ok_idle [OF ok this] True ok r(2) show ?thesis by (auto simp: row_ok_def)
    next
      case False
      with r(2) ok show ?thesis by auto
    qed
  qed
  moreover have "map task_id (cancel_task i (q_rows s)) = map task_id (q_rows s)" by (auto simp: cancel_task_def)
  ultimately show ?thesis using assms(2) unfolding queue_inv_def Cancel by simp
next
  case (Schedule r)
  from Schedule(2) obtain i where i: "task_id r = Some i" by (auto simp: new_task_def)
  have runs: "Some ` set (q_runs s) \<subseteq> set (map task_id (q_rows s))"
    and fl: "\<forall>f \<in> set (q_flights s). pr_id (snd f) \<in> set (q_runs s)"
    using assms(2) unfolding queue_inv_def by blast+
  have c: "count_list (q_runs s) i = 0" using count_fresh [OF runs] Schedule(3) i by simp
  have "pr_id (snd f) \<noteq> i" if "f \<in> set (q_flights s)" for f
    using fl that runs Schedule(3) i by auto
  with i c Schedule(2) assms(3) have "row_ok cfg (q_clock s) (q_flights s) (q_runs s) r"
    by (auto simp: row_ok_def new_task_def)
  with assms(2) Schedule(3) show ?thesis unfolding queue_inv_def Schedule(1) by auto
qed

lemma queue_reaches_inv:
  assumes "queue_reaches cfg jv s t" "queue_inv cfg s" "0 < wc_max_attempts cfg" "0 \<le> lease_us cfg"
  shows "queue_inv cfg t"
  using assms by (induction rule: queue_reaches.induct) (auto intro: queue_step_inv)

lemma empty_queue_inv: "queue_inv cfg empty_queue"
  by (simp add: queue_inv_def empty_queue_def)

section \<open>The retry budget and one call at a time\<close>

text \<open>
  Claim C33. However the workers of a project sweep, crash, panic, finish and cancel, a task is dispatched at most
  \<open>MaxAttempts\<close> times.
\<close>

theorem retry_budget:
  assumes "queue_reaches cfg jv empty_queue s" "0 < wc_max_attempts cfg" "0 \<le> wc_lease cfg"
  shows "int (count_list (q_runs s) i) \<le> wc_max_attempts cfg"
proof -
  from queue_reaches_inv [OF assms(1) empty_queue_inv assms(2)] assms(3) have inv: "queue_inv cfg s"
    by (simp add: lease_us_def)
  show ?thesis
  proof (cases "i \<in> set (q_runs s)")
    case True
    with inv obtain r where "r \<in> set (q_rows s)" "task_id r = Some i" by (auto simp: queue_inv_def)
    with inv show ?thesis unfolding queue_inv_def row_ok_def by fastforce
  next
    case False
    with assms(2) show ?thesis by (simp add: count_notin)
  qed
qed

definition example_worker :: worker_config where
  "example_worker = new_worker \<lparr>wc_project = ''p1'', wc_functions = Some (\<lambda>p m. Inr (m = ''jobs'')), wc_poll = 0,
    wc_batch = 0, wc_max_attempts = 0, wc_max_args = 0, wc_lease = 0, wc_concurrent = 0\<rparr>"

definition example_task :: task_row where
  "example_task = \<lparr>task_id = Some ''t1'', task_project = Some ''p1'', task_module = Some ''jobs'',
    task_export = Some ''run'', task_args = Some ''1'', scheduled_for = 0, task_status = st_pending,
    attempts = Some 0, last_error = None, claimed_at = None\<rparr>"

lemma example_worker_simps [simp]:
  "wc_max_attempts example_worker = 5" "wc_lease example_worker = 300" "wc_batch example_worker = 32"
  "wc_max_args example_worker = 1024 * 1024" "wc_project example_worker = ''p1''"
  "wc_functions example_worker = Some (\<lambda>p m. Inr (m = ''jobs''))"
  by (simp_all add: example_worker_def new_worker_def default_claim_lease_def default_max_args_bytes_def)

lemma example_names: "valid_module_name ''jobs''" "valid_export_name ''run''"
  by (simp_all add: valid_module_name_def max_module_name_len_def split_path_def module_pattern_def module_segment_def
      word_char_def letter_char_def valid_export_name_def export_pattern_def)

lemma example_tick:
  "tick example_worker (\<lambda>_. True) {} 1 0 [example_task] =
    ([example_task\<lparr>task_status := st_running, claimed_at := Some 0\<rparr>], [scan_pending_row example_task])"
proof -
  have b: "within_bounds example_worker example_task = Some True"
    by (simp add: within_bounds_def sql_le_def example_task_def max_task_id_len_def max_module_name_len_def
        max_export_name_len_def)
  have s: "task_status example_task = st_pending" "scheduled_for example_task = 0" by (simp_all add: example_task_def)
  have "pr_id (scan_pending_row example_task) = ''t1''" "task_id example_task = Some ''t1''"
    by (simp_all add: scan_pending_row_def example_task_def or_zero_def)
  then have c: "claim_due example_worker {} 0 [example_task] =
      ([example_task\<lparr>task_status := st_running, claimed_at := Some 0\<rparr>], [scan_pending_row example_task])"
    by (simp add: claim_due_def Let_def reap_abandoned_def close_oversized_def pick_def update_at_def abandoned_def
        is_due_def s b sql_not_def mark_running_def)
  have "reject example_worker (\<lambda>_. True) (scan_pending_row example_task) = None"
    by (simp add: reject_def scan_pending_row_def example_task_def or_zero_def example_names)
  then show ?thesis by (simp add: tick_def c)
qed

lemma example_task_id: "pr_id (scan_pending_row example_task) = ''t1''"
  by (simp add: scan_pending_row_def example_task_def or_zero_def)

text \<open>A scheduled task, swept once.\<close>

lemma example_queue:
  "queue_reaches example_worker (\<lambda>_. True) empty_queue
    \<lparr>q_rows = [example_task\<lparr>task_status := st_running, claimed_at := Some 0\<rparr>], q_clock = 0,
      q_flights = [(0, scan_pending_row example_task)], q_runs = [''t1'']\<rparr>"
proof -
  let ?s = "empty_queue\<lparr>q_rows := [example_task]\<rparr>"
  have "queue_step example_worker (\<lambda>_. True) empty_queue (empty_queue\<lparr>q_rows := q_rows empty_queue @ [example_task]\<rparr>)"
    by (rule queue_step.Schedule) (simp_all add: new_task_def example_task_def empty_queue_def)
  then have 1: "queue_reaches example_worker (\<lambda>_. True) empty_queue ?s"
    by (auto simp: empty_queue_def intro: queue_reaches.intros)
  have "tick example_worker (\<lambda>_. True) {} 1 (q_clock ?s) (q_rows ?s) =
    ([example_task\<lparr>task_status := st_running, claimed_at := Some 0\<rparr>], [scan_pending_row example_task])"
    using example_tick by (simp add: empty_queue_def)
  from queue_reaches.Next [OF 1 queue_step.Sweep [OF this]] show ?thesis
    by (simp add: empty_queue_def example_task_id)
qed

theorem dispatched_calls_admissible_witness:
  "callable example_worker (\<lambda>_. True) (scan_pending_row example_task)"
  using dispatched_calls_admissible [of example_worker "\<lambda>_. True" "{}" 1 0 "[example_task]"]
  by (simp add: example_tick del: One_nat_def)

theorem retry_budget_witness: "int (count_list [''t1''] ''t1'') \<le> wc_max_attempts example_worker"
  using retry_budget [OF example_queue, of "''t1''"] by simp

text \<open>
  Claim C34. At any time at most one call per task is inside its claim lease, and the task's row is then running
  under exactly that claim: no two workers run the same task.
\<close>

theorem single_flight:
  assumes "queue_reaches cfg jv empty_queue s" "0 < wc_max_attempts cfg" "0 \<le> wc_lease cfg"
  shows "distinct (map (pr_id \<circ> snd) (filter (live cfg (q_clock s)) (q_flights s))) \<and>
    (\<forall>f \<in> set (q_flights s). live cfg (q_clock s) f \<longrightarrow>
      (\<exists>r \<in> set (q_rows s). task_id r = Some (pr_id (snd f)) \<and> task_status r = st_running \<and>
        claimed_at r = Some (fst f)))"
proof -
  from queue_reaches_inv [OF assms(1) empty_queue_inv assms(2)] assms(3) have inv: "queue_inv cfg s"
    by (simp add: lease_us_def)
  have "\<exists>r \<in> set (q_rows s). task_id r = Some (pr_id (snd f)) \<and> task_status r = st_running \<and> claimed_at r = Some (fst f)"
    if f: "f \<in> set (q_flights s)" "live cfg (q_clock s) f" for f
  proof -
    from inv f(1) have "Some (pr_id (snd f)) \<in> set (map task_id (q_rows s))" unfolding queue_inv_def by blast
    then obtain r where r: "r \<in> set (q_rows s)" "task_id r = Some (pr_id (snd f))" by auto
    with inv have "row_ok cfg (q_clock s) (q_flights s) (q_runs s) r" unfolding queue_inv_def by blast
    with f r(2) have "task_status r = st_running \<and> claimed_at r = Some (fst f)" by (auto simp: row_ok_def)
    with r show ?thesis by blast
  qed
  with inv show ?thesis unfolding queue_inv_def by blast
qed

theorem single_flight_witness:
  "\<exists>r \<in> set [example_task\<lparr>task_status := st_running, claimed_at := Some 0\<rparr>]. task_id r = Some ''t1'' \<and> claimed_at r = Some 0"
  using single_flight [OF example_queue] by (simp add: live_def lease_us_def scan_pending_row_def example_task_def or_zero_def)

section \<open>A finished task stays finished\<close>

lemma update_at_keep:
  assumes "r \<in> set rs" "\<And>i. i \<in> set is \<Longrightarrow> i < length rs \<Longrightarrow> rs ! i \<noteq> r"
  shows "r \<in> set (update_at is f rs)"
proof -
  from assms(1) obtain i where i: "i < length rs" "rs ! i = r" by (auto simp: in_set_conv_nth)
  with assms(2) have "update_at is f rs ! i = r" by (auto simp: update_at_nth)
  with i(1) show ?thesis by (metis nth_mem update_at_length)
qed

lemma claim_due_keep:
  assumes "claim_due cfg L now rs = (rs', out)" "r \<in> set rs"
    and "task_status r \<noteq> st_pending" "task_status r \<noteq> st_running"
  shows "r \<in> set (close_oversized cfg L now (reap_abandoned cfg L now rs))"
proof -
  from assms(2,4) have "r \<in> set (reap_abandoned cfg L now rs)" unfolding reap_abandoned_def
    by (intro update_at_keep) (auto simp: abandoned_def dest: pick_index)
  with assms(3) show ?thesis unfolding close_oversized_def
    by (intro update_at_keep) (auto simp: is_due_def dest: pick_index)
qed

lemma admit_keep:
  assumes "admit cfg jv k rs cs = (rs', started)" "r \<in> set rs" "\<forall>c \<in> set cs. task_id r \<noteq> Some (pr_id c)"
  shows "r \<in> set rs'"
  using assms
proof (induction cs arbitrary: k rs started)
  case (Cons c cs)
  have keep: "r \<in> set (mark_refused c why rs)" for why
    using Cons.prems(2,3) by (auto simp: mark_refused_def update_id_set intro!: bexI [of _ r])
  show ?case
  proof (cases "reject cfg jv c")
    case None
    with Cons.prems Cons.IH show ?thesis by (auto split: if_splits prod.splits)
  next
    case (Some why)
    with Cons.prems keep [of why] Cons.IH [of k "mark_refused c why rs"] show ?thesis by simp
  qed
qed simp

lemma tick_keep:
  assumes t: "tick cfg jv L k now rs = (rs', started)" and r: "r \<in> set rs"
    and fin: "task_status r \<noteq> st_pending" "task_status r \<noteq> st_running"
    and inv: "distinct (map task_id rs)" "\<forall>r \<in> set rs. row_ok cfg now fl runs r"
  shows "r \<in> set rs'"
proof -
  obtain rs1 out where c: "claim_due cfg L now rs = (rs1, out)" by force
  note claimed = claim_due_inv [OF c inv]
  let ?R = "close_oversized cfg L now (reap_abandoned cfg L now rs)"
  have R: "r \<in> set ?R" by (rule claim_due_keep [OF c r fin])
  from claimed_rows [OF c] obtain ix where out: "out = map (\<lambda>i. scan_pending_row (?R ! i)) ix"
    and rs1: "rs1 = mark_running now (map pr_id out) ?R"
    and sel: "\<forall>i \<in> set ix. i < length ?R \<and> is_due now (?R ! i)" by blast
  have dR: "distinct (map task_id ?R)"
    using inv(1) unfolding close_oversized_def reap_abandoned_def by (simp add: update_at_ids)
  have okR: "\<forall>r \<in> set ?R. row_ok cfg now fl runs r" using inv_closed [OF inv_reaped [OF inv(2)]] .
  have other: "task_id r \<noteq> Some (pr_id d)" if "d \<in> set out" for d
  proof
    assume id: "task_id r = Some (pr_id d)"
    from that out obtain i where i: "i \<in> set ix" "d = scan_pending_row (?R ! i)" by auto
    with sel okR have "?R ! i \<in> set ?R" "\<exists>x. task_id (?R ! i) = Some x" unfolding row_ok_def by auto
    then have "task_id (?R ! i) = task_id r" using i(2) id by (auto simp: scan_pending_row_def or_zero_def)
    then have "?R ! i = r" using distinct_ids_eq [OF dR] \<open>?R ! i \<in> set ?R\<close> R by blast
    with sel i(1) fin show False by (auto simp: is_due_def)
  qed
  then have "r \<in> set rs1"
    using R unfolding rs1 mark_running_def by (auto simp: image_iff intro!: bexI [of _ r] split: option.splits)
  from t c have "admit cfg jv k rs1 out = (rs', started)" by (simp add: tick_def)
  from admit_keep [OF this \<open>r \<in> set rs1\<close>] other show ?thesis by blast
qed

text \<open>
  A task that was completed, failed, skipped or cancelled is never changed again by any worker: its row
  stays as it is.
\<close>

theorem finished_stays:
  assumes "queue_reaches cfg jv empty_queue s" "0 < wc_max_attempts cfg" "0 \<le> wc_lease cfg"
    and "queue_step cfg jv s s'" "r \<in> set (q_rows s)"
    and fin: "task_status r \<in> {st_completed, st_failed, st_skipped, st_cancelled}"
  shows "r \<in> set (q_rows s')"
proof -
  from queue_reaches_inv [OF assms(1) empty_queue_inv assms(2)] assms(3) have inv: "queue_inv cfg s"
    by (simp add: lease_us_def)
  from fin have idle: "task_status r \<noteq> st_pending" "task_status r \<noteq> st_running" by auto
  from inv assms(5) have ok: "row_ok cfg (q_clock s) (q_flights s) (q_runs s) r" unfolding queue_inv_def by blast
  have end_keep: "r \<in> set (update_id (pr_id (snd f)) g (q_rows s))"
    if "f \<in> set (q_flights s)" "live cfg (q_clock s) f" for f g
    using row_ok_idle [OF ok idle(2) that] assms(5) by (auto simp: update_id_set intro!: bexI [of _ r])
  from assms(4) show ?thesis
  proof cases
    case (Sweep L k rs started)
    from inv have "distinct (map task_id (q_rows s))"
      "\<forall>r \<in> set (q_rows s). row_ok cfg (q_clock s) (q_flights s) (q_runs s) r" unfolding queue_inv_def by blast+
    from tick_keep [OF Sweep(2) assms(5) idle this] Sweep(1) show ?thesis by simp
  next
    case (Finish f res)
    from finish_cases [OF assms(2), of "q_clock s" "snd f" res "q_rows s"] obtain g where
      "finish cfg (q_clock s) (snd f) res (q_rows s) = update_id (pr_id (snd f)) g (q_rows s)" by blast
    with end_keep [OF Finish(2,3)] Finish(1) show ?thesis by simp
  next
    case (Panic f)
    with end_keep [OF Panic(2,3)] show ?thesis by (simp add: mark_refused_def)
  next
    case (Cancel i)
    with assms(5) idle show ?thesis by (auto simp: cancel_task_def image_iff intro!: bexI [of _ r])
  qed (use assms(5) in simp_all)
qed

theorem finished_stays_witness:
  "\<exists>s s' r. queue_step example_worker (\<lambda>_. True) s s' \<and> r \<in> set (q_rows s) \<and> r \<in> set (q_rows s') \<and>
    task_status r = st_cancelled"
proof -
  let ?s = "empty_queue\<lparr>q_rows := [example_task]\<rparr>" and ?r = "example_task\<lparr>task_status := st_cancelled\<rparr>"
  have p: "task_id example_task = Some ''t1''" "task_status example_task = st_pending" "new_task example_task"
    by (simp_all add: example_task_def new_task_def)
  have "queue_step example_worker (\<lambda>_. True) empty_queue (empty_queue\<lparr>q_rows := q_rows empty_queue @ [example_task]\<rparr>)"
    by (rule queue_step.Schedule) (simp_all add: p empty_queue_def)
  then have 1: "queue_reaches example_worker (\<lambda>_. True) empty_queue ?s"
    by (auto simp: empty_queue_def intro: queue_reaches.intros)
  let ?t = "?s\<lparr>q_rows := cancel_task ''t1'' (q_rows ?s)\<rparr>"
  have 2: "queue_reaches example_worker (\<lambda>_. True) empty_queue ?t"
    by (rule queue_reaches.Next [OF 1 queue_step.Cancel])
  have r: "?r \<in> set (q_rows ?t)" by (simp add: cancel_task_def p)
  have w: "queue_step example_worker (\<lambda>_. True) ?t (?t\<lparr>q_clock := 1\<rparr>)"
    by (rule queue_step.Wait) (simp add: empty_queue_def)
  from finished_stays [OF 2 _ _ w r] have "?r \<in> set (q_rows (?t\<lparr>q_clock := 1\<rparr>))" by simp
  moreover have "task_status ?r = st_cancelled" by simp
  ultimately show ?thesis using w r by blast
qed

section \<open>Abandoned claims\<close>

lemma pick_all:
  assumes "i < length rows" "P (rows ! i)" "i \<notin> L" "int (length (filter P rows)) \<le> n"
  shows "i \<in> set (pick L n key P rows)"
proof -
  let ?xs = "filter (\<lambda>(i, r). P r \<and> i \<notin> L) (enumerate 0 rows)"
  have "length ?xs \<le> length (filter (\<lambda>(i, r). P r) (enumerate 0 rows))"
  proof -
    have "?xs = filter (\<lambda>(i, r). i \<notin> L) (filter (\<lambda>(i, r). P r) (enumerate 0 rows))"
      by (simp add: case_prod_unfold conj_commute)
    then show ?thesis by (simp only: length_filter_le)
  qed
  also have "\<dots> = length (filter P rows)"
    using filter_map [of P snd "enumerate 0 rows"] by (simp add: comp_def case_prod_unfold)
  finally have "length ?xs \<le> nat n" using assms(4) by simp
  moreover have "(i, rows ! i) \<in> set ?xs" using assms(1-3) by (simp add: in_set_enumerate_eq)
  ultimately show ?thesis unfolding pick_def by (force simp: image_iff)
qed

text \<open>
  A claim is never lost: once its lease has run out, the next sweep that does not find the row locked
  spends an attempt on it and either queues the task again or, at the limit, fails it.
\<close>

theorem abandoned_reclaimed:
  assumes "i < length rows" "abandoned cfg now (rows ! i)" "i \<notin> L" "attempts (rows ! i) = Some n"
    and "int (length (filter (abandoned cfg now) rows)) \<le> wc_batch cfg"
  shows "let r = reap_abandoned cfg L now rows ! i in
    task_id r = task_id (rows ! i) \<and> attempts r = Some (n + 1) \<and> claimed_at r = None \<and>
    task_status r = (if n + 1 \<ge> wc_max_attempts cfg then st_failed else st_pending)"
  using pick_all [where P = "abandoned cfg now" and key = "\<lambda>_. 0", OF assms(1-3,5)] assms(1,4)
  by (simp add: Let_def reap_abandoned_def update_at_nth reap_row_def)

theorem abandoned_reclaimed_witness:
  "attempts (reap_abandoned example_worker {} 400000000 [example_task\<lparr>task_status := st_running, claimed_at := Some 0\<rparr>] ! 0)
    = Some 1"
  using abandoned_reclaimed [of 0 "[example_task\<lparr>task_status := st_running, claimed_at := Some 0\<rparr>]" example_worker
      400000000 "{}" 0]
  by (simp add: abandoned_def lease_us_def example_task_def Let_def)

lemma reap_attempts:
  "attempts ((reap_row cfg ^^ k) r) = map_option (\<lambda>n. n + int k) (attempts r)"
proof (induction k)
  case 0
  then show ?case by (simp add: option.map_ident)
next
  case (Suc k)
  have "attempts ((reap_row cfg ^^ Suc k) r) = map_option (\<lambda>n. n + 1) (attempts ((reap_row cfg ^^ k) r))"
    by (simp add: reap_row_def [where r = "(reap_row cfg ^^ k) r"])
  with Suc show ?case by (cases "attempts r") simp_all
qed

text \<open>
  The reclaiming statement takes the row's own attempt count as it stands, where a failed call clamps it:
  a tenant who writes an attempt count of minus \<open>k\<close> has the row put back into the queue \<open>k + 1\<close> times before the first
  attempt is counted, for any \<open>k\<close>, on a retry budget of five.
\<close>

theorem reclaim_unclamped:
  "attempts ((reap_row example_worker ^^ k) (example_task\<lparr>attempts := Some (- int k)\<rparr>)) = Some 0 \<and>
   task_status ((reap_row example_worker ^^ Suc k) (example_task\<lparr>attempts := Some (- int k)\<rparr>)) = st_pending \<and>
   clamp_attempts (- int k) (wc_max_attempts example_worker) = 0"
proof -
  let ?r = "example_task\<lparr>attempts := Some (- int k)\<rparr>"
  have a: "attempts ((reap_row example_worker ^^ k) ?r) = Some 0" by (simp add: reap_attempts)
  have "task_status (reap_row example_worker r) = st_pending" if "attempts r = Some 0" for r
    using that by (simp add: reap_row_def)
  with a show ?thesis by (simp add: clamp_attempts_def)
qed

text \<open>A row whose module is NULL is neither closed nor claimed, as the size predicate is then NULL.\<close>

lemma null_module_stays:
  "within_bounds cfg (r\<lparr>task_module := None\<rparr>) \<noteq> Some True"
  "within_bounds example_worker (example_task\<lparr>task_module := None\<rparr>) = None"
  by (auto simp: within_bounds_def sql_le_def example_task_def max_task_id_len_def max_export_name_len_def
      elim!: sql_and.elims)

end
