(* ===== verification/Cron.thy ===== *)
theory Cron
  imports Complex_Main Task_Queue Go_Std
begin

text \<open>
  Schedules (\<^verbatim>\<open>internal/scheduler/schedule.go\<close>), the cron runner that turns due jobs of a project's registry into
  queued tasks (\<^verbatim>\<open>cron.go\<close>), and the synchronisation of the registry at a deploy (\<^verbatim>\<open>cron_sync.go\<close>). Instants
  and durations are nanoseconds; a \<open>Duration\<close> wraps at 64 bits. Parsing a cron expression is the library's:
  a parameter that answers the function from an instant to the next.
\<close>

section \<open>Schedules\<close>

text \<open>
  A JSON number as the two decoders see it: its value (\<^verbatim>\<open>float64\<close>) and whether it is written as an integer, with
  no fraction or exponent (the only form Go decodes into an \<^verbatim>\<open>int\<close>).
\<close>

record json_number =
  num_value :: rat
  num_integer :: bool

record schedule_json =
  sj_kind :: string
  sj_expression :: string
  sj_hours :: json_number
  sj_minutes :: json_number
  sj_seconds :: json_number
  sj_hour_utc :: json_number
  sj_minute_utc :: json_number

datatype raw_schedule = Raw_Empty | Raw_Not_Object | Raw_Undecodable | Raw_Schedule schedule_json

type_synonym cron_parser = "string \<Rightarrow> (int \<Rightarrow> int) option"

definition cron_descriptors :: "string list" where
  "cron_descriptors = [''@hourly'', ''@daily'', ''@weekly'', ''@monthly'']"

text \<open>\<^verbatim>\<open>strings.Fields\<close>: the maximal runs of characters that are not white space.\<close>

function fields_loop :: "string \<Rightarrow> string \<Rightarrow> string list" where
  "fields_loop word s = (case s of
     [] \<Rightarrow> if word = [] then [] else [rev word]
   | c # cs \<Rightarrow> (case find (\<lambda>e. e \<noteq> [] \<and> prefix e s) space_encodings of
       None \<Rightarrow> fields_loop (c # word) cs
     | Some e \<Rightarrow> (if word = [] then [] else [rev word]) @ fields_loop [] (drop (length e) s)))"
  by pat_completeness auto

termination
  by (relation "measure (length \<circ> snd)") (auto simp: find_Some_iff)

declare fields_loop.simps [simp del]

definition fields :: "string \<Rightarrow> string list" where
  "fields s = fields_loop [] s"

definition whole_number :: "rat \<Rightarrow> bool" where
  "whole_number v \<longleftrightarrow> v = of_int \<lfloor>v\<rfloor> \<and> fits64 \<lfloor>v\<rfloor>"

definition whole_within :: "rat \<Rightarrow> int \<Rightarrow> int \<Rightarrow> bool" where
  "whole_within v low high \<longleftrightarrow> whole_number v \<and> of_int low \<le> v \<and> v \<le> of_int high"

definition validate_cron_expression :: "cron_parser \<Rightarrow> string \<Rightarrow> bool" where
  "validate_cron_expression parse expression =
    (let e = trim_space expression
     in if e = [] then False
        else if prefix ''@'' e then
          (if prefix ''@every'' e then False else e \<in> set cron_descriptors)
        else if length (fields e) \<noteq> 5 then False
        else parse e \<noteq> None)"

definition validate_interval :: "schedule_json \<Rightarrow> bool" where
  "validate_interval s \<longleftrightarrow>
    list_all (\<lambda>n. num_value n \<ge> 0 \<and> whole_number (num_value n)) [sj_hours s, sj_minutes s, sj_seconds s] \<and>
    num_value (sj_hours s) + num_value (sj_minutes s) + num_value (sj_seconds s) \<noteq> 0"

definition validate_schedule :: "cron_parser \<Rightarrow> raw_schedule \<Rightarrow> bool" where
  "validate_schedule parse raw = (case raw of
     Raw_Schedule s \<Rightarrow>
       if sj_kind s = ''cron'' then validate_cron_expression parse (sj_expression s)
       else if sj_kind s = ''interval'' then validate_interval s
       else if sj_kind s = ''daily'' then
         whole_within (num_value (sj_hour_utc s)) 0 23 \<and> whole_within (num_value (sj_minute_utc s)) 0 59
       else if sj_kind s = ''hourly'' then whole_within (num_value (sj_minute_utc s)) 0 59
       else False
   | _ \<Rightarrow> False)"

section \<open>The next due time\<close>

definition second_ns :: int where "second_ns = 1000000000"
definition minute_ns :: int where "minute_ns = 60 * second_ns"
definition hour_ns :: int where "hour_ns = 60 * minute_ns"
definition day_ns :: int where "day_ns = 24 * hour_ns"

lemmas duration_defs = second_ns_def minute_ns_def hour_ns_def day_ns_def

record schedule_spec =
  sp_kind :: string
  sp_expression :: string
  sp_hours :: int
  sp_minutes :: int
  sp_seconds :: int
  sp_hour_utc :: int
  sp_minute_utc :: int

definition decode_int :: "json_number \<Rightarrow> int option" where
  "decode_int n = (if num_integer n \<and> fits64 \<lfloor>num_value n\<rfloor> then Some \<lfloor>num_value n\<rfloor> else None)"

text \<open>The runner's decoding of a schedule, into integer fields.\<close>

definition decode_schedule :: "raw_schedule \<Rightarrow> schedule_spec option" where
  "decode_schedule raw = (case raw of
     Raw_Schedule s \<Rightarrow>
       (case (decode_int (sj_hours s), decode_int (sj_minutes s), decode_int (sj_seconds s),
              decode_int (sj_hour_utc s), decode_int (sj_minute_utc s)) of
          (Some h, Some m, Some sec, Some hu, Some mu) \<Rightarrow>
            Some \<lparr>sp_kind = sj_kind s, sp_expression = sj_expression s, sp_hours = h, sp_minutes = m,
              sp_seconds = sec, sp_hour_utc = hu, sp_minute_utc = mu\<rparr>
        | _ \<Rightarrow> None)
   | _ \<Rightarrow> None)"

text \<open>The start of the current UTC day or hour, and the given minute after it.\<close>

definition next_daily_utc :: "int \<Rightarrow> int \<Rightarrow> int \<Rightarrow> int" where
  "next_daily_utc now hour_utc minute_utc =
    (let candidate = (now - now mod day_ns) + hour_utc * hour_ns + minute_utc * minute_ns
     in if \<not> candidate > now then candidate + day_ns else candidate)"

definition next_hourly_utc :: "int \<Rightarrow> int \<Rightarrow> int" where
  "next_hourly_utc now minute_utc =
    (let candidate = (now - now mod hour_ns) + minute_utc * minute_ns
     in if \<not> candidate > now then candidate + hour_ns else candidate)"

definition interval_duration :: "schedule_spec \<Rightarrow> int" where
  "interval_duration s = wrap64 (wrap64 (wrap64 (sp_hours s * hour_ns) + wrap64 (sp_minutes s * minute_ns)) +
    wrap64 (sp_seconds s * second_ns))"

definition next_due_at :: "cron_parser \<Rightarrow> schedule_spec \<Rightarrow> int \<Rightarrow> int option" where
  "next_due_at parse s now =
    (if sp_kind s = ''cron'' then map_option (\<lambda>nxt. nxt now) (parse (sp_expression s))
     else if sp_kind s = ''interval'' then
       (let d = interval_duration s in if d \<le> 0 then None else Some (now + d))
     else if sp_kind s = ''daily'' then Some (next_daily_utc now (sp_hour_utc s) (sp_minute_utc s))
     else if sp_kind s = ''hourly'' then Some (next_hourly_utc now (sp_minute_utc s))
     else None)"

section \<open>The runner\<close>

record cron_row =
  cr_name :: string
  cr_project :: string
  cr_function :: string
  cr_module :: string
  cr_export :: string
  cr_args :: string
  cr_schedule :: string
  cr_last :: "int option"

record cron_config =
  cc_project :: string
  cc_min_interval :: int
  cc_max_jobs :: int
  cc_max_args :: int
  cc_functions :: "(string \<Rightarrow> string \<Rightarrow> (unit, bool) result) option"

definition default_cron_min_interval :: int where "default_cron_min_interval = minute_ns"
definition default_cron_max_jobs :: int where "default_cron_max_jobs = 100"

definition new_cron_runner :: "cron_config \<Rightarrow> cron_config" where
  "new_cron_runner c = c
    \<lparr>cc_min_interval := if cc_min_interval c \<le> 0 then default_cron_min_interval else cc_min_interval c,
     cc_max_jobs := if cc_max_jobs c \<le> 0 then default_cron_max_jobs else cc_max_jobs c,
     cc_max_args := if cc_max_args c \<le> 0 then default_max_args_bytes else cc_max_args c\<rparr>"

text \<open>\<open>cronListSQL\<close>; \<open>collate\<close> is the database's \<^verbatim>\<open>ORDER BY name\<close>.\<close>

definition cron_list :: "(cron_row list \<Rightarrow> cron_row list) \<Rightarrow> cron_config \<Rightarrow> cron_row list \<Rightarrow> cron_row list" where
  "cron_list collate cfg rows = take (nat (cc_max_jobs cfg)) (collate (filter (\<lambda>r.
     cr_project r = cc_project cfg \<and> int (length (cr_args r)) \<le> cc_max_args cfg \<and>
     int (length (cr_schedule r)) \<le> cc_max_args cfg \<and> length (cr_name r) \<le> max_cron_name_len \<and>
     length (cr_module r) \<le> max_module_name_len \<and> length (cr_export r) \<le> max_export_name_len) rows))"

definition deployed :: "cron_config \<Rightarrow> string \<Rightarrow> bool" where
  "deployed cfg module_name = (case cc_functions cfg of
     None \<Rightarrow> False
   | Some has_function \<Rightarrow> (case has_function (cc_project cfg) module_name of Inr known \<Rightarrow> known | Inl _ \<Rightarrow> False))"

definition admissible :: "cron_config \<Rightarrow> cron_row \<Rightarrow> bool" where
  "admissible cfg r =
    (if cr_project r \<noteq> cc_project cfg then False
     else if \<not> valid_module_name (cr_module r) \<or> \<not> valid_export_name (cr_export r) then False
     else deployed cfg (cr_module r))"

definition next_enqueue ::
  "(string \<Rightarrow> raw_schedule) \<Rightarrow> cron_parser \<Rightarrow> cron_config \<Rightarrow> string \<Rightarrow> int \<Rightarrow> int option" where
  "next_enqueue json parse cfg schedule_raw now = (case decode_schedule (json schedule_raw) of
     None \<Rightarrow> None
   | Some s \<Rightarrow> (case next_due_at parse s now of
       None \<Rightarrow> None
     | Some due \<Rightarrow>
         let earliest = now + cc_min_interval cfg in Some (if due < earliest then earliest else due)))"

text \<open>The due job a registry row yields at this tick, if any.\<close>

definition due_job ::
  "(string \<Rightarrow> raw_schedule) \<Rightarrow> cron_parser \<Rightarrow> cron_config \<Rightarrow> int \<Rightarrow> cron_row \<Rightarrow> int option" where
  "due_job json parse cfg now r =
    (if \<not> admissible cfg r then None
     else if (case cr_last r of Some t \<Rightarrow> t > now | None \<Rightarrow> False) then None
     else next_enqueue json parse cfg (cr_schedule r) now)"

text \<open>A \<^verbatim>\<open>timestamptz\<close> column keeps microseconds, rounded.\<close>

definition timestamptz :: "int \<Rightarrow> int" where
  "timestamptz t = ((t + 500) div 1000) * 1000"

definition task_of :: "cron_config \<Rightarrow> string \<Rightarrow> cron_row \<Rightarrow> int \<Rightarrow> task_row" where
  "task_of cfg i r due = \<lparr>task_id = Some i, task_project = Some (cc_project cfg), task_module = Some (cr_module r),
    task_export = Some (cr_export r), task_args = Some (cr_args r), scheduled_for = timestamptz due div 1000,
    task_status = st_pending, attempts = Some 0, last_error = None, claimed_at = None\<rparr>"

definition bump_last :: "string \<Rightarrow> string \<Rightarrow> int \<Rightarrow> cron_row list \<Rightarrow> cron_row list" where
  "bump_last project name due crons =
    map (\<lambda>r. if cr_project r = project \<and> cr_name r = name then r\<lparr>cr_last := Some (timestamptz due)\<rparr> else r) crons"

text \<open>The transaction of \<open>enqueue\<close>; it fails without an id or on one that is taken.\<close>

definition enqueue ::
  "cron_config \<Rightarrow> string option \<Rightarrow> cron_row \<Rightarrow> int \<Rightarrow> cron_row list \<times> task_row list \<Rightarrow> (cron_row list \<times> task_row list) option" where
  "enqueue cfg new_id r due = (\<lambda>(crons, tasks). case new_id of
     None \<Rightarrow> None
   | Some i \<Rightarrow>
       if Some i \<in> set (map task_id tasks) then None
       else Some (bump_last (cc_project cfg) (cr_name r) due crons, tasks @ [task_of cfg i r due]))"

text \<open>The loop of \<open>Tick\<close> over the rows it read; \<open>ids\<close> is what the id generator answers, in order.\<close>

fun cron_loop ::
  "(string \<Rightarrow> raw_schedule) \<Rightarrow> cron_parser \<Rightarrow> cron_config \<Rightarrow> int \<Rightarrow> string option list \<Rightarrow> cron_row list \<Rightarrow>
   cron_row list \<times> task_row list \<Rightarrow> cron_row list \<times> task_row list" where
  "cron_loop json parse cfg now ids [] db = db"
| "cron_loop json parse cfg now ids (r # rs) db = (case due_job json parse cfg now r of
     None \<Rightarrow> cron_loop json parse cfg now ids rs db
   | Some due \<Rightarrow>
       let (new_id, ids') = (case ids of [] \<Rightarrow> (None, []) | i # is \<Rightarrow> (i, is))
       in (case enqueue cfg new_id r due db of
             None \<Rightarrow> cron_loop json parse cfg now ids' rs db
           | Some db' \<Rightarrow> cron_loop json parse cfg now ids' rs db'))"

definition cron_tick ::
  "(string \<Rightarrow> raw_schedule) \<Rightarrow> cron_parser \<Rightarrow> (cron_row list \<Rightarrow> cron_row list) \<Rightarrow> cron_config \<Rightarrow> int \<Rightarrow>
   string option list \<Rightarrow> cron_row list \<times> task_row list \<Rightarrow> cron_row list \<times> task_row list" where
  "cron_tick json parse collate cfg now ids db =
    cron_loop json parse cfg now ids (cron_list collate cfg (fst db)) db"

section \<open>Synchronising the registry at a deploy\<close>

record cron_job =
  cj_name :: string
  cj_schedule :: string
  cj_module :: string
  cj_export :: string
  cj_args :: string

datatype sync_error = Project_Required | Function_Required | Name_Missing | Schedule_Invalid string
  | Schedule_Missing string | Fn_Ref_Missing string

text \<open>The checks of the bundle, before anything is written.\<close>

fun check_jobs :: "(string \<Rightarrow> raw_schedule) \<Rightarrow> cron_parser \<Rightarrow> cron_job list \<Rightarrow> sync_error option" where
  "check_jobs json parse [] = None"
| "check_jobs json parse (j # js) =
    (if cj_name j = [] then Some Name_Missing
     else if cj_schedule j \<noteq> [] \<and> \<not> validate_schedule parse (json (cj_schedule j)) then Some (Schedule_Invalid (cj_name j))
     else check_jobs json parse js)"

definition delete_all_cron_rows :: "string \<Rightarrow> string \<Rightarrow> cron_row list \<Rightarrow> cron_row list" where
  "delete_all_cron_rows project fn rows = filter (\<lambda>r. \<not> (cr_project r = project \<and> cr_function r = fn)) rows"

definition delete_stale_cron_rows :: "string \<Rightarrow> string \<Rightarrow> string set \<Rightarrow> cron_row list \<Rightarrow> cron_row list" where
  "delete_stale_cron_rows project fn names rows =
    filter (\<lambda>r. \<not> (cr_project r = project \<and> cr_function r = fn \<and> cr_name r \<notin> names)) rows"

text \<open>\<^verbatim>\<open>INSERT ... ON CONFLICT (project_id, name) DO UPDATE\<close>.\<close>

definition job_args :: "cron_job \<Rightarrow> string" where
  "job_args j = (if cj_args j = [] then ''{}'' else cj_args j)"

definition set_job :: "string \<Rightarrow> cron_job \<Rightarrow> cron_row \<Rightarrow> cron_row" where
  "set_job fn j r = r\<lparr>cr_function := fn, cr_module := cj_module j, cr_export := cj_export j, cr_args := job_args j,
    cr_schedule := cj_schedule j\<rparr>"

definition insert_row :: "string \<Rightarrow> string \<Rightarrow> cron_job \<Rightarrow> cron_row" where
  "insert_row project fn j = \<lparr>cr_name = cj_name j, cr_project = project, cr_function = fn, cr_module = cj_module j,
    cr_export = cj_export j, cr_args = job_args j, cr_schedule = cj_schedule j, cr_last = None\<rparr>"

definition upsert_row :: "string \<Rightarrow> string \<Rightarrow> cron_job \<Rightarrow> cron_row list \<Rightarrow> cron_row list" where
  "upsert_row project fn j rows =
    (if list_ex (\<lambda>r. cr_project r = project \<and> cr_name r = cj_name j) rows then
       map (\<lambda>r. if cr_project r = project \<and> cr_name r = cj_name j then set_job fn j r else r) rows
     else rows @ [insert_row project fn j])"

fun upsert_cron_rows :: "string \<Rightarrow> string \<Rightarrow> cron_job list \<Rightarrow> cron_row list \<Rightarrow> (sync_error, cron_row list) result" where
  "upsert_cron_rows project fn [] rows = Inr rows"
| "upsert_cron_rows project fn (j # js) rows =
    (if cj_schedule j = [] then Inl (Schedule_Missing (cj_name j))
     else if cj_module j = [] \<or> cj_export j = [] then Inl (Fn_Ref_Missing (cj_name j))
     else upsert_cron_rows project fn js (upsert_row project fn j rows))"

text \<open>An error rolls the caller's transaction back: the registry is then unchanged.\<close>

definition sync_cron_jobs ::
  "(string \<Rightarrow> raw_schedule) \<Rightarrow> cron_parser \<Rightarrow> string \<Rightarrow> string \<Rightarrow> cron_job list \<Rightarrow> cron_row list \<Rightarrow>
   (sync_error, cron_row list) result" where
  "sync_cron_jobs json parse project fn jobs rows =
    (if project = [] then Inl Project_Required
     else if fn = [] then Inl Function_Required
     else case check_jobs json parse jobs of
       Some e \<Rightarrow> Inl e
     | None \<Rightarrow>
         if jobs = [] then Inr (delete_all_cron_rows project fn rows)
         else upsert_cron_rows project fn jobs (delete_stale_cron_rows project fn (set (map cj_name jobs)) rows))"

end
