(* ===== verification/Cron_Correct.thy ===== *)
theory Cron_Correct
  imports Cron
begin

text \<open>
  What the cron runner and the deploy-time synchronisation guarantee: when a daily or hourly schedule fires next,
  what a tick may enqueue and how often, and what a registry holds after a deploy.
\<close>

section \<open>The next due time\<close>

lemma next_period:
  fixes now p off :: int
  assumes "0 \<le> off" "off < p" and c: "c = (now - now mod p) + off" and n: "n = (if \<not> c > now then c + p else c)"
  shows "now < n" "n mod p = off" "now < t \<Longrightarrow> t mod p = off \<Longrightarrow> n \<le> t"
proof -
  have p: "0 < p" using assms(1,2) by simp
  have cp: "c = p * (now div p) + off" using c minus_mod_eq_mult_div [of now p] by simp
  have m: "0 \<le> now mod p" "now mod p < p" using p by simp_all
  then show "now < n" unfolding n using c assms(1) by auto
  show "n mod p = off" unfolding n cp using assms(1,2) by (simp add: mod_pos_pos_trivial)
  assume t: "now < t" "t mod p = off"
  then have tp: "t = p * (t div p) + off" using mult_div_mod_eq [of p t] by simp
  show "n \<le> t"
  proof (cases "c > now")
    case True
    have "now div p \<le> t div p" using t(1) p by (simp add: zdiv_mono1)
    then have "p * (now div p) \<le> p * (t div p)" using p by simp
    moreover have "n = p * (now div p) + off" using True n cp by simp
    ultimately show ?thesis using tp by linarith
  next
    case False
    then have "p * (now div p) < p * (t div p)" using t(1) tp cp by linarith
    then have "now div p + 1 \<le> t div p" using p by simp
    then have "p * (now div p + 1) \<le> p * (t div p)" using p by (intro mult_left_mono) simp_all
    moreover have "n = p * (now div p) + off + p" using False n cp by simp
    ultimately show ?thesis using tp by (simp add: algebra_simps)
  qed
qed

text \<open>
  A daily schedule fires next at the first instant after now that has its time of day, so within a day; an
  hourly one at the first with its minute.
\<close>

theorem daily_hourly_next:
  assumes "0 \<le> h" "h \<le> 23" "0 \<le> m" "m \<le> 59"
  shows "now < next_daily_utc now h m \<and> next_daily_utc now h m mod day_ns = h * hour_ns + m * minute_ns \<and>
    (\<forall>t. now < t \<and> t mod day_ns = h * hour_ns + m * minute_ns \<longrightarrow> next_daily_utc now h m \<le> t) \<and>
    now < next_hourly_utc now m \<and> next_hourly_utc now m mod hour_ns = m * minute_ns \<and>
    (\<forall>t. now < t \<and> t mod hour_ns = m * minute_ns \<longrightarrow> next_hourly_utc now m \<le> t)"
proof -
  have d: "0 \<le> h * hour_ns + m * minute_ns" "h * hour_ns + m * minute_ns < day_ns"
    using assms by (simp_all add: duration_defs)
  have e: "0 \<le> m * minute_ns" "m * minute_ns < hour_ns" using assms by (simp_all add: duration_defs)
  have "next_daily_utc now h m = (if \<not> now - now mod day_ns + (h * hour_ns + m * minute_ns) > now
      then now - now mod day_ns + (h * hour_ns + m * minute_ns) + day_ns
      else now - now mod day_ns + (h * hour_ns + m * minute_ns))"
    by (simp add: next_daily_utc_def Let_def add.assoc)
  note D = next_period [OF d refl this]
  have "next_hourly_utc now m = (if \<not> now - now mod hour_ns + m * minute_ns > now
      then now - now mod hour_ns + m * minute_ns + hour_ns else now - now mod hour_ns + m * minute_ns)"
    by (simp add: next_hourly_utc_def Let_def)
  note H = next_period [OF e refl this]
  from D H show ?thesis by blast
qed

theorem daily_hourly_next_witness:
  "next_daily_utc 0 9 30 mod day_ns = 9 * hour_ns + 30 * minute_ns"
  using daily_hourly_next [of 9 30 0] by simp

section \<open>What a tick enqueues\<close>

lemma due_job_Some:
  assumes "due_job json parse cfg now r = Some due"
  shows "cr_project r = cc_project cfg" "valid_target (cr_module r) (cr_export r)" "deployed cfg (cr_module r)"
    and "now + cc_min_interval cfg \<le> due" "\<And>t. cr_last r = Some t \<Longrightarrow> t \<le> now"
  using assms
  by (auto simp: due_job_def admissible_def valid_target_def next_enqueue_def Let_def split: if_splits option.splits)

lemma timestamptz_bounds: "t - 500 \<le> timestamptz t" "timestamptz t \<le> t + 500"
  "timestamptz t div 1000 * 1000 = timestamptz t"
proof -
  have "timestamptz t = (t + 500) - (t + 500) mod 1000" unfolding timestamptz_def by (simp only: minus_mod_eq_div_mult)
  moreover have "0 \<le> (t + 500) mod 1000" "(t + 500) mod 1000 < 1000" by simp_all
  ultimately show "t - 500 \<le> timestamptz t" "timestamptz t \<le> t + 500" by linarith+
qed (simp add: timestamptz_def)

text \<open>A task the platform may queue: its own project, a deployed module under a plain name, not before the minimum.\<close>

definition task_admissible :: "cron_config \<Rightarrow> int \<Rightarrow> task_row \<Rightarrow> bool" where
  "task_admissible cfg now t \<longleftrightarrow> task_project t = Some (cc_project cfg) \<and> task_status t = st_pending \<and>
    attempts t = Some 0 \<and>
    (\<exists>m e. task_module t = Some m \<and> task_export t = Some e \<and> valid_target m e \<and> deployed cfg m) \<and>
    now + cc_min_interval cfg \<le> scheduled_for t * 1000 + 500"

lemma cron_loop_tasks:
  "\<exists>new. snd (cron_loop json parse cfg now ids rs db) = snd db @ new \<and> length new \<le> length rs \<and>
    (\<forall>t \<in> set new. task_admissible cfg now t)"
proof (induction rs arbitrary: ids db)
  case (Cons r rs)
  show ?case
  proof (cases "due_job json parse cfg now r")
    case None
    with Cons.IH [of ids db] show ?thesis by (auto intro: le_SucI)
  next
    case (Some due)
    obtain new_id ids' where ids: "(case ids of [] \<Rightarrow> (None, []) | i # is \<Rightarrow> (i, is)) = (new_id, ids')" by force
    show ?thesis
    proof (cases "enqueue cfg new_id r due db")
      case None
      then have "cron_loop json parse cfg now ids (r # rs) db = cron_loop json parse cfg now ids' rs db"
        by (simp add: Some ids)
      with Cons.IH [of ids' db] show ?thesis by (auto intro: le_SucI)
    next
      case (Some db')
      note due = \<open>due_job json parse cfg now r = Some due\<close>
      from Some due ids have step: "cron_loop json parse cfg now ids (r # rs) db = cron_loop json parse cfg now ids' rs db'"
        by simp
      obtain crons tasks where db: "db = (crons, tasks)" by (cases db)
      with Some obtain i where db': "snd db' = tasks @ [task_of cfg i r due]"
        by (auto simp: enqueue_def split: option.splits if_splits)
      have ok: "task_admissible cfg now (task_of cfg i r due)"
        using due_job_Some [OF due] timestamptz_bounds(1,3) [of due]
        by (simp add: task_admissible_def task_of_def)
      from Cons.IH [of ids' db'] obtain new where new:
        "snd (cron_loop json parse cfg now ids' rs db') = snd db' @ new" "length new \<le> length rs"
        "\<forall>t \<in> set new. task_admissible cfg now t" by blast
      have "snd (cron_loop json parse cfg now ids (r # rs) db) = snd db @ task_of cfg i r due # new"
        unfolding step new(1) db' by (simp add: db)
      with ok new(2,3) show ?thesis
        by (intro exI [of _ "task_of cfg i r due # new"]) (simp del: cron_loop.simps)
    qed
  qed
qed simp

text \<open>
  Whatever a tenant writes into the cron registry, a tick only appends pending tasks of the swept project,
  for plainly named exports of modules the platform deployed for it, none due before the platform's minimum
  interval (up to the rounding of a timestamp to microseconds), and no more than the cap on jobs.
\<close>

theorem cron_tick_admissible:
  "\<exists>new. snd (cron_tick json parse collate cfg now ids db) = snd db @ new \<and> length new \<le> nat (cc_max_jobs cfg) \<and>
    (\<forall>t \<in> set new. task_admissible cfg now t)"
proof -
  have "length (cron_list collate cfg (fst db)) \<le> nat (cc_max_jobs cfg)" by (simp add: cron_list_def)
  with cron_loop_tasks [of json parse cfg now ids "cron_list collate cfg (fst db)" db] show ?thesis
    unfolding cron_tick_def by (meson le_trans)
qed

text \<open>
  Claim C35. A job that was enqueued at one tick is not enqueued again before the minimum interval has passed (up to
  that rounding), whatever its schedule.
\<close>

theorem cron_cadence:
  assumes "due_job json parse cfg now r = Some due" "enqueue cfg new_id r due (crons, tasks) = Some (crons', tasks')"
    and "r' \<in> set crons'" "cr_project r' = cc_project cfg" "cr_name r' = cr_name r"
    and "later + 500 < now + cc_min_interval cfg"
  shows "due_job json parse cfg later r' = None"
proof -
  from assms(2) have "crons' = bump_last (cc_project cfg) (cr_name r) due crons"
    by (auto simp: enqueue_def split: option.splits if_splits)
  with assms(3-5) have l: "cr_last r' = Some (timestamptz due)" by (auto simp: bump_last_def split: if_splits)
  have "now + cc_min_interval cfg \<le> due" by (rule due_job_Some(4) [OF assms(1)])
  with timestamptz_bounds(1) [of due] assms(6) have "later < timestamptz due" by linarith
  with l show ?thesis by (auto simp: due_job_def)
qed

definition example_cron :: cron_config where
  "example_cron = new_cron_runner \<lparr>cc_project = ''p1'', cc_min_interval = 0, cc_max_jobs = 0, cc_max_args = 0,
    cc_functions = Some (\<lambda>p m. Inr (m = ''jobs''))\<rparr>"

definition number :: "rat \<Rightarrow> json_number" where
  "number v = \<lparr>num_value = v, num_integer = True\<rparr>"

definition schedule_example :: "string \<Rightarrow> rat \<Rightarrow> json_number \<Rightarrow> raw_schedule" where
  "schedule_example kind hours minute = Raw_Schedule \<lparr>sj_kind = kind, sj_expression = [], sj_hours = number hours,
    sj_minutes = number 0, sj_seconds = number 0, sj_hour_utc = number 0, sj_minute_utc = minute\<rparr>"

definition example_job :: cron_row where
  "example_job = \<lparr>cr_name = ''nightly'', cr_project = ''p1'', cr_function = ''f'', cr_module = ''jobs'',
    cr_export = ''run'', cr_args = ''{}'', cr_schedule = ''hourly'', cr_last = None\<rparr>"

lemma decode_number [simp]: "decode_int (number (of_int i)) = (if fits64 i then Some i else None)"
  by (simp add: decode_int_def number_def)

lemmas decode_numeral [simp] = decode_number [of 0, simplified] decode_number [of 1, simplified]

lemma example_due: "\<exists>due. due_job (\<lambda>_. schedule_example ''interval'' 1 (number 0)) (\<lambda>_. None) example_cron 0 example_job = Some due"
proof -
  have f: "fits64 0" "fits64 1" by (simp_all add: fits64_def)
  have n: "valid_module_name ''jobs''" "valid_export_name ''run''"
    by (simp_all add: valid_module_name_def max_module_name_len_def split_path_def module_pattern_def module_segment_def
      word_char_def letter_char_def valid_export_name_def export_pattern_def)
  have "interval_duration \<lparr>sp_kind = ''interval'', sp_expression = [], sp_hours = 1, sp_minutes = 0, sp_seconds = 0,
      sp_hour_utc = 0, sp_minute_utc = 0\<rparr> > 0"
    by (simp add: interval_duration_def duration_defs wrap64_def)
  with f n show ?thesis
    by (simp add: due_job_def admissible_def example_job_def example_cron_def new_cron_runner_def deployed_def
        next_enqueue_def decode_schedule_def schedule_example_def next_due_at_def Let_def)
qed

theorem cron_tick_admissible_witness:
  "\<exists>t. snd (cron_tick (\<lambda>_. schedule_example ''interval'' 1 (number 0)) (\<lambda>_. None) (\<lambda>rs. rs) example_cron 0 [Some ''t'']
      ([example_job], [])) = [t] \<and> task_admissible example_cron 0 t"
proof -
  let ?json = "\<lambda>_. schedule_example ''interval'' 1 (number 0)"
  obtain due where d: "due_job ?json (\<lambda>_. None) example_cron 0 example_job = Some due" using example_due by blast
  have "cron_list (\<lambda>rs. rs) example_cron [example_job] = [example_job]"
    by (simp add: cron_list_def example_cron_def new_cron_runner_def example_job_def default_cron_max_jobs_def
        default_max_args_bytes_def max_cron_name_len_def max_module_name_len_def max_export_name_len_def)
  then have "snd (cron_tick ?json (\<lambda>_. None) (\<lambda>rs. rs) example_cron 0 [Some ''t''] ([example_job], []))
      = [task_of example_cron ''t'' example_job due]"
    by (simp add: cron_tick_def d enqueue_def)
  with cron_tick_admissible [of ?json "\<lambda>_. None" "\<lambda>rs. rs" example_cron 0 "[Some ''t'']" "([example_job], [])"]
  show ?thesis by auto
qed

theorem cron_cadence_witness:
  "\<exists>json due. due_job json (\<lambda>_. None) example_cron 0 example_job = Some due \<and>
    due_job json (\<lambda>_. None) example_cron 1 (example_job\<lparr>cr_last := Some (timestamptz due)\<rparr>) = None"
proof -
  let ?json = "\<lambda>_. schedule_example ''interval'' 1 (number 0)"
  obtain due where d: "due_job ?json (\<lambda>_. None) example_cron 0 example_job = Some due" using example_due by blast
  have p: "cr_project example_job = cc_project example_cron" by (rule due_job_Some(1) [OF d])
  have e: "enqueue example_cron (Some ''t'') example_job due ([example_job], [])
    = Some ([example_job\<lparr>cr_last := Some (timestamptz due)\<rparr>], [task_of example_cron ''t'' example_job due])"
    by (simp add: enqueue_def bump_last_def p)
  have i: "cc_min_interval example_cron = 60000000000"
    by (simp add: example_cron_def new_cron_runner_def default_cron_min_interval_def duration_defs)
  have "due_job ?json (\<lambda>_. None) example_cron 1 (example_job\<lparr>cr_last := Some (timestamptz due)\<rparr>) = None"
    by (rule cron_cadence [OF d e]) (simp_all add: p i)
  with d show ?thesis by blast
qed

text \<open>
  A deploy accepts an interval of 2562048 hours and a minute written with a fraction or exponent, and the
  runner then never fires either: the duration has wrapped below zero, and the minute does not decode.
\<close>

theorem validated_never_fires:
  "validate_schedule parse (schedule_example ''interval'' 2562048 (number 0)) \<and>
   next_enqueue (\<lambda>_. schedule_example ''interval'' 2562048 (number 0)) parse cfg raw now = None \<and>
   validate_schedule parse (schedule_example ''hourly'' 0 \<lparr>num_value = 30, num_integer = False\<rparr>) \<and>
   next_enqueue (\<lambda>_. schedule_example ''hourly'' 0 \<lparr>num_value = 30, num_integer = False\<rparr>) parse cfg raw now = None"
proof -
  have w: "whole_number 2562048" "whole_number 0" "whole_number 30" by (simp_all add: whole_number_def fits64_def)
  have "decode_int (number 2562048) = Some 2562048" "fits64 0" by (simp_all add: decode_int_def number_def fits64_def)
  moreover have "interval_duration \<lparr>sp_kind = ''interval'', sp_expression = [], sp_hours = 2562048, sp_minutes = 0,
      sp_seconds = 0, sp_hour_utc = 0, sp_minute_utc = 0\<rparr> \<le> 0"
    by (simp add: interval_duration_def duration_defs wrap64_def)
  ultimately show ?thesis using w
    by (simp add: validate_schedule_def schedule_example_def validate_interval_def whole_within_def next_enqueue_def
        decode_schedule_def next_due_at_def Let_def) (simp add: number_def decode_int_def)
qed

section \<open>The registry after a deploy\<close>

text \<open>The row holds what the bundle says of the job, and belongs to the function that was deployed.\<close>

definition holds_job :: "string \<Rightarrow> cron_job \<Rightarrow> cron_row \<Rightarrow> bool" where
  "holds_job fn j r \<longleftrightarrow> cr_function r = fn \<and> cr_module r = cj_module j \<and> cr_export r = cj_export j \<and>
    cr_args r = job_args j \<and> cr_schedule r = cj_schedule j"

lemma set_job_simps [simp]:
  "cr_project (set_job fn j r) = cr_project r" "cr_name (set_job fn j r) = cr_name r" "holds_job fn j (set_job fn j r)"
  "cr_project (insert_row p fn j) = p" "cr_name (insert_row p fn j) = cj_name j" "holds_job fn j (insert_row p fn j)"
  by (simp_all add: set_job_def insert_row_def holds_job_def)

lemma set_job_same: "holds_job fn j r \<Longrightarrow> set_job fn j r = r"
  by (cases r) (simp add: holds_job_def set_job_def)

definition last_job :: "cron_job list \<Rightarrow> string \<Rightarrow> cron_job option" where
  "last_job js n = find (\<lambda>j. cj_name j = n) (rev js)"

lemma find_append: "find P (xs @ ys) = (case find P xs of None \<Rightarrow> find P ys | Some x \<Rightarrow> Some x)"
  by (induction xs) auto

lemma last_job_Cons: "last_job (j # js) n = (case last_job js n of None \<Rightarrow> if cj_name j = n then Some j else None | Some k \<Rightarrow> Some k)"
  by (simp add: last_job_def find_append split: option.splits)

lemma last_job_None: "last_job js n = None \<longleftrightarrow> n \<notin> cj_name ` set js"
  by (auto simp: last_job_def find_None_iff)

lemma upsert_row_mem:
  shows "\<not> (cr_project r = p \<and> cr_name r = cj_name j) \<Longrightarrow> r \<in> set (upsert_row p fn j rows) \<longleftrightarrow> r \<in> set rows"
    and "r \<in> set (upsert_row p fn j rows) \<Longrightarrow> cr_project r = p \<Longrightarrow> cr_name r = cj_name j \<Longrightarrow> holds_job fn j r"
    and "\<exists>r \<in> set (upsert_row p fn j rows). cr_project r = p \<and> cr_name r = cj_name j"
proof -
  let ?key = "\<lambda>r. cr_project r = p \<and> cr_name r = cj_name j" and ?up = "upsert_row p fn j rows"
  have mem: "r \<in> set ?up \<longleftrightarrow> r \<in> set rows \<and> \<not> ?key r \<or>
      (\<exists>q \<in> set rows. ?key q \<and> r = set_job fn j q) \<or> r = insert_row p fn j \<and> \<not> (\<exists>q \<in> set rows. ?key q)" for r
  proof (cases "\<exists>q \<in> set rows. ?key q")
    case True
    then have "?up = map (\<lambda>r. if ?key r then set_job fn j r else r) rows" by (simp add: upsert_row_def list_ex_iff)
    with True show ?thesis by (auto simp: image_iff)
  next
    case False
    then have "?up = rows @ [insert_row p fn j]" by (simp add: upsert_row_def list_ex_iff)
    with False show ?thesis by auto
  qed
  show "\<not> ?key r \<Longrightarrow> r \<in> set ?up \<longleftrightarrow> r \<in> set rows" unfolding mem by auto
  show "r \<in> set ?up \<Longrightarrow> cr_project r = p \<Longrightarrow> cr_name r = cj_name j \<Longrightarrow> holds_job fn j r"
    unfolding mem using set_job_simps(3,6) by blast
  show "\<exists>r \<in> set ?up. ?key r"
  proof (cases "\<exists>q \<in> set rows. ?key q")
    case True
    then obtain q where "q \<in> set rows" "?key q" by blast
    then have "set_job fn j q \<in> set ?up" "?key (set_job fn j q)" unfolding mem by auto
    then show ?thesis by blast
  next
    case False
    then have "insert_row p fn j \<in> set ?up" unfolding mem by blast
    then show ?thesis by (intro bexI [of _ "insert_row p fn j"]) simp_all
  qed
qed

lemma upsert_rows_effect:
  fixes r :: cron_row
  assumes "upsert_cron_rows p fn js rows = Inr rows'"
  shows "\<not> (cr_project r = p \<and> cr_name r \<in> cj_name ` set js) \<Longrightarrow> r \<in> set rows' \<longleftrightarrow> r \<in> set rows"
    and "r \<in> set rows' \<Longrightarrow> cr_project r = p \<Longrightarrow> last_job js (cr_name r) = Some j \<Longrightarrow> holds_job fn j r"
    and "n \<in> cj_name ` set js \<Longrightarrow> \<exists>r \<in> set rows'. cr_project r = p \<and> cr_name r = n"
proof -
  have "(\<forall>r. \<not> (cr_project r = p \<and> cr_name r \<in> cj_name ` set js) \<longrightarrow> (r \<in> set rows' \<longleftrightarrow> r \<in> set rows)) \<and>
    (\<forall>r j. r \<in> set rows' \<longrightarrow> cr_project r = p \<longrightarrow> last_job js (cr_name r) = Some j \<longrightarrow> holds_job fn j r) \<and>
    (\<forall>n \<in> cj_name ` set js. \<exists>r \<in> set rows'. cr_project r = p \<and> cr_name r = n)"
    using assms
  proof (induction js arbitrary: rows)
    case Nil
    then show ?case by (simp add: last_job_def)
  next
    case (Cons k js)
    let ?up = "upsert_row p fn k rows"
    from Cons.prems have "upsert_cron_rows p fn js ?up = Inr rows'" by (auto split: if_splits)
    from Cons.IH [OF this] have IH:
      "\<And>r. \<not> (cr_project r = p \<and> cr_name r \<in> cj_name ` set js) \<Longrightarrow> r \<in> set rows' \<longleftrightarrow> r \<in> set ?up"
      "\<And>r j. r \<in> set rows' \<Longrightarrow> cr_project r = p \<Longrightarrow> last_job js (cr_name r) = Some j \<Longrightarrow> holds_job fn j r"
      "\<And>n. n \<in> cj_name ` set js \<Longrightarrow> \<exists>r \<in> set rows'. cr_project r = p \<and> cr_name r = n" by blast+
    show ?case
    proof (intro conjI allI ballI impI)
      fix r :: cron_row
      assume "\<not> (cr_project r = p \<and> cr_name r \<in> cj_name ` set (k # js))"
      with IH(1) [of r] upsert_row_mem(1) [of r p k fn rows] show "r \<in> set rows' \<longleftrightarrow> r \<in> set rows" by auto
    next
      fix r j
      assume r: "r \<in> set rows'" "cr_project r = p" "last_job (k # js) (cr_name r) = Some j"
      show "holds_job fn j r"
      proof (cases "last_job js (cr_name r)")
        case None
        with r(3) have "j = k" "cr_name r = cj_name k" by (auto simp: last_job_Cons split: if_splits)
        moreover from None have "cr_name r \<notin> cj_name ` set js" by (simp add: last_job_None)
        with IH(1) [of r] r(1) have "r \<in> set ?up" by blast
        ultimately show ?thesis using upsert_row_mem(2) [of r p fn k rows] r(2) by simp
      next
        case (Some m)
        with r(3) have "m = j" by (simp add: last_job_Cons)
        with IH(2) [OF r(1,2)] Some show ?thesis by simp
      qed
    next
      fix n
      assume n: "n \<in> cj_name ` set (k # js)"
      show "\<exists>r \<in> set rows'. cr_project r = p \<and> cr_name r = n"
      proof (cases "n \<in> cj_name ` set js")
        case False
        with n have n: "n = cj_name k" by auto
        from upsert_row_mem(3) obtain q where q: "q \<in> set ?up" "cr_project q = p" "cr_name q = n"
          unfolding n by blast
        with False IH(1) [of q] show ?thesis by auto
      qed (rule IH(3))
    qed
  qed
  then show "\<not> (cr_project r = p \<and> cr_name r \<in> cj_name ` set js) \<Longrightarrow> r \<in> set rows' \<longleftrightarrow> r \<in> set rows"
    "r \<in> set rows' \<Longrightarrow> cr_project r = p \<Longrightarrow> last_job js (cr_name r) = Some j \<Longrightarrow> holds_job fn j r"
    "n \<in> cj_name ` set js \<Longrightarrow> \<exists>r \<in> set rows'. cr_project r = p \<and> cr_name r = n" by blast+
qed

lemma check_jobs_None:
  "check_jobs json parse js = None \<Longrightarrow> j \<in> set js \<Longrightarrow> cj_schedule j \<noteq> [] \<Longrightarrow> validate_schedule parse (json (cj_schedule j))"
  by (induction js) (auto split: if_splits)

lemma upsert_schedules: "upsert_cron_rows p fn js rows = Inr rows' \<Longrightarrow> j \<in> set js \<Longrightarrow> cj_schedule j \<noteq> []"
  by (induction js arbitrary: rows) (auto split: if_splits)

lemma last_job_mem: "last_job js n = Some j \<Longrightarrow> j \<in> set js \<and> cj_name j = n"
  by (induction js) (auto simp: last_job_Cons last_job_def [of "[]"] split: option.splits if_splits)

lemma sync_cases:
  assumes "sync_cron_jobs json parse p fn js rows = Inr rows'"
  shows "check_jobs json parse js = None \<and>
    upsert_cron_rows p fn js (delete_stale_cron_rows p fn (set (map cj_name js)) rows) = Inr rows'"
proof (cases "js = []")
  case True
  have "delete_stale_cron_rows p fn {} rows = delete_all_cron_rows p fn rows"
    by (simp add: delete_all_cron_rows_def delete_stale_cron_rows_def)
  with True assms show ?thesis by (auto simp: sync_cron_jobs_def split: if_splits)
next
  case False
  with assms show ?thesis by (auto simp: sync_cron_jobs_def split: if_splits option.splits)
qed

text \<open>
  After a deploy the registry holds one definition for every job of the bundle, the last one given under
  its name, owned by the deployed function and with a valid schedule; the function's other jobs are gone, and
  every row under another project or name of another function is as it was.
\<close>

theorem sync_effect:
  assumes "sync_cron_jobs json parse p fn js rows = Inr rows'"
  shows "(\<forall>n \<in> cj_name ` set js. \<exists>r \<in> set rows'. cr_project r = p \<and> cr_name r = n) \<and>
    (\<forall>r \<in> set rows'. cr_project r = p \<and> cr_name r \<in> cj_name ` set js \<longrightarrow>
      (\<exists>j. last_job js (cr_name r) = Some j \<and> holds_job fn j r \<and> validate_schedule parse (json (cr_schedule r)))) \<and>
    (\<forall>r. \<not> (cr_project r = p \<and> cr_name r \<in> cj_name ` set js) \<longrightarrow>
      (r \<in> set rows' \<longleftrightarrow> r \<in> set rows \<and> \<not> (cr_project r = p \<and> cr_function r = fn)))"
proof (intro conjI ballI allI impI)
  from sync_cases [OF assms] have c: "check_jobs json parse js = None"
    and up: "upsert_cron_rows p fn js (delete_stale_cron_rows p fn (set (map cj_name js)) rows) = Inr rows'" by blast+
  fix n
  show "n \<in> cj_name ` set js \<Longrightarrow> \<exists>r \<in> set rows'. cr_project r = p \<and> cr_name r = n"
    by (rule upsert_rows_effect(3) [OF up])
  fix r
  show "r \<in> set rows' \<longleftrightarrow> r \<in> set rows \<and> \<not> (cr_project r = p \<and> cr_function r = fn)"
    if "\<not> (cr_project r = p \<and> cr_name r \<in> cj_name ` set js)"
    using upsert_rows_effect(1) [OF up that] that by (auto simp: delete_stale_cron_rows_def)
  assume r: "r \<in> set rows'" "cr_project r = p \<and> cr_name r \<in> cj_name ` set js"
  then obtain j where j: "last_job js (cr_name r) = Some j" using last_job_None by (metis not_None_eq)
  have h: "holds_job fn j r" using upsert_rows_effect(2) [OF up r(1) _ j] r(2) by blast
  from last_job_mem [OF j] check_jobs_None [OF c, of j] upsert_schedules [OF up, of j] h
  show "\<exists>j. last_job js (cr_name r) = Some j \<and> holds_job fn j r \<and> validate_schedule parse (json (cr_schedule r))"
    using j by (auto simp: holds_job_def)
qed

definition example_bundle :: "cron_job list" where
  "example_bundle = [\<lparr>cj_name = ''nightly'', cj_schedule = ''hourly'', cj_module = ''mail'', cj_export = ''send'', cj_args = []\<rparr>]"

lemma example_sync:
  "sync_cron_jobs (\<lambda>_. schedule_example ''hourly'' 0 (number 30)) (\<lambda>_. None) ''p1'' ''mail'' example_bundle [example_job]
    = Inr [example_job\<lparr>cr_function := ''mail'', cr_module := ''mail'', cr_export := ''send''\<rparr>]"
  by (simp add: sync_cron_jobs_def example_bundle_def validate_schedule_def schedule_example_def whole_within_def
      whole_number_def fits64_def number_def delete_stale_cron_rows_def example_job_def upsert_row_def set_job_def job_args_def)

theorem sync_effect_witness:
  "\<exists>j. last_job example_bundle ''nightly'' = Some j \<and>
    holds_job ''mail'' j (example_job\<lparr>cr_function := ''mail'', cr_module := ''mail'', cr_export := ''send''\<rparr>)"
  using sync_effect [OF example_sync] by (simp add: example_bundle_def example_job_def) blast

text \<open>
  Names are unique within the project, not within the function: a deploy of one function takes over the
  row of another function's job of the same name, which is then no longer run.
\<close>

theorem sync_takes_over:
  "cr_function example_job = ''f'' \<and>
   (\<forall>rows'. sync_cron_jobs (\<lambda>_. schedule_example ''hourly'' 0 (number 30)) (\<lambda>_. None) ''p1'' ''mail'' example_bundle [example_job]
      = Inr rows' \<longrightarrow> (\<forall>r \<in> set rows'. cr_function r = ''mail'' \<and> cr_module r = ''mail''))"
  by (auto simp: example_sync) (simp add: example_job_def)

section \<open>A second deploy of the same bundle\<close>

lemma upsert_row_same:
  assumes "\<And>r. r \<in> set rows \<Longrightarrow> cr_project r = p \<Longrightarrow> cr_name r = cj_name j \<Longrightarrow> holds_job fn j r"
    and "\<exists>r \<in> set rows. cr_project r = p \<and> cr_name r = cj_name j"
  shows "upsert_row p fn j rows = rows"
proof -
  have "map (\<lambda>r. if cr_project r = p \<and> cr_name r = cj_name j then set_job fn j r else r) rows = rows"
    using assms(1) by (intro map_idI) (simp add: set_job_same)
  with assms(2) show ?thesis by (simp add: upsert_row_def list_ex_iff)
qed

lemma upsert_rows_same:
  assumes "\<And>r j. j \<in> set js \<Longrightarrow> r \<in> set rows \<Longrightarrow> cr_project r = p \<Longrightarrow> cr_name r = cj_name j \<Longrightarrow> holds_job fn j r"
    and "\<And>j. j \<in> set js \<Longrightarrow> \<exists>r \<in> set rows. cr_project r = p \<and> cr_name r = cj_name j"
    and "\<And>j. j \<in> set js \<Longrightarrow> cj_schedule j \<noteq> [] \<and> cj_module j \<noteq> [] \<and> cj_export j \<noteq> []"
  shows "upsert_cron_rows p fn js rows = Inr rows"
  using assms
proof (induction js)
  case (Cons j js)
  have "upsert_row p fn j rows = rows" by (rule upsert_row_same) (use Cons.prems(1,2) in auto)
  with Cons show ?case by simp
qed simp

lemma upsert_complete: "upsert_cron_rows p fn js rows = Inr rows' \<Longrightarrow> j \<in> set js \<Longrightarrow> cj_module j \<noteq> [] \<and> cj_export j \<noteq> []"
  by (induction js arbitrary: rows) (auto split: if_splits)

lemma last_job_distinct: "distinct (map cj_name js) \<Longrightarrow> j \<in> set js \<Longrightarrow> last_job js (cj_name j) = Some j"
proof (induction js)
  case (Cons k js)
  then show ?case by (auto simp: last_job_Cons last_job_None [THEN iffD2] split: option.splits dest: last_job_mem)
qed simp

text \<open>
  Deploying the same bundle twice changes nothing the second time.
\<close>

theorem sync_idempotent:
  assumes "sync_cron_jobs json parse p fn js rows = Inr rows'" "distinct (map cj_name js)"
  shows "sync_cron_jobs json parse p fn js rows' = Inr rows'"
proof -
  from sync_cases [OF assms(1)] have c: "check_jobs json parse js = None"
    and up: "upsert_cron_rows p fn js (delete_stale_cron_rows p fn (set (map cj_name js)) rows) = Inr rows'" by blast+
  from assms(1) have pf: "p \<noteq> []" "fn \<noteq> []" by (auto simp: sync_cron_jobs_def split: if_splits)
  have "\<not> (cr_project r = p \<and> cr_function r = fn \<and> cr_name r \<notin> cj_name ` set js)" if "r \<in> set rows'" for r
    using that upsert_rows_effect(1) [OF up, of r] by (auto simp: delete_stale_cron_rows_def)
  then have stale: "delete_stale_cron_rows p fn (set (map cj_name js)) rows' = rows'"
    "js = [] \<Longrightarrow> delete_all_cron_rows p fn rows' = rows'"
    by (auto simp: delete_stale_cron_rows_def delete_all_cron_rows_def filter_id_conv)
  have "upsert_cron_rows p fn js rows' = Inr rows'"
  proof (rule upsert_rows_same)
    fix r j
    assume "j \<in> set js" "r \<in> set rows'" "cr_project r = p" "cr_name r = cj_name j"
    then show "holds_job fn j r" using upsert_rows_effect(2) [OF up] last_job_distinct [OF assms(2)] by metis
  next
    fix j
    assume "j \<in> set js"
    then show "\<exists>r \<in> set rows'. cr_project r = p \<and> cr_name r = cj_name j"
      "cj_schedule j \<noteq> [] \<and> cj_module j \<noteq> [] \<and> cj_export j \<noteq> []"
      using upsert_rows_effect(3) [OF up] upsert_schedules [OF up] upsert_complete [OF up] by blast+
  qed
  with c pf stale show ?thesis by (simp add: sync_cron_jobs_def)
qed

theorem sync_idempotent_witness:
  "sync_cron_jobs (\<lambda>_. schedule_example ''hourly'' 0 (number 30)) (\<lambda>_. None) ''p1'' ''mail'' example_bundle
      [example_job\<lparr>cr_function := ''mail'', cr_module := ''mail'', cr_export := ''send''\<rparr>]
    = Inr [example_job\<lparr>cr_function := ''mail'', cr_module := ''mail'', cr_export := ''send''\<rparr>]"
  by (rule sync_idempotent [OF example_sync]) (simp add: example_bundle_def)

end
