(* ===== verification/Fanout.thy ===== *)
theory Fanout
  imports Task_Queue
begin

text \<open>
  The sweep over every project's database (\<^verbatim>\<open>internal/scheduler/fanout.go\<close>): which projects a tick visits, the
  back-off of a project whose database does not answer, and the remembered answer to whether a database carries
  the scheduler's tables. What a project's database does during a tick is its \<open>sweep_env\<close>. Instants and
  durations are nanoseconds.
\<close>

section \<open>State\<close>

record backoff_state =
  bo_until :: int
  bo_strikes :: int

record ready_state =
  rs_present :: bool
  rs_checked :: int

record fanout =
  fo_ready :: "string \<rightharpoonup> ready_state"
  fo_quiet :: "string \<rightharpoonup> backoff_state"

text \<open>
  The clock when the sweep turns to the project and when it has failed; whether the database resolves; what the
  query for the tables answers (\<open>None\<close>: an error); whether the worker or cron tick succeeds; and whether the
  project's deadline has passed by then.
\<close>

record sweep_env =
  env_now :: int
  env_after :: int
  env_resolves :: bool
  env_tables :: "bool option"
  env_tick_ok :: bool
  env_deadline_passed :: bool

definition negative_ready_ttl :: int where "negative_ready_ttl = 300 * 1000000000"
definition min_project_backoff :: int where "min_project_backoff = 5 * 1000000000"
definition max_project_backoff :: int where "max_project_backoff = 300 * 1000000000"
definition default_global_concurrency :: int where "default_global_concurrency = 32"
definition default_project_timeout :: int where "default_project_timeout = 30 * 1000000000"

record fanout_limits =
  fl_global :: int
  fl_timeout :: int
  fl_poll :: int
  fl_cron_poll :: int

text \<open>\<open>NewFanout\<close>: the defaults of its limits and intervals, and its empty memory.\<close>

definition new_fanout :: "fanout_limits \<Rightarrow> fanout_limits \<times> semaphore \<times> fanout" where
  "new_fanout c = (let c' = c
      \<lparr>fl_global := if fl_global c \<le> 0 then default_global_concurrency else fl_global c,
       fl_timeout := if fl_timeout c \<le> 0 then default_project_timeout else fl_timeout c,
       fl_poll := if fl_poll c \<le> 0 then 5 * 1000000000 else fl_poll c,
       fl_cron_poll := if fl_cron_poll c \<le> 0 then 60 * 1000000000 else fl_cron_poll c\<rparr>
    in (c', new_semaphore (fl_global c'), \<lparr>fo_ready = Map.empty, fo_quiet = Map.empty\<rparr>))"

section \<open>Operations\<close>

definition back_off :: "int \<Rightarrow> string \<Rightarrow> fanout \<Rightarrow> fanout" where
  "back_off now p f =
    (let strikes = (case fo_quiet f p of None \<Rightarrow> 0 | Some s \<Rightarrow> bo_strikes s) + 1;
       wait = wrap64 (push_bit (nat (min (strikes - 1) 16)) min_project_backoff);
       wait = (if wait > max_project_backoff \<or> wait \<le> 0 then max_project_backoff else wait)
     in f\<lparr>fo_quiet := (fo_quiet f)(p \<mapsto> \<lparr>bo_until = now + wait, bo_strikes = strikes\<rparr>)\<rparr>)"

definition clear_backoff :: "string \<Rightarrow> fanout \<Rightarrow> fanout" where
  "clear_backoff p f = f\<lparr>fo_quiet := (fo_quiet f)(p := None)\<rparr>"

definition backed_off :: "int \<Rightarrow> string \<Rightarrow> fanout \<Rightarrow> bool" where
  "backed_off now p f = (case fo_quiet f p of None \<Rightarrow> False | Some s \<Rightarrow> now < bo_until s)"

definition has_scheduler_tables :: "sweep_env \<Rightarrow> string \<Rightarrow> fanout \<Rightarrow> bool option \<times> fanout" where
  "has_scheduler_tables env p f =
    (case fo_ready f p of
       Some s \<Rightarrow>
         if rs_present s \<or> env_now env - rs_checked s < negative_ready_ttl then (Some (rs_present s), f)
         else (case env_tables env of
           None \<Rightarrow> (None, f)
         | Some b \<Rightarrow> (Some b, f\<lparr>fo_ready := (fo_ready f)(p \<mapsto> \<lparr>rs_present = b, rs_checked = env_now env\<rparr>)\<rparr>))
     | None \<Rightarrow> (case env_tables env of
           None \<Rightarrow> (None, f)
         | Some b \<Rightarrow> (Some b, f\<lparr>fo_ready := (fo_ready f)(p \<mapsto> \<lparr>rs_present = b, rs_checked = env_now env\<rparr>)\<rparr>)))"

text \<open>Whether the project's sweep succeeded, and whether its tick ran at all.\<close>

definition sweep_project :: "sweep_env \<Rightarrow> string \<Rightarrow> fanout \<Rightarrow> (bool \<times> bool) \<times> fanout" where
  "sweep_project env p f =
    (if \<not> env_resolves env then ((False, False), f)
     else (case has_scheduler_tables env p f of
       (None, f') \<Rightarrow> ((False, False), f')
     | (Some False, f') \<Rightarrow> ((True, False), f')
     | (Some True, f') \<Rightarrow>
         if \<not> env_tick_ok env then ((False, True), f') else ((\<not> env_deadline_passed env, True), f')))"

definition visit_project :: "sweep_env \<Rightarrow> string \<Rightarrow> fanout \<Rightarrow> bool \<times> fanout" where
  "visit_project env p f =
    (if backed_off (env_now env) p f then (False, f)
     else let ((ok, ran), f') = sweep_project env p f
       in (ran, if ok then clear_backoff p f' else back_off (env_after env) p f'))"

text \<open>The loop of \<open>forEachProject\<close>: the projects whose tick ran, in order.\<close>

fun for_each_project :: "(string \<Rightarrow> sweep_env) \<Rightarrow> string list \<Rightarrow> fanout \<Rightarrow> string list \<times> fanout" where
  "for_each_project env [] f = ([], f)"
| "for_each_project env (p # ps) f =
    (let (ran, f') = visit_project (env p) p f; (rest, f'') = for_each_project env ps f'
     in (if ran then p # rest else rest, f''))"

text \<open>A task tick, and a cron tick, which runs on the leader alone; \<open>None\<close> is a tick that failed as a whole.\<close>

definition task_tick :: "(string \<Rightarrow> sweep_env) \<Rightarrow> string list option \<Rightarrow> fanout \<Rightarrow> (string list \<times> fanout) option" where
  "task_tick env projects f = map_option (\<lambda>ps. for_each_project env ps f) projects"

definition fanout_cron_tick ::
  "(string \<Rightarrow> sweep_env) \<Rightarrow> bool option \<Rightarrow> string list option \<Rightarrow> fanout \<Rightarrow> (string list \<times> fanout) option" where
  "fanout_cron_tick env leader projects f = (case leader of
     None \<Rightarrow> None
   | Some False \<Rightarrow> Some ([], f)
   | Some True \<Rightarrow> map_option (\<lambda>ps. for_each_project env ps f) projects)"

section \<open>One project does not disturb another\<close>

text \<open>What the sweep remembers of one project.\<close>

definition memory_of :: "string \<Rightarrow> fanout \<Rightarrow> ready_state option \<times> backoff_state option" where
  "memory_of p f = (fo_ready f p, fo_quiet f p)"

lemma memory_simps [simp]:
  "q \<noteq> p \<Longrightarrow> memory_of q (back_off now p f) = memory_of q f"
  "q \<noteq> p \<Longrightarrow> memory_of q (clear_backoff p f) = memory_of q f"
  by (simp_all add: memory_of_def back_off_def clear_backoff_def Let_def)

lemma tables_other: "q \<noteq> p \<Longrightarrow> memory_of q (snd (has_scheduler_tables env p f)) = memory_of q f"
  by (simp add: has_scheduler_tables_def memory_of_def split: option.splits)

lemma sweep_other: "q \<noteq> p \<Longrightarrow> memory_of q (snd (sweep_project env p f)) = memory_of q f"
  using tables_other [of q p env f] by (auto simp: sweep_project_def split: prod.splits option.splits bool.splits)

lemma visit_other: "q \<noteq> p \<Longrightarrow> memory_of q (snd (visit_project env p f)) = memory_of q f"
  using sweep_other [of q p env f] by (auto simp: visit_project_def Let_def split: prod.splits)

lemma tables_local:
  assumes "memory_of p f = memory_of p g"
  shows "fst (has_scheduler_tables env p f) = fst (has_scheduler_tables env p g)"
    and "memory_of p (snd (has_scheduler_tables env p f)) = memory_of p (snd (has_scheduler_tables env p g))"
  using assms by (auto simp: has_scheduler_tables_def memory_of_def split: option.splits)

lemma sweep_local:
  assumes "memory_of p f = memory_of p g"
  shows "fst (sweep_project env p f) = fst (sweep_project env p g)"
    and "memory_of p (snd (sweep_project env p f)) = memory_of p (snd (sweep_project env p g))"
  using tables_local [OF assms, of env] assms
  by (cases "has_scheduler_tables env p f"; cases "has_scheduler_tables env p g";
      auto simp: sweep_project_def split: option.splits bool.splits)+

lemma visit_local:
  assumes "memory_of p f = memory_of p g"
  shows "fst (visit_project env p f) = fst (visit_project env p g)"
    and "memory_of p (snd (visit_project env p f)) = memory_of p (snd (visit_project env p g))"
proof -
  have b: "backed_off t p f = backed_off t p g" for t using assms by (simp add: backed_off_def memory_of_def)
  have m: "memory_of p (back_off t p h) = memory_of p (back_off t p k) \<and>
      memory_of p (clear_backoff p h) = memory_of p (clear_backoff p k)" if "memory_of p h = memory_of p k" for t h k
    using that by (simp add: memory_of_def back_off_def clear_backoff_def Let_def)
  obtain ok ran f' where s: "sweep_project env p f = ((ok, ran), f')" by (metis prod.collapse)
  obtain ok' ran' g' where s': "sweep_project env p g = ((ok', ran'), g')" by (metis prod.collapse)
  from sweep_local [OF assms, of env] s s' have eq: "ok' = ok" "ran' = ran" and mem: "memory_of p f' = memory_of p g'" by auto
  note M = m [OF mem]
  show "fst (visit_project env p f) = fst (visit_project env p g)"
    by (simp add: visit_project_def s s' b eq)
  show "memory_of p (snd (visit_project env p f)) = memory_of p (snd (visit_project env p g))"
    by (simp add: visit_project_def s s' b eq M assms)
qed

lemma for_each_other: "q \<notin> set ps \<Longrightarrow> memory_of q (snd (for_each_project env ps f)) = memory_of q f \<and>
    q \<notin> set (fst (for_each_project env ps f))"
proof (induction ps arbitrary: f)
  case (Cons p ps)
  obtain ran f' where v: "visit_project (env p) p f = (ran, f')" by force
  with visit_other [of q p "env p" f] Cons.prems have "memory_of q f' = memory_of q f" by simp
  moreover obtain rest f'' where r: "for_each_project env ps f' = (rest, f'')" by force
  ultimately show ?case using Cons.IH [of f'] Cons.prems v r by simp
qed simp

text \<open>
  What a tick does with a project, and what it remembers of it, is what it would do if the project were
  the only one: no database that hangs, fails or fills its queue costs another project its sweep.
\<close>

theorem projects_isolated:
  assumes "distinct ps" "p \<in> set ps"
  shows "(p \<in> set (fst (for_each_project env ps f)) \<longleftrightarrow> fst (visit_project (env p) p f)) \<and>
    memory_of p (snd (for_each_project env ps f)) = memory_of p (snd (visit_project (env p) p f))"
  using assms
proof (induction ps arbitrary: f)
  case (Cons q ps)
  obtain ran f' where v: "visit_project (env q) q f = (ran, f')" by force
  obtain rest f'' where r: "for_each_project env ps f' = (rest, f'')" by force
  have e: "for_each_project env (q # ps) f = (if ran then q # rest else rest, f'')" by (simp add: v r)
  show ?case
  proof (cases "p = q")
    case True
    with Cons.prems(1) for_each_other [of p ps env f'] r have "memory_of p f'' = memory_of p f'" "p \<notin> set rest" by auto
    with True v show ?thesis unfolding e by simp
  next
    case False
    with Cons.prems have p: "distinct ps" "p \<in> set ps" by auto
    from visit_other [OF False, of "env q" f] v have m: "memory_of p f' = memory_of p f" by simp
    from Cons.IH [OF p, of f'] visit_local [OF m, of "env p"] r False show ?thesis unfolding e by simp
  qed
qed simp

definition example_env :: "bool \<Rightarrow> sweep_env" where
  "example_env up = \<lparr>env_now = 0, env_after = 0, env_resolves = up, env_tables = Some True, env_tick_ok = True,
    env_deadline_passed = False\<rparr>"

definition no_memory :: fanout where
  "no_memory = \<lparr>fo_ready = Map.empty, fo_quiet = Map.empty\<rparr>"

theorem projects_isolated_witness:
  "''b'' \<in> set (fst (for_each_project (\<lambda>p. example_env (p = ''b'')) [''a'', ''b''] no_memory))"
  using projects_isolated [of "[''a'', ''b'']" "''b''" "\<lambda>p. example_env (p = ''b'')" no_memory]
  by (simp add: visit_project_def backed_off_def no_memory_def sweep_project_def has_scheduler_tables_def example_env_def)

lemma min_backoff_cap: "min_project_backoff * 2 ^ 16 < 2 ^ 63"
  by (simp add: min_project_backoff_def)

section \<open>The back-off\<close>

text \<open>
  A project that keeps failing is left alone for five seconds after its first failure, twice as long after
  each further one, and never longer than five minutes; one success forgets its failures.
\<close>

theorem backoff_doubles:
  "(let n = (case fo_quiet f p of None \<Rightarrow> 0 | Some s \<Rightarrow> bo_strikes s) in 0 \<le> n \<longrightarrow>
      fo_quiet (back_off now p f) p =
        Some \<lparr>bo_until = now + min max_project_backoff (min_project_backoff * 2 ^ nat n), bo_strikes = n + 1\<rparr>) \<and>
    \<not> backed_off t p (clear_backoff p f)"
proof -
  have key: "(if w > max_project_backoff \<or> w \<le> 0 then max_project_backoff else w) =
      min max_project_backoff (min_project_backoff * 2 ^ nat n)"
    if "0 \<le> n" and w: "w = wrap64 (push_bit (nat (min n 16)) min_project_backoff)" for n w :: int
  proof (cases "n \<le> 16")
    case True
    define k where "k = nat n"
    with True that(1) have k: "k \<le> 16" "nat (min n 16) = k" by auto
    have le: "(2 :: int) ^ k \<le> 2 ^ 16" using k(1) by (intro power_increasing) simp_all
    have pos: "(0 :: int) < 2 ^ k" by simp
    have "0 \<le> min_project_backoff * 2 ^ k" by (simp add: min_project_backoff_def)
    moreover have "min_project_backoff * 2 ^ k \<le> min_project_backoff * 2 ^ 16"
      using le by (intro mult_left_mono) (simp_all add: min_project_backoff_def)
    ultimately have "fits64 (min_project_backoff * 2 ^ k)"
      using min_backoff_cap unfolding fits64_def by linarith
    then have "w = min_project_backoff * 2 ^ k" unfolding w k(2) by (simp add: push_bit_eq_mult)
    with pos show ?thesis unfolding k_def [symmetric] by (auto simp: min_def min_project_backoff_def)
  next
    case False
    then have 16: "nat (min n 16) = 16" "16 \<le> nat n" by auto
    have "w = min_project_backoff * 2 ^ 16"
      unfolding w 16(1) by (simp add: push_bit_eq_mult min_project_backoff_def wrap64_def)
    moreover have "(2 :: int) ^ 16 \<le> 2 ^ nat n" using 16(2) by (intro power_increasing) simp_all
    ultimately show ?thesis by (simp add: min_project_backoff_def max_project_backoff_def min_def)
  qed
  define n where "n = (case fo_quiet f p of None \<Rightarrow> 0 | Some s \<Rightarrow> bo_strikes s)"
  have "fo_quiet (back_off now p f) p =
      Some \<lparr>bo_until = now + min max_project_backoff (min_project_backoff * 2 ^ nat n), bo_strikes = n + 1\<rparr>" if "0 \<le> n"
    using key [OF that refl] by (simp add: back_off_def n_def [symmetric] Let_def cong: if_cong split del: if_split)
  moreover have "\<not> backed_off t p (clear_backoff p f)" by (simp add: clear_backoff_def backed_off_def)
  ultimately show ?thesis unfolding n_def Let_def by blast
qed

theorem backoff_doubles_witness:
  "fo_quiet (back_off 0 ''p'' no_memory) ''p'' = Some \<lparr>bo_until = min_project_backoff, bo_strikes = 1\<rparr>"
  using backoff_doubles [of no_memory "''p''" 0]
  by (simp add: no_memory_def min_project_backoff_def max_project_backoff_def)

end
