(* ===== verification/Go_Time.thy ===== *)
theory Go_Time
  imports Prelude
begin

text \<open>
  Instants and durations of Go's \<^verbatim>\<open>time\<close> package: an instant is a number of nanoseconds since 1970 (the zero
  \<^verbatim>\<open>Time\<close> is the first of January of year 1), a \<^verbatim>\<open>Duration\<close> a 64-bit number of nanoseconds. \<^verbatim>\<open>Time.Sub\<close> answers
  the nearest \<^verbatim>\<open>Duration\<close> when the difference does not fit.
\<close>

type_synonym instant = int
type_synonym duration = int

definition zero_time :: instant where
  "zero_time = - 62135596800 * 1000000000"

definition min_duration :: duration where
  "min_duration = - 9223372036854775808"

definition max_duration :: duration where
  "max_duration = 9223372036854775807"

definition time_sub :: "instant \<Rightarrow> instant \<Rightarrow> duration" where
  "time_sub a b = max min_duration (min max_duration (a - b))"

definition second :: duration where
  "second = 1000000000"

text \<open>For a duration that is one, the saturation does not change a comparison.\<close>

lemma time_sub_ge [simp]: "min_duration < d \<Longrightarrow> d \<le> max_duration \<Longrightarrow> d \<le> time_sub a b \<longleftrightarrow> b + d \<le> a"
  by (auto simp: time_sub_def max_def min_def)

lemma time_sub_less [simp]: "min_duration < d \<Longrightarrow> d \<le> max_duration \<Longrightarrow> time_sub a b < d \<longleftrightarrow> a < b + d"
  by (auto simp: time_sub_def max_def min_def)

lemma time_sub_gr [simp]: "min_duration \<le> d \<Longrightarrow> d < max_duration \<Longrightarrow> d < time_sub a b \<longleftrightarrow> b + d < a"
  by (auto simp: time_sub_def max_def min_def)

end
