(* ===== verification/Login_Guard.thy ===== *)
theory Login_Guard
  imports Go_Time Go_Std Go_Strings
begin

text \<open>
  The guard on password guesses (\<^verbatim>\<open>internal/loginguard/guard.go\<close>): a fixed window of attempts per identity, with a
  sweep of the expired entries. Each method holds the guard's mutex and reads the clock inside it, so the calls are
  atomic steps at instants that do not decrease. Letters outside ASCII are not folded.
\<close>

section \<open>The guard\<close>

record login_entry =
  le_attempts :: int
  le_since :: instant

record login_guard =
  lg_limit :: int
  lg_window :: duration
  lg_entries :: "string \<rightharpoonup> login_entry"
  lg_last_sweep :: instant

text \<open>\<open>New\<close>; \<open>None\<close> is its panic.\<close>

definition new_login_guard :: "int \<Rightarrow> duration \<Rightarrow> login_guard option" where
  "new_login_guard limit window =
    (if limit < 1 \<or> window \<le> 0 then None
     else Some \<lparr>lg_limit = limit, lg_window = window, lg_entries = Map.empty, lg_last_sweep = zero_time\<rparr>)"

definition normalise :: "string \<Rightarrow> string" where
  "normalise identity = to_lower (trim_space identity)"

definition sweep_guard :: "instant \<Rightarrow> login_guard \<Rightarrow> login_guard" where
  "sweep_guard now g =
    (if time_sub now (lg_last_sweep g) < lg_window g then g
     else g\<lparr>lg_last_sweep := now, lg_entries := (\<lambda>key. case lg_entries g key of
         None \<Rightarrow> None
       | Some e \<Rightarrow> if time_sub now (le_since e) \<ge> lg_window g then None else Some e)\<rparr>)"

text \<open>What \<open>Attempt\<close> does once it has swept: the entry of the current window, and the count in it.\<close>

definition current_entry :: "instant \<Rightarrow> string \<Rightarrow> login_guard \<Rightarrow> login_entry" where
  "current_entry now key g = (case lg_entries g key of
     None \<Rightarrow> \<lparr>le_attempts = 0, le_since = now\<rparr>
   | Some e \<Rightarrow> if time_sub now (le_since e) \<ge> lg_window g then \<lparr>le_attempts = 0, le_since = now\<rparr> else e)"

definition count_attempt :: "instant \<Rightarrow> string \<Rightarrow> login_guard \<Rightarrow> bool \<times> login_guard" where
  "count_attempt now key g =
    (let e = current_entry now key g
     in if le_attempts e \<ge> lg_limit g then (False, g\<lparr>lg_entries := (lg_entries g)(key \<mapsto> e)\<rparr>)
        else (True, g\<lparr>lg_entries := (lg_entries g)(key \<mapsto> e\<lparr>le_attempts := le_attempts e + 1\<rparr>)\<rparr>))"

definition attempt :: "instant \<Rightarrow> string \<Rightarrow> login_guard \<Rightarrow> bool \<times> login_guard" where
  "attempt now identity g = count_attempt now (normalise identity) (sweep_guard now g)"

definition succeeded :: "string \<Rightarrow> login_guard \<Rightarrow> login_guard" where
  "succeeded identity g = g\<lparr>lg_entries := (lg_entries g)(normalise identity := None)\<rparr>"

section \<open>Runs\<close>

text \<open>
  A run of calls on one guard, with the clock each attempt reads. \<open>let_through\<close> keeps, per normalised identity, the
  instants at which an attempt was let through since the identity's last success, the latest first.
\<close>

datatype guard_call = Try instant string | Success string

fun guard_step :: "guard_call \<Rightarrow> login_guard \<times> (string \<Rightarrow> instant list) \<Rightarrow> login_guard \<times> (string \<Rightarrow> instant list)" where
  "guard_step (Try now i) (g, through) =
    (let (ok, g') = attempt now i g; key = normalise i
     in (g', if ok then through(key := now # through key) else through))"
| "guard_step (Success i) (g, through) = (succeeded i g, through(normalise i := []))"

fun call_times :: "guard_call list \<Rightarrow> instant list" where
  "call_times [] = []"
| "call_times (Try now i # cs) = now # call_times cs"
| "call_times (Success i # cs) = call_times cs"

definition guard_run :: "guard_call list \<Rightarrow> login_guard \<Rightarrow> login_guard \<times> (string \<Rightarrow> instant list)" where
  "guard_run cs g = fold guard_step cs (g, \<lambda>_. [])"

definition in_window :: "instant \<Rightarrow> duration \<Rightarrow> instant list \<Rightarrow> nat" where
  "in_window T w ts = length (filter (\<lambda>t. T \<le> t \<and> t < T + w) ts)"

section \<open>The bound on guesses\<close>

text \<open>
  What holds of one identity at instant \<open>now\<close>: \<open>ts\<close> are its guesses let through, and \<open>e\<close> its entry, if any.
\<close>

definition guess_inv :: "int \<Rightarrow> duration \<Rightarrow> instant \<Rightarrow> login_entry option \<Rightarrow> instant list \<Rightarrow> bool" where
  "guess_inv limit w now e ts \<longleftrightarrow>
    (\<forall>T. int (in_window T w ts) \<le> 2 * limit) \<and>
    (case e of
       None \<Rightarrow> (\<forall>t \<in> set ts. t < now) \<and> (\<forall>T. now - w \<le> T \<longrightarrow> int (length (filter (\<lambda>t. T \<le> t) ts)) \<le> limit)
     | Some e \<Rightarrow> (\<forall>t \<in> set ts. t < le_since e + w \<and> t \<le> now) \<and> le_since e \<le> now \<and>
         0 \<le> le_attempts e \<and> le_attempts e \<le> limit \<and>
         int (length (filter (\<lambda>t. le_since e \<le> t) ts)) \<le> le_attempts e \<and>
         (\<forall>T. le_since e - w \<le> T \<longrightarrow> int (length (filter (\<lambda>t. T \<le> t \<and> t < le_since e) ts)) \<le> limit))"

lemma filter_length_mono: "(\<And>x. x \<in> set xs \<Longrightarrow> P x \<Longrightarrow> Q x) \<Longrightarrow> length (filter P xs) \<le> length (filter Q xs)"
  by (induction xs) auto

lemma filter_length_or:
  "(\<And>x. x \<in> set xs \<Longrightarrow> P x \<Longrightarrow> Q x \<or> R x) \<Longrightarrow> length (filter P xs) \<le> length (filter Q xs) + length (filter R xs)"
  by (induction xs) auto

lemma guess_inv_start: "0 \<le> limit \<Longrightarrow> guess_inv limit w now None []"
  by (simp add: guess_inv_def in_window_def)

lemma guess_inv_later: "guess_inv limit w now e ts \<Longrightarrow> now \<le> now' \<Longrightarrow> guess_inv limit w now' e ts"
  unfolding guess_inv_def by (cases e) force+

text \<open>An expired entry may be dropped.\<close>

lemma guess_inv_drop:
  assumes "guess_inv limit w now (Some e) ts" "le_since e + w \<le> now"
  shows "guess_inv limit w now None ts"
proof -
  from assms(1) have cur: "int (length (filter (\<lambda>t. le_since e \<le> t) ts)) \<le> limit"
    and before: "\<forall>t \<in> set ts. t < le_since e + w" by (auto simp: guess_inv_def)
  have "int (length (filter (\<lambda>t. T \<le> t) ts)) \<le> limit" if "now - w \<le> T" for T
  proof -
    from that assms(2) have "le_since e \<le> T" by simp
    then have "length (filter (\<lambda>t. T \<le> t) ts) \<le> length (filter (\<lambda>t. le_since e \<le> t) ts)"
      by (intro filter_length_mono) simp
    with cur show ?thesis by linarith
  qed
  with assms before show ?thesis by (force simp: guess_inv_def)
qed

text \<open>An attempt that opens a window, and one inside the current window.\<close>

lemma guess_inv_open:
  assumes inv: "guess_inv limit w now None ts" and "0 < w" "1 \<le> limit"
  shows "guess_inv limit w now (Some \<lparr>le_attempts = 1, le_since = now\<rparr>) (now # ts)"
proof -
  from inv have old: "\<And>t. t \<in> set ts \<Longrightarrow> t < now" and two: "\<And>T. int (in_window T w ts) \<le> 2 * limit"
    and recent: "\<And>T. now - w \<le> T \<Longrightarrow> int (length (filter (\<lambda>t. T \<le> t) ts)) \<le> limit" by (auto simp: guess_inv_def)
  have "int (in_window T w (now # ts)) \<le> 2 * limit" for T
  proof (cases "T \<le> now \<and> now < T + w")
    case True
    have "in_window T w ts \<le> length (filter (\<lambda>t. T \<le> t) ts)"
      unfolding in_window_def by (rule filter_length_mono) simp
    with recent [of T] True assms(3) show ?thesis by (simp add: in_window_def)
  next
    case False
    with two [of T] show ?thesis by (auto simp: in_window_def)
  qed
  moreover have "filter (\<lambda>t. now \<le> t) ts = []" using old by (force simp: filter_empty_conv)
  moreover have "int (length (filter (\<lambda>t. T \<le> t \<and> t < now) ts)) \<le> limit" if "now - w \<le> T" for T
    using recent [OF that] filter_length_mono [of ts "\<lambda>t. T \<le> t \<and> t < now" "\<lambda>t. T \<le> t"] by force
  ultimately show ?thesis using old assms(2,3) by (force simp: guess_inv_def)
qed

lemma guess_inv_count:
  assumes inv: "guess_inv limit w now (Some e) ts" and "now < le_since e + w" "le_attempts e < limit"
  shows "guess_inv limit w now (Some (e\<lparr>le_attempts := le_attempts e + 1\<rparr>)) (now # ts)"
proof -
  from inv have two: "\<And>T. int (in_window T w ts) \<le> 2 * limit" and s: "le_since e \<le> now" "0 \<le> le_attempts e"
    and cur: "int (length (filter (\<lambda>t. le_since e \<le> t) ts)) \<le> le_attempts e"
    and prev: "\<And>T. le_since e - w \<le> T \<Longrightarrow> int (length (filter (\<lambda>t. T \<le> t \<and> t < le_since e) ts)) \<le> limit"
    and ts: "\<forall>t \<in> set ts. t < le_since e + w \<and> t \<le> now"
    by (auto simp: guess_inv_def)
  have "int (in_window T w (now # ts)) \<le> 2 * limit" for T
  proof (cases "T \<le> now \<and> now < T + w")
    case True
    with s have "le_since e - w \<le> T" by simp
    note prev [OF this]
    moreover have "in_window T w ts
        \<le> length (filter (\<lambda>t. T \<le> t \<and> t < le_since e) ts) + length (filter (\<lambda>t. le_since e \<le> t) ts)"
      unfolding in_window_def by (rule filter_length_or) auto
    ultimately show ?thesis using True cur assms(3) by (simp add: in_window_def)
  next
    case False
    with two [of T] show ?thesis by (auto simp: in_window_def)
  qed
  moreover have "filter (\<lambda>t. T \<le> t \<and> t < le_since e) (now # ts) = filter (\<lambda>t. T \<le> t \<and> t < le_since e) ts" for T
    using s by simp
  ultimately show ?thesis using s cur prev ts assms(2,3) by (simp add: guess_inv_def)
qed

text \<open>The whole guard at instant \<open>now\<close>.\<close>

definition guard_inv :: "int \<Rightarrow> duration \<Rightarrow> instant \<Rightarrow> login_guard \<times> (string \<Rightarrow> instant list) \<Rightarrow> bool" where
  "guard_inv limit w now = (\<lambda>(g, through). lg_limit g = limit \<and> lg_window g = w \<and>
    (\<forall>key. guess_inv limit w now (lg_entries g key) (through key)))"

lemma sweep_guard_inv:
  assumes "guard_inv limit w now (g, through)" "0 < w" "w \<le> max_duration"
  shows "guard_inv limit w now (sweep_guard now g, through)"
proof -
  have d: "min_duration < w" using assms(2) by (simp add: min_duration_def)
  from assms(1) have l: "lg_window g = w" and k: "\<And>key. guess_inv limit w now (lg_entries g key) (through key)"
    by (simp_all add: guard_inv_def)
  have "guess_inv limit w now (lg_entries (sweep_guard now g) key) (through key)" for key
  proof (cases "lg_entries g key")
    case None
    with k [of key] show ?thesis by (simp add: sweep_guard_def)
  next
    case (Some e)
    with k [of key] have "guess_inv limit w now (Some e) (through key)" by simp
    with guess_inv_drop [OF this] Some d assms(3) show ?thesis by (simp add: sweep_guard_def l)
  qed
  with assms(1) show ?thesis by (simp add: guard_inv_def sweep_guard_def)
qed

lemma attempt_inv:
  assumes inv: "guard_inv limit w now (g, through)" and w: "0 < w" "w \<le> max_duration" and "1 \<le> limit"
  shows "guard_inv limit w now (guard_step (Try now i) (g, through))"
proof -
  let ?g = "sweep_guard now g" and ?key = "normalise i"
  have inv: "guard_inv limit w now (?g, through)" by (rule sweep_guard_inv [OF inv w])
  then have l: "lg_limit ?g = limit" "lg_window ?g = w"
    and k: "\<And>key. guess_inv limit w now (lg_entries ?g key) (through key)" by (simp_all add: guard_inv_def)
  have d: "min_duration < w" using w by (simp add: min_duration_def)
  define e where "e = current_entry now ?key ?g"
  have fresh: "e = \<lparr>le_attempts = 0, le_since = now\<rparr> \<and> guess_inv limit w now None (through ?key) \<or>
      lg_entries ?g ?key = Some e \<and> now < le_since e + w"
  proof (cases "lg_entries ?g ?key")
    case None
    with k [of ?key] show ?thesis by (simp add: e_def current_entry_def)
  next
    case (Some e')
    with k [of ?key] have i: "guess_inv limit w now (Some e') (through ?key)" by simp
    show ?thesis
    proof (cases "le_since e' + w \<le> now")
      case True
      with guess_inv_drop [OF i] Some d w show ?thesis by (simp add: e_def current_entry_def l)
    next
      case False
      with Some d w show ?thesis by (simp add: e_def current_entry_def l)
    qed
  qed
  have step: "guard_step (Try now i) (g, through) =
    (if limit \<le> le_attempts e then (?g\<lparr>lg_entries := (lg_entries ?g)(?key \<mapsto> e)\<rparr>, through)
     else (?g\<lparr>lg_entries := (lg_entries ?g)(?key \<mapsto> e\<lparr>le_attempts := le_attempts e + 1\<rparr>)\<rparr>,
       through(?key := now # through ?key)))"
    by (simp add: attempt_def count_attempt_def e_def [symmetric] l Let_def)
  show ?thesis
    using fresh
  proof
    assume f: "e = \<lparr>le_attempts = 0, le_since = now\<rparr> \<and> guess_inv limit w now None (through ?key)"
    with guess_inv_open [of limit w now "through ?key"] assms(4) w k l show ?thesis
      unfolding step by (simp add: guard_inv_def)
  next
    assume f: "lg_entries ?g ?key = Some e \<and> now < le_since e + w"
    with k [of ?key] have "guess_inv limit w now (Some e) (through ?key)" by simp
    with guess_inv_count [OF this] f k l show ?thesis unfolding step by (simp add: guard_inv_def)
  qed
qed

lemma guard_run_inv:
  assumes "guard_inv limit w now s" "0 < w" "w \<le> max_duration" "1 \<le> limit"
    and "sorted (now # call_times cs)"
  shows "\<exists>now'. guard_inv limit w now' (fold guard_step cs s)"
  using assms(1,5)
proof (induction cs arbitrary: now s)
  case (Cons c cs)
  obtain g through where s: "s = (g, through)" by force
  show ?case
  proof (cases c)
    case (Try t i)
    with Cons.prems have t: "now \<le> t" "sorted (t # call_times cs)" by auto
    have "guard_inv limit w t (g, through)"
      using Cons.prems(1) t(1) by (simp add: guard_inv_def s) (blast intro: guess_inv_later)
    from Cons.IH [OF attempt_inv [OF this assms(2,3,4)] t(2)] show ?thesis
      unfolding Try s by (simp only: fold.simps o_apply)
  next
    case (Success i)
    have "guard_inv limit w now (guard_step c s)"
      using Cons.prems(1) guess_inv_start assms(4) by (simp add: Success s guard_inv_def succeeded_def)
    with Cons.prems(2) show ?thesis using Cons.IH unfolding Success by simp
  qed
qed auto

text \<open>
  Claim C17. However the sign-ins of any number of identities are interleaved, at every moment at most twice the
  limit of the guesses at one identity since its last success fall into any time as long as the window;
  whatever addresses they come from and however the identity is written. A success clears the count, so that
  whoever knows the password may go on guessing: between two successes the bound holds, across them it does not.
\<close>

theorem guesses_bounded:
  assumes "new_login_guard limit window = Some g" "window \<le> max_duration" "sorted (call_times cs)"
  shows "int (in_window T window (snd (guard_run cs g) (normalise identity))) \<le> 2 * limit"
proof -
  from assms(1) have lw: "1 \<le> limit" "0 < window" by (simp_all add: new_login_guard_def split: if_splits)
  define now where "now = (case call_times cs of [] \<Rightarrow> 0 | t # ts \<Rightarrow> t)"
  have "sorted (now # call_times cs)" using assms(3) by (cases "call_times cs") (auto simp: now_def)
  moreover have "guard_inv limit window now (g, \<lambda>_. [])"
    using assms(1) lw guess_inv_start by (auto simp: guard_inv_def new_login_guard_def split: if_splits)
  ultimately obtain now' where "guard_inv limit window now' (guard_run cs g)"
    using guard_run_inv lw assms(2) unfolding guard_run_def by blast
  then show ?thesis by (cases "guard_run cs g") (auto simp: guard_inv_def guess_inv_def)
qed

text \<open>Three guesses in one minute at a limit of two: the third is refused.\<close>

definition example_guard :: login_guard where
  "example_guard = \<lparr>lg_limit = 2, lg_window = 60, lg_entries = Map.empty, lg_last_sweep = zero_time\<rparr>"

lemma example_guard: "new_login_guard 2 60 = Some example_guard"
  by (simp add: new_login_guard_def example_guard_def)

theorem guesses_bounded_witness:
  "int (in_window 0 60 (snd (guard_run [Try 1 ''Ann'', Try 2 '' ann'', Try 3 ''ANN''] example_guard) (normalise ''ann''))) \<le> 4"
  using guesses_bounded [OF example_guard, of "[Try 1 ''Ann'', Try 2 '' ann'', Try 3 ''ANN'']" 0 "''ann''"]
  by (simp add: max_duration_def)

section \<open>The sweep changes no verdict, and identities do not disturb each other\<close>

text \<open>The verdicts of a run, with the key each is about; and the guard that never forgets an entry.\<close>

fun verdicts ::
  "(instant \<Rightarrow> string \<Rightarrow> login_guard \<Rightarrow> bool \<times> login_guard) \<Rightarrow> guard_call list \<Rightarrow> login_guard \<Rightarrow> (string \<times> bool) list" where
  "verdicts att [] g = []"
| "verdicts att (Try now i # cs) g = (normalise i, fst (att now i g)) # verdicts att cs (snd (att now i g))"
| "verdicts att (Success i # cs) g = verdicts att cs (succeeded i g)"

definition attempt_unswept :: "instant \<Rightarrow> string \<Rightarrow> login_guard \<Rightarrow> bool \<times> login_guard" where
  "attempt_unswept now identity g = count_attempt now (normalise identity) g"

text \<open>A guard that has forgotten some of the entries that are expired by \<open>now\<close>.\<close>

definition forgets :: "instant \<Rightarrow> login_guard \<Rightarrow> login_guard \<Rightarrow> bool" where
  "forgets now h g \<longleftrightarrow> lg_limit g = lg_limit h \<and> lg_window g = lg_window h \<and>
    (\<forall>key. lg_entries g key = lg_entries h key \<or>
      lg_entries g key = None \<and> (\<exists>e. lg_entries h key = Some e \<and> le_since e + lg_window h \<le> now))"

lemma forgets_refl: "forgets now g g"
  by (simp add: forgets_def)

lemma forgets_later: "forgets now h g \<Longrightarrow> now \<le> now' \<Longrightarrow> forgets now' h g"
  unfolding forgets_def by (meson order_trans)

lemma forgets_sweep:
  assumes "forgets now h g" "0 < lg_window g" "lg_window g \<le> max_duration"
  shows "forgets now h (sweep_guard now g)"
proof -
  have d: "min_duration < lg_window g" using assms(2) by (simp add: min_duration_def)
  have w: "lg_window h = lg_window g" using assms(1) by (simp add: forgets_def)
  have "lg_entries (sweep_guard now g) key = lg_entries h key \<or>
      lg_entries (sweep_guard now g) key = None \<and> (\<exists>e. lg_entries h key = Some e \<and> le_since e + lg_window h \<le> now)" for key
  proof -
    from assms(1) have "lg_entries g key = lg_entries h key \<or>
      lg_entries g key = None \<and> (\<exists>e. lg_entries h key = Some e \<and> le_since e + lg_window h \<le> now)" by (simp add: forgets_def)
    then show ?thesis
    proof (cases "lg_entries g key")
      case (Some e)
      with \<open>_ \<or> _\<close> have "lg_entries h key = Some e" by auto
      with Some d assms(3) show ?thesis by (simp add: sweep_guard_def w)
    qed (simp add: sweep_guard_def)
  qed
  with assms(1) show ?thesis by (simp add: forgets_def sweep_guard_def)
qed

lemma forgets_current:
  assumes "forgets now h g" "0 < lg_window h" "lg_window h \<le> max_duration"
  shows "current_entry now key g = current_entry now key h"
proof -
  have d: "min_duration < lg_window h" using assms(2) by (simp add: min_duration_def)
  from assms(1) have w: "lg_window g = lg_window h" and "lg_entries g key = lg_entries h key \<or>
      lg_entries g key = None \<and> (\<exists>e. lg_entries h key = Some e \<and> le_since e + lg_window h \<le> now)"
    by (simp_all add: forgets_def)
  then show ?thesis using d assms(3) by (auto simp: current_entry_def split: option.split)
qed

lemma count_attempt_forgets:
  assumes "forgets now h g" "0 < lg_window h" "lg_window h \<le> max_duration"
  shows "fst (count_attempt now key g) = fst (count_attempt now key h)"
    and "forgets now (snd (count_attempt now key h)) (snd (count_attempt now key g))"
  using assms(1) forgets_current [OF assms]
  by (auto simp: count_attempt_def forgets_def Let_def)

lemma verdicts_forgets:
  assumes "forgets now h g" "0 < lg_window h" "lg_window h \<le> max_duration" "sorted (now # call_times cs)"
  shows "verdicts attempt cs g = verdicts attempt_unswept cs h"
  using assms
proof (induction cs arbitrary: now g h)
  case (Cons c cs)
  have lw: "lg_window g = lg_window h" using Cons.prems(1) by (simp add: forgets_def)
  show ?case
  proof (cases c)
    case (Try t i)
    have "forgets t h g" using Cons.prems(1,4) forgets_later by (simp add: Try)
    then have "forgets t h (sweep_guard t g)" using forgets_sweep Cons.prems(2,3) lw by simp
    note step = count_attempt_forgets [OF this Cons.prems(2,3), of "normalise i"]
    have "lg_window (snd (count_attempt t (normalise i) h)) = lg_window h" by (simp add: count_attempt_def Let_def)
    with Cons.IH [OF step(2)] step(1) Cons.prems show ?thesis
      by (simp add: Try attempt_def attempt_unswept_def)
  next
    case (Success i)
    have "forgets now (succeeded i h) (succeeded i g)" using Cons.prems(1) by (simp add: forgets_def succeeded_def)
    from Cons.IH [OF this] Cons.prems show ?thesis by (simp add: Success succeeded_def)
  qed
qed simp

text \<open>
  The sweep only bounds memory: a guard that never dropped an entry would answer every attempt of every
  run the same.
\<close>

theorem sweep_changes_no_verdict:
  assumes "new_login_guard limit window = Some g" "window \<le> max_duration" "sorted (call_times cs)"
  shows "verdicts attempt cs g = verdicts attempt_unswept cs g"
proof -
  from assms(1) have "0 < lg_window g" "lg_window g = window" by (auto simp: new_login_guard_def split: if_splits)
  moreover define now where "now = (case call_times cs of [] \<Rightarrow> 0 | t # ts \<Rightarrow> t)"
  moreover have "sorted (now # call_times cs)" using assms(3) by (cases "call_times cs") (auto simp: now_def)
  ultimately show ?thesis using verdicts_forgets [OF forgets_refl, of g now cs] assms(2) by simp
qed

theorem sweep_changes_no_verdict_witness:
  "verdicts attempt [Try 1 ''a'', Try 70 ''b'', Try 71 ''a''] example_guard
    = verdicts attempt_unswept [Try 1 ''a'', Try 70 ''b'', Try 71 ''a''] example_guard"
  by (rule sweep_changes_no_verdict [OF example_guard]) (simp_all add: max_duration_def)

fun call_key :: "guard_call \<Rightarrow> string" where
  "call_key (Try now i) = normalise i"
| "call_key (Success i) = normalise i"

lemma count_attempt_agree:
  assumes "lg_limit g = lg_limit h" "lg_window g = lg_window h" "lg_entries g key = lg_entries h key"
  shows "fst (count_attempt t key g) = fst (count_attempt t key h)"
    and "lg_entries (snd (count_attempt t key g)) key = lg_entries (snd (count_attempt t key h)) key"
proof -
  from assms have "current_entry t key g = current_entry t key h" by (auto simp: current_entry_def split: option.split)
  with assms show "fst (count_attempt t key g) = fst (count_attempt t key h)"
    and "lg_entries (snd (count_attempt t key g)) key = lg_entries (snd (count_attempt t key h)) key"
    by (simp_all add: count_attempt_def Let_def)
qed

lemma count_attempt_keeps:
  "lg_limit (snd (count_attempt t key g)) = lg_limit g" "lg_window (snd (count_attempt t key g)) = lg_window g"
  "key' \<noteq> key \<Longrightarrow> lg_entries (snd (count_attempt t key g)) key' = lg_entries g key'"
  by (simp_all add: count_attempt_def Let_def)

lemma verdicts_of_key:
  assumes "lg_limit g = lg_limit h" "lg_window g = lg_window h" "lg_entries g key = lg_entries h key"
  shows "filter (\<lambda>(k, _). k = key) (verdicts attempt_unswept cs g)
    = verdicts attempt_unswept (filter (\<lambda>c. call_key c = key) cs) h"
  using assms
proof (induction cs arbitrary: g h)
  case (Cons c cs)
  show ?case
  proof (cases c)
    case (Try t i)
    show ?thesis
    proof (cases "normalise i = key")
      case True
      with count_attempt_agree [OF Cons.prems, of t] Cons.prems show ?thesis unfolding Try
        by (simp add: attempt_unswept_def [of t] count_attempt_keeps Cons.IH)
    next
      case False
      with Cons.prems show ?thesis unfolding Try
        by (simp add: attempt_unswept_def [of t] count_attempt_keeps Cons.IH)
    qed
  next
    case (Success i)
    show ?thesis
    proof (cases "normalise i = key")
      case True
      have "filter (\<lambda>(k, _). k = key) (verdicts attempt_unswept cs (succeeded i g))
          = verdicts attempt_unswept (filter (\<lambda>c. call_key c = key) cs) (succeeded i h)"
        by (rule Cons.IH) (use Cons.prems in \<open>simp_all add: succeeded_def\<close>)
      with True show ?thesis by (simp add: Success)
    next
      case False
      have "filter (\<lambda>(k, _). k = key) (verdicts attempt_unswept cs (succeeded i g))
          = verdicts attempt_unswept (filter (\<lambda>c. call_key c = key) cs) h"
        by (rule Cons.IH) (use Cons.prems False in \<open>simp_all add: succeeded_def\<close>)
      with False show ?thesis by (simp add: Success)
    qed
  qed
qed simp

lemma call_times_filter: "sorted (call_times cs) \<Longrightarrow> sorted (call_times (filter P cs)) \<and> set (call_times (filter P cs)) \<subseteq> set (call_times cs)"
proof (induction cs)
  case (Cons c cs)
  then show ?case by (cases c) auto
qed simp

text \<open>
  One identity's verdicts depend on its own attempts and successes alone: they are those of the run with
  every other identity left out, so nobody can lock another account out or wear its limit down.
\<close>

theorem identities_isolated:
  assumes "new_login_guard limit window = Some g" "window \<le> max_duration" "sorted (call_times cs)"
  shows "filter (\<lambda>(k, _). k = key) (verdicts attempt cs g) = verdicts attempt (filter (\<lambda>c. call_key c = key) cs) g"
proof -
  from assms(1) have "0 < lg_window g" "lg_window g = window" by (auto simp: new_login_guard_def split: if_splits)
  then have same: "verdicts attempt xs g = verdicts attempt_unswept xs g" if "sorted (call_times xs)" for xs
    using verdicts_forgets [OF forgets_refl, of g "case call_times xs of [] \<Rightarrow> 0 | t # ts \<Rightarrow> t" xs] assms(2) that
    by (cases "call_times xs") auto
  show ?thesis
    using same [OF assms(3)] same call_times_filter [OF assms(3)] verdicts_of_key [of g g key cs] by simp
qed

theorem identities_isolated_witness:
  "filter (\<lambda>(k, _). k = ''a'') (verdicts attempt [Try 1 ''b'', Try 2 ''a'', Try 3 ''b'', Try 4 ''b''] example_guard)
    = verdicts attempt [Try 2 ''a''] example_guard"
proof -
  have n: "normalise ''a'' = ''a''" "normalise ''b'' = ''b''"
    by (simp_all add: normalise_def trim_space_graphic graphic_def to_lower_def lower_char_def)
  show ?thesis
    using identities_isolated [OF example_guard, of "[Try 1 ''b'', Try 2 ''a'', Try 3 ''b'', Try 4 ''b'']" "''a''"]
    by (simp add: max_duration_def n)
qed

end
