(* ===== verification/Go_Float.thy ===== *)
theory Go_Float
  imports Go_Time "HOL-Library.Log_Nat" "HOL-Library.Signed_Division"
begin

text \<open>
  Go's \<^verbatim>\<open>float64\<close> where the code computes with it: a value is the rational it stands for, and every operation
  rounds its exact result to 53 significant bits, to the nearest and on a tie to the even one. The range of the exponent
  is left open; the quantities of the code (tokens, seconds, tokens per second) stay within the normal range.
\<close>

section \<open>Rounding\<close>

text \<open>The largest \<open>e\<close> with \<open>2 powi e \<le> \<bar>x\<bar>\<close>, from the lengths of numerator and denominator.\<close>

definition bit_exponent :: "rat \<Rightarrow> int" where
  "bit_exponent x = (let (a, b) = quotient_of \<bar>x\<bar>; e = bitlen a - bitlen b in if 2 powi e \<le> \<bar>x\<bar> then e else e - 1)"

definition round_even :: "rat \<Rightarrow> int" where
  "round_even y = (let f = \<lfloor>y\<rfloor>; d = y - of_int f in
     if d < 1 / 2 then f else if 1 / 2 < d then f + 1 else if even f then f else f + 1)"

definition fl64 :: "rat \<Rightarrow> rat" where
  "fl64 x = (if x = 0 then 0 else let ulp = 2 powi (bit_exponent x - 52) in of_int (round_even (x / ulp)) * ulp)"

text \<open>\<open>Duration.Seconds\<close>: the whole seconds and the rest, converted and added.\<close>

definition float_seconds :: "duration \<Rightarrow> rat" where
  "float_seconds d = fl64 (fl64 (of_int (d sdiv second)) + fl64 (fl64 (of_int (d smod second)) / of_int second))"

section \<open>The error of a rounding\<close>

lemma bitlen_powi: "0 < a \<Longrightarrow> 2 powi (bitlen a - 1) \<le> (of_int a :: rat) \<and> of_int a < (2 :: rat) powi bitlen a"
proof -
  assume a: "0 < a"
  then have "1 \<le> bitlen a" by (simp add: bitlen_alt_def)
  moreover from bitlen_bounds [OF a] have "of_int (2 ^ nat (bitlen a - 1)) \<le> (of_int a :: rat)" "of_int a < (of_int (2 ^ nat (bitlen a)) :: rat)"
    by (simp_all only: of_int_le_iff of_int_less_iff)
  ultimately show ?thesis by (simp add: power_int_def)
qed

lemma bit_exponent_le:
  assumes "x \<noteq> 0"
  shows "2 powi bit_exponent x \<le> \<bar>x\<bar>"
proof -
  obtain a b where q: "quotient_of \<bar>x\<bar> = (a, b)" by fastforce
  then have b: "0 < b" and x: "\<bar>x\<bar> = of_int a / of_int b" by (rule quotient_of_denom_pos, rule quotient_of_div)
  with assms have a: "0 < a" by (metis abs_le_zero_iff divide_nonpos_pos not_less of_int_0_less_iff of_int_le_0_iff)
  have "2 powi (bitlen a - bitlen b - 1) = (2 :: rat) powi (bitlen a - 1) / 2 powi bitlen b"
    by (simp add: power_int_diff [symmetric] algebra_simps)
  also have "... \<le> of_int a / of_int b"
    using bitlen_powi [OF a] bitlen_powi [OF b] a b by (intro frac_le) auto
  finally show ?thesis using x q by (simp add: bit_exponent_def Let_def)
qed

lemma round_even_error: "\<bar>of_int (round_even y) - y\<bar> \<le> 1 / 2"
proof -
  have "of_int \<lfloor>y\<rfloor> \<le> y" "y < of_int \<lfloor>y\<rfloor> + 1" by linarith+
  then show ?thesis unfolding round_even_def Let_def by (simp add: abs_le_iff)
qed

text \<open>The unit roundoff.\<close>

definition roundoff :: rat where
  "roundoff = 1 / 2 ^ 53"

lemma fl64_error: "\<bar>fl64 x - x\<bar> \<le> \<bar>x\<bar> * roundoff"
proof (cases "x = 0")
  case False
  define ulp where "ulp = (2 :: rat) powi (bit_exponent x - 52)"
  have p: "0 < ulp" by (simp add: ulp_def)
  have "fl64 x - x = (of_int (round_even (x / ulp)) - x / ulp) * ulp"
    using False p by (simp add: fl64_def ulp_def [symmetric] Let_def left_diff_distrib)
  then have "\<bar>fl64 x - x\<bar> = \<bar>of_int (round_even (x / ulp)) - x / ulp\<bar> * ulp" using p by (simp add: abs_mult)
  also have "... \<le> 1 / 2 * ulp" using round_even_error p by (intro mult_right_mono) auto
  also have "ulp = 2 powi bit_exponent x / 2 ^ 52" by (simp add: ulp_def power_int_diff)
  also have "1 / 2 * (2 powi bit_exponent x / 2 ^ 52) = 2 powi bit_exponent x * roundoff" by (simp add: roundoff_def)
  also have "... \<le> \<bar>x\<bar> * roundoff"
    by (intro mult_right_mono bit_exponent_le [OF False]) (simp add: roundoff_def)
  finally show ?thesis .
qed (simp add: fl64_def)

lemma roundoff_simps [simp]: "0 < roundoff" "0 \<le> roundoff" "roundoff < 1" "roundoff \<le> 1"
  by (simp_all add: roundoff_def)

lemma fl64_up: "0 \<le> x \<Longrightarrow> fl64 x \<le> x * (1 + roundoff)"
  using fl64_error [of x] by (simp add: abs_le_iff algebra_simps)

lemma fl64_down: "0 \<le> x \<Longrightarrow> x * (1 - roundoff) \<le> fl64 x"
  using fl64_error [of x] by (simp add: abs_le_iff algebra_simps)

lemma fl64_nonneg: "0 \<le> x \<Longrightarrow> 0 \<le> fl64 x"
  using fl64_down [of x] mult_nonneg_nonneg [of x "1 - roundoff"] roundoff_simps(3) by linarith

lemma fl64_pos: "0 < x \<Longrightarrow> 0 < fl64 x"
  using fl64_down [of x] mult_pos_pos [of x "1 - roundoff"] roundoff_simps(3) by linarith

text \<open>Bounds that carry \<open>k\<close> roundings.\<close>

lemma fl64_up_pow: "0 \<le> x \<Longrightarrow> x \<le> y * (1 + roundoff) ^ k \<Longrightarrow> fl64 x \<le> y * (1 + roundoff) ^ Suc k"
proof -
  assume "0 \<le> x" "x \<le> y * (1 + roundoff) ^ k"
  then have "fl64 x \<le> x * (1 + roundoff)" "x * (1 + roundoff) \<le> y * (1 + roundoff) ^ k * (1 + roundoff)"
    by (simp_all add: fl64_up mult_right_mono)
  then have "fl64 x \<le> y * (1 + roundoff) ^ k * (1 + roundoff)" by (rule order_trans)
  then show ?thesis by (simp only: power_Suc2 mult.assoc)
qed

lemma fl64_down_pow: "0 \<le> x \<Longrightarrow> y * (1 - roundoff) ^ k \<le> x \<Longrightarrow> y * (1 - roundoff) ^ Suc k \<le> fl64 x"
proof -
  assume "0 \<le> x" "y * (1 - roundoff) ^ k \<le> x"
  moreover have "0 \<le> 1 - roundoff" using roundoff_simps(3) by simp
  ultimately have "y * (1 - roundoff) ^ k * (1 - roundoff) \<le> x * (1 - roundoff)" "x * (1 - roundoff) \<le> fl64 x"
    by (simp_all add: fl64_down mult_right_mono)
  then have "y * (1 - roundoff) ^ k * (1 - roundoff) \<le> fl64 x" by (rule order_trans)
  then show ?thesis by (simp only: power_Suc2 mult.assoc)
qed

lemma scale_up: "0 \<le> a \<Longrightarrow> x \<le> a * (1 + roundoff) ^ k \<Longrightarrow> x \<le> a * (1 + roundoff) ^ (k + j)"
  by (erule order_trans) (intro mult_left_mono power_increasing, simp_all)

lemma scale_down: "0 \<le> a \<Longrightarrow> a * (1 - roundoff) ^ k \<le> x \<Longrightarrow> a * (1 - roundoff) ^ (k + j) \<le> x"
  by (erule order_trans [rotated]) (intro mult_left_mono power_decreasing, simp_all add: less_imp_le)

text \<open>The seconds of a duration that is not negative, three roundings from the exact ones.\<close>

definition seconds :: "duration \<Rightarrow> rat" where
  "seconds d = of_int d / of_int second"

lemma seconds_split:
  assumes "0 \<le> d"
  shows "d sdiv second = d div second" "d smod second = d mod second"
    "of_int (d div second) + of_int (d mod second) / of_int second = seconds d"
proof -
  show "d sdiv second = d div second" "d smod second = d mod second"
    using assms by (simp_all add: signed_divide_int_def signed_modulo_int_def second_def sgn_if minus_mult_div_eq_mod)
  have "(of_int d :: rat) = of_int (second * (d div second) + d mod second)" by simp
  then show "of_int (d div second) + of_int (d mod second) / of_int second = seconds d"
    unfolding of_int_add of_int_mult seconds_def by (simp add: second_def field_simps)
qed

lemma float_seconds_bounds:
  assumes "0 \<le> d"
  shows "float_seconds d \<le> seconds d * (1 + roundoff) ^ 3" "seconds d * (1 - roundoff) ^ 3 \<le> float_seconds d"
proof -
  define a where "a = (of_int (d div second) :: rat)"
  define b where "b = (of_int (d mod second) :: rat)"
  define s where "s = (of_int second :: rat)"
  have n: "0 \<le> a" "0 \<le> b" "0 < s" using assms by (auto simp: a_def b_def s_def second_def)
  have f: "float_seconds d = fl64 (fl64 a + fl64 (fl64 b / s))"
    using seconds_split [OF assms] by (simp add: float_seconds_def a_def b_def s_def)
  have e: "seconds d = a + b / s" using seconds_split(3) [OF assms] by (simp add: a_def b_def s_def)
  have q: "0 \<le> fl64 b / s" using n fl64_nonneg by simp
  have "fl64 a \<le> a * (1 + roundoff) ^ (1 + 1)" "a * (1 - roundoff) ^ (1 + 1) \<le> fl64 a"
    using n(1) by (intro scale_up scale_down; simp add: fl64_up fl64_down)+
  moreover have "fl64 (fl64 b / s) \<le> b / s * (1 + roundoff) ^ Suc 1"
    using fl64_up [OF n(2)] n(3) by (intro fl64_up_pow q) (simp add: divide_right_mono)
  moreover have "b / s * (1 - roundoff) ^ Suc 1 \<le> fl64 (fl64 b / s)"
    using fl64_down [OF n(2)] n(3) by (intro fl64_down_pow q) (simp add: divide_right_mono)
  ultimately have up: "fl64 a + fl64 (fl64 b / s) \<le> seconds d * (1 + roundoff) ^ 2"
    and down: "seconds d * (1 - roundoff) ^ 2 \<le> fl64 a + fl64 (fl64 b / s)"
    unfolding e distrib_right by (simp_all add: numeral_2_eq_2)
  have nn: "0 \<le> fl64 a + fl64 (fl64 b / s)" using fl64_nonneg n q by simp
  from fl64_up_pow [OF nn up] show "float_seconds d \<le> seconds d * (1 + roundoff) ^ 3" by (simp add: f eval_nat_numeral)
  from fl64_down_pow [OF nn down] show "seconds d * (1 - roundoff) ^ 3 \<le> float_seconds d" by (simp add: f eval_nat_numeral)
qed

lemma float_seconds_pos: "0 < d \<Longrightarrow> 0 < float_seconds d"
proof -
  assume d: "0 < d"
  have "0 < 1 - roundoff" using roundoff_simps(3) by simp
  then have "0 < seconds d * (1 - roundoff) ^ 3" using d by (simp add: seconds_def second_def)
  with float_seconds_bounds(2) [of d] d show ?thesis by simp
qed

lemma float_seconds_nonneg: "0 \<le> d \<Longrightarrow> 0 \<le> float_seconds d"
  using float_seconds_pos [of d] by (cases "d = 0") (simp_all add: float_seconds_def fl64_def second_def)

end
