(* ===== verification/Key_Limiter.thy ===== *)
theory Key_Limiter
  imports Go_Float Go_Strings Programs "HOL-Library.Multiset"
begin

text \<open>
  The token buckets that limit requests per key (\<^verbatim>\<open>internal/middleware/ratelimit.go\<close>), with their \<^verbatim>\<open>float64\<close>
  arithmetic, each operation rounded by itself. A request first looks its bucket up under the mutex of the map and
  then takes a token under the mutex of the bucket; between the two the collector may drop the bucket from the
  map, so buckets are objects of their own and the map refers to them. The clock is monotonic: instants read later
  are not earlier.
\<close>

section \<open>Buckets\<close>

record rate_limiter =
  rl_tokens :: rat
  rl_capacity :: rat
  rl_refill :: rat
  rl_last :: instant

definition take_token :: "instant \<Rightarrow> rate_limiter \<Rightarrow> bool \<times> rate_limiter" where
  "take_token now b =
    (let elapsed = float_seconds (time_sub now (rl_last b));
       tokens = fl64 (rl_tokens b + fl64 (elapsed * rl_refill b));
       tokens = (if tokens > rl_capacity b then rl_capacity b else tokens);
       b = b\<lparr>rl_last := now\<rparr>
     in if tokens \<ge> 1 then (True, b\<lparr>rl_tokens := fl64 (tokens - 1)\<rparr>) else (False, b\<lparr>rl_tokens := tokens\<rparr>))"

text \<open>
  The limiter: the map from keys to buckets, all buckets ever made, the constants, the tick of the collector while
  it holds the mutex of the map, and the last instant read.
\<close>

record rate_state =
  rs_buckets :: "(string \<times> nat) list"
  rs_heap :: "rate_limiter list"
  rs_burst :: int
  rs_rate :: rat
  rs_gc_after :: duration
  rs_collecting :: "instant option"
  rs_clock :: instant

definition minute :: duration where
  "minute = 60 * second"

definition new_key_limiter :: "int \<Rightarrow> duration \<Rightarrow> instant \<Rightarrow> rate_state" where
  "new_key_limiter burst window now =
    (let burst = (if burst < 1 then 1 else burst); window = (if window \<le> 0 then minute else window)
     in \<lparr>rs_buckets = [], rs_heap = [], rs_burst = burst, rs_rate = fl64 (fl64 (of_int burst) / float_seconds window),
         rs_gc_after = wrap64 (window * 10), rs_collecting = None, rs_clock = now\<rparr>)"

definition new_bucket :: "instant \<Rightarrow> rate_state \<Rightarrow> rate_limiter" where
  "new_bucket now s = \<lparr>rl_tokens = fl64 (of_int (rs_burst s)), rl_capacity = fl64 (of_int (rs_burst s)),
     rl_refill = rs_rate s, rl_last = now\<rparr>"

definition bucket_for :: "instant \<Rightarrow> string \<Rightarrow> rate_state \<Rightarrow> nat \<times> rate_state" where
  "bucket_for now key s = (case map_of (rs_buckets s) key of
     Some b \<Rightarrow> (b, s)
   | None \<Rightarrow> (length (rs_heap s), s\<lparr>rs_heap := rs_heap s @ [new_bucket now s],
       rs_buckets := (key, length (rs_heap s)) # rs_buckets s\<rparr>))"

text \<open>
  What the collector does with one key: it compares the bucket's last use with its tick and deletes the entry. A
  request that takes a token between the comparison and the deletion changes neither.
\<close>

definition gc_check :: "instant \<Rightarrow> string \<Rightarrow> rate_state \<Rightarrow> bool \<times> rate_state" where
  "gc_check tick key s = (case map_of (rs_buckets s) key of
     None \<Rightarrow> (False, s)
   | Some b \<Rightarrow> if time_sub tick (rl_last (rs_heap s ! b)) > rs_gc_after s
       then (True, s\<lparr>rs_buckets := filter (\<lambda>e. fst e \<noteq> key) (rs_buckets s)\<rparr>) else (False, s))"

section \<open>Calls\<close>

datatype rate_call = Bucket_For string | Take nat | Gc_Lock | Gc_Check string | Gc_Unlock
datatype rate_answer = Bucket nat | Verdict bool | Keys "string list" | Checked bool | Unlocked

text \<open>
  A turn brings the instant the call reads, or for the collector its tick and the order in which the map will be
  iterated. \<open>None\<close>: the call waits, or the clock would go back.
\<close>

datatype rate_turn = Now instant | Tick instant "string list"

fun rate_do :: "rate_turn \<Rightarrow> rate_call \<Rightarrow> rate_state \<Rightarrow> (rate_answer \<times> rate_state) option" where
  "rate_do (Now now) (Bucket_For key) s = (if now < rs_clock s \<or> rs_collecting s \<noteq> None then None
     else case bucket_for now key (s\<lparr>rs_clock := now\<rparr>) of (b, s') \<Rightarrow> Some (Bucket b, s'))"
| "rate_do (Now now) (Take b) s = (if now < rs_clock s \<or> length (rs_heap s) \<le> b then None
     else case take_token now (rs_heap s ! b) of (ok, l) \<Rightarrow>
       Some (Verdict ok, s\<lparr>rs_heap := (rs_heap s)[b := l], rs_clock := now\<rparr>))"
| "rate_do (Tick tick keys) Gc_Lock s = (if rs_collecting s \<noteq> None \<or> mset keys \<noteq> mset (map fst (rs_buckets s)) then None
     else Some (Keys keys, s\<lparr>rs_collecting := Some tick, rs_clock := max (rs_clock s) tick\<rparr>))"
| "rate_do (Now now) (Gc_Check key) s = (case rs_collecting s of None \<Rightarrow> None
     | Some tick \<Rightarrow> (case gc_check tick key s of (gone, s') \<Rightarrow> Some (Checked gone, s')))"
| "rate_do (Now now) Gc_Unlock s = Some (Unlocked, s\<lparr>rs_collecting := None\<rparr>)"
| "rate_do _ _ s = None"

section \<open>Keys, and the methods\<close>

text \<open>What the key functions read of a request: its client address, the user's id and the tenant in its context.\<close>

record rate_request =
  rq_addr :: string
  rq_user :: "string option"
  rq_tenant :: "string option"

definition per_ip :: "rate_request \<Rightarrow> string" where
  "per_ip r = rq_addr r"

definition per_user :: "rate_request \<Rightarrow> string" where
  "per_user r = (case rq_user r of None \<Rightarrow> [] | Some u \<Rightarrow> ''u:'' @ u)"

definition project_id_from_url :: "rate_request \<Rightarrow> string" where
  "project_id_from_url r = (case rq_tenant r of None \<Rightarrow> [] | Some pid \<Rightarrow> pid)"

definition per_project_and_user :: "rate_request \<Rightarrow> string" where
  "per_project_and_user r =
    (let pid = project_id_from_url r; uid = (case rq_user r of None \<Rightarrow> [] | Some u \<Rightarrow> u)
     in if pid = [] \<and> uid = [] then [] else ''p:'' @ pid @ ''/u:'' @ uid)"

definition per_project :: "rate_request \<Rightarrow> string" where
  "per_project r = (let pid = project_id_from_url r in if pid \<noteq> [] then ''p:'' @ pid else [])"

type_synonym rate_prog = "(rate_call, rate_answer, bool) prog"

definition allow_calls :: "string \<Rightarrow> rate_prog" where
  "allow_calls key = Act (Bucket_For key) (\<lambda>x. case x of
     Bucket b \<Rightarrow> Act (Take b) (\<lambda>y. Return (y = Verdict True))
   | _ \<Rightarrow> Return False)"

text \<open>\<open>RateLimit\<close>: whether the request goes on, or is answered 429.\<close>

definition rate_limit_calls :: "(rate_request \<Rightarrow> string) \<Rightarrow> rate_request \<Rightarrow> rate_prog" where
  "rate_limit_calls key_fn r = (let key = key_fn r in if key = [] then Return True else allow_calls key)"

text \<open>\<open>gcLoop\<close>, for any number of rounds.\<close>

primrec gc_checks :: "string list \<Rightarrow> (rate_call, rate_answer, unit) prog" where
  "gc_checks [] = Return ()"
| "gc_checks (key # keys) = Act (Gc_Check key) (\<lambda>_. gc_checks keys)"

definition gc_round :: "(rate_call, rate_answer, unit) prog" where
  "gc_round = bind_prog (ask Gc_Lock (\<lambda>x. case x of Keys keys \<Rightarrow> keys | _ \<Rightarrow> []))
     (\<lambda>keys. bind_prog (gc_checks keys) (\<lambda>_. ask Gc_Unlock (\<lambda>_. ())))"

primrec gc_loop :: "nat \<Rightarrow> rate_prog" where
  "gc_loop 0 = Return True"
| "gc_loop (Suc n) = bind_prog gc_round (\<lambda>_. gc_loop n)"

datatype rate_method = Allow string | Limited "rate_request \<Rightarrow> string" rate_request | Collector nat

fun rate_calls :: "rate_method \<Rightarrow> rate_prog" where
  "rate_calls (Allow key) = allow_calls key"
| "rate_calls (Limited key_fn r) = rate_limit_calls key_fn r"
| "rate_calls (Collector n) = gc_loop n"

text \<open>The key a method is limited by.\<close>

fun limited_by :: "rate_method \<Rightarrow> string option" where
  "limited_by (Allow key) = Some key"
| "limited_by (Limited key_fn r) = (if key_fn r = [] then None else Some (key_fn r))"
| "limited_by (Collector n) = None"

lemma limited_calls: "limited_by m = Some key \<Longrightarrow> rate_calls m = allow_calls key"
  by (cases m) (auto simp: rate_limit_calls_def split: if_splits)

section \<open>One take\<close>

text \<open>A rate that carries the roundings of elapsed time and refill.\<close>

definition rounded_rate :: "rat \<Rightarrow> rat" where
  "rounded_rate r = r * (1 + roundoff) ^ 4"

lemma time_sub_nonneg: "b \<le> a \<Longrightarrow> 0 \<le> time_sub a b \<and> time_sub a b \<le> a - b"
  by (auto simp: time_sub_def min_duration_def max_duration_def)

lemma seconds_mono: "a \<le> b \<Longrightarrow> seconds a \<le> seconds b"
  by (simp add: seconds_def second_def)

lemma refill_bound:
  assumes "l \<le> now" "0 \<le> r"
  shows "0 \<le> fl64 (float_seconds (time_sub now l) * r)"
    "fl64 (float_seconds (time_sub now l) * r) \<le> rounded_rate r * seconds (now - l)"
proof -
  define d where "d = time_sub now l"
  have d: "0 \<le> d" "d \<le> now - l" using time_sub_nonneg [OF assms(1)] by (simp_all add: d_def)
  have nn: "0 \<le> float_seconds d * r" using float_seconds_nonneg [OF d(1)] assms(2) by simp
  then show "0 \<le> fl64 (float_seconds (time_sub now l) * r)" unfolding d_def by (rule fl64_nonneg)
  have "seconds d * (1 + roundoff) ^ 3 \<le> seconds (now - l) * (1 + roundoff) ^ 3"
    using seconds_mono [OF d(2)] by (simp add: mult_right_mono)
  with float_seconds_bounds(1) [OF d(1)] have "float_seconds d * r \<le> seconds (now - l) * (1 + roundoff) ^ 3 * r"
    using assms(2) by (meson mult_right_mono order_trans)
  then have "float_seconds d * r \<le> seconds (now - l) * r * (1 + roundoff) ^ 3" by (simp only: ac_simps)
  from fl64_up_pow [OF nn this] show "fl64 (float_seconds (time_sub now l) * r) \<le> rounded_rate r * seconds (now - l)"
    by (simp add: d_def rounded_rate_def ac_simps eval_nat_numeral)
qed

lemma take_token_bounds:
  assumes "take_token now b = (ok, b')" "rl_last b \<le> now" "0 \<le> rl_tokens b" "0 \<le> rl_refill b" "0 \<le> rl_capacity b"
  defines "paid \<equiv> rl_tokens b' + of_bool ok"
  shows "rl_last b' = now" "rl_capacity b' = rl_capacity b" "rl_refill b' = rl_refill b" "0 \<le> rl_tokens b'"
    "paid \<le> rl_capacity b * (1 + roundoff)"
    "paid \<le> rl_tokens b + rounded_rate (rl_refill b) * seconds (now - rl_last b) + 2 * roundoff * rl_capacity b"
proof -
  define C where "C = rl_capacity b"
  define p where "p = fl64 (float_seconds (time_sub now (rl_last b)) * rl_refill b)"
  define y where "y = (if fl64 (rl_tokens b + p) > C then C else fl64 (rl_tokens b + p))"
  have tk: "take_token now b = (if y \<ge> 1 then (True, b\<lparr>rl_last := now, rl_tokens := fl64 (y - 1)\<rparr>)
      else (False, b\<lparr>rl_last := now, rl_tokens := y\<rparr>))"
    by (simp add: take_token_def Let_def p_def [symmetric] y_def C_def)
  then show "rl_last b' = now" "rl_capacity b' = rl_capacity b" "rl_refill b' = rl_refill b"
    using assms(1) by (auto split: if_splits)
  have p: "0 \<le> p" "p \<le> rounded_rate (rl_refill b) * seconds (now - rl_last b)"
    unfolding p_def by (rule refill_bound [OF assms(2,4)])+
  have C: "0 \<le> C" "y \<le> C" using assms(5) by (auto simp: C_def y_def)
  have s: "0 \<le> rl_tokens b + p" using p assms(3) by simp
  have y0: "0 \<le> y" using C fl64_nonneg [OF s] by (simp add: y_def)
  have "y \<le> rl_tokens b + p + roundoff * C"
  proof (cases "rl_tokens b + p \<le> C")
    case True
    have "y \<le> fl64 (rl_tokens b + p)" by (simp add: y_def)
    also have "... \<le> (rl_tokens b + p) * (1 + roundoff)" by (rule fl64_up [OF s])
    also have "... = rl_tokens b + p + roundoff * (rl_tokens b + p)" by (simp add: algebra_simps)
    also have "... \<le> rl_tokens b + p + roundoff * C" using True by (simp add: mult_left_mono)
    finally show ?thesis .
  next
    case False
    have "0 \<le> roundoff * C" using C by simp
    with False C show ?thesis by linarith
  qed
  moreover have paid: "paid \<le> y + roundoff * C"
  proof (cases "1 \<le> y")
    case True
    then have "paid = fl64 (y - 1) + 1" using assms(1) tk by (auto simp: paid_def)
    also have "... \<le> (y - 1) * (1 + roundoff) + 1" using fl64_up [of "y - 1"] True by simp
    also have "... = y + roundoff * (y - 1)" by (simp add: algebra_simps)
    also have "... \<le> y + roundoff * C" using C by (simp add: mult_left_mono)
    finally show ?thesis .
  next
    case False
    then show ?thesis using assms(1) tk C by (auto simp: paid_def)
  qed
  ultimately show "paid \<le> rl_tokens b + rounded_rate (rl_refill b) * seconds (now - rl_last b) + 2 * roundoff * rl_capacity b"
    using p(2) by (simp add: C_def)
  show "paid \<le> rl_capacity b * (1 + roundoff)" using paid C(2) by (simp add: C_def algebra_simps)
  show "0 \<le> rl_tokens b'" using assms(1) tk y0 fl64_nonneg [of "y - 1"] by (auto split: if_splits)
qed

end
