(* ===== verification/Key_Limiter_Correct.thy ===== *)
theory Key_Limiter_Correct
  imports Key_Limiter
begin

text \<open>
  How many requests a key gets through in a window of time, however requests and the collector interleave and
  with the roundings of the code; and a run in which collection lets a key have two full buckets at once.
\<close>

section \<open>What a run has done\<close>

type_synonym rate_event = "(rate_call, rate_answer) event"

text \<open>The threads a bucket let through, the number of takes from it, the buckets a key was given, and how often it lost one.\<close>

definition admitted :: "nat \<Rightarrow> rate_event list \<Rightarrow> nat set" where
  "admitted b es = {i. (i, Take b, Verdict True) \<in> set es}"

definition takes_of :: "nat \<Rightarrow> rate_event list \<Rightarrow> nat" where
  "takes_of b es = length (filter (\<lambda>(i, a, x). a = Take b) es)"

fun is_take :: "rate_call \<Rightarrow> bool" where
  "is_take (Take b) = True"
| "is_take _ = False"

definition takes :: "rate_event list \<Rightarrow> nat" where
  "takes es = length (filter (\<lambda>(i, a, x). is_take a) es)"

definition issued :: "string \<Rightarrow> rate_event list \<Rightarrow> nat set" where
  "issued key es = {b. \<exists>i. (i, Bucket_For key, Bucket b) \<in> set es}"

definition collections :: "string \<Rightarrow> rate_event list \<Rightarrow> nat" where
  "collections key es = length (filter (\<lambda>(i, a, x). a = Gc_Check key \<and> x = Checked True) es)"

lemmas counts = takes_of_def takes_def collections_def

lemma finite_admitted [simp]: "finite (admitted b es)"
proof (rule finite_subset)
  show "admitted b es \<subseteq> fst ` set es" unfolding admitted_def by force
qed simp

lemma issued_snoc: "issued key (es @ [(i, a, x)]) = issued key es \<union> (if a = Bucket_For key then {b. x = Bucket b} else {})"
  by (auto simp: issued_def)

lemma finite_issued [simp]: "finite (issued key es)"
proof (induction es rule: rev_induct)
  case (snoc e es)
  have "finite {b. x = Bucket b}" for x by (rule finite_subset [of _ "case x of Bucket b \<Rightarrow> {b} | _ \<Rightarrow> {}"]) (auto split: rate_answer.split)
  with snoc show ?case by (cases e) (simp add: issued_snoc)
qed (simp add: issued_def)

lemma admitted_snoc: "admitted b (es @ [(i, a, x)]) = (if a = Take b \<and> x = Verdict True then insert i (admitted b es) else admitted b es)"
  by (auto simp: admitted_def)

lemma takes_of_snoc: "takes_of b (es @ [(i, a, x)]) = takes_of b es + of_bool (a = Take b)"
  by (simp add: takes_of_def)

lemma takes_snoc: "takes (es @ [(i, a, x)]) = takes es + of_bool (is_take a)"
  by (simp add: takes_def)

lemma sum_takes: "finite B \<Longrightarrow> (\<Sum>b \<in> B. takes_of b es) \<le> takes es"
proof (induction es rule: rev_induct)
  case (snoc e es)
  obtain i a x where e: "e = (i, a, x)" by (rule prod_cases3)
  have "(\<Sum>b \<in> B. of_bool (a = Take b) :: nat) \<le> of_bool (is_take a)"
  proof (cases "\<exists>b. a = Take b")
    case True
    then obtain c where "a = Take c" by blast
    then show ?thesis using snoc.prems by (simp add: of_bool_def sum.delta)
  qed auto
  with snoc show ?case by (simp add: e takes_of_snoc takes_snoc sum.distrib)
qed (simp add: takes_of_def)

section \<open>Buckets in a window\<close>

definition burst_tokens :: "rate_state \<Rightarrow> rat" where
  "burst_tokens s = fl64 (of_int (rs_burst s))"

definition bucket_ok :: "rate_state \<Rightarrow> rate_limiter \<Rightarrow> bool" where
  "bucket_ok s b \<longleftrightarrow> 0 \<le> rl_tokens b \<and> rl_tokens b \<le> burst_tokens s * (1 + roundoff) \<and> rl_capacity b = burst_tokens s \<and>
    rl_refill b = rs_rate s \<and> rl_last b \<le> rs_clock s"

definition rate_ok :: "rate_state \<Rightarrow> bool" where
  "rate_ok s \<longleftrightarrow> 1 \<le> rs_burst s \<and> 0 \<le> rs_rate s \<and> (\<forall>b \<in> set (rs_heap s). bucket_ok s b)"

text \<open>What a bucket has given since \<open>w\<close> and still holds is what it had at most, what flowed in, and the roundings.\<close>

definition bucket_paid :: "rate_state \<Rightarrow> rate_event list \<Rightarrow> rate_state \<Rightarrow> nat \<Rightarrow> bool" where
  "bucket_paid w es s b \<longleftrightarrow> (0 < takes_of b es \<longrightarrow> rs_clock w \<le> rl_last (rs_heap s ! b)) \<and>
    of_nat (card (admitted b es)) + rl_tokens (rs_heap s ! b) \<le> burst_tokens s +
      rounded_rate (rs_rate s) * seconds (max (rl_last (rs_heap s ! b)) (rs_clock w) - rs_clock w) +
      2 * roundoff * burst_tokens s * of_nat (takes_of b es + 1)"

text \<open>A key is given a new bucket only after it lost the one it had.\<close>

definition keys_inv :: "rate_event list \<Rightarrow> rate_state \<Rightarrow> bool" where
  "keys_inv es s \<longleftrightarrow> (\<forall>key. card (issued key es \<union> set_option (map_of (rs_buckets s) key))
     \<le> collections key es + of_bool (map_of (rs_buckets s) key \<noteq> None))"

definition window_inv :: "rate_state \<Rightarrow> rate_event list \<Rightarrow> rate_state \<Rightarrow> bool" where
  "window_inv w es s \<longleftrightarrow> rate_ok s \<and> rs_burst s = rs_burst w \<and> rs_rate s = rs_rate w \<and> rs_clock w \<le> rs_clock s \<and>
    (\<forall>b. length (rs_heap s) \<le> b \<longrightarrow> takes_of b es = 0 \<and> admitted b es = {}) \<and>
    (\<forall>b < length (rs_heap s). bucket_paid w es s b) \<and> keys_inv es s"

lemma burst_tokens_nonneg: "rate_ok s \<Longrightarrow> 0 \<le> burst_tokens s"
  by (simp add: rate_ok_def burst_tokens_def fl64_nonneg)

lemma window_start: "rate_ok w \<Longrightarrow> window_inv w [] w"
proof -
  assume ok: "rate_ok w"
  have "bucket_paid w [] w b" if "b < length (rs_heap w)" for b
  proof -
    have "bucket_ok w (rs_heap w ! b)" using ok that by (simp add: rate_ok_def)
    moreover have "0 \<le> burst_tokens w * roundoff" using burst_tokens_nonneg [OF ok] by simp
    ultimately show ?thesis
      by (simp add: bucket_paid_def bucket_ok_def counts admitted_def seconds_def algebra_simps)
  qed
  with ok show ?thesis by (auto simp: window_inv_def keys_inv_def counts admitted_def issued_def)
qed

lemma bucket_ok_later: "bucket_ok s b \<Longrightarrow> rs_burst s' = rs_burst s \<Longrightarrow> rs_rate s' = rs_rate s \<Longrightarrow> rs_clock s \<le> rs_clock s' \<Longrightarrow> bucket_ok s' b"
  by (auto simp: bucket_ok_def burst_tokens_def)

text \<open>A call that takes no token.\<close>

lemma paid_later:
  assumes "bucket_paid w es s b" "\<not> is_take a" "rs_burst s' = rs_burst s" "rs_rate s' = rs_rate s"
    and "rs_heap s' ! b = rs_heap s ! b"
  shows "bucket_paid w (es @ [(i, a, x)]) s' b"
  using assms by (cases a) (simp_all add: bucket_paid_def takes_of_snoc admitted_snoc burst_tokens_def)

lemma quiet_window:
  assumes "window_inv w es s" "\<not> is_take a" "rs_burst s' = rs_burst s" "rs_rate s' = rs_rate s" "rs_heap s' = rs_heap s"
    and "rs_clock s \<le> rs_clock s'"
    and "keys_inv (es @ [(i, a, x)]) s'"
  shows "window_inv w (es @ [(i, a, x)]) s'"
proof -
  have n: "takes_of b (es @ [(i, a, x)]) = takes_of b es" "admitted b (es @ [(i, a, x)]) = admitted b es" for b
    using assms(2) by (cases a; simp add: takes_of_snoc admitted_snoc)+
  show ?thesis using assms(1,3-7) paid_later [OF _ assms(2)] bucket_ok_later [of s _ s']
    unfolding window_inv_def rate_ok_def n by auto
qed

lemma keys_quiet:
  assumes "keys_inv es s" "rs_buckets s' = rs_buckets s" "x \<noteq> Checked True"
    and "\<And>key b. a = Bucket_For key \<Longrightarrow> x = Bucket b \<Longrightarrow> map_of (rs_buckets s) key = Some b"
  shows "keys_inv (es @ [(i, a, x)]) s'"
  unfolding keys_inv_def
proof
  fix key
  have "issued key (es @ [(i, a, x)]) \<union> set_option (map_of (rs_buckets s) key) = issued key es \<union> set_option (map_of (rs_buckets s) key)"
    using assms(4) [of key] by (auto simp: issued_snoc)
  moreover have "collections key (es @ [(i, a, x)]) = collections key es" using assms(3) by (simp add: collections_def)
  ultimately show "card (issued key (es @ [(i, a, x)]) \<union> set_option (map_of (rs_buckets s') key))
      \<le> collections key (es @ [(i, a, x)]) + of_bool (map_of (rs_buckets s') key \<noteq> None)"
    using assms(1) by (simp add: keys_inv_def assms(2))
qed

lemma keys_bucket:
  assumes "keys_inv es s" "map_of (rs_buckets s) key = None" "rs_buckets s' = (key, b) # rs_buckets s"
  shows "keys_inv (es @ [(i, Bucket_For key, Bucket b)]) s'"
  unfolding keys_inv_def
proof
  fix k
  have c: "collections k (es @ [(i, Bucket_For key, Bucket b)]) = collections k es" by (simp add: collections_def)
  have old: "card (issued k es \<union> set_option (map_of (rs_buckets s) k)) \<le> collections k es + of_bool (map_of (rs_buckets s) k \<noteq> None)"
    using assms(1) by (simp add: keys_inv_def)
  show "card (issued k (es @ [(i, Bucket_For key, Bucket b)]) \<union> set_option (map_of (rs_buckets s') k))
      \<le> collections k (es @ [(i, Bucket_For key, Bucket b)]) + of_bool (map_of (rs_buckets s') k \<noteq> None)"
  proof (cases "k = key")
    case True
    have "issued key (es @ [(i, Bucket_For key, Bucket b)]) \<union> set_option (map_of (rs_buckets s') key) = insert b (issued key es)"
      by (auto simp: issued_snoc assms(3))
    with old True assms(2,3) c show ?thesis by (simp add: card_insert_if)
  next
    case False
    then have "issued k (es @ [(i, Bucket_For key, Bucket b)]) = issued k es" by (simp add: issued_snoc)
    with old False assms(3) c show ?thesis by simp
  qed
qed

lemma keys_gc:
  assumes "keys_inv es s" "gc_check tick key s = (gone, s')"
  shows "keys_inv (es @ [(i, Gc_Check key, Checked gone)]) s'"
proof (cases gone)
  case False
  with assms(2) have "s' = s" by (auto simp: gc_check_def split: option.splits if_splits)
  with False show ?thesis by (intro keys_quiet [OF assms(1)]) simp_all
next
  case True
  with assms(2) have s': "rs_buckets s' = filter (\<lambda>e. fst e \<noteq> key) (rs_buckets s)" and some: "map_of (rs_buckets s) key \<noteq> None"
    by (auto simp: gc_check_def split: option.splits if_splits)
  have f: "map_of (filter (\<lambda>e. fst e \<noteq> key) xs) k = (if k = key then None else map_of xs k)" for k and xs :: "(string \<times> nat) list"
    by (induction xs) auto
  show ?thesis unfolding keys_inv_def
  proof
    fix k
    have old: "card (issued k es \<union> set_option (map_of (rs_buckets s) k)) \<le> collections k es + of_bool (map_of (rs_buckets s) k \<noteq> None)"
      using assms(1) by (simp add: keys_inv_def)
    have i: "issued k (es @ [(i, Gc_Check key, Checked gone)]) = issued k es" by (simp add: issued_snoc)
    have c: "collections k (es @ [(i, Gc_Check key, Checked gone)]) = collections k es + of_bool (k = key)"
      using True by (simp add: collections_def)
    have "card (issued k es) \<le> card (issued k es \<union> set_option (map_of (rs_buckets s) k))" by (intro card_mono) simp_all
    with old some show "card (issued k (es @ [(i, Gc_Check key, Checked gone)]) \<union> set_option (map_of (rs_buckets s') k))
      \<le> collections k (es @ [(i, Gc_Check key, Checked gone)]) + of_bool (map_of (rs_buckets s') k \<noteq> None)"
      unfolding i c s' f by (cases "k = key") auto
  qed
qed

lemma window_keys: "window_inv w es s \<Longrightarrow> keys_inv es s"
  by (simp add: window_inv_def)

lemma bucket_window:
  assumes inv: "window_inv w es s" and do: "rate_do (Now now) (Bucket_For key) s = Some (x, s')"
  shows "window_inv w (es @ [(i, Bucket_For key, x)]) s'"
proof (cases "map_of (rs_buckets s) key")
  case (Some b)
  with do have s': "x = Bucket b" "s' = s\<lparr>rs_clock := now\<rparr>" "rs_clock s \<le> now"
    by (auto simp: bucket_for_def split: if_splits)
  with Some show ?thesis by (intro quiet_window [OF inv] keys_quiet [OF window_keys [OF inv]]) simp_all
next
  case None
  let ?h = "rs_heap s" and ?e = "(i, Bucket_For key, x)"
  from None do have s': "x = Bucket (length ?h)" "rs_heap s' = ?h @ [new_bucket now s]" "rs_clock s' = now" "rs_clock s \<le> now"
    "rs_burst s' = rs_burst s" "rs_rate s' = rs_rate s" "rs_buckets s' = (key, length ?h) # rs_buckets s"
    by (auto simp: bucket_for_def new_bucket_def split: if_splits)
  have n: "takes_of b (es @ [?e]) = takes_of b es" "admitted b (es @ [?e]) = admitted b es" for b
    by (simp_all add: takes_of_snoc admitted_snoc)
  have C: "0 \<le> burst_tokens s" using inv by (simp add: window_inv_def burst_tokens_nonneg)
  have fresh: "bucket_ok s' (new_bucket now s)" using C s'(3,5,6)
    by (simp add: bucket_ok_def new_bucket_def burst_tokens_def algebra_simps)
  have old: "bucket_ok s' b" if "b \<in> set ?h" for b
    using inv that bucket_ok_later [of s b s'] s'(3-6) by (auto simp: window_inv_def rate_ok_def)
  have ok: "rate_ok s'" using inv old fresh s'(2,5,6) by (auto simp: window_inv_def rate_ok_def)
  have paid: "bucket_paid w (es @ [?e]) s' b" if "b < length (rs_heap s')" for b
  proof (cases "b < length ?h")
    case True
    with inv s' show ?thesis
      by (intro paid_later [of w es s]) (simp_all add: window_inv_def nth_append)
  next
    case False
    with that s'(2) have b: "b = length ?h" by simp
    have c: "0 \<le> rounded_rate (rs_rate s) * seconds (max now (rs_clock w) - rs_clock w)"
      using inv by (simp add: window_inv_def rate_ok_def rounded_rate_def seconds_def second_def)
    have "takes_of b es = 0" "admitted b es = {}" using inv b by (simp_all add: window_inv_def)
    moreover have "0 \<le> roundoff * burst_tokens s" using C by simp
    ultimately show ?thesis using c
      by (simp add: bucket_paid_def n s'(2,5,6) b nth_append new_bucket_def burst_tokens_def)
  qed
  have card: "keys_inv (es @ [?e]) s'"
    unfolding s'(1) by (rule keys_bucket [OF window_keys [OF inv] None s'(7)])
  have "\<forall>b \<ge> length (rs_heap s'). takes_of b (es @ [?e]) = 0 \<and> admitted b (es @ [?e]) = {}"
    using inv s'(2) unfolding n by (simp add: window_inv_def)
  with ok paid card inv s'(3-6) show ?thesis unfolding window_inv_def by simp
qed

lemma take_window:
  assumes inv: "window_inv w es s" and do: "rate_do (Now now) (Take b) s = Some (x, s')"
  shows "window_inv w (es @ [(i, Take b, x)]) s'"
proof -
  let ?h = "rs_heap s" and ?e = "(i, Take b, x)" and ?C = "burst_tokens s"
  from do obtain ok l where tk: "take_token now (?h ! b) = (ok, l)" and b: "b < length ?h" and t: "rs_clock s \<le> now"
    and x: "x = Verdict ok" and s': "s' = s\<lparr>rs_heap := ?h[b := l], rs_clock := now\<rparr>"
    by (auto split: if_splits prod.splits)
  have bo: "bucket_ok s (?h ! b)" and rate: "0 \<le> rs_rate s" using inv b by (auto simp: window_inv_def rate_ok_def)
  have C: "0 \<le> ?C" using inv by (simp add: window_inv_def burst_tokens_nonneg)
  have pre: "rl_last (?h ! b) \<le> now" "0 \<le> rl_tokens (?h ! b)" "0 \<le> rl_refill (?h ! b)" "0 \<le> rl_capacity (?h ! b)"
    and cr: "rl_capacity (?h ! b) = ?C" "rl_refill (?h ! b) = rs_rate s"
    using bo t rate C by (auto simp: bucket_ok_def)
  note bounds = take_token_bounds [OF tk pre, unfolded cr]
  have clock: "rs_clock w \<le> now" using inv t by (auto simp: window_inv_def)
  have nn: "0 \<le> rounded_rate (rs_rate s) * seconds d" if "0 \<le> d" for d
    using rate that by (simp add: rounded_rate_def seconds_def second_def)
  have paid_b: "bucket_paid w (es @ [?e]) s' b"
  proof -
    have card: "of_nat (card (admitted b (es @ [?e]))) \<le> (of_nat (card (admitted b es)) + of_bool ok :: rat)"
      by (cases ok) (simp_all add: admitted_snoc x card_insert_if)
    have "of_nat (card (admitted b es)) + (rl_tokens l + of_bool ok) \<le> ?C + rounded_rate (rs_rate s) * seconds (now - rs_clock w)
        + 2 * roundoff * ?C * of_nat (takes_of b es + 2)"
    proof (cases "takes_of b es = 0")
      case True
      then have "admitted b es = {}" by (auto simp: takes_of_def admitted_def filter_empty_conv)
      have "rl_tokens l + of_bool ok \<le> ?C + roundoff * ?C" using bounds(5) by (simp add: algebra_simps)
      moreover have "0 \<le> rounded_rate (rs_rate s) * seconds (now - rs_clock w)" using nn clock by simp
      moreover have "roundoff * ?C \<le> 2 * roundoff * ?C * of_nat (takes_of b es + 2)" using C True by simp
      moreover have "of_nat (card (admitted b es)) = (0 :: rat)" using \<open>admitted b es = {}\<close> by simp
      ultimately show ?thesis by linarith
    next
      case False
      have l: "rs_clock w \<le> rl_last (?h ! b)" and p: "of_nat (card (admitted b es)) + rl_tokens (?h ! b)
          \<le> ?C + rounded_rate (rs_rate s) * seconds (rl_last (?h ! b) - rs_clock w) + 2 * roundoff * ?C * of_nat (takes_of b es + 1)"
        using inv b False by (auto simp: window_inv_def bucket_paid_def max_def)
      have "rounded_rate (rs_rate s) * seconds (now - rl_last (?h ! b)) + rounded_rate (rs_rate s) * seconds (rl_last (?h ! b) - rs_clock w)
          = rounded_rate (rs_rate s) * seconds (now - rs_clock w)"
        by (simp add: seconds_def algebra_simps add_divide_distrib [symmetric] diff_divide_distrib)
      moreover have "2 * roundoff * ?C * of_nat (takes_of b es + 2) = 2 * roundoff * ?C * of_nat (takes_of b es + 1) + 2 * roundoff * ?C"
        by (simp add: algebra_simps)
      ultimately show ?thesis using p bounds(6) by linarith
    qed
    with card have "of_nat (card (admitted b (es @ [?e]))) + rl_tokens l \<le> ?C + rounded_rate (rs_rate s) * seconds (now - rs_clock w)
        + 2 * roundoff * ?C * of_nat (takes_of b es + 2)" by linarith
    then show ?thesis using b clock bounds(1) by (simp add: bucket_paid_def s' takes_of_snoc burst_tokens_def max_def)
  qed
  have other: "bucket_paid w (es @ [?e]) s' c" if "c < length ?h" "c \<noteq> b" for c
  proof -
    have "bucket_paid w es s c" using inv that by (simp add: window_inv_def)
    with that show ?thesis by (simp add: bucket_paid_def s' takes_of_snoc admitted_snoc burst_tokens_def)
  qed
  have "0 \<le> (of_bool ok :: rat)" by simp
  then have "rl_tokens l \<le> ?C * (1 + roundoff)" using bounds(5) by linarith
  then have "bucket_ok s' l" using bounds(1-4) by (simp add: bucket_ok_def s' burst_tokens_def)
  moreover have "bucket_ok s' c" if "c \<in> set ?h" for c
    using inv that bucket_ok_later [of s c s'] t by (auto simp: window_inv_def rate_ok_def s')
  ultimately have "rate_ok s'" using inv by (auto simp: window_inv_def rate_ok_def s' dest!: subsetD [OF set_update_subset_insert])
  moreover have "c \<ge> length ?h \<Longrightarrow> takes_of c (es @ [?e]) = 0 \<and> admitted c (es @ [?e]) = {}" for c
    using inv b by (auto simp: window_inv_def takes_of_snoc admitted_snoc)
  moreover have "\<forall>c < length ?h. bucket_paid w (es @ [?e]) s' c" using paid_b other by blast
  moreover have "keys_inv (es @ [?e]) s'" by (rule keys_quiet [OF window_keys [OF inv]]) (simp_all add: s' x)
  ultimately show ?thesis using inv clock
    unfolding window_inv_def by (simp add: s')
qed

lemma gc_window:
  assumes inv: "window_inv w es s" and g: "gc_check tick key s = (gone, s')"
  shows "window_inv w (es @ [(i, Gc_Check key, Checked gone)]) s'"
proof (rule quiet_window [OF inv])
  show "rs_burst s' = rs_burst s" "rs_rate s' = rs_rate s" "rs_heap s' = rs_heap s" "rs_clock s \<le> rs_clock s'"
    using g by (auto simp: gc_check_def split: option.splits if_splits)
  show "keys_inv (es @ [(i, Gc_Check key, Checked gone)]) s'" by (rule keys_gc [OF window_keys [OF inv] g])
qed simp

lemma window_step:
  assumes inv: "window_inv w es s" and d: "may_perform rate_do s a x s'"
  shows "window_inv w (es @ [(i, a, x)]) s'"
proof -
  from d obtain c where c: "rate_do c a s = Some (x, s')" by (auto simp: may_perform_def)
  then show ?thesis
  proof (cases c)
    case (Now now)
    show ?thesis
    proof (cases a)
      case (Gc_Check key)
      with c Now obtain tick gone where "gc_check tick key s = (gone, s')" "x = Checked gone"
        by (auto split: option.splits prod.splits)
      then show ?thesis unfolding Gc_Check by (simp add: gc_window [OF inv])
    next
      case Gc_Unlock
      with c Now show ?thesis by (intro quiet_window [OF inv] keys_quiet [OF window_keys [OF inv]]) auto
    qed (use c Now in \<open>auto intro: bucket_window [OF inv] take_window [OF inv]\<close>)
  next
    case (Tick tick keys)
    with c have "a = Gc_Lock" by (cases a) auto
    with c Tick show ?thesis
      by (intro quiet_window [OF inv] keys_quiet [OF window_keys [OF inv]]) (auto split: if_splits)
  qed
qed

interpretation rate_runs: protocol "may_perform rate_do" "\<lambda>_ _ _. True" "window_inv w" for w
  by unfold_locales (rule window_step)

lemma obeys_all: "obeys (\<lambda>_ _. True) p h"
  by (induction p arbitrary: h) simp_all

lemma window_run:
  assumes "runs (may_perform rate_do) (P, w) es (Q, v)" "rate_ok w"
  shows "window_inv w es v"
  by (rule rate_runs.runs_inv [OF assms(1) window_start [OF assms(2)]]) (rule obeys_all)

section \<open>A key in a window\<close>

text \<open>The requests limited by \<open>key\<close> that had not begun after \<open>es\<close> and are let through at the end.\<close>

definition passed :: "rate_prog \<Rightarrow> bool" where
  "passed p = (case p of Return r \<Rightarrow> r | Act a k \<Rightarrow> False)"

definition let_through :: "string \<Rightarrow> rate_method list \<Rightarrow> rate_event list \<Rightarrow> rate_prog list \<Rightarrow> nat" where
  "let_through key ms es Q =
     length (filter (\<lambda>i. limited_by (ms ! i) = Some key \<and> own i es = [] \<and> passed (Q ! i)) [0..<length ms])"

lemma passed_iff: "passed p \<longleftrightarrow> p = Return True"
  by (cases p) (simp_all add: passed_def)

lemma allow_follow:
  assumes "follow (allow_calls key) es = Some (Return True)"
  shows "\<exists>b. es = [(Bucket_For key, Bucket b), (Take b, Verdict True)]"
proof -
  from assms obtain x gs where x: "es = (Bucket_For key, x) # gs"
    "follow (case x of Bucket b \<Rightarrow> Act (Take b) (\<lambda>y. Return (y = Verdict True)) | _ \<Rightarrow> Return False) gs = Some (Return True)"
    unfolding allow_calls_def follow_Act_Return by blast
  from x(2) obtain b where "x = Bucket b" "follow (Act (Take b) (\<lambda>y. Return (y = Verdict True))) gs = Some (Return True)"
    by (cases x) (auto simp: follow_Return)
  then show ?thesis using x(1) by (auto simp: follow_Act_Return follow_Return)
qed

lemma let_through_admitted:
  assumes "runs perf (map rate_calls ms, w0) es1 (P, w)" "runs perf (P, w) es2 (Q, v)"
  shows "let_through key ms es1 Q \<le> (\<Sum>b \<in> issued key es2. card (admitted b es2))"
proof -
  let ?I = "{i. i < length ms \<and> limited_by (ms ! i) = Some key \<and> own i es1 = [] \<and> passed (Q ! i)}"
  have "?I \<subseteq> (\<Union>b \<in> issued key es2. admitted b es2)"
  proof
    fix i assume "i \<in> ?I"
    then have i: "i < length ms" "limited_by (ms ! i) = Some key" "own i es1 = []" "Q ! i = Return True" by (auto simp: passed_iff)
    from runs_follow [OF assms(1)] i have "length P = length ms" "P ! i = allow_calls key" by (auto simp: limited_calls)
    with runs_follow [OF assms(2)] i have "follow (allow_calls key) (own i es2) = Some (Return True)" by auto
    then obtain b where "own i es2 = [(Bucket_For key, Bucket b), (Take b, Verdict True)]" using allow_follow by blast
    then have "(i, Bucket_For key, Bucket b) \<in> set es2" "(i, Take b, Verdict True) \<in> set es2" by (simp_all add: own_mem)
    then show "i \<in> (\<Union>b \<in> issued key es2. admitted b es2)" by (auto simp: issued_def admitted_def)
  qed
  then have "card ?I \<le> card (\<Union>b \<in> issued key es2. admitted b es2)" by (intro card_mono) simp_all
  also have "... \<le> (\<Sum>b \<in> issued key es2. card (admitted b es2))" by (intro card_UN_le) simp
  finally have "card ?I \<le> (\<Sum>b \<in> issued key es2. card (admitted b es2))" .
  moreover have "card ?I = let_through key ms es1 Q"
  proof -
    have "?I = set (filter (\<lambda>i. limited_by (ms ! i) = Some key \<and> own i es1 = [] \<and> passed (Q ! i)) [0..<length ms])" by auto
    also have "card ... = let_through key ms es1 Q" unfolding let_through_def by (intro distinct_card distinct_filter distinct_upt)
    finally show ?thesis .
  qed
  ultimately show ?thesis by simp
qed

lemma bucket_admits:
  assumes inv: "window_inv w es v"
  shows "of_nat (card (admitted b es)) \<le> burst_tokens v + rounded_rate (rs_rate v) * seconds (rs_clock v - rs_clock w) +
    2 * roundoff * burst_tokens v * of_nat (takes_of b es + 1)"
proof -
  have ok: "rate_ok v" and C: "0 \<le> burst_tokens v" and r: "0 \<le> rounded_rate (rs_rate v)" and clock: "rs_clock w \<le> rs_clock v"
    using inv by (simp_all add: window_inv_def burst_tokens_nonneg) (simp add: rate_ok_def rounded_rate_def)
  show ?thesis
  proof (cases "b < length (rs_heap v)")
    case True
    then have b: "bucket_ok v (rs_heap v ! b)" "bucket_paid w es v b" using inv ok by (simp_all add: window_inv_def rate_ok_def)
    have "seconds (max (rl_last (rs_heap v ! b)) (rs_clock w) - rs_clock w) \<le> seconds (rs_clock v - rs_clock w)"
      using b(1) clock by (intro seconds_mono) (simp add: bucket_ok_def)
    from mult_left_mono [OF this r] b show ?thesis unfolding bucket_ok_def bucket_paid_def by linarith
  next
    case False
    with inv have "admitted b es = {}" by (simp add: window_inv_def)
    moreover have "0 \<le> rounded_rate (rs_rate v) * seconds (rs_clock v - rs_clock w)"
      using r clock by (simp add: seconds_def second_def)
    moreover have "0 \<le> 2 * roundoff * burst_tokens v * of_nat (takes_of b es + 1)" using C by simp
    ultimately show ?thesis using C by simp
  qed
qed

lemma key_admits:
  assumes inv: "window_inv w es v"
  shows "of_nat (\<Sum>b \<in> issued key es. card (admitted b es)) \<le> of_nat (1 + collections key es) *
      (burst_tokens v * (1 + 2 * roundoff) + rounded_rate (rs_rate v) * seconds (rs_clock v - rs_clock w)) +
    2 * roundoff * burst_tokens v * of_nat (takes es)"
proof -
  define A where "A = burst_tokens v * (1 + 2 * roundoff) + rounded_rate (rs_rate v) * seconds (rs_clock v - rs_clock w)"
  define e where "e = 2 * roundoff * burst_tokens v"
  have ok: "rate_ok v" and C: "0 \<le> burst_tokens v" and clock: "rs_clock w \<le> rs_clock v"
    using inv by (simp_all add: window_inv_def burst_tokens_nonneg)
  have A: "0 \<le> A" and e: "0 \<le> e"
    using ok C clock by (simp_all add: A_def e_def rate_ok_def rounded_rate_def seconds_def second_def)
  have "of_nat (card (admitted b es)) \<le> A + e * of_nat (takes_of b es)" for b
    using bucket_admits [OF inv, of b] by (simp add: A_def e_def algebra_simps)
  then have "of_nat (\<Sum>b \<in> issued key es. card (admitted b es)) \<le> (\<Sum>b \<in> issued key es. A + e * of_nat (takes_of b es))"
    unfolding of_nat_sum by (intro sum_mono)
  also have "... = of_nat (card (issued key es)) * A + e * of_nat (\<Sum>b \<in> issued key es. takes_of b es)"
    by (simp add: sum.distrib sum_distrib_left)
  also have "... \<le> of_nat (1 + collections key es) * A + e * of_nat (takes es)"
  proof (intro add_mono mult_right_mono mult_left_mono A e)
    have "card (issued key es) \<le> card (issued key es \<union> set_option (map_of (rs_buckets v) key))" by (intro card_mono) simp_all
    also have "... \<le> collections key es + of_bool (map_of (rs_buckets v) key \<noteq> None)"
      using window_keys [OF inv] by (simp add: keys_inv_def)
    also have "... \<le> 1 + collections key es" by simp
    finally show "of_nat (card (issued key es)) \<le> (of_nat (1 + collections key es) :: rat)" by (simp only: of_nat_le_iff)
    show "of_nat (\<Sum>b \<in> issued key es. takes_of b es) \<le> (of_nat (takes es) :: rat)" by (simp only: of_nat_le_iff sum_takes finite_issued)
  qed
  finally show ?thesis by (simp only: A_def e_def)
qed

text \<open>The slack that covers the roundings of one take and of the rate.\<close>

definition slack :: rat where
  "slack = 1 / 2 ^ 48"

lemma rate_roundings: "(1 + roundoff) ^ 6 / (1 - roundoff) ^ 3 \<le> 1 + slack"
  by (simp add: roundoff_def slack_def power_divide)

lemma new_limiter_ok:
  assumes "1 \<le> burst" "0 < window"
  shows "rate_ok (new_key_limiter burst window now)"
    and "burst_tokens (new_key_limiter burst window now) \<le> of_int burst * (1 + roundoff)"
    and "rounded_rate (rs_rate (new_key_limiter burst window now)) \<le> (1 + slack) * of_int burst / seconds window"
proof -
  let ?C = "fl64 (of_int burst)" and ?W = "float_seconds window" and ?s = "new_key_limiter burst window now"
  have b: "(0 :: rat) \<le> of_int burst" using assms by simp
  have s: "rs_burst ?s = burst" "rs_rate ?s = fl64 (?C / ?W)" "rs_heap ?s = []"
    using assms by (simp_all add: new_key_limiter_def)
  have C: "0 \<le> ?C" "?C \<le> of_int burst * (1 + roundoff)" using b by (simp_all add: fl64_nonneg fl64_up)
  have W: "0 < ?W" "seconds window * (1 - roundoff) ^ 3 \<le> ?W" using assms float_seconds_pos float_seconds_bounds(2) by simp_all
  have sw: "0 < seconds window" using assms by (simp add: seconds_def second_def)
  have w: "0 < seconds window * (1 - roundoff) ^ 3" using sw roundoff_simps(3) by simp
  show "rate_ok ?s" using assms s C W by (simp add: rate_ok_def fl64_nonneg)
  show "burst_tokens ?s \<le> of_int burst * (1 + roundoff)" using C s by (simp add: burst_tokens_def)
  have "?C / ?W \<le> of_int burst * (1 + roundoff) / (seconds window * (1 - roundoff) ^ 3)" using C W w b by (intro frac_le) simp_all
  then have "?C / ?W \<le> of_int burst / (seconds window * (1 - roundoff) ^ 3) * (1 + roundoff) ^ 1" by simp
  from fl64_up_pow [OF _ this] C W have "rs_rate ?s \<le> of_int burst / (seconds window * (1 - roundoff) ^ 3) * (1 + roundoff) ^ 2"
    by (simp add: s numeral_2_eq_2)
  then have "rounded_rate (rs_rate ?s) \<le> of_int burst / (seconds window * (1 - roundoff) ^ 3) * (1 + roundoff) ^ 2 * (1 + roundoff) ^ 4"
    unfolding rounded_rate_def by (intro mult_right_mono) simp_all
  also have "... = of_int burst / seconds window * ((1 + roundoff) ^ 6 / (1 - roundoff) ^ 3)"
    by (simp add: field_simps power_add [symmetric] del: power_Suc)
  also have "... \<le> of_int burst / seconds window * (1 + slack)"
    using b sw by (intro mult_left_mono rate_roundings) simp_all
  finally show "rounded_rate (rs_rate ?s) \<le> (1 + slack) * of_int burst / seconds window" by (simp add: ac_simps)
qed

section \<open>Theorem\<close>

text \<open>
  Claim C18. However requests and the collector interleave, in any window of a limiter's life the requests of one key
  that arrive in it and are let through are at most \<open>burst\<close> plus what flows in over the window, for each of
  the buckets the key has had: one, and one more for each time the collector dropped the key's bucket in the
  window. Floating point adds \<open>2 ^ -48\<close> of that, and of \<open>burst\<close> for every take in the window.
\<close>

theorem key_passes_bounded:
  assumes "1 \<le> burst" "0 < window"
    and "runs (may_perform rate_do) (map rate_calls ms, new_key_limiter burst window t0) es1 (P, w)"
    and "runs (may_perform rate_do) (P, w) es2 (Q, v)"
  shows "of_nat (let_through key ms es1 Q) \<le>
    (1 + slack) * of_nat (1 + collections key es2) * of_int burst * (1 + seconds (rs_clock v - rs_clock w) / seconds window) +
    slack * of_int burst * of_nat (takes es2)"
proof -
  let ?n = "new_key_limiter burst window t0" and ?k = "(of_nat (1 + collections key es2) :: rat)" and ?T = "seconds (rs_clock v - rs_clock w)"
  note new = new_limiter_ok [OF assms(1,2), of t0]
  from window_run [OF assms(3) new(1)] have w: "window_inv ?n es1 w" .
  from window_run [OF assms(4)] w have v: "window_inv w es2 v" by (simp add: window_inv_def)
  have same: "burst_tokens v = burst_tokens ?n" "rs_rate v = rs_rate ?n" using v w by (simp_all add: window_inv_def burst_tokens_def)
  have T: "0 \<le> ?T" using v by (simp add: window_inv_def seconds_def second_def)
  have b: "(0 :: rat) \<le> of_int burst" using assms(1) by simp
  have "burst_tokens v * (1 + 2 * roundoff) \<le> of_int burst * (1 + roundoff) * (1 + 2 * roundoff)"
    using new(2) same by (simp add: mult_right_mono)
  also have "... \<le> of_int burst * (1 + slack)"
    unfolding mult.assoc using b by (intro mult_left_mono) (simp_all add: roundoff_def slack_def)
  finally have C: "burst_tokens v * (1 + 2 * roundoff) \<le> of_int burst * (1 + slack)" .
  have "rounded_rate (rs_rate v) * ?T \<le> (1 + slack) * of_int burst / seconds window * ?T"
    unfolding same(2) by (rule mult_right_mono [OF new(3) T])
  with C have "burst_tokens v * (1 + 2 * roundoff) + rounded_rate (rs_rate v) * ?T \<le> (1 + slack) * of_int burst * (1 + ?T / seconds window)"
    by (simp add: algebra_simps)
  from mult_left_mono [OF this, of ?k] have main: "?k * (burst_tokens v * (1 + 2 * roundoff) + rounded_rate (rs_rate v) * ?T)
      \<le> (1 + slack) * ?k * of_int burst * (1 + ?T / seconds window)" by (simp only: ac_simps of_nat_0_le_iff simp_thms)
  have "2 * roundoff * burst_tokens v \<le> 2 * roundoff * (of_int burst * (1 + roundoff))"
    using new(2) same by (intro mult_left_mono) simp_all
  also have "... = of_int burst * (2 * roundoff * (1 + roundoff))" by simp
  also have "... \<le> of_int burst * slack" using b by (intro mult_left_mono) (simp_all add: roundoff_def slack_def)
  finally have "2 * roundoff * burst_tokens v \<le> slack * of_int burst" by (simp only: ac_simps)
  then have "2 * roundoff * burst_tokens v * of_nat (takes es2) \<le> slack * of_int burst * of_nat (takes es2)"
    by (rule mult_right_mono) simp
  moreover have "of_nat (let_through key ms es1 Q) \<le> (of_nat (\<Sum>b \<in> issued key es2. card (admitted b es2)) :: rat)"
    using let_through_admitted [OF assms(3,4)] by (simp only: of_nat_le_iff)
  ultimately show ?thesis using main key_admits [OF v, of key] by linarith
qed

text \<open>
  A run on a limiter of one request per second: a request finds its bucket, the collector drops that bucket, which
  nobody used for ten windows, another request makes a new one, and both take a token at the same instant.
\<close>

definition replay :: "(nat \<times> rate_turn) list \<Rightarrow> (nat \<times> rate_turn) list \<Rightarrow> rate_method list \<Rightarrow> rate_state \<Rightarrow>
    (nat \<times> nat \<times> nat \<times> duration) option" where
  "replay ts1 ts2 ms s = (case run_with rate_do ts1 (map rate_calls ms, s) of None \<Rightarrow> None
     | Some (es1, P, w) \<Rightarrow> (case run_with rate_do ts2 (P, w) of None \<Rightarrow> None
       | Some (es2, Q, v) \<Rightarrow> Some (let_through ''k'' ms es1 Q, collections ''k'' es2, takes es2, rs_clock v - rs_clock w)))"

lemma replay_runs:
  assumes "replay ts1 ts2 ms s = Some (n, c, t, d)"
  shows "\<exists>es1 P w es2 Q v. runs (may_perform rate_do) (map rate_calls ms, s) es1 (P, w) \<and>
    runs (may_perform rate_do) (P, w) es2 (Q, v) \<and>
    let_through ''k'' ms es1 Q = n \<and> collections ''k'' es2 = c \<and> takes es2 = t \<and> rs_clock v - rs_clock w = d"
proof -
  from assms obtain es1 P w es2 Q v where "run_with rate_do ts1 (map rate_calls ms, s) = Some (es1, P, w)"
    "run_with rate_do ts2 (P, w) = Some (es2, Q, v)"
    "let_through ''k'' ms es1 Q = n \<and> collections ''k'' es2 = c \<and> takes es2 = t \<and> rs_clock v - rs_clock w = d"
    by (auto simp: replay_def split: option.splits)
  with run_with_runs [OF runs_none, of rate_do ts1 "map rate_calls ms" s es1 P w] run_with_runs [OF runs_none, of rate_do ts2 P w es2 Q v]
  show ?thesis
    by (intro exI [of _ es1] exI [of _ P] exI [of _ w] exI [of _ es2] exI [of _ Q] exI [of _ v] conjI) simp_all
qed

definition collected_methods :: "rate_method list" where
  "collected_methods = [Allow ''k'', Allow ''k'', Collector 1, Limited per_ip \<lparr>rq_addr = ''k'', rq_user = None, rq_tenant = None\<rparr>, Allow ''x'']"

lemma collected_run:
  "replay [(0, Now 0), (0, Now 0), (4, Now (11 * second))]
     (map (\<lambda>(i, t). (i, t (11 * second))) [(1, Now), (2, \<lambda>t. Tick t [''x'', ''k'']), (2, Now), (2, Now), (2, Now), (3, Now), (3, Now), (1, Now)])
     collected_methods (new_key_limiter 1 second 0) = Some (2, 1, 2, 0)"
  by code_simp

theorem key_passes_bounded_witness:
  "\<exists>es1 P w es2 Q v. runs (may_perform rate_do) (map rate_calls collected_methods, new_key_limiter 1 second 0) es1 (P, w) \<and>
    runs (may_perform rate_do) (P, w) es2 (Q, v) \<and> let_through ''k'' collected_methods es1 Q = 2 \<and>
    (2 :: rat) \<le> (1 + slack) * 2 + slack * 2"
proof -
  obtain es1 P w es2 Q v where r: "runs (may_perform rate_do) (map rate_calls collected_methods, new_key_limiter 1 second 0) es1 (P, w)"
    "runs (may_perform rate_do) (P, w) es2 (Q, v)" "let_through ''k'' collected_methods es1 Q = 2"
    "collections ''k'' es2 = 1" "takes es2 = 2" "rs_clock v - rs_clock w = 0"
    using replay_runs [OF collected_run] by blast
  have "(2 :: rat) \<le> (1 + slack) * 2 + slack * 2"
    using key_passes_bounded [OF _ _ r(1,2), of "''k''"] by (simp add: r(3-6) seconds_def second_def)
  with r show ?thesis by blast
qed

text \<open>
  With a burst of one, one collection and no time at all, two requests pass: the bound above is met.
\<close>

theorem collected_bucket_passes_twice:
  "\<exists>es1 P w es2 Q v. runs (may_perform rate_do) (map rate_calls collected_methods, new_key_limiter 1 second 0) es1 (P, w) \<and>
    runs (may_perform rate_do) (P, w) es2 (Q, v) \<and> rs_clock v = rs_clock w \<and> let_through ''k'' collected_methods es1 Q = 2"
  using replay_runs [OF collected_run] by (elim exE conjE) (intro exI conjI, assumption, assumption, simp_all)

end
