(* ===== verification/Client_Address.thy ===== *)
theory Client_Address
  imports Go_Std Go_Strings Prelude
begin

text \<open>
  The address a request really came from (\<^verbatim>\<open>internal/clientaddr\<close>): the trusted proxies of the configuration, and the
  walk over \<^verbatim>\<open>X-Forwarded-For\<close> from the right. Go's \<^verbatim>\<open>net\<close> package (parsing and printing of addresses, networks
  and host-port pairs) is a parameter.
\<close>

record ('ip, 'net) net_library =
  parse_ip :: "string \<Rightarrow> 'ip option"
  ip_string :: "'ip \<Rightarrow> string"
  parse_cidr :: "string \<Rightarrow> 'net option"
  mask_ones :: "'net \<Rightarrow> nat"
  net_contains :: "'net \<Rightarrow> 'ip \<Rightarrow> bool"
  split_host_port :: "string \<Rightarrow> string option"

definition host_cidr :: "string \<Rightarrow> string" where
  "host_cidr ip = (if contains_str ip '':'' then ip @ ''/128'' else ip @ ''/32'')"

datatype proxy_error = Bad_Cidr string | Trusts_Everyone string

text \<open>The loop of \<open>ParseTrustedProxies\<close> over the comma-separated parts.\<close>

fun parse_proxy_parts :: "('ip, 'net) net_library \<Rightarrow> string list \<Rightarrow> (proxy_error, 'net list) result" where
  "parse_proxy_parts L [] = Inr []"
| "parse_proxy_parts L (part # parts) =
    (let part = trim_space part
     in if part = [] then parse_proxy_parts L parts
        else let part = (if \<not> contains_str part ''/'' then host_cidr part else part)
          in case parse_cidr L part of
               None \<Rightarrow> Inl (Bad_Cidr part)
             | Some network \<Rightarrow>
                 if mask_ones L network = 0 then Inl (Trusts_Everyone part)
                 else bind_result (parse_proxy_parts L parts) (\<lambda>nets. Inr (network # nets)))"

definition parse_trusted_proxies :: "('ip, 'net) net_library \<Rightarrow> string \<Rightarrow> (proxy_error, 'net list) result" where
  "parse_trusted_proxies L raw = parse_proxy_parts L (split_on CHR '','' raw)"

definition nets_contain :: "('ip, 'net) net_library \<Rightarrow> 'net list \<Rightarrow> 'ip option \<Rightarrow> bool" where
  "nets_contain L nets ip = (case ip of None \<Rightarrow> False | Some a \<Rightarrow> list_ex (\<lambda>n. net_contains L n a) nets)"

definition peer_ip :: "('ip, 'net) net_library \<Rightarrow> string \<Rightarrow> string" where
  "peer_ip L remote = (case split_host_port L remote of None \<Rightarrow> remote | Some host \<Rightarrow> host)"

definition forwarded_hops :: "string list \<Rightarrow> string list" where
  "forwarded_hops lines = filter (\<lambda>part. part \<noteq> []) (map trim_space (concat (map (split_on CHR '','') lines)))"

text \<open>The walk, over the hops from the right; \<open>leftmost\<close> is the last trusted hop passed.\<close>

fun walk_hops :: "('ip, 'net) net_library \<Rightarrow> 'net list \<Rightarrow> string \<Rightarrow> 'ip option \<Rightarrow> string list \<Rightarrow> string" where
  "walk_hops L trusted peer leftmost [] = (case leftmost of None \<Rightarrow> peer | Some ip \<Rightarrow> ip_string L ip)"
| "walk_hops L trusted peer leftmost (hop # hops) = (case parse_ip L hop of
     None \<Rightarrow> peer
   | Some ip \<Rightarrow> if \<not> nets_contain L trusted (Some ip) then ip_string L ip
       else walk_hops L trusted peer (Some ip) hops)"

definition resolve_address :: "('ip, 'net) net_library \<Rightarrow> 'net list \<Rightarrow> string \<Rightarrow> string list \<Rightarrow> string" where
  "resolve_address L trusted remote xff =
    (let peer = peer_ip L remote
     in if trusted = [] \<or> \<not> nets_contain L trusted (parse_ip L peer) then peer
        else walk_hops L trusted peer None (rev (forwarded_hops xff)))"

text \<open>\<open>FromRequest\<close>: what the middleware recorded, if it ran.\<close>

definition address_from_request :: "('ip, 'net) net_library \<Rightarrow> string option \<Rightarrow> string \<Rightarrow> string" where
  "address_from_request L recorded remote = (case recorded of Some a \<Rightarrow> a | None \<Rightarrow> peer_ip L remote)"

section \<open>A client cannot choose its address\<close>

definition trusted_hop :: "('ip, 'net) net_library \<Rightarrow> 'net list \<Rightarrow> string \<Rightarrow> bool" where
  "trusted_hop L trusted h \<longleftrightarrow> nets_contain L trusted (parse_ip L h)"

lemma walk_all_trusted:
  assumes "\<forall>h \<in> set hs. trusted_hop L trusted h"
  shows "walk_hops L trusted peer leftmost (hs @ rest) =
    walk_hops L trusted peer (if hs = [] then leftmost else parse_ip L (last hs)) rest"
  using assms
proof (induction hs arbitrary: leftmost)
  case (Cons h hs)
  then obtain ip where "parse_ip L h = Some ip" "nets_contain L trusted (Some ip)"
    by (auto simp: trusted_hop_def nets_contain_def split: option.splits)
  with Cons show ?case by simp
qed simp

text \<open>
  Claim C19. What a request's address resolves to, for every list of hops: split it into the trusted hops at its right
  end and the hops before them, \<open>seen\<close>. Without a trusted peer the address is the peer's. Behind one it is
  the last of \<open>seen\<close>, the rightmost hop that is not trusted, or the peer's where that hop is no address; when
  every hop is trusted it is the leftmost one, and the peer's when there is none. So what a client
  writes in front of the hop its proxy recorded never counts.
\<close>

theorem address_unforgeable:
  assumes "forwarded_hops xff = seen @ proxies" "list_all (trusted_hop L trusted) proxies"
    and "seen \<noteq> [] \<Longrightarrow> \<not> trusted_hop L trusted (last seen)"
  shows "resolve_address L trusted remote xff =
    (let peer = peer_ip L remote; address = (\<lambda>h. case parse_ip L h of None \<Rightarrow> peer | Some ip \<Rightarrow> ip_string L ip)
     in if \<not> trusted_hop L trusted peer then peer
        else if seen \<noteq> [] then address (last seen)
        else if proxies \<noteq> [] then address (hd proxies) else peer)"
proof -
  have t: "\<forall>h \<in> set (rev proxies). trusted_hop L trusted h" using assms(2) by (simp add: list_all_iff)
  have w: "walk_hops L trusted peer None (rev proxies @ rest) =
      walk_hops L trusted peer (if proxies = [] then None else parse_ip L (hd proxies)) rest" for peer rest
    using walk_all_trusted [OF t, of peer None rest] by (simp add: last_rev)
  have ne: "trusted \<noteq> []" if "trusted_hop L trusted (peer_ip L remote)"
    using that by (auto simp: trusted_hop_def nets_contain_def split: option.splits)
  show ?thesis
  proof (cases "seen = []")
    case True
    with w [of _ "[]"] ne show ?thesis by (simp add: resolve_address_def Let_def assms(1) trusted_hop_def)
  next
    case False
    then obtain ss h where s: "seen = ss @ [h]" by (metis append_butlast_last_id)
    then have "walk_hops L trusted peer None (rev proxies @ rev seen) =
        (case parse_ip L h of None \<Rightarrow> peer | Some ip \<Rightarrow> ip_string L ip)" for peer
      using w [of peer "h # rev ss"] assms(3) by (auto simp: trusted_hop_def split: option.splits)
    with ne s show ?thesis by (simp add: resolve_address_def Let_def assms(1) trusted_hop_def)
  qed
qed

text \<open>One-letter addresses; those in \<open>trusted\<close> are listed.\<close>

definition letter_net :: "(char, char list) net_library" where
  "letter_net = \<lparr>parse_ip = \<lambda>s. (case s of [c] \<Rightarrow> Some c | _ \<Rightarrow> None), ip_string = \<lambda>c. [c],
    parse_cidr = Some, mask_ones = length, net_contains = \<lambda>n c. c \<in> set n, split_host_port = Some\<rparr>"

theorem address_unforgeable_witness:
  "resolve_address letter_net [''p''] ''p'' [''e,v,i'', ''l,c,p''] = ''c''"
proof -
  have "forwarded_hops [''e,v,i'', ''l,c,p''] = [''e'', ''v'', ''i'', ''l''] @ ''c'' # [''p'']"
    by (simp add: forwarded_hops_def trim_space_graphic graphic_def)
  then have "forwarded_hops [''e,v,i'', ''l,c,p''] = [''e'', ''v'', ''i'', ''l'', ''c''] @ [''p'']" by simp
  from address_unforgeable [OF this, of letter_net "[''p'']" "''p''"] show ?thesis
    by (simp add: letter_net_def nets_contain_def peer_ip_def trusted_hop_def)
qed

text \<open>No accepted network trusts every address, and one bad part refuses the whole list.\<close>

theorem trusted_networks:
  "parse_trusted_proxies L raw = Inr nets \<Longrightarrow> \<forall>n \<in> set nets. 0 < mask_ones L n"
proof -
  have "parse_proxy_parts L parts = Inr nets \<Longrightarrow> \<forall>n \<in> set nets. 0 < mask_ones L n" for parts
    by (induction parts arbitrary: nets)
      (auto simp: Let_def bind_result_Inr_iff split: if_splits option.splits)
  then show "parse_trusted_proxies L raw = Inr nets \<Longrightarrow> \<forall>n \<in> set nets. 0 < mask_ones L n"
    by (simp add: parse_trusted_proxies_def)
qed

end
