(* ===== verification/Route_Policy.thy ===== *)
theory Route_Policy
  imports Project_Access
begin

text \<open>
  The control plane's route authorization table (\<^verbatim>\<open>internal/routepolicy\<close>): what a row declares (\<^verbatim>\<open>policy.go\<close>),
  the outcome it implies for a caller (\<^verbatim>\<open>expect.go\<close>), the index of the table by route (\<^verbatim>\<open>index.go\<close>) and the
  lookup of the row a request reaches (\<^verbatim>\<open>lookup.go\<close>). The rows are in \<open>Route_Table\<close>. Chi's path matching is a
  parameter; a row's free-text note is left out.
\<close>

section \<open>Rows\<close>

datatype auth_class = Auth_Public | Auth_Session | Auth_Handler_Session | Auth_Runtime_Token | Auth_Function_JWT
  | Auth_Forwarder_Token | Auth_Registry_Pull

datatype owner = Owner_None | Owner_Project_Access | Owner_Org_Membership | Owner_Platform_Role | Owner_Token_Subject
  | Owner_Runtime_Secret | Owner_Forwarder_Token | Owner_Pull_Credential | Owner_Function_Audience
  | Owner_Bucket_Visibility | Owner_Bucket_Access

datatype disclosure = Undeclared | No_Secret | Secret_Material

definition param_none :: string where "param_none = []"
definition param_project :: string where "param_project = ''projectId''"
definition param_org :: string where "param_org = ''orgId''"

lemmas param_defs = param_none_def param_project_def param_org_def

record route_row =
  row_methods :: "http_method list"
  row_pattern :: string
  row_auth :: auth_class
  row_permission :: "permission option"
  row_param :: string
  row_owner :: owner
  row_min_role :: string
  row_unrestricted :: bool
  row_capability :: string
  row_service_only :: bool
  row_database :: bool
  row_mysql :: bool
  row_site_deploy :: bool
  row_metrics_key :: bool
  row_mysql_refusal :: string
  row_discloses :: disclosure

text \<open>A row literal that gives its methods, pattern and authentication class; the other fields are zero values.\<close>

definition route :: "http_method list \<Rightarrow> string \<Rightarrow> auth_class \<Rightarrow> route_row" where
  "route ms pat a = \<lparr>row_methods = ms, row_pattern = pat, row_auth = a, row_permission = None, row_param = param_none,
    row_owner = Owner_None, row_min_role = [], row_unrestricted = False, row_capability = [], row_service_only = False,
    row_database = False, row_mysql = False, row_site_deploy = False, row_metrics_key = False, row_mysql_refusal = [],
    row_discloses = Undeclared\<rparr>"

section \<open>The outcome a row implies\<close>

datatype expectation = Allowed | Denied nat | Unasserted

record principal =
  pr_anonymous :: bool
  pr_org_role :: string
  pr_platform_admin :: bool
  pr_read_only :: bool
  pr_restricted :: bool
  pr_foreign_project :: bool
  pr_capabilities :: "string list"
  pr_site_deploy :: bool
  pr_metrics_key :: bool

definition holds_capabilities :: "principal \<Rightarrow> bool" where
  "holds_capabilities p \<longleftrightarrow> pr_capabilities p \<noteq> []"

definition is_write :: "http_method \<Rightarrow> bool" where
  "is_write m \<longleftrightarrow> m \<noteq> GET \<and> m \<noteq> HEAD"

definition expect_capability_token :: "route_row \<Rightarrow> expectation" where
  "expect_capability_token row = (if row_capability row = [] then Denied 403 else Unasserted)"

definition org_outsider_expectation :: "route_row \<Rightarrow> expectation" where
  "org_outsider_expectation row = (if row_min_role row = [] then Denied 404 else Denied 403)"

definition expect_tenant :: "route_row \<Rightarrow> principal \<Rightarrow> expectation" where
  "expect_tenant row p =
    (if row_param row = param_project \<and> pr_org_role p = [] then Denied 404
     else if row_param row = param_org \<and> pr_org_role p = [] then org_outsider_expectation row
     else if row_param row \<noteq> param_project \<and> row_param row \<noteq> param_org then Allowed
     else if row_min_role row \<noteq> [] \<and> \<not> org_role_at_least (pr_org_role p) (row_min_role row) then Denied 403
     else Allowed)"

definition expect_session :: "route_row \<Rightarrow> http_method \<Rightarrow> principal \<Rightarrow> expectation" where
  "expect_session row m p =
    (if pr_anonymous p then Denied 401
     else if row_auth row = Auth_Handler_Session then Allowed
     else if row_service_only row then Denied 403
     else if row_param row = param_project \<and> pr_foreign_project p then Denied 404
     else if (is_write m \<or> row_discloses row = Secret_Material) \<and> pr_read_only p then Denied 403
     else if row_unrestricted row \<and> pr_restricted p then Denied 403
     else if pr_platform_admin p then Allowed
     else if row_permission row \<noteq> None then Denied 403
     else expect_tenant row p)"

definition expect :: "route_row \<Rightarrow> http_method \<Rightarrow> principal \<Rightarrow> expectation" where
  "expect row m p =
    (if m = OPTIONS then Unasserted
     else if holds_capabilities p then expect_capability_token row
     else if pr_site_deploy p \<and> \<not> row_site_deploy row then Denied 403
     else if pr_metrics_key p \<and> \<not> row_metrics_key row then Denied 403
     else (case row_auth row of
       Auth_Public \<Rightarrow> Allowed
     | Auth_Function_JWT \<Rightarrow> Denied 401
     | Auth_Runtime_Token \<Rightarrow> Denied 401
     | Auth_Forwarder_Token \<Rightarrow> Denied 404
     | Auth_Registry_Pull \<Rightarrow> Denied 404
     | _ \<Rightarrow> expect_session row m p))"

section \<open>The index\<close>

text \<open>\<open>MethodAll\<close> is the method name \<open>*\<close>.\<close>

definition method_all_name :: http_method where
  "method_all_name = Other_Method ''*''"

definition method_all :: "http_method list" where
  "method_all = [method_all_name]"

definition all_methods :: "http_method list" where
  "all_methods = [Other_Method ''CONNECT'', DELETE, GET, HEAD, OPTIONS, PATCH, POST, PUT, Other_Method ''TRACE'']"

type_synonym route_key = "http_method \<times> string"

definition expand_methods :: "route_row \<Rightarrow> http_method list" where
  "expand_methods r = (if list_ex (\<lambda>m. m = method_all_name) (row_methods r) then all_methods else row_methods r)"

definition has_read_method :: "route_row \<Rightarrow> bool" where
  "has_read_method r = list_ex (\<lambda>m. \<not> is_write m) (expand_methods r)"

text \<open>\<open>None\<close> is the error of a route that is declared twice.\<close>

fun add_methods :: "route_row \<Rightarrow> http_method list \<Rightarrow> (route_key \<rightharpoonup> route_row) \<Rightarrow> (route_key \<rightharpoonup> route_row) option" where
  "add_methods row [] out = Some out"
| "add_methods row (m # ms) out =
    (if out (m, row_pattern row) \<noteq> None then None else add_methods row ms (out((m, row_pattern row) \<mapsto> row)))"

fun add_rows :: "route_row list \<Rightarrow> (route_key \<rightharpoonup> route_row) \<Rightarrow> (route_key \<rightharpoonup> route_row) option" where
  "add_rows [] out = Some out"
| "add_rows (row # rows) out = (case add_methods row (expand_methods row) out of
     None \<Rightarrow> None
   | Some out' \<Rightarrow> add_rows rows out')"

definition index_rows :: "route_row list \<Rightarrow> (route_key \<rightharpoonup> route_row) option" where
  "index_rows rows = add_rows rows Map.empty"

section \<open>The lookup\<close>

text \<open>
  \<open>chi keys m path\<close> is the route chi's router serves a request with, when the routes \<open>keys\<close> are mounted on it; a
  table that cannot be indexed panics when the lookup is built.
\<close>

type_synonym chi_router = "route_key set \<Rightarrow> http_method \<Rightarrow> string \<Rightarrow> route_key option"

definition lookup_exact :: "chi_router \<Rightarrow> (route_key \<rightharpoonup> route_row) \<Rightarrow> http_method \<Rightarrow> string \<Rightarrow> route_row option" where
  "lookup_exact chi index m path = (case chi (dom index) m path of
     None \<Rightarrow> None
   | Some k \<Rightarrow> (case index k of None \<Rightarrow> None | Some row \<Rightarrow> if row_pattern row = [] then None else Some row))"

definition lookup_route :: "chi_router \<Rightarrow> (route_key \<rightharpoonup> route_row) \<Rightarrow> http_method \<Rightarrow> string \<Rightarrow> route_row option" where
  "lookup_route chi index m path = (case lookup_exact chi index m path of
     Some row \<Rightarrow> Some row
   | None \<Rightarrow> if path \<noteq> [] \<and> last path = CHR ''/'' then None else lookup_exact chi index m (path @ ''/''))"

text \<open>\<open>servesMySQL\<close>, which \<open>require_project_database\<close> asks of a MySQL project's request.\<close>

definition serves_mysql :: "chi_router \<Rightarrow> (route_key \<rightharpoonup> route_row) \<Rightarrow> http_method \<Rightarrow> string \<Rightarrow> bool" where
  "serves_mysql chi index m path = (case lookup_route chi index m path of None \<Rightarrow> False | Some row \<Rightarrow> row_mysql row)"

section \<open>Basic facts\<close>

text \<open>The index as one insertion of all routes, which succeeds exactly when no route is declared twice.\<close>

fun insert_new :: "('k \<times> 'v) list \<Rightarrow> ('k \<rightharpoonup> 'v) \<Rightarrow> ('k \<rightharpoonup> 'v) option" where
  "insert_new [] out = Some out"
| "insert_new ((k, v) # es) out = (if out k \<noteq> None then None else insert_new es (out(k \<mapsto> v)))"

definition row_keys :: "route_row \<Rightarrow> route_key list" where
  "row_keys r = map (\<lambda>m. (m, row_pattern r)) (expand_methods r)"

definition route_entries :: "route_row list \<Rightarrow> (route_key \<times> route_row) list" where
  "route_entries rows = concat (map (\<lambda>r. map (\<lambda>k. (k, r)) (row_keys r)) rows)"

lemma insert_new_append:
  "insert_new (es @ fs) out = (case insert_new es out of None \<Rightarrow> None | Some out' \<Rightarrow> insert_new fs out')"
  by (induction es arbitrary: out) (auto simp del: fun_upd_apply)

lemma add_methods_new: "add_methods row ms out = insert_new (map (\<lambda>m. ((m, row_pattern row), row)) ms) out"
  by (induction ms arbitrary: out) auto

lemma index_rows_new: "index_rows rows = insert_new (route_entries rows) Map.empty"
proof -
  have "add_rows rows out = insert_new (route_entries rows) out" for out
    by (induction rows arbitrary: out)
      (simp_all add: route_entries_def insert_new_append add_methods_new row_keys_def o_def split: option.split)
  then show ?thesis by (simp add: index_rows_def)
qed

lemma insert_new_eq:
  "insert_new es out = (if distinct (map fst es) \<and> set (map fst es) \<inter> dom out = {} then Some (out ++ map_of es) else None)"
proof (induction es arbitrary: out)
  case (Cons e es)
  obtain k v where e: "e = (k, v)" by force
  show ?case
  proof (cases "out k = None \<and> k \<notin> set (map fst es)")
    case True
    then have "map_of es k = None" by (simp add: map_of_eq_None_iff)
    then have "out(k \<mapsto> v) ++ map_of es = out ++ map_of (e # es)"
      by (auto simp: e fun_eq_iff map_add_def split: option.split)
    moreover have "set (map fst es) \<inter> dom (out(k \<mapsto> v)) = set (map fst es) \<inter> dom out" using True by auto
    moreover have "set (map fst (e # es)) \<inter> dom out = set (map fst es) \<inter> dom out" using True by (auto simp: e)
    ultimately show ?thesis using True Cons.IH [of "out(k \<mapsto> v)"] by (simp add: e del: fun_upd_apply)
  next
    case False
    then show ?thesis by (auto simp: e Cons.IH domIff)
  qed
qed simp

lemma index_rows_eq:
  "index_rows rows = (if distinct (concat (map row_keys rows)) then Some (map_of (route_entries rows)) else None)"
proof -
  have "map fst (route_entries rows) = concat (map row_keys rows)"
    by (simp add: route_entries_def map_concat o_def)
  then show ?thesis by (simp add: index_rows_new insert_new_eq)
qed

lemma index_rows_row:
  assumes "index_rows rows = Some index"
  shows "index k = Some row \<longleftrightarrow> row \<in> set rows \<and> k \<in> set (row_keys row)"
proof -
  from assms have d: "distinct (concat (map row_keys rows))" and i: "index = map_of (route_entries rows)"
    by (simp_all add: index_rows_eq split: if_splits)
  have "map fst (route_entries rows) = concat (map row_keys rows)"
    by (simp add: route_entries_def map_concat o_def)
  with d i show ?thesis by (auto simp: map_of_eq_Some_iff) (auto simp: route_entries_def)
qed

end
