(* ===== verification/Route_Table.thy ===== *)
theory Route_Table
  imports Route_Policy
begin

text \<open>
  The rows of the control plane's route authorization table (\<^verbatim>\<open>internal/routepolicy/routes_*.go\<close>), one definition
  per table of the source, in its order. \<open>project_route\<close> and \<open>platform_route\<close> abbreviate the two shapes most rows
  have: a session-authenticated route bound to \<open>{projectId}\<close> by \<open>RequireProjectAccess\<close> with a minimum role, and
  one that requires a platform permission. The free-text notes are left out.
\<close>

definition project_route :: "http_method list \<Rightarrow> string \<Rightarrow> string \<Rightarrow> route_row" where
  "project_route ms pat role = (route ms pat Auth_Session)
    \<lparr>row_param := param_project, row_owner := Owner_Project_Access, row_min_role := role\<rparr>"

definition platform_route :: "http_method list \<Rightarrow> string \<Rightarrow> permission \<Rightarrow> route_row" where
  "platform_route ms pat perm = (route ms pat Auth_Session)
    \<lparr>row_permission := Some perm, row_owner := Owner_Platform_Role\<rparr>"

section \<open>Why a route refuses MySQL projects\<close>

definition mysql_no_extensions :: string where
  "mysql_no_extensions = ''MySQL has no extensions; its features ship built in''"

definition mysql_no_policies :: string where
  "mysql_no_policies = ''CREATE POLICY is Postgres row-level security; on MySQL, API access is set in each table's permissions''"

definition mysql_no_types :: string where
  "mysql_no_types = ''MySQL has no user-defined types; ENUM and SET are column types''"

definition mysql_no_advisors :: string where
  "mysql_no_advisors = ''the advisors read Postgres statistics catalogs''"

definition mysql_no_roles :: string where
  "mysql_no_roles = ''MySQL users are created and rotated by the platform''"

definition mysql_no_triggers :: string where
  "mysql_no_triggers = ''Studio's trigger editor builds Postgres trigger functions; create MySQL triggers with SQL''"

definition mysql_no_tracked_functions :: string where
  "mysql_no_tracked_functions = ''tracked functions are not offered on MySQL: MySQL functions return scalars, and API permissions apply to rows''"

definition mysql_no_migrations :: string where
  "mysql_no_migrations = ''migration history is Postgres-only for now; run a MySQL migration with the SQL runner, and note MySQL DDL is not transactional, so a failed migration is not rolled back''"

definition mysql_no_realtime :: string where
  "mysql_no_realtime = ''realtime on MySQL reads the binlog through the watcher, which is not served yet''"

section \<open>The tables\<close>

definition parameter_group_route :: string where
  "parameter_group_route = ''/api/parameter-groups/{name}''"

definition vault_secrets_route :: string where
  "vault_secrets_route = ''/api/vault/secrets/*''"

definition public_rows :: "route_row list" where
  "public_rows =
    [route [GET] ''/healthz'' Auth_Public\<lparr>row_discloses := No_Secret\<rparr>,
     route [GET] ''/api/config'' Auth_Public\<lparr>row_discloses := No_Secret\<rparr>,
     route method_all ''/metrics'' Auth_Public\<lparr>row_discloses := No_Secret\<rparr>,
     route [POST] ''/api/auth/register'' Auth_Public,
     route [POST] ''/api/auth/login'' Auth_Public,
     route [GET] ''/api/auth/oauth/providers'' Auth_Public\<lparr>row_discloses := No_Secret\<rparr>,
     route [GET] ''/api/auth/oauth/{provider}/start'' Auth_Public\<lparr>row_discloses := No_Secret\<rparr>,
     route [GET] ''/api/auth/oauth/{provider}/callback'' Auth_Public\<lparr>row_discloses := No_Secret\<rparr>,
     route [GET] ''/api/auth/setup-status'' Auth_Public\<lparr>row_discloses := No_Secret\<rparr>,
     route [POST] ''/api/auth/logout'' Auth_Public,
     route [GET] ''/api/vault/status'' Auth_Public\<lparr>row_discloses := No_Secret\<rparr>,
     route [GET] ''/api/vault/pki/public-key'' Auth_Public\<lparr>row_discloses := No_Secret\<rparr>,
     route [POST] ''/api/email/verify/confirm'' Auth_Public,
     route [POST] ''/api/email/reset/send'' Auth_Public,
     route [POST] ''/api/email/verify/resend'' Auth_Public,
     route [POST] ''/api/email/reset/confirm'' Auth_Public,
     route [GET] ''/api/setup/status'' Auth_Public\<lparr>row_discloses := No_Secret\<rparr>]"

definition platform_rows :: "route_row list" where
  "platform_rows =
    [route method_all ''/mcp'' Auth_Handler_Session\<lparr>row_discloses := No_Secret\<rparr>,
     route [GET] ''/api/capacity'' Auth_Session\<lparr>row_discloses := No_Secret\<rparr>,
     route [POST] ''/api/email/verify/send'' Auth_Session,
     route [GET] ''/api/tiers/'' Auth_Session\<lparr>row_discloses := No_Secret\<rparr>,
     route [GET] ''/api/postgres/catalog'' Auth_Session\<lparr>row_discloses := No_Secret\<rparr>,
     route [GET] ''/api/mysql/catalog'' Auth_Session\<lparr>row_discloses := No_Secret\<rparr>,
     route [GET] ''/api/alerts/'' Auth_Session\<lparr>row_discloses := No_Secret\<rparr>,
     route [GET] ''/api/alerts/history'' Auth_Session\<lparr>row_discloses := No_Secret\<rparr>,
     platform_route [POST] ''/api/setup/install/{databaseType}'' Manage_Setup,
     platform_route [GET] ''/api/parameter-groups/'' View_Any\<lparr>row_discloses := No_Secret\<rparr>,
     platform_route [GET] parameter_group_route View_Any\<lparr>row_discloses := No_Secret\<rparr>,
     platform_route [POST] ''/api/parameter-groups/'' Manage_Setup,
     platform_route [PUT] parameter_group_route Manage_Setup,
     platform_route [DELETE] parameter_group_route Manage_Setup,
     route [GET] ''/api/auth/me'' Auth_Session\<lparr>row_capability := ''self:read'',
        row_discloses := No_Secret\<rparr>,
     platform_route [GET] ''/api/auth/users/'' Manage_Users\<lparr>row_discloses := No_Secret\<rparr>,
     platform_route [POST] ''/api/auth/users/'' Manage_Users,
     platform_route [DELETE] ''/api/auth/users/{userId}'' Manage_Users,
     platform_route [POST] ''/api/auth/users/{userId}/verify-email'' Manage_Users,
     route [GET] ''/api/auth/tokens/'' Auth_Session\<lparr>row_owner := Owner_Token_Subject,
        row_discloses := No_Secret\<rparr>,
     route [POST] ''/api/auth/tokens/'' Auth_Session\<lparr>row_owner := Owner_Token_Subject\<rparr>,
     route [DELETE] ''/api/auth/tokens/{tokenHash}'' Auth_Session\<lparr>row_owner := Owner_Token_Subject\<rparr>,
     route [POST] ''/api/auth/tokens/{tokenHash}/rotate'' Auth_Session\<lparr>row_owner := Owner_Token_Subject\<rparr>,
     platform_route [GET] ''/api/admin/projects'' View_Any\<lparr>row_discloses := No_Secret\<rparr>,
     platform_route [GET] ''/api/admin/logs'' View_Any\<lparr>row_discloses := No_Secret\<rparr>,
     platform_route [DELETE] ''/api/admin/projects/{projectId}'' Delete_Perm\<lparr>row_unrestricted := True\<rparr>,
     platform_route [DELETE] ''/api/admin/orgs/{orgId}'' Manage_Orgs,
     platform_route [GET] ''/api/admin/tiers/'' View_Any\<lparr>row_discloses := No_Secret\<rparr>,
     platform_route [GET] ''/api/admin/storage'' View_Any\<lparr>row_discloses := No_Secret\<rparr>,
     platform_route [PUT] ''/api/admin/tiers/{tier}'' Manage_Setup,
     platform_route [GET] ''/api/admin/monitoring/host'' View_Any\<lparr>row_discloses := No_Secret\<rparr>,
     platform_route [GET] ''/api/admin/monitoring/containers'' View_Any\<lparr>row_discloses := No_Secret\<rparr>,
     platform_route [GET] ''/api/admin/monitoring/containers/{name}'' View_Any\<lparr>row_discloses := No_Secret\<rparr>,
     platform_route [GET] ''/api/admin/monitoring/alert-settings'' View_Any\<lparr>row_discloses := No_Secret\<rparr>,
     platform_route [PUT] ''/api/admin/monitoring/alert-settings'' Manage_Setup\<lparr>row_unrestricted := True\<rparr>,
     platform_route [POST] ''/api/admin/monitoring/alert-settings/test'' Manage_Setup\<lparr>row_unrestricted := True\<rparr>,
     platform_route [GET] ''/api/admin/service-accounts/'' Manage_Users\<lparr>row_discloses := No_Secret\<rparr>,
     platform_route [GET] ''/api/admin/sso-providers/'' Manage_Users\<lparr>row_discloses := No_Secret\<rparr>,
     platform_route [PUT] ''/api/admin/sso-providers/{provider}'' Manage_Users\<lparr>row_unrestricted := True\<rparr>,
     platform_route [GET] ''/api/admin/service-accounts/{name}/tokens'' Manage_Users\<lparr>row_discloses := No_Secret\<rparr>,
     platform_route [POST] ''/api/admin/service-accounts/'' Manage_Users\<lparr>row_unrestricted := True\<rparr>,
     platform_route [DELETE] ''/api/admin/service-accounts/{name}'' Manage_Users\<lparr>row_unrestricted := True\<rparr>]"

definition vault_rows :: "route_row list" where
  "vault_rows =
    [platform_route [POST] ''/api/vault/init'' View_Credentials\<lparr>row_unrestricted := True\<rparr>,
     platform_route [POST] ''/api/vault/unseal'' View_Credentials\<lparr>row_unrestricted := True\<rparr>,
     platform_route [POST] ''/api/vault/seal'' View_Credentials\<lparr>row_unrestricted := True\<rparr>,
     platform_route [POST] ''/api/vault/rekey'' View_Credentials\<lparr>row_unrestricted := True\<rparr>,
     platform_route [GET] ''/api/vault/secrets-list'' View_Credentials\<lparr>row_unrestricted := True,
        row_discloses := No_Secret\<rparr>,
     platform_route [DELETE] ''/api/vault/secrets-list'' View_Credentials\<lparr>row_unrestricted := True\<rparr>,
     platform_route [GET] vault_secrets_route View_Credentials\<lparr>row_capability := ''vault:read:<secret path>'',
        row_discloses := Secret_Material\<rparr>,
     platform_route [PUT] vault_secrets_route View_Credentials\<lparr>row_unrestricted := True\<rparr>,
     platform_route [DELETE] vault_secrets_route View_Credentials\<lparr>row_unrestricted := True\<rparr>]"

definition org_rows :: "route_row list" where
  "org_rows =
    [route [GET] ''/api/orgs/'' Auth_Session\<lparr>row_discloses := No_Secret\<rparr>,
     route [POST] ''/api/orgs/'' Auth_Session,
     route [POST] ''/api/orgs/invites/accept'' Auth_Session,
     route [GET] ''/api/orgs/{orgId}/'' Auth_Session\<lparr>row_param := param_org,
        row_owner := Owner_Org_Membership, row_discloses := No_Secret\<rparr>,
     route [PATCH] ''/api/orgs/{orgId}/'' Auth_Session\<lparr>row_param := param_org,
        row_owner := Owner_Org_Membership, row_min_role := ''admin''\<rparr>,
     route [DELETE] ''/api/orgs/{orgId}/'' Auth_Session\<lparr>row_param := param_org,
        row_owner := Owner_Org_Membership, row_min_role := ''owner''\<rparr>,
     route [GET] ''/api/orgs/{orgId}/invites'' Auth_Session\<lparr>row_param := param_org,
        row_owner := Owner_Org_Membership, row_discloses := No_Secret\<rparr>,
     route [GET] ''/api/orgs/{orgId}/members/'' Auth_Session\<lparr>row_param := param_org,
        row_owner := Owner_Org_Membership, row_discloses := No_Secret\<rparr>,
     route [POST] ''/api/orgs/{orgId}/members/'' Auth_Session\<lparr>row_param := param_org,
        row_owner := Owner_Org_Membership, row_min_role := ''admin''\<rparr>,
     route [PATCH] ''/api/orgs/{orgId}/members/{userId}'' Auth_Session\<lparr>row_param := param_org,
        row_owner := Owner_Org_Membership, row_min_role := ''admin''\<rparr>,
     route [DELETE] ''/api/orgs/{orgId}/members/{userId}'' Auth_Session\<lparr>row_param := param_org,
        row_owner := Owner_Org_Membership, row_min_role := ''admin''\<rparr>,
     route [GET] ''/api/orgs/{orgId}/projects/{projectId}/members/'' Auth_Session\<lparr>row_param := param_org,
        row_owner := Owner_Org_Membership, row_discloses := No_Secret\<rparr>,
     route [POST] ''/api/orgs/{orgId}/projects/{projectId}/members/'' Auth_Session\<lparr>row_param := param_org,
        row_owner := Owner_Org_Membership, row_min_role := ''admin''\<rparr>,
     route [PATCH] ''/api/orgs/{orgId}/projects/{projectId}/members/{userId}'' Auth_Session\<lparr>row_param := param_org,
        row_owner := Owner_Org_Membership, row_min_role := ''admin''\<rparr>,
     route [DELETE] ''/api/orgs/{orgId}/projects/{projectId}/members/{userId}'' Auth_Session\<lparr>row_param := param_org,
        row_owner := Owner_Org_Membership, row_min_role := ''admin''\<rparr>]"

definition provision_rows :: "route_row list" where
  "provision_rows =
    [route [GET] ''/api/provision/'' Auth_Session\<lparr>row_discloses := No_Secret\<rparr>,
     route [POST] ''/api/provision/'' Auth_Session,
     route [POST] ''/api/provision/estimate'' Auth_Session,
     project_route [GET] ''/api/provision/{projectId}/'' ''viewer''\<lparr>row_discloses := No_Secret\<rparr>,
     project_route [GET] ''/api/provision/{projectId}/logs'' ''viewer''\<lparr>row_database := True,
        row_mysql := True, row_discloses := No_Secret\<rparr>,
     project_route [GET] ''/api/provision/{projectId}/maintenance-window'' ''viewer''\<lparr>row_database := True,
        row_discloses := No_Secret\<rparr>,
     project_route [PUT] ''/api/provision/{projectId}/maintenance-window'' ''developer''\<lparr>row_database := True\<rparr>,
     project_route [DELETE] ''/api/provision/{projectId}/'' ''admin'',
     project_route [POST] ''/api/provision/{projectId}/deletion/cancel'' ''owner'',
     project_route [GET] ''/api/provision/{projectId}/credentials'' ''admin''\<lparr>row_discloses := Secret_Material,
        row_database := True, row_mysql := True\<rparr>,
     project_route [POST] ''/api/provision/{projectId}/credentials/rotate'' ''admin''\<lparr>row_database := True,
        row_mysql := True\<rparr>,
     project_route [GET] ''/api/provision/{projectId}/documentdb/users/'' ''admin''\<lparr>row_discloses := No_Secret,
        row_database := True\<rparr>,
     project_route [POST] ''/api/provision/{projectId}/documentdb/users/'' ''admin''\<lparr>row_database := True\<rparr>,
     project_route [POST] ''/api/provision/{projectId}/documentdb/users/{username}/rotate'' ''admin''\<lparr>row_database := True\<rparr>,
     project_route [DELETE] ''/api/provision/{projectId}/documentdb/users/{username}'' ''admin''\<lparr>row_database := True\<rparr>,
     project_route [PATCH] ''/api/provision/{projectId}/deletion-protection'' ''owner'',
     project_route [POST] ''/api/provision/{projectId}/backups/purge'' ''admin'',
     project_route [POST] ''/api/provision/{projectId}/pause'' ''admin''\<lparr>row_database := True,
        row_mysql := True\<rparr>,
     project_route [POST] ''/api/provision/{projectId}/resume'' ''admin''\<lparr>row_database := True,
        row_mysql := True\<rparr>,
     project_route [POST] ''/api/provision/{projectId}/upgrade'' ''admin''\<lparr>row_database := True,
        row_mysql := True\<rparr>,
     project_route [GET] ''/api/provision/{projectId}/major-upgrade/'' ''viewer''\<lparr>row_database := True,
        row_mysql := True, row_discloses := No_Secret\<rparr>,
     project_route [POST] ''/api/provision/{projectId}/major-upgrade/'' ''admin''\<lparr>row_database := True,
        row_mysql_refusal := ''MySQL projects run MySQL 8.4 LTS, the newest version this platform supports''\<rparr>,
     project_route [GET] ''/api/provision/{projectId}/cluster'' ''viewer''\<lparr>row_discloses := No_Secret,
        row_database := True\<rparr>,
     project_route [POST] ''/api/provision/{projectId}/storage'' ''admin''\<lparr>row_database := True\<rparr>,
     project_route [POST] ''/api/provision/{projectId}/tier'' ''admin''\<lparr>row_database := True,
        row_mysql := True\<rparr>,
     project_route [PUT] ''/api/provision/{projectId}/parameters'' ''admin''\<lparr>row_database := True\<rparr>,
     project_route [POST] ''/api/provision/{projectId}/database'' ''admin'',
     project_route [GET] ''/api/provision/{projectId}/metrics/current'' ''viewer''\<lparr>row_database := True,
        row_mysql := True, row_discloses := No_Secret\<rparr>,
     project_route [GET] ''/api/provision/{projectId}/metrics/history'' ''viewer''\<lparr>row_database := True,
        row_mysql := True, row_discloses := No_Secret\<rparr>,
     project_route [GET] ''/api/provision/{projectId}/performance/summary'' ''viewer''\<lparr>row_database := True,
        row_discloses := No_Secret\<rparr>,
     project_route [GET] ''/api/provision/{projectId}/performance/top-queries'' ''viewer''\<lparr>row_database := True,
        row_discloses := No_Secret\<rparr>,
     project_route [GET] ''/api/provision/{projectId}/performance/wait-events'' ''viewer''\<lparr>row_database := True,
        row_discloses := No_Secret\<rparr>,
     project_route [GET] ''/api/provision/{projectId}/requests'' ''viewer''\<lparr>row_database := True,
        row_mysql := True, row_discloses := No_Secret\<rparr>,
     project_route [GET] ''/api/provision/{projectId}/slow-queries/'' ''viewer''\<lparr>row_database := True,
        row_mysql := True, row_discloses := No_Secret\<rparr>,
     project_route [POST] ''/api/provision/{projectId}/slow-queries/reset'' ''developer''\<lparr>row_database := True,
        row_mysql := True\<rparr>,
     project_route [POST] ''/api/provision/{projectId}/slow-queries/enable'' ''admin''\<lparr>row_database := True,
        row_mysql := True\<rparr>,
     project_route [GET] ''/api/provision/{projectId}/audit/config'' ''developer''\<lparr>row_database := True,
        row_discloses := No_Secret\<rparr>,
     project_route [GET] ''/api/provision/{projectId}/audit/logs'' ''developer''\<lparr>row_database := True,
        row_discloses := No_Secret\<rparr>,
     project_route [POST] ''/api/provision/{projectId}/audit/enable'' ''developer''\<lparr>row_database := True\<rparr>,
     project_route [GET] ''/api/provision/{projectId}/migrations/'' ''developer''\<lparr>row_database := True,
        row_mysql_refusal := mysql_no_migrations, row_discloses := No_Secret\<rparr>,
     project_route [POST] ''/api/provision/{projectId}/migrations/'' ''developer''\<lparr>row_database := True,
        row_mysql_refusal := mysql_no_migrations\<rparr>,
     project_route [GET] ''/api/provision/{projectId}/advisors'' ''developer''\<lparr>row_discloses := No_Secret,
        row_database := True, row_mysql := True\<rparr>,
     project_route [GET] ''/api/provision/{projectId}/permissions/'' ''developer''\<lparr>row_capability := ''policies:read'',
        row_discloses := No_Secret, row_database := True, row_mysql := True\<rparr>,
     project_route [PUT] ''/api/provision/{projectId}/permissions/tables/{table}/roles/{role}/{operation}'' ''developer''\<lparr>row_database := True,
        row_mysql := True\<rparr>,
     project_route [DELETE] ''/api/provision/{projectId}/permissions/tables/{table}/roles/{role}/{operation}'' ''developer''\<lparr>row_database := True,
        row_mysql := True\<rparr>,
     project_route [POST] ''/api/provision/{projectId}/tracked-functions/'' ''developer''\<lparr>row_database := True,
        row_mysql_refusal := mysql_no_tracked_functions\<rparr>,
     project_route [DELETE] ''/api/provision/{projectId}/tracked-functions/{function}'' ''developer''\<lparr>row_database := True,
        row_mysql_refusal := mysql_no_tracked_functions\<rparr>,
     project_route [PUT] ''/api/provision/{projectId}/function-permissions/{function}/roles/{role}'' ''developer''\<lparr>row_database := True,
        row_mysql_refusal := mysql_no_tracked_functions\<rparr>,
     project_route [DELETE] ''/api/provision/{projectId}/function-permissions/{function}/roles/{role}'' ''developer''\<lparr>row_database := True,
        row_mysql_refusal := mysql_no_tracked_functions\<rparr>,
     project_route [POST] ''/api/provision/{projectId}/backup/trigger'' ''admin''\<lparr>row_database := True,
        row_mysql := True\<rparr>,
     project_route [GET] ''/api/provision/{projectId}/backup/list'' ''admin''\<lparr>row_database := True,
        row_discloses := No_Secret, row_mysql := True\<rparr>,
     project_route [POST] ''/api/provision/{projectId}/backup/restore'' ''admin''\<lparr>row_database := True,
        row_mysql := True\<rparr>,
     project_route [POST] ''/api/provision/{projectId}/backup/copy'' ''admin''\<lparr>row_database := True,
        row_mysql := True\<rparr>,
     project_route [GET] ''/api/provision/{projectId}/backup/restore/{jobId}'' ''admin''\<lparr>row_discloses := No_Secret,
        row_database := True, row_mysql := True\<rparr>,
     project_route [GET] ''/api/provision/{projectId}/backup/wal-lag'' ''admin''\<lparr>row_database := True,
        row_discloses := No_Secret\<rparr>,
     project_route [POST] ''/api/provision/{projectId}/backup/schedule'' ''admin''\<lparr>row_database := True\<rparr>,
     project_route [DELETE] ''/api/provision/{projectId}/backup/schedule'' ''admin''\<lparr>row_database := True\<rparr>,
     project_route [POST] ''/api/provision/{projectId}/snapshot/export'' ''admin''\<lparr>row_database := True\<rparr>,
     project_route [GET] ''/api/provision/{projectId}/snapshot/'' ''admin''\<lparr>row_database := True,
        row_discloses := No_Secret\<rparr>,
     project_route [GET] ''/api/provision/{projectId}/snapshot/{snapshotId}/download'' ''admin''\<lparr>row_discloses := No_Secret,
        row_database := True\<rparr>,
     project_route [DELETE] ''/api/provision/{projectId}/snapshot/{snapshotId}'' ''admin''\<lparr>row_database := True\<rparr>]"

definition databases_route :: string where
  "databases_route = ''/api/projects/{projectId}/documentdb/databases''"

definition collections_route :: string where
  "collections_route = databases_route @ ''/{database}/collections''"

definition collection_route :: string where
  "collection_route = collections_route @ ''/{collection}''"

definition documents_route :: string where
  "documents_route = collection_route @ ''/documents''"

definition indexes_route :: string where
  "indexes_route = collection_route @ ''/indexes''"

definition tus_reads :: "http_method list" where
  "tus_reads = [GET, HEAD]"

definition tus_writes :: "http_method list" where
  "tus_writes = [Other_Method ''CONNECT'', DELETE, OPTIONS, PATCH, POST, PUT, Other_Method ''TRACE'']"

definition project_rows :: "route_row list" where
  "project_rows =
    [project_route [GET] ''/api/projects/{projectId}/info/'' ''viewer''\<lparr>row_capability := ''projects:info:read'',
        row_discloses := No_Secret\<rparr>,
     project_route [GET] ''/api/alerts/project/{projectId}/'' ''viewer''\<lparr>row_discloses := No_Secret\<rparr>,
     project_route [GET] ''/api/projects/{projectId}/functions/'' ''viewer''\<lparr>row_discloses := No_Secret\<rparr>,
     project_route [GET] ''/api/projects/{projectId}/functions/_metadata'' ''viewer''\<lparr>row_discloses := No_Secret\<rparr>,
     project_route [GET] ''/api/projects/{projectId}/functions/runtime/status'' ''viewer''\<lparr>row_discloses := No_Secret\<rparr>,
     project_route [GET] ''/api/projects/{projectId}/functions/{fnId}/'' ''viewer''\<lparr>row_discloses := No_Secret\<rparr>,
     project_route [GET] ''/api/projects/{projectId}/functions/{fnId}/logs'' ''viewer''\<lparr>row_discloses := No_Secret\<rparr>,
     project_route [POST] ''/api/projects/{projectId}/functions/'' ''developer'',
     project_route [DELETE] ''/api/projects/{projectId}/functions/{fnId}/'' ''developer'',
     project_route [POST] ''/api/projects/{projectId}/functions/{fnId}/invoke'' ''developer'',
     project_route [GET] ''/api/projects/{projectId}/functions/secrets'' ''developer''\<lparr>row_discloses := No_Secret\<rparr>,
     project_route [POST] ''/api/projects/{projectId}/functions/secrets'' ''developer'',
     project_route [DELETE] ''/api/projects/{projectId}/functions/secrets/{key}'' ''developer'',
     project_route [GET] ''/api/projects/{projectId}/functions/egress'' ''developer''\<lparr>row_discloses := No_Secret\<rparr>,
     project_route [PUT] ''/api/projects/{projectId}/functions/egress'' ''developer'',
     project_route [POST] ''/api/projects/{projectId}/schema/apply'' ''developer''\<lparr>row_database := True\<rparr>,
     project_route [GET] ''/api/projects/{projectId}/cors/'' ''developer''\<lparr>row_discloses := No_Secret\<rparr>,
     project_route [PUT] ''/api/projects/{projectId}/cors/'' ''developer'',
     project_route [POST] ''/api/projects/{projectId}/cors/origins'' ''developer'',
     project_route [DELETE] ''/api/projects/{projectId}/cors/origins'' ''developer'',
     project_route [GET] ''/api/projects/{projectId}/db-endpoint/'' ''developer''\<lparr>row_discloses := No_Secret,
        row_database := True, row_mysql := True\<rparr>,
     project_route [PUT] ''/api/projects/{projectId}/db-endpoint/'' ''admin''\<lparr>row_database := True,
        row_mysql := True\<rparr>,
     project_route [GET] ''/api/projects/{projectId}/containers/metrics'' ''viewer''\<lparr>row_discloses := No_Secret\<rparr>,
     project_route [GET] ''/api/projects/{projectId}/db-endpoint/allowed-sources/'' ''developer''\<lparr>row_discloses := No_Secret,
        row_database := True, row_mysql := True\<rparr>,
     project_route [PUT] ''/api/projects/{projectId}/db-endpoint/allowed-sources/'' ''admin''\<lparr>row_database := True,
        row_mysql := True\<rparr>,
     project_route [GET] ''/api/projects/{projectId}/db-read-address/'' ''developer''\<lparr>row_discloses := No_Secret,
        row_database := True, row_mysql := True\<rparr>,
     project_route [PUT] ''/api/projects/{projectId}/db-read-address/'' ''admin''\<lparr>row_database := True,
        row_mysql := True\<rparr>,
     project_route [GET] ''/api/projects/{projectId}/metrics/'' ''viewer''\<lparr>row_metrics_key := True,
        row_discloses := No_Secret\<rparr>,
     project_route [GET] ''/api/projects/{projectId}/log-drains/'' ''admin''\<lparr>row_discloses := No_Secret\<rparr>,
     project_route [POST] ''/api/projects/{projectId}/log-drains/'' ''admin'',
     project_route [PATCH] ''/api/projects/{projectId}/log-drains/{drainId}'' ''admin'',
     project_route [DELETE] ''/api/projects/{projectId}/log-drains/{drainId}'' ''admin'',
     project_route [GET] ''/api/projects/{projectId}/metrics-keys/'' ''admin''\<lparr>row_discloses := No_Secret\<rparr>,
     project_route [POST] ''/api/projects/{projectId}/metrics-keys/'' ''admin'',
     project_route [DELETE] ''/api/projects/{projectId}/metrics-keys/{keyId}'' ''admin'',
     route [GET] ''/api/projects/{projectId}/sdk-keys/'' Auth_Session\<lparr>row_param := param_project,
        row_owner := Owner_Project_Access, row_discloses := No_Secret\<rparr>,
     project_route [POST] ''/api/projects/{projectId}/sdk-keys/'' ''developer'',
     project_route [DELETE] ''/api/projects/{projectId}/sdk-keys/{keyId}'' ''developer'',
     project_route [GET] ''/api/projects/{projectId}/ai-activity/'' ''developer''\<lparr>row_discloses := No_Secret\<rparr>,
     project_route [DELETE] ''/api/projects/{projectId}/ai-activity/tokens/{tokenHash}'' ''developer'',
     project_route [GET] ''/api/projects/{projectId}/end-users/'' ''admin''\<lparr>row_discloses := No_Secret\<rparr>,
     project_route [GET] ''/api/projects/{projectId}/end-users/{userId}'' ''admin''\<lparr>row_discloses := No_Secret\<rparr>,
     project_route [PATCH] ''/api/projects/{projectId}/end-users/{userId}'' ''admin'',
     project_route [DELETE] ''/api/projects/{projectId}/end-users/{userId}'' ''admin'',
     project_route [DELETE] ''/api/projects/{projectId}/end-users/{userId}/factors'' ''admin'',
     project_route [PUT] ''/api/projects/{projectId}/end-users/{userId}/role'' ''admin'',
     project_route [GET] ''/api/projects/{projectId}/auth-settings/'' ''developer''\<lparr>row_discloses := No_Secret\<rparr>,
     project_route [PUT] ''/api/projects/{projectId}/auth-settings/'' ''admin'',
     project_route [PUT] ''/api/projects/{projectId}/auth-settings/guest-captcha'' ''admin'',
     project_route [PUT] ''/api/projects/{projectId}/auth-settings/mfa'' ''admin'',
     project_route [DELETE] ''/api/projects/{projectId}/auth-settings/guest-captcha'' ''admin'',
     project_route [GET] ''/api/projects/{projectId}/auth-providers/'' ''developer''\<lparr>row_discloses := No_Secret\<rparr>,
     project_route [PUT] ''/api/projects/{projectId}/auth-providers/{provider}'' ''admin'',
     project_route [DELETE] ''/api/projects/{projectId}/auth-providers/{provider}'' ''admin'',
     project_route [GET] ''/api/projects/{projectId}/auth-hooks/'' ''developer''\<lparr>row_discloses := Secret_Material\<rparr>,
     project_route [PUT] ''/api/projects/{projectId}/auth-hooks/{hook}'' ''admin'',
     project_route [POST] ''/api/projects/{projectId}/auth-hooks/secret'' ''admin'',
     project_route [DELETE] ''/api/projects/{projectId}/auth-hooks/secret'' ''admin'',
     project_route [GET] ''/api/projects/{projectId}/realtime/tables'' ''viewer''\<lparr>row_database := True,
        row_mysql_refusal := mysql_no_realtime, row_discloses := No_Secret\<rparr>,
     project_route [PUT] ''/api/projects/{projectId}/realtime/tables/{schema}/{table}'' ''developer''\<lparr>row_database := True,
        row_mysql_refusal := mysql_no_realtime\<rparr>,
     project_route [DELETE] ''/api/projects/{projectId}/realtime/tables/{schema}/{table}'' ''developer''\<lparr>row_database := True,
        row_mysql_refusal := mysql_no_realtime\<rparr>,
     project_route [POST] ''/api/projects/{projectId}/realtime/enable-all'' ''developer''\<lparr>row_database := True,
        row_mysql_refusal := mysql_no_realtime\<rparr>,
     project_route [POST] ''/api/projects/{projectId}/realtime/disable-all'' ''developer''\<lparr>row_database := True,
        row_mysql_refusal := mysql_no_realtime\<rparr>,
     project_route [GET] databases_route ''viewer''\<lparr>row_database := True, row_discloses := No_Secret\<rparr>,
     project_route [GET] collections_route ''viewer''\<lparr>row_database := True, row_discloses := No_Secret\<rparr>,
     project_route [POST] collections_route ''developer''\<lparr>row_database := True\<rparr>,
     project_route [DELETE] (collection_route @ ''/'') ''developer''\<lparr>row_database := True\<rparr>,
     project_route [GET] documents_route ''viewer''\<lparr>row_database := True, row_discloses := No_Secret\<rparr>,
     project_route [POST] documents_route ''developer''\<lparr>row_database := True\<rparr>,
     project_route [PUT] documents_route ''developer''\<lparr>row_database := True\<rparr>,
     project_route [PATCH] documents_route ''developer''\<lparr>row_database := True\<rparr>,
     project_route [DELETE] documents_route ''developer''\<lparr>row_database := True\<rparr>,
     project_route [GET] (collection_route @ ''/count'') ''viewer''\<lparr>row_database := True,
        row_discloses := No_Secret\<rparr>,
     project_route [GET] (collection_route @ ''/sample'') ''viewer''\<lparr>row_database := True,
        row_discloses := No_Secret\<rparr>,
     project_route [GET] indexes_route ''viewer''\<lparr>row_database := True, row_discloses := No_Secret\<rparr>,
     project_route [POST] indexes_route ''developer''\<lparr>row_database := True\<rparr>,
     project_route [DELETE] (collection_route @ ''/indexes/{index}'') ''developer''\<lparr>row_database := True\<rparr>,
     project_route [GET] ''/api/projects/{projectId}/storage/buckets'' ''viewer''\<lparr>row_discloses := No_Secret\<rparr>,
     project_route [GET] ''/api/projects/{projectId}/storage/buckets/{bucket}/objects'' ''viewer''\<lparr>row_discloses := No_Secret\<rparr>,
     project_route [GET] ''/api/projects/{projectId}/storage/buckets/{bucket}/objects/*'' ''viewer''\<lparr>row_discloses := No_Secret\<rparr>,
     project_route [GET] ''/api/projects/{projectId}/storage/buckets/{bucket}/download-url/*'' ''viewer''\<lparr>row_discloses := No_Secret\<rparr>,
     project_route [POST] ''/api/projects/{projectId}/storage/buckets'' ''developer'',
     project_route [DELETE] ''/api/projects/{projectId}/storage/buckets/{bucket}'' ''developer'',
     project_route [POST] ''/api/projects/{projectId}/storage/buckets/{bucket}/upload-url'' ''developer'',
     project_route [POST] ''/api/projects/{projectId}/storage/buckets/{bucket}/confirm-upload'' ''developer'',
     project_route [DELETE] ''/api/projects/{projectId}/storage/buckets/{bucket}/objects/*'' ''developer'',
     project_route [PUT] ''/api/projects/{projectId}/storage/buckets/{bucket}/access'' ''developer'',
     project_route [GET] ''/api/projects/{projectId}/storage/s3-keys'' ''viewer''\<lparr>row_discloses := No_Secret\<rparr>,
     project_route [POST] ''/api/projects/{projectId}/storage/s3-keys'' ''developer'',
     project_route [DELETE] ''/api/projects/{projectId}/storage/s3-keys/{keyId}'' ''developer'',
     project_route tus_reads ''/api/projects/{projectId}/storage/tus'' ''viewer''\<lparr>row_discloses := No_Secret\<rparr>,
     project_route tus_writes ''/api/projects/{projectId}/storage/tus'' ''developer'',
     project_route tus_reads ''/api/projects/{projectId}/storage/tus/*'' ''viewer''\<lparr>row_discloses := No_Secret\<rparr>,
     project_route tus_writes ''/api/projects/{projectId}/storage/tus/*'' ''developer'']"

definition runtime_rows :: "route_row list" where
  "runtime_rows =
    [route [GET] ''/storage/v1/object/public/{projectId}/{bucket}/*'' Auth_Public\<lparr>row_param := param_project,
        row_owner := Owner_Bucket_Visibility, row_discloses := No_Secret\<rparr>,
     route method_all ''/functions/v1/{projectId}/http/*'' Auth_Function_JWT\<lparr>row_param := param_project,
        row_owner := Owner_Function_Audience, row_discloses := No_Secret\<rparr>,
     route method_all ''/functions/v1/{projectId}/{fnId}'' Auth_Function_JWT\<lparr>row_param := param_project,
        row_owner := Owner_Function_Audience, row_discloses := No_Secret\<rparr>,
     route [POST] ''/storage/v1/{projectId}/buckets/{bucket}/upload-url'' Auth_Function_JWT\<lparr>row_param := param_project,
        row_owner := Owner_Bucket_Access\<rparr>,
     route [POST] ''/storage/v1/{projectId}/buckets/{bucket}/confirm-upload'' Auth_Function_JWT\<lparr>row_param := param_project,
        row_owner := Owner_Bucket_Access\<rparr>,
     route [GET] ''/storage/v1/{projectId}/buckets/{bucket}/objects'' Auth_Function_JWT\<lparr>row_param := param_project,
        row_owner := Owner_Bucket_Access, row_discloses := No_Secret\<rparr>,
     route [GET] ''/storage/v1/{projectId}/buckets/{bucket}/download-url/*'' Auth_Function_JWT\<lparr>row_param := param_project,
        row_owner := Owner_Bucket_Access, row_discloses := No_Secret\<rparr>,
     route [DELETE] ''/storage/v1/{projectId}/buckets/{bucket}/objects/*'' Auth_Function_JWT\<lparr>row_param := param_project,
        row_owner := Owner_Bucket_Access\<rparr>,
     route [GET, POST] ''/internal/registry/token'' Auth_Registry_Pull\<lparr>row_owner := Owner_Pull_Credential,
        row_discloses := No_Secret\<rparr>,
     project_route [POST] ''/api/projects/{projectId}/internal-registry/pull-credential/rotate'' ''admin'',
     route [POST] ''/internal/log-forwarder/pull'' Auth_Forwarder_Token\<lparr>row_owner := Owner_Forwarder_Token\<rparr>,
     route [POST] ''/internal/log-forwarder/ack'' Auth_Forwarder_Token\<lparr>row_owner := Owner_Forwarder_Token\<rparr>,
     route [POST] ''/internal/runtime/functions/{fnId}/metadata'' Auth_Runtime_Token\<lparr>row_owner := Owner_Runtime_Secret\<rparr>,
     route [POST] ''/internal/invoke/{projectId}/{fnId}'' Auth_Runtime_Token\<lparr>row_param := param_project,
        row_owner := Owner_Runtime_Secret\<rparr>,
     route [POST] ''/internal/runtime/projects/{projectId}/scheduler'' Auth_Runtime_Token\<lparr>row_param := param_project,
        row_owner := Owner_Runtime_Secret\<rparr>,
     route [POST] ''/internal/storage/{projectId}/upload-url'' Auth_Runtime_Token\<lparr>row_param := param_project,
        row_owner := Owner_Runtime_Secret\<rparr>,
     route [POST] ''/internal/storage/{projectId}/confirm-upload'' Auth_Runtime_Token\<lparr>row_param := param_project,
        row_owner := Owner_Runtime_Secret\<rparr>,
     route [POST] ''/internal/storage/{projectId}/download-url'' Auth_Runtime_Token\<lparr>row_param := param_project,
        row_owner := Owner_Runtime_Secret\<rparr>,
     route [GET] ''/internal/storage/{projectId}/metadata/{storageId}'' Auth_Runtime_Token\<lparr>row_param := param_project,
        row_owner := Owner_Runtime_Secret, row_discloses := No_Secret\<rparr>,
     route [DELETE] ''/internal/storage/{projectId}/{storageId}'' Auth_Runtime_Token\<lparr>row_param := param_project,
        row_owner := Owner_Runtime_Secret\<rparr>,
     route [POST] ''/internal/email/send'' Auth_Session\<lparr>row_capability := ''email:send'',
        row_service_only := True\<rparr>]"

text \<open>The studio's schema browser and editor.\<close>

definition schema_read :: "string \<Rightarrow> route_row" where
  "schema_read pattern =
    (project_route [GET] (''/api/schema/{projectId}'' @ pattern) ''viewer'')\<lparr>row_database := True, row_discloses := No_Secret\<rparr>"

definition schema_write :: "http_method \<Rightarrow> string \<Rightarrow> route_row" where
  "schema_write m pattern =
    (project_route [m] (''/api/schema/{projectId}'' @ pattern) ''developer'')\<lparr>row_database := True\<rparr>"

definition table_rows_pattern :: string where
  "table_rows_pattern = ''/tables/{tableName}/rows''"

definition mysql_capable :: "route_row \<Rightarrow> route_row" where
  "mysql_capable r = r\<lparr>row_mysql := True\<rparr>"

definition refused_on_mysql :: "route_row \<Rightarrow> string \<Rightarrow> route_row" where
  "refused_on_mysql r reason = r\<lparr>row_mysql_refusal := reason\<rparr>"

definition schema_read_rows :: "route_row list" where
  "schema_read_rows =
    [refused_on_mysql (schema_read ''/advisors/performance'') mysql_no_advisors,
     refused_on_mysql (schema_read ''/advisors/security'') mysql_no_advisors,
     mysql_capable (schema_read ''/connection-test''),
     refused_on_mysql (schema_read ''/extensions'') mysql_no_extensions,
     refused_on_mysql (schema_read ''/functions'') mysql_no_tracked_functions,
     refused_on_mysql (schema_read ''/policies'') mysql_no_policies,
     project_route [GET] ''/api/schema/{projectId}/query'' ''developer''\<lparr>row_database := True,
        row_discloses := No_Secret, row_mysql := True\<rparr>,
     mysql_capable (schema_read ''/relationships''),
     refused_on_mysql (schema_read ''/roles'') mysql_no_roles,
     mysql_capable (schema_read ''/tables''),
     mysql_capable (schema_read ''/tables/{tableName}/columns''),
     mysql_capable (schema_read ''/tables/{tableName}/indexes''),
     mysql_capable (schema_read ''/tables/{tableName}/checks''),
     mysql_capable (schema_read table_rows_pattern),
     refused_on_mysql (schema_read ''/triggers'') mysql_no_triggers,
     refused_on_mysql (schema_read ''/types'') mysql_no_types]"

definition schema_write_rows :: "route_row list" where
  "schema_write_rows =
    [mysql_capable (schema_write POST ''/ddl''),
     schema_write POST ''/import'',
     schema_write POST ''/import/preview'',
     mysql_capable (schema_write POST ''/query''),
     refused_on_mysql (schema_write POST ''/extensions'') mysql_no_extensions,
     refused_on_mysql (schema_write POST ''/functions'') mysql_no_tracked_functions,
     mysql_capable (schema_write POST ''/indexes''),
     refused_on_mysql (schema_write POST ''/policies'') mysql_no_policies,
     refused_on_mysql (schema_write POST ''/roles'') mysql_no_roles,
     mysql_capable (schema_write POST ''/tables''),
     refused_on_mysql (schema_write POST ''/triggers'') mysql_no_triggers,
     mysql_capable (schema_write POST ''/tables/{tableName}/columns''),
     mysql_capable (schema_write POST table_rows_pattern),
     schema_write PATCH ''/tables/{tableName}'',
     schema_write PATCH ''/tables/{tableName}/columns/{columnName}'',
     mysql_capable (schema_write PATCH table_rows_pattern),
     refused_on_mysql (schema_write DELETE ''/extensions/{extName}'') mysql_no_extensions,
     refused_on_mysql (schema_write DELETE ''/functions/{funcName}'') mysql_no_tracked_functions,
     mysql_capable (schema_write DELETE ''/indexes/{indexName}''),
     refused_on_mysql (schema_write DELETE ''/policies/{policyName}'') mysql_no_policies,
     refused_on_mysql (schema_write DELETE ''/roles/{roleName}'') mysql_no_roles,
     refused_on_mysql (schema_write DELETE ''/triggers/{triggerName}'') mysql_no_triggers,
     mysql_capable (schema_write DELETE ''/tables/{tableName}''),
     mysql_capable (schema_write DELETE ''/tables/{tableName}/columns/{columnName}''),
     mysql_capable (schema_write DELETE table_rows_pattern)]"

definition schema_rows :: "route_row list" where
  "schema_rows = schema_read_rows @ schema_write_rows"

definition app_path :: string where
  "app_path = ''/api/projects/{projectId}/apps/{appId}/''"

definition app_rows :: "route_row list" where
  "app_rows =
    [project_route [GET] ''/api/projects/{projectId}/apps/'' ''viewer''\<lparr>row_discloses := No_Secret\<rparr>,
     project_route [GET] app_path ''viewer''\<lparr>row_discloses := No_Secret\<rparr>,
     project_route [POST] ''/api/projects/{projectId}/apps/'' ''developer'',
     project_route [PATCH] app_path ''developer'',
     project_route [DELETE] app_path ''developer'',
     project_route [POST] ''/api/projects/{projectId}/apps/{appId}/pause'' ''developer'',
     project_route [POST] ''/api/projects/{projectId}/apps/{appId}/resume'' ''developer'',
     project_route [POST] ''/api/projects/{projectId}/apps/{appId}/disk'' ''developer'',
     project_route [GET] ''/api/projects/{projectId}/apps/{appId}/disk'' ''developer''\<lparr>row_discloses := No_Secret\<rparr>,
     project_route [POST] ''/api/projects/{projectId}/apps/{appId}/deploy'' ''developer'',
     project_route [GET] ''/api/projects/{projectId}/apps/{appId}/logs'' ''viewer''\<lparr>row_discloses := No_Secret\<rparr>,
     project_route [GET] ''/api/projects/{projectId}/apps/{appId}/deploys'' ''viewer''\<lparr>row_discloses := No_Secret\<rparr>,
     project_route [GET] ''/api/projects/{projectId}/apps/{appId}/deploys/{deployId}'' ''viewer''\<lparr>row_discloses := No_Secret\<rparr>,
     project_route [POST] ''/api/projects/{projectId}/apps/{appId}/deploys/{deployId}/redeploy'' ''developer'',
     project_route [PUT] ''/api/projects/{projectId}/apps/{appId}/secrets/{name}'' ''developer'',
     project_route [GET] ''/api/projects/{projectId}/app-network/'' ''viewer''\<lparr>row_discloses := No_Secret\<rparr>,
     project_route [PUT] ''/api/projects/{projectId}/app-network/'' ''admin'',
     project_route [GET] ''/api/projects/{projectId}/app-templates/'' ''viewer''\<lparr>row_discloses := No_Secret\<rparr>,
     project_route [GET] ''/api/projects/{projectId}/app-templates/{templateId}'' ''viewer''\<lparr>row_discloses := No_Secret\<rparr>,
     project_route [POST] ''/api/projects/{projectId}/app-templates/{templateId}/deploy'' ''developer'',
     project_route [GET] ''/api/projects/{projectId}/registry-credentials/'' ''viewer''\<lparr>row_discloses := No_Secret\<rparr>,
     project_route [PUT] ''/api/projects/{projectId}/registry-credentials/{registry}'' ''developer'',
     project_route [DELETE] ''/api/projects/{projectId}/registry-credentials/{registry}'' ''developer'',
     project_route [GET] ''/api/projects/{projectId}/apps/{appId}/certificate'' ''viewer''\<lparr>row_discloses := No_Secret\<rparr>,
     project_route [GET] ''/api/projects/{projectId}/apps/{appId}/domains/'' ''viewer''\<lparr>row_discloses := No_Secret\<rparr>,
     project_route [POST] ''/api/projects/{projectId}/apps/{appId}/domains/'' ''developer'',
     project_route [POST] ''/api/projects/{projectId}/apps/{appId}/domains/{domainId}/verify'' ''developer'',
     project_route [DELETE] ''/api/projects/{projectId}/apps/{appId}/domains/{domainId}'' ''developer'']"

definition site_path :: string where
  "site_path = ''/api/projects/{projectId}/sites/{siteId}/''"

definition site_rows :: "route_row list" where
  "site_rows =
    [project_route [GET] ''/api/projects/{projectId}/sites/'' ''viewer''\<lparr>row_discloses := No_Secret\<rparr>,
     project_route [POST] ''/api/projects/{projectId}/sites/'' ''developer'',
     project_route [GET] site_path ''viewer''\<lparr>row_discloses := No_Secret\<rparr>,
     project_route [PATCH] site_path ''developer'',
     project_route [DELETE] site_path ''developer'',
     project_route [POST] ''/api/projects/{projectId}/sites/{siteId}/deploy'' ''developer''\<lparr>row_site_deploy := True\<rparr>,
     project_route [GET] ''/api/projects/{projectId}/sites/{siteId}/deploys'' ''viewer''\<lparr>row_discloses := No_Secret,
        row_site_deploy := True\<rparr>,
     project_route [GET] ''/api/projects/{projectId}/sites/{siteId}/deploys/{deployId}'' ''viewer''\<lparr>row_discloses := No_Secret,
        row_site_deploy := True\<rparr>,
     project_route [GET] ''/api/projects/{projectId}/sites/limits'' ''viewer''\<lparr>row_discloses := No_Secret\<rparr>,
     project_route [GET] ''/api/projects/{projectId}/sites/{siteId}/tokens'' ''developer''\<lparr>row_discloses := No_Secret\<rparr>,
     project_route [POST] ''/api/projects/{projectId}/sites/{siteId}/tokens'' ''developer'',
     project_route [DELETE] ''/api/projects/{projectId}/sites/{siteId}/tokens/{tokenId}'' ''developer'',
     project_route [POST] ''/api/projects/{projectId}/sites/{siteId}/deploys/{deployId}/rollback'' ''developer'',
     project_route [GET] ''/api/projects/{projectId}/sites/{siteId}/domains'' ''viewer''\<lparr>row_discloses := No_Secret\<rparr>,
     project_route [POST] ''/api/projects/{projectId}/sites/{siteId}/domains'' ''developer'',
     project_route [POST] ''/api/projects/{projectId}/sites/{siteId}/domains/{domainId}/refresh'' ''developer'',
     project_route [DELETE] ''/api/projects/{projectId}/sites/{siteId}/domains/{domainId}'' ''developer'']"

definition site_build_path :: string where
  "site_build_path = ''/api/projects/{projectId}/sites/{siteId}/''"

definition site_build_rows :: "route_row list" where
  "site_build_rows =
    [project_route [GET] ''/api/projects/{projectId}/sites/build-secrets'' ''developer''\<lparr>row_discloses := No_Secret\<rparr>,
     project_route [PUT] ''/api/projects/{projectId}/sites/build-secrets'' ''developer'',
     project_route [GET] (site_build_path @ ''git'') ''viewer''\<lparr>row_discloses := No_Secret\<rparr>,
     project_route [PUT] (site_build_path @ ''git'') ''developer'',
     project_route [DELETE] (site_build_path @ ''git'') ''developer'',
     project_route [POST] (site_build_path @ ''git/sign-in'') ''developer'',
     project_route [GET] (site_build_path @ ''git/repositories'') ''developer''\<lparr>row_discloses := No_Secret\<rparr>,
     project_route [GET] (site_build_path @ ''builds'') ''viewer''\<lparr>row_discloses := No_Secret\<rparr>,
     project_route [POST] (site_build_path @ ''builds'') ''developer'',
     project_route [GET] (site_build_path @ ''builds/{buildId}'') ''developer''\<lparr>row_discloses := No_Secret\<rparr>,
     project_route [GET] (site_build_path @ ''previews'') ''viewer''\<lparr>row_discloses := No_Secret\<rparr>,
     project_route [PUT] (site_build_path @ ''previews/mode'') ''developer'',
     project_route [PUT] (site_build_path @ ''previews/access'') ''admin'',
     project_route [DELETE] (site_build_path @ ''previews/{previewId}'') ''developer'',
     route [POST] ''/api/sites/github/webhook'' Auth_Public,
     route [GET] ''/api/sites/github/callback'' Auth_Public\<lparr>row_discloses := No_Secret\<rparr>]"

definition app_build_path :: string where
  "app_build_path = ''/api/projects/{projectId}/apps/{appId}/''"

definition app_build_rows :: "route_row list" where
  "app_build_rows =
    [project_route [GET] (app_build_path @ ''git'') ''viewer''\<lparr>row_discloses := No_Secret\<rparr>,
     project_route [PUT] (app_build_path @ ''git'') ''developer'',
     project_route [DELETE] (app_build_path @ ''git'') ''developer'',
     project_route [POST] (app_build_path @ ''git/sign-in'') ''developer'',
     project_route [GET] (app_build_path @ ''git/repositories'') ''developer''\<lparr>row_discloses := No_Secret\<rparr>,
     project_route [GET] (app_build_path @ ''builds'') ''viewer''\<lparr>row_discloses := No_Secret\<rparr>,
     project_route [POST] (app_build_path @ ''builds'') ''developer'',
     project_route [GET] (app_build_path @ ''builds/{buildId}'') ''developer''\<lparr>row_discloses := No_Secret\<rparr>]"

definition route_table :: "route_row list" where
  "route_table = public_rows @ platform_rows @ org_rows @ vault_rows @ provision_rows @ schema_rows @ project_rows @
    app_rows @ site_rows @ site_build_rows @ app_build_rows @ runtime_rows"

lemmas route_tables = route_table_def public_rows_def platform_rows_def org_rows_def vault_rows_def provision_rows_def
  schema_rows_def schema_read_rows_def schema_write_rows_def project_rows_def app_rows_def site_rows_def
  site_build_rows_def app_build_rows_def runtime_rows_def

end
