(* ===== verification/Route_Policy_Correct.thy ===== *)
theory Route_Policy_Correct
  imports Route_Table Vault_Handler
begin

text \<open>
  What the route authorization table guarantees: its rows keep to the role ladder of \<^verbatim>\<open>policy.go\<close>, and the outcome
  it declares for a project route is the one the gates of \<open>Project_Access\<close> produce.
\<close>

section \<open>Every row is well formed\<close>

lemmas row_shapes = route_def project_route_def platform_route_def schema_read_def schema_write_def mysql_capable_def
  refused_on_mysql_def

lemmas method_sets = tus_reads_def tus_writes_def method_all_def method_all_name_def all_methods_def

text \<open>
  The invariants of a row: a minimum role only where there is a tenant, ownership resolved wherever a project is
  bound, a service-only route names its capability, material is disclosed only behind \<open>RequireAuth\<close>, every route that
  serves a read decides whether it discloses; and the ladder: a project route a session may write to requires at least
  a developer, and what hands out material requires more than a viewer or a platform permission.
\<close>

definition row_well_formed :: "route_row \<Rightarrow> bool" where
  "row_well_formed r \<longleftrightarrow>
    (row_min_role r \<noteq> [] \<longrightarrow> row_param r \<noteq> param_none) \<and>
    (row_param r \<noteq> param_none \<longrightarrow> row_owner r \<noteq> Owner_None) \<and>
    (row_service_only r \<longrightarrow> row_capability r \<noteq> []) \<and>
    (row_discloses r = Secret_Material \<longrightarrow> row_auth r = Auth_Session) \<and>
    (has_read_method r \<longrightarrow> row_discloses r \<noteq> Undeclared) \<and>
    (row_auth r = Auth_Session \<and> row_param r = param_project \<longrightarrow> row_owner r = Owner_Project_Access) \<and>
    (row_auth r = Auth_Session \<and> row_param r = param_project \<and> list_ex is_write (expand_methods r) \<longrightarrow>
      row_min_role r \<in> {''developer'', ''admin'', ''owner''}) \<and>
    (row_discloses r = Secret_Material \<longrightarrow> row_permission r \<noteq> None \<or> row_min_role r \<in> {''developer'', ''admin'', ''owner''})"

lemmas row_eval = row_well_formed_def row_shapes method_sets param_defs has_read_method_def expand_methods_def is_write_def

lemma rows_well_formed:
  "list_all row_well_formed public_rows" "list_all row_well_formed platform_rows" "list_all row_well_formed org_rows"
  "list_all row_well_formed vault_rows"
  by (simp_all add: row_eval public_rows_def platform_rows_def org_rows_def vault_rows_def)

lemma project_rows_well_formed:
  "list_all row_well_formed provision_rows" "list_all row_well_formed project_rows" "list_all row_well_formed runtime_rows"
  by (simp_all add: row_eval provision_rows_def project_rows_def runtime_rows_def)

lemma app_rows_well_formed:
  "list_all row_well_formed schema_rows" "list_all row_well_formed app_rows" "list_all row_well_formed site_rows"
  "list_all row_well_formed site_build_rows" "list_all row_well_formed app_build_rows"
  by (simp_all add: row_eval schema_rows_def schema_read_rows_def schema_write_rows_def app_rows_def site_rows_def
      site_build_rows_def app_build_rows_def)

lemma table_well_formed: "list_all row_well_formed route_table"
  by (simp add: route_table_def rows_well_formed project_rows_well_formed app_rows_well_formed)

lemma table_row: "row \<in> set route_table \<Longrightarrow> row_well_formed row"
  using table_well_formed by (simp add: list_all_iff)

section \<open>What the table lets through\<close>

lemma developer_rungs: "want \<in> {''developer'', ''admin'', ''owner''} \<Longrightarrow> org_role_at_least have want \<Longrightarrow> org_role_at_least have ''developer''"
  by (auto simp: org_role_at_least_def org_role_rank_def Let_def split: if_splits)

text \<open>
  By the whole table, a caller who is no platform administrator writes to a project through a studio
  credential only as a member of its organisation on the developer rung or above, with a token that may write and is
  not bound to another project; and what discloses credential material is open to no read-only token.
\<close>

theorem table_writes_need_developer:
  assumes "row \<in> set route_table" "row_auth row = Auth_Session" "expect row m p = Allowed" "\<not> pr_platform_admin p"
    and "m \<in> set (expand_methods row)"
  shows "(row_param row = param_project \<and> is_write m \<longrightarrow>
      org_role_at_least (pr_org_role p) ''developer'' \<and> \<not> pr_read_only p \<and> \<not> pr_foreign_project p) \<and>
    (row_discloses row = Secret_Material \<longrightarrow> \<not> pr_read_only p \<and> (row_param row = param_project \<longrightarrow> org_role_at_least (pr_org_role p) ''developer''))"
proof -
  from assms(2,3) have s: "expect_session row m p = Allowed"
    by (auto simp: expect_def expect_capability_token_def split: if_splits)
  with assms(2,4) have gates: "(is_write m \<or> row_discloses row = Secret_Material) \<longrightarrow> \<not> pr_read_only p"
    "row_param row = param_project \<longrightarrow> \<not> pr_foreign_project p" "row_permission row = None" "expect_tenant row p = Allowed"
    by (auto simp: expect_session_def split: if_splits)
  have role: "org_role_at_least (pr_org_role p) (row_min_role row)" if "row_param row = param_project" "row_min_role row \<noteq> []"
    using gates(4) that by (auto simp: expect_tenant_def split: if_splits)
  have wf: "row_well_formed row" by (rule table_row [OF assms(1)])
  have "list_ex is_write (expand_methods row)" if "is_write m" using that assms(5) by (auto simp: list_ex_iff)
  with wf assms(2) have w: "row_min_role row \<in> {''developer'', ''admin'', ''owner''}" if "row_param row = param_project" "is_write m"
    using that by (simp add: row_well_formed_def)
  from wf gates(3) have d: "row_min_role row \<in> {''developer'', ''admin'', ''owner''}" if "row_discloses row = Secret_Material"
    using that by (simp add: row_well_formed_def)
  have dev: "org_role_at_least (pr_org_role p) ''developer''"
    if "row_param row = param_project" "row_min_role row \<in> {''developer'', ''admin'', ''owner''}"
    using developer_rungs [OF that(2)] role [OF that(1)] that(2) by auto
  show ?thesis using gates(1,2) w d dev by blast
qed

definition tenant :: "string \<Rightarrow> principal" where
  "tenant role = \<lparr>pr_anonymous = False, pr_org_role = role, pr_platform_admin = False, pr_read_only = False,
    pr_restricted = False, pr_foreign_project = False, pr_capabilities = [], pr_site_deploy = False, pr_metrics_key = False\<rparr>"

definition reset_row :: route_row where
  "reset_row = project_route [POST] ''/api/provision/{projectId}/slow-queries/reset'' ''developer''
    \<lparr>row_database := True, row_mysql := True\<rparr>"

lemma reset_row: "reset_row \<in> set route_table"
  by (simp add: reset_row_def route_table_def provision_rows_def)

lemma reset_row_fields:
  "row_auth reset_row = Auth_Session" "row_param reset_row = param_project" "row_min_role reset_row = ''developer''"
  "row_methods reset_row = [POST]" "expand_methods reset_row = [POST]" "row_permission reset_row = None"
  "row_discloses reset_row = Undeclared" "\<not> row_service_only reset_row" "\<not> row_unrestricted reset_row"
  "\<not> row_site_deploy reset_row" "\<not> row_metrics_key reset_row"
  by (simp_all add: reset_row_def row_shapes expand_methods_def method_all_name_def)

theorem table_writes_need_developer_witness:
  "expect reset_row POST (tenant ''admin'') = Allowed \<and> org_role_at_least ''admin'' ''developer''"
proof -
  have e: "expect reset_row POST (tenant ''admin'') = Allowed"
    by (simp add: expect_def holds_capabilities_def tenant_def reset_row_fields expect_session_def expect_tenant_def
        param_defs org_role_at_least_def org_role_rank_def)
  with table_writes_need_developer [OF reset_row reset_row_fields(1) e] show ?thesis
    by (simp add: reset_row_fields tenant_def is_write_def)
qed

section \<open>The table and the gates agree\<close>

text \<open>The principal a request's context is, seen from the project its route names.\<close>

definition role_in_project :: "project_stores \<Rightarrow> user \<Rightarrow> string \<Rightarrow> string" where
  "role_in_project st u pid = (case find_project st pid of
     Inr (Some inst) \<Rightarrow> (case get_org_member st (inst_org inst) (user_id u) of
       Inr (Some m) \<Rightarrow> member_role m
     | _ \<Rightarrow> [])
   | _ \<Rightarrow> [])"

definition principal_of :: "project_stores \<Rightarrow> auth_context \<Rightarrow> string \<Rightarrow> principal" where
  "principal_of st c pid =
    \<lparr>pr_anonymous = (ctx_user c = None),
     pr_org_role = (case ctx_user c of None \<Rightarrow> [] | Some u \<Rightarrow> role_in_project st u pid),
     pr_platform_admin = (case ctx_user c of None \<Rightarrow> False | Some u \<Rightarrow> has_permission (user_role u) Manage_Users),
     pr_read_only = (\<not> token_can_write (ctx_token c)),
     pr_restricted = (\<not> is_unrestricted_credential (ctx_token c)),
     pr_foreign_project = (\<not> token_bound_to_project (ctx_token c) pid),
     pr_capabilities = (case ctx_token c of None \<Rightarrow> [] | Some t \<Rightarrow> token_permissions t),
     pr_site_deploy = False, pr_metrics_key = False\<rparr>"


text \<open>A plain project route of the table: a session, the project, a minimum role, and no further gate.\<close>

definition plain_project_row :: "route_row \<Rightarrow> bool" where
  "plain_project_row row \<longleftrightarrow> row_auth row = Auth_Session \<and> row_param row = param_project \<and> row_min_role row \<noteq> [] \<and>
    row_permission row = None \<and> \<not> row_service_only row \<and> \<not> row_unrestricted row \<and> row_discloses row \<noteq> Secret_Material"

text \<open>A request on such a route, behind the root router's gates: a served project, and stores that answer.\<close>

definition on_project_route :: "project_stores \<Rightarrow> scoped_request \<Rightarrow> bool" where
  "on_project_route st r \<longleftrightarrow> sr_access r = None \<and> sr_project r \<noteq> [] \<and> request_method (sr_request r) \<noteq> OPTIONS \<and>
    \<not> is_capability_token (ctx_token (sr_ctx r)) \<and>
    (\<exists>inst. find_project st (sr_project r) = Inr (Some inst) \<and> inst_org inst \<noteq> [] \<and>
      \<not> is_not_servable (inst_status inst) \<and>
      (\<forall>u. \<exists>m. get_org_member st (inst_org inst) u = Inr m \<and> (\<forall>x. m = Some x \<longrightarrow> member_role x \<noteq> [])))"

lemma method_gate: "m \<noteq> OPTIONS \<Longrightarrow> token_allows_method t m \<longleftrightarrow> \<not> (is_write m \<and> \<not> token_can_write t)"
  by (auto simp: token_allows_method_def is_write_def)

lemma expect_plain:
  assumes "plain_project_row row" "m \<noteq> OPTIONS" "pr_capabilities p = []" "\<not> pr_site_deploy p" "\<not> pr_metrics_key p"
  shows "expect row m p = (if pr_anonymous p then Denied 401 else if pr_foreign_project p then Denied 404
    else if is_write m \<and> pr_read_only p then Denied 403 else if pr_platform_admin p then Allowed
    else if pr_org_role p = [] then Denied 404
    else if org_role_at_least (pr_org_role p) (row_min_role row) then Allowed else Denied 403)"
  using assms by (auto simp: expect_def holds_capabilities_def plain_project_row_def expect_session_def expect_tenant_def)



lemma reset_row_plain: "plain_project_row reset_row"
  by (simp add: plain_project_row_def reset_row_fields)

lemma example_on_route: "on_project_route (example_stores ''ACTIVE'') (example_scoped POST ''p1'' path)"
  by (simp add: on_project_route_def example_scoped_def example_ctx_def example_request_def example_stores_def
      example_instance_def is_capability_token_def example_token_def is_not_servable_def is_deletion_status_def)


text \<open>
  The exception is real: \<^verbatim>\<open>expectSession\<close> binds the token to the project before it looks at its scopes, but
  the router authenticates first. A read-only token bound elsewhere that writes to a project is declared to be
  answered 404 and is answered 403, on every plain project route.
\<close>

theorem expect_order_differs:
  assumes "plain_project_row row" "on_project_route st r" "ctx_user (sr_ctx r) = Some u"
    and "\<not> token_bound_to_project (ctx_token (sr_ctx r)) (sr_project r)"
    and "is_write (request_method (sr_request r))" "\<not> token_can_write (ctx_token (sr_ctx r))"
  shows "expect row (request_method (sr_request r)) (principal_of st (sr_ctx r) (sr_project r)) = Denied 404 \<and>
    project_chain (row_min_role row) st True r = Inl 403"
proof
  let ?m = "request_method (sr_request r)" and ?p = "principal_of st (sr_ctx r) (sr_project r)"
  from assms(2) have m: "?m \<noteq> OPTIONS" and caps: "pr_capabilities ?p = []"
    by (auto simp: on_project_route_def principal_of_def is_capability_token_def split: option.splits)
  show "expect row ?m ?p = Denied 404"
    by (subst expect_plain [OF assms(1) m caps]) (simp_all add: principal_of_def assms(3,4))
  show "project_chain (row_min_role row) st True r = Inl 403"
    using assms(3,5,6) method_gate [OF m] by (simp add: project_chain_def require_auth_def)
qed

definition elsewhere_token :: access_token where
  "elsewhere_token = (example_token ''read'' [])\<lparr>token_project := ''p2''\<rparr>"

theorem expect_order_differs_witness:
  "\<exists>r. expect reset_row POST (principal_of (example_stores ''ACTIVE'') (sr_ctx r) ''p1'') = Denied 404 \<and>
    project_chain ''developer'' (example_stores ''ACTIVE'') True r = Inl 403"
proof -
  let ?r = "(example_scoped POST ''p1'' ''/api/x'')\<lparr>sr_ctx := example_ctx ''user'' elsewhere_token\<rparr>"
  have on: "on_project_route (example_stores ''ACTIVE'') ?r"
    using example_on_route [of "''/api/x''"]
    by (simp add: on_project_route_def example_scoped_def example_ctx_def is_capability_token_def elsewhere_token_def
        example_token_def)
  have "\<not> token_can_write (Some elsewhere_token)"
    by (simp add: token_can_write_def elsewhere_token_def example_token_def write_scopes_def token_has_scope_def scope_defs
        trim_space_graphic graphic_def)
  with expect_order_differs [OF reset_row_plain on, of "example_user ''user''"] show ?thesis
    by (intro exI [of _ ?r]) (simp add: reset_row_fields example_scoped_def example_ctx_def example_request_def is_write_def
        token_bound_to_project_def elsewhere_token_def example_token_def)
qed

text \<open>
  The table leaves out the capabilities of the bootstrap principal: it declares that no capability token may
  reach the vault's initialisation, and the gates let the one granted \<open>vault:init\<close> through to it.
\<close>

theorem table_omits_bootstrap:
  "(\<exists>row \<in> set route_table. row_pattern row = ''/api/vault/init'' \<and> row_methods row = [POST] \<and>
      expect row POST ((tenant [])\<lparr>pr_capabilities := [''vault:init'']\<rparr>) = Denied 403) \<and>
   (let t = example_token [] [''vault:init'']; r = example_request POST ''/api/vault/init''
    in capability_gate (Some t) r = Pass \<and> vault_route_gate (example_ctx ''platform_operator'' t) r = Pass)"
proof
  show "\<exists>row \<in> set route_table. row_pattern row = ''/api/vault/init'' \<and> row_methods row = [POST] \<and>
      expect row POST ((tenant [])\<lparr>pr_capabilities := [''vault:init'']\<rparr>) = Denied 403"
  proof
    let ?row = "platform_route [POST] ''/api/vault/init'' View_Credentials\<lparr>row_unrestricted := True\<rparr>"
    show "?row \<in> set route_table" by (simp add: route_table_def vault_rows_def)
    show "row_pattern ?row = ''/api/vault/init'' \<and> row_methods ?row = [POST] \<and>
      expect ?row POST ((tenant [])\<lparr>pr_capabilities := [''vault:init'']\<rparr>) = Denied 403"
      by (simp add: row_shapes expect_def holds_capabilities_def tenant_def expect_capability_token_def)
  qed
  let ?t = "example_token [] [''vault:init'']" and ?r = "example_request POST ''/api/vault/init''"
  have p: "parse_capability ''vault:init'' = Some vault_init_capability"
    by (simp add: parse_capability_def trim_space_graphic graphic_def validate_name_def name_char_def vault_init_capability_def)
  have g: "token_grants (Some ?t) vault_init_capability"
    by (simp add: token_grants_def is_capability_token_def example_token_def p grants_def contains_char)
      (simp add: vault_init_capability_def)
  have c: "normalize_path ''/api/vault/init'' = ''/api/vault/init''"
    by (simp add: normalize_path_def path_clean_def)
  have q: "required_capability POST ''/api/vault/init'' = Some vault_init_capability"
    by (simp add: required_capability_def c)
  have d: "\<not> has_dot_segment ''/api/vault/init''" by (simp add: has_dot_segment_def segments_of_def)
  have cap: "is_capability_token (Some ?t)" by (simp add: is_capability_token_def example_token_def)
  have "capability_gate (Some ?t) ?r = Pass"
    by (simp add: capability_gate_def cap example_request_def d q g)
  moreover have "vault_route_gate (example_ctx ''platform_operator'' ?t) ?r = Pass"
    by (simp add: vault_route_gate_def require_auth_def example_ctx_def example_request_def token_allows_method_def
        token_can_write_def require_permission_def example_user_def view_credentials_roles and_then_def
        unless_granted_capability_def cap d q g) (simp add: example_token_def)
  ultimately show "let t = ?t; r = ?r in capability_gate (Some t) r = Pass \<and>
      vault_route_gate (example_ctx ''platform_operator'' t) r = Pass"
    by simp
qed

end
