(* ===== verification/Go_Json.thy ===== *)
theory Go_Json
  imports Go_Strings
begin

text \<open>
  JSON documents as \<^verbatim>\<open>encoding/json\<close> hands them to the program. A \<^verbatim>\<open>json.RawMessage\<close> that a decoder
  delivered is the text of one valid document, so it is modelled by that document; the text of a
  number is kept, since an integer and a \<^verbatim>\<open>float64\<close> target read it differently. Strings are the
  UTF-8 bytes the decoder produced. An object keeps its members in the order of the text, repeated
  names included: decoded into a Go map the last one of a name wins, and a \<^verbatim>\<open>range\<close> over that map
  visits the names in an order Go leaves open, which is a parameter here.
\<close>

datatype json =
    JNull
  | JBool bool
  | JNum string
  | JStr string
  | JArr "json list"
  | JObj "(string \<times> json) list"

section \<open>Objects as Go maps\<close>

type_synonym key_order = "string list \<Rightarrow> string list"

definition json_member :: "(string \<times> json) list \<Rightarrow> string \<Rightarrow> json option" where
  "json_member kvs k = map_of (rev kvs) k"

definition json_keys :: "(string \<times> json) list \<Rightarrow> string list" where
  "json_keys kvs = remdups (map fst kvs)"

text \<open>One iteration over the decoded map.\<close>

definition json_range :: "key_order \<Rightarrow> (string \<times> json) list \<Rightarrow> (string \<times> json) list" where
  "json_range ord kvs = List.map_filter (\<lambda>k. map_option (Pair k) (json_member kvs k)) (ord (json_keys kvs))"

text \<open>What Go promises of the order: each key is visited once.\<close>

definition visits_each_key :: "key_order \<Rightarrow> bool" where
  "visits_each_key ord \<longleftrightarrow> (\<forall>ks. distinct ks \<longrightarrow> distinct (ord ks) \<and> set (ord ks) = set ks)"

lemma visits_id: "visits_each_key (\<lambda>ks. ks)" "visits_each_key sort" "visits_each_key rev"
  by (simp_all add: visits_each_key_def)

lemma json_member_mem: "json_member kvs k = Some w \<Longrightarrow> (k, w) \<in> set kvs"
  unfolding json_member_def by (metis map_of_SomeD set_rev)

lemma json_member_dom: "k \<in> set (map fst kvs) \<longleftrightarrow> (\<exists>w. json_member kvs k = Some w)"
  unfolding json_member_def
  by (metis domIff dom_map_of_conv_image_fst list.set_map not_None_eq set_rev)

lemma json_keys_mem: "k \<in> set (json_keys kvs) \<longleftrightarrow> (\<exists>w. json_member kvs k = Some w)"
  using json_member_dom by (simp add: json_keys_def)

lemma distinct_json_keys [simp]: "distinct (json_keys kvs)"
  by (simp add: json_keys_def)

lemma json_range_member: "(k, w) \<in> set (json_range ord kvs) \<Longrightarrow> json_member kvs k = Some w"
  by (auto simp: json_range_def List.map_filter_def)

lemma json_range_iff:
  assumes "visits_each_key ord"
  shows "(k, w) \<in> set (json_range ord kvs) \<longleftrightarrow> json_member kvs k = Some w"
proof -
  have "set (ord (json_keys kvs)) = set (json_keys kvs)" using assms by (simp add: visits_each_key_def)
  then show ?thesis by (force simp: json_range_def List.map_filter_def json_keys_mem image_def)
qed

lemma map_filter_pair_distinct: "distinct ks \<Longrightarrow> distinct (List.map_filter (\<lambda>k. map_option (Pair k) (f k)) ks)"
  by (induction ks) (auto simp: List.map_filter_simps List.map_filter_def split: option.split)

lemma json_range_distinct: "visits_each_key ord \<Longrightarrow> distinct (json_range ord kvs)"
  by (simp add: json_range_def map_filter_pair_distinct visits_each_key_def)

lemma json_range_set:
  "visits_each_key ord \<Longrightarrow> visits_each_key ord' \<Longrightarrow> set (json_range ord kvs) = set (json_range ord' kvs)"
  by (auto simp: json_range_iff)

lemma json_range_keys:
  assumes "visits_each_key ord"
  shows "map fst (json_range ord kvs) = ord (json_keys kvs)"
proof -
  have "set (ord (json_keys kvs)) = set (json_keys kvs)" using assms by (simp add: visits_each_key_def)
  then have "\<forall>k \<in> set (ord (json_keys kvs)). \<exists>w. json_member kvs k = Some w" by (simp add: json_keys_mem)
  then have "ks = map fst (List.map_filter (\<lambda>k. map_option (Pair k) (json_member kvs k)) ks)"
    if "set ks \<subseteq> set (ord (json_keys kvs))" for ks
    using that by (induction ks) (auto simp: List.map_filter_simps)
  from this [of "ord (json_keys kvs)"] show ?thesis by (simp add: json_range_def)
qed

lemma json_member_range [simp]:
  assumes "visits_each_key ord"
  shows "json_member (json_range ord kvs) k = json_member kvs k"
proof -
  have "distinct (map fst (rev (json_range ord kvs)))"
    using assms json_range_keys [OF assms, of kvs] by (simp add: rev_map [symmetric] visits_each_key_def)
  then have "json_member (json_range ord kvs) k = Some w \<longleftrightarrow> (k, w) \<in> set (json_range ord kvs)" for w
    unfolding json_member_def by (metis map_of_eq_Some_iff set_rev)
  then show ?thesis by (metis assms json_range_iff not_Some_eq)
qed

text \<open>An object rewritten with its names sorted and each once is rewritten to itself.\<close>

lemma json_range_sort_twice: "json_range sort (json_range sort kvs) = json_range sort kvs"
proof -
  have k: "map fst (json_range sort kvs) = sort (json_keys kvs)" by (rule json_range_keys) (rule visits_id)
  then have "sort (json_keys (json_range sort kvs)) = sort (json_keys kvs)"
    by (simp add: json_keys_def [of "json_range sort kvs"] distinct_remdups_id sort_key_id_if_sorted)
  then show ?thesis by (simp add: json_range_def [of _ "json_range sort kvs"] visits_id) (simp add: json_range_def)
qed

text \<open>Members are smaller than their object, so a walk over a document ends.\<close>

lemma size_json_pair: "(k, w) \<in> set kvs \<Longrightarrow> size w < size (JObj kvs)"
  by (induction kvs) auto

lemma size_json_item: "x \<in> set xs \<Longrightarrow> size x < size (JArr xs)"
  by (induction xs) auto

lemma size_json_member: "json_member kvs k = Some w \<Longrightarrow> size w < size (JObj kvs)"
  by (blast dest: json_member_mem size_json_pair)

lemma size_json_range: "(k, w) \<in> set (json_range ord kvs) \<Longrightarrow> size w < size (JObj kvs)"
  by (blast dest: json_range_member size_json_member)

section \<open>Decoding into Go values\<close>

text \<open>
  A null leaves the target as it was: the empty string, false, a nil slice, a nil map. The program
  treats nil slices and maps as errors wherever it decodes them.
\<close>

definition decode_string :: "json \<Rightarrow> string option" where
  "decode_string v = (case v of JStr s \<Rightarrow> Some s | JNull \<Rightarrow> Some [] | _ \<Rightarrow> None)"

definition decode_bool :: "json \<Rightarrow> bool option" where
  "decode_bool v = (case v of JBool b \<Rightarrow> Some b | JNull \<Rightarrow> Some False | _ \<Rightarrow> None)"

definition decode_array :: "json \<Rightarrow> json list option" where
  "decode_array v = (case v of JArr xs \<Rightarrow> Some xs | _ \<Rightarrow> None)"

definition decode_object :: "json \<Rightarrow> (string \<times> json) list option" where
  "decode_object v = (case v of JObj kvs \<Rightarrow> Some kvs | _ \<Rightarrow> None)"

text \<open>A number read into an \<^verbatim>\<open>int64\<close>: its text must be an integer literal in range.\<close>

definition decode_int64 :: "json \<Rightarrow> int option" where
  "decode_int64 v = (case v of JNum t \<Rightarrow> atoi t | JNull \<Rightarrow> Some 0 | _ \<Rightarrow> None)"

text \<open>A number read into a \<^verbatim>\<open>float64\<close>: an error when it rounds past the largest finite value.\<close>

definition number_parts :: "string \<Rightarrow> nat \<times> int" where
  "number_parts t =
    (let u = (case t of [] \<Rightarrow> [] | c # r \<Rightarrow> if c = CHR ''-'' then r else t);
         i = takeWhile is_digit u; u1 = dropWhile is_digit u;
         f = (case u1 of [] \<Rightarrow> [] | c # r \<Rightarrow> if c = CHR ''.'' then takeWhile is_digit r else []);
         u2 = (case u1 of [] \<Rightarrow> [] | c # r \<Rightarrow> if c = CHR ''.'' then dropWhile is_digit r else u1);
         e = (case u2 of [] \<Rightarrow> 0 | _ # r \<Rightarrow>
               (case r of [] \<Rightarrow> 0 | s # ds \<Rightarrow>
                 if s = CHR ''-'' then - int (decimal ds) else if s = CHR ''+'' then int (decimal ds)
                 else int (decimal r)))
     in (decimal (i @ f), e - int (length f)))"

definition float_overflow :: nat where
  "float_overflow = 2 ^ 1024 - 2 ^ 970"

definition fits_float64 :: "string \<Rightarrow> bool" where
  "fits_float64 t = (case number_parts t of (m, e) \<Rightarrow>
    if 0 \<le> e then m * 10 ^ nat e < float_overflow else m < float_overflow * 10 ^ nat (- e))"

lemma decode_simps [simp]:
  "decode_string (JStr s) = Some s" "decode_string JNull = Some []" "decode_array (JArr xs) = Some xs"
  "decode_object (JObj kvs) = Some kvs" "decode_bool (JBool b) = Some b" "decode_bool JNull = Some False"
  by (simp_all add: decode_string_def decode_array_def decode_object_def decode_bool_def)

lemma decode_Some_iff:
  "decode_array v = Some xs \<longleftrightarrow> v = JArr xs"
  "decode_object v = Some kvs \<longleftrightarrow> v = JObj kvs"
  "decode_string v = Some s \<longleftrightarrow> v = JStr s \<or> v = JNull \<and> s = []"
  "decode_bool v = Some b \<longleftrightarrow> v = JBool b \<or> v = JNull \<and> \<not> b"
  by (auto simp: decode_array_def decode_object_def decode_string_def decode_bool_def split: json.splits)

lemma decode_None_iff:
  "decode_array v = None \<longleftrightarrow> (\<forall>xs. v \<noteq> JArr xs)"
  "decode_object v = None \<longleftrightarrow> (\<forall>kvs. v \<noteq> JObj kvs)"
  "decode_string v = None \<longleftrightarrow> v \<noteq> JNull \<and> (\<forall>s. v \<noteq> JStr s)"
  by (auto simp: decode_array_def decode_object_def decode_string_def split: json.splits)

end
