(* ===== verification/Bool_Exp.thy ===== *)
theory Bool_Exp
  imports Go_Json
begin

text \<open>
  The grammar of row permissions, after \<^verbatim>\<open>internal/permissions/boolexp.go\<close> and \<^verbatim>\<open>validate.go\<close>: one
  object per table, role and operation, whose filters and checks are boolean expressions over the row.
  The walker carries the number of nodes it has seen; each loop over a Go map follows an iteration
  order that is a parameter, since Go leaves it open. Error values keep what their message names.
\<close>

section \<open>Names\<close>

definition is_letter :: "char \<Rightarrow> bool" where
  "is_letter c = (let n = of_char c :: nat in 65 \<le> n \<and> n \<le> 90 \<or> 97 \<le> n \<and> n \<le> 122)"

definition is_lower_letter :: "char \<Rightarrow> bool" where
  "is_lower_letter c = (let n = of_char c :: nat in 97 \<le> n \<and> n \<le> 122)"

text \<open>The anchored patterns \<open>[a-z_][a-z0-9_$]{0,62}\<close>, \<open>[A-Za-z_][A-Za-z0-9_$]{0,62}\<close> and \<open>[a-z][a-z0-9_]{0,62}\<close>.\<close>

definition qualified_part :: "string \<Rightarrow> bool" where
  "qualified_part s = (case s of [] \<Rightarrow> False | c # r \<Rightarrow> (is_lower_letter c \<or> c = CHR ''_'') \<and>
     list_all (\<lambda>d. is_lower_letter d \<or> is_digit d \<or> d = CHR ''_'' \<or> d = CHR ''$'') r \<and> length r \<le> 62)"

definition column_name :: "string \<Rightarrow> bool" where
  "column_name s = (case s of [] \<Rightarrow> False | c # r \<Rightarrow> (is_letter c \<or> c = CHR ''_'') \<and>
     list_all (\<lambda>d. is_letter d \<or> is_digit d \<or> d = CHR ''_'' \<or> d = CHR ''$'') r \<and> length r \<le> 62)"

definition valid_role :: "string \<Rightarrow> bool" where
  "valid_role s = (case s of [] \<Rightarrow> False | c # r \<Rightarrow> is_lower_letter c \<and>
     list_all (\<lambda>d. is_lower_letter d \<or> is_digit d \<or> d = CHR ''_'') r \<and> length r \<le> 62)"

datatype name_error = Not_Qualified string | Service_Role | Bad_Role string | Bad_Operation string

definition validate_qualified_name :: "string \<Rightarrow> (name_error, unit) result" where
  "validate_qualified_name name = (case cut_at CHR ''.'' name of (sch, obj, found) \<Rightarrow>
     if \<not> found \<or> \<not> qualified_part sch \<or> \<not> qualified_part obj then Inl (Not_Qualified name) else Inr ())"

definition validate_role :: "string \<Rightarrow> (name_error, unit) result" where
  "validate_role role = (if role = ''service'' then Inl Service_Role
     else if \<not> valid_role role then Inl (Bad_Role role) else Inr ())"

section \<open>Session variables\<close>

text \<open>
  \<open>strings.ToLower\<close> as far as ASCII results go: besides the ASCII capitals, U+0130 lowers to i and
  U+212A (the Kelvin sign) to k; every other letter lowers to one outside ASCII.
\<close>

fun fold_lower :: "string \<Rightarrow> string" where
  "fold_lower (a # b # c # s) =
     (if a = CHR 0xC4 \<and> b = CHR 0xB0 then CHR ''i'' # fold_lower (c # s)
      else if a = CHR 0xE2 \<and> b = CHR 0x84 \<and> c = CHR 0xAA then CHR ''k'' # fold_lower s
      else lower_char a # fold_lower (b # c # s))"
| "fold_lower [a, b] = (if a = CHR 0xC4 \<and> b = CHR 0xB0 then ''i'' else [lower_char a, lower_char b])"
| "fold_lower [a] = [lower_char a]"
| "fold_lower [] = []"

definition session_prefix :: string where
  "session_prefix = ''x-excalibase-''"

definition looks_like_session_variable :: "string \<Rightarrow> bool" where
  "looks_like_session_variable v = prefix session_prefix (fold_lower v)"

text \<open>
  The pattern \<open>(?i)x-excalibase-[a-z0-9_-]+\<close>: case folding also pairs s with U+017F, and the class
  \<open>[a-z]\<close> with U+017F and U+212A.
\<close>

fun fold_match :: "string \<Rightarrow> string \<Rightarrow> string option" where
  "fold_match [] s = Some s"
| "fold_match (p # ps) [] = None"
| "fold_match (p # ps) (c # s) =
     (if lower_char c = p then fold_match ps s
      else if p = CHR ''s'' \<and> c = CHR 0xC5 \<and> s \<noteq> [] \<and> hd s = CHR 0xBF then fold_match ps (tl s)
      else None)"

fun variable_chars :: "string \<Rightarrow> bool" where
  "variable_chars (a # b # c # s) =
     (if is_letter a \<or> is_digit a \<or> a = CHR ''_'' \<or> a = CHR ''-'' then variable_chars (b # c # s)
      else if a = CHR 0xC5 \<and> b = CHR 0xBF then variable_chars (c # s)
      else a = CHR 0xE2 \<and> b = CHR 0x84 \<and> c = CHR 0xAA \<and> variable_chars s)"
| "variable_chars [a, b] =
     (if is_letter a \<or> is_digit a \<or> a = CHR ''_'' \<or> a = CHR ''-'' then variable_chars [b]
      else a = CHR 0xC5 \<and> b = CHR 0xBF)"
| "variable_chars [a] = (is_letter a \<or> is_digit a \<or> a = CHR ''_'' \<or> a = CHR ''-'')"
| "variable_chars [] = True"

definition is_session_variable :: "string \<Rightarrow> bool" where
  "is_session_variable v = (case fold_match session_prefix v of None \<Rightarrow> False | Some r \<Rightarrow> r \<noteq> [] \<and> variable_chars r)"

section \<open>Operands\<close>

definition comparison_operators :: "string list" where
  "comparison_operators = [''_eq'', ''_neq'', ''_gt'', ''_gte'', ''_lt'', ''_lte'', ''_in'', ''_nin'',
     ''_like'', ''_nlike'', ''_is_null'']"

definition is_comparison_operator :: "string \<Rightarrow> bool" where
  "is_comparison_operator key = (key \<in> set comparison_operators)"

datatype operand_error =
    Takes_Boolean | Takes_Pattern | Invalid_Variable string | Number_Range string | Null_Operand | Takes_Scalar
  | Takes_List | Variable_In_List | List_Element | Takes_Text_List | Takes_Text | Compares_Variable | Session_Operator

text \<open>A loop that stops at its first error.\<close>

fun each :: "('a \<Rightarrow> ('e, unit) result) \<Rightarrow> 'a list \<Rightarrow> ('e, unit) result" where
  "each f [] = Inr ()"
| "each f (x # xs) = (case f x of Inl e \<Rightarrow> Inl e | Inr u \<Rightarrow> each f xs)"

lemma each_ok: "each f xs = Inr () \<longleftrightarrow> (\<forall>x \<in> set xs. f x = Inr ())"
  by (induction xs) (auto split: sum.split)

lemma unit_result: "(case r of Inl e \<Rightarrow> Inl (g e) | Inr u \<Rightarrow> Inr ()) = Inr () \<longleftrightarrow> r = Inr ()"
  by (cases r) auto

definition validate_string_operand :: "string \<Rightarrow> (operand_error, unit) result" where
  "validate_string_operand text =
     (if looks_like_session_variable text \<and> \<not> is_session_variable text then Inl (Invalid_Variable text) else Inr ())"

definition validate_scalar_operand :: "json \<Rightarrow> (operand_error, unit) result" where
  "validate_scalar_operand v = (case v of
       JNum t \<Rightarrow> if fits_float64 t then Inr () else Inl (Number_Range t)
     | JStr s \<Rightarrow> validate_string_operand s
     | JBool b \<Rightarrow> Inr ()
     | JNull \<Rightarrow> Inl Null_Operand
     | _ \<Rightarrow> Inl Takes_Scalar)"

definition validate_list_item :: "json \<Rightarrow> (operand_error, unit) result" where
  "validate_list_item v = (case v of
       JNum t \<Rightarrow> if fits_float64 t then Inr () else Inl (Number_Range t)
     | JStr s \<Rightarrow> if looks_like_session_variable s then Inl Variable_In_List else Inr ()
     | JBool b \<Rightarrow> Inr ()
     | _ \<Rightarrow> Inl List_Element)"

definition validate_list_operand :: "json \<Rightarrow> (operand_error, unit) result" where
  "validate_list_operand v =
     (if v \<noteq> JNull \<and> decode_string v \<noteq> None
      then (if is_session_variable (the (decode_string v)) then Inr () else Inl Takes_List)
      else case decode_array v of None \<Rightarrow> Inl Takes_List | Some items \<Rightarrow> each validate_list_item items)"

definition validate_operand :: "string \<Rightarrow> json \<Rightarrow> (operand_error, unit) result" where
  "validate_operand op v =
     (if op = ''_is_null'' then (if decode_bool v = None \<or> v = JNull then Inl Takes_Boolean else Inr ())
      else if op = ''_in'' \<or> op = ''_nin'' then validate_list_operand v
      else if op = ''_like'' \<or> op = ''_nlike'' then
        (case decode_string v of None \<Rightarrow> Inl Takes_Pattern
         | Some p \<Rightarrow> if v = JNull then Inl Takes_Pattern else validate_string_operand p)
      else validate_scalar_operand v)"

definition validate_fixed_text :: "json \<Rightarrow> (operand_error, unit) result" where
  "validate_fixed_text v = (case decode_string v of None \<Rightarrow> Inl Takes_Text
     | Some t \<Rightarrow> if v = JNull then Inl Takes_Text
                 else if looks_like_session_variable t then Inl Compares_Variable else Inr ())"

definition validate_session_operand :: "string \<Rightarrow> json \<Rightarrow> (operand_error, unit) result" where
  "validate_session_operand op v =
     (if op = ''_is_null'' then validate_operand op v
      else if op = ''_eq'' \<or> op = ''_neq'' then validate_fixed_text v
      else if op = ''_in'' \<or> op = ''_nin'' then
        (case decode_array v of None \<Rightarrow> Inl Takes_Text_List | Some items \<Rightarrow> each validate_fixed_text items)
      else Inl Session_Operator)"

section \<open>The walker\<close>

datatype exp_error =
    Too_Many_Nodes | Too_Deep | Not_An_Object | Bad_Name string | Maps_To_Object string | Takes_Array string
  | Exists_Shape | Exists_Table_Not_String | Exists_Table name_error | Not_An_Operator string string
  | Operand string string operand_error | Bad_Variable string | Maps_To_Comparisons string

abbreviation max_expression_depth :: nat where "max_expression_depth \<equiv> 16"
abbreviation max_expression_nodes :: nat where "max_expression_nodes \<equiv> 200"

type_synonym exp_op = "(nat, exp_error, unit) op"

definition count_node :: "nat \<Rightarrow> exp_op" where
  "count_node depth nodes =
     (let nodes' = nodes + 1
      in if nodes' > max_expression_nodes then (Inl Too_Many_Nodes, nodes')
         else if depth > max_expression_depth then (Inl Too_Deep, nodes') else (Inr (), nodes'))"

definition check_ops :: "(string \<Rightarrow> json \<Rightarrow> (exp_error, unit) result) \<Rightarrow> key_order \<Rightarrow> (string \<times> json) list \<Rightarrow> exp_op" where
  "check_ops f ord ops = lift_result (\<lambda>e. e) (each (\<lambda>(op, v). f op v) (json_range ord ops))"

definition comparison_op :: "string \<Rightarrow> string \<Rightarrow> json \<Rightarrow> (exp_error, unit) result" where
  "comparison_op column op v =
     (if \<not> is_comparison_operator op then Inl (Not_An_Operator column op)
      else case validate_operand op v of Inl e \<Rightarrow> Inl (Operand column op e) | Inr u \<Rightarrow> Inr ())"

definition session_op :: "string \<Rightarrow> string \<Rightarrow> json \<Rightarrow> (exp_error, unit) result" where
  "session_op variable op v =
     (case validate_session_operand op v of Inl e \<Rightarrow> Inl (Operand variable op e) | Inr u \<Rightarrow> Inr ())"

definition comparison :: "key_order \<Rightarrow> string \<Rightarrow> (string \<times> json) list \<Rightarrow> nat \<Rightarrow> exp_op" where
  "comparison ord column ops depth =
     then_op (count_node (depth + 1)) (check_ops (comparison_op column) ord ops)"

definition session_comparison :: "key_order \<Rightarrow> string \<Rightarrow> json \<Rightarrow> nat \<Rightarrow> exp_op" where
  "session_comparison ord variable v depth =
     (if \<not> is_session_variable variable then raise_err (Bad_Variable variable)
      else case decode_object v of None \<Rightarrow> raise_err (Maps_To_Comparisons variable)
      | Some ops \<Rightarrow> if json_keys ops = [] then raise_err (Maps_To_Comparisons variable)
          else then_op (count_node (depth + 1)) (check_ops (session_op variable) ord ops))"

text \<open>The operand of \<open>_exists\<close>: exactly a table name and an expression over that table.\<close>

definition exists_where :: "json \<Rightarrow> (exp_error, json) result" where
  "exists_where v = (case decode_object v of None \<Rightarrow> Inl Exists_Shape | Some kvs \<Rightarrow>
     (case (json_member kvs ''_table'', json_member kvs ''_where'') of
        (Some t, Some w) \<Rightarrow> if length (json_keys kvs) \<noteq> 2 then Inl Exists_Shape
          else (case decode_string t of None \<Rightarrow> Inl Exists_Table_Not_String
            | Some name \<Rightarrow> (case validate_qualified_name name of Inl e \<Rightarrow> Inl (Exists_Table e) | Inr u \<Rightarrow> Inr w))
      | _ \<Rightarrow> Inl Exists_Shape))"

lemma size_exists_where: "exists_where v = Inr w \<Longrightarrow> size w < size v"
  using size_json_member
  by (auto simp: exists_where_def decode_Some_iff split: option.splits if_splits sum.splits)

text \<open>
  The walk ends on every document: it descends into members, and a term whose value is walked as an
  expression over a related table keeps the value but comes after it in the third component.
\<close>

definition largest :: "json list \<Rightarrow> nat" where
  "largest vs = foldr (\<lambda>v m. max (size v) m) vs 0"

lemma largest_simps [simp]: "largest [] = 0" "largest (v # vs) = max (size v) (largest vs)"
  by (simp_all add: largest_def)

lemma largest_less: "(\<forall>v \<in> set vs. size v < n) \<Longrightarrow> 0 < n \<Longrightarrow> largest vs < n"
  by (induction vs) auto

lemma largest_range: "largest (map snd (json_range ord kvs)) < size (JObj kvs)"
  by (rule largest_less) (auto dest: size_json_range)

lemma largest_items: "largest vs < size (JArr vs)"
  by (rule largest_less) (auto dest: size_json_item)

function walk_exp :: "key_order \<Rightarrow> json \<Rightarrow> nat \<Rightarrow> exp_op"
  and walk_terms :: "key_order \<Rightarrow> (string \<times> json) list \<Rightarrow> nat \<Rightarrow> exp_op"
  and walk_term :: "key_order \<Rightarrow> string \<Rightarrow> json \<Rightarrow> nat \<Rightarrow> exp_op"
  and walk_list :: "key_order \<Rightarrow> json list \<Rightarrow> nat \<Rightarrow> exp_op" where
  "walk_exp ord v depth = then_op (count_node depth)
     (case decode_object v of None \<Rightarrow> raise_err Not_An_Object | Some kvs \<Rightarrow> walk_terms ord (json_range ord kvs) depth)"
| "walk_terms ord [] depth = ret ()"
| "walk_terms ord ((key, v) # fs) depth = then_op (walk_term ord key v depth) (walk_terms ord fs depth)"
| "walk_term ord key v depth =
     (if key = ''_and'' \<or> key = ''_or'' then
        (case decode_array v of None \<Rightarrow> raise_err (Takes_Array key) | Some items \<Rightarrow> walk_list ord items depth)
      else if key = ''_not'' then walk_exp ord v (depth + 1)
      else if key = ''_exists'' then
        (case exists_where v of Inl e \<Rightarrow> raise_err e | Inr w \<Rightarrow> walk_exp ord w (depth + 1))
      else if looks_like_session_variable key then session_comparison ord key v depth
      else if \<not> column_name key then raise_err (Bad_Name key)
      else case decode_object v of None \<Rightarrow> raise_err (Maps_To_Object key)
        | Some fields \<Rightarrow>
            if list_ex is_comparison_operator (json_keys fields) then comparison ord key fields depth
            else walk_exp ord v (depth + 1))"
| "walk_list ord [] depth = ret ()"
| "walk_list ord (v # vs) depth = then_op (walk_exp ord v (depth + 1)) (walk_list ord vs depth)"
  by pat_completeness auto

termination
  by (relation "measures [
      case_sum (case_sum (\<lambda>(ord, v, d). size v) (\<lambda>(ord, fs, d). largest (map snd fs)))
               (case_sum (\<lambda>(ord, k, v, d). size v) (\<lambda>(ord, vs, d). largest vs)),
      case_sum (case_sum (\<lambda>(ord, v, d). 0) (\<lambda>(ord, fs, d). 2 + length fs))
               (case_sum (\<lambda>(ord, k, v, d). 1) (\<lambda>(ord, vs, d). 2 + length vs))]")
    (auto simp: decode_Some_iff max_def size_exists_where less_Suc_eq_le dest: size_exists_where
          simp del: json.size intro: largest_range largest_items)

definition validate_bool_exp :: "key_order \<Rightarrow> json \<Rightarrow> (exp_error, unit) result" where
  "validate_bool_exp ord v = fst (walk_exp ord v 1 0)"

section \<open>Permission objects\<close>

text \<open>Per operation the keys an object may carry and whether each is required.\<close>

definition operation_keys :: "string \<Rightarrow> (string \<times> bool) list option" where
  "operation_keys op =
     (if op = ''select'' then Some [(''filter'', True), (''columns'', True), (''limit'', False), (''allowAggregations'', False)]
      else if op = ''insert'' then Some [(''check'', True), (''columns'', True), (''set'', False)]
      else if op = ''update'' then Some [(''filter'', True), (''check'', False), (''columns'', True), (''set'', False)]
      else if op = ''delete'' then Some [(''filter'', True)]
      else None)"

definition validate_operation :: "string \<Rightarrow> (name_error, unit) result" where
  "validate_operation op = (case operation_keys op of None \<Rightarrow> Inl (Bad_Operation op) | Some _ \<Rightarrow> Inr ())"

datatype permission_error =
    Unknown_Operation name_error | Not_A_Permission_Object | Unknown_Key string | Missing_Key string
  | Bad_Expression string exp_error | Bad_Columns | Bad_Column string | Column_Twice string | Bad_Limit
  | Bad_Aggregations | Bad_Presets | Bad_Preset_Column string | Bad_Preset_Variable string string

fun check_columns :: "string set \<Rightarrow> string list \<Rightarrow> (permission_error, unit) result" where
  "check_columns seen [] = Inr ()"
| "check_columns seen (n # ns) =
     (if \<not> column_name n then Inl (Bad_Column n)
      else if n \<in> seen then Inl (Column_Twice n) else check_columns (insert n seen) ns)"

text \<open>A list of strings decodes when every element does; a null element is the empty string.\<close>

definition decode_strings :: "json \<Rightarrow> string list option" where
  "decode_strings v = (case decode_array v of None \<Rightarrow> None
     | Some vs \<Rightarrow> if list_all (\<lambda>x. decode_string x \<noteq> None) vs then Some (map (\<lambda>x. the (decode_string x)) vs) else None)"

definition validate_columns :: "json \<Rightarrow> (permission_error, unit) result" where
  "validate_columns v = (case decode_string v of
       Some star \<Rightarrow> if star \<noteq> ''*'' then Inl Bad_Columns else Inr ()
     | None \<Rightarrow> (case decode_strings v of None \<Rightarrow> Inl Bad_Columns | Some names \<Rightarrow> check_columns {} names))"

definition validate_limit :: "json \<Rightarrow> (permission_error, unit) result" where
  "validate_limit v = (if v = JNull then Inr ()
     else case decode_int64 v of None \<Rightarrow> Inl Bad_Limit
       | Some n \<Rightarrow> if n < 1 \<or> n > 2 ^ 31 - 1 then Inl Bad_Limit else Inr ())"

definition validate_preset :: "string \<times> json \<Rightarrow> (permission_error, unit) result" where
  "validate_preset = (\<lambda>(column, preset).
     if \<not> column_name column then Inl (Bad_Preset_Column column)
     else case decode_string preset of None \<Rightarrow> Inr ()
       | Some text \<Rightarrow> if looks_like_session_variable text \<and> \<not> is_session_variable text
           then Inl (Bad_Preset_Variable column text) else Inr ())"

definition validate_presets :: "key_order \<Rightarrow> json \<Rightarrow> (permission_error, unit) result" where
  "validate_presets ord v = (case decode_object v of None \<Rightarrow> Inl Bad_Presets
     | Some presets \<Rightarrow> each validate_preset (json_range ord presets))"

definition validate_field :: "key_order \<Rightarrow> string \<times> json \<Rightarrow> (permission_error, unit) result" where
  "validate_field ord = (\<lambda>(key, v).
     if key = ''filter'' \<or> key = ''check'' then
       (case validate_bool_exp ord v of Inl e \<Rightarrow> Inl (Bad_Expression key e) | Inr u \<Rightarrow> Inr ())
     else if key = ''columns'' then validate_columns v
     else if key = ''limit'' then validate_limit v
     else if key = ''allowAggregations'' then (if decode_bool v = None then Inl Bad_Aggregations else Inr ())
     else validate_presets ord v)"

text \<open>
  The body is \<open>None\<close> when it is not one JSON document. The result is the object Go marshals: the
  members of the map, sorted by name.
\<close>

definition known_key :: "(string \<times> bool) list \<Rightarrow> string \<times> json \<Rightarrow> (permission_error, unit) result" where
  "known_key allowed = (\<lambda>(key, v). if key \<in> set (map fst allowed) then Inr () else Inl (Unknown_Key key))"

definition required_key :: "(string \<times> json) list \<Rightarrow> string \<times> bool \<Rightarrow> (permission_error, unit) result" where
  "required_key fields = (\<lambda>(key, required).
     if required \<and> json_member fields key = None then Inl (Missing_Key key) else Inr ())"

definition normalize_permission :: "key_order \<Rightarrow> string \<Rightarrow> json option \<Rightarrow> (permission_error, json) result" where
  "normalize_permission ord op body = (case operation_keys op of None \<Rightarrow> Inl (Unknown_Operation (Bad_Operation op))
     | Some allowed \<Rightarrow> (case Option.bind body decode_object of None \<Rightarrow> Inl Not_A_Permission_Object
       | Some fields \<Rightarrow>
           bind_result (each (known_key allowed) (json_range ord fields)) (\<lambda>_.
           bind_result (each (required_key fields) allowed) (\<lambda>_.
           bind_result (each (validate_field ord) (json_range ord fields)) (\<lambda>_.
           Inr (JObj (json_range sort fields)))))))"

end
