(* ===== verification/Graphql_Names.thy ===== *)
theory Graphql_Names
  imports Bool_Exp "HOL-Library.Multiset"
begin

text \<open>
  The names the engine generates from a schema, after \<^verbatim>\<open>internal/graphqlnames\<close>: camel case, and the
  relationship fields that foreign keys add to the tables at both ends. Go maps keyed by table are
  functions with the list of their keys; the one iteration whose order shows in the result, over the
  groups of sibling keys, takes that order as a parameter. Unicode's case tables are a parameter.
\<close>

section \<open>Camel case\<close>

record rune_case =
  rune_upper :: "string \<Rightarrow> string"
  rune_lower :: "string \<Rightarrow> string"

text \<open>The runes of a UTF-8 string, each as its bytes.\<close>

definition rune_width :: "char \<Rightarrow> nat" where
  "rune_width c = (let n = of_char c :: nat in if n < 0xC0 then 1 else if n < 0xE0 then 2 else if n < 0xF0 then 3 else 4)"

lemma rune_width_pos [simp]: "0 < rune_width c"
  by (simp add: rune_width_def Let_def)

function runes :: "string \<Rightarrow> string list" where
  "runes [] = []"
| "runes (c # s) = take (rune_width c) (c # s) # runes (drop (rune_width c) (c # s))"
  by pat_completeness auto
termination by (relation "measure length") (auto simp: drop_Cons')

fun lower_camel_loop :: "rune_case \<Rightarrow> bool \<Rightarrow> bool \<Rightarrow> string list \<Rightarrow> string" where
  "lower_camel_loop uc upper_next first [] = []"
| "lower_camel_loop uc upper_next first (ch # rs) =
     (if ch = ''_'' then lower_camel_loop uc True first rs
      else if first then rune_lower uc ch @ lower_camel_loop uc upper_next False rs
      else if upper_next then rune_upper uc ch @ lower_camel_loop uc False first rs
      else ch @ lower_camel_loop uc upper_next first rs)"

definition lower_camel :: "rune_case \<Rightarrow> string \<Rightarrow> string" where
  "lower_camel uc name = lower_camel_loop uc False True (runes name)"

fun pascal_loop :: "rune_case \<Rightarrow> bool \<Rightarrow> string list \<Rightarrow> string" where
  "pascal_loop uc upper_next [] = []"
| "pascal_loop uc upper_next (ch # rs) =
     (if ch = ''_'' then pascal_loop uc True rs
      else if upper_next then rune_upper uc ch @ pascal_loop uc False rs
      else ch @ pascal_loop uc upper_next rs)"

definition pascal :: "rune_case \<Rightarrow> string \<Rightarrow> string" where
  "pascal uc name = pascal_loop uc True (runes name)"

text \<open>The case tables restricted to ASCII, for examples.\<close>

definition upper_char :: "char \<Rightarrow> char" where
  "upper_char c = (let n = of_char c :: nat in if 97 \<le> n \<and> n \<le> 122 then char_of (n - 32) else c)"

definition ascii_case :: rune_case where
  "ascii_case = \<lparr> rune_upper = map upper_char, rune_lower = map lower_char \<rparr>"

lemma camel_examples:
  "lower_camel ascii_case ''_Live_poll'' = ''lIvePoll''" "pascal ascii_case ''live_poll'' = ''LivePoll''"
  by code_simp+

section \<open>Foreign keys\<close>

record key_row =
  kr_constraint :: string
  kr_source_table :: string
  kr_source_column :: string
  kr_target_table :: string

record foreign_key =
  fk_child :: string
  fk_target :: string
  fk_columns :: "string list"

datatype rel_kind = Object_Field | Array_Field

record relationship =
  rel_field :: string
  rel_kind :: rel_kind
  rel_table :: string
  rel_columns :: "string list"
  rel_deprecated :: string

text \<open>
  Rows of one constraint are folded into one key; the accumulator is the index (the identifiers in
  order of their keys) and the keys.
\<close>

definition row_id :: "key_row \<Rightarrow> string" where
  "row_id row = kr_source_table row @ ''|'' @ kr_constraint row"

definition fold_row :: "string list \<Rightarrow> key_row \<Rightarrow> string list \<times> foreign_key list \<Rightarrow> string list \<times> foreign_key list" where
  "fold_row tables row = (\<lambda>(ids, keys).
     if kr_source_table row \<notin> set tables \<or> kr_target_table row \<notin> set tables then (ids, keys)
     else let at = length (takeWhile (\<lambda>i. i \<noteq> row_id row) ids) in
       if at < length ids
       then (ids, keys[at := (keys ! at)\<lparr>fk_columns := fk_columns (keys ! at) @ [kr_source_column row]\<rparr>])
       else (ids @ [row_id row],
         keys @ [\<lparr>fk_child = kr_source_table row, fk_target = kr_target_table row, fk_columns = [kr_source_column row]\<rparr>]))"

definition fold_foreign_keys :: "key_row list \<Rightarrow> string list \<Rightarrow> foreign_key list" where
  "fold_foreign_keys rows tables = snd (fold (fold_row tables) rows ([], []))"

section \<open>Relationship fields\<close>

type_synonym field_map = "(string \<times> relationship) list"

definition put_field :: "string \<Rightarrow> string \<Rightarrow> relationship \<Rightarrow> (string \<Rightarrow> field_map) \<Rightarrow> string \<Rightarrow> field_map" where
  "put_field table name r nm = nm(table := AList.update name r (nm table))"

definition object_name :: "rune_case \<Rightarrow> string \<Rightarrow> foreign_key \<Rightarrow> string" where
  "object_name uc pre key = (case fk_columns key of [c] \<Rightarrow> pre @ pascal uc c | _ \<Rightarrow> pre @ pascal uc (fk_target key))"

definition put_object :: "rune_case \<Rightarrow> string \<Rightarrow> foreign_key \<Rightarrow> (string \<Rightarrow> field_map) \<Rightarrow> string \<Rightarrow> field_map" where
  "put_object uc pre key = (let name = object_name uc pre key in
     put_field (fk_child key) name \<lparr>rel_field = name, rel_kind = Object_Field, rel_table = fk_target key,
       rel_columns = fk_columns key, rel_deprecated = []\<rparr>)"

definition sibling_id :: "foreign_key \<Rightarrow> string" where
  "sibling_id key = fk_target key @ ''|'' @ fk_child key"

definition siblings :: "foreign_key list \<Rightarrow> string \<Rightarrow> foreign_key list" where
  "siblings keys i = filter (\<lambda>k. sibling_id k = i) keys"

definition array_name :: "rune_case \<Rightarrow> string \<Rightarrow> bool \<Rightarrow> foreign_key \<Rightarrow> string" where
  "array_name uc pre shared key = pre @ pascal uc (fk_child key) @
     (if shared then concat (map (\<lambda>c. pascal uc (lower_camel uc c)) (fk_columns key)) else [])"

definition put_array :: "rune_case \<Rightarrow> string \<Rightarrow> bool \<Rightarrow> foreign_key \<Rightarrow> (string \<Rightarrow> field_map) \<Rightarrow> string \<Rightarrow> field_map" where
  "put_array uc pre shared key = (let name = array_name uc pre shared key in
     put_field (fk_target key) name \<lparr>rel_field = name, rel_kind = Array_Field, rel_table = fk_child key,
       rel_columns = fk_columns key, rel_deprecated = []\<rparr>)"

definition put_group :: "rune_case \<Rightarrow> string \<Rightarrow> foreign_key list \<Rightarrow> (string \<Rightarrow> field_map) \<Rightarrow> string \<Rightarrow> field_map" where
  "put_group uc pre ks = fold (put_array uc pre (1 < length ks)) ks"

definition canonical_fields :: "rune_case \<Rightarrow> key_order \<Rightarrow> string \<Rightarrow> foreign_key list \<Rightarrow> string \<Rightarrow> field_map" where
  "canonical_fields uc ord pre keys =
     fold (\<lambda>i. put_group uc pre (siblings keys i)) (ord (remdups (map sibling_id keys)))
       (fold (put_object uc pre) keys (\<lambda>_. []))"

section \<open>Readable names\<close>

text \<open>\<open>unicode.IsLower\<close> of a single byte read as a rune of Latin-1.\<close>

definition is_lower_latin1 :: "char \<Rightarrow> bool" where
  "is_lower_latin1 c = (let n = of_char c :: nat in
     97 \<le> n \<and> n \<le> 122 \<or> n = 0xB5 \<or> 0xDF \<le> n \<and> n \<le> 0xF6 \<or> 0xF8 \<le> n \<and> n \<le> 0xFF)"

definition without_id :: "string \<Rightarrow> string" where
  "without_id column =
     (if 3 < length column \<and> suffix ''_id'' (fold_lower column) then take (length column - 3) column
      else if 2 < length column \<and> suffix ''Id'' column \<and> is_lower_latin1 (column ! (length column - 3))
        then take (length column - 2) column
      else [])"

definition relationship_alias :: "rune_case \<Rightarrow> string \<Rightarrow> relationship \<Rightarrow> bool \<Rightarrow> string" where
  "relationship_alias uc pre field shared = (case rel_columns field of
       [column] \<Rightarrow>
         if rel_kind field = Object_Field
         then (if without_id column \<noteq> [] then pre @ pascal uc (without_id column) else [])
         else if \<not> shared then []
         else pre @ pascal uc (rel_table field) @ ''By'' @
           pascal uc (lower_camel uc (if without_id column = [] then column else without_id column))
     | _ \<Rightarrow> [])"

text \<open>
  The names proposed for one table's fields and those that clash: the accumulator is the map of
  proposals and the set of clashing names.
\<close>

definition propose :: "(string \<Rightarrow> relationship \<Rightarrow> string) \<Rightarrow> string \<times> relationship \<Rightarrow>
    (string \<rightharpoonup> string) \<times> string set \<Rightarrow> (string \<rightharpoonup> string) \<times> string set" where
  "propose alias_of = (\<lambda>(canonical, field) (proposed, clashing).
     let a = alias_of canonical field in
     if a = [] then (proposed, clashing)
     else (proposed(a \<mapsto> canonical),
       if proposed a \<noteq> None \<or> a = canonical then insert a clashing else clashing))"

definition may_rename :: "string list \<Rightarrow> field_map \<Rightarrow> string set \<Rightarrow> string \<Rightarrow> bool" where
  "may_rename columns fs clashing a \<longleftrightarrow> a \<notin> clashing \<and> a \<notin> set columns \<and>
     (case map_of fs a of None \<Rightarrow> True | Some r \<Rightarrow> rel_field r = [])"

definition rename_field :: "(string \<Rightarrow> relationship \<Rightarrow> string) \<Rightarrow> string list \<Rightarrow> field_map \<Rightarrow> string \<times> relationship \<Rightarrow> relationship" where
  "rename_field alias_of columns fs = (\<lambda>(canonical, field).
     let (proposed, clashing) = fold (propose alias_of) fs (Map.empty, {}); a = alias_of canonical field
     in if a \<noteq> [] \<and> proposed a = Some canonical \<and> may_rename columns fs clashing a
        then field\<lparr>rel_field := a, rel_deprecated := canonical\<rparr> else field)"

definition alias_fields :: "(string \<Rightarrow> relationship \<Rightarrow> string) \<Rightarrow> string list \<Rightarrow> field_map \<Rightarrow> relationship list" where
  "alias_fields alias_of columns fs = sort_key rel_field (map (rename_field alias_of columns fs) fs)"

text \<open>The fields of each table; a table outside the map has none.\<close>

definition relationships ::
    "rune_case \<Rightarrow> key_order \<Rightarrow> string \<Rightarrow> (string \<times> string list) list \<Rightarrow> key_row list \<Rightarrow> string \<Rightarrow> relationship list" where
  "relationships uc ord schema_name tables rows table =
     (let keys = fold_foreign_keys rows (map fst tables); pre = lower_camel uc schema_name;
          fs = canonical_fields uc ord pre keys table
      in case map_of tables table of None \<Rightarrow> []
       | Some columns \<Rightarrow> alias_fields (\<lambda>_ f. relationship_alias uc pre f
             (1 < length (siblings keys (table @ ''|'' @ rel_table f)))) columns fs)"

section \<open>One name, one relationship\<close>

text \<open>Each name is held once, by the field that carries it.\<close>

definition well_named :: "field_map \<Rightarrow> bool" where
  "well_named fm \<longleftrightarrow> distinct (map fst fm) \<and> (\<forall>(n, f) \<in> set fm. rel_field f = n \<and> rel_deprecated f = [])"

lemma update_subset: "set (AList.update k v al) \<subseteq> insert (k, v) (set al)"
  by (induction al) auto

lemma well_named_update:
  assumes "well_named fm" "rel_field r = name" "rel_deprecated r = []"
  shows "well_named (AList.update name r fm)"
  using assms update_subset [of name r fm] distinct_update [of fm name r]
  unfolding well_named_def by fast

lemma well_named_put:
  "well_named (nm t) \<Longrightarrow> rel_field r = name \<Longrightarrow> rel_deprecated r = [] \<Longrightarrow> well_named (put_field table name r nm t)"
  by (cases "t = table") (simp_all add: put_field_def well_named_update)

lemma well_named_fold:
  "(\<And>x nm. well_named (nm t) \<Longrightarrow> well_named (g x nm t)) \<Longrightarrow> well_named (nm t) \<Longrightarrow> well_named (fold g xs nm t)"
  by (induction xs arbitrary: nm) simp_all

lemma canonical_fields_named: "well_named (canonical_fields uc ord pre keys t)"
  unfolding canonical_fields_def put_group_def
  by (intro well_named_fold)
    (simp_all add: put_object_def put_array_def Let_def well_named_put, simp add: well_named_def)

text \<open>The names a field answers to: its own and, when it was renamed, the older one.\<close>

definition answered_names :: "relationship \<Rightarrow> string list" where
  "answered_names r = rel_field r # (if rel_deprecated r = [] then [] else [rel_deprecated r])"

lemma rename_field_cases:
  assumes "well_named fs" "(n, f) \<in> set fs"
  obtains "rename_field alias_of columns fs (n, f) = f" "answered_names f = [n]"
  | a p c where "a \<noteq> []" "rename_field alias_of columns fs (n, f) = f\<lparr>rel_field := a, rel_deprecated := n\<rparr>"
      "fold (propose alias_of) fs (Map.empty, {}) = (p, c)" "p a = Some n" "a \<notin> fst ` set fs" "a \<notin> set columns"
proof -
  obtain p c where pc: "fold (propose alias_of) fs (Map.empty, {}) = (p, c)"
    by (cases "fold (propose alias_of) fs (Map.empty, {})")
  let ?a = "alias_of n f"
  show thesis
  proof (cases "?a \<noteq> [] \<and> p ?a = Some n \<and> may_rename columns fs c ?a")
    case True
    have "?a \<notin> fst ` set fs"
    proof
      assume "?a \<in> fst ` set fs"
      then obtain g where g: "(?a, g) \<in> set fs" by auto
      then have "map_of fs ?a = Some g" "rel_field g = ?a" using assms(1) by (auto simp: well_named_def)
      with True show False by (auto simp: may_rename_def)
    qed
    then show ?thesis using True pc that(2) [of ?a p c] by (simp add: rename_field_def may_rename_def)
  next
    case False
    then have "rename_field alias_of columns fs (n, f) = f" using pc by (auto simp: rename_field_def Let_def)
    moreover have "answered_names f = [n]" using assms by (auto simp: well_named_def answered_names_def)
    ultimately show ?thesis by (rule that(1))
  qed
qed

lemma renamed_names:
  assumes "well_named fs" "(n, f) \<in> set fs" "s \<in> set (answered_names (rename_field alias_of columns fs (n, f)))"
  shows "s = n \<or> s \<notin> fst ` set fs \<and> fst (fold (propose alias_of) fs (Map.empty, {})) s = Some n"
  using assms(3) by (rule_tac rename_field_cases [OF assms(1,2), of alias_of columns])
    (auto simp: answered_names_def split: if_splits)

lemma renamed_distinct:
  assumes "well_named fs"
  shows "distinct (concat (map (\<lambda>x. answered_names (rename_field alias_of columns fs x)) fs))" (is "distinct (concat (map ?g fs))")
proof -
  have "distinct (concat (map ?g xs))" if "set xs \<subseteq> set fs" "distinct (map fst xs)" for xs
    using that
  proof (induction xs)
    case (Cons x xs)
    obtain n f where x: "x = (n, f)" by (cases x)
    have mem: "(n, f) \<in> set fs" using Cons.prems x by simp
    have "distinct (?g x)" unfolding x
      by (rule rename_field_cases [OF assms mem, of alias_of columns])
        (use mem in \<open>auto simp: answered_names_def rev_image_eqI\<close>)
    moreover have "set (?g x) \<inter> set (?g y) = {}" if y: "y \<in> set xs" for y
    proof -
      obtain m g where yy: "y = (m, g)" by (cases y)
      then have "(m, g) \<in> set fs" "m \<noteq> n" using Cons.prems y x by (auto simp: rev_image_eqI)
      moreover have "n \<in> fst ` set fs" "m \<in> fst ` set fs" using mem \<open>(m, g) \<in> set fs\<close> by force+
      ultimately have "s \<notin> set (?g y)" if "s \<in> set (?g x)" for s
        using renamed_names [OF assms mem, of s alias_of columns] renamed_names [OF assms, of m g s alias_of columns] that
        unfolding x yy by (metis option.inject)
      then show ?thesis by blast
    qed
    ultimately show ?case using Cons by auto
  qed simp
  then show ?thesis using assms by (simp add: well_named_def)
qed

lemma distinct_concat_sort: "distinct (concat (map g (sort_key k xs))) \<longleftrightarrow> distinct (concat (map g xs))"
proof -
  have "mset (concat (map g ys)) = sum_mset (image_mset (mset \<circ> g) (mset ys))" for ys
    by (induction ys) auto
  then have "mset (concat (map g (sort_key k xs))) = mset (concat (map g xs))" by simp
  then show ?thesis by (rule mset_eq_imp_distinct_iff)
qed

text \<open>
  Claim C31. On every table, no two relationship fields answer to the same name, neither by the name in use
  nor by the older one that still answers, and no field that was given a readable name shadows a column:
  a permission that names a relationship means one table, whatever order Go visits its maps in.
\<close>

theorem relationship_names_unique:
  assumes "map_of tables table = Some columns"
  shows "distinct (concat (map answered_names (relationships uc ord schema_name tables rows table))) \<and>
    (\<forall>r \<in> set (relationships uc ord schema_name tables rows table). rel_deprecated r \<noteq> [] \<longrightarrow> rel_field r \<notin> set columns)"
proof -
  let ?keys = "fold_foreign_keys rows (map fst tables)"
  let ?fs = "canonical_fields uc ord (lower_camel uc schema_name) ?keys table"
  let ?al = "\<lambda>(_ :: string) f. relationship_alias uc (lower_camel uc schema_name) f
    (1 < length (siblings ?keys (table @ ''|'' @ rel_table f)))"
  have rs: "relationships uc ord schema_name tables rows table = alias_fields ?al columns ?fs"
    using assms by (simp add: relationships_def Let_def)
  have w: "well_named ?fs" by (rule canonical_fields_named)
  have "distinct (concat (map answered_names (alias_fields ?al columns ?fs)))"
    using renamed_distinct [OF w, of ?al columns] by (simp add: alias_fields_def distinct_concat_sort comp_def)
  moreover have "rel_field (rename_field ?al columns ?fs (n, f)) \<notin> set columns"
    if "(n, f) \<in> set ?fs" "rel_deprecated (rename_field ?al columns ?fs (n, f)) \<noteq> []" for n f
    by (rule rename_field_cases [OF w that(1), of ?al columns])
      (use that w in \<open>auto simp: well_named_def\<close>)
  ultimately show ?thesis unfolding rs by (auto simp: alias_fields_def)
qed

text \<open>Two tables and a key between them, as the package's own test has them.\<close>

definition sample_tables :: "(string \<times> string list) list" where
  "sample_tables = [(''orders'', [''id'']), (''items'', [''id'', ''order_id''])]"

definition sample_rows :: "key_row list" where
  "sample_rows = [\<lparr>kr_constraint = ''items_order'', kr_source_table = ''items'', kr_source_column = ''order_id'', kr_target_table = ''orders''\<rparr>]"

lemma sample_relationships:
  "relationships ascii_case rev ''app'' sample_tables sample_rows ''items'' =
     [\<lparr>rel_field = ''appOrder'', rel_kind = Object_Field, rel_table = ''orders'', rel_columns = [''order_id''],
       rel_deprecated = ''appOrderId''\<rparr>]"
  by code_simp

theorem relationship_names_unique_witness:
  "map_of sample_tables ''items'' = Some [''id'', ''order_id''] \<and> ''appOrder'' \<noteq> ''appOrderId'' \<and>
   ''appOrder'' \<notin> set [''id'', ''order_id'']"
proof -
  have m: "map_of sample_tables ''items'' = Some [''id'', ''order_id'']" by (simp add: sample_tables_def)
  from relationship_names_unique [OF this, of ascii_case rev "''app''" sample_rows] m
  show ?thesis unfolding sample_relationships by (simp add: answered_names_def)
qed

text \<open>
  The order of the groups does show when two child tables have the same camel case: the same data names
  either table.
\<close>

definition clash_tables :: "(string \<times> string list) list" where
  "clash_tables = [(''users'', [''id'']), (''a_b'', [''u'']), (''aB'', [''u''])]"

definition clash_rows :: "key_row list" where
  "clash_rows = [\<lparr>kr_constraint = ''k1'', kr_source_table = ''a_b'', kr_source_column = ''u'', kr_target_table = ''users''\<rparr>,
     \<lparr>kr_constraint = ''k2'', kr_source_table = ''aB'', kr_source_column = ''u'', kr_target_table = ''users''\<rparr>]"

lemma sibling_order_shows:
  "map rel_table (relationships ascii_case (\<lambda>ks. ks) ''p'' clash_tables clash_rows ''users'') = [''aB'']"
  "map rel_table (relationships ascii_case rev ''p'' clash_tables clash_rows ''users'') = [''a_b'']"
  by code_simp+

end
