(* ===== verification/Live_Schema.thy ===== *)
theory Live_Schema
  imports Graphql_Names
begin

text \<open>
  The check of a permission against the project's live schema, after \<^verbatim>\<open>live_schema.go\<close>, and the rules
  for tracked functions of \<^verbatim>\<open>functions.go\<close>. A check reads each schema it needs from the database: the
  source is a function of the number of reads before, so that the database may change between them. The
  state of a check is the schemas read so far and the names read, in order.
\<close>

section \<open>A schema as the engine reflects it\<close>

record table_shape =
  ts_name :: string
  ts_view :: bool
  ts_columns :: "string list"

record key_column =
  kc_constraint :: string
  kc_source_schema :: string
  kc_source_table :: string
  kc_source_column :: string
  kc_target_schema :: string
  kc_target_table :: string

record live_table =
  lt_view :: bool
  lt_columns :: "string list"
  lt_relationships :: "string \<rightharpoonup> string"
  lt_cross_schema :: bool

record live_schema =
  ls_name :: string
  ls_database :: string
  ls_tables :: "string \<rightharpoonup> live_table"

definition mark_cross_schema :: "string \<Rightarrow> key_column \<Rightarrow> (string \<rightharpoonup> live_table) \<Rightarrow> string \<rightharpoonup> live_table" where
  "mark_cross_schema name key tables =
     (let mark = (\<lambda>(sch, t) tabs. if sch = name
        then (case tabs t of None \<Rightarrow> tabs | Some lt \<Rightarrow> tabs(t \<mapsto> lt\<lparr>lt_cross_schema := True\<rparr>)) else tabs)
      in mark (kc_target_schema key, kc_target_table key) (mark (kc_source_schema key, kc_source_table key) tables))"

definition shape_tables :: "table_shape list \<Rightarrow> string \<rightharpoonup> live_table" where
  "shape_tables shapes = map_of (rev (map (\<lambda>s. (ts_name s, \<lparr>lt_view = ts_view s, lt_columns = ts_columns s,
     lt_relationships = Map.empty, lt_cross_schema = False\<rparr>)) shapes))"

definition inside_schema :: "string \<Rightarrow> key_column \<Rightarrow> bool" where
  "inside_schema name key \<longleftrightarrow> kc_source_schema key = name \<and> kc_target_schema key = name"

definition key_row_of :: "key_column \<Rightarrow> key_row" where
  "key_row_of key = \<lparr>kr_constraint = kc_constraint key, kr_source_table = kc_source_table key,
     kr_source_column = kc_source_column key, kr_target_table = kc_target_table key\<rparr>"

definition relationship_targets :: "relationship list \<Rightarrow> string \<rightharpoonup> string" where
  "relationship_targets rs = fold (\<lambda>r m. if rel_deprecated r = [] then m(rel_field r \<mapsto> rel_table r)
     else m(rel_field r \<mapsto> rel_table r, rel_deprecated r \<mapsto> rel_table r)) rs Map.empty"

definition new_live_schema ::
    "rune_case \<Rightarrow> key_order \<Rightarrow> string \<Rightarrow> string \<Rightarrow> table_shape list \<Rightarrow> key_column list \<Rightarrow> live_schema" where
  "new_live_schema uc ord name database shapes keys =
     (let marked = fold (mark_cross_schema name) (filter (\<lambda>k. \<not> inside_schema name k) keys) (shape_tables shapes);
          rows = map key_row_of (filter (inside_schema name) keys);
          columns = rev (map (\<lambda>s. (ts_name s, ts_columns s)) shapes)
      in \<lparr>ls_name = name, ls_database = database,
          ls_tables = (\<lambda>t. map_option (\<lambda>lt. lt\<lparr>lt_relationships :=
            relationship_targets (relationships uc ord name columns rows t)\<rparr>) (marked t))\<rparr>)"

section \<open>The checker\<close>

datatype invalid_reason =
    View_Written string | Unknown_Table string | Outside_Database string string
  | Unknown_Column string string | Unknown_Relationship string string

datatype 'e live_error = Read_Failed 'e | Invalid_Permission invalid_reason | Undecodable

record checker =
  ck_schemas :: "string \<rightharpoonup> live_schema"
  ck_reads :: "string list"

type_synonym 'e schema_source = "nat \<Rightarrow> string \<Rightarrow> ('e, live_schema) result"
type_synonym ('e, 'a) live_op = "(checker, 'e live_error, 'a) op"

definition read_schema :: "'e schema_source \<Rightarrow> string \<Rightarrow> ('e, live_schema) live_op" where
  "read_schema source sch c = (case ck_schemas c sch of Some live \<Rightarrow> (Inr live, c)
     | None \<Rightarrow> let c' = c\<lparr>ck_reads := ck_reads c @ [sch]\<rparr> in
         (case source (length (ck_reads c)) sch of Inl e \<Rightarrow> (Inl (Read_Failed e), c')
          | Inr live \<Rightarrow> (Inr live, c'\<lparr>ck_schemas := (ck_schemas c)(sch \<mapsto> live)\<rparr>)))"

definition find_table :: "string \<Rightarrow> live_schema \<Rightarrow> ('e live_error, live_table) result" where
  "find_table key live = (case cut_at CHR ''.'' key of (sch, name, _) \<Rightarrow>
     (case ls_tables live name of Some shape \<Rightarrow> Inr shape
      | None \<Rightarrow> if ls_database live \<noteq> [] \<and> ls_database live \<noteq> sch
          then Inl (Invalid_Permission (Outside_Database key (ls_database live)))
          else Inl (Invalid_Permission (Unknown_Table key))))"

definition schema_of :: "string \<Rightarrow> string" where
  "schema_of key = fst (cut_at CHR ''.'' key)"

definition check_table :: "'e schema_source \<Rightarrow> string \<Rightarrow> ('e, live_table) live_op" where
  "check_table source key = bind_op (read_schema source (schema_of key)) (\<lambda>live. lift_result id (find_table key live))"

fun known_columns :: "string \<Rightarrow> live_table \<Rightarrow> string list \<Rightarrow> ('e live_error, unit) result" where
  "known_columns table shape [] = Inr ()"
| "known_columns table shape (n # ns) =
     (if n \<notin> set (lt_columns shape) then Inl (Invalid_Permission (Unknown_Column n table)) else known_columns table shape ns)"

text \<open>
  Decoding into the struct of an \<open>_exists\<close>: members in the order of the text, names matched without regard
  to case, null leaving a field as it was.
\<close>

definition exists_field :: "string \<times> json \<Rightarrow> (string \<times> json option) option \<Rightarrow> (string \<times> json option) option" where
  "exists_field = (\<lambda>(k, v) acc. case acc of None \<Rightarrow> None | Some (table, wh) \<Rightarrow>
     if to_lower k = ''_table'' then
       (case v of JStr s \<Rightarrow> Some (s, wh) | JNull \<Rightarrow> Some (table, wh) | _ \<Rightarrow> None)
     else if to_lower k = ''_where'' then Some (table, Some v) else Some (table, wh))"

definition decode_exists :: "json \<Rightarrow> (string \<times> json option) option" where
  "decode_exists v = (case v of JObj kvs \<Rightarrow> fold exists_field kvs (Some ([], None))
     | JNull \<Rightarrow> Some ([], None) | _ \<Rightarrow> None)"

lemma exists_field_size:
  "\<forall>t w. acc = Some (t, Some w) \<longrightarrow> size w < n \<Longrightarrow> size (snd x) < n \<Longrightarrow>
     exists_field x acc = Some (t, Some w) \<Longrightarrow> size w < n"
  by (auto simp: exists_field_def split: option.splits json.splits if_splits prod.splits)

lemma decode_exists_size:
  assumes "decode_exists v = Some (t, Some w)"
  shows "size w < size v"
proof -
  have fold: "size w < n" if "\<forall>x \<in> set xs. size (snd x) < n" "\<forall>t w. acc = Some (t, Some w) \<longrightarrow> size w < n"
    "fold exists_field xs acc = Some (t, Some w)" for xs acc n
    using that
  proof (induction xs arbitrary: acc)
    case (Cons x xs)
    have "\<forall>t w. exists_field x acc = Some (t, Some w) \<longrightarrow> size w < n"
      using exists_field_size Cons.prems(1,2) by (metis list.set_intros(1))
    with Cons show ?case by simp
  qed simp
  show ?thesis
  proof (cases v)
    case (JObj kvs)
    then show ?thesis using assms size_json_pair by (intro fold [of kvs _ "Some ([], None)"]) (auto simp: decode_exists_def)
  qed (use assms in \<open>auto simp: decode_exists_def\<close>)
qed

text \<open>An \<open>_and\<close> or \<open>_or\<close> decodes into a slice, null into an empty one.\<close>

definition decode_items :: "json \<Rightarrow> json list option" where
  "decode_items v = (case v of JArr vs \<Rightarrow> Some vs | JNull \<Rightarrow> Some [] | _ \<Rightarrow> None)"

lemma decode_items_largest: "decode_items v = Some vs \<Longrightarrow> vs \<noteq> [] \<Longrightarrow> largest vs < size v"
  using largest_items by (auto simp: decode_items_def split: json.splits)

lemma decode_items_size: "decode_items v = Some vs \<Longrightarrow> x \<in> set vs \<Longrightarrow> size x < size v"
  using size_json_item by (auto simp: decode_items_def split: json.splits)

function live_exp :: "'e schema_source \<Rightarrow> key_order \<Rightarrow> string \<Rightarrow> live_table \<Rightarrow> json \<Rightarrow> ('e, unit) live_op"
  and live_terms :: "'e schema_source \<Rightarrow> key_order \<Rightarrow> string \<Rightarrow> live_table \<Rightarrow> (string \<times> json) list \<Rightarrow> ('e, unit) live_op"
  and live_term :: "'e schema_source \<Rightarrow> key_order \<Rightarrow> string \<Rightarrow> live_table \<Rightarrow> string \<Rightarrow> json \<Rightarrow> ('e, unit) live_op"
  and live_list :: "'e schema_source \<Rightarrow> key_order \<Rightarrow> string \<Rightarrow> live_table \<Rightarrow> json list \<Rightarrow> ('e, unit) live_op" where
  "live_exp source ord table shape v = (case decode_object v of None \<Rightarrow> raise_err Undecodable
     | Some kvs \<Rightarrow> live_terms source ord table shape (json_range ord kvs))"
| "live_terms source ord table shape [] = ret ()"
| "live_terms source ord table shape ((key, v) # fs) =
     then_op (live_term source ord table shape key v) (live_terms source ord table shape fs)"
| "live_term source ord table shape key v =
     (if key = ''_and'' \<or> key = ''_or'' then
        (case decode_items v of None \<Rightarrow> raise_err Undecodable | Some vs \<Rightarrow> live_list source ord table shape vs)
      else if key = ''_not'' then live_exp source ord table shape v
      else if key = ''_exists'' then
        (case decode_exists v of None \<Rightarrow> raise_err Undecodable
         | Some (t, wh) \<Rightarrow> bind_op (check_table source t) (\<lambda>shape'.
             case wh of None \<Rightarrow> raise_err Undecodable | Some w \<Rightarrow> live_exp source ord t shape' w))
      else if looks_like_session_variable key then ret ()
      else case decode_object v of None \<Rightarrow> raise_err Undecodable
        | Some ops \<Rightarrow>
            if list_ex is_comparison_operator (json_keys ops) then lift_result id (known_columns table shape [key])
            else (case lt_relationships shape key of
                None \<Rightarrow> if lt_cross_schema shape then ret ()
                  else raise_err (Invalid_Permission (Unknown_Relationship key table))
              | Some target \<Rightarrow>
                  bind_op (check_table source (schema_of table @ ''.'' @ target))
                    (\<lambda>shape'. live_exp source ord (schema_of table @ ''.'' @ target) shape' v)))"
| "live_list source ord table shape [] = ret ()"
| "live_list source ord table shape (v # vs) =
     then_op (live_exp source ord table shape v) (live_list source ord table shape vs)"
  by pat_completeness auto
termination
  by (relation "measures [
      case_sum (case_sum (\<lambda>(src, ord, t, sh, v). Suc (size v)) (\<lambda>(src, ord, t, sh, fs). if fs = [] then 0 else Suc (largest (map snd fs))))
               (case_sum (\<lambda>(src, ord, t, sh, k, v). Suc (size v)) (\<lambda>(src, ord, t, sh, vs). if vs = [] then 0 else Suc (largest vs))),
      case_sum (case_sum (\<lambda>(src, ord, t, sh, v). 0) (\<lambda>(src, ord, t, sh, fs). 2 + length fs))
               (case_sum (\<lambda>(src, ord, t, sh, k, v). 1) (\<lambda>(src, ord, t, sh, vs). 2 + length vs))]")
    (auto simp: decode_Some_iff max_def less_Suc_eq_le dest: decode_exists_size decode_items_largest
          simp del: json.size intro!: Suc_leI largest_range)

declare live_exp.simps [simp del] live_term.simps [simp del]

definition live_field :: "'e schema_source \<Rightarrow> key_order \<Rightarrow> string \<Rightarrow> live_table \<Rightarrow> string \<times> json \<Rightarrow> ('e, unit) live_op" where
  "live_field source ord table shape = (\<lambda>(key, v).
     if key = ''filter'' \<or> key = ''check'' then live_exp source ord table shape v
     else if key = ''columns'' then
       (case decode_strings v of None \<Rightarrow> ret () | Some names \<Rightarrow> lift_result id (known_columns table shape names))
     else if key = ''set'' then
       (case decode_object v of None \<Rightarrow> raise_err Undecodable
        | Some presets \<Rightarrow> lift_result id (known_columns table shape (map fst (json_range ord presets))))
     else ret ())"

fun each_op :: "('a \<Rightarrow> ('s, 'e, unit) op) \<Rightarrow> 'a list \<Rightarrow> ('s, 'e, unit) op" where
  "each_op f [] = ret ()"
| "each_op f (x # xs) = then_op (f x) (each_op f xs)"

definition check_live :: "'e schema_source \<Rightarrow> key_order \<Rightarrow> string \<Rightarrow> string \<Rightarrow> json \<Rightarrow> ('e, unit) live_op" where
  "check_live source ord table operation doc =
     bind_op (check_table source table) (\<lambda>shape.
       if lt_view shape \<and> operation \<noteq> ''select'' then raise_err (Invalid_Permission (View_Written table))
       else case decode_object doc of None \<Rightarrow> raise_err Undecodable
         | Some fs \<Rightarrow> each_op (live_field source ord table shape) (json_range ord fs))"

definition new_checker :: checker where
  "new_checker = \<lparr>ck_schemas = Map.empty, ck_reads = []\<rparr>"

section \<open>Tracked functions\<close>

definition is_served_schema :: "string \<Rightarrow> bool" where
  "is_served_schema name = (let lower = fold_lower name in
     lower \<notin> {''auth'', ''excalibase'', ''information_schema''} \<and> \<not> prefix ''pg_'' lower)"

record function_arg =
  fa_name :: string
  fa_type :: string

record function_detail =
  fd_schema :: string
  fd_name :: string
  fd_kind :: string
  fd_returns_table :: string
  fd_args :: "function_arg list"
  fd_volatility :: string
  fd_security_definer :: bool

datatype exposure = As_Query | As_Mutation

datatype track_error =
    Function_Not_Found | Overloaded | Procedure | Aggregate_Or_Window | Routine_Kind string | Schema_Not_Served string
  | Function_Name name_error | No_Table | Table_Not_Served string | Table_Name name_error
  | Session_Argument_Type string | No_Session_Argument string

definition trackable_kind :: "string \<Rightarrow> (track_error, unit) result" where
  "trackable_kind kind = (if kind = ''f'' then Inr () else if kind = ''p'' then Inl Procedure
     else if kind = ''a'' \<or> kind = ''w'' then Inl Aggregate_Or_Window else Inl (Routine_Kind kind))"

definition returns_served_table :: "string \<Rightarrow> (track_error, unit) result" where
  "returns_served_table table = (if table = [] then Inl No_Table
     else if \<not> is_served_schema (schema_of table) then Inl (Table_Not_Served table)
     else case validate_qualified_name table of Inl e \<Rightarrow> Inl (Table_Name e) | Inr u \<Rightarrow> Inr ())"

definition valid_session_argument :: "function_arg list \<Rightarrow> string option \<Rightarrow> (track_error, unit) result" where
  "valid_session_argument args arg = (case arg of None \<Rightarrow> Inr ()
     | Some name \<Rightarrow> (case find (\<lambda>a. fa_name a \<noteq> [] \<and> fa_name a = name) args of
         None \<Rightarrow> Inl (No_Session_Argument name)
       | Some a \<Rightarrow> if fa_type a \<noteq> ''json'' \<and> fa_type a \<noteq> ''jsonb'' then Inl (Session_Argument_Type name) else Inr ()))"

definition trackable :: "function_detail list \<Rightarrow> string option \<Rightarrow> (track_error, exposure \<times> bool) result" where
  "trackable overloads arg = (case overloads of [] \<Rightarrow> Inl Function_Not_Found
     | [fn] \<Rightarrow>
         bind_result (trackable_kind (fd_kind fn)) (\<lambda>_.
         if \<not> is_served_schema (fd_schema fn) then Inl (Schema_Not_Served (fd_schema fn))
         else bind_result (case validate_qualified_name (fd_schema fn @ ''.'' @ fd_name fn) of
             Inl e \<Rightarrow> Inl (Function_Name e) | Inr u \<Rightarrow> Inr u) (\<lambda>_.
           bind_result (returns_served_table (fd_returns_table fn)) (\<lambda>_.
           bind_result (valid_session_argument (fd_args fn) arg) (\<lambda>_.
           Inr (if fd_volatility fn = ''VOLATILE'' then As_Mutation else As_Query, fd_security_definer fn)))))
     | _ \<Rightarrow> Inl Overloaded)"

end
