(* ===== verification/Bool_Exp_Correct.thy ===== *)
theory Bool_Exp_Correct
  imports Bool_Exp
begin

text \<open>
  What the walker of \<^verbatim>\<open>boolexp.go\<close> accepts, stated without the walk: a grammar of expressions with the
  number of their nodes and their depth, and the theorem that the walker accepts exactly the
  expressions of the grammar within the two limits, whatever order Go visits its maps in.
\<close>

section \<open>The grammar\<close>

definition text_ok :: "string \<Rightarrow> bool" where
  "text_ok s \<longleftrightarrow> (looks_like_session_variable s \<longrightarrow> is_session_variable s)"

fun literal_ok :: "json \<Rightarrow> bool" where
  "literal_ok (JStr s) = (\<not> looks_like_session_variable s)"
| "literal_ok (JNum t) = fits_float64 t"
| "literal_ok (JBool b) = True"
| "literal_ok _ = False"

fun fixed_text :: "json \<Rightarrow> bool" where
  "fixed_text (JStr s) = (\<not> looks_like_session_variable s)"
| "fixed_text _ = False"

definition list_operator :: "string \<Rightarrow> bool" where
  "list_operator op \<longleftrightarrow> op = ''_in'' \<or> op = ''_nin''"

text \<open>An operand: a truth value, a list of literals, a text or a scalar; variables where they may stand.\<close>

definition operand_ok :: "string \<Rightarrow> json \<Rightarrow> bool" where
  "operand_ok op v = (case v of
       JBool b \<Rightarrow> op = ''_is_null'' \<or> \<not> list_operator op \<and> op \<noteq> ''_like'' \<and> op \<noteq> ''_nlike''
     | JNum t \<Rightarrow> fits_float64 t \<and> op \<noteq> ''_is_null'' \<and> \<not> list_operator op \<and> op \<noteq> ''_like'' \<and> op \<noteq> ''_nlike''
     | JStr s \<Rightarrow> op \<noteq> ''_is_null'' \<and> (if list_operator op then is_session_variable s else text_ok s)
     | JArr vs \<Rightarrow> list_operator op \<and> list_all literal_ok vs
     | _ \<Rightarrow> False)"

definition session_operand_ok :: "string \<Rightarrow> json \<Rightarrow> bool" where
  "session_operand_ok op v = (case v of
       JBool b \<Rightarrow> op = ''_is_null''
     | JStr s \<Rightarrow> (op = ''_eq'' \<or> op = ''_neq'') \<and> fixed_text v
     | JArr vs \<Rightarrow> list_operator op \<and> list_all fixed_text vs
     | _ \<Rightarrow> False)"

definition reserved_key :: "string \<Rightarrow> bool" where
  "reserved_key k \<longleftrightarrow> k = ''_and'' \<or> k = ''_or'' \<or> k = ''_not'' \<or> k = ''_exists''"

text \<open>The members of an object, in the order of the document.\<close>

abbreviation members :: "(string \<times> json) list \<Rightarrow> (string \<times> json) list" where
  "members kvs \<equiv> json_range (\<lambda>ks. ks) kvs"

text \<open>
  \<open>is_exp v n h\<close>: \<open>v\<close> is an expression of \<open>n\<close> nodes and depth \<open>h\<close>. A comparison is one node however
  many operators it holds; the members of an expression need no node of their own.
\<close>

inductive is_exp :: "json \<Rightarrow> nat \<Rightarrow> nat \<Rightarrow> bool"
  and is_terms :: "(string \<times> json) list \<Rightarrow> nat \<Rightarrow> nat \<Rightarrow> bool"
  and is_term :: "string \<Rightarrow> json \<Rightarrow> nat \<Rightarrow> nat \<Rightarrow> bool"
  and is_list :: "json list \<Rightarrow> nat \<Rightarrow> nat \<Rightarrow> bool" where
  object: "is_terms (members kvs) n h \<Longrightarrow> is_exp (JObj kvs) (Suc n) (Suc h)"
| no_terms: "is_terms [] 0 0"
| more_terms: "is_term k v n1 h1 \<Longrightarrow> is_terms fs n2 h2 \<Longrightarrow> is_terms ((k, v) # fs) (n1 + n2) (max h1 h2)"
| connective: "k = ''_and'' \<or> k = ''_or'' \<Longrightarrow> is_list vs n h \<Longrightarrow> is_term k (JArr vs) n h"
| negation: "is_exp v n h \<Longrightarrow> is_term ''_not'' v n h"
| exists_rows: "exists_where v = Inr w \<Longrightarrow> is_exp w n h \<Longrightarrow> is_term ''_exists'' v n h"
| session: "\<not> reserved_key k \<Longrightarrow> looks_like_session_variable k \<Longrightarrow> is_session_variable k \<Longrightarrow> members ops \<noteq> [] \<Longrightarrow>
    \<forall>(op, v) \<in> set (members ops). session_operand_ok op v \<Longrightarrow> is_term k (JObj ops) 1 1"
| compare: "\<not> reserved_key k \<Longrightarrow> \<not> looks_like_session_variable k \<Longrightarrow> column_name k \<Longrightarrow> members ops \<noteq> [] \<Longrightarrow>
    \<forall>(op, v) \<in> set (members ops). is_comparison_operator op \<and> operand_ok op v \<Longrightarrow> is_term k (JObj ops) 1 1"
| relationship: "\<not> reserved_key k \<Longrightarrow> \<not> looks_like_session_variable k \<Longrightarrow> column_name k \<Longrightarrow>
    \<forall>(op, v) \<in> set (members fs). \<not> is_comparison_operator op \<Longrightarrow> is_exp (JObj fs) n h \<Longrightarrow> is_term k (JObj fs) n h"
| no_items: "is_list [] 0 0"
| more_items: "is_exp v n1 h1 \<Longrightarrow> is_list vs n2 h2 \<Longrightarrow> is_list (v # vs) (n1 + n2) (max h1 h2)"

inductive_simps is_terms_simps [simp]: "is_terms [] n h" "is_terms ((k, v) # fs) n h"
inductive_simps is_list_simps [simp]: "is_list [] n h" "is_list (v # vs) n h"
inductive_simps is_exp_simps: "is_exp v n h"
inductive_simps is_term_simps: "is_term k v n h"

text \<open>The order of the terms does not matter.\<close>

lemma is_terms_insert:
  "is_terms (ys @ zs) n2 h2 \<Longrightarrow> is_term k v n1 h1 \<Longrightarrow> is_terms (ys @ (k, v) # zs) (n1 + n2) (max h1 h2)"
proof (induction ys arbitrary: n2 h2)
  case (Cons y ys)
  obtain k' v' where y: "y = (k', v')" by (cases y)
  from Cons.prems y obtain a b n' h' where
    t: "is_term k' v' a b" "is_terms (ys @ zs) n' h'" "n2 = a + n'" "h2 = max b h'" by auto
  from is_exp_is_terms_is_term_is_list.more_terms [OF t(1) Cons.IH [OF t(2) Cons.prems(2)]]
  show ?case using y t(3,4) by (simp only: append_Cons ac_simps max.left_commute)
qed (simp add: is_exp_is_terms_is_term_is_list.more_terms del: is_terms_simps)

lemma is_terms_perm:
  assumes "is_terms fs n h" "distinct fs" "distinct fs'" "set fs = set fs'"
  shows "is_terms fs' n h"
  using assms
proof (induction fs arbitrary: fs' n h)
  case (Cons x fs)
  obtain k v where x: "x = (k, v)" by (cases x)
  from Cons.prems(4) have "x \<in> set fs'" by auto
  then obtain ys zs where fs': "fs' = ys @ x # zs" by (auto dest: split_list)
  from Cons.prems(1) obtain n1 h1 n2 h2 where
    t: "is_term k v n1 h1" "is_terms fs n2 h2" "n = n1 + n2" "h = max h1 h2" unfolding x by auto
  have "distinct fs" "distinct (ys @ zs)" "set fs = set (ys @ zs)" using Cons.prems(2-4) fs' by auto
  then have "is_terms (ys @ zs) n2 h2" by (rule Cons.IH [OF t(2)])
  from is_terms_insert [OF this t(1)] show ?case using fs' x t(3,4) by simp
qed simp

lemma is_exp_object:
  assumes "visits_each_key ord"
  shows "is_exp (JObj kvs) n h \<longleftrightarrow> (\<exists>n' h'. is_terms (json_range ord kvs) n' h' \<and> n = Suc n' \<and> h = Suc h')"
proof -
  have "is_terms (members kvs) n' h' \<longleftrightarrow> is_terms (json_range ord kvs) n' h'" for n' h'
    using is_terms_perm json_range_distinct [OF assms] json_range_distinct [OF visits_id(1)]
      json_range_set [OF assms visits_id(1)] by metis
  then show ?thesis by (auto simp: is_exp_simps)
qed

section \<open>Operands\<close>

lemma list_item_ok: "validate_list_item v = Inr () \<longleftrightarrow> literal_ok v"
  by (cases v) (auto simp: validate_list_item_def)

lemma fixed_text_ok: "validate_fixed_text v = Inr () \<longleftrightarrow> fixed_text v"
  by (cases v) (auto simp: validate_fixed_text_def decode_string_def)

lemma validate_operand_ok: "validate_operand op v = Inr () \<longleftrightarrow> operand_ok op v"
  by (cases v) (auto simp: validate_operand_def operand_ok_def validate_list_operand_def list_operator_def
      validate_scalar_operand_def validate_string_operand_def text_ok_def decode_string_def decode_bool_def
      decode_array_def each_ok list_item_ok list_all_iff)

lemma validate_session_operand_ok: "validate_session_operand op v = Inr () \<longleftrightarrow> session_operand_ok op v"
  by (cases v) (auto simp: validate_session_operand_def session_operand_ok_def validate_operand_ok operand_ok_def
      list_operator_def fixed_text_ok decode_array_def each_ok list_all_iff)

lemma comparison_op_ok: "comparison_op c op v = Inr () \<longleftrightarrow> is_comparison_operator op \<and> operand_ok op v"
  by (simp add: comparison_op_def unit_result validate_operand_ok)

lemma session_op_ok: "session_op c op v = Inr () \<longleftrightarrow> session_operand_ok op v"
  by (simp add: session_op_def unit_result validate_session_operand_ok)

section \<open>The walk\<close>

lemma count_node_ok:
  "count_node d n = (Inr (), n') \<longleftrightarrow> n' = n + 1 \<and> n + 1 \<le> max_expression_nodes \<and> d \<le> max_expression_depth"
  by (auto simp: count_node_def Let_def)

lemma all_members:
  "visits_each_key ord \<Longrightarrow> (\<forall>x \<in> set (json_range ord kvs). P x) \<longleftrightarrow> (\<forall>x \<in> set (members kvs). P x)"
  using json_range_set [OF _ visits_id(1)] by metis

lemma members_empty: "members kvs = [] \<longleftrightarrow> json_keys kvs = []"
proof -
  have "(\<exists>x. x \<in> set (members kvs)) \<longleftrightarrow> (\<exists>k. k \<in> set (json_keys kvs))"
    by (auto simp: json_keys_mem json_range_iff [OF visits_id(1)])
  then show ?thesis by (metis all_not_in_conv set_empty)
qed

lemma check_ops_ok:
  "visits_each_key ord \<Longrightarrow> check_ops f ord ops n = (Inr (), n') \<longleftrightarrow>
     n' = n \<and> (\<forall>(op, v) \<in> set (members ops). f op v = Inr ())"
  by (auto simp: check_ops_def lift_result_Inr_iff each_ok all_members)

lemma comparison_ok:
  assumes "visits_each_key ord"
  shows "comparison ord k ops d n = (Inr (), n') \<longleftrightarrow> n' = n + 1 \<and> n + 1 \<le> max_expression_nodes \<and>
     d + 1 \<le> max_expression_depth \<and> (\<forall>(op, v) \<in> set (members ops). is_comparison_operator op \<and> operand_ok op v)"
  by (auto simp: comparison_def then_op_Inr_iff count_node_ok check_ops_ok [OF assms] comparison_op_ok)

lemma session_comparison_ok:
  assumes "visits_each_key ord"
  shows "session_comparison ord k v d n = (Inr (), n') \<longleftrightarrow> (\<exists>ops. v = JObj ops \<and> is_session_variable k \<and>
     members ops \<noteq> [] \<and> n' = n + 1 \<and> n + 1 \<le> max_expression_nodes \<and> d + 1 \<le> max_expression_depth \<and>
     (\<forall>(op, v) \<in> set (members ops). session_operand_ok op v))"
  by (cases v) (auto simp: session_comparison_def decode_object_def raise_err_Inr_iff then_op_Inr_iff count_node_ok
      check_ops_ok [OF assms] session_op_ok members_empty)

lemma some_comparison:
  "list_ex is_comparison_operator (json_keys ops) \<longleftrightarrow> (\<exists>(op, v) \<in> set (members ops). is_comparison_operator op)"
  unfolding list_ex_iff Bex_def json_keys_mem
  by (metis (mono_tags, lifting) case_prod_conv json_range_iff surj_pair visits_id(1))

text \<open>The terms of the grammar by the key they start with.\<close>

lemma term_connective:
  "k = ''_and'' \<or> k = ''_or'' \<Longrightarrow> is_term k v n h \<longleftrightarrow> (\<exists>vs. v = JArr vs \<and> is_list vs n h)"
  by (subst is_term_simps) (auto simp: reserved_key_def)

lemma term_negation: "is_term ''_not'' v n h \<longleftrightarrow> is_exp v n h"
  by (subst is_term_simps) (simp add: reserved_key_def)

lemma term_exists: "is_term ''_exists'' v n h \<longleftrightarrow> (\<exists>w. exists_where v = Inr w \<and> is_exp w n h)"
  by (subst is_term_simps) (simp add: reserved_key_def)

lemma term_session:
  "\<not> reserved_key k \<Longrightarrow> looks_like_session_variable k \<Longrightarrow> is_term k v n h \<longleftrightarrow> (\<exists>ops. v = JObj ops \<and>
     is_session_variable k \<and> members ops \<noteq> [] \<and> n = 1 \<and> h = 1 \<and>
     (\<forall>(op, v) \<in> set (members ops). session_operand_ok op v))"
  by (subst is_term_simps) (auto simp: reserved_key_def)

lemma any_all_split:
  "xs \<noteq> [] \<and> (\<forall>(k, v) \<in> set xs. C k \<and> Q k v) \<and> A \<or> (\<forall>(k, v) \<in> set xs. \<not> C k) \<and> B \<longleftrightarrow>
   (if \<exists>(k, v) \<in> set xs. C k then (\<forall>(k, v) \<in> set xs. C k \<and> Q k v) \<and> A else B)"
  by (cases xs) auto

lemma term_other:
  assumes "\<not> reserved_key k" "\<not> looks_like_session_variable k"
  shows "is_term k v n h \<longleftrightarrow> (\<exists>ops. v = JObj ops \<and> column_name k \<and>
     (if list_ex is_comparison_operator (json_keys ops)
      then (\<forall>(op, v) \<in> set (members ops). is_comparison_operator op \<and> operand_ok op v) \<and> n = 1 \<and> h = 1
      else is_exp v n h))"
proof -
  have "is_term k v n h \<longleftrightarrow> (\<exists>ops. v = JObj ops \<and> column_name k \<and>
      (members ops \<noteq> [] \<and> (\<forall>(op, v) \<in> set (members ops). is_comparison_operator op \<and> operand_ok op v) \<and> n = 1 \<and> h = 1
       \<or> (\<forall>(op, v) \<in> set (members ops). \<not> is_comparison_operator op) \<and> is_exp v n h))"
    using assms by (subst is_term_simps) (auto simp: reserved_key_def)
  then show ?thesis unfolding any_all_split some_comparison .
qed

declare walk_exp.simps [simp del] walk_term.simps [simp del]

text \<open>Two parts walked in turn share the limits.\<close>

lemma walk_in_turn:
  fixes d n0 :: nat
  assumes first: "\<And>m. F m \<longleftrightarrow> (\<exists>n h. A n h \<and> m = n0 + n \<and> n0 + n \<le> N \<and> d + h \<le> D)"
    and second: "\<And>m. m \<le> N \<Longrightarrow> S m \<longleftrightarrow> (\<exists>n h. B n h \<and> r = m + n \<and> m + n \<le> N \<and> d + h \<le> D)"
    and both: "\<And>n h. C n h \<longleftrightarrow> (\<exists>n1 h1 n2 h2. n = n1 + n2 \<and> h = max h1 h2 \<and> A n1 h1 \<and> B n2 h2)"
  shows "(\<exists>m. F m \<and> S m) \<longleftrightarrow> (\<exists>n h. C n h \<and> r = n0 + n \<and> n0 + n \<le> N \<and> d + h \<le> D)" (is "?l \<longleftrightarrow> ?r")
proof
  assume ?l
  then obtain n1 h1 n2 h2 where a: "A n1 h1" "n0 + n1 \<le> N" "d + h1 \<le> D" "B n2 h2" "r = n0 + n1 + n2"
      "n0 + n1 + n2 \<le> N" "d + h2 \<le> D" using first second by auto
  then have "C (n1 + n2) (max h1 h2)" using both by blast
  with a show ?r by (intro exI [of _ "n1 + n2"] exI [of _ "max h1 h2"]) auto
next
  assume ?r
  then obtain n1 h1 n2 h2 where a: "A n1 h1" "B n2 h2" "r = n0 + (n1 + n2)" "n0 + (n1 + n2) \<le> N" "d + max h1 h2 \<le> D"
    using both by auto
  then have "F (n0 + n1)" "S (n0 + n1)" using first second [of "n0 + n1"] by fastforce+
  then show ?l by blast
qed

text \<open>
  The walker from a counter \<open>n0\<close> within the limit and at depth \<open>d\<close> within the limit: it accepts what
  the grammar generates and the rest of the limits allows, and counts its nodes.
\<close>

lemma walk_accepts:
  assumes "visits_each_key ord"
  shows "walk_exp ord v d n0 = (Inr (), n1) \<longleftrightarrow>
      (\<exists>n h. is_exp v n h \<and> n1 = n0 + n \<and> n0 + n \<le> max_expression_nodes \<and> d + h \<le> Suc max_expression_depth)"
    and "n0 \<le> max_expression_nodes \<Longrightarrow> d \<le> max_expression_depth \<Longrightarrow> walk_terms ord fs d n0 = (Inr (), n1) \<longleftrightarrow>
      (\<exists>n h. is_terms fs n h \<and> n1 = n0 + n \<and> n0 + n \<le> max_expression_nodes \<and> d + h \<le> max_expression_depth)"
    and "n0 \<le> max_expression_nodes \<Longrightarrow> d \<le> max_expression_depth \<Longrightarrow> walk_term ord k v d n0 = (Inr (), n1) \<longleftrightarrow>
      (\<exists>n h. is_term k v n h \<and> n1 = n0 + n \<and> n0 + n \<le> max_expression_nodes \<and> d + h \<le> max_expression_depth)"
    and "n0 \<le> max_expression_nodes \<Longrightarrow> d \<le> max_expression_depth \<Longrightarrow> walk_list ord vs d n0 = (Inr (), n1) \<longleftrightarrow>
      (\<exists>n h. is_list vs n h \<and> n1 = n0 + n \<and> n0 + n \<le> max_expression_nodes \<and> d + h \<le> max_expression_depth)"
  using assms
proof (induction ord v d and ord fs d and ord k v d and ord vs d
    arbitrary: n0 n1 and n0 n1 and n0 n1 and n0 n1 rule: walk_exp_walk_terms_walk_term_walk_list.induct)
  case (1 ord v d)
  show ?case
  proof (cases v)
    case (JObj kvs)
    show ?thesis
      using "1.IH" [of kvs] "1.prems" JObj
      by (simp add: walk_exp.simps then_op_Inr_iff count_node_ok is_exp_object [OF "1.prems"]) fastforce
  qed (simp_all add: walk_exp.simps then_op_Inr_iff decode_object_def raise_err_Inr_iff is_exp_simps)
next
  case (2 ord d)
  then show ?case by (simp add: ret_Inr_iff) 
next
  case (3 ord k v fs d)
  show ?case unfolding walk_terms.simps then_op_Inr_iff
    by (rule walk_in_turn [where A = "is_term k v" and B = "is_terms fs"]) (use 3 in auto)
next
  case (4 ord k v d)
  note IH = "4.IH" and prems = "4.prems"
  consider "k = ''_and'' \<or> k = ''_or''" | "k = ''_not''" | "k = ''_exists''"
    | "\<not> reserved_key k" "looks_like_session_variable k" | "\<not> reserved_key k" "\<not> looks_like_session_variable k"
    unfolding reserved_key_def by blast
  then show ?case
  proof cases
    case 1
    then show ?thesis using IH(1) prems
      by (cases v) (auto simp: walk_term.simps term_connective [OF 1] decode_array_def raise_err_Inr_iff)
  next
    case 2
    then show ?thesis using IH(2) prems by (simp add: walk_term.simps term_negation)
  next
    case 3
    then show ?thesis using IH(3) prems
      by (cases "exists_where v") (auto simp: walk_term.simps term_exists raise_err_Inr_iff)
  next
    case 4
    then have "k \<noteq> ''_and''" "k \<noteq> ''_or''" "k \<noteq> ''_not''" "k \<noteq> ''_exists''" by (auto simp: reserved_key_def)
    with 4 show ?thesis
      by (auto simp: walk_term.simps term_session session_comparison_ok [OF prems(3)])
  next
    case 5
    then have k: "k \<noteq> ''_and''" "k \<noteq> ''_or''" "k \<noteq> ''_not''" "k \<noteq> ''_exists''" by (auto simp: reserved_key_def)
    with 5 show ?thesis using IH(4) prems
      by (cases v) (auto simp: walk_term.simps term_other decode_object_def raise_err_Inr_iff comparison_ok [OF prems(3)])
  qed
next
  case (5 ord d)
  then show ?case by (simp add: ret_Inr_iff)
next
  case (6 ord v vs d)
  show ?case unfolding walk_list.simps then_op_Inr_iff
    by (rule walk_in_turn [where A = "is_exp v" and B = "is_list vs"]) (use 6 in auto)
qed

lemma validate_bool_exp_ok:
  assumes "visits_each_key ord"
  shows "validate_bool_exp ord v = Inr () \<longleftrightarrow>
    (\<exists>n h. is_exp v n h \<and> n \<le> max_expression_nodes \<and> h \<le> max_expression_depth)"
proof -
  have "validate_bool_exp ord v = Inr () \<longleftrightarrow> (\<exists>n1. walk_exp ord v 1 0 = (Inr (), n1))"
    by (cases "walk_exp ord v 1 0") (auto simp: validate_bool_exp_def)
  then show ?thesis by (simp add: walk_accepts [OF assms])
qed

text \<open>
  Claim C28. The walker accepts a document exactly when it is an expression of the grammar with at most
  200 nodes and depth at most 16, whatever order Go visits its maps in: acceptance does not depend on
  the iteration order, and no limit refuses an expression that is within both.
\<close>

theorem accepts_exactly:
  assumes "visits_each_key ord"
  shows "validate_bool_exp ord v = Inr () \<longleftrightarrow>
    (\<exists>n h. is_exp v n h \<and> n \<le> max_expression_nodes \<and> h \<le> max_expression_depth)"
  by (rule validate_bool_exp_ok [OF assms])

text \<open>An expression the later witnesses share.\<close>

definition sample_exp :: json where
  "sample_exp = JObj [(''_not'', JObj [(''owner'', JObj [(''_eq'', JStr ''X-Excalibase-User'')])])]"

lemma sample_members:
  "members [(''_eq'', JStr ''X-Excalibase-User'')] = [(''_eq'', JStr ''X-Excalibase-User'')]"
  "members [(''owner'', x)] = [(''owner'', x)]" "members [(''_not'', x)] = [(''_not'', x)]"
  by (simp_all add: json_range_def json_keys_def json_member_def List.map_filter_def)

lemma sample_names:
  "is_session_variable ''X-Excalibase-User''" "\<not> looks_like_session_variable ''owner''" "column_name ''owner''"
  "\<not> reserved_key ''owner''" "is_comparison_operator ''_eq''"
  by code_simp+

lemma sample_is_exp: "is_exp sample_exp 3 3"
proof -
  let ?c = "JObj [(''owner'', JObj [(''_eq'', JStr ''X-Excalibase-User'')])]"
  have "is_term ''owner'' (JObj [(''_eq'', JStr ''X-Excalibase-User'')]) 1 1"
    by (rule is_exp_is_terms_is_term_is_list.compare)
      (simp_all add: sample_names sample_members operand_ok_def list_operator_def text_ok_def)
  then have "is_exp ?c (Suc (1 + 0)) (Suc (max 1 0))"
    by (intro is_exp_is_terms_is_term_is_list.object) (simp add: sample_members)
  then have "is_term ''_not'' ?c 2 2" by (simp add: term_negation numeral_2_eq_2)
  then have "is_exp (JObj [(''_not'', ?c)]) (Suc (2 + 0)) (Suc (max 2 0))"
    by (intro is_exp_is_terms_is_term_is_list.object) (simp add: sample_members)
  then show ?thesis by (simp add: sample_exp_def numeral_3_eq_3 numeral_2_eq_2)
qed

theorem accepts_exactly_witness: "is_exp sample_exp 3 3 \<and> validate_bool_exp rev sample_exp = Inr ()"
proof -
  have "validate_bool_exp rev sample_exp = Inr ()"
    unfolding accepts_exactly [OF visits_id(3)] using sample_is_exp by force
  with sample_is_exp show ?thesis by simp
qed

section \<open>The work of a walk\<close>

text \<open>An operation that starts within the node limit ends within it, or fails having just passed it.\<close>

definition stays_bounded :: "exp_op \<Rightarrow> bool" where
  "stays_bounded m \<longleftrightarrow> (\<forall>n \<le> max_expression_nodes. snd (m n) \<le> Suc max_expression_nodes \<and>
     (fst (m n) = Inr () \<longrightarrow> snd (m n) \<le> max_expression_nodes))"

lemma bounded_then:
  assumes "stays_bounded m" "stays_bounded k"
  shows "stays_bounded (then_op m k)"
  unfolding stays_bounded_def
proof (intro allI impI)
  fix n :: nat
  assume n: "n \<le> max_expression_nodes"
  obtain r n' where m: "m n = (r, n')" by (cases "m n")
  show "snd (then_op m k n) \<le> Suc max_expression_nodes \<and>
     (fst (then_op m k n) = Inr () \<longrightarrow> snd (then_op m k n) \<le> max_expression_nodes)"
  proof (cases r)
    case (Inl e)
    then show ?thesis using assms(1) n m by (auto simp: stays_bounded_def then_op_def bind_op_def)
  next
    case (Inr u)
    then have "n' \<le> max_expression_nodes" using assms(1) n m by (auto simp: stays_bounded_def)
    then show ?thesis using assms(2) Inr m by (auto simp: stays_bounded_def then_op_def bind_op_def)
  qed
qed

lemma bounded_simple: "stays_bounded (ret u)" "stays_bounded (raise_err e)" "stays_bounded (count_node d)"
  "stays_bounded (check_ops f ord ops)"
  by (auto simp: stays_bounded_def ret_def raise_err_def count_node_def check_ops_def lift_result_def Let_def
      split: sum.splits)

lemmas bounded_intros = bounded_then bounded_simple

lemma walk_bounded:
  "stays_bounded (walk_exp ord v d)" "stays_bounded (walk_terms ord fs d)"
  "stays_bounded (walk_term ord k v d)" "stays_bounded (walk_list ord vs d)"
proof (induction ord v d and ord fs d and ord k v d and ord vs d rule: walk_exp_walk_terms_walk_term_walk_list.induct)
  case (1 ord v d)
  then show ?case by (auto simp: walk_exp.simps intro!: bounded_intros split: option.split)
next
  case (4 ord k v d)
  have "stays_bounded (session_comparison ord k v d)" "stays_bounded (comparison ord k fs d)" for fs
    by (auto simp: session_comparison_def comparison_def intro!: bounded_intros split: option.split)
  with 4 show ?case
    by (subst walk_term.simps) (auto intro!: bounded_intros split: option.split sum.split)
qed (auto intro: bounded_intros)

text \<open>
  Claim C30. On every document, accepted or not, the walk returns, and the counter it leaves is at most one
  past the limit of 200 nodes: a document of any size costs the walker no more than 201 counted nodes.
\<close>

theorem walk_work_bounded:
  "snd (walk_exp ord v 1 0) \<le> 201"
  using walk_bounded(1) [of ord v 1] by (auto simp: stays_bounded_def)

section \<open>The names an expression holds\<close>

text \<open>The column, relationship and table names that reach the engine from an expression.\<close>

inductive mentions :: "json \<Rightarrow> string \<Rightarrow> bool" and mentions_term :: "string \<Rightarrow> json \<Rightarrow> string \<Rightarrow> bool" where
  in_member: "(k, w) \<in> set (members kvs) \<Longrightarrow> mentions_term k w s \<Longrightarrow> mentions (JObj kvs) s"
| own_name: "\<not> reserved_key k \<Longrightarrow> \<not> looks_like_session_variable k \<Longrightarrow> mentions_term k w k"
| in_connective: "k = ''_and'' \<or> k = ''_or'' \<Longrightarrow> v \<in> set vs \<Longrightarrow> mentions v s \<Longrightarrow> mentions_term k (JArr vs) s"
| in_negation: "mentions v s \<Longrightarrow> mentions_term ''_not'' v s"
| exists_table: "json_member kvs ''_table'' = Some t \<Longrightarrow> decode_string t = Some s \<Longrightarrow> mentions_term ''_exists'' (JObj kvs) s"
| in_exists: "json_member kvs ''_where'' = Some w \<Longrightarrow> mentions w s \<Longrightarrow> mentions_term ''_exists'' (JObj kvs) s"
| in_relationship: "\<not> reserved_key k \<Longrightarrow> \<not> looks_like_session_variable k \<Longrightarrow>
    \<not> list_ex is_comparison_operator (json_keys fs) \<Longrightarrow> mentions (JObj fs) s \<Longrightarrow> mentions_term k (JObj fs) s"

definition identifier_char :: "char \<Rightarrow> bool" where
  "identifier_char c \<longleftrightarrow> is_letter c \<or> is_digit c \<or> c = CHR ''_'' \<or> c = CHR ''$''"

text \<open>One identifier of at most 63 bytes, or two joined by a dot.\<close>

definition plain_name :: "string \<Rightarrow> bool" where
  "plain_name s \<longleftrightarrow> (\<exists>a. s = a \<and> column_name a) \<or> (\<exists>a b. s = a @ CHR ''.'' # b \<and> column_name a \<and> column_name b)"

lemma qualified_part_column: "qualified_part s \<Longrightarrow> column_name s"
  by (auto simp: qualified_part_def column_name_def is_lower_letter_def is_letter_def Let_def list_all_iff split: list.splits)

lemma cut_at_found: "cut_at c s = (a, b, True) \<Longrightarrow> s = a @ c # b"
proof -
  assume "cut_at c s = (a, b, True)"
  then have l: "length a < length s" "a = takeWhile (\<lambda>x. x \<noteq> c) s" "b = drop (Suc (length a)) s"
    by (auto simp: cut_at_def Let_def split: if_splits)
  then have "s ! length a = c" using nth_length_takeWhile [of "\<lambda>x. x \<noteq> c" s] by auto
  then have "drop (length a) s = c # b" using l(1,3) by (metis Cons_nth_drop_Suc)
  moreover have "take (length a) s = a" using l(2) by (metis takeWhile_eq_take)
  ultimately show ?thesis by (metis append_take_drop_id)
qed

lemma qualified_plain:
  assumes "validate_qualified_name s = Inr ()"
  shows "plain_name s"
proof -
  obtain a b found where c: "cut_at CHR ''.'' s = (a, b, found)" by (rule prod_cases3)
  with assms have f: "found" "qualified_part a" "qualified_part b"
    by (simp_all add: validate_qualified_name_def split: if_splits)
  then have "s = a @ CHR ''.'' # b" using c cut_at_found by simp
  with f qualified_part_column show ?thesis unfolding plain_name_def by blast
qed

lemma exists_where_parts:
  "exists_where (JObj kvs) = Inr w \<Longrightarrow> json_member kvs ''_table'' = Some t \<Longrightarrow> decode_string t = Some s \<Longrightarrow>
     json_member kvs ''_where'' = Some w \<and> validate_qualified_name s = Inr ()"
  "exists_where (JObj kvs) = Inr w \<Longrightarrow> json_member kvs ''_where'' = Some w"
  by (auto simp: exists_where_def split: option.splits if_splits sum.splits)

lemma is_terms_member: "is_terms fs n h \<Longrightarrow> (k, w) \<in> set fs \<Longrightarrow> \<exists>n h. is_term k w n h"
  by (induction fs arbitrary: n h) (auto, blast)

lemma is_list_item: "is_list vs n h \<Longrightarrow> v \<in> set vs \<Longrightarrow> \<exists>n h. is_exp v n h"
  by (induction vs arbitrary: n h) auto

lemma mentions_plain:
  "mentions v s \<Longrightarrow> is_exp v n h \<Longrightarrow> plain_name s"
  "mentions_term k w s \<Longrightarrow> is_term k w n h \<Longrightarrow> plain_name s"
proof (induction arbitrary: n h and n h rule: mentions_mentions_term.inducts)
  case (in_member k w kvs s)
  then show ?case using is_terms_member by (fastforce simp: is_exp_simps)
next
  case (own_name k w)
  then have "column_name k" by (auto simp: term_other)
  then show ?case by (simp add: plain_name_def)
next
  case (in_connective k v vs s)
  then show ?case using is_list_item by (fastforce simp: term_connective)
next
  case (in_negation v s)
  then show ?case by (simp add: term_negation)
next
  case (exists_table kvs t s)
  then show ?case using exists_where_parts(1) qualified_plain by (fastforce simp: term_exists)
next
  case (in_exists kvs w s)
  then show ?case using exists_where_parts(2) by (fastforce simp: term_exists)
next
  case (in_relationship k fs s)
  then show ?case by (auto simp: term_other)
qed

text \<open>
  Claim C29. Every column, relationship and table name an accepted expression holds, at any depth, is an
  identifier of letters, digits, underscore and dollar of at most 63 characters, or two of them joined
  by one dot: nothing an expression carries into the engine's SQL as a name can close a quotation.
\<close>

theorem accepted_names_plain:
  assumes "visits_each_key ord" "validate_bool_exp ord v = Inr ()" "mentions v s"
  shows "plain_name s"
  using assms mentions_plain(1) by (auto simp: validate_bool_exp_ok)

theorem accepted_names_plain_witness: "mentions sample_exp ''owner'' \<and> plain_name ''owner''"
proof -
  have "mentions (JObj [(''owner'', x)]) ''owner''" for x
    by (rule in_member [of "''owner''" x]) (auto simp: sample_members sample_names intro: own_name)
  then have m: "mentions sample_exp ''owner''"
    unfolding sample_exp_def by (intro in_member [of "''_not''"] in_negation) (auto simp: sample_members)
  have "validate_bool_exp rev sample_exp = Inr ()"
    unfolding validate_bool_exp_ok [OF visits_id(3)] using sample_is_exp by force
  from accepted_names_plain [OF visits_id(3) this m] m show ?thesis by simp
qed

section \<open>Permission objects\<close>

lemma each_range:
  "visits_each_key ord \<Longrightarrow> each f (json_range ord kvs) = Inr () \<longleftrightarrow> (\<forall>k w. json_member kvs k = Some w \<longrightarrow> f (k, w) = Inr ())"
  by (auto simp: each_ok json_range_iff)

lemma validate_field_order:
  assumes "visits_each_key ord" "visits_each_key ord'"
  shows "validate_field ord x = Inr () \<longleftrightarrow> validate_field ord' x = Inr ()"
proof -
  have "validate_bool_exp ord v = Inr () \<longleftrightarrow> validate_bool_exp ord' v = Inr ()" for v
    using assms by (simp add: validate_bool_exp_ok)
  moreover have "validate_presets ord v = Inr () \<longleftrightarrow> validate_presets ord' v = Inr ()" for v
    using assms by (auto simp: validate_presets_def each_range split: option.split)
  ultimately show ?thesis by (cases x) (simp add: validate_field_def unit_result)
qed

lemma normalize_ok:
  assumes "visits_each_key ord"
  shows "normalize_permission ord op body = Inr out \<longleftrightarrow> (\<exists>allowed fields. operation_keys op = Some allowed \<and>
     body = Some (JObj fields) \<and> out = JObj (json_range sort fields) \<and>
     (\<forall>k w. json_member fields k = Some w \<longrightarrow> k \<in> set (map fst allowed)) \<and>
     (\<forall>(k, required) \<in> set allowed. required \<longrightarrow> json_member fields k \<noteq> None) \<and>
     (\<forall>k w. json_member fields k = Some w \<longrightarrow> validate_field ord (k, w) = Inr ()))"
proof -
  have "each (known_key allowed) (json_range ord fields) = Inr () \<longleftrightarrow>
      (\<forall>k w. json_member fields k = Some w \<longrightarrow> k \<in> set (map fst allowed))" for allowed fields
    unfolding each_range [OF assms] by (auto simp: known_key_def)
  moreover have "each (required_key fields) allowed = Inr () \<longleftrightarrow>
      (\<forall>(k, required) \<in> set allowed. required \<longrightarrow> json_member fields k \<noteq> None)" for allowed fields
    unfolding each_ok by (intro ball_cong) (auto simp: required_key_def split: if_splits)
  ultimately show ?thesis
    by (cases "operation_keys op"; cases "Option.bind body decode_object")
      (auto simp: normalize_permission_def bind_result_Inr_iff bind_eq_Some_conv decode_Some_iff each_range [OF assms])
qed

text \<open>
  A permission the service stores is in normal form: its keys are sorted, each once, all keys of
  the operation and the required ones among them, and sent again it is accepted and stored unchanged,
  whatever order Go visits its maps in either time.
\<close>

theorem normalize_permission_idempotent:
  assumes "visits_each_key ord" "visits_each_key ord'" "normalize_permission ord op body = Inr out"
  shows "normalize_permission ord' op (Some out) = Inr out \<and>
    (\<exists>fields allowed. out = JObj fields \<and> sorted (map fst fields) \<and> distinct (map fst fields) \<and>
       operation_keys op = Some allowed \<and> set (map fst fields) \<subseteq> set (map fst allowed) \<and>
       {k. (k, True) \<in> set allowed} \<subseteq> set (map fst fields))"
proof -
  from assms(3) obtain allowed fields where n: "operation_keys op = Some allowed" "out = JObj (json_range sort fields)"
      "\<forall>k w. json_member fields k = Some w \<longrightarrow> k \<in> set (map fst allowed)"
      "\<forall>(k, required) \<in> set allowed. required \<longrightarrow> json_member fields k \<noteq> None"
      "\<forall>k w. json_member fields k = Some w \<longrightarrow> validate_field ord (k, w) = Inr ()"
    unfolding normalize_ok [OF assms(1)] by blast
  have again: "normalize_permission ord' op (Some out) = Inr out"
    unfolding normalize_ok [OF assms(2)] using n validate_field_order [OF assms(1,2)]
    by (simp add: json_range_sort_twice visits_id)
  have keys: "map fst (json_range sort fields) = sort (json_keys fields)" by (rule json_range_keys) (rule visits_id)
  have "set (json_keys fields) \<subseteq> set (map fst allowed)" using n(3) by (auto simp: json_keys_mem)
  moreover have "{k. (k, True) \<in> set allowed} \<subseteq> set (json_keys fields)" using n(4) by (auto simp: json_keys_mem)
  moreover have "sorted (map fst (json_range sort fields))" "distinct (map fst (json_range sort fields))"
    "set (map fst (json_range sort fields)) = set (json_keys fields)" unfolding keys by simp_all
  ultimately show ?thesis using again n(1,2) by metis
qed

definition sample_permission :: json where
  "sample_permission = JObj [(''filter'', sample_exp), (''columns'', JStr ''*'')]"

theorem normalize_permission_idempotent_witness:
  "normalize_permission rev ''select'' (Some sample_permission) = Inr (JObj [(''columns'', JStr ''*''), (''filter'', sample_exp)]) \<and>
   normalize_permission (\<lambda>ks. ks) ''select'' (Some (JObj [(''columns'', JStr ''*''), (''filter'', sample_exp)])) =
     Inr (JObj [(''columns'', JStr ''*''), (''filter'', sample_exp)])"
proof -
  have v: "validate_bool_exp rev sample_exp = Inr ()"
    unfolding validate_bool_exp_ok [OF visits_id(3)] using sample_is_exp by force
  have order: "sort [''filter'', ''columns''] = [''columns'', ''filter'']" by code_simp
  have "normalize_permission rev ''select'' (Some sample_permission) =
      Inr (JObj [(''columns'', JStr ''*''), (''filter'', sample_exp)])"
    by (simp add: normalize_permission_def operation_keys_def sample_permission_def json_range_def json_keys_def
        json_member_def List.map_filter_def known_key_def required_key_def validate_field_def v validate_columns_def
        order)
  with normalize_permission_idempotent [OF visits_id(3,1) this] show ?thesis by simp
qed

section \<open>What the limits and the variables leave open\<close>

text \<open>
  The limits count nodes, and a comparison is one node whatever its operand: an accepted \<open>_in\<close> list may
  hold any number of elements, so the size of the compiled condition has no bound.
\<close>

lemma in_list_unbounded: "is_exp (JObj [(''owner'', JObj [(''_in'', JArr (replicate m (JStr ''a'')))])]) 2 2"
proof -
  have m: "members [(''_in'', x)] = [(''_in'', x)]" for x
    by (simp add: json_range_def json_keys_def json_member_def List.map_filter_def)
  have "is_comparison_operator ''_in''" "\<not> looks_like_session_variable ''a''" by code_simp+
  then have "is_term ''owner'' (JObj [(''_in'', JArr (replicate m (JStr ''a'')))]) 1 1"
    by (intro is_exp_is_terms_is_term_is_list.compare)
      (simp_all add: sample_names m operand_ok_def list_operator_def list_all_iff)
  then have "is_exp (JObj [(''owner'', JObj [(''_in'', JArr (replicate m (JStr ''a'')))])]) (Suc (1 + 0)) (Suc (max 1 0))"
    by (intro is_exp_is_terms_is_term_is_list.object) (simp add: sample_members)
  then show ?thesis by (simp add: numeral_2_eq_2)
qed

text \<open>
  Case folding differs between the two tests of a variable: with U+017F for the s the pattern matches a
  string that the prefix test does not see, so it stands where only a variable may, as a list operand.
\<close>

lemma long_s_variable:
  "is_session_variable (''x-excaliba'' @ [CHR 0xC5, CHR 0xBF] @ ''e-roles'')"
  "\<not> looks_like_session_variable (''x-excaliba'' @ [CHR 0xC5, CHR 0xBF] @ ''e-roles'')"
  "validate_operand ''_in'' (JStr (''x-excaliba'' @ [CHR 0xC5, CHR 0xBF] @ ''e-roles'')) = Inr ()"
  by code_simp+

end
