(* ===== verification/Live_Schema_Correct.thy ===== *)
theory Live_Schema_Correct
  imports Live_Schema Bool_Exp_Correct
begin

text \<open>
  What a check against the live schema promises: on a database that does not change meanwhile it accepts
  exactly the permissions whose tables, columns and relationships exist; on any database it reads each
  schema at most once and passes on a failed read as it is; and a permission that was normalized before
  never fails for its shape. The first needs an induction of its own; the others are properties of
  every operation the checker is composed of, proved once in a locale.
\<close>

section \<open>Properties of everything the checker does\<close>

locale checker_property =
  fixes source :: "'e schema_source" and Q :: "('e, unit) live_op \<Rightarrow> bool"
  assumes of_ret: "Q (ret ())"
    and of_raise: "(\<forall>e. err \<noteq> Read_Failed e) \<Longrightarrow> Q (raise_err err)"
    and of_names: "Q (lift_result id (known_columns table shape names))"
    and of_then: "Q m \<Longrightarrow> Q k \<Longrightarrow> Q (then_op m k)"
    and of_table: "(\<And>shape. Q (g shape)) \<Longrightarrow> Q (bind_op (check_table source key) g)"
begin

lemma of_if: "(b \<Longrightarrow> Q m) \<Longrightarrow> (\<not> b \<Longrightarrow> Q n) \<Longrightarrow> Q (if b then m else n)"
  by simp

lemma of_option: "(x = None \<Longrightarrow> Q m) \<Longrightarrow> (\<And>y. x = Some y \<Longrightarrow> Q (f y)) \<Longrightarrow> Q (case x of None \<Rightarrow> m | Some y \<Rightarrow> f y)"
  by (cases x) simp_all

lemma of_pair: "(\<And>a b. x = (a, b) \<Longrightarrow> Q (h a b)) \<Longrightarrow> Q (case x of (a, b) \<Rightarrow> h a b)"
  by (cases x) simp

lemmas of_intros = of_if of_option of_pair of_ret of_names of_table

lemma of_walk:
  "Q (live_exp source ord table shape v)" "Q (live_terms source ord table shape fs)"
  "Q (live_term source ord table shape key v)" "Q (live_list source ord table shape vs)"
proof (induction source \<equiv> source ord table shape v and source \<equiv> source ord table shape fs
    and source \<equiv> source ord table shape key v and source \<equiv> source ord table shape vs
    rule: live_exp_live_terms_live_term_live_list.induct)
  case (1 ord table shape v)
  show ?case by (subst live_exp.simps) (intro of_option of_raise 1; simp)
next
  case (4 ord table shape key v)
  note IH = "4"
  show ?case
    apply (subst live_term.simps)
    apply (intro of_intros)
    subgoal by (rule of_raise) simp
    subgoal by (rule IH(1))
    subgoal by (rule IH(2))
    subgoal by (rule of_raise) simp
    subgoal by (rule of_raise) simp
    subgoal for y t wh shape' w by (rule IH(3) [of y t wh w shape']) simp_all
    subgoal by (rule of_raise) simp
    subgoal by (rule of_raise) simp
    subgoal by (rule IH(4))
    done
qed (auto intro: of_ret of_then)

lemma of_field: "Q (live_field source ord table shape x)"
  by (cases x) (auto simp: live_field_def intro!: of_walk of_ret of_raise of_names split: option.split)

lemma of_each: "(\<And>x. Q (f x)) \<Longrightarrow> Q (each_op f xs)"
  by (induction xs) (auto intro: of_ret of_then)

lemma of_check: "Q (check_live source ord table operation doc)"
  unfolding check_live_def
  by (rule of_table) (auto intro!: of_raise of_each of_field split: option.split)

end

section \<open>Reads\<close>

text \<open>Between reads: the schemas held are those read, each once, as the source returned them.\<close>

definition checker_ok :: "'e schema_source \<Rightarrow> checker \<Rightarrow> bool" where
  "checker_ok source c \<longleftrightarrow> distinct (ck_reads c) \<and> dom (ck_schemas c) = set (ck_reads c) \<and>
     (\<forall>i < length (ck_reads c). source i (ck_reads c ! i) = Inr (the (ck_schemas c (ck_reads c ! i))))"

definition reads_good :: "'e schema_source \<Rightarrow> ('e live_error, 'a) result \<times> checker \<Rightarrow> bool" where
  "reads_good source p \<longleftrightarrow> distinct (ck_reads (snd p)) \<and>
     (case fst p of Inl (Read_Failed e) \<Rightarrow> \<exists>i sch. source i sch = Inl e | _ \<Rightarrow> checker_ok source (snd p))"

definition reads_once :: "'e schema_source \<Rightarrow> ('e, 'a) live_op \<Rightarrow> bool" where
  "reads_once source m \<longleftrightarrow> (\<forall>c. checker_ok source c \<longrightarrow> reads_good source (m c))"

lemma reads_good_ok: "checker_ok source c \<Longrightarrow> \<forall>e. r \<noteq> Inl (Read_Failed e) \<Longrightarrow> reads_good source (r, c)"
  by (auto simp: reads_good_def checker_ok_def split: sum.split live_error.split)

lemma reads_good_Inr: "reads_good source (Inr x, c) \<longleftrightarrow> checker_ok source c"
  by (auto simp: reads_good_def checker_ok_def)

lemma reads_good_Inl: "reads_good source (Inl e :: ('e live_error, 'a) result, c) \<Longrightarrow> reads_good source (Inl e :: ('e live_error, 'b) result, c)"
  by (cases e) (simp_all add: reads_good_def)

lemma reads_once_pure: "(\<forall>e. r \<noteq> Inl (Read_Failed e)) \<Longrightarrow> reads_once source (\<lambda>c. (r, c))"
  by (simp add: reads_once_def reads_good_ok)

lemma reads_once_bind:
  assumes "reads_once source m" "\<And>x. reads_once source (g x)"
  shows "reads_once source (bind_op m g)"
  unfolding reads_once_def
proof (intro allI impI)
  fix c assume c: "checker_ok source c"
  obtain r c' where m: "m c = (r, c')" by (cases "m c")
  then have good: "reads_good source (r, c')" using assms(1) c by (metis reads_once_def)
  show "reads_good source (bind_op m g c)"
  proof (cases r)
    case (Inl e)
    then show ?thesis using good m reads_good_Inl by (simp add: bind_op_def)
  next
    case (Inr x)
    then have "checker_ok source c'" using good by (simp add: reads_good_Inr)
    then have "reads_good source (g x c')" using assms(2) by (simp add: reads_once_def)
    then show ?thesis using Inr m by (simp add: bind_op_def)
  qed
qed

lemma reads_once_read: "reads_once source (read_schema source sch)"
  unfolding reads_once_def
proof (intro allI impI)
  fix c assume c: "checker_ok source c"
  show "reads_good source (read_schema source sch c)"
  proof (cases "ck_schemas c sch")
    case (Some live)
    then show ?thesis using c by (simp add: read_schema_def reads_good_Inr)
  next
    case None
    then have new: "sch \<notin> set (ck_reads c)" using c unfolding checker_ok_def by (metis domIff)
    show ?thesis
    proof (cases "source (length (ck_reads c)) sch")
      case (Inl e)
      then show ?thesis using c None new by (auto simp: read_schema_def Let_def reads_good_def checker_ok_def)
    next
      case (Inr live)
      then show ?thesis using c None new
        by (auto simp: read_schema_def Let_def reads_good_Inr checker_ok_def nth_append less_Suc_eq)
    qed
  qed
qed

lemma find_table_pure: "find_table key live \<noteq> Inl (Read_Failed e)"
  by (auto simp: find_table_def split: prod.split option.split)

lemma known_columns_pure: "known_columns table shape names \<noteq> Inl (Read_Failed e)"
  by (induction names) auto

lemma lift_result_id: "lift_result id r = (\<lambda>c. (r, c))"
  by (cases r) (auto simp: lift_result_def ret_def raise_err_def)

lemma reads_checker: "checker_property source (reads_once source)"
proof
  show "reads_once source (ret ())" by (simp add: ret_def [abs_def] reads_once_pure)
  show "reads_once source (raise_err err)" if "\<forall>e. err \<noteq> Read_Failed e" for err
    using that by (simp add: raise_err_def [abs_def] reads_once_pure)
  show "reads_once source (lift_result id (known_columns table shape names))" for table shape names
    by (simp add: lift_result_id reads_once_pure known_columns_pure)
  show "reads_once source (then_op m k)" if "reads_once source m" "reads_once source k" for m k
    using that by (simp add: then_op_def reads_once_bind)
  show "reads_once source (bind_op (check_table source key) g)" if "\<And>shape. reads_once source (g shape)" for key g
    unfolding check_table_def
    by (intro reads_once_bind that reads_once_read) (simp add: lift_result_id reads_once_pure find_table_pure)
qed

interpretation reads: checker_property source "reads_once source" for source :: "'e schema_source"
  by (rule reads_checker)

text \<open>
  One check reads each schema of the project's database at most once, however often the
  permission names it, so all of it is judged against one version of each schema even while the database
  changes; and a read that fails ends the check with that very error, which is never taken as a pass.
\<close>

theorem check_reads_once:
  "distinct (ck_reads (snd (check_live source ord table operation doc new_checker))) \<and>
   (case fst (check_live source ord table operation doc new_checker) of
      Inl (Read_Failed e) \<Rightarrow> \<exists>i sch. source i sch = Inl e
    | _ \<Rightarrow> checker_ok source (snd (check_live source ord table operation doc new_checker)))"
proof -
  have "checker_ok source new_checker" by (simp add: checker_ok_def new_checker_def)
  then have "reads_good source (check_live source ord table operation doc new_checker)"
    using reads.of_check [of source ord table operation doc] by (simp add: reads_once_def)
  then show ?thesis by (simp add: reads_good_def)
qed

section \<open>Exactness on a database at rest\<close>

text \<open>The tables of a snapshot, and what it means for an expression over one of them to name what exists.\<close>

definition names_table :: "(string \<Rightarrow> ('e, live_schema) result) \<Rightarrow> string \<Rightarrow> live_table \<Rightarrow> bool" where
  "names_table snap key shape \<longleftrightarrow> (\<exists>live. snap (schema_of key) = Inr live \<and>
     (find_table key live :: ('e live_error, live_table) result) = Inr shape)"

inductive exists_exp :: "(string \<Rightarrow> live_table \<Rightarrow> bool) \<Rightarrow> string \<Rightarrow> live_table \<Rightarrow> json \<Rightarrow> bool"
  and exists_term :: "(string \<Rightarrow> live_table \<Rightarrow> bool) \<Rightarrow> string \<Rightarrow> live_table \<Rightarrow> string \<Rightarrow> json \<Rightarrow> bool"
  for T :: "string \<Rightarrow> live_table \<Rightarrow> bool" where
  all_terms: "(\<And>k v. json_member kvs k = Some v \<Longrightarrow> exists_term T table shape k v) \<Longrightarrow> exists_exp T table shape (JObj kvs)"
| in_list: "k = ''_and'' \<or> k = ''_or'' \<Longrightarrow> decode_items v = Some vs \<Longrightarrow> (\<And>x. x \<in> set vs \<Longrightarrow> exists_exp T table shape x) \<Longrightarrow>
    exists_term T table shape k v"
| in_not: "exists_exp T table shape v \<Longrightarrow> exists_term T table shape ''_not'' v"
| in_rows: "decode_exists v = Some (t, Some w) \<Longrightarrow> T t shape' \<Longrightarrow> exists_exp T t shape' w \<Longrightarrow> exists_term T table shape ''_exists'' v"
| variable: "\<not> reserved_key k \<Longrightarrow> looks_like_session_variable k \<Longrightarrow> exists_term T table shape k v"
| column: "\<not> reserved_key k \<Longrightarrow> \<not> looks_like_session_variable k \<Longrightarrow> list_ex is_comparison_operator (json_keys ops) \<Longrightarrow>
    k \<in> set (lt_columns shape) \<Longrightarrow> exists_term T table shape k (JObj ops)"
| related: "\<not> reserved_key k \<Longrightarrow> \<not> looks_like_session_variable k \<Longrightarrow> \<not> list_ex is_comparison_operator (json_keys ops) \<Longrightarrow>
    lt_relationships shape k = Some target \<Longrightarrow> T (schema_of table @ ''.'' @ target) shape' \<Longrightarrow>
    exists_exp T (schema_of table @ ''.'' @ target) shape' (JObj ops) \<Longrightarrow> exists_term T table shape k (JObj ops)"
| other_schema: "\<not> reserved_key k \<Longrightarrow> \<not> looks_like_session_variable k \<Longrightarrow> \<not> list_ex is_comparison_operator (json_keys ops) \<Longrightarrow>
    lt_relationships shape k = None \<Longrightarrow> lt_cross_schema shape \<Longrightarrow> exists_term T table shape k (JObj ops)"

inductive_simps exists_exp_simps: "exists_exp T table shape v"
inductive_simps exists_term_simps: "exists_term T table shape k v"

text \<open>
  On a constant source an operation from any state whose schemas are the snapshot's leaves such a state,
  and succeeds exactly when a condition holds.
\<close>

definition holds_snapshot :: "(string \<Rightarrow> ('e, live_schema) result) \<Rightarrow> checker \<Rightarrow> bool" where
  "holds_snapshot snap c \<longleftrightarrow> (\<forall>sch live. ck_schemas c sch = Some live \<longrightarrow> snap sch = Inr live)"

definition decides :: "(string \<Rightarrow> ('e, live_schema) result) \<Rightarrow> ('e, unit) live_op \<Rightarrow> bool \<Rightarrow> bool" where
  "decides snap m R \<longleftrightarrow> (\<forall>c. holds_snapshot snap c \<longrightarrow>
     holds_snapshot snap (snd (m c)) \<and> (fst (m c) = Inr () \<longleftrightarrow> R))"

lemma decides_simple:
  "decides snap (ret ()) True" "decides snap (raise_err e) False"
  "decides snap (lift_result id r) (r = Inr ())"
  by (auto simp: decides_def ret_def raise_err_def lift_result_id)

lemma decides_lift: "(r = Inr ()) = R \<Longrightarrow> decides snap (lift_result id r) R"
  using decides_simple(3) by auto

lemma decides_then:
  assumes "decides snap m P" "decides snap k R"
  shows "decides snap (then_op m k) (P \<and> R)"
  unfolding decides_def
proof (intro allI impI)
  fix c assume c: "holds_snapshot snap c"
  obtain r c' where m: "m c = (r, c')" by (cases "m c")
  have "holds_snapshot snap c' \<and> (r = Inr () \<longleftrightarrow> P)" using assms(1) c m by (auto simp: decides_def)
  then show "holds_snapshot snap (snd (then_op m k c)) \<and> (fst (then_op m k c) = Inr () \<longleftrightarrow> P \<and> R)"
    using assms(2) m by (cases r) (auto simp: decides_def then_op_def bind_op_def)
qed

lemma decides_table:
  assumes "\<And>shape. names_table snap key shape \<Longrightarrow> decides snap (g shape) (R shape)"
  shows "decides snap (bind_op (check_table (\<lambda>_. snap) key) g) (\<exists>shape. names_table snap key shape \<and> R shape)"
  unfolding decides_def
proof (intro allI impI)
  fix c assume c: "holds_snapshot snap c"
  obtain r c' where rd: "read_schema (\<lambda>_. snap) (schema_of key) c = (r, c')" by (cases "read_schema (\<lambda>_. snap) (schema_of key) c")
  have c': "holds_snapshot snap c'" and r: "\<And>live. r = Inr live \<longleftrightarrow> snap (schema_of key) = Inr live"
    using rd c by (auto simp: read_schema_def holds_snapshot_def Let_def split: option.splits sum.splits if_splits)
  let ?m = "bind_op (check_table (\<lambda>_. snap) key) g"
  show "holds_snapshot snap (snd (?m c)) \<and> (fst (?m c) = Inr () \<longleftrightarrow> (\<exists>shape. names_table snap key shape \<and> R shape))"
  proof (cases r)
    case (Inl e)
    then have "\<not> names_table snap key shape" for shape using r by (auto simp: names_table_def)
    then show ?thesis using Inl rd c' by (simp add: check_table_def bind_op_def)
  next
    case (Inr live)
    then have n: "names_table snap key shape \<longleftrightarrow> (find_table key live :: ('a live_error, live_table) result) = Inr shape" for shape
      using r by (auto simp: names_table_def)
    show ?thesis
    proof (cases "find_table key live :: ('a live_error, live_table) result")
      case (Inl e)
      then show ?thesis using n Inr rd c' by (simp add: check_table_def bind_op_def lift_result_id)
    next
      case ok: (Inr shape)
      then have "decides snap (g shape) (R shape)" using n assms by simp
      then show ?thesis using n ok Inr rd c' by (auto simp: check_table_def bind_op_def lift_result_id decides_def)
    qed
  qed
qed

text \<open>The conditions on a term by its key.\<close>

lemma exists_term_list:
  "k = ''_and'' \<or> k = ''_or'' \<Longrightarrow> exists_term T table shape k v \<longleftrightarrow> (\<exists>vs. decode_items v = Some vs \<and> (\<forall>x \<in> set vs. exists_exp T table shape x))"
  by (subst exists_term_simps) (auto simp: reserved_key_def)

lemma exists_term_not: "exists_term T table shape ''_not'' v \<longleftrightarrow> exists_exp T table shape v"
  by (subst exists_term_simps) (simp add: reserved_key_def)

lemma exists_term_rows:
  "exists_term T table shape ''_exists'' v \<longleftrightarrow> (\<exists>t w shape'. decode_exists v = Some (t, Some w) \<and> T t shape' \<and> exists_exp T t shape' w)"
  by (subst exists_term_simps) (auto simp: reserved_key_def)

lemma exists_term_other:
  assumes "\<not> reserved_key k" "\<not> looks_like_session_variable k"
  shows "exists_term T table shape k v \<longleftrightarrow> (\<exists>ops. v = JObj ops \<and>
     (if list_ex is_comparison_operator (json_keys ops) then k \<in> set (lt_columns shape)
      else case lt_relationships shape k of None \<Rightarrow> lt_cross_schema shape
        | Some target \<Rightarrow> \<exists>shape'. T (schema_of table @ ''.'' @ target) shape' \<and>
            exists_exp T (schema_of table @ ''.'' @ target) shape' (JObj ops)))"
proof -
  have "exists_term T table shape k v \<longleftrightarrow> (\<exists>ops. v = JObj ops \<and>
      (list_ex is_comparison_operator (json_keys ops) \<and> k \<in> set (lt_columns shape) \<or>
       \<not> list_ex is_comparison_operator (json_keys ops) \<and>
         ((\<exists>target shape'. lt_relationships shape k = Some target \<and> T (schema_of table @ ''.'' @ target) shape' \<and>
             exists_exp T (schema_of table @ ''.'' @ target) shape' (JObj ops)) \<or>
          lt_relationships shape k = None \<and> lt_cross_schema shape)))"
    using assms by (subst exists_term_simps) (simp add: reserved_key_def, blast)
  then show ?thesis by (cases v; cases "lt_relationships shape k") simp_all
qed

lemma range_all:
  "visits_each_key ord \<Longrightarrow> (\<forall>(k, v) \<in> set (json_range ord kvs). P k v) \<longleftrightarrow> (\<forall>k v. json_member kvs k = Some v \<longrightarrow> P k v)"
  by (simp only: Ball_def split_paired_All prod.case json_range_iff)

lemma decides_iff: "decides snap m P \<Longrightarrow> (P \<longleftrightarrow> R) \<Longrightarrow> decides snap m R"
  by simp

lemma known_columns_ok: "known_columns table shape names = Inr () \<longleftrightarrow> set names \<subseteq> set (lt_columns shape)"
  by (induction names) auto

lemma walk_decides:
  assumes "visits_each_key ord" "source = (\<lambda>_. snap)"
  shows "decides snap (live_exp source ord table shape v) (exists_exp (names_table snap) table shape v)"
    and "decides snap (live_terms source ord table shape fs) (\<forall>(k, v) \<in> set fs. exists_term (names_table snap) table shape k v)"
    and "decides snap (live_term source ord table shape k v) (exists_term (names_table snap) table shape k v)"
    and "decides snap (live_list source ord table shape vs) (\<forall>v \<in> set vs. exists_exp (names_table snap) table shape v)"
  using assms
proof (induction source ord table shape v and source ord table shape fs
    and source ord table shape k v and source ord table shape vs
    rule: live_exp_live_terms_live_term_live_list.induct)
  case (1 source ord table shape v)
  show ?case
  proof (cases v)
    case (JObj kvs)
    have "(\<forall>(k, v) \<in> set (json_range ord kvs). exists_term (names_table snap) table shape k v) \<longleftrightarrow>
        exists_exp (names_table snap) table shape v"
      unfolding range_all [OF "1.prems"(1)] using JObj by (subst exists_exp_simps) auto
    with 1 JObj show ?thesis by (simp add: live_exp.simps)
  qed (subst live_exp.simps, subst exists_exp_simps, simp add: decode_object_def decides_simple)+
next
  case (3 source ord table shape key v fs)
  then show ?case using decides_then by (simp, fastforce)
next
  case (4 source ord table shape key v)
  note ord = "4.prems"(1) and src = "4.prems"(2)
  consider "key = ''_and'' \<or> key = ''_or''" | "key = ''_not''" | "key = ''_exists''"
    | "\<not> reserved_key key" "looks_like_session_variable key" | "\<not> reserved_key key" "\<not> looks_like_session_variable key"
    unfolding reserved_key_def by blast
  then show ?case
  proof cases
    case 1
    then show ?thesis using "4.IH"(1) "4.prems"
      by (subst live_term.simps) (auto simp: exists_term_list decides_simple split: option.split)
  next
    case 2
    then show ?thesis using "4.IH"(2) "4.prems" by (subst live_term.simps) (simp add: exists_term_not)
  next
    case 3
    show ?thesis
    proof (cases "decode_exists v")
      case None
      then show ?thesis using 3 by (subst live_term.simps) (simp add: exists_term_rows decides_simple)
    next
      case (Some p)
      obtain t wh where p: "p = (t, wh)" by (cases p)
      have "decides snap (case wh of None \<Rightarrow> raise_err Undecodable | Some w \<Rightarrow> live_exp source ord t shape' w)
          (\<exists>w. wh = Some w \<and> exists_exp (names_table snap) t shape' w)" for shape'
        using "4.IH"(3) [OF _ _ 3 Some _ _ ord src] p 3 by (cases wh) (simp_all add: decides_simple)
      then have d: "decides snap (bind_op (check_table (\<lambda>_. snap) t)
            (\<lambda>shape'. case wh of None \<Rightarrow> raise_err Undecodable | Some w \<Rightarrow> live_exp source ord t shape' w))
          (\<exists>shape'. names_table snap t shape' \<and> (\<exists>w. wh = Some w \<and> exists_exp (names_table snap) t shape' w))"
        by (intro decides_table)
      have e: "exists_term (names_table snap) table shape key v \<longleftrightarrow>
          (\<exists>shape'. names_table snap t shape' \<and> (\<exists>w. wh = Some w \<and> exists_exp (names_table snap) t shape' w))"
        using 3 Some p by (auto simp: exists_term_rows)
      show ?thesis unfolding e using d by (subst live_term.simps) (simp add: 3 Some p src)
    qed
  next
    case 4
    then have "exists_term (names_table snap) table shape key v" by (rule exists_exp_exists_term.variable)
    then show ?thesis using 4 by (subst live_term.simps) (auto simp: reserved_key_def decides_simple)
  next
    case 5
    then have k: "key \<noteq> ''_and''" "key \<noteq> ''_or''" "key \<noteq> ''_not''" "key \<noteq> ''_exists''" by (auto simp: reserved_key_def)
    show ?thesis
    proof (cases v)
      case (JObj ops)
      note e = exists_term_other [OF 5, of "names_table snap" table shape v]
      show ?thesis
      proof (cases "list_ex is_comparison_operator (json_keys ops) \<or> lt_relationships shape key = None")
        case True
        then show ?thesis using k 5 JObj unfolding e
          by (subst live_term.simps) (auto simp: decides_simple decides_lift known_columns_ok simp del: known_columns.simps)
      next
        case False
        then obtain target where t: "lt_relationships shape key = Some target" by auto
        let ?key = "schema_of table @ ''.'' @ target"
        have "decides snap (live_exp source ord ?key shape' v) (exists_exp (names_table snap) ?key shape' v)" for shape'
          using "4.IH"(4) [of ops target shape'] k 5 JObj False t ord src by simp
        then have "decides snap (bind_op (check_table (\<lambda>_. snap) ?key) (\<lambda>shape'. live_exp source ord ?key shape' v))
            (\<exists>shape'. names_table snap ?key shape' \<and> exists_exp (names_table snap) ?key shape' v)" by (intro decides_table)
        then show ?thesis using k 5 JObj False t unfolding e
          by (subst live_term.simps) (simp add: src)
      qed
    qed (use k 5 in \<open>subst live_term.simps, simp add: exists_term_other decode_object_def decides_simple\<close>)+
  qed
next
  case (6 source ord table shape v vs)
  then show ?case using decides_then by (simp, fastforce)
qed (auto simp: decides_simple)

definition field_exists :: "(string \<Rightarrow> live_table \<Rightarrow> bool) \<Rightarrow> string \<Rightarrow> live_table \<Rightarrow> string \<Rightarrow> json \<Rightarrow> bool" where
  "field_exists T table shape k v \<longleftrightarrow>
     (if k = ''filter'' \<or> k = ''check'' then exists_exp T table shape v
      else if k = ''columns'' then (\<forall>names. decode_strings v = Some names \<longrightarrow> set names \<subseteq> set (lt_columns shape))
      else if k = ''set'' then (\<exists>presets. v = JObj presets \<and> set (json_keys presets) \<subseteq> set (lt_columns shape))
      else True)"

lemma field_decides:
  assumes "visits_each_key ord"
  shows "decides snap (live_field (\<lambda>_. snap) ord table shape (k, v)) (field_exists (names_table snap) table shape k v)"
proof -
  have "set (map fst (json_range ord presets)) = set (json_keys presets)" for presets
    using json_range_keys [OF assms, of presets] assms by (simp add: visits_each_key_def)
  then have presets: "known_columns table shape (map fst (json_range ord presets)) = Inr () \<longleftrightarrow>
      set (json_keys presets) \<subseteq> set (lt_columns shape)" for presets
    by (simp only: known_columns_ok)
  consider "k = ''filter'' \<or> k = ''check''" | "k = ''columns''" | "k = ''set''"
    | "k \<noteq> ''filter''" "k \<noteq> ''check''" "k \<noteq> ''columns''" "k \<noteq> ''set''" by blast
  then show ?thesis
  proof cases
    case 1
    then show ?thesis using walk_decides(1) [OF assms refl] by (auto simp: live_field_def field_exists_def)
  next
    case 2
    then show ?thesis by (cases "decode_strings v")
      (simp_all add: live_field_def field_exists_def decides_simple decides_lift known_columns_ok)
  next
    case 3
    then show ?thesis by (cases v)
      (simp_all add: live_field_def field_exists_def decides_simple decides_lift presets decode_object_def)
  qed (simp add: live_field_def field_exists_def decides_simple)
qed

lemma each_decides: "(\<And>x. decides snap (f x) (P x)) \<Longrightarrow> decides snap (each_op f xs) (\<forall>x \<in> set xs. P x)"
  by (induction xs) (auto simp: decides_simple intro: decides_then)

text \<open>
  Claim C32. On a database that stands still a permission passes the check exactly when its table exists,
  it does not write to a view, and every column, every relationship and every table it names at any depth
  exists where it is named; where the keys of a table cross into another schema an unknown relationship is
  left to the engine.
\<close>

theorem check_live_exact:
  assumes "visits_each_key ord"
  shows "fst (check_live (\<lambda>_. snap) ord table operation doc new_checker) = Inr () \<longleftrightarrow>
    (\<exists>shape fs. names_table snap table shape \<and> (lt_view shape \<longrightarrow> operation = ''select'') \<and> doc = JObj fs \<and>
       (\<forall>k v. json_member fs k = Some v \<longrightarrow> field_exists (names_table snap) table shape k v))"
proof -
  let ?body = "\<lambda>shape. if lt_view shape \<and> operation \<noteq> ''select'' then raise_err (Invalid_Permission (View_Written table))
       else case decode_object doc of None \<Rightarrow> raise_err Undecodable
         | Some fs \<Rightarrow> each_op (live_field (\<lambda>_. snap) ord table shape) (json_range ord fs)"
  let ?R = "\<lambda>shape. (lt_view shape \<longrightarrow> operation = ''select'') \<and> (\<exists>fs. doc = JObj fs \<and>
       (\<forall>k v. json_member fs k = Some v \<longrightarrow> field_exists (names_table snap) table shape k v))"
  have each: "decides snap (each_op (live_field (\<lambda>_. snap) ord table shape) (json_range ord fs))
      (\<forall>k v. json_member fs k = Some v \<longrightarrow> field_exists (names_table snap) table shape k v)" for shape fs
  proof -
    have "decides snap (live_field (\<lambda>_. snap) ord table shape x) (case x of (k, v) \<Rightarrow> field_exists (names_table snap) table shape k v)" for x
      using field_decides [OF assms] by (cases x) simp
    then have "decides snap (each_op (live_field (\<lambda>_. snap) ord table shape) (json_range ord fs))
        (\<forall>x \<in> set (json_range ord fs). case x of (k, v) \<Rightarrow> field_exists (names_table snap) table shape k v)"
      by (rule each_decides)
    then show ?thesis unfolding range_all [OF assms] .
  qed
  have "decides snap (?body shape) (?R shape)" for shape
    using each by (cases doc) (auto simp: decides_simple decode_object_def)
  then have "decides snap (bind_op (check_table (\<lambda>_. snap) table) ?body) (\<exists>shape. names_table snap table shape \<and> ?R shape)"
    by (rule decides_table)
  moreover have "holds_snapshot snap new_checker" by (simp add: holds_snapshot_def new_checker_def)
  ultimately show ?thesis unfolding decides_def check_live_def by blast
qed

text \<open>A schema of one table, for examples.\<close>

definition sample_shape :: live_table where
  "sample_shape = \<lparr>lt_view = False, lt_columns = [''id'', ''owner''], lt_relationships = Map.empty, lt_cross_schema = False\<rparr>"

definition sample_schema :: live_schema where
  "sample_schema = \<lparr>ls_name = ''app'', ls_database = [], ls_tables = [''items'' \<mapsto> sample_shape]\<rparr>"

definition sample_snapshot :: "string \<Rightarrow> (unit, live_schema) result" where
  "sample_snapshot sch = (if sch = ''app'' then Inr sample_schema else Inl ())"

lemma sample_names_table: "names_table sample_snapshot ''app.items'' sample_shape"
  by (simp add: names_table_def sample_snapshot_def schema_of_def cut_at_def find_table_def sample_schema_def)

theorem check_live_exact_witness:
  "fst (check_live (\<lambda>_. sample_snapshot) rev ''app.items'' ''select''
     (JObj [(''columns'', JArr [JStr ''id'', JStr ''owner''])]) new_checker) = Inr ()"
proof -
  have "json_member [(''columns'', x)] k = Some v \<longleftrightarrow> k = ''columns'' \<and> v = x" for k v x
    by (auto simp: json_member_def)
  then show ?thesis
    unfolding check_live_exact [OF visits_id(3)] using sample_names_table
    by (intro exI [of _ sample_shape] exI [of _ "[(''columns'', JArr [JStr ''id'', JStr ''owner''])]"])
      (simp add: field_exists_def decode_strings_def sample_shape_def)
qed

section \<open>Checked after it was normalized\<close>

fun unique_names :: "json \<Rightarrow> bool" where
  "unique_names (JObj kvs) = (distinct (map fst kvs) \<and> (\<forall>x \<in> set kvs. unique_names (snd x)))"
| "unique_names (JArr vs) = (\<forall>v \<in> set vs. unique_names v)"
| "unique_names _ = True"

lemma unique_member: "unique_names (JObj kvs) \<Longrightarrow> json_member kvs k = Some v \<Longrightarrow> unique_names v"
  using json_member_mem by fastforce

text \<open>With each name once the struct of an \<open>_exists\<close> decodes to what the walker of the grammar read.\<close>

lemma exists_fold_other:
  "\<forall>x \<in> set xs. to_lower (fst x) \<noteq> ''_table'' \<and> to_lower (fst x) \<noteq> ''_where'' \<Longrightarrow> fold exists_field xs (Some p) = Some p"
  by (induction xs) (auto simp: exists_field_def split: prod.split)

lemma two_members:
  assumes "distinct (map fst kvs)" "length (json_keys kvs) = 2" "json_member kvs a = Some t" "json_member kvs b = Some w" "a \<noteq> b"
  shows "kvs = [(a, t), (b, w)] \<or> kvs = [(b, w), (a, t)]"
proof -
  have "length kvs = 2" using assms(1,2) by (simp add: json_keys_def distinct_remdups_id)
  then obtain x y where k: "kvs = [x, y]" by (auto simp: numeral_2_eq_2 length_Suc_conv)
  have "(a, t) \<in> set kvs" "(b, w) \<in> set kvs" using assms(3,4) json_member_mem by blast+
  with k assms(5) show ?thesis by auto
qed

lemma exists_decodes:
  assumes "exists_where v = Inr w" "unique_names v"
  shows "\<exists>t. decode_exists v = Some (t, Some w)"
proof -
  from assms(1) obtain kvs t name where v: "v = JObj kvs" "json_member kvs ''_table'' = Some t"
      "json_member kvs ''_where'' = Some w" "length (json_keys kvs) = 2" "decode_string t = Some name"
    by (auto simp: exists_where_def decode_Some_iff split: option.splits if_splits sum.splits)
  then have "kvs = [(''_table'', t), (''_where'', w)] \<or> kvs = [(''_where'', w), (''_table'', t)]"
    using assms(2) by (intro two_members) auto
  moreover have "to_lower ''_table'' = ''_table''" "to_lower ''_where'' = ''_where''" by code_simp+
  ultimately show ?thesis using v(1,5) by (auto simp: decode_exists_def exists_field_def decode_Some_iff)
qed

definition decodes :: "('e, 'a) live_op \<Rightarrow> bool" where
  "decodes m \<longleftrightarrow> (\<forall>c. fst (m c) \<noteq> Inl Undecodable)"

lemma decodes_bind: "decodes m \<Longrightarrow> (\<And>x. decodes (g x)) \<Longrightarrow> decodes (bind_op m g)"
  by (auto simp: decodes_def bind_op_def split: prod.split sum.split) (metis fst_conv)

lemma decodes_then: "decodes m \<Longrightarrow> decodes k \<Longrightarrow> decodes (then_op m k)"
  by (simp add: then_op_def decodes_bind)

lemma decodes_simple: "decodes (ret u)" "e \<noteq> Undecodable \<Longrightarrow> decodes (raise_err e)"
  "r \<noteq> Inl Undecodable \<Longrightarrow> decodes (lift_result id r)"
  by (simp_all add: decodes_def ret_def raise_err_def lift_result_id)

lemma known_columns_decodes: "known_columns table shape names \<noteq> Inl Undecodable"
  by (induction names) auto

lemma find_table_decodes: "find_table key live \<noteq> Inl Undecodable"
  by (auto simp: find_table_def split: prod.split option.split)

lemma decodes_table: "(\<And>shape. decodes (g shape)) \<Longrightarrow> decodes (bind_op (check_table source key) g)"
  unfolding check_table_def
  by (intro decodes_bind decodes_simple find_table_decodes)
    (auto simp: decodes_def read_schema_def Let_def split: option.split sum.split)

lemmas decodes_intros = decodes_then decodes_table decodes_simple known_columns_decodes

lemma walk_decodes:
  "is_exp v n h \<Longrightarrow> unique_names v \<Longrightarrow> decodes (live_exp source ord table shape v)"
  "\<forall>(k, v) \<in> set fs. (\<exists>n h. is_term k v n h) \<and> unique_names v \<Longrightarrow> decodes (live_terms source ord table shape fs)"
  "is_term k v n h \<Longrightarrow> unique_names v \<Longrightarrow> decodes (live_term source ord table shape k v)"
  "\<forall>v \<in> set vs. (\<exists>n h. is_exp v n h) \<and> unique_names v \<Longrightarrow> decodes (live_list source ord table shape vs)"
proof (induction source ord table shape v and source ord table shape fs
    and source ord table shape k v and source ord table shape vs
    arbitrary: n h and n h and n h and n h rule: live_exp_live_terms_live_term_live_list.induct)
  case (1 source ord table shape v)
  then obtain kvs n' h' where v: "v = JObj kvs" "is_terms (members kvs) n' h'" by (auto simp: is_exp_simps)
  have "(\<exists>n h. is_term k w n h) \<and> unique_names w" if m: "(k, w) \<in> set (json_range ord kvs)" for k w
  proof -
    have "json_member kvs k = Some w" using m by (rule json_range_member)
    then show ?thesis using is_terms_member [OF v(2)] json_range_iff [OF visits_id(1)] unique_member 1(3) v(1) by metis
  qed
  then show ?case using 1(1) v(1) by (auto simp: live_exp.simps)
next
  case (3 source ord table shape k v fs)
  then show ?case by (auto intro!: decodes_then)
next
  case (4 source ord table shape k v)
  note t = "4.prems"(1) and u = "4.prems"(2)
  consider "k = ''_and'' \<or> k = ''_or''" | "k = ''_not''" | "k = ''_exists''"
    | "\<not> reserved_key k" "looks_like_session_variable k" | "\<not> reserved_key k" "\<not> looks_like_session_variable k"
    unfolding reserved_key_def by blast
  then show ?case
  proof cases
    case 1
    with t obtain vs where vs: "v = JArr vs" "is_list vs n h" by (auto simp: term_connective)
    then have "\<forall>v \<in> set vs. (\<exists>n h. is_exp v n h) \<and> unique_names v" using is_list_item u by auto
    then show ?thesis using 1 vs "4.IH"(1) [OF 1, of vs] by (subst live_term.simps) (auto simp: decode_items_def)
  next
    case 2
    then show ?thesis using t u "4.IH"(2) by (subst live_term.simps) (simp add: term_negation)
  next
    case 3
    with t obtain w where w: "exists_where v = Inr w" "is_exp w n h" by (auto simp: term_exists)
    then obtain name where d: "decode_exists v = Some (name, Some w)" using exists_decodes u by blast
    obtain kvs where kvs: "v = JObj kvs" using w(1) by (cases v) (auto simp: exists_where_def decode_object_def)
    then have "unique_names w" using w(1) exists_where_parts(2) u unique_member by blast
    then have "decodes (live_exp source ord name shape' w)" for shape'
      using "4.IH"(3) [OF _ _ 3 d refl refl w(2)] 3 by simp
    then show ?thesis using 3 d by (subst live_term.simps) (simp add: decodes_table)
  next
    case 4
    then show ?thesis by (subst live_term.simps) (auto simp: reserved_key_def decodes_simple)
  next
    case 5
    then have k: "k \<noteq> ''_and''" "k \<noteq> ''_or''" "k \<noteq> ''_not''" "k \<noteq> ''_exists''" by (auto simp: reserved_key_def)
    from t 5 obtain ops where ops: "v = JObj ops" "\<not> list_ex is_comparison_operator (json_keys ops) \<Longrightarrow> is_exp v n h"
      by (auto simp: term_other split: if_splits)
    have "decodes (live_exp source ord (schema_of table @ ''.'' @ target) shape' v)"
      if "\<not> list_ex is_comparison_operator (json_keys ops)" "lt_relationships shape k = Some target" for target shape'
    proof -
      have "\<not> (k = ''_and'' \<or> k = ''_or'')" "decode_object v = Some ops" using k ops(1) by simp_all
      from "4.IH"(4) [OF this(1) k(3,4) 5(2) this(2) that ops(2) [OF that(1)] u] show ?thesis .
    qed
    then show ?thesis using k 5 ops(1)
      by (subst live_term.simps)
        (auto intro!: decodes_table decodes_simple known_columns_decodes simp del: known_columns.simps split: option.split)
  qed
next
  case (6 source ord table shape v vs)
  then show ?case by (auto intro!: decodes_then)
qed (simp_all add: decodes_simple)

lemma each_decodes: "(\<And>x. x \<in> set xs \<Longrightarrow> decodes (f x)) \<Longrightarrow> decodes (each_op f xs)"
  by (induction xs) (auto intro: decodes_intros)

text \<open>
  A permission that was normalized, and repeats no name within an object, fails the check only
  because the database lacks something it names or because a read failed: its shape never fails it, so a
  caller who is told that the database could not be read is told the truth.
\<close>

theorem normalized_decodes:
  assumes "visits_each_key ord" "normalize_permission ord op body = Inr doc" "unique_names doc"
    and "fst (check_live source ord' table op doc c) = Inl e"
  shows "e \<noteq> Undecodable"
proof -
  from assms(2) obtain kvs where doc: "doc = JObj (json_range sort kvs)"
      "\<forall>k w. json_member kvs k = Some w \<longrightarrow> validate_field ord (k, w) = Inr ()"
    unfolding normalize_ok [OF assms(1)] by blast
  let ?fs = "json_range sort kvs"
  have "decodes (live_field source ord' table shape (k, v))" if m: "(k, v) \<in> set (json_range ord' ?fs)" for k v shape
  proof -
    have "json_member ?fs k = Some v" using m by (rule json_range_member)
    then have v: "validate_field ord (k, v) = Inr ()" and u: "unique_names v"
      using doc unique_member assms(3) by (auto simp: visits_id)
    show ?thesis
    proof (cases "k = ''filter'' \<or> k = ''check''")
      case True
      then obtain n h where "is_exp v n h" using v by (auto simp: validate_field_def unit_result validate_bool_exp_ok [OF assms(1)])
      then show ?thesis using True walk_decodes(1) u by (auto simp: live_field_def)
    next
      case False
      have "\<exists>presets. v = JObj presets" if "k = ''set''"
        using v that by (cases v) (auto simp: validate_field_def validate_presets_def decode_object_def)
      then show ?thesis using False
        by (auto simp: live_field_def intro!: decodes_simple known_columns_decodes split: option.split)
    qed
  qed
  then have "decodes (check_live source ord' table op doc)" unfolding check_live_def doc(1)
    by (intro decodes_table) (auto intro!: decodes_simple each_decodes)
  then show ?thesis using assms(4) by (auto simp: decodes_def)
qed

theorem normalized_decodes_witness:
  "fst (check_live (\<lambda>_. sample_snapshot) rev ''app.gone'' ''delete'' (JObj [(''filter'', JObj [])]) new_checker) =
     Inl (Invalid_Permission (Unknown_Table ''app.gone'')) \<and>
   Invalid_Permission (Unknown_Table ''app.gone'') \<noteq> (Undecodable :: unit live_error)"
proof -
  have n: "normalize_permission (\<lambda>ks. ks) ''delete'' (Some (JObj [(''filter'', JObj [])])) = Inr (JObj [(''filter'', JObj [])])"
    by code_simp
  have c: "fst (check_live (\<lambda>_. sample_snapshot) rev ''app.gone'' ''delete'' (JObj [(''filter'', JObj [])]) new_checker) =
     Inl (Invalid_Permission (Unknown_Table ''app.gone''))" by code_simp
  have u: "unique_names (JObj [(''filter'', JObj [])])" by simp
  from normalized_decodes [OF visits_id(1) n u c] c show ?thesis by simp
qed

text \<open>
  Without the second condition it fails: the walker reads the last \<open>_table\<close> of an object, the struct
  decoder stops at the first that is not a string, and the check reports an error that is neither.
\<close>

definition twice_table :: json where
  "twice_table = JObj [(''filter'', JObj [(''_exists'', JObj [(''_table'', JBool True), (''_table'', JStr ''app.items''),
     (''_where'', JObj [])])])]"

lemma duplicate_table_undecodable:
  "normalize_permission (\<lambda>ks. ks) ''delete'' (Some twice_table) = Inr twice_table"
  "fst (check_live (\<lambda>_. sample_snapshot) (\<lambda>ks. ks) ''app.items'' ''delete'' twice_table new_checker) = Inl Undecodable"
  by code_simp+

end
