(* ===== verification/Engine_Json.thy ===== *)
theory Engine_Json
  imports Bool_Exp "HOL-Library.Multiset"
begin

text \<open>
  How the proxy before the container engine reads a request body, after
  \<^verbatim>\<open>internal/engineproxy/strict_body.go\<close>. The engine matches the names of fields without regard to case and
  keeps the last of two; so the proxy refuses names that differ in case only, sends its own encoding of
  what it checked, and refuses an API field in another spelling. \<open>engine_member\<close> is the engine's reading.
\<close>

datatype proxy_refusal =
    Refused string | Not_Managed string | No_Such_Thing | Engine_Failed

type_synonym check = "(proxy_refusal, unit) result"

section \<open>Names without case\<close>

text \<open>The smallest rune of the case orbit of an ASCII character: letters become capitals.\<close>

definition fold_char :: "char \<Rightarrow> char" where
  "fold_char c = (let n = of_char c :: nat in if 97 \<le> n \<and> n \<le> 122 then char_of (n - 32) else c)"

definition fold_name :: "string \<Rightarrow> string" where
  "fold_name s = map fold_char s"

definition is_ascii :: "string \<Rightarrow> bool" where
  "is_ascii s \<longleftrightarrow> list_all (\<lambda>c. (of_char c :: nat) < 128) s"

text \<open>The same on the bits of a character, to compute with.\<close>

lemma fold_char_bits [code]:
  "fold_char (Char b0 b1 b2 b3 b4 b5 b6 b7) =
     (if b5 \<and> b6 \<and> \<not> b7 \<and> (b0 \<or> b1 \<or> b2 \<or> b3 \<or> b4) \<and> \<not> (b4 \<and> b3 \<and> (b2 \<or> b1 \<and> b0))
      then Char b0 b1 b2 b3 b4 False b6 b7 else Char b0 b1 b2 b3 b4 b5 b6 b7)"
  by (cases b0; cases b1; cases b2; cases b3; cases b4; cases b5; cases b6; cases b7) (simp_all add: fold_char_def char_of_def bit_0)

lemma is_ascii_bits [code]: "is_ascii s \<longleftrightarrow> list_all (\<lambda>c. \<not> digit7 c) s"
proof -
  have "(of_char c :: nat) < 128 \<longleftrightarrow> \<not> digit7 c" for c
    by (cases c) (simp split: if_split add: of_char_def Let_def)
  then show ?thesis by (simp add: is_ascii_def)
qed

text \<open>The member of an object that the engine reads into a field: the last one, without regard to case.\<close>

definition engine_member :: "(string \<times> json) list \<Rightarrow> string \<Rightarrow> json option" where
  "engine_member kvs name = map_of (rev (map (\<lambda>(k, v). (fold_name k, v)) kvs)) (fold_name name)"

section \<open>The canonical body\<close>

abbreviation max_body_depth :: nat where "max_body_depth \<equiv> 32"

text \<open>Reading one value: an error when it is nested too deep or an object is ambiguous.\<close>

function read_value :: "nat \<Rightarrow> json \<Rightarrow> check"
  and read_members :: "nat \<Rightarrow> string list \<Rightarrow> (string \<times> json) list \<Rightarrow> check"
  and read_items :: "nat \<Rightarrow> json list \<Rightarrow> check" where
  "read_value depth v =
     (if depth \<ge> max_body_depth then Inl (Refused ''nested too deep'')
      else case v of JObj kvs \<Rightarrow> read_members depth [] kvs | JArr vs \<Rightarrow> read_items depth vs | _ \<Rightarrow> Inr ())"
| "read_members depth seen [] = Inr ()"
| "read_members depth seen ((k, v) # kvs) =
     (if \<not> is_ascii k then Inl (Refused ''key is not ASCII'')
      else if fold_name k \<in> set seen then Inl (Refused ''key repeats another'')
      else bind_result (read_value (depth + 1) v) (\<lambda>_. read_members depth (fold_name k # seen) kvs))"
| "read_items depth [] = Inr ()"
| "read_items depth (v # vs) = bind_result (read_value (depth + 1) v) (\<lambda>_. read_items depth vs)"
  by pat_completeness auto
termination
  by (relation "measure (case_sum (\<lambda>(d, v). Suc (2 * size v))
      (case_sum (\<lambda>(d, seen, kvs). 2 * size (JObj kvs)) (\<lambda>(d, vs). 2 * size (JArr vs))))") auto

text \<open>The encoding of a value Go has read: the members of every object sorted by name.\<close>

fun sort_names :: "json \<Rightarrow> json" where
  "sort_names (JObj kvs) = JObj (sort_key fst (map (\<lambda>x. (fst x, sort_names (snd x))) kvs))"
| "sort_names (JArr vs) = JArr (map sort_names vs)"
| "sort_names v = v"

text \<open>A body is \<open>None\<close> when it is not one JSON document.\<close>

definition canonical_body :: "json option \<Rightarrow> (proxy_refusal, json) result" where
  "canonical_body body = (case body of None \<Rightarrow> Inl (Refused ''malformed or ambiguous JSON'')
     | Some v \<Rightarrow> bind_result (read_value 0 v) (\<lambda>_.
         case v of JObj kvs \<Rightarrow> Inr (sort_names v) | _ \<Rightarrow> Inl (Refused ''JSON must be an object'')))"

section \<open>Reading fields by name\<close>

text \<open>A Go type assertion whose failure leaves the zero value, and a map lookup that misses.\<close>

definition as_object :: "json \<Rightarrow> (string \<times> json) list" where
  "as_object v = (case v of JObj kvs \<Rightarrow> kvs | _ \<Rightarrow> [])"

definition as_list :: "json \<Rightarrow> json list" where
  "as_list v = (case v of JArr vs \<Rightarrow> vs | _ \<Rightarrow> [])"

definition as_text :: "json \<Rightarrow> string" where
  "as_text v = (case v of JStr s \<Rightarrow> s | _ \<Rightarrow> [])"

definition field_of :: "(string \<times> json) list \<Rightarrow> string \<Rightarrow> json" where
  "field_of kvs k = (case json_member kvs k of None \<Rightarrow> JNull | Some v \<Rightarrow> v)"

definition zero_number :: "string \<Rightarrow> bool" where
  "zero_number t = (case number_parts t of (m, e) \<Rightarrow> if 0 \<le> e then m = 0 else m * 2 ^ 1075 \<le> 10 ^ nat (- e))"

text \<open>A value the engine treats as unset, and the stricter test for a map of data.\<close>

fun is_zero :: "json \<Rightarrow> bool" where
  "is_zero JNull = True"
| "is_zero (JBool b) = (\<not> b)"
| "is_zero (JNum t) = zero_number t"
| "is_zero (JStr s) = (s = [])"
| "is_zero (JArr vs) = (vs = [])"
| "is_zero (JObj kvs) = (\<forall>x \<in> set kvs. is_zero (snd x))"

definition is_unset :: "json \<Rightarrow> bool" where
  "is_unset v = (case v of JObj kvs \<Rightarrow> kvs = [] | _ \<Rightarrow> is_zero v)"

text \<open>No field may be a known name in another spelling; no field outside the names may be set.\<close>

definition check_spelling :: "string \<Rightarrow> (string \<times> json) list \<Rightarrow> string list \<Rightarrow> check" where
  "check_spelling what kvs names = each (\<lambda>(k, v). each (\<lambda>name.
     if k \<noteq> name \<and> fold_name k = fold_name name then Inl (Refused (what @ '' field must be spelled '' @ name)) else Inr ()) names) kvs"

definition only_fields :: "string \<Rightarrow> (string \<times> json) list \<Rightarrow> string list \<Rightarrow> check" where
  "only_fields what kvs names = each (\<lambda>(k, v).
     if \<not> is_unset v \<and> k \<notin> set names then Inl (Refused (what @ '' field may not be set'')) else Inr ()) kvs"

section \<open>What a canonical body guarantees\<close>

text \<open>Every object of the document names each field once, without regard to case.\<close>

fun unambiguous :: "json \<Rightarrow> bool" where
  "unambiguous (JObj kvs) = (distinct (map (\<lambda>x. fold_name (fst x)) kvs) \<and> (\<forall>x \<in> set kvs. is_ascii (fst x) \<and> unambiguous (snd x)))"
| "unambiguous (JArr vs) = (\<forall>v \<in> set vs. unambiguous v)"
| "unambiguous _ = True"

fun height :: "json \<Rightarrow> nat" where
  "height (JObj kvs) = Suc (Max (insert 0 ((\<lambda>x. height (snd x)) ` set kvs)))"
| "height (JArr vs) = Suc (Max (insert 0 (height ` set vs)))"
| "height _ = 1"

lemma height_items:
  "d + Suc (Max (insert 0 (f ` set xs))) \<le> n \<longleftrightarrow> d < n \<and> (\<forall>x \<in> set xs. Suc d + f x \<le> (n :: nat))"
proof -
  have "Max (insert 0 (f ` set xs)) \<le> n - Suc d \<longleftrightarrow> (\<forall>x \<in> set xs. f x \<le> n - Suc d)" by (subst Max_le_iff) auto
  moreover have "d + Suc m \<le> n \<longleftrightarrow> d < n \<and> m \<le> n - Suc d" for m by arith
  moreover have "d < n \<Longrightarrow> f x \<le> n - Suc d \<longleftrightarrow> Suc d + f x \<le> n" for x by arith
  ultimately show ?thesis by auto
qed

lemma read_value_ok:
  "read_value depth v = Inr () \<longleftrightarrow> unambiguous v \<and> depth + height v \<le> max_body_depth"
  "depth < max_body_depth \<Longrightarrow> read_members depth seen kvs = Inr () \<longleftrightarrow>
     distinct (map (\<lambda>x. fold_name (fst x)) kvs) \<and> fold_name ` fst ` set kvs \<inter> set seen = {} \<and>
     (\<forall>x \<in> set kvs. is_ascii (fst x) \<and> unambiguous (snd x) \<and> Suc depth + height (snd x) \<le> max_body_depth)"
  "depth < max_body_depth \<Longrightarrow> read_items depth vs = Inr () \<longleftrightarrow>
     (\<forall>v \<in> set vs. unambiguous v \<and> Suc depth + height v \<le> max_body_depth)"
proof (induction depth v and depth seen kvs and depth vs rule: read_value_read_members_read_items.induct)
  case (1 depth v)
  show ?case
  proof (cases "depth \<ge> max_body_depth")
    case False
    with 1 show ?thesis by (cases v) (auto simp: height_items simp del: add_Suc add_Suc_right)
  next
    case True
    moreover have "0 < height v" by (cases v) auto
    ultimately show ?thesis by auto
  qed
next
  case (3 depth seen k v kvs)
  then show ?case by (auto simp: bind_result_Inr_iff split: if_splits)
qed (auto simp: bind_result_Inr_iff)

lemma mset_map_sort: "mset (map f (sort_key k xs)) = mset (map f xs)"
  by simp

lemma sort_names_members:
  "set (sort_key fst (map (\<lambda>x. (fst x, sort_names (snd x))) kvs)) = (\<lambda>x. (fst x, sort_names (snd x))) ` set kvs"
  by simp

lemma unambiguous_sort: "unambiguous v \<Longrightarrow> unambiguous (sort_names v)"
proof (induction v rule: sort_names.induct)
  case (1 kvs)
  have "mset (map (\<lambda>x. fold_name (fst x)) (sort_key fst (map (\<lambda>x. (fst x, sort_names (snd x))) kvs))) =
      mset (map (\<lambda>x. fold_name (fst x)) kvs)"
    unfolding mset_map_sort by (simp add: comp_def)
  from mset_eq_imp_distinct_iff [OF this] show ?case using 1 by auto
qed auto

lemma height_sort: "height (sort_names v) = height v"
proof (induction v rule: sort_names.induct)
  case (1 kvs)
  then have "(\<lambda>x. height (sort_names (snd x))) ` set kvs = (\<lambda>x. height (snd x)) ` set kvs" by (intro image_cong) auto
  then show ?case by (simp add: image_image)
next
  case (2 vs)
  then have "(\<lambda>v. height (sort_names v)) ` set vs = height ` set vs" by (intro image_cong) auto
  then show ?case by (simp add: image_image)
qed auto

lemma sort_names_idem: "sort_names (sort_names v) = sort_names v"
proof (induction v rule: sort_names.induct)
  case (1 kvs)
  let ?ms = "sort_key fst (map (\<lambda>x. (fst x, sort_names (snd x))) kvs)"
  have "map (\<lambda>x. (fst x, sort_names (snd x))) ?ms = ?ms"
    by (rule map_idI) (use 1 in \<open>auto simp: sort_names_members\<close>)
  then show ?case by (simp add: sort_key_id_if_sorted)
qed auto

lemma canonical_shape:
  assumes "canonical_body body = Inr out"
  obtains kvs where "body = Some (JObj kvs)" "read_value 0 (JObj kvs) = Inr ()" "out = sort_names (JObj kvs)"
  using assms by (auto simp: canonical_body_def bind_result_Inr_iff split: option.splits json.splits
      simp del: read_value.simps sort_names.simps)

lemma canonical_unambiguous:
  assumes "canonical_body body = Inr out"
  shows "unambiguous out"
  using canonical_shape [OF assms] unambiguous_sort unfolding read_value_ok(1) by metis

text \<open>
  A body the proxy has encoded is read again to itself: the engine is sent a fixed point of
  the strict reader, in which no object names a field twice, with or without regard to case.
\<close>

theorem canonical_body_fixed:
  assumes "canonical_body body = Inr out"
  shows "canonical_body (Some out) = Inr out \<and> unambiguous out"
proof -
  obtain kvs where b: "body = Some (JObj kvs)" "read_value 0 (JObj kvs) = Inr ()" "out = sort_names (JObj kvs)"
    using canonical_shape [OF assms] .
  then have ok: "unambiguous out" "read_value 0 out = Inr ()"
    using unambiguous_sort height_sort unfolding read_value_ok(1) by metis+
  obtain ms where out: "out = JObj ms" using b(3) by simp
  then show ?thesis using ok b(3) sort_names_idem
    by (metis (no_types, lifting) bind_result_simps(2) canonical_body_def json.simps(41) option.simps(5))
qed

lemma checked_member:
  assumes "unambiguous (JObj kvs)" "check_spelling what kvs names = Inr ()" "name \<in> set names"
  shows "engine_member kvs name = json_member kvs name"
proof -
  let ?fs = "map (\<lambda>(k, v). (fold_name k, v)) kvs"
  have d: "distinct (map fst (rev ?fs))" "distinct (map fst kvs)"
    using assms(1) by (auto simp: rev_map [symmetric] comp_def split_def distinct_map inj_on_def)
  have "(fold_name name, v) \<in> set ?fs \<longleftrightarrow> (name, v) \<in> set kvs" for v
    using assms(2,3) by (force simp: check_spelling_def each_ok split: if_splits)
  then have "engine_member kvs name = Some v \<longleftrightarrow> (name, v) \<in> set kvs" for v
    unfolding engine_member_def using map_of_eq_Some_iff [OF d(1)] by simp
  moreover have "json_member kvs name = Some v \<longleftrightarrow> (name, v) \<in> set kvs" for v
    unfolding json_member_def using map_of_eq_Some_iff [of "rev kvs"] d(2) by (simp add: rev_map [symmetric])
  ultimately show ?thesis by (metis not_Some_eq)
qed

text \<open>
  Claim C16. Where the proxy checked the spelling of an object it reads what the engine reads: for every
  field of the interface the engine, which matches names without regard to case and keeps the last, finds
  exactly the member the proxy's checks looked up by its exact name.
\<close>

theorem engine_reads_checked:
  assumes "canonical_body body = Inr (JObj kvs)" "check_spelling what kvs names = Inr ()" "name \<in> set names"
  shows "engine_member kvs name = json_member kvs name"
  by (rule checked_member [OF canonical_unambiguous [OF assms(1)] assms(2,3)])

text \<open>A body with a repeated or respelled name is refused; one without is sent with its names sorted.\<close>

lemma sample_bodies:
  "canonical_body (Some (JObj [(''Labels'', JNull), (''Image'', JStr ''a'')])) = Inr (JObj [(''Image'', JStr ''a''), (''Labels'', JNull)])"
  "canonical_body (Some (JObj [(''Image'', JStr ''a''), (''image'', JStr ''b'')])) = Inl (Refused ''key repeats another'')"
  by code_simp+

lemma canonical_body_fixed_witness:
  "canonical_body (Some (JObj [(''Image'', JStr ''a''), (''Labels'', JNull)])) = Inr (JObj [(''Image'', JStr ''a''), (''Labels'', JNull)])"
  using canonical_body_fixed [OF sample_bodies(1)] by blast

lemma engine_reads_checked_witness:
  "engine_member [(''Image'', JStr ''a''), (''Labels'', JNull)] ''Image'' = json_member [(''Image'', JStr ''a''), (''Labels'', JNull)] ''Image''"
proof -
  have "check_spelling ''container create'' [(''Image'', JStr ''a''), (''Labels'', JNull)] [''Image''] = Inr ()" by code_simp
  from engine_reads_checked [OF sample_bodies(1) this] show ?thesis by simp
qed

end
