(* ===== verification/Engine_Policy.thy ===== *)
theory Engine_Policy
  imports Engine_Json
begin

text \<open>
  What the proxy before the container engine admits, after \<^verbatim>\<open>internal/engineproxy\<close>: \<^verbatim>\<open>policy.go\<close>,
  \<^verbatim>\<open>sdk_fields.go\<close>, \<^verbatim>\<open>netns_join.go\<close>, \<^verbatim>\<open>cdc_network.go\<close>, \<^verbatim>\<open>host_ports.go\<close>, \<^verbatim>\<open>volume_owner.go\<close> and the checks of \<^verbatim>\<open>apps.go\<close>.
  The bodies are canonical documents, so the order of a loop over an object shows only in which refusal is
  given. The field names of the engine's API types come from a package outside the repository and are a
  parameter; the wording of refusals is shortened.
\<close>

section \<open>The policy\<close>

record policy =
  managed_label :: string
  networks :: "string list"
  network_prefix :: string
  port_bind_ips :: "string list"
  host_ports :: "int \<times> int"
  volume_prefix :: string
  runtimes :: "string list"
  container_prefix :: string
  edge_container :: string
  edge_aliases :: "string list"
  netns_join_images :: "string list"
  cdc_network :: string
  cdc_images :: "string list"
  stats_containers :: "string list"

record sdk_names =
  create_request_names :: "string list"
  host_config_names :: "string list"
  networking_config_names :: "string list"
  endpoint_names :: "string list"
  mount_names :: "string list"
  volume_options_names :: "string list"
  tmpfs_options_names :: "string list"
  bind_options_names :: "string list"
  port_binding_names :: "string list"
  log_config_names :: "string list"
  exec_names :: "string list"
  network_create_names :: "string list"
  volume_create_names :: "string list"
  connect_names :: "string list"
  disconnect_names :: "string list"

abbreviation require :: "bool \<Rightarrow> string \<Rightarrow> check" where
  "require ok why \<equiv> (if ok then Inr () else Inl (Refused why))"

abbreviation and_check :: "check \<Rightarrow> check \<Rightarrow> check" where
  "and_check a b \<equiv> bind_result a (\<lambda>_. b)"

section \<open>Names\<close>

definition is_alnum :: "char \<Rightarrow> bool" where
  "is_alnum c \<longleftrightarrow> is_letter c \<or> is_digit c"

definition is_lower_alnum :: "char \<Rightarrow> bool" where
  "is_lower_alnum c \<longleftrightarrow> is_lower_letter c \<or> is_digit c"

text \<open>The pattern of a container or network reference.\<close>

definition is_ref :: "string \<Rightarrow> bool" where
  "is_ref s = (case s of [] \<Rightarrow> False | c # r \<Rightarrow> is_alnum c \<and>
     list_all (\<lambda>d. is_alnum d \<or> d = CHR ''_'' \<or> d = CHR ''.'' \<or> d = CHR ''-'') r)"

definition monitored_platform :: "policy \<Rightarrow> string \<Rightarrow> bool" where
  "monitored_platform p name \<longleftrightarrow> name \<in> set (stats_containers p)"

definition check_name :: "policy \<Rightarrow> string \<Rightarrow> check" where
  "check_name p name =
     (if \<not> prefix (container_prefix p) name \<or> name = container_prefix p then Inl (Refused ''container name must start with the prefix'')
      else if monitored_platform p name then Inl (Refused ''container name is a platform container's'')
      else Inr ())"

definition rename_suffix :: "string \<Rightarrow> bool" where
  "rename_suffix s = list_ex (\<lambda>i. let a = take i s; r = drop i s in
     a \<noteq> [] \<and> is_lower_alnum (hd a) \<and> list_all (\<lambda>c. is_lower_alnum c \<or> c = CHR ''-'') a \<and>
     (case cut_prefix ''-postgres'' r of None \<Rightarrow> False | Some t \<Rightarrow> t = [] \<or>
        (case cut_prefix ''-pre-upgrade-'' t of None \<Rightarrow> False
         | Some u \<Rightarrow> u \<noteq> [] \<and> list_all (\<lambda>c. is_lower_alnum c \<or> c = CHR ''-'') u))) [0..<Suc (length s)]"

definition check_rename :: "policy \<Rightarrow> string \<Rightarrow> check" where
  "check_rename p name = and_check (check_name p name)
     (require (rename_suffix (trim_prefix (container_prefix p) name)) ''a container may be renamed only to a project database's name'')"

definition under_network_prefix :: "policy \<Rightarrow> string \<Rightarrow> bool" where
  "under_network_prefix p name \<longleftrightarrow> network_prefix p \<noteq> [] \<and> prefix (network_prefix p) name \<and> length (network_prefix p) < length name"

definition network_allowed :: "policy \<Rightarrow> string \<Rightarrow> bool" where
  "network_allowed p net \<longleftrightarrow> net \<in> set (networks p) \<or> under_network_prefix p net"

definition check_volume_name :: "policy \<Rightarrow> string \<Rightarrow> check" where
  "check_volume_name p name =
     require (volume_prefix p \<noteq> [] \<and> prefix (volume_prefix p) name \<and> name \<noteq> volume_prefix p) ''volume is not one containers may mount''"

section \<open>Spelling\<close>

definition check_mounts_spelling :: "sdk_names \<Rightarrow> json \<Rightarrow> check" where
  "check_mounts_spelling sdk v = each (\<lambda>entry. let m = as_object entry in
     and_check (check_spelling ''mount'' m (mount_names sdk))
       (each (\<lambda>(field, names). check_spelling (''mount '' @ field) (as_object (field_of m field)) names)
         [(''VolumeOptions'', volume_options_names sdk), (''TmpfsOptions'', tmpfs_options_names sdk),
          (''BindOptions'', bind_options_names sdk)])) (as_list v)"

definition check_port_bindings_spelling :: "sdk_names \<Rightarrow> json \<Rightarrow> check" where
  "check_port_bindings_spelling sdk v = each (\<lambda>(_, entries). each (\<lambda>b.
     check_spelling ''port binding'' (as_object b) (port_binding_names sdk)) (as_list entries)) (as_object v)"

definition check_create_spelling :: "sdk_names \<Rightarrow> (string \<times> json) list \<Rightarrow> check" where
  "check_create_spelling sdk create =
     (let host = as_object (field_of create ''HostConfig'');
          networking = as_object (field_of create ''NetworkingConfig'') in
      and_check (check_spelling ''container create'' create (create_request_names sdk))
     (and_check (check_spelling ''HostConfig'' host (host_config_names sdk))
     (and_check (check_spelling ''HostConfig.LogConfig'' (as_object (field_of host ''LogConfig'')) (log_config_names sdk))
     (and_check (check_mounts_spelling sdk (field_of host ''Mounts''))
     (and_check (check_port_bindings_spelling sdk (field_of host ''PortBindings''))
     (and_check (check_spelling ''NetworkingConfig'' networking (networking_config_names sdk))
       (each (\<lambda>(_, endpoint). check_spelling ''endpoint'' (as_object endpoint) (endpoint_names sdk))
         (as_object (field_of networking ''EndpointsConfig'')))))))))"

section \<open>One field of a HostConfig\<close>

definition host_port_admits :: "int \<times> int \<Rightarrow> string \<Rightarrow> bool" where
  "host_port_admits window host_port = (case window of (low, high) \<Rightarrow> (case atoi host_port of None \<Rightarrow> False
     | Some port \<Rightarrow> itoa port = host_port \<and> 0 < low \<and> low \<le> port \<and> port \<le> high))"

definition exactly :: "string \<Rightarrow> json \<Rightarrow> check" where
  "exactly want v = require (v = JArr [JStr want]) ''HostConfig list may only be the one value''"

definition string_list :: "json \<Rightarrow> (proxy_refusal, string list) result" where
  "string_list v = (case v of JArr vs \<Rightarrow>
       if list_all (\<lambda>x. case x of JStr s \<Rightarrow> True | _ \<Rightarrow> False) vs then Inr (map as_text vs)
       else Inl (Refused ''HostConfig entry is not text'')
     | _ \<Rightarrow> Inl (Refused ''HostConfig field must be a list''))"

definition addable_capabilities :: "string list" where
  "addable_capabilities = [''NET_BIND_SERVICE'', ''CHOWN'', ''DAC_OVERRIDE'', ''FOWNER'', ''SETUID'', ''SETGID'']"

definition capability_ok :: "string \<Rightarrow> bool" where
  "capability_ok c \<longleftrightarrow> c \<noteq> [] \<and> list_all (\<lambda>d. is_letter d \<or> d = CHR ''_'') c \<and>
     trim_prefix ''CAP_'' (fold_name c) \<in> set addable_capabilities"

definition check_cap_add :: "json \<Rightarrow> check" where
  "check_cap_add v = bind_result (string_list v) (\<lambda>cs. each (\<lambda>c. require (capability_ok c) ''HostConfig.CapAdd is not allowed'') cs)"

definition check_port_binding :: "policy \<Rightarrow> json \<Rightarrow> check" where
  "check_port_binding p entry = (let b = as_object entry in
     and_check (only_fields ''port binding'' b [''HostIp'', ''HostPort''])
     (and_check (require (as_text (field_of b ''HostIp'') \<in> set (port_bind_ips p)) ''port may not be published on that address'')
       (require (as_text (field_of b ''HostPort'') = [] \<or> host_port_admits (host_ports p) (as_text (field_of b ''HostPort'')))
         ''only the tenant range is admitted'')))"

definition check_port_bindings :: "policy \<Rightarrow> json \<Rightarrow> check" where
  "check_port_bindings p v = (case v of JObj ports \<Rightarrow>
       each (\<lambda>(_, entries). each (check_port_binding p) (as_list entries)) ports
     | _ \<Rightarrow> Inl (Refused ''HostConfig.PortBindings is malformed''))"

definition bind_source :: "string \<Rightarrow> string" where
  "bind_source b = fst (cut_at CHR '':'' b)"

definition check_bind :: "policy \<Rightarrow> string \<Rightarrow> check" where
  "check_bind p b = (let source = bind_source b in
     if source = [] \<or> list_ex (\<lambda>c. c = CHR ''/'' \<or> c = CHR 0x5C) source \<or> prefix ''.'' source
     then Inl (Refused ''bind is a host path; only named volumes may be mounted'')
     else check_volume_name p source)"

definition check_binds :: "policy \<Rightarrow> json \<Rightarrow> check" where
  "check_binds p v = bind_result (string_list v) (each (check_bind p))"

definition mount_fields :: "string list" where
  "mount_fields = [''Type'', ''Source'', ''Target'', ''ReadOnly'', ''Consistency'', ''VolumeOptions'', ''TmpfsOptions'']"

definition check_mount_fields :: "(string \<times> json) list \<Rightarrow> check" where
  "check_mount_fields m = (let volume = as_object (field_of m ''VolumeOptions'') in
     and_check (only_fields ''mount'' m mount_fields)
     (and_check (require (is_zero (field_of volume ''DriverConfig'')) ''mount sets a volume driver'')
     (and_check (only_fields ''mount VolumeOptions'' volume [''NoCopy'', ''Labels''])
       (only_fields ''mount TmpfsOptions'' (as_object (field_of m ''TmpfsOptions'')) [''SizeBytes'', ''Mode'']))))"

definition check_mount :: "policy \<Rightarrow> json \<Rightarrow> check" where
  "check_mount p entry = (let m = as_object entry; kind = as_text (field_of m ''Type''); source = as_text (field_of m ''Source'') in
     and_check (check_mount_fields m)
      (if kind = ''tmpfs'' then Inr ()
       else if kind = ''volume'' then (if source \<noteq> [] then check_volume_name p source else Inr ())
       else Inl (Refused ''mount type is not allowed; only named volumes and tmpfs'')))"

definition check_mounts :: "policy \<Rightarrow> json \<Rightarrow> check" where
  "check_mounts p v = (case v of JArr ms \<Rightarrow> each (check_mount p) ms | _ \<Rightarrow> Inl (Refused ''HostConfig.Mounts must be a list''))"

definition check_security_opt :: "json \<Rightarrow> check" where
  "check_security_opt v = bind_result (string_list v) (each (\<lambda>o'. require
     (o' = ''no-new-privileges'' \<or> o' = ''no-new-privileges:true'' \<or> o' = ''no-new-privileges=true'') ''HostConfig.SecurityOpt is not allowed''))"

definition check_log_config :: "json \<Rightarrow> check" where
  "check_log_config v = (let config = as_object v in
     and_check (only_fields ''HostConfig.LogConfig'' config [''Type'', ''Config''])
       (require (as_text (field_of config ''Type'') \<in> {'''', ''json-file'', ''local'', ''k8s-file'', ''journald''})
         ''HostConfig.LogConfig type is not allowed''))"

definition private_only :: "string list \<Rightarrow> json \<Rightarrow> check" where
  "private_only modes v = require (as_text v \<in> set modes) ''HostConfig mode is not allowed''"

text \<open>A network mode that joins another container's namespace.\<close>

definition netns_join :: "json \<Rightarrow> string option" where
  "netns_join mode = cut_prefix ''container:'' (as_text mode)"

definition netns_join_admitted :: "policy \<Rightarrow> string \<Rightarrow> bool" where
  "netns_join_admitted p mode \<longleftrightarrow> cut_prefix ''container:'' mode \<noteq> None \<and> netns_join_images p \<noteq> []"

definition check_network_mode :: "policy \<Rightarrow> json \<Rightarrow> check" where
  "check_network_mode p v = (let mode = as_text v in
     require (mode = ''default'' \<or> mode = ''bridge'' \<or> mode = ''none'' \<or> network_allowed p mode \<or> netns_join_admitted p mode)
       ''network mode is not one containers may use'')"

definition check_runtime :: "policy \<Rightarrow> json \<Rightarrow> check" where
  "check_runtime p v = require (as_text v \<in> set (runtimes p)) ''HostConfig.Runtime is not allowed''"

definition freely_set :: "string list" where
  "freely_set = [''RestartPolicy'', ''Memory'', ''MemoryReservation'', ''MemorySwap'', ''MemorySwappiness'', ''NanoCpus'',
     ''CpuShares'', ''CpuQuota'', ''CpuPeriod'', ''PidsLimit'', ''Ulimits'', ''ShmSize'', ''CapDrop'', ''Init'',
     ''ReadonlyRootfs'', ''AutoRemove'', ''Tmpfs'', ''ConsoleSize'']"

definition app_service_domain :: string where
  "app_service_domain = ''apps.internal''"

text \<open>The table of fields a create may set, each with its check; any other field must be unset.\<close>

definition host_config_field :: "policy \<Rightarrow> string \<Rightarrow> (json \<Rightarrow> check) option" where
  "host_config_field p field =
     (if field \<in> set freely_set then Some (\<lambda>_. Inr ())
      else if field = ''PortBindings'' then Some (check_port_bindings p)
      else if field = ''CapAdd'' then Some check_cap_add
      else if field = ''Binds'' then Some (check_binds p)
      else if field = ''Mounts'' then Some (check_mounts p)
      else if field = ''NetworkMode'' then Some (check_network_mode p)
      else if field = ''Runtime'' then Some (check_runtime p)
      else if field = ''SecurityOpt'' then Some check_security_opt
      else if field = ''LogConfig'' then Some check_log_config
      else if field = ''IpcMode'' then Some (private_only [''private'', ''none'', ''shareable''])
      else if field = ''CgroupnsMode'' then Some (private_only [''private''])
      else if field = ''DnsSearch'' then Some (exactly app_service_domain)
      else if field = ''DnsOptions'' then Some (exactly ''ndots:1'')
      else None)"

definition unmasking_fields :: "string list" where
  "unmasking_fields = [''MaskedPaths'', ''ReadonlyPaths'']"

definition check_host_config_field :: "policy \<Rightarrow> string \<Rightarrow> json \<Rightarrow> check" where
  "check_host_config_field p field v =
     (if v \<noteq> JNull \<and> field \<in> set unmasking_fields then Inl (Refused ''HostConfig field may not be set'')
      else if is_unset v then Inr ()
      else case host_config_field p field of None \<Rightarrow> Inl (Refused ''HostConfig field may not be set'') | Some check \<Rightarrow> check v)"


section \<open>Typed reading of a body\<close>

text \<open>
  \<^verbatim>\<open>json.Unmarshal\<close> into typed fields: names match without regard to case, a null or absent member keeps
  the zero value, a member of another type is an error; so is a number beyond \<^verbatim>\<open>float64\<close>.
\<close>

fun numbers_fit :: "json \<Rightarrow> bool" where
  "numbers_fit (JNum t) = fits_float64 t"
| "numbers_fit (JArr vs) = (\<forall>v \<in> set vs. numbers_fit v)"
| "numbers_fit (JObj kvs) = (\<forall>x \<in> set kvs. numbers_fit (snd x))"
| "numbers_fit _ = True"

definition typed :: "(json \<Rightarrow> 'a option) \<Rightarrow> 'a \<Rightarrow> (string \<times> json) list \<Rightarrow> string \<Rightarrow> 'a option" where
  "typed f zero kvs name = (case engine_member kvs name of None \<Rightarrow> Some zero | Some v \<Rightarrow> f v)"

definition as_struct :: "json \<Rightarrow> (string \<times> json) list option" where
  "as_struct v = (case v of JObj kvs \<Rightarrow> Some kvs | JNull \<Rightarrow> Some [] | _ \<Rightarrow> None)"

definition as_map :: "json \<Rightarrow> (string \<times> json) list option option" where
  "as_map v = (case v of JObj kvs \<Rightarrow> Some (Some kvs) | JNull \<Rightarrow> Some None | _ \<Rightarrow> None)"

definition all_entries :: "(json \<Rightarrow> 'a option) \<Rightarrow> (string \<times> json) list \<Rightarrow> (string \<times> 'a) list option" where
  "all_entries f kvs = (if list_all (\<lambda>x. f (snd x) \<noteq> None) kvs then Some (map (\<lambda>x. (fst x, the (f (snd x)))) kvs) else None)"

definition all_items :: "(json \<Rightarrow> 'a option) \<Rightarrow> json \<Rightarrow> 'a list option" where
  "all_items f v = (case v of JNull \<Rightarrow> Some [] | JArr vs \<Rightarrow> if list_all (\<lambda>x. f x \<noteq> None) vs then Some (map (\<lambda>x. the (f x)) vs) else None
     | _ \<Rightarrow> None)"

definition text_map :: "json \<Rightarrow> (string \<times> string) list option" where
  "text_map v = Option.bind (as_struct v) (all_entries decode_string)"

definition text_at :: "(string \<times> string) list \<Rightarrow> string \<Rightarrow> string" where
  "text_at kvs k = (case map_of (rev kvs) k of None \<Rightarrow> [] | Some s \<Rightarrow> s)"

text \<open>\<^verbatim>\<open>json.Unmarshal\<close> of a body into a \<^verbatim>\<open>map[string]any\<close>.\<close>

definition decode_map :: "json \<Rightarrow> (proxy_refusal, (string \<times> json) list) result" where
  "decode_map body = (case as_struct body of None \<Rightarrow> Inl (Refused ''body'')
     | Some kvs \<Rightarrow> if numbers_fit body then Inr kvs else Inl (Refused ''body''))"

record create_body =
  create_image :: string
  create_entrypoint :: json
  create_labels :: "(string \<times> string) list"
  create_host :: "(string \<times> json) list option"
  create_endpoints :: "(string \<times> json) list"

definition decode_create :: "json \<Rightarrow> (proxy_refusal, create_body) result" where
  "decode_create body = bind_result (decode_map body) (\<lambda>kvs.
     case (typed decode_string [] kvs ''Image'', typed text_map [] kvs ''Labels'', typed as_map None kvs ''HostConfig'',
       Option.bind (typed as_struct [] kvs ''NetworkingConfig'') (\<lambda>net. typed as_struct [] net ''EndpointsConfig'')) of
       (Some im, Some ls, Some host, Some eps) \<Rightarrow> Inr \<lparr>create_image = im,
         create_entrypoint = (case engine_member kvs ''Entrypoint'' of None \<Rightarrow> JNull | Some v \<Rightarrow> v),
         create_labels = ls, create_host = host, create_endpoints = eps\<rparr>
     | _ \<Rightarrow> Inl (Refused ''container create body''))"

section \<open>A container create\<close>

definition check_netns_join :: "policy \<Rightarrow> string \<Rightarrow> (string \<times> json) list \<Rightarrow> (string \<times> json) list \<Rightarrow> check" where
  "check_netns_join p im host eps = (case netns_join (field_of host ''NetworkMode'') of None \<Rightarrow> Inr ()
     | Some target \<Rightarrow>
        if netns_join_images p = [] then Inr ()
        else if im \<notin> set (netns_join_images p) then Inl (Refused ''image may not join another container's network namespace'')
        else if \<not> is_ref target then Inl (Refused ''network mode does not name a container reference'')
        else if \<not> is_zero (field_of host ''PortBindings'') then Inl (Refused ''a joining container may not publish ports'')
        else if eps \<noteq> [] then Inl (Refused ''a joining container may not join a network'')
        else Inr ())"

definition check_cdc_network :: "policy \<Rightarrow> string \<Rightarrow> json \<Rightarrow> (string \<times> json) list \<Rightarrow> (string \<times> json) list \<Rightarrow> check" where
  "check_cdc_network p im entry host eps =
     (if cdc_network p = [] \<or> cdc_network p \<notin> fst ` set eps then Inr ()
      else if im \<notin> set (cdc_images p) then Inl (Refused ''image may not join the bus network'')
      else if \<not> is_zero (field_of host ''PortBindings'') then Inl (Refused ''a container on the bus network may not publish ports'')
      else if \<not> is_zero entry then Inl (Refused ''a container on the bus network keeps its image's entrypoint'')
      else Inr ())"

definition cdc_network_admitted :: "policy \<Rightarrow> string \<Rightarrow> string \<Rightarrow> bool" where
  "cdc_network_admitted p net im \<longleftrightarrow> cdc_network p \<noteq> [] \<and> net = cdc_network p \<and> im \<in> set (cdc_images p)"

text \<open>
  \<open>strings.EqualFold\<close> where the second string is ASCII: besides the two cases of a letter, U+017F
  matches s and U+212A matches k.
\<close>

fun equal_fold :: "string \<Rightarrow> string \<Rightarrow> bool" where
  "equal_fold t [] = (t = [])"
| "equal_fold t (p # ps) = (case t of [] \<Rightarrow> False | c # r \<Rightarrow>
     if lower_char c = lower_char p then equal_fold r ps
     else if lower_char p = CHR ''s'' \<and> prefix [CHR 0xC5, CHR 0xBF] t then equal_fold (drop 2 t) ps
     else lower_char p = CHR ''k'' \<and> prefix [CHR 0xE2, CHR 0x84, CHR 0xAA] t \<and> equal_fold (drop 3 t) ps)"

definition is_edge_alias :: "policy \<Rightarrow> string \<Rightarrow> bool" where
  "is_edge_alias p name \<longleftrightarrow> list_ex (\<lambda>a. equal_fold a name) (edge_aliases p)"

text \<open>One lower-case DNS label under the service domain.\<close>

definition service_alias :: "string \<Rightarrow> bool" where
  "service_alias name = (case cut_suffix (CHR ''.'' # app_service_domain) name of None \<Rightarrow> False
     | Some l \<Rightarrow> l \<noteq> [] \<and> is_lower_letter (hd l) \<and> length l \<le> 63 \<and>
         list_all (\<lambda>c. is_lower_alnum c \<or> c = CHR ''-'') l \<and> is_lower_alnum (last l))"

definition check_service_alias :: "policy \<Rightarrow> json \<Rightarrow> check" where
  "check_service_alias p endpoint = (case endpoint of JObj settings \<Rightarrow>
       and_check (each (\<lambda>(k, v). require (k = ''Aliases'' \<or> is_zero v) ''network endpoint field may not be set'') settings)
         (case as_list (field_of settings ''Aliases'') of [a] \<Rightarrow>
            (let name = as_text a; label = fst (cut_at CHR ''.'' name) in
             if \<not> service_alias name \<or> prefix (container_prefix p) label \<or> is_edge_alias p name
             then Inl (Refused ''service name is not one an app may carry'') else Inr ())
          | _ \<Rightarrow> Inl (Refused ''an app may carry exactly one service name''))
     | _ \<Rightarrow> Inl (Refused ''network endpoint settings must be an object''))"

definition check_endpoint :: "policy \<Rightarrow> string \<Rightarrow> json \<Rightarrow> (string \<times> json) list \<Rightarrow> nat \<Rightarrow> check" where
  "check_endpoint p net endpoint host n =
     (if is_zero endpoint then Inr ()
      else if n = 1 \<and> as_text (field_of host ''NetworkMode'') = net \<and> under_network_prefix p net \<and>
        check_service_alias p endpoint = Inr () then Inr ()
      else Inl (Refused ''endpoint settings may not be set''))"

definition check_create_endpoint :: "policy \<Rightarrow> create_body \<Rightarrow> (string \<times> json) list \<Rightarrow> string \<times> json \<Rightarrow> check" where
  "check_create_endpoint p create host entry = (case entry of (net, endpoint) \<Rightarrow>
     if \<not> network_allowed p net \<and> \<not> cdc_network_admitted p net (create_image create)
     then Inl (Refused ''network is not one containers may join'')
     else check_endpoint p net endpoint host (length (create_endpoints create)))"

definition check_created :: "policy \<Rightarrow> create_body \<Rightarrow> check" where
  "check_created p create =
     (if text_at (create_labels create) (managed_label p) \<noteq> ''true'' then Inl (Refused ''container must carry the managed label'')
      else case create_host create of None \<Rightarrow> Inl (Refused ''container create must send a HostConfig'')
      | Some host \<Rightarrow>
         and_check (check_netns_join p (create_image create) host (create_endpoints create))
        (and_check (check_cdc_network p (create_image create) (create_entrypoint create) host (create_endpoints create))
        (and_check (each (\<lambda>(field, v). check_host_config_field p field v) host)
           (each (check_create_endpoint p create host) (create_endpoints create)))))"

definition check_create :: "sdk_names \<Rightarrow> policy \<Rightarrow> string \<Rightarrow> json \<Rightarrow> check" where
  "check_create sdk p name body =
     and_check (check_name p name)
     (bind_result (decode_create body) (\<lambda>create.
      bind_result (decode_map body) (\<lambda>fs.
      and_check (check_create_spelling sdk fs) (check_created p create))))"

text \<open>The container whose network namespace an admitted body joins, empty for none.\<close>

definition netns_join_target :: "json \<Rightarrow> string" where
  "netns_join_target body = (case decode_map body of Inl e \<Rightarrow> [] | Inr kvs \<Rightarrow>
     (case typed as_map None kvs ''HostConfig'' of Some (Some host) \<Rightarrow>
        (case netns_join (field_of host ''NetworkMode'') of None \<Rightarrow> [] | Some target \<Rightarrow> target)
      | _ \<Rightarrow> []))"

definition check_exec_create :: "sdk_names \<Rightarrow> json \<Rightarrow> check" where
  "check_exec_create sdk body = bind_result (decode_map body) (\<lambda>ex.
     and_check (check_spelling ''exec create'' ex (exec_names sdk))
       (require (is_zero (field_of ex ''Privileged'')) ''exec may not be Privileged''))"

section \<open>Networks and volumes\<close>

definition check_fields :: "string \<Rightarrow> (string \<times> json) list \<Rightarrow> (string \<Rightarrow> (json \<Rightarrow> check) option) \<Rightarrow> check" where
  "check_fields what body table = each (\<lambda>(field, v). case table field of
       None \<Rightarrow> require (is_zero v) (what @ '' field may not be set'')
     | Some chk \<Rightarrow> if is_unset v then Inr () else chk v) body"

definition require_managed_label :: "policy \<Rightarrow> json \<Rightarrow> check" where
  "require_managed_label p v = require (field_of (as_object v) (managed_label p) = JStr ''true'') ''must carry the managed label''"

definition gateway_mode_ipv4 :: string where
  "gateway_mode_ipv4 = ''com.docker.network.bridge.gateway_mode_ipv4''"

definition gateway_mode_ipv6 :: string where
  "gateway_mode_ipv6 = ''com.docker.network.bridge.gateway_mode_ipv6''"

definition is_gateway_mode :: "string \<Rightarrow> bool" where
  "is_gateway_mode k \<longleftrightarrow> k = gateway_mode_ipv4 \<or> k = gateway_mode_ipv6"

definition network_create_fields :: "string \<Rightarrow> (json \<Rightarrow> check) option" where
  "network_create_fields field =
     (if field \<in> {''Name'', ''Labels'', ''Internal'', ''CheckDuplicate''} then Some (\<lambda>_. Inr ())
      else if field = ''Driver'' then Some (\<lambda>v. require (as_text v = ''bridge'') ''network Driver is not allowed; only bridge'')
      else if field = ''Options'' then Some (\<lambda>v. each (\<lambda>(k, opt). require
        (k = ''isolate'' \<and> opt = JStr ''true'' \<or> is_gateway_mode k \<and> opt = JStr ''isolated'')
        ''network option may not be set'') (as_object v))
      else None)"

definition check_isolated_gateway :: "(string \<times> json) list \<Rightarrow> check" where
  "check_isolated_gateway create = each (\<lambda>(k, _). require (\<not> is_gateway_mode k \<or> field_of create ''Internal'' = JBool True)
     ''network option may be set only on an internal network'') (as_object (field_of create ''Options''))"

definition check_network_create :: "sdk_names \<Rightarrow> policy \<Rightarrow> json \<Rightarrow> check" where
  "check_network_create sdk p body = bind_result (decode_map body) (\<lambda>create.
     and_check (check_spelling ''network create'' create (network_create_names sdk))
    (and_check (require (under_network_prefix p (as_text (field_of create ''Name''))) ''network name must start with the prefix'')
    (and_check (require_managed_label p (field_of create ''Labels''))
    (and_check (check_fields ''network create'' create network_create_fields)
       (check_isolated_gateway create)))))"

definition network_member :: "sdk_names \<Rightarrow> json \<Rightarrow> bool \<Rightarrow> (proxy_refusal, string) result" where
  "network_member sdk body allow_force = bind_result (decode_map body) (\<lambda>member.
     bind_result (check_spelling ''network member'' member (if allow_force then disconnect_names sdk else connect_names sdk)) (\<lambda>_.
     let container = as_text (field_of member ''Container'') in
     if container = [] then Inl (Refused ''a network connect or disconnect names a container'')
     else bind_result (each (\<lambda>(field, v). require (field = ''Container'' \<or> is_zero v \<or> field = ''Force'' \<and> allow_force)
       ''network field may not be set'') member) (\<lambda>_. Inr container)))"

definition without_endpoint :: "json \<Rightarrow> json" where
  "without_endpoint body = (case decode_map body of Inl e \<Rightarrow> body
     | Inr member \<Rightarrow> if ''EndpointConfig'' \<in> fst ` set member then JObj (filter (\<lambda>x. fst x \<noteq> ''EndpointConfig'') member) else body)"

definition check_edge_endpoint :: "policy \<Rightarrow> json \<Rightarrow> check" where
  "check_edge_endpoint p endpoint = (case endpoint of JObj settings \<Rightarrow>
       and_check (each (\<lambda>(k, v). require (k = ''Aliases'' \<or> is_zero v) ''network EndpointConfig field may not be set'') settings)
         (case field_of settings ''Aliases'' of JArr (a # as) \<Rightarrow>
            each (\<lambda>a. require (as_text a \<in> set (edge_aliases p)) ''the edge may not answer to that name'') (a # as)
          | _ \<Rightarrow> Inl (Refused ''network EndpointConfig may only name aliases''))
     | _ \<Rightarrow> Inl (Refused ''network EndpointConfig must be an object''))"

definition check_network_connect :: "sdk_names \<Rightarrow> policy \<Rightarrow> json \<Rightarrow> check" where
  "check_network_connect sdk p body = bind_result (decode_map body) (\<lambda>member.
     and_check (check_spelling ''network connect'' member (connect_names sdk))
     (let endpoint = field_of member ''EndpointConfig''; container = as_text (field_of member ''Container'') in
      if is_zero endpoint then bind_result (network_member sdk body False) (\<lambda>_. Inr ())
      else if container = [] \<or> container \<noteq> edge_container p then Inl (Refused ''network EndpointConfig may be set only for the edge'')
      else and_check (check_spelling ''network EndpointConfig'' (as_object endpoint) (endpoint_names sdk))
        (and_check (check_edge_endpoint p endpoint)
          (bind_result (network_member sdk (without_endpoint body) False) (\<lambda>_. Inr ())))))"

definition owner_labels :: "string list" where
  "owner_labels = [''excalibase.project'', ''excalibase.app'', ''excalibase.build'']"

definition require_volume_owner :: "json \<Rightarrow> check" where
  "require_volume_owner v = require (list_ex (\<lambda>key. as_text (field_of (as_object v) key) \<noteq> []) owner_labels) ''a volume must name its owner''"

definition volume_create_fields :: "string \<Rightarrow> (json \<Rightarrow> check) option" where
  "volume_create_fields field =
     (if field \<in> {''Name'', ''Labels''} then Some (\<lambda>_. Inr ())
      else if field = ''Driver'' then Some (\<lambda>v. require (as_text v = ''local'') ''volume Driver is not allowed; only local'')
      else None)"

definition check_volume_create :: "sdk_names \<Rightarrow> policy \<Rightarrow> json \<Rightarrow> check" where
  "check_volume_create sdk p body = bind_result (decode_map body) (\<lambda>create.
     and_check (check_spelling ''volume create'' create (volume_create_names sdk))
    (and_check (check_volume_name p (as_text (field_of create ''Name'')))
    (and_check (require_managed_label p (field_of create ''Labels''))
    (and_check (require_volume_owner (field_of create ''Labels''))
       (check_fields ''volume create'' create volume_create_fields)))))"

section \<open>Who may mount a volume\<close>

record create_volumes =
  volumes_labels :: "(string \<times> string) list"
  volumes_binds :: "string list"
  volumes_mounts :: "(string \<times> string) list"

definition decode_mount :: "json \<Rightarrow> (string \<times> string) option" where
  "decode_mount v = Option.bind (as_struct v) (\<lambda>m. Option.bind (typed decode_string [] m ''Type'') (\<lambda>kind.
     map_option (Pair kind) (typed decode_string [] m ''Source'')))"

definition decode_volumes :: "json \<Rightarrow> create_volumes option" where
  "decode_volumes body = Option.bind (as_struct body) (\<lambda>kvs.
     Option.bind (typed text_map [] kvs ''Labels'') (\<lambda>ls.
     Option.bind (typed as_struct [] kvs ''HostConfig'') (\<lambda>host.
     Option.bind (typed (all_items decode_string) [] host ''Binds'') (\<lambda>bs.
     Option.bind (typed (all_items decode_mount) [] host ''Mounts'') (\<lambda>ms.
       Some \<lparr>volumes_labels = ls, volumes_binds = bs, volumes_mounts = ms\<rparr>)))))"

definition named_volumes :: "create_volumes \<Rightarrow> string list" where
  "named_volumes c = filter (\<lambda>s. s \<noteq> []) (map bind_source (volumes_binds c)) @
     map snd (filter (\<lambda>(kind, source). kind = ''volume'' \<and> source \<noteq> []) (volumes_mounts c))"

definition managed_label_name :: string where
  "managed_label_name = ''excalibase.managed''"

definition legacy_database_suffix :: string where
  "legacy_database_suffix = ''-mysql''"

definition volume_owners :: "string \<Rightarrow> string \<Rightarrow> (string \<times> string) list \<Rightarrow> (string \<times> string) list" where
  "volume_owners vol_prefix name ls =
     (let owners = filter (\<lambda>(k, v). v \<noteq> []) (map (\<lambda>k. (k, text_at ls k)) owner_labels) in
      if owners \<noteq> [] \<or> text_at ls managed_label_name \<noteq> ''true'' \<or> vol_prefix = [] then owners
      else case cut_prefix vol_prefix name of None \<Rightarrow> []
      | Some rest \<Rightarrow> (case cut_suffix legacy_database_suffix rest of None \<Rightarrow> []
         | Some project \<Rightarrow> if project = [] then [] else [(hd owner_labels, project)]))"

definition check_volume_owner :: "(string \<times> string) list \<Rightarrow> (string \<times> string) list \<Rightarrow> check" where
  "check_volume_owner volume container =
     and_check (each (\<lambda>key. require (text_at volume key = [] \<or> text_at container key = text_at volume key)
       ''volume belongs to another'') owner_labels)
      (require (list_ex (\<lambda>key. text_at volume key \<noteq> []) owner_labels) ''volume names no owner'')"

end
