(* ===== verification/Engine_Proxy.thy ===== *)
theory Engine_Proxy
  imports Engine_Policy
begin

text \<open>
  The calls the proxy lets through to the container engine, after \<^verbatim>\<open>internal/engineproxy/handler.go\<close>,
  \<^verbatim>\<open>apps.go\<close>, \<^verbatim>\<open>volume_owner.go\<close>, \<^verbatim>\<open>stats.go\<close> and \<^verbatim>\<open>upgrade.go\<close>. The engine is a parameter: what it answers
  to a GET of a path, at the time of the call. A request carries its body either as sent or, once
  checked, as the document the proxy encoded in its place.
\<close>

section \<open>Requests and the engine\<close>

datatype request_body = Unreadable | Sent int "json option" | Checked json

record engine_request =
  call_method :: string
  call_path :: string
  call_raw_path :: string
  call_query :: "(string \<times> string list) list"
  call_filters :: "json option list"
  call_body :: request_body
  call_upgrade :: bool

text \<open>An answer: none, or a status and the document of its body (\<open>None\<close> where it is not JSON or is cut at the limit).\<close>

type_synonym engine = "string \<Rightarrow> (int \<times> json option) option"

definition query_values :: "engine_request \<Rightarrow> string \<Rightarrow> string list" where
  "query_values r k = (case map_of (call_query r) k of None \<Rightarrow> [] | Some vs \<Rightarrow> vs)"

text \<open>\<open>url.PathEscape\<close>.\<close>

definition path_safe :: "char \<Rightarrow> bool" where
  "path_safe c \<longleftrightarrow> is_alnum c \<or> c \<in> set ''-_.~$&+=:@''"

definition upper_hex :: "nat \<Rightarrow> char" where
  "upper_hex n = ''0123456789ABCDEF'' ! n"

definition path_escape :: "string \<Rightarrow> string" where
  "path_escape s = concat (map (\<lambda>c. if path_safe c then [c]
     else [CHR ''%'', upper_hex (of_char c div 16), upper_hex (of_char c mod 16)]) s)"

definition inspect :: "engine \<Rightarrow> string \<Rightarrow> (json \<Rightarrow> 'a option) \<Rightarrow> (proxy_refusal, 'a) result" where
  "inspect engine path into = (case engine path of None \<Rightarrow> Inl Engine_Failed
     | Some (status, answer) \<Rightarrow>
         if status = 404 then Inl No_Such_Thing
         else if status \<noteq> 200 then Inl Engine_Failed
         else case Option.bind answer into of None \<Rightarrow> Inl Engine_Failed | Some x \<Rightarrow> Inr x)"

definition container_path :: "string \<Rightarrow> string" where
  "container_path name = ''/containers/'' @ path_escape name @ ''/json''"

definition volume_path :: "string \<Rightarrow> string" where
  "volume_path name = ''/volumes/'' @ path_escape name"

definition container_labels :: "json \<Rightarrow> (string \<times> string) list option" where
  "container_labels v = Option.bind (as_struct v) (\<lambda>kvs. Option.bind (typed as_struct [] kvs ''Config'') (\<lambda>c. typed text_map [] c ''Labels''))"

definition volume_labels :: "json \<Rightarrow> (string \<times> string) list option" where
  "volume_labels v = Option.bind (as_struct v) (\<lambda>kvs. typed text_map [] kvs ''Labels'')"

definition exec_container :: "json \<Rightarrow> string option" where
  "exec_container v = Option.bind (as_struct v) (\<lambda>kvs. typed decode_string [] kvs ''ContainerID'')"

definition require_managed :: "policy \<Rightarrow> engine \<Rightarrow> string \<Rightarrow> check" where
  "require_managed p engine name = bind_result (inspect engine (container_path name) container_labels) (\<lambda>ls.
     if text_at ls (managed_label p) \<noteq> ''true'' then Inl (Not_Managed name) else Inr ())"

definition require_managed_join :: "policy \<Rightarrow> engine \<Rightarrow> json \<Rightarrow> check" where
  "require_managed_join p engine body = (let target = netns_join_target body in
     if target = [] then Inr () else require_managed p engine target)"

definition require_own_volume :: "policy \<Rightarrow> engine \<Rightarrow> (string \<times> string) list \<Rightarrow> string \<Rightarrow> check" where
  "require_own_volume p engine container name = (case inspect engine (volume_path name) volume_labels of
       Inl e \<Rightarrow> Inl (if e = No_Such_Thing then Refused ''volume does not exist; create it first'' else e)
     | Inr ls \<Rightarrow> if text_at ls (managed_label p) \<noteq> ''true'' then Inl (Refused ''volume is not one provisioning manages'')
         else check_volume_owner (volume_owners (volume_prefix p) name ls) container)"

definition require_own_volumes :: "policy \<Rightarrow> engine \<Rightarrow> create_volumes \<Rightarrow> check" where
  "require_own_volumes p engine create = each (require_own_volume p engine (volumes_labels create)) (named_volumes create)"

section \<open>Bodies\<close>

abbreviation max_create_body :: int where "max_create_body \<equiv> 1048576"

type_synonym authorized = "(proxy_refusal, engine_request) result"

text \<open>A checked body replaces the one sent.\<close>

definition check_body :: "engine_request \<Rightarrow> (json \<Rightarrow> check) \<Rightarrow> authorized" where
  "check_body r chk = (case call_body r of Unreadable \<Rightarrow> Inl Engine_Failed
     | Sent n doc \<Rightarrow> if n > max_create_body then Inl (Refused ''request body is too large'')
         else bind_result (canonical_body doc) (\<lambda>checked. bind_result (chk checked) (\<lambda>_. Inr (r\<lparr>call_body := Checked checked\<rparr>)))
     | Checked doc \<Rightarrow> bind_result (canonical_body (Some doc)) (\<lambda>checked. bind_result (chk checked) (\<lambda>_. Inr (r\<lparr>call_body := Checked checked\<rparr>))))"

definition method_only :: "engine_request \<Rightarrow> string \<Rightarrow> check" where
  "method_only r m = require (call_method r = m) ''not a call provisioning makes''"

definition passes :: "engine_request \<Rightarrow> check \<Rightarrow> authorized" where
  "passes r c = bind_result c (\<lambda>_. Inr r)"

text \<open>A list is admitted only filtered to managed objects.\<close>

definition names_label :: "string \<Rightarrow> json \<Rightarrow> bool" where
  "names_label want v \<longleftrightarrow>
     (case all_items decode_string v of None \<Rightarrow> False | Some ls \<Rightarrow> want \<in> set ls) \<or>
     (case Option.bind (as_struct v) (all_entries decode_bool) of None \<Rightarrow> False | Some bs \<Rightarrow> map_of (rev bs) want = Some True)"

definition check_managed_filter :: "policy \<Rightarrow> engine_request \<Rightarrow> check" where
  "check_managed_filter p r = (case call_filters r of [doc] \<Rightarrow> (case canonical_body doc of Inl e \<Rightarrow> Inl (Refused ''list filters'')
       | Inr _ \<Rightarrow> (case json_member (as_object (the doc)) ''label'' of None \<Rightarrow> Inl (Refused ''a list must be filtered'')
           | Some v \<Rightarrow> require (names_label (managed_label p @ ''=true'') v) ''a list must be filtered''))
     | _ \<Rightarrow> Inl (Refused ''a list must carry exactly one filter''))"

section \<open>Paths\<close>

definition ref_char :: "char \<Rightarrow> bool" where
  "ref_char c \<longleftrightarrow> is_alnum c \<or> c = CHR ''_'' \<or> c = CHR ''.'' \<or> c = CHR ''-''"

text \<open>A reference after a fixed beginning, and the rest of the path.\<close>

definition ref_after :: "string \<Rightarrow> string \<Rightarrow> (string \<times> string) option" where
  "ref_after pre api = Option.bind (cut_prefix pre api) (\<lambda>s. let name = takeWhile ref_char s in
     if is_ref name then Some (name, drop (length name) s) else None)"

definition match_network :: "string \<Rightarrow> (string \<times> string) option" where
  "match_network api = Option.bind (ref_after ''/networks/'' api) (\<lambda>(name, rest).
     if rest \<in> {'''', ''/connect'', ''/disconnect''} then Some (name, rest) else None)"

definition match_volume :: "string \<Rightarrow> string option" where
  "match_volume api = Option.bind (ref_after ''/volumes/'' api) (\<lambda>(name, rest). if rest = [] then Some name else None)"

definition match_exec :: "string \<Rightarrow> (string \<times> string) option" where
  "match_exec api = Option.bind (ref_after ''/exec/'' api) (\<lambda>(name, rest).
     if rest = ''/start'' \<or> rest = ''/json'' then Some (name, tl rest) else None)"

definition match_container :: "string \<Rightarrow> (string \<times> string) option" where
  "match_container api = Option.bind (ref_after ''/containers/'' api) (\<lambda>(name, rest).
     if rest = [] \<or> hd rest = CHR ''/'' \<and> tl rest \<noteq> [] \<and> list_all is_lower_letter (tl rest) then Some (name, rest) else None)"

definition match_platform_inspect :: "string \<Rightarrow> string option" where
  "match_platform_inspect api = Option.bind (ref_after ''/containers/'' api) (\<lambda>(name, rest). if rest = ''/json'' then Some name else None)"

text \<open>Without the \<open>/v1.NN\<close> the API accepts before every path.\<close>

definition strip_version :: "string \<Rightarrow> string" where
  "strip_version raw = (case cut_prefix ''/v'' raw of None \<Rightarrow> raw
     | Some s \<Rightarrow> let major = takeWhile is_digit s; t = dropWhile is_digit s;
          minor = takeWhile is_digit (tl t); u = dropWhile is_digit (tl t) in
        if major \<noteq> [] \<and> t \<noteq> [] \<and> hd t = CHR ''.'' \<and> minor \<noteq> [] \<and> prefix ''/'' u \<and> CHR 0x0A \<notin> set u then u else raw)"

section \<open>The calls\<close>

datatype call_route = Managed | Exec_Create | Stats | Rename

definition container_routes :: "((string \<times> string) \<times> call_route) list" where
  "container_routes = [((''DELETE'', ''''), Managed), ((''GET'', ''/json''), Managed), ((''POST'', ''/start''), Managed),
     ((''POST'', ''/stop''), Managed), ((''PUT'', ''/archive''), Managed), ((''GET'', ''/archive''), Managed),
     ((''HEAD'', ''/archive''), Managed), ((''POST'', ''/exec''), Exec_Create), ((''GET'', ''/logs''), Managed),
     ((''POST'', ''/wait''), Managed), ((''GET'', ''/stats''), Stats), ((''POST'', ''/rename''), Rename)]"

definition stats_parameter :: "string \<times> string list \<Rightarrow> check" where
  "stats_parameter x = (case x of (name, vs) \<Rightarrow>
     if length vs \<noteq> 1 then Inl (Refused ''stats parameter is given more than once'')
     else if name = ''stream'' then require (hd vs \<in> {''false'', ''0''}) ''stats must be one sample: stream=false''
     else if name = ''one-shot'' then require (hd vs \<in> {''true'', ''1'', ''false'', ''0''}) ''stats one-shot must be true or false''
     else Inl (Refused ''stats takes stream and one-shot only''))"

definition stats_query :: "(string \<times> string list) list \<Rightarrow> check" where
  "stats_query q = and_check (each stats_parameter q)
     (require (''stream'' \<in> fst ` set q) ''stats must be one sample: stream=false'')"

definition authorize_stats :: "policy \<Rightarrow> engine \<Rightarrow> engine_request \<Rightarrow> string \<Rightarrow> check" where
  "authorize_stats p engine r name = and_check (stats_query (call_query r))
     (if monitored_platform p name then Inr () else require_managed p engine name)"

definition authorize_container :: "sdk_names \<Rightarrow> policy \<Rightarrow> engine \<Rightarrow> engine_request \<Rightarrow> string \<Rightarrow> string \<Rightarrow> authorized" where
  "authorize_container sdk p engine r name action =
     (if name = ''create'' \<or> name = ''json'' then Inl (Refused ''not a call provisioning makes'')
      else case map_of container_routes (call_method r, action) of
        None \<Rightarrow> Inl (Refused ''not a call provisioning makes'')
      | Some Stats \<Rightarrow> passes r (authorize_stats p engine r name)
      | Some kind \<Rightarrow> bind_result (require_managed p engine name) (\<lambda>_. case kind of
            Exec_Create \<Rightarrow> check_body r (check_exec_create sdk)
          | Rename \<Rightarrow> (case query_values r ''name'' of [new] \<Rightarrow> passes r (check_rename p new)
              | _ \<Rightarrow> Inl (Refused ''a rename names exactly one name''))
          | _ \<Rightarrow> Inr r))"

definition authorize_exec :: "policy \<Rightarrow> engine \<Rightarrow> engine_request \<Rightarrow> string \<Rightarrow> string \<Rightarrow> authorized" where
  "authorize_exec p engine r name action =
     (if \<not> (action = ''start'' \<and> call_method r = ''POST'' \<or> action = ''json'' \<and> call_method r = ''GET'')
      then Inl (Refused ''not a call provisioning makes'')
      else passes r (bind_result (inspect engine (''/exec/'' @ name @ ''/json'') exec_container) (require_managed p engine)))"

text \<open>Who may join or leave a project network: the named edge or a managed container.\<close>

definition check_member :: "sdk_names \<Rightarrow> policy \<Rightarrow> engine \<Rightarrow> bool \<Rightarrow> json \<Rightarrow> check" where
  "check_member sdk p engine disconnect body =
     and_check (if disconnect then Inr () else check_network_connect sdk p body)
     (bind_result (network_member sdk (if disconnect then body else without_endpoint body) disconnect) (\<lambda>container.
        if edge_container p \<noteq> [] \<and> container = edge_container p then Inr () else require_managed p engine container))"

definition authorize_network :: "sdk_names \<Rightarrow> policy \<Rightarrow> engine \<Rightarrow> engine_request \<Rightarrow> string \<Rightarrow> string \<Rightarrow> authorized" where
  "authorize_network sdk p engine r name action =
     (if \<not> under_network_prefix p name then Inl (Refused ''network is not a project network'')
      else if action = [] \<and> (call_method r = ''GET'' \<or> call_method r = ''DELETE'') then Inr r
      else if action = ''/connect'' \<and> call_method r = ''POST'' then check_body r (check_member sdk p engine False)
      else if action = ''/disconnect'' \<and> call_method r = ''POST'' then check_body r (check_member sdk p engine True)
      else Inl (Refused ''not a call provisioning makes''))"

text \<open>The app-hosting calls; \<open>None\<close> for any other path.\<close>

definition authorize_apps :: "sdk_names \<Rightarrow> policy \<Rightarrow> engine \<Rightarrow> engine_request \<Rightarrow> string \<Rightarrow> authorized option" where
  "authorize_apps sdk p engine r api =
     (if api = ''/info'' then Some (passes r (method_only r ''GET''))
      else if api = ''/containers/json'' \<and> call_method r = ''GET'' then Some (passes r (check_managed_filter p r))
      else if api = ''/networks/create''
      then Some (bind_result (method_only r ''POST'') (\<lambda>_. check_body r (check_network_create sdk p)))
      else if api = ''/volumes/create''
      then Some (bind_result (method_only r ''POST'') (\<lambda>_. check_body r (check_volume_create sdk p)))
      else if api = ''/volumes'' then Some (passes r (and_check (method_only r ''GET'') (check_managed_filter p r)))
      else case match_network api of Some (name, action) \<Rightarrow> Some (authorize_network sdk p engine r name action)
      | None \<Rightarrow> (case match_volume api of
          Some name \<Rightarrow> Some (if call_method r \<noteq> ''GET'' \<and> call_method r \<noteq> ''DELETE'' then Inl (Refused ''not a call provisioning makes'')
            else passes r (check_volume_name p name))
        | None \<Rightarrow> None))"

definition check_container_create :: "sdk_names \<Rightarrow> policy \<Rightarrow> engine \<Rightarrow> string \<Rightarrow> json \<Rightarrow> check" where
  "check_container_create sdk p engine name body = and_check (check_create sdk p name body)
     (case decode_volumes body of None \<Rightarrow> Inl (Refused ''container create body'')
      | Some vols \<Rightarrow> and_check (require_own_volumes p engine vols) (require_managed_join p engine body))"

definition authorize :: "sdk_names \<Rightarrow> policy \<Rightarrow> engine \<Rightarrow> engine_request \<Rightarrow> authorized" where
  "authorize sdk p engine r =
     (let raw = call_path r; api = strip_version raw; m = call_method r in
      if path_clean raw \<noteq> raw \<or> call_raw_path r \<noteq> [] then Inl (Refused ''path is not canonical'')
      else if api = ''/_ping'' \<and> (m = ''GET'' \<or> m = ''HEAD'') then Inr r
      else if api = ''/version'' \<and> m = ''GET'' then Inr r
      else if api = ''/images/json'' \<and> m = ''GET'' then Inr r
      else if api = ''/images/create'' \<and> m = ''POST'' then Inr r
      else if api = ''/containers/create'' \<and> m = ''POST'' then (case query_values r ''name'' of
          [name] \<Rightarrow> check_body r (check_container_create sdk p engine name)
        | _ \<Rightarrow> Inl (Refused ''a container create names exactly one container''))
      else case authorize_apps sdk p engine r api of Some verdict \<Rightarrow> verdict
      | None \<Rightarrow> (case match_exec api of Some (name, action) \<Rightarrow> authorize_exec p engine r name action
        | None \<Rightarrow> (case match_container api of Some (name, action) \<Rightarrow> authorize_container sdk p engine r name action
          | None \<Rightarrow> Inl (Refused ''not a call provisioning makes''))))"

section \<open>Answering\<close>

definition refusal_status :: "proxy_refusal \<Rightarrow> int" where
  "refusal_status e = (case e of No_Such_Thing \<Rightarrow> 404 | Engine_Failed \<Rightarrow> 502 | _ \<Rightarrow> 403)"

text \<open>All of a platform container's inspect that leaves the proxy.\<close>

record platform_state =
  state_id :: string
  state_name :: string
  state_status :: string
  state_running :: bool
  state_health :: "string option"
  state_image :: string

definition health_status :: "json \<Rightarrow> string option option" where
  "health_status v = (case v of JNull \<Rightarrow> Some None
     | _ \<Rightarrow> Option.bind (as_struct v) (\<lambda>h. map_option Some (typed decode_string [] h ''Status'')))"

definition decode_platform_state :: "json \<Rightarrow> platform_state option" where
  "decode_platform_state v = Option.bind (as_struct v) (\<lambda>kvs.
     Option.bind (typed as_struct [] kvs ''State'') (\<lambda>st. Option.bind (typed as_struct [] kvs ''Config'') (\<lambda>cf.
     case (typed decode_string [] kvs ''Id'', typed decode_string [] kvs ''Name'', typed decode_string [] st ''Status'',
       typed decode_bool False st ''Running'', typed health_status None st ''Health'', typed decode_string [] cf ''Image'') of
       (Some i, Some n, Some s, Some rn, Some h, Some im) \<Rightarrow> Some \<lparr>state_id = i, state_name = n, state_status = s,
         state_running = rn, state_health = h, state_image = im\<rparr>
     | _ \<Rightarrow> None)))"

datatype served = Answered platform_state | Refusal int | Forwarded engine_request | Spliced engine_request

definition serve_platform_inspect :: "policy \<Rightarrow> engine \<Rightarrow> engine_request \<Rightarrow> served option" where
  "serve_platform_inspect p engine r =
     (if call_method r \<noteq> ''GET'' \<or> call_raw_path r \<noteq> [] then None
      else case match_platform_inspect (strip_version (call_path r)) of None \<Rightarrow> None
      | Some name \<Rightarrow>
          if \<not> monitored_platform p name then None
          else if call_query r \<noteq> [] then Some (Refusal 403)
          else (case inspect engine (container_path name) decode_platform_state of
              Inl e \<Rightarrow> Some (Refusal (refusal_status e)) | Inr st \<Rightarrow> Some (Answered st)))"

definition is_exec_upgrade :: "engine_request \<Rightarrow> bool" where
  "is_exec_upgrade r \<longleftrightarrow> call_upgrade r \<and> call_method r = ''POST'' \<and>
     (case match_exec (strip_version (call_path r)) of None \<Rightarrow> False | Some (_, action) \<Rightarrow> action = ''start'')"

definition serve_http :: "sdk_names \<Rightarrow> policy \<Rightarrow> engine \<Rightarrow> bool \<Rightarrow> engine_request \<Rightarrow> served" where
  "serve_http sdk p engine can_dial r = (case serve_platform_inspect p engine r of Some answer \<Rightarrow> answer
     | None \<Rightarrow> (case authorize sdk p engine r of Inl e \<Rightarrow> Refusal (refusal_status e)
         | Inr checked \<Rightarrow> if can_dial \<and> is_exec_upgrade checked then Spliced checked else Forwarded checked))"

end
