(* ===== verification/Engine_Policy_Correct.thy ===== *)
theory Engine_Policy_Correct
  imports Engine_Proxy
begin

text \<open>
  What the engine is asked to do once the proxy has let a call through. The theorems speak of the body
  the way the engine reads it: names without regard to case, by \<open>engine_member\<close>.
\<close>

section \<open>Admitted creates, taken apart\<close>

lemma and_check_ok: "and_check a b = Inr () \<longleftrightarrow> a = Inr () \<and> b = Inr ()"
  by (cases a) auto

lemma passes_ok: "passes r c = Inr r' \<longleftrightarrow> c = Inr () \<and> r' = r"
  by (auto simp: passes_def bind_result_Inr_iff)

lemma require_ok: "require ok why = Inr () \<longleftrightarrow> ok"
  by auto

lemmas check_simps = and_check_ok require_ok each_ok bind_result_Inr_iff

lemma canonical_object:
  assumes "canonical_body doc = Inr body"
  obtains kvs where "body = JObj kvs" "unambiguous (JObj kvs)"
proof -
  obtain us where "body = sort_names (JObj us)" using canonical_shape [OF assms] .
  then show ?thesis using that canonical_unambiguous [OF assms] by simp
qed

lemma decode_map_object: "decode_map (JObj kvs) = Inr us \<longleftrightarrow> us = kvs \<and> numbers_fit (JObj kvs)"
  by (auto simp: decode_map_def as_struct_def)

text \<open>Every value inside an unambiguous document is unambiguous.\<close>

lemma unambiguous_member: "unambiguous (JObj kvs) \<Longrightarrow> engine_member kvs k = Some v \<Longrightarrow> unambiguous v"
  unfolding engine_member_def by (drule map_of_SomeD) force

lemma unambiguous_field: "unambiguous (JObj kvs) \<Longrightarrow> unambiguous (field_of kvs k)"
  unfolding field_of_def by (auto split: option.splits dest!: json_member_mem)

lemma unambiguous_parts:
  "unambiguous v \<Longrightarrow> unambiguous (JObj (as_object v))"
  "unambiguous v \<Longrightarrow> w \<in> set (as_list v) \<Longrightarrow> unambiguous w"
  "unambiguous v \<Longrightarrow> x \<in> set (as_object v) \<Longrightarrow> unambiguous (snd x)"
  by (cases v; auto simp: as_object_def as_list_def)+

lemma field_of_engine:
  assumes "unambiguous (JObj kvs)" "check_spelling what kvs names = Inr ()" "name \<in> set names"
  shows "engine_member kvs name = json_member kvs name" "engine_member kvs name = Some v \<Longrightarrow> field_of kvs name = v"
    "engine_member kvs name = None \<Longrightarrow> field_of kvs name = JNull"
  using checked_member [OF assms] by (simp_all add: field_of_def)

lemma check_create_ok:
  assumes "check_create sdk p name (JObj kvs) = Inr ()"
  obtains create host where "decode_create (JObj kvs) = Inr create" "check_name p name = Inr ()"
    "check_create_spelling sdk kvs = Inr ()" "engine_member kvs ''HostConfig'' = Some (JObj host)" "create_host create = Some host"
    "text_at (create_labels create) (managed_label p) = ''true''"
    "check_netns_join p (create_image create) host (create_endpoints create) = Inr ()"
    "check_cdc_network p (create_image create) (create_entrypoint create) host (create_endpoints create) = Inr ()"
    "\<And>f v. (f, v) \<in> set host \<Longrightarrow> check_host_config_field p f v = Inr ()"
    "\<And>x. x \<in> set (create_endpoints create) \<Longrightarrow> check_create_endpoint p create host x = Inr ()"
proof -
  from assms obtain create where c: "decode_create (JObj kvs) = Inr create" "check_name p name = Inr ()"
      "check_create_spelling sdk kvs = Inr ()" and rest: "check_created p create = Inr ()"
    unfolding check_create_def and_check_ok by (auto simp: bind_result_Inr_iff [of "decode_create (JObj kvs)"]
        bind_result_Inr_iff [of "decode_map (JObj kvs)"] decode_map_object and_check_ok)
  then obtain host where h: "create_host create = Some host" by (auto simp: check_created_def split: if_splits option.splits)
  with c(1) have "engine_member kvs ''HostConfig'' = Some (JObj host)"
    by (auto simp: decode_create_def bind_result_Inr_iff decode_map_object typed_def as_map_def split: option.splits json.splits)
  with c h rest show ?thesis
    by (intro that [of create host]) (auto simp: check_created_def and_check_ok each_ok split: if_splits)
qed

section \<open>What the engine reads in an admitted create\<close>

text \<open>The value the engine reads into a field, null where there is none; and so for fields of the HostConfig.\<close>

definition engine_value :: "json \<Rightarrow> string \<Rightarrow> json" where
  "engine_value v f = (case engine_member (as_object v) f of None \<Rightarrow> JNull | Some w \<Rightarrow> w)"

definition engine_host :: "json \<Rightarrow> (string \<times> json) list" where
  "engine_host body = as_object (engine_value body ''HostConfig'')"

definition engine_sets :: "json \<Rightarrow> string \<Rightarrow> json" where
  "engine_sets body f = engine_value (JObj (engine_host body)) f"

definition engine_text :: "json \<Rightarrow> string \<Rightarrow> string" where
  "engine_text v f = as_text (engine_value v f)"

lemma as_object_JObj [simp]: "as_object (JObj kvs) = kvs" "as_object JNull = []"
  by (simp_all add: as_object_def)

lemma engine_value_checked:
  assumes "unambiguous v" "check_spelling what (as_object v) names = Inr ()" "name \<in> set names"
  shows "engine_value v name = field_of (as_object v) name"
  using checked_member [OF unambiguous_parts(1) [OF assms(1)] assms(2,3)] by (simp add: engine_value_def field_of_def)

lemma typed_reads:
  "typed decode_string [] kvs k = Some t \<Longrightarrow> t = engine_text (JObj kvs) k"
  "typed as_struct [] kvs k = Some us \<Longrightarrow> us = as_object (engine_value (JObj kvs) k)"
  by (auto simp: typed_def engine_text_def engine_value_def decode_string_def as_text_def as_struct_def as_object_def
      split: option.splits json.splits)

lemma engine_text_checked:
  assumes "unambiguous v" "check_spelling what (as_object v) names = Inr ()" "name \<in> set names"
  shows "engine_text v name = as_text (field_of (as_object v) name)"
  unfolding engine_text_def engine_value_checked [OF assms] ..

lemma admitted_host:
  assumes "canonical_body doc = Inr body" "check_create sdk p name body = Inr ()" "''HostConfig'' \<in> set (create_request_names sdk)"
  shows "unambiguous (JObj (engine_host body))" "check_spelling ''HostConfig'' (engine_host body) (host_config_names sdk) = Inr ()"
    "check_mounts_spelling sdk (field_of (engine_host body) ''Mounts'') = Inr ()"
    "check_port_bindings_spelling sdk (field_of (engine_host body) ''PortBindings'') = Inr ()"
    "(f, v) \<in> set (engine_host body) \<Longrightarrow> check_host_config_field p f v = Inr ()"
proof -
  obtain kvs where b: "body = JObj kvs" "unambiguous (JObj kvs)" using canonical_object [OF assms(1)] .
  obtain create host where c: "check_create_spelling sdk kvs = Inr ()" "engine_member kvs ''HostConfig'' = Some (JObj host)"
      "\<And>f v. (f, v) \<in> set host \<Longrightarrow> check_host_config_field p f v = Inr ()"
    by (rule check_create_ok [OF assms(2) [unfolded b]]) blast
  have h: "engine_host body = host" using c(2) by (simp add: b engine_host_def engine_value_def)
  have "check_spelling ''container create'' kvs (create_request_names sdk) = Inr ()"
    using c(1) by (simp add: check_create_spelling_def and_check_ok Let_def)
  then have "field_of kvs ''HostConfig'' = JObj host" using field_of_engine [OF b(2) _ assms(3)] c(2) by blast
  then have "as_object (field_of kvs ''HostConfig'') = host" by simp
  with c(1) show "check_spelling ''HostConfig'' (engine_host body) (host_config_names sdk) = Inr ()"
    "check_mounts_spelling sdk (field_of (engine_host body) ''Mounts'') = Inr ()"
    "check_port_bindings_spelling sdk (field_of (engine_host body) ''PortBindings'') = Inr ()"
    by (simp_all add: check_create_spelling_def and_check_ok Let_def h)
  show "unambiguous (JObj (engine_host body))" using unambiguous_member [OF b(2) c(2)] by (simp add: h)
  show "(f, v) \<in> set (engine_host body) \<Longrightarrow> check_host_config_field p f v = Inr ()" using c(3) by (simp add: h)
qed

text \<open>Whatever the engine reads into a field of its API passed that field's check.\<close>

lemma engine_sets_field:
  assumes "canonical_body doc = Inr body" "check_create sdk p name body = Inr ()" "''HostConfig'' \<in> set (create_request_names sdk)"
    "f \<in> set (host_config_names sdk)"
  shows "engine_sets body f = field_of (engine_host body) f"
  unfolding engine_sets_def using engine_value_checked [OF admitted_host(1) [OF assms(1-3)] _ assms(4)]
    admitted_host(2) [OF assms(1-3)] by simp

lemma admitted_field:
  assumes "canonical_body doc = Inr body" "check_create sdk p name body = Inr ()" "''HostConfig'' \<in> set (create_request_names sdk)"
    "f \<in> set (host_config_names sdk)"
  shows "check_host_config_field p f (engine_sets body f) = Inr ()"
proof -
  have "check_host_config_field p f JNull = Inr ()" by (simp add: check_host_config_field_def is_unset_def)
  then show ?thesis unfolding engine_sets_field [OF assms] field_of_def
    by (auto split: option.splits dest!: json_member_mem intro: admitted_host(5) [OF assms(1-3)])
qed

text \<open>
  Claim C12. A container that the proxy lets be created sets no field of the engine's HostConfig, as the
  engine reads it, but the thirty the table admits: no privileged mode, host namespace, device,
  cgroup or sysctl, and no empty list that unmasks the kernel's paths.
\<close>

theorem created_sets_only_admitted:
  assumes "canonical_body doc = Inr body" "check_create sdk p name body = Inr ()" "''HostConfig'' \<in> set (create_request_names sdk)"
    "f \<in> set (host_config_names sdk)" "\<not> is_unset (engine_sets body f) \<or> f \<in> {''MaskedPaths'', ''ReadonlyPaths''} \<and> engine_sets body f \<noteq> JNull"
  shows "f \<in> {''PortBindings'', ''RestartPolicy'', ''Memory'', ''MemoryReservation'', ''MemorySwap'', ''MemorySwappiness'', ''NanoCpus'',
    ''CpuShares'', ''CpuQuota'', ''CpuPeriod'', ''PidsLimit'', ''Ulimits'', ''ShmSize'', ''CapDrop'', ''CapAdd'', ''Init'',
    ''ReadonlyRootfs'', ''AutoRemove'', ''Tmpfs'', ''ConsoleSize'', ''Binds'', ''Mounts'', ''NetworkMode'', ''Runtime'',
    ''SecurityOpt'', ''LogConfig'', ''IpcMode'', ''CgroupnsMode'', ''DnsSearch'', ''DnsOptions''}"
  using admitted_field [OF assms(1-4)] assms(5)
  by (auto simp: check_host_config_field_def host_config_field_def freely_set_def unmasking_fields_def split: if_splits)

text \<open>A field of the table that is set passed its own check.\<close>

lemma admitted_by:
  assumes "canonical_body doc = Inr body" "check_create sdk p name body = Inr ()" "''HostConfig'' \<in> set (create_request_names sdk)"
    "f \<in> set (host_config_names sdk)" "host_config_field p f = Some chk"
  shows "is_unset (engine_sets body f) \<or> chk (engine_sets body f) = Inr ()"
  using admitted_field [OF assms(1-4)] assms(5) by (auto simp: check_host_config_field_def split: if_splits)

lemma host_config_checks:
  "host_config_field p ''Binds'' = Some (check_binds p)" "host_config_field p ''Mounts'' = Some (check_mounts p)"
  "host_config_field p ''PortBindings'' = Some (check_port_bindings p)" "host_config_field p ''CapAdd'' = Some check_cap_add"
  "host_config_field p ''NetworkMode'' = Some (check_network_mode p)"
  by (simp_all add: host_config_field_def freely_set_def)

lemma string_list_ok: "string_list v = Inr ss \<Longrightarrow> v = JArr (map JStr ss)"
proof -
  assume "string_list v = Inr ss"
  then obtain vs where v: "v = JArr vs" "list_all (\<lambda>x. case x of JStr s \<Rightarrow> True | _ \<Rightarrow> False) vs" "ss = map as_text vs"
    by (cases v) (simp_all add: string_list_def split: if_splits)
  then have "map (\<lambda>x. JStr (as_text x)) vs = vs"
    by (intro map_idI) (auto simp: list_all_iff as_text_def split: json.splits)
  with v show ?thesis by (simp add: comp_def)
qed

lemma unset_empty: "is_unset v \<Longrightarrow> as_list v = [] \<and> as_object v = [] \<and> as_text v = []"
  by (cases v) (auto simp: is_unset_def as_list_def as_object_def as_text_def split: list.splits)

definition under_volume_prefix :: "policy \<Rightarrow> string \<Rightarrow> bool" where
  "under_volume_prefix p name \<longleftrightarrow> volume_prefix p \<noteq> [] \<and> prefix (volume_prefix p) name \<and> name \<noteq> volume_prefix p"

lemma only_fields_unset: "only_fields what kvs names = Inr () \<Longrightarrow> f \<notin> set names \<Longrightarrow> is_unset (field_of kvs f)"
proof -
  assume ok: "only_fields what kvs names = Inr ()" and f: "f \<notin> set names"
  have "is_unset v" if "(f, v) \<in> set kvs" for v
    using ok f that by (force simp: only_fields_def each_ok split: if_splits)
  then show ?thesis unfolding field_of_def by (auto simp: is_unset_def split: option.splits dest!: json_member_mem)
qed

text \<open>
  Claim C13. What an admitted container mounts, as the engine reads it. Every bind is text whose source is longer than
  the volume prefix, begins with it and holds no slash or backslash. Every mount is a tmpfs, or a volume that is
  unnamed (the engine makes a new one) or named under the prefix; it is never of type bind, sets no field
  but the seven admitted ones, in particular no bind, image or cluster option, and in its volume options nothing
  but the copy flag and labels: no driver and no driver option. The source of a mount is compared with
  the prefix only, whatever characters follow it.
\<close>

theorem created_mounts_confined:
  assumes "canonical_body doc = Inr body" "check_create sdk p name body = Inr ()" "''HostConfig'' \<in> set (create_request_names sdk)"
    "{''Binds'', ''Mounts''} \<subseteq> set (host_config_names sdk)" "{''Type'', ''Source'', ''VolumeOptions''} \<subseteq> set (mount_names sdk)"
  shows "(\<forall>b \<in> set (as_list (engine_sets body ''Binds'')). \<exists>s. b = JStr s \<and> under_volume_prefix p (bind_source s) \<and>
      set (bind_source s) \<inter> {CHR ''/'', CHR 0x5C} = {}) \<and>
    (\<forall>m \<in> set (as_list (engine_sets body ''Mounts'')).
      (engine_text m ''Type'' = ''tmpfs'' \<or>
       engine_text m ''Type'' = ''volume'' \<and> (engine_text m ''Source'' = [] \<or> under_volume_prefix p (engine_text m ''Source''))) \<and>
      (\<forall>f \<in> set (mount_names sdk) - {''Type'', ''Source'', ''Target'', ''ReadOnly'', ''Consistency'', ''VolumeOptions'', ''TmpfsOptions''}.
         is_unset (engine_value m f)) \<and>
      (\<forall>f \<in> set (volume_options_names sdk) - {''NoCopy'', ''Labels''}. is_unset (engine_value (engine_value m ''VolumeOptions'') f)))"
proof (intro conjI ballI)
  fix b assume b: "b \<in> set (as_list (engine_sets body ''Binds''))"
  then have "check_binds p (engine_sets body ''Binds'') = Inr ()"
    using admitted_by [OF assms(1-3) _ host_config_checks(1)] assms(4) unset_empty by fastforce
  then obtain ss where ss: "string_list (engine_sets body ''Binds'') = Inr ss" "\<forall>s \<in> set ss. check_bind p s = Inr ()"
    by (auto simp: check_binds_def bind_result_Inr_iff each_ok)
  then obtain s where "b = JStr s" "check_bind p s = Inr ()" using b string_list_ok [OF ss(1)] by (auto simp: as_list_def)
  then show "\<exists>s. b = JStr s \<and> under_volume_prefix p (bind_source s) \<and> set (bind_source s) \<inter> {CHR ''/'', CHR 0x5C} = {}"
    by (auto simp: check_bind_def check_volume_name_def under_volume_prefix_def Let_def list_ex_iff split: if_splits)
next
  fix m assume m: "m \<in> set (as_list (engine_sets body ''Mounts''))"
  let ?v = "engine_sets body ''Mounts''"
  have v: "?v = field_of (engine_host body) ''Mounts''" using engine_sets_field [OF assms(1-3)] assms(4) by auto
  have "check_mounts p ?v = Inr ()"
    using admitted_by [OF assms(1-3) _ host_config_checks(2)] assms(4) m unset_empty by fastforce
  then have ok: "check_mount p m = Inr ()" using m by (auto simp: check_mounts_def each_ok as_list_def split: json.splits)
  have um: "unambiguous m" using m unambiguous_parts(2) unambiguous_field [OF admitted_host(1) [OF assms(1-3)]] by (metis v)
  have sp: "check_spelling ''mount'' (as_object m) (mount_names sdk) = Inr ()"
    "check_spelling (''mount '' @ ''VolumeOptions'') (as_object (field_of (as_object m) ''VolumeOptions'')) (volume_options_names sdk) = Inr ()"
    using bspec [OF admitted_host(3) [OF assms(1-3), unfolded check_mounts_spelling_def each_ok] m [unfolded v]]
    unfolding Let_def and_check_ok each_ok by simp_all
  note read = engine_value_checked [OF um sp(1)]
  have o: "engine_value m ''VolumeOptions'' = field_of (as_object m) ''VolumeOptions''" using read assms(5) by auto
  have uo: "unambiguous (field_of (as_object m) ''VolumeOptions'')"
    by (rule unambiguous_field [OF unambiguous_parts(1) [OF um]])
  have "engine_text m ''Type'' = as_text (field_of (as_object m) ''Type'')"
    "engine_text m ''Source'' = as_text (field_of (as_object m) ''Source'')"
    using engine_text_checked [OF um sp(1)] assms(5) by auto
  moreover have fields: "check_mount_fields (as_object m) = Inr ()" using ok by (simp add: check_mount_def Let_def and_check_ok)
  moreover have "is_unset (engine_value m f)" if "f \<in> set (mount_names sdk)" "f \<notin> set mount_fields" for f
    using fields that by (auto simp: read check_mount_fields_def Let_def and_check_ok dest: only_fields_unset)
  moreover have "is_unset (engine_value (engine_value m ''VolumeOptions'') f)"
    if "f \<in> set (volume_options_names sdk)" "f \<notin> set [''NoCopy'', ''Labels'']" for f
    using fields that unfolding o engine_value_checked [OF uo sp(2) that(1)]
    by (auto simp: check_mount_fields_def Let_def and_check_ok simp del: set_simps dest: only_fields_unset)
  ultimately show "(engine_text m ''Type'' = ''tmpfs'' \<or> engine_text m ''Type'' = ''volume'' \<and>
      (engine_text m ''Source'' = [] \<or> under_volume_prefix p (engine_text m ''Source'')))"
    "\<And>f. f \<in> set (mount_names sdk) - {''Type'', ''Source'', ''Target'', ''ReadOnly'', ''Consistency'', ''VolumeOptions'', ''TmpfsOptions''} \<Longrightarrow>
       is_unset (engine_value m f)"
    "\<And>f. f \<in> set (volume_options_names sdk) - {''NoCopy'', ''Labels''} \<Longrightarrow> is_unset (engine_value (engine_value m ''VolumeOptions'') f)"
    using ok by (auto simp: check_mount_def Let_def and_check_ok check_volume_name_def under_volume_prefix_def mount_fields_def split: if_splits)
qed

text \<open>
  Every port an admitted container publishes, as the engine reads it, is bound to one of the
  policy's addresses, and a host port it names is the plain decimal of a number in the tenant range.
\<close>

theorem created_ports_confined:
  assumes "canonical_body doc = Inr body" "check_create sdk p name body = Inr ()" "''HostConfig'' \<in> set (create_request_names sdk)"
    "''PortBindings'' \<in> set (host_config_names sdk)" "{''HostIp'', ''HostPort''} \<subseteq> set (port_binding_names sdk)"
    "(port, entries) \<in> set (as_object (engine_sets body ''PortBindings''))" "b \<in> set (as_list entries)"
  shows "engine_text b ''HostIp'' \<in> set (port_bind_ips p) \<and> (engine_text b ''HostPort'' = [] \<or>
    (\<exists>n. 0 < fst (host_ports p) \<and> fst (host_ports p) \<le> n \<and> n \<le> snd (host_ports p) \<and> engine_text b ''HostPort'' = itoa n))"
proof -
  let ?v = "engine_sets body ''PortBindings''"
  have v: "?v = field_of (engine_host body) ''PortBindings''" using engine_sets_field [OF assms(1-4)] .
  have "check_port_bindings p ?v = Inr ()"
    using admitted_by [OF assms(1-4) host_config_checks(3)] assms(6) unset_empty by fastforce
  then have ok: "check_port_binding p b = Inr ()"
    using assms(6,7) by (fastforce simp: check_port_bindings_def each_ok as_object_def split: json.splits)
  have "unambiguous b"
    using unambiguous_parts(2) [OF unambiguous_parts(3) [OF _ assms(6), simplified] assms(7)]
      unambiguous_field [OF admitted_host(1) [OF assms(1-3)]] by (metis v)
  moreover have "check_spelling ''port binding'' (as_object b) (port_binding_names sdk) = Inr ()"
    using assms(6,7) admitted_host(4) [OF assms(1-3)] by (fastforce simp: v check_port_bindings_spelling_def each_ok)
  ultimately have t: "engine_text b ''HostIp'' = as_text (field_of (as_object b) ''HostIp'')"
    "engine_text b ''HostPort'' = as_text (field_of (as_object b) ''HostPort'')"
    using engine_text_checked assms(5) by auto
  show ?thesis unfolding t using ok
    by (auto simp: check_port_binding_def Let_def and_check_ok host_port_admits_def split: if_splits prod.splits option.splits)
qed

text \<open>The networks the engine reads.\<close>

definition engine_networks :: "json \<Rightarrow> (string \<times> json) list" where
  "engine_networks body = as_object (engine_value (engine_value body ''NetworkingConfig'') ''EndpointsConfig'')"

lemma decode_create_reads:
  assumes "decode_create (JObj kvs) = Inr create"
  shows "create_image create = engine_text (JObj kvs) ''Image''" "create_endpoints create = engine_networks (JObj kvs)"
    "create_entrypoint create = engine_value (JObj kvs) ''Entrypoint''"
proof -
  from assms obtain im ls host net eps where
    t: "typed decode_string [] kvs ''Image'' = Some im" "typed as_struct [] kvs ''NetworkingConfig'' = Some net"
      "typed as_struct [] net ''EndpointsConfig'' = Some eps"
    and c: "create = \<lparr>create_image = im, create_entrypoint = engine_value (JObj kvs) ''Entrypoint'',
      create_labels = ls, create_host = host, create_endpoints = eps\<rparr>"
    unfolding decode_create_def bind_result_Inr_iff decode_map_object engine_value_def
    by (auto split: option.splits elim!: bind_eq_Some_conv [THEN iffD1, elim_format])
  have "engine_networks (JObj kvs) = as_object (engine_value (JObj net) ''EndpointsConfig'')"
    using typed_reads(2) [OF t(2)] by (simp add: engine_networks_def engine_value_def)
  with c typed_reads(1) [OF t(1)] typed_reads(2) [OF t(3)] show "create_image create = engine_text (JObj kvs) ''Image''"
    "create_endpoints create = engine_networks (JObj kvs)" "create_entrypoint create = engine_value (JObj kvs) ''Entrypoint''"
    by simp_all
qed

lemma engine_host_object: "engine_member kvs ''HostConfig'' = Some (JObj host) \<Longrightarrow> engine_host (JObj kvs) = host"
  by (simp add: engine_host_def engine_value_def)

text \<open>
  An admitted container joins no network but those the policy allows and, when its image is a
  listed watcher that publishes no port and keeps its entrypoint, the bus network. It may answer to
  another name only on one project network that is its only one, and then to exactly one service name.
\<close>

theorem created_networks_confined:
  assumes "canonical_body doc = Inr body" "check_create sdk p name body = Inr ()" "''HostConfig'' \<in> set (create_request_names sdk)"
    "{''NetworkMode'', ''PortBindings''} \<subseteq> set (host_config_names sdk)" "(net, e) \<in> set (engine_networks body)"
  shows "(network_allowed p net \<or> cdc_network_admitted p net (engine_text body ''Image'')) \<and>
    (net = cdc_network p \<and> net \<noteq> [] \<longrightarrow> engine_text body ''Image'' \<in> set (cdc_images p) \<and> is_zero (engine_sets body ''PortBindings'') \<and> is_zero (engine_value body ''Entrypoint'')) \<and>
    (\<not> is_zero e \<longrightarrow> engine_networks body = [(net, e)] \<and> under_network_prefix p net \<and>
      as_text (engine_sets body ''NetworkMode'') = net \<and> check_service_alias p e = Inr ())"
proof -
  obtain kvs where b: "body = JObj kvs" "unambiguous (JObj kvs)" using canonical_object [OF assms(1)] .
  obtain create host where c: "decode_create (JObj kvs) = Inr create" "engine_member kvs ''HostConfig'' = Some (JObj host)"
      "check_cdc_network p (create_image create) (create_entrypoint create) host (create_endpoints create) = Inr ()"
      "\<And>x. x \<in> set (create_endpoints create) \<Longrightarrow> check_create_endpoint p create host x = Inr ()"
    by (rule check_create_ok [OF assms(2) [unfolded b]]) blast
  note r = decode_create_reads [OF c(1)]
  have h: "engine_host body = host" using engine_host_object [OF c(2)] b by simp
  have f: "engine_sets body ''PortBindings'' = field_of host ''PortBindings''" "engine_sets body ''NetworkMode'' = field_of host ''NetworkMode''"
    using engine_sets_field [OF assms(1-3)] assms(4) by (auto simp: h)
  have ep: "check_create_endpoint p create host (net, e) = Inr ()" using c(4) assms(5) by (simp add: r b)
  have one: "length (engine_networks body) = 1 \<Longrightarrow> engine_networks body = [(net, e)]"
    using assms(5) by (cases "engine_networks body") auto
  have bus: "check_cdc_network p (engine_text body ''Image'') (engine_value body ''Entrypoint'') host (engine_networks body) = Inr ()"
    using c(3) by (simp add: r b)
  have "net = cdc_network p \<and> net \<noteq> [] \<Longrightarrow> engine_text body ''Image'' \<in> set (cdc_images p) \<and> is_zero (field_of host ''PortBindings'') \<and>
      is_zero (engine_value body ''Entrypoint'')"
  proof -
    assume "net = cdc_network p \<and> net \<noteq> []"
    moreover from this have "cdc_network p \<in> fst ` set (engine_networks body)" using assms(5) by (metis fst_conv imageI)
    ultimately show ?thesis using bus by (simp add: check_cdc_network_def split: if_splits)
  qed
  moreover have "\<not> is_zero e \<Longrightarrow> engine_networks body = [(net, e)] \<and> under_network_prefix p net \<and>
      as_text (field_of host ''NetworkMode'') = net \<and> check_service_alias p e = Inr ()"
    using ep one by (auto simp: check_create_endpoint_def check_endpoint_def r b split: if_splits)
  moreover have "network_allowed p net \<or> cdc_network_admitted p net (engine_text body ''Image'')"
    using ep by (auto simp: check_create_endpoint_def r b split: if_splits)
  ultimately show ?thesis unfolding f by blast
qed

text \<open>
  A container joins another's network namespace only if its image is on the operator's list;
  the mode then names a container by a plain reference, and the newcomer publishes nothing and joins no network.
\<close>

theorem namespace_join_confined:
  assumes "canonical_body doc = Inr body" "check_create sdk p name body = Inr ()" "''HostConfig'' \<in> set (create_request_names sdk)"
    "{''NetworkMode'', ''PortBindings''} \<subseteq> set (host_config_names sdk)"
    "as_text (engine_sets body ''NetworkMode'') = ''container:'' @ target" "\<not> network_allowed p (''container:'' @ target)"
  shows "engine_text body ''Image'' \<in> set (netns_join_images p) \<and> is_ref target \<and> is_zero (engine_sets body ''PortBindings'') \<and>
    engine_networks body = [] \<and> netns_join_target body = target"
proof -
  obtain kvs where b: "body = JObj kvs" "unambiguous (JObj kvs)" using canonical_object [OF assms(1)] .
  obtain create host where c: "decode_create (JObj kvs) = Inr create" "engine_member kvs ''HostConfig'' = Some (JObj host)"
      "check_netns_join p (create_image create) host (create_endpoints create) = Inr ()"
    by (rule check_create_ok [OF assms(2) [unfolded b]]) blast
  note r = decode_create_reads [OF c(1)]
  have h: "engine_host body = host" using engine_host_object [OF c(2)] b by simp
  have f: "engine_sets body ''PortBindings'' = field_of host ''PortBindings''" "engine_sets body ''NetworkMode'' = field_of host ''NetworkMode''"
    using engine_sets_field [OF assms(1-3)] assms(4) by (auto simp: h)
  have set: "\<not> is_unset (engine_sets body ''NetworkMode'')" using assms(5) unset_empty by fastforce
  have j: "netns_join (field_of host ''NetworkMode'') = Some target"
    using assms(5) by (simp add: netns_join_def f cut_prefix_Some)
  have "check_network_mode p (engine_sets body ''NetworkMode'') = Inr ()"
    using admitted_by [OF assms(1-3) _ host_config_checks(5)] assms(4) set by auto
  then have "netns_join_images p \<noteq> []"
    using assms(5,6) by (auto simp: check_network_mode_def Let_def netns_join_admitted_def split: if_splits)
  then have "engine_text body ''Image'' \<in> set (netns_join_images p) \<and> is_ref target \<and> is_zero (field_of host ''PortBindings'') \<and> engine_networks body = []"
    using c(3) j by (auto simp: check_netns_join_def r b split: if_splits)
  moreover have "decode_map body = Inr kvs" using c(1) by (auto simp: b decode_create_def bind_result_Inr_iff decode_map_object)
  then have "netns_join_target body = target" using c(2) j by (simp add: netns_join_target_def typed_def as_map_def)
  ultimately show ?thesis unfolding f by blast
qed

section \<open>A concrete create\<close>

definition sample_policy :: policy where
  "sample_policy = \<lparr>managed_label = ''excalibase.managed'', networks = [], network_prefix = ''net-'', port_bind_ips = [''10.0.0.1''],
     host_ports = (20, 30), volume_prefix = ''vol-'', runtimes = [], container_prefix = ''ex-'', edge_container = ''edge'',
     edge_aliases = [''api.example''], netns_join_images = [''gate''], cdc_network = ''bus'', cdc_images = [''watcher''],
     stats_containers = [''ex-studio'']\<rparr>"

definition sample_sdk :: sdk_names where
  "sample_sdk = \<lparr>create_request_names = [''Image'', ''Labels'', ''HostConfig'', ''NetworkingConfig''],
     host_config_names = [''Binds'', ''Mounts'', ''PortBindings'', ''NetworkMode'', ''Privileged''],
     networking_config_names = [''EndpointsConfig''], endpoint_names = [''Aliases''], mount_names = [''Type'', ''Source'', ''VolumeOptions''],
     volume_options_names = [''NoCopy'', ''Labels'', ''DriverConfig''], tmpfs_options_names = [], bind_options_names = [], port_binding_names = [''HostIp'', ''HostPort''],
     log_config_names = [], exec_names = [''Privileged''], network_create_names = [''Name''], volume_create_names = [''Name''],
     connect_names = [''Container'', ''EndpointConfig''], disconnect_names = [''Container'', ''Force'']\<rparr>"

definition sample_labels :: json where
  "sample_labels = JObj [(''excalibase.managed'', JStr ''true''), (''excalibase.project'', JStr ''a'')]"

definition sample_endpoint :: json where
  "sample_endpoint = JObj [(''Aliases'', JArr [JStr ''web.apps.internal''])]"

definition sample_create :: json where
  "sample_create = JObj [(''HostConfig'', JObj [(''Binds'', JArr [JStr ''vol-a:/data'']),
       (''Mounts'', JArr [JObj [(''Source'', JStr ''vol-b''), (''Type'', JStr ''volume'')]]), (''NetworkMode'', JStr ''net-a''),
       (''PortBindings'', JObj [(''5432/tcp'', JArr [JObj [(''HostIp'', JStr ''10.0.0.1''), (''HostPort'', JStr ''25'')]])])]),
     (''Image'', JStr ''app''), (''Labels'', sample_labels),
     (''NetworkingConfig'', JObj [(''EndpointsConfig'', JObj [(''net-a'', sample_endpoint)])])]"

definition sample_join :: json where
  "sample_join = JObj [(''HostConfig'', JObj [(''NetworkMode'', JStr ''container:ex-db'')]), (''Image'', JStr ''gate''), (''Labels'', sample_labels)]"

lemma sample_admitted:
  "canonical_body (Some sample_create) = Inr sample_create" "canonical_body (Some sample_join) = Inr sample_join"
  "check_create sample_sdk sample_policy ''ex-1'' sample_create = Inr ()"
  "check_create sample_sdk sample_policy ''ex-1'' sample_join = Inr ()"
  "''HostConfig'' \<in> set (create_request_names sample_sdk)"
  by code_simp+

lemma created_sets_only_admitted_witness:
  "\<not> is_unset (engine_sets sample_create ''Binds'') \<and> ''Binds'' \<in> {''PortBindings'', ''RestartPolicy'', ''Memory'', ''MemoryReservation'',
    ''MemorySwap'', ''MemorySwappiness'', ''NanoCpus'', ''CpuShares'', ''CpuQuota'', ''CpuPeriod'', ''PidsLimit'', ''Ulimits'', ''ShmSize'',
    ''CapDrop'', ''CapAdd'', ''Init'', ''ReadonlyRootfs'', ''AutoRemove'', ''Tmpfs'', ''ConsoleSize'', ''Binds'', ''Mounts'',
    ''NetworkMode'', ''Runtime'', ''SecurityOpt'', ''LogConfig'', ''IpcMode'', ''CgroupnsMode'', ''DnsSearch'', ''DnsOptions''}"
proof -
  have f: "''Binds'' \<in> set (host_config_names sample_sdk)" by code_simp
  have u: "\<not> is_unset (engine_sets sample_create ''Binds'')" by code_simp
  show ?thesis using u created_sets_only_admitted [OF sample_admitted(1,3,5) f disjI1 [OF u]] by blast
qed

lemma created_mounts_confined_witness:
  "as_list (engine_sets sample_create ''Binds'') = [JStr ''vol-a:/data''] \<and> under_volume_prefix sample_policy (bind_source ''vol-a:/data'')"
proof -
  have n: "{''Binds'', ''Mounts''} \<subseteq> set (host_config_names sample_sdk)" "{''Type'', ''Source'', ''VolumeOptions''} \<subseteq> set (mount_names sample_sdk)"
    by code_simp+
  have b: "as_list (engine_sets sample_create ''Binds'') = [JStr ''vol-a:/data'']" by code_simp
  show ?thesis using created_mounts_confined [OF sample_admitted(1,3,5) n] unfolding b by auto
qed

lemma created_ports_confined_witness:
  "engine_text (JObj [(''HostIp'', JStr ''10.0.0.1''), (''HostPort'', JStr ''25'')]) ''HostIp'' \<in> set (port_bind_ips sample_policy)"
proof -
  have n: "''PortBindings'' \<in> set (host_config_names sample_sdk)" "{''HostIp'', ''HostPort''} \<subseteq> set (port_binding_names sample_sdk)"
    by code_simp+
  have e: "(''5432/tcp'', JArr [JObj [(''HostIp'', JStr ''10.0.0.1''), (''HostPort'', JStr ''25'')]]) \<in>
      set (as_object (engine_sets sample_create ''PortBindings''))" by code_simp
  show ?thesis using created_ports_confined [OF sample_admitted(1,3,5) n e, of "JObj [(''HostIp'', JStr ''10.0.0.1''), (''HostPort'', JStr ''25'')]"]
    by (simp add: as_list_def)
qed

lemma created_networks_confined_witness:
  "check_service_alias sample_policy sample_endpoint = Inr () \<and> network_allowed sample_policy ''net-a''"
proof -
  have n: "{''NetworkMode'', ''PortBindings''} \<subseteq> set (host_config_names sample_sdk)" by code_simp
  have e: "(''net-a'', sample_endpoint) \<in> set (engine_networks sample_create)" by code_simp
  have "\<not> is_zero sample_endpoint" "\<not> cdc_network_admitted sample_policy ''net-a'' (engine_text sample_create ''Image'')" by code_simp+
  with created_networks_confined [OF sample_admitted(1,3,5) n e] show ?thesis by blast
qed

lemma namespace_join_confined_witness:
  "engine_text sample_join ''Image'' \<in> set (netns_join_images sample_policy) \<and> netns_join_target sample_join = ''ex-db''"
proof -
  have n: "{''NetworkMode'', ''PortBindings''} \<subseteq> set (host_config_names sample_sdk)" by code_simp
  have e: "as_text (engine_sets sample_join ''NetworkMode'') = ''container:'' @ ''ex-db''"
    "\<not> network_allowed sample_policy (''container:'' @ ''ex-db'')" by code_simp+
  show ?thesis using namespace_join_confined [OF sample_admitted(2,4,5) n e] by blast
qed

text \<open>
  An option with an empty value hides from the test of the engine's zero values: a driver option in the
  settings of an endpoint, or of a new volume, passes although the engine reads one option.
\<close>

lemma empty_option_admitted:
  "check_endpoint sample_policy ''net-a'' (JObj [(''DriverOpts'', JObj [(''com.example.option'', JStr [])])]) [] 2 = Inr ()"
  "check_fields ''volume create'' [(''DriverOpts'', JObj [(''device'', JStr [])])] volume_create_fields = Inr ()"
  "\<not> is_unset (JObj [(''device'', JStr [])])"
  by code_simp+

end
