(* ===== verification/Engine_Proxy_Correct.thy ===== *)
theory Engine_Proxy_Correct
  imports Engine_Policy_Correct
begin

text \<open>
  What a call that reached the engine, or an exec stream that was spliced to it, entails: whom it
  addresses, which volumes it mounts and who joins a network. The facts about the engine are the answers it gave the proxy.
\<close>

section \<open>Forwarded calls, taken apart\<close>

definition let_through :: "served \<Rightarrow> engine_request \<Rightarrow> bool" where
  "let_through s r \<longleftrightarrow> s = Forwarded r \<or> s = Spliced r"

definition managed_container :: "policy \<Rightarrow> engine \<Rightarrow> string \<Rightarrow> bool" where
  "managed_container p engine name = (case engine (container_path name) of Some (status, Some v) \<Rightarrow>
       status = 200 \<and> (case container_labels v of None \<Rightarrow> False | Some ls \<Rightarrow> text_at ls (managed_label p) = ''true'')
     | _ \<Rightarrow> False)"

lemma inspect_ok: "inspect engine path into = Inr x \<longleftrightarrow> (\<exists>v. engine path = Some (200, Some v) \<and> into v = Some x)"
  by (auto simp: inspect_def bind_eq_Some_conv split: option.splits prod.splits if_splits)

lemma require_managed_ok: "require_managed p engine name = Inr () \<longleftrightarrow> managed_container p engine name"
  by (auto simp: require_managed_def managed_container_def bind_result_Inr_iff inspect_ok split: option.splits prod.splits if_splits)

lemma check_body_ok:
  assumes "check_body r chk = Inr r'"
  obtains doc checked where "canonical_body doc = Inr checked" "chk checked = Inr ()" "r' = r\<lparr>call_body := Checked checked\<rparr>"
  using assms by (auto simp: check_body_def bind_result_Inr_iff split: request_body.splits if_splits)

lemma let_through_authorized:
  assumes "let_through (serve_http sdk p engine can_dial r) r'"
  shows "authorize sdk p engine r = Inr r'"
proof -
  have "serve_platform_inspect p engine r \<noteq> Some (Forwarded x)" "serve_platform_inspect p engine r \<noteq> Some (Spliced x)" for x
    unfolding serve_platform_inspect_def by (auto split: option.split_asm sum.split_asm if_split_asm)
  with assms show ?thesis
    by (cases "serve_platform_inspect p engine r"; cases "authorize sdk p engine r")
       (auto simp: let_through_def serve_http_def split: if_splits)
qed

section \<open>Paths\<close>

lemma ref_after_Some: "ref_after pre api = Some (name, rest) \<Longrightarrow> api = pre @ name @ rest \<and> is_ref name"
proof -
  assume "ref_after pre api = Some (name, rest)"
  then obtain s where s: "api = pre @ s" "name = takeWhile ref_char s" "rest = drop (length name) s" "is_ref name"
    by (auto simp: ref_after_def bind_eq_Some_conv cut_prefix_Some Let_def split: if_splits)
  then have "take (length name) s = name" by (simp only: takeWhile_eq_take [symmetric])
  then have "s = name @ rest" using append_take_drop_id [of "length name" s] s(3) by simp
  with s(1,4) show ?thesis by simp
qed

lemma match_container_Some: "match_container api = Some (name, action) \<Longrightarrow>
    api = ''/containers/'' @ name @ action \<and> is_ref name \<and>
    (action = [] \<or> hd action = CHR ''/'' \<and> tl action \<noteq> [] \<and> list_all is_lower_letter (tl action))"
  by (auto simp: match_container_def bind_eq_Some_conv dest!: ref_after_Some split: if_splits)

lemma match_network_Some: "match_network api = Some (name, action) \<Longrightarrow> api = ''/networks/'' @ name @ action \<and> is_ref name"
  by (auto simp: match_network_def bind_eq_Some_conv dest!: ref_after_Some split: if_splits)

lemma match_exec_Some: "match_exec api = Some (name, action) \<Longrightarrow>
    api = ''/exec/'' @ name @ ''/'' @ action \<and> is_ref name \<and> (action = ''start'' \<or> action = ''json'')"
  by (auto simp: match_exec_def bind_eq_Some_conv dest!: ref_after_Some split: if_splits)

lemma ref_after_other: "length pre \<le> length api \<Longrightarrow> take (length pre) api \<noteq> pre \<Longrightarrow> ref_after pre api = None"
  by (auto simp: ref_after_def cut_prefix_def prefix_def)

lemma is_ref_not_nil [simp]: "\<not> is_ref []"
  by (simp add: is_ref_def)

lemma action_apart:
  assumes "action = [] \<or> hd action = CHR ''/'' \<and> P" "CHR ''/'' \<notin> set w"
  shows "name @ action = w \<longleftrightarrow> action = [] \<and> name = w"
  using assms by (cases action) auto

lemma strip_match_start:
  "match_container api = Some x \<Longrightarrow> prefix ''/containers/'' api" "match_exec api = Some y \<Longrightarrow> prefix ''/exec/'' api"
  by (cases x, auto dest: match_container_Some) (cases y, auto dest: match_exec_Some)

lemma apps_other:
  assumes "prefix ''/containers/'' api \<or> prefix ''/exec/'' api" "\<not> (api = ''/containers/json'' \<and> call_method r = ''GET'')"
  shows "authorize_apps sdk p engine r api = None"
proof -
  have "match_network api = None" "match_volume api = None"
    using assms(1) by (auto simp: match_network_def match_volume_def prefix_def ref_after_def cut_prefix_def)
  then show ?thesis using assms by (auto simp: authorize_apps_def prefix_def)
qed

lemma authorize_by_id:
  assumes "authorize sdk p engine r = Inr r'" "strip_version (call_path r) = api" "prefix ''/containers/'' api \<or> prefix ''/exec/'' api"
    "api \<noteq> ''/containers/create''" "api \<noteq> ''/containers/json''"
  shows "(case match_exec api of Some (name, action) \<Rightarrow> authorize_exec p engine r name action
    | None \<Rightarrow> (case match_container api of Some (name, action) \<Rightarrow> authorize_container sdk p engine r name action
      | None \<Rightarrow> Inl (Refused ''not a call provisioning makes''))) = Inr r'"
proof -
  have other: "api \<noteq> ''/_ping''" "api \<noteq> ''/version''" "api \<noteq> ''/images/json''" "api \<noteq> ''/images/create''"
    using assms(3) by (auto simp: prefix_def)
  have apps: "authorize_apps sdk p engine r api = None" using assms(3,5) by (intro apps_other) auto
  have "\<not> (path_clean (call_path r) \<noteq> call_path r \<or> call_raw_path r \<noteq> [])"
    using assms(1) unfolding authorize_def Let_def by (rule contrapos_pn) simp
  then show ?thesis using assms(1)
    by (simp only: authorize_def Let_def assms(2) other assms(4) apps if_False simp_thms option.case)
qed

text \<open>
  Claim C14. A call on a container reaches the engine only if the method and action are among the twelve
  of the table and the engine itself says that the container carries the managed label; the one
  exception is one sample of the statistics of a platform container the policy names.
\<close>

theorem forwarded_container_managed:
  assumes "let_through (serve_http sdk p engine can_dial r) r'"
    "match_container (strip_version (call_path r)) = Some (name, action)" "name \<noteq> ''create''" "name \<noteq> ''json''"
  shows "(call_method r, action) \<in> fst ` set container_routes \<and> call_path r' = call_path r \<and> call_method r' = call_method r \<and>
    (managed_container p engine name \<or> action = ''/stats'' \<and> monitored_platform p name \<and> stats_query (call_query r) = Inr ())"
proof -
  let ?api = "strip_version (call_path r)"
  have api: "?api = ''/containers/'' @ name @ action" "is_ref name"
      "action = [] \<or> hd action = CHR ''/'' \<and> tl action \<noteq> [] \<and> list_all is_lower_letter (tl action)"
    using match_container_Some [OF assms(2)] by auto
  have n: "?api \<noteq> ''/containers/create''" "?api \<noteq> ''/containers/json''"
    using action_apart [OF api(3), where name = name] assms(3,4) unfolding api(1) by auto
  have "match_exec ?api = None" unfolding api(1) by (simp add: match_exec_def ref_after_def cut_prefix_def)
  moreover have "prefix ''/containers/'' ?api" unfolding api(1) by simp
  ultimately have a: "authorize_container sdk p engine r name action = Inr r'"
    using authorize_by_id [OF let_through_authorized [OF assms(1)] refl _ n] assms(2) by simp
  then obtain kind where k: "map_of container_routes (call_method r, action) = Some kind"
    by (auto simp: authorize_container_def split: if_splits option.splits)
  have e: "((call_method r, action), kind) \<in> set container_routes" by (rule map_of_SomeD [OF k])
  then have m: "(call_method r, action) \<in> fst ` set container_routes" by (rule image_eqI [rotated]) simp
  show ?thesis
  proof (cases "kind = Stats")
    case True
    then have "action = ''/stats''" using e by (simp add: container_routes_def)
    with a k m True show ?thesis
      by (auto simp: authorize_container_def authorize_stats_def passes_ok and_check_ok require_managed_ok split: if_splits)
  next
    case False
    with a k m show ?thesis
      by (cases kind) (auto simp: authorize_container_def bind_result_Inr_iff require_managed_ok passes_ok elim!: check_body_ok
          split: if_splits list.splits)
  qed
qed

text \<open>
  An exec is started, or its raw stream spliced, only when the engine answers for that exec with
  a container which it then says is managed.
\<close>

theorem forwarded_exec_managed:
  assumes "let_through (serve_http sdk p engine can_dial r) r'" "match_exec (strip_version (call_path r)) = Some (name, action)"
  shows "\<exists>container. inspect engine (''/exec/'' @ name @ ''/json'') exec_container = Inr container \<and> managed_container p engine container \<and>
    r' = r \<and> (call_method r = ''POST'' \<and> action = ''start'' \<or> call_method r = ''GET'' \<and> action = ''json'')"
proof -
  have "strip_version (call_path r) = ''/exec/'' @ name @ ''/'' @ action" using match_exec_Some [OF assms(2)] by simp
  then have "authorize_exec p engine r name action = Inr r'"
    using authorize_by_id [OF let_through_authorized [OF assms(1)] refl] assms(2) by simp
  then have a: "bind_result (inspect engine (''/exec/'' @ name @ ''/json'') exec_container) (require_managed p engine) = Inr ()" "r' = r"
    "call_method r = ''POST'' \<and> action = ''start'' \<or> call_method r = ''GET'' \<and> action = ''json''"
    by (auto simp: authorize_exec_def passes_ok split: if_splits)
  then show ?thesis unfolding bind_result_Inr_iff require_managed_ok by blast
qed

section \<open>Volumes\<close>

text \<open>The volumes the engine mounts for a create, as it reads the binds and mounts.\<close>

definition mounted_volumes :: "json \<Rightarrow> string list" where
  "mounted_volumes body =
     filter (\<lambda>s. s \<noteq> []) (map (\<lambda>b. bind_source (as_text b)) (as_list (engine_sets body ''Binds''))) @
     map (\<lambda>m. engine_text m ''Source'') (filter (\<lambda>m. engine_text m ''Type'' = ''volume'' \<and> engine_text m ''Source'' \<noteq> [])
       (as_list (engine_sets body ''Mounts'')))"

definition volume_named :: "engine \<Rightarrow> string \<Rightarrow> (string \<times> string) list option" where
  "volume_named engine name = (case engine (volume_path name) of Some (status, Some v) \<Rightarrow> if status = 200 then volume_labels v else None | _ \<Rightarrow> None)"

lemma decode_string_text: "decode_string v = Some t \<Longrightarrow> t = as_text v"
  by (auto simp: decode_string_def as_text_def split: json.splits)

lemma all_items_reads:
  assumes "typed (all_items f) [] kvs k = Some xs"
  shows "xs = map (\<lambda>v. the (f v)) (as_list (engine_value (JObj kvs) k)) \<and> (\<forall>v \<in> set (as_list (engine_value (JObj kvs) k)). f v \<noteq> None)"
  using assms by (auto simp: typed_def engine_value_def all_items_def as_list_def list_all_iff split: option.splits json.splits if_splits)

lemma decode_mount_reads: "decode_mount m = Some (kind, source) \<Longrightarrow> kind = engine_text m ''Type'' \<and> source = engine_text m ''Source''"
proof -
  assume "decode_mount m = Some (kind, source)"
  then obtain us where us: "as_struct m = Some us" "typed decode_string [] us ''Type'' = Some kind" "typed decode_string [] us ''Source'' = Some source"
    by (auto simp: decode_mount_def bind_eq_Some_conv)
  from us(1) have "as_object m = us" by (auto simp: as_struct_def as_object_def split: json.splits)
  then have "engine_text m f = engine_text (JObj us) f" for f by (simp add: engine_text_def engine_value_def)
  with typed_reads(1) us(2,3) show ?thesis by simp
qed

lemma named_are_mounted:
  assumes "decode_volumes body = Some vols"
  shows "named_volumes vols = mounted_volumes body"
proof -
  from assms obtain kvs host bs ms where d: "as_struct body = Some kvs" "typed as_struct [] kvs ''HostConfig'' = Some host"
      "typed (all_items decode_string) [] host ''Binds'' = Some bs" "typed (all_items decode_mount) [] host ''Mounts'' = Some ms"
      "volumes_binds vols = bs" "volumes_mounts vols = ms"
    by (auto simp: decode_volumes_def bind_eq_Some_conv)
  from d(1) have "as_object body = kvs" by (auto simp: as_struct_def as_object_def split: json.splits)
  then have h: "engine_host body = host" using typed_reads(2) [OF d(2)] by (simp add: engine_host_def engine_value_def)
  have bs: "bs = map as_text (as_list (engine_sets body ''Binds''))"
    using all_items_reads [OF d(3)] decode_string_text by (auto simp: engine_sets_def h)
  have ms: "ms = map (\<lambda>m. (engine_text m ''Type'', engine_text m ''Source'')) (as_list (engine_sets body ''Mounts''))"
    using all_items_reads [OF d(4)] decode_mount_reads by (fastforce simp: engine_sets_def h)
  show ?thesis unfolding named_volumes_def mounted_volumes_def d(5,6) bs ms
    by (simp add: filter_map comp_def split_def)
qed

text \<open>The labels the engine reads in a create.\<close>

definition engine_labels :: "json \<Rightarrow> (string \<times> string) list" where
  "engine_labels body = (case text_map (engine_value body ''Labels'') of None \<Rightarrow> [] | Some ls \<Rightarrow> ls)"

lemma volumes_labels_reads:
  assumes "decode_volumes body = Some vols"
  shows "volumes_labels vols = engine_labels body"
proof -
  from assms obtain kvs where d: "as_struct body = Some kvs" "typed text_map [] kvs ''Labels'' = Some (volumes_labels vols)"
    by (auto simp: decode_volumes_def bind_eq_Some_conv)
  from d(1) have "as_object body = kvs" by (auto simp: as_struct_def as_object_def split: json.splits)
  moreover have "text_map JNull = Some []" by (simp add: text_map_def as_struct_def all_entries_def)
  ultimately show ?thesis
    using d(2) by (cases "engine_member kvs ''Labels''") (simp_all add: typed_def engine_labels_def engine_value_def)
qed

definition owned_by :: "(string \<times> string) list \<Rightarrow> (string \<times> string) list \<Rightarrow> bool" where
  "owned_by owners ls \<longleftrightarrow> (\<exists>key \<in> set owner_labels. text_at owners key \<noteq> []) \<and>
     (\<forall>key \<in> set owner_labels. text_at owners key \<noteq> [] \<longrightarrow> text_at ls key = text_at owners key)"

lemma check_volume_owner_ok: "check_volume_owner owners ls = Inr () \<longleftrightarrow> owned_by owners ls"
  by (auto simp: check_volume_owner_def and_check_ok each_ok owned_by_def list_ex_iff)

lemma forwarded_create_owned:
  assumes "let_through (serve_http sdk p engine can_dial r) r'"
    "strip_version (call_path r) = ''/containers/create''" "call_method r = ''POST''"
  shows "\<exists>name doc body. query_values r ''name'' = [name] \<and> call_body r' = Checked body \<and> canonical_body doc = Inr body \<and>
    check_create sdk p name body = Inr () \<and>
    (\<forall>vol \<in> set (mounted_volumes body). \<exists>ls. volume_named engine vol = Some ls \<and> text_at ls (managed_label p) = ''true'' \<and>
      owned_by (volume_owners (volume_prefix p) vol ls) (engine_labels body)) \<and>
    (netns_join_target body = [] \<or> managed_container p engine (netns_join_target body))"
proof -
  have "authorize sdk p engine r = Inr r'" using let_through_authorized [OF assms(1)] .
  then have "(case query_values r ''name'' of [name] \<Rightarrow> check_body r (check_container_create sdk p engine name)
      | _ \<Rightarrow> Inl (Refused ''a container create names exactly one container'')) = Inr r'"
    unfolding authorize_def Let_def assms(2,3) by (simp split: if_split_asm)
  then obtain name where n: "query_values r ''name'' = [name]" "check_body r (check_container_create sdk p engine name) = Inr r'"
    by (auto split: list.splits)
  from check_body_ok [OF n(2)] obtain doc body where b: "canonical_body doc = Inr body"
      "check_container_create sdk p engine name body = Inr ()" "r' = r\<lparr>call_body := Checked body\<rparr>" .
  then obtain vols where v: "check_create sdk p name body = Inr ()" "decode_volumes body = Some vols"
      "require_own_volumes p engine vols = Inr ()" "require_managed_join p engine body = Inr ()"
    by (auto simp: check_container_create_def and_check_ok split: option.splits)
  have "\<exists>ls. volume_named engine vol = Some ls \<and> text_at ls (managed_label p) = ''true'' \<and>
      owned_by (volume_owners (volume_prefix p) vol ls) (engine_labels body)" if "vol \<in> set (mounted_volumes body)" for vol
  proof -
    have "require_own_volume p engine (engine_labels body) vol = Inr ()"
      using v(3) that by (simp add: require_own_volumes_def each_ok named_are_mounted [OF v(2)] volumes_labels_reads [OF v(2)])
    then show ?thesis
      by (auto simp: require_own_volume_def volume_named_def inspect_ok check_volume_owner_ok split: sum.splits if_splits)
  qed
  moreover have "netns_join_target body = [] \<or> managed_container p engine (netns_join_target body)"
    using v(4) by (auto simp: require_managed_join_def Let_def require_managed_ok split: if_splits)
  ultimately show ?thesis using n(1) b v(1) by auto
qed

text \<open>
  A container create that reaches the engine was checked in the very encoding that is sent,
  and every volume the engine will mount for it already exists, carries the managed label and names an
  owner; the container carries each owner label of the volume with the same value.
\<close>

theorem forwarded_volumes_owned:
  assumes "let_through (serve_http sdk p engine can_dial r) r'"
    "strip_version (call_path r) = ''/containers/create''" "call_method r = ''POST''"
  shows "\<exists>name doc body. query_values r ''name'' = [name] \<and> call_body r' = Checked body \<and> canonical_body doc = Inr body \<and>
    check_create sdk p name body = Inr () \<and>
    (\<forall>vol \<in> set (mounted_volumes body). \<exists>ls. volume_named engine vol = Some ls \<and> text_at ls (managed_label p) = ''true'' \<and>
      owned_by (volume_owners (volume_prefix p) vol ls) (engine_labels body)) \<and>
    (netns_join_target body = [] \<or> managed_container p engine (netns_join_target body))"
  using forwarded_create_owned [OF assms] .

text \<open>
  Claim C15. A volume is shared only within its owner: whatever two container creates reached the engine
  while it gave the same answer for a volume, if both mount it they carry one same owner label, by which
  the volume names its project, app or build.
\<close>

theorem volume_shared_by_owner_only:
  assumes "let_through (serve_http sdk p engine1 dial1 r1) s1" "let_through (serve_http sdk p engine2 dial2 r2) s2"
    "strip_version (call_path r1) = ''/containers/create'' \<and> call_method r1 = ''POST''"
    "strip_version (call_path r2) = ''/containers/create'' \<and> call_method r2 = ''POST''"
    "call_body s1 = Checked body1" "call_body s2 = Checked body2"
    "vol \<in> set (mounted_volumes body1)" "vol \<in> set (mounted_volumes body2)" "volume_named engine1 vol = volume_named engine2 vol"
  shows "\<exists>key \<in> set owner_labels. text_at (engine_labels body1) key \<noteq> [] \<and>
    text_at (engine_labels body1) key = text_at (engine_labels body2) key"
proof -
  have "\<exists>ls. volume_named engine1 vol = Some ls \<and> owned_by (volume_owners (volume_prefix p) vol ls) (engine_labels body1)"
    using forwarded_create_owned [OF assms(1)] assms(3,5,7) by auto
  moreover have "\<exists>ls. volume_named engine2 vol = Some ls \<and> owned_by (volume_owners (volume_prefix p) vol ls) (engine_labels body2)"
    using forwarded_create_owned [OF assms(2)] assms(4,6,8) by auto
  ultimately show ?thesis using assms(9) unfolding owned_by_def by (metis option.inject)
qed

section \<open>Members of a network\<close>

lemma authorize_by_network:
  assumes "authorize sdk p engine r = Inr r'" "strip_version (call_path r) = api" "match_network api = Some (net, action)" "api \<noteq> ''/networks/create''"
  shows "authorize_network sdk p engine r net action = Inr r'"
proof -
  have api: "api = ''/networks/'' @ net @ action" using match_network_Some [OF assms(3)] by simp
  have other: "api \<noteq> ''/_ping''" "api \<noteq> ''/version''" "api \<noteq> ''/images/json''" "api \<noteq> ''/images/create''" "api \<noteq> ''/containers/create''"
      "api \<noteq> ''/info''" "api \<noteq> ''/containers/json''" "api \<noteq> ''/volumes/create''" "api \<noteq> ''/volumes''"
    by (simp_all add: api)
  have "\<not> (path_clean (call_path r) \<noteq> call_path r \<or> call_raw_path r \<noteq> [])"
    using assms(1) unfolding authorize_def Let_def by (rule contrapos_pn) simp
  then show ?thesis using assms(1)
    by (simp only: authorize_def authorize_apps_def Let_def assms(2,3,4) other if_False simp_thms option.case prod.case)
qed

lemma field_of_filter: "P k \<Longrightarrow> field_of (filter (\<lambda>x. P (fst x)) kvs) k = field_of kvs k"
proof -
  assume "P k"
  then have "map_of (filter (\<lambda>x. P (fst x)) us) k = map_of us k" for us :: "(string \<times> json) list" by (induction us) auto
  then show ?thesis by (simp add: field_of_def json_member_def rev_filter)
qed

lemma network_member_ok:
  "network_member sdk (JObj kvs) force = Inr c \<Longrightarrow> c = as_text (field_of kvs ''Container'') \<and> c \<noteq> []"
  by (auto simp: network_member_def bind_result_Inr_iff decode_map_object Let_def split: if_splits)

lemma member_without_endpoint:
  assumes "decode_map (JObj kvs) = Inr us"
  shows "\<exists>ws. without_endpoint (JObj kvs) = JObj ws \<and> field_of ws ''Container'' = field_of kvs ''Container''"
proof -
  have "us = kvs" using assms by (simp add: decode_map_object)
  with assms field_of_filter [of "\<lambda>k. k \<noteq> ''EndpointConfig''" "''Container''" kvs] show ?thesis by (simp add: without_endpoint_def)
qed

lemma checked_member_joins:
  assumes "canonical_body doc = Inr body" "check_member sdk p engine False body = Inr ()"
    "{''Container'', ''EndpointConfig''} \<subseteq> set (connect_names sdk)" "''Aliases'' \<in> set (endpoint_names sdk)"
    "c = engine_text body ''Container''" "cfg = engine_value body ''EndpointConfig''"
  shows "c \<noteq> []" "c = edge_container p \<or> managed_container p engine c"
    "is_zero cfg \<or> c = edge_container p \<and> (\<forall>(k, v) \<in> set (as_object cfg). k = ''Aliases'' \<or> is_zero v) \<and>
      (\<forall>a \<in> set (as_list (engine_value cfg ''Aliases'')). as_text a \<in> set (edge_aliases p))"
proof -
  obtain kvs where b: "body = JObj kvs" "unambiguous (JObj kvs)" using canonical_object [OF assms(1)] .
  have cn: "check_network_connect sdk p body = Inr ()" using assms(2) by (simp add: check_member_def and_check_ok)
  then have d: "decode_map (JObj kvs) = Inr kvs" and sp: "check_spelling ''network connect'' kvs (connect_names sdk) = Inr ()"
    unfolding check_network_connect_def b by (auto simp: bind_result_Inr_iff [of "decode_map (JObj kvs)"] decode_map_object and_check_ok)
  have c: "c = as_text (field_of kvs ''Container'')" and cfg: "cfg = field_of kvs ''EndpointConfig''"
    using engine_text_checked [of "JObj kvs" _ "connect_names sdk"] engine_value_checked [of "JObj kvs" _ "connect_names sdk"]
      b sp assms(3,5,6) by auto
  obtain ws where w: "without_endpoint body = JObj ws" "field_of ws ''Container'' = field_of kvs ''Container''"
    using member_without_endpoint [OF d] b by blast
  from assms(2) obtain c' where c': "network_member sdk (JObj ws) False = Inr c'"
      "(if edge_container p \<noteq> [] \<and> c' = edge_container p then Inr () else require_managed p engine c') = Inr ()"
    unfolding check_member_def and_check_ok by (auto simp: w bind_result_Inr_iff)
  have "c' = c" "c \<noteq> []" using network_member_ok [OF c'(1)] w(2) c by auto
  with c'(2) show "c \<noteq> []" "c = edge_container p \<or> managed_container p engine c"
    by (auto simp: require_managed_ok split: if_splits)
  show "is_zero cfg \<or> c = edge_container p \<and> (\<forall>(k, v) \<in> set (as_object cfg). k = ''Aliases'' \<or> is_zero v) \<and>
      (\<forall>a \<in> set (as_list (engine_value cfg ''Aliases'')). as_text a \<in> set (edge_aliases p))"
  proof (cases "is_zero cfg")
    case False
    with cn have e: "c = edge_container p" "check_spelling ''network EndpointConfig'' (as_object cfg) (endpoint_names sdk) = Inr ()"
        "check_edge_endpoint p cfg = Inr ()"
      unfolding check_network_connect_def b d bind_result_simps and_check_ok by (auto simp: c cfg Let_def and_check_ok split: if_splits)
    have "unambiguous cfg" unfolding cfg by (rule unambiguous_field [OF b(2)])
    then have "engine_value cfg ''Aliases'' = field_of (as_object cfg) ''Aliases''" using engine_value_checked e(2) assms(4) by blast
    with e(1,3) show ?thesis
      by (auto simp: check_edge_endpoint_def and_check_ok each_ok as_list_def split: json.splits list.splits if_splits)
  qed simp
qed

text \<open>
  A container joins a network through the proxy only if the network is a project's and the
  container, as the engine reads the body that is sent, is the named edge or one the engine says is
  managed; endpoint settings come with the edge alone, and name only the platform's own hostnames.
\<close>

theorem forwarded_joins_confined:
  assumes "let_through (serve_http sdk p engine can_dial r) r'" "match_network (strip_version (call_path r)) = Some (net, ''/connect'')"
    "{''Container'', ''EndpointConfig''} \<subseteq> set (connect_names sdk)" "''Aliases'' \<in> set (endpoint_names sdk)"
  shows "under_network_prefix p net \<and> (\<exists>body c cfg. call_body r' = Checked body \<and>
    c = engine_text body ''Container'' \<and> cfg = engine_value body ''EndpointConfig'' \<and> c \<noteq> [] \<and>
    (c = edge_container p \<or> managed_container p engine c) \<and>
    (is_zero cfg \<or> c = edge_container p \<and> (\<forall>(k, v) \<in> set (as_object cfg). k = ''Aliases'' \<or> is_zero v) \<and>
      (\<forall>a \<in> set (as_list (engine_value cfg ''Aliases'')). as_text a \<in> set (edge_aliases p))))"
proof -
  have "strip_version (call_path r) = ''/networks/'' @ net @ ''/connect''" using match_network_Some [OF assms(2)] by simp
  then have "strip_version (call_path r) \<noteq> ''/networks/create''" using action_apart [of "''/connect''" True "''create''" net] by simp
  then have "authorize_network sdk p engine r net ''/connect'' = Inr r'"
    using authorize_by_network [OF let_through_authorized [OF assms(1)] refl assms(2)] by simp
  then have u: "under_network_prefix p net" and "check_body r (check_member sdk p engine False) = Inr r'"
    by (simp_all add: authorize_network_def split: if_splits)
  from check_body_ok [OF this(2)] obtain doc body where b: "canonical_body doc = Inr body"
      "check_member sdk p engine False body = Inr ()" "r' = r\<lparr>call_body := Checked body\<rparr>" .
  with u checked_member_joins [OF b(1,2) assms(3,4) refl refl] show ?thesis by auto
qed

section \<open>Concrete calls\<close>

definition sample_engine :: engine where
  "sample_engine path =
     (if path = ''/containers/ex-db/json'' then Some (200, Some (JObj [(''Config'', JObj [(''Labels'', sample_labels)])]))
      else if path = ''/exec/e1/json'' then Some (200, Some (JObj [(''ContainerID'', JStr ''ex-db'')]))
      else if path = ''/volumes/vol-a'' \<or> path = ''/volumes/vol-b'' then Some (200, Some (JObj [(''Labels'', sample_labels)]))
      else Some (404, None))"

definition sample_call :: "string \<Rightarrow> string \<Rightarrow> json option \<Rightarrow> engine_request" where
  "sample_call m path doc = \<lparr>call_method = m, call_path = path, call_raw_path = [], call_query = [(''name'', [''ex-1''])],
     call_filters = [], call_body = Sent 500 doc, call_upgrade = False\<rparr>"

definition sample_checked :: "string \<Rightarrow> string \<Rightarrow> json \<Rightarrow> engine_request" where
  "sample_checked m path body = (sample_call m path (Some body))\<lparr>call_body := Checked body\<rparr>"

abbreviation sample_serve :: "engine_request \<Rightarrow> served" where
  "sample_serve \<equiv> serve_http sample_sdk sample_policy sample_engine False"

definition sample_member :: json where
  "sample_member = JObj [(''Container'', JStr ''edge''), (''EndpointConfig'', JObj [(''Aliases'', JArr [JStr ''api.example''])])]"

lemma sample_served:
  "let_through (sample_serve (sample_call ''POST'' ''/v1.47/containers/ex-db/start'' None)) (sample_call ''POST'' ''/v1.47/containers/ex-db/start'' None)"
  "let_through (sample_serve (sample_call ''POST'' ''/exec/e1/start'' None)) (sample_call ''POST'' ''/exec/e1/start'' None)"
  "let_through (sample_serve (sample_call ''POST'' ''/containers/create'' (Some sample_create))) (sample_checked ''POST'' ''/containers/create'' sample_create)"
  "let_through (sample_serve (sample_call ''POST'' ''/networks/net-a/connect'' (Some sample_member))) (sample_checked ''POST'' ''/networks/net-a/connect'' sample_member)"
  by code_simp+

lemma forwarded_container_managed_witness: "managed_container sample_policy sample_engine ''ex-db''"
proof -
  have m: "match_container (strip_version (call_path (sample_call ''POST'' ''/v1.47/containers/ex-db/start'' None))) = Some (''ex-db'', ''/start'')"
    by code_simp
  show ?thesis using forwarded_container_managed [OF sample_served(1) m] by simp
qed

lemma forwarded_exec_managed_witness: "\<exists>c. managed_container sample_policy sample_engine c"
proof -
  have m: "match_exec (strip_version (call_path (sample_call ''POST'' ''/exec/e1/start'' None))) = Some (''e1'', ''start'')" by code_simp
  show ?thesis using forwarded_exec_managed [OF sample_served(2) m] by blast
qed

lemma sample_create_call:
  "strip_version (call_path (sample_call ''POST'' ''/containers/create'' (Some sample_create))) = ''/containers/create''"
  "call_method (sample_call ''POST'' ''/containers/create'' (Some sample_create)) = ''POST''"
  "call_body (sample_checked ''POST'' ''/containers/create'' sample_create) = Checked sample_create"
  "mounted_volumes sample_create = [''vol-a'', ''vol-b'']"
  by code_simp+

lemma forwarded_volumes_owned_witness: "\<exists>ls. volume_named sample_engine ''vol-b'' = Some ls \<and> text_at ls (managed_label sample_policy) = ''true''"
  using forwarded_volumes_owned [OF sample_served(3) sample_create_call(1,2)] sample_create_call(3,4) by auto

lemma volume_shared_by_owner_only_witness: "\<exists>key \<in> set owner_labels. text_at (engine_labels sample_create) key \<noteq> []"
  using volume_shared_by_owner_only [OF sample_served(3) sample_served(3), of sample_create sample_create "''vol-a''"] sample_create_call by auto

lemma forwarded_joins_confined_witness: "under_network_prefix sample_policy ''net-a''"
proof -
  have m: "match_network (strip_version (call_path (sample_call ''POST'' ''/networks/net-a/connect'' (Some sample_member)))) = Some (''net-a'', ''/connect'')"
    "{''Container'', ''EndpointConfig''} \<subseteq> set (connect_names sample_sdk)" "''Aliases'' \<in> set (endpoint_names sample_sdk)" by code_simp+
  show ?thesis using forwarded_joins_confined [OF sample_served(4) m] by blast
qed

text \<open>
  \<open>url.PathEscape\<close> before a path that the client library escapes again: the engine is asked about
  another name wherever a name needs escaping, and about the same one for every plain reference.
\<close>

lemma path_escape_ref: "is_ref s \<Longrightarrow> path_escape s = s"
proof -
  have "concat (map (\<lambda>c. if path_safe c then [c] else g c) s) = s" if "list_all path_safe s" for g :: "char \<Rightarrow> string" and s
    using that by (induction s) auto
  moreover assume "is_ref s"
  then have "list_all path_safe s" by (cases s) (auto simp: is_ref_def path_safe_def list_all_iff)
  ultimately show ?thesis by (simp add: path_escape_def)
qed

lemma path_escaped_twice: "volume_path ''vol-a b'' = ''/volumes/vol-a%20b''"
  by code_simp

end
