(* ===== verification/Public_Address.thy ===== *)
theory Public_Address
  imports Bool_Exp "HOL-Library.Word"
begin

text \<open>
  Which outbound targets of a tenant the platform dials, after \<^verbatim>\<open>internal/publicaddr\<close>. An address is what
  Go's \<^verbatim>\<open>netip.Addr\<close> is: nothing, four bytes, or sixteen bytes with a zone. The parsers of addresses and of
  host-port pairs, the resolver and the socket are parameters.
\<close>

section \<open>Addresses and prefixes\<close>

datatype addr = No_Addr | V4 "32 word" | V6 "128 word" string

datatype ip_prefix = P4 "32 word" nat | P6 "128 word" nat

text \<open>\<open>Prefix.Contains\<close>: the leading bits agree; an address with a zone is in no prefix.\<close>

fun prefix_contains :: "ip_prefix \<Rightarrow> addr \<Rightarrow> bool" where
  "prefix_contains (P4 base len) (V4 a) = (drop_bit (32 - len) a = drop_bit (32 - len) base)"
| "prefix_contains (P6 base len) (V6 a zone) = (zone = [] \<and> drop_bit (128 - len) a = drop_bit (128 - len) base)"
| "prefix_contains _ _ = False"

text \<open>Byte \<open>i\<close> of an address, and the first two bytes of sixteen.\<close>

definition byte4 :: "nat \<Rightarrow> 32 word \<Rightarrow> byte" where
  "byte4 i a = ucast (drop_bit (24 - 8 * i) a)"

definition byte6 :: "nat \<Rightarrow> 128 word \<Rightarrow> byte" where
  "byte6 i a = ucast (drop_bit (120 - 8 * i) a)"

definition pair6 :: "128 word \<Rightarrow> 16 word" where
  "pair6 a = ucast (drop_bit 112 a)"

text \<open>Four consecutive bytes from byte \<open>i\<close> on, as an address of their own.\<close>

definition quad6 :: "nat \<Rightarrow> 128 word \<Rightarrow> 32 word" where
  "quad6 i a = ucast (drop_bit (96 - 8 * i) a)"

definition unmap :: "addr \<Rightarrow> addr" where
  "unmap x = (case x of V6 a zone \<Rightarrow> if drop_bit 32 a = 0xFFFF then V4 (ucast a) else x | _ \<Rightarrow> x)"

fun is_loopback :: "addr \<Rightarrow> bool" where
  "is_loopback (V4 a) = (byte4 0 a = 127)"
| "is_loopback (V6 a zone) = (a = 1)"
| "is_loopback No_Addr = False"

fun is_unspecified :: "addr \<Rightarrow> bool" where
  "is_unspecified (V4 a) = (a = 0)"
| "is_unspecified (V6 a zone) = (a = 0 \<and> zone = [])"
| "is_unspecified No_Addr = False"

fun is_private :: "addr \<Rightarrow> bool" where
  "is_private (V4 a) = (byte4 0 a = 10 \<or> byte4 0 a = 172 \<and> byte4 1 a AND 0xF0 = 16 \<or> byte4 0 a = 192 \<and> byte4 1 a = 168)"
| "is_private (V6 a zone) = (byte6 0 a AND 0xFE = 0xFC)"
| "is_private No_Addr = False"

fun is_multicast :: "addr \<Rightarrow> bool" where
  "is_multicast (V4 a) = (byte4 0 a AND 0xF0 = 0xE0)"
| "is_multicast (V6 a zone) = (byte6 0 a = 0xFF)"
| "is_multicast No_Addr = False"

fun is_link_local_unicast :: "addr \<Rightarrow> bool" where
  "is_link_local_unicast (V4 a) = (byte4 0 a = 169 \<and> byte4 1 a = 254)"
| "is_link_local_unicast (V6 a zone) = (pair6 a AND 0xFFC0 = 0xFE80)"
| "is_link_local_unicast No_Addr = False"

fun is_link_local_multicast :: "addr \<Rightarrow> bool" where
  "is_link_local_multicast (V4 a) = (byte4 0 a = 224 \<and> byte4 1 a = 0 \<and> byte4 2 a = 0)"
| "is_link_local_multicast (V6 a zone) = (pair6 a AND 0xFF0F = 0xFF02)"
| "is_link_local_multicast No_Addr = False"

fun is_interface_local_multicast :: "addr \<Rightarrow> bool" where
  "is_interface_local_multicast (V6 a zone) = (pair6 a AND 0xFF0F = 0xFF01)"
| "is_interface_local_multicast _ = False"

section \<open>Classification\<close>

definition blocked_prefixes :: "ip_prefix list" where
  "blocked_prefixes = [P4 0 8, P4 0x64400000 10, P4 0xC0000000 24, P4 0xC6120000 15, P4 0xF0000000 4,
     P6 (push_bit 112 0xFEC0) 10, P6 (push_bit 112 0x2001) 32, P6 (push_bit 112 0x0100) 64,
     P6 (push_bit 80 0x64FF9B0001) 48]"

definition prefix_nat64 :: ip_prefix where "prefix_nat64 = P6 (push_bit 96 0x64FF9B) 96"
definition prefix_6to4 :: ip_prefix where "prefix_6to4 = P6 (push_bit 112 0x2002) 16"
definition prefix_v4_compatible :: ip_prefix where "prefix_v4_compatible = P6 0 96"

definition embedded_ipv4 :: "addr \<Rightarrow> addr option" where
  "embedded_ipv4 x = (case x of V6 a zone \<Rightarrow>
       if prefix_contains prefix_nat64 x \<or> prefix_contains prefix_v4_compatible x then Some (V4 (quad6 12 a))
       else if prefix_contains prefix_6to4 x then Some (V4 (quad6 2 a)) else None
     | _ \<Rightarrow> None)"

definition never_public :: "addr \<Rightarrow> bool" where
  "never_public x \<longleftrightarrow> is_loopback x \<or> is_unspecified x \<or> is_private x \<or> is_multicast x \<or> is_link_local_unicast x \<or>
     is_link_local_multicast x \<or> is_interface_local_multicast x"

text \<open>\<open>ClassifyAddr\<close> refuses; the recursion is at an IPv4 address, which embeds nothing.\<close>

definition internal_plain :: "addr \<Rightarrow> bool" where
  "internal_plain x \<longleftrightarrow> never_public x \<or> list_ex (\<lambda>p. prefix_contains p x) blocked_prefixes"

definition internal_addr :: "addr \<Rightarrow> bool" where
  "internal_addr x = (let y = unmap x in never_public y \<or>
     (case embedded_ipv4 y of Some e \<Rightarrow> internal_plain e | None \<Rightarrow> list_ex (\<lambda>p. prefix_contains p y) blocked_prefixes))"

section \<open>The dialer\<close>

datatype dial_error = Internal_Address | Invalid_Host | Lookup_Failed | Connect_Failed

definition denied :: "addr \<Rightarrow> ip_prefix list \<Rightarrow> bool" where
  "denied y ps = list_ex (\<lambda>p. prefix_contains p y \<or>
     (case embedded_ipv4 y of None \<Rightarrow> False | Some e \<Rightarrow> prefix_contains p e)) ps"

text \<open>\<open>Dialer.Check\<close>, with the deny list of the install and the one its source answers at this moment.\<close>

definition check_addr :: "ip_prefix list \<Rightarrow> ip_prefix list option \<Rightarrow> addr \<Rightarrow> (dial_error, unit) result" where
  "check_addr deny source x =
     (if internal_addr x then Inl Internal_Address
      else if denied (unmap x) deny \<or> (case source of None \<Rightarrow> False | Some now \<Rightarrow> denied (unmap x) now) then Inl Internal_Address
      else Inr ())"

record network =
  split_address :: "string \<Rightarrow> (string \<times> string) option"
  parse_addr :: "string \<Rightarrow> addr option"
  lookup_ip :: "string \<Rightarrow> addr list option"

definition resolve_target :: "network \<Rightarrow> ip_prefix list \<Rightarrow> ip_prefix list option \<Rightarrow> string \<Rightarrow> (dial_error, addr list) result" where
  "resolve_target N deny source host = (case parse_addr N host of
       Some literal \<Rightarrow> bind_result (check_addr deny source literal) (\<lambda>_. Inr [literal])
     | None \<Rightarrow> (case lookup_ip N host of None \<Rightarrow> Inl Lookup_Failed
         | Some found \<Rightarrow> if found = [] then Inl Lookup_Failed
             else bind_result (each (check_addr deny source) found) (\<lambda>_. Inr found)))"

text \<open>The socket hands its peer's address to \<open>control\<close> before it connects.\<close>

definition control :: "network \<Rightarrow> ip_prefix list \<Rightarrow> ip_prefix list option \<Rightarrow> string \<Rightarrow> (dial_error, unit) result" where
  "control N deny source address = (case split_address N address of None \<Rightarrow> Inl Internal_Address
     | Some (host, _) \<Rightarrow> (case parse_addr N host of None \<Rightarrow> Inl Internal_Address | Some x \<Rightarrow> check_addr deny source x))"

text \<open>The loop over the targets: the attempts made, and the first that connects.\<close>

fun dial_targets :: "(addr \<Rightarrow> (dial_error, 'conn) result) \<Rightarrow> addr list \<Rightarrow> (dial_error, 'conn) result \<Rightarrow> addr list \<times> (dial_error, 'conn) result" where
  "dial_targets connect [] r0 = ([], r0)"
| "dial_targets connect (x # xs) r0 = (case connect x of
     Inr c \<Rightarrow> ([x], Inr c)
   | Inl e \<Rightarrow> (case dial_targets connect xs (Inl e) of (tried, r) \<Rightarrow> (x # tried, r)))"

definition dial_context :: "network \<Rightarrow> ip_prefix list \<Rightarrow> ip_prefix list option \<Rightarrow> (addr \<Rightarrow> string \<Rightarrow> (dial_error, 'conn) result) \<Rightarrow>
    string \<Rightarrow> addr list \<times> (dial_error, 'conn) result" where
  "dial_context N deny source connect address = (case split_address N address of None \<Rightarrow> ([], Inl Invalid_Host)
     | Some (host, port) \<Rightarrow> (case resolve_target N deny source host of Inl e \<Rightarrow> ([], Inl e)
         | Inr targets \<Rightarrow> dial_targets (\<lambda>x. connect x port) targets (Inl Connect_Failed)))"

section \<open>Host names\<close>

definition internal_suffixes :: "string list" where
  "internal_suffixes = [''.localhost'', ''.internal'', ''.local'', ''.localdomain'', ''.home.arpa'']"

definition trim_suffix :: "string \<Rightarrow> string \<Rightarrow> string" where
  "trim_suffix suf s = (case cut_suffix suf s of None \<Rightarrow> s | Some r \<Rightarrow> r)"

text \<open>Lower case as far as a result in ASCII goes; any other rune is refused by the labels.\<close>

definition canonical_name :: "string \<Rightarrow> string" where
  "canonical_name host = trim_suffix ''.'' (fold_lower host)"

definition valid_label :: "string \<Rightarrow> bool" where
  "valid_label l \<longleftrightarrow> l \<noteq> [] \<and> length l \<le> 63 \<and> hd l \<noteq> CHR ''-'' \<and> last l \<noteq> CHR ''-'' \<and>
     list_all (\<lambda>c. is_lower_letter c \<or> is_digit c \<or> c = CHR ''-'') l"

definition zone_of :: "addr \<Rightarrow> string" where
  "zone_of x = (case x of V6 a zone \<Rightarrow> zone | _ \<Rightarrow> [])"

definition parse_literal :: "network \<Rightarrow> string \<Rightarrow> addr option" where
  "parse_literal N host = (let trimmed = trim_suffix '']'' (trim_prefix ''['' host) in
     if prefix ''['' host \<noteq> suffix '']'' host then None
     else case parse_addr N trimmed of None \<Rightarrow> None | Some x \<Rightarrow> if zone_of x \<noteq> [] then None else Some x)"

definition looks_like_address :: "string \<Rightarrow> bool" where
  "looks_like_address host \<longleftrightarrow> CHR '':'' \<in> set host \<or> CHR ''%'' \<in> set host"

definition validate_host_syntax :: "network \<Rightarrow> string \<Rightarrow> (dial_error, unit) result" where
  "validate_host_syntax N host =
     (if parse_literal N host \<noteq> None then Inr ()
      else if prefix ''['' host \<or> looks_like_address host then Inl Invalid_Host
      else let name = canonical_name host in
        if name = [] \<or> length name > 253 \<or> CHR ''.'' \<notin> set name then Inl Invalid_Host
        else if list_ex (\<lambda>suf. suffix suf name) internal_suffixes then Inl Invalid_Host
        else if \<not> list_all valid_label (split_on CHR ''.'' name) then Inl Invalid_Host
        else Inr ())"

end
