(* ===== verification/Public_Address_Correct.thy ===== *)
theory Public_Address_Correct
  imports Public_Address
begin

text \<open>
  The classification against the ranges its documentation names, as intervals of numbers, and what
  that gives for the addresses the dialer tries.
\<close>

section \<open>Bytes and leading bits as numbers\<close>

lemma unat_part: "unat (ucast (drop_bit n (a :: 'a :: len word)) :: 'b :: len word) = unat a div 2 ^ n mod 2 ^ LENGTH('b)"
  by (simp only: unsigned_ucast_eq unat_drop_bit_eq) (simp add: drop_bit_eq_div take_bit_eq_mod)

lemma drop_bit_eq_iff: "drop_bit n a = drop_bit n b \<longleftrightarrow> unat a div 2 ^ n = unat b div 2 ^ n" for a b :: "'a :: len word"
  by (metis drop_bit_eq_div unat_drop_bit_eq unsigned_word_eqI)

lemma byte_eq_iff: "b = c \<longleftrightarrow> unat b = unat c" for b c :: "'a :: len word"
  by (metis unsigned_word_eqI)

lemma drop_eq_iff: "drop_bit n a = c \<longleftrightarrow> unat a div 2 ^ n = unat c" for a c :: "'a :: len word"
  by (metis drop_bit_eq_div unat_drop_bit_eq unsigned_word_eqI)

lemma masked_iff: "b AND NOT (mask n) = push_bit n (drop_bit n c) \<longleftrightarrow> unat b div 2 ^ n = unat c div 2 ^ n" for b c :: "'a :: len word"
proof -
  have "b AND NOT (mask n) = push_bit n (drop_bit n b)" by (rule bit_word_eqI) (auto simp: bit_simps)
  moreover have "push_bit n (drop_bit n b) = push_bit n (drop_bit n c) \<longleftrightarrow> drop_bit n b = drop_bit n c"
  proof
    assume "push_bit n (drop_bit n b) = push_bit n (drop_bit n c)"
    then have "drop_bit n (push_bit n (drop_bit n b)) = drop_bit n (push_bit n (drop_bit n c))" by simp
    moreover have "drop_bit n (push_bit n (drop_bit n w)) = drop_bit n w" for w :: "'a word"
      by (rule bit_word_eqI) (auto simp: bit_simps dest: bit_imp_le_length)
    ultimately show "drop_bit n b = drop_bit n c" by simp
  qed simp
  ultimately show ?thesis using drop_bit_eq_iff by metis
qed

lemma byte_masks:
  "b AND 0xF0 = 16 \<longleftrightarrow> unat b div 16 = 1" "b AND 0xF0 = 0xE0 \<longleftrightarrow> unat b div 16 = 14" "b AND 0xFE = 0xFC \<longleftrightarrow> unat b div 2 = 126" for b :: byte
proof -
  have m: "(0xF0 :: byte) = NOT (mask 4)" "(0xFE :: byte) = NOT (mask 1)" by (simp_all add: mask_eq_exp_minus_1)
  have "push_bit 4 (drop_bit 4 16) = (16 :: byte)" "push_bit 4 (drop_bit 4 0xE0) = (0xE0 :: byte)" "push_bit 1 (drop_bit 1 0xFC) = (0xFC :: byte)"
    "unat (16 :: byte) div 2 ^ 4 = 1" "unat (0xE0 :: byte) div 2 ^ 4 = 14" "unat (0xFC :: byte) div 2 ^ 1 = 126" by simp_all
  with masked_iff [of b 4 16] masked_iff [of b 4 "0xE0"] masked_iff [of b 1 "0xFC"]
  show "b AND 0xF0 = 16 \<longleftrightarrow> unat b div 16 = 1" "b AND 0xF0 = 0xE0 \<longleftrightarrow> unat b div 16 = 14" "b AND 0xFE = 0xFC \<longleftrightarrow> unat b div 2 = 126"
    unfolding m by (simp_all only:) simp_all
qed

lemma pair_masks:
  "b AND 0xFFC0 = 0xFE80 \<longleftrightarrow> unat b div 64 = 1018" "b AND 0xFF0F = 0xFF02 \<Longrightarrow> unat b div 256 = 255"
  "b AND 0xFF0F = 0xFF01 \<Longrightarrow> unat b div 256 = 255" for b :: "16 word"
proof -
  have m: "(0xFFC0 :: 16 word) = NOT (mask 6)" by (simp add: mask_eq_exp_minus_1)
  have "push_bit 6 (drop_bit 6 0xFE80) = (0xFE80 :: 16 word)" "unat (0xFE80 :: 16 word) div 2 ^ 6 = 1018" by simp_all
  with masked_iff [of b 6 "0xFE80"] show "b AND 0xFFC0 = 0xFE80 \<longleftrightarrow> unat b div 64 = 1018"
    unfolding m by (simp_all only:) simp
  have "drop_bit 8 (b AND 0xFF0F) = drop_bit 8 b AND 0xFF" by (simp add: drop_bit_and)
  moreover have "drop_bit 8 b AND mask 8 = drop_bit 8 b" by (rule bit_word_eqI) (auto simp: bit_simps dest: bit_imp_le_length)
  ultimately have d: "drop_bit 8 (b AND 0xFF0F) = drop_bit 8 b" by (simp add: mask_eq_exp_minus_1)
  have e: "unat b div 256 = unat (drop_bit 8 b)" using unat_drop_bit_eq [of 8 b] by (simp only: drop_bit_eq_div) simp
  show "unat b div 256 = 255" if "b AND 0xFF0F = 0xFF02" unfolding e d [symmetric] that by simp
  show "unat b div 256 = 255" if "b AND 0xFF0F = 0xFF01" unfolding e d [symmetric] that by simp
qed

lemma byte4_unat: "unat (byte4 i a) = unat a div 2 ^ (24 - 8 * i) mod 256"
  unfolding byte4_def unat_part by simp

lemma byte6_unat: "unat (byte6 i a) = unat a div 2 ^ (120 - 8 * i) mod 256"
  unfolding byte6_def unat_part by simp

lemma pair6_unat: "unat (pair6 a) = unat a div 2 ^ 112 mod 65536"
  unfolding pair6_def unat_part by simp

lemma unat_bounds: "unat (a :: 32 word) < 2 ^ 32" "unat (b :: 128 word) < 2 ^ 128"
  using unsigned_less [of a] unsigned_less [of b] by simp_all

section \<open>IPv4\<close>

definition dotted :: "nat \<Rightarrow> nat \<Rightarrow> nat \<Rightarrow> nat \<Rightarrow> nat" where
  "dotted a b c d = a * 2 ^ 24 + b * 2 ^ 16 + c * 2 ^ 8 + d"

text \<open>
  This network, private, carrier-grade NAT, loopback, link-local with the metadata address, private,
  protocol assignments, private, benchmarking, and everything from multicast to broadcast.
\<close>

definition internal_ranges :: "(nat \<times> nat) list" where
  "internal_ranges = [(dotted 0 0 0 0, dotted 0 255 255 255), (dotted 10 0 0 0, dotted 10 255 255 255),
     (dotted 100 64 0 0, dotted 100 127 255 255), (dotted 127 0 0 0, dotted 127 255 255 255),
     (dotted 169 254 0 0, dotted 169 254 255 255), (dotted 172 16 0 0, dotted 172 31 255 255),
     (dotted 192 0 0 0, dotted 192 0 0 255), (dotted 192 168 0 0, dotted 192 168 255 255),
     (dotted 198 18 0 0, dotted 198 19 255 255), (dotted 224 0 0 0, dotted 255 255 255 255)]"

definition in_internal_range :: "nat \<Rightarrow> bool" where
  "in_internal_range n \<longleftrightarrow> (\<exists>(lo, hi) \<in> set internal_ranges. lo \<le> n \<and> n \<le> hi)"

lemma div_range: "c * 2 ^ k \<le> n \<and> n \<le> c * 2 ^ k + (2 ^ k - 1) \<longleftrightarrow> n div 2 ^ k = (c :: nat)"
proof -
  have "n div 2 ^ k = c \<longleftrightarrow> c * 2 ^ k \<le> n \<and> n < Suc c * 2 ^ k"
    using less_eq_div_iff_mult_less_eq [of "2 ^ k" c n] div_less_iff_less_mult [of "2 ^ k" n "Suc c"] by auto
  moreover have "n < Suc c * 2 ^ k \<longleftrightarrow> n \<le> c * 2 ^ k + (2 ^ k - 1)" using zero_less_power [of "2 :: nat" k] by (simp only: mult_Suc) linarith
  ultimately show ?thesis by blast
qed

lemma internal_range_leading:
  "in_internal_range n \<longleftrightarrow> n div 2 ^ 24 = 0 \<or> n div 2 ^ 24 = 10 \<or> n div 2 ^ 22 = 0x191 \<or> n div 2 ^ 24 = 127 \<or> n div 2 ^ 16 = 0xA9FE \<or>
     n div 2 ^ 20 = 0xAC1 \<or> n div 2 ^ 8 = 0xC00000 \<or> n div 2 ^ 16 = 0xC0A8 \<or> n div 2 ^ 17 = 0x6309 \<or> n div 2 ^ 29 = 7"
  unfolding in_internal_range_def internal_ranges_def dotted_def div_range [symmetric] by simp

lemma two_bytes:
  assumes l: "l < (256 :: nat)"
  shows "(256 * h + l) div 16 = 0xAC1 \<longleftrightarrow> h = 172 \<and> l div 16 = 1" "256 * h + l = 0xC0A8 \<longleftrightarrow> h = 192 \<and> l = 168"
    "256 * h + l = 0xA9FE \<longleftrightarrow> h = 169 \<and> l = 254"
proof -
  have block: "c = h \<or> 256 * h + l < 256 * c \<or> 256 * c + 255 < 256 * h + l" for c
    using l by (cases h c rule: linorder_cases) linarith+
  have "(256 * h + l) div 16 = 0xAC1 \<longleftrightarrow> 0xAC10 \<le> 256 * h + l \<and> 256 * h + l \<le> 0xAC1F"
    using div_range [of "0xAC1" 4 "256 * h + l"] by simp
  moreover have "l div 16 = 1 \<longleftrightarrow> 16 \<le> l \<and> l \<le> 31" using div_range [of 1 4 l] by simp
  ultimately show "(256 * h + l) div 16 = 0xAC1 \<longleftrightarrow> h = 172 \<and> l div 16 = 1" using block [of 172] by auto
  show "256 * h + l = 0xC0A8 \<longleftrightarrow> h = 192 \<and> l = 168" using block [of 192] by auto
  show "256 * h + l = 0xA9FE \<longleftrightarrow> h = 169 \<and> l = 254" using block [of 169] by auto
qed

lemma internal_plain_v4: "internal_plain (V4 a) \<longleftrightarrow> in_internal_range (unat a)"
proof -
  define n where "n = unat a"
  define q where "q = n div 2 ^ 16"
  have n: "n < 2 ^ 32" unfolding n_def by (rule unat_bounds)
  then have q: "q < 65536" unfolding q_def by simp
  have z: "a = 0 \<longleftrightarrow> n = 0" unfolding n_def by (simp add: unat_eq_zero)
  have b0: "unat (byte4 0 a) = q div 256" and b1: "unat (byte4 1 a) = q mod 256"
    using q by (simp_all add: byte4_unat n_def [symmetric] q_def div_mult2_eq [of n 65536 256, simplified])
  have c: "n div 2 ^ 24 = q div 256" "n div 2 ^ 20 = q div 16" "n div 2 ^ 17 = q div 2" "n div 2 ^ 22 = q div 64" "n div 2 ^ 28 = q div 4096" "n div 2 ^ 29 = q div 8192"
    unfolding q_def by (simp_all add: div_mult2_eq [symmetric])
  have never: "never_public (V4 a) \<longleftrightarrow> q div 256 = 127 \<or> n = 0 \<or> q div 256 = 10 \<or> q div 16 = 0xAC1 \<or> q = 0xC0A8 \<or> q div 4096 = 14 \<or> q = 0xA9FE"
  proof -
    have "q div 256 = 172 \<and> q mod 256 div 16 = 1 \<longleftrightarrow> q div 16 = 0xAC1" "q div 256 = 192 \<and> q mod 256 = 168 \<longleftrightarrow> q = 0xC0A8"
      "q div 256 = 169 \<and> q mod 256 = 254 \<longleftrightarrow> q = 0xA9FE" using two_bytes [of "q mod 256" "q div 256"] by simp_all
    moreover have "q div 256 div 16 = q div 4096" by (simp add: div_mult2_eq [symmetric])
    moreover have "q div 256 = 224 \<Longrightarrow> q div 4096 = 14" by linarith
    ultimately show ?thesis unfolding never_public_def by (simp add: byte_eq_iff [of "byte4 _ a"] byte_masks b0 b1 [unfolded One_nat_def] z) blast
  qed
  have blocked: "list_ex (\<lambda>p. prefix_contains p (V4 a)) blocked_prefixes \<longleftrightarrow> q div 256 = 0 \<or> q div 64 = 0x191 \<or> n div 2 ^ 8 = 0xC00000 \<or>
      q div 2 = 0x6309 \<or> q div 4096 = 15"
    unfolding c [symmetric] by (simp add: blocked_prefixes_def drop_eq_iff n_def [symmetric])
  have "n = 0 \<Longrightarrow> q div 256 = 0" by (simp add: q_def)
  moreover have "r div 2 = 7 \<longleftrightarrow> r = 14 \<or> r = 15" for r :: nat by presburger
  then have "q div 4096 div 2 = 7 \<longleftrightarrow> q div 4096 = 14 \<or> q div 4096 = 15" .
  then have "q div 8192 = 7 \<longleftrightarrow> q div 4096 = 14 \<or> q div 4096 = 15" by (simp add: div_mult2_eq [symmetric])
  ultimately show ?thesis unfolding internal_plain_def never blocked n_def [symmetric] internal_range_leading c q_def [symmetric] by blast
qed

text \<open>
  An IPv4 address is refused exactly when it lies in one of the ten ranges the documentation
  names: this network, private use, carrier-grade NAT, loopback, link-local, protocol assignments,
  benchmarking, multicast and above.
\<close>

theorem classify_ipv4_exact: "internal_addr (V4 a) \<longleftrightarrow> in_internal_range (unat a)"
proof -
  have "internal_addr (V4 a) \<longleftrightarrow> internal_plain (V4 a)"
    by (simp add: internal_addr_def internal_plain_def unmap_def embedded_ipv4_def Let_def)
  then show ?thesis by (simp add: internal_plain_v4)
qed

section \<open>IPv6\<close>

text \<open>The leading bits of the refused IPv6 ranges, as a number and how many there are.\<close>

definition internal_leading :: "(nat \<times> nat) list" where
  "internal_leading = [(0x7E, 7), (0xFF, 8), (0x3FA, 10), (0x3FB, 10), (0x20010000, 32), (0x0100000000000000, 64), (0x64FF9B0001, 48)]"

text \<open>The IPv4 address inside a mapped, compatible, NAT64 or 6to4 address.\<close>

definition carried :: "nat \<Rightarrow> nat option" where
  "carried n = (if n div 2 ^ 32 = 0xFFFF \<or> n div 2 ^ 32 = 0 \<or> n div 2 ^ 32 = 0x64FF9B * 2 ^ 64 then Some (n mod 2 ^ 32)
     else if n div 2 ^ 112 = 0x2002 then Some (n div 2 ^ 80 mod 2 ^ 32) else None)"

definition internal_ipv6 :: "nat \<Rightarrow> bool" where
  "internal_ipv6 n \<longleftrightarrow> n \<le> 1 \<or> (\<exists>(v, len) \<in> set internal_leading. n div 2 ^ (128 - len) = v) \<or>
     (case carried n of None \<Rightarrow> False | Some e \<Rightarrow> in_internal_range e)"

lemma div_shift: "k \<le> m \<Longrightarrow> n div 2 ^ m = n div 2 ^ k div 2 ^ (m - k)" for n :: nat
  by (simp add: div_mult2_eq [symmetric] power_add [symmetric])

lemma quad6_unat: "unat (quad6 i a) = unat a div 2 ^ (96 - 8 * i) mod 2 ^ 32"
  unfolding quad6_def unat_part by simp

lemma never_public_v6:
  assumes "n = unat a"
  shows "never_public (V6 a []) \<longleftrightarrow> n \<le> 1 \<or> n div 2 ^ 121 = 0x7E \<or> n div 2 ^ 120 = 0xFF \<or> n div 2 ^ 118 = 0x3FA"
proof -
  define p where "p = n div 2 ^ 112"
  have "n < 2 ^ 128" unfolding assms by (rule unat_bounds)
  then have p: "p < 65536" unfolding p_def by simp
  have b: "unat (byte6 0 a) = p div 256" "unat (pair6 a) = p"
    using p by (simp_all add: byte6_unat pair6_unat assms [symmetric] p_def div_mult2_eq [symmetric] div_shift [of 112 120])
  have c: "n div 2 ^ 121 = p div 256 div 2" "n div 2 ^ 120 = p div 256" "n div 2 ^ 118 = p div 64"
    unfolding p_def by (simp_all add: div_mult2_eq [symmetric])
  have "a = 0 \<longleftrightarrow> n = 0" "a = 1 \<longleftrightarrow> n = 1" unfolding assms by (simp_all add: unat_eq_zero byte_eq_iff [of a 1])
  moreover have "n \<le> 1 \<longleftrightarrow> n = 0 \<or> n = 1" by auto
  moreover have "byte6 0 a = 0xFF \<longleftrightarrow> p div 256 = 255" by (simp add: byte_eq_iff [of "byte6 0 a"] b)
  ultimately show ?thesis unfolding never_public_def c
    using pair_masks(2,3) [of "pair6 a"] by (auto simp: byte_masks pair_masks(1) b)
qed

lemma blocked_v6:
  assumes "n = unat a"
  shows "list_ex (\<lambda>p. prefix_contains p (V6 a [])) blocked_prefixes \<longleftrightarrow>
    n div 2 ^ 118 = 0x3FB \<or> n div 2 ^ 96 = 0x20010000 \<or> n div 2 ^ 64 = 0x0100000000000000 \<or> n div 2 ^ 80 = 0x64FF9B0001"
  by (simp add: blocked_prefixes_def drop_eq_iff assms)

lemma embedded_v6:
  assumes "n = unat a"
  shows "embedded_ipv4 (V6 a []) = (if n div 2 ^ 32 = 0 \<or> n div 2 ^ 32 = 0x64FF9B * 2 ^ 64 then Some (V4 (quad6 12 a))
    else if n div 2 ^ 112 = 0x2002 then Some (V4 (quad6 2 a)) else None)"
  by (auto simp: embedded_ipv4_def prefix_nat64_def prefix_v4_compatible_def prefix_6to4_def drop_eq_iff assms)

lemma leading_v6:
  "(\<exists>(v, len) \<in> set internal_leading. n div 2 ^ (128 - len) = v) \<longleftrightarrow>
     (n div 2 ^ 121 = 0x7E \<or> n div 2 ^ 120 = 0xFF \<or> n div 2 ^ 118 = 0x3FA) \<or>
     n div 2 ^ 118 = 0x3FB \<or> n div 2 ^ 96 = 0x20010000 \<or> n div 2 ^ 64 = 0x0100000000000000 \<or> n div 2 ^ 80 = 0x64FF9B0001"
  by (simp add: internal_leading_def)

lemma carrier_not_leading:
  assumes "n div 2 ^ 32 = 0xFFFF \<or> n div 2 ^ 32 = 0 \<or> n div 2 ^ 32 = 0x64FF9B * 2 ^ 64 \<or> n div 2 ^ 112 = 0x2002"
  shows "\<not> (\<exists>(v, len) \<in> set internal_leading. n div 2 ^ (128 - len) = v)"
proof -
  have "n div 2 ^ 121 = n div 2 ^ 112 div 2 ^ 9" "n div 2 ^ 120 = n div 2 ^ 112 div 2 ^ 8" "n div 2 ^ 118 = n div 2 ^ 112 div 2 ^ 6"
    "n div 2 ^ 112 = n div 2 ^ 32 div 2 ^ 80" "n div 2 ^ 96 = n div 2 ^ 32 div 2 ^ 64" "n div 2 ^ 64 = n div 2 ^ 32 div 2 ^ 32"
    "n div 2 ^ 80 = n div 2 ^ 32 div 2 ^ 48" "n div 2 ^ 112 = n div 2 ^ 96 div 2 ^ 16" "n div 2 ^ 112 = n div 2 ^ 64 div 2 ^ 48"
    "n div 2 ^ 112 = n div 2 ^ 80 div 2 ^ 32" by (simp_all only: div_mult2_eq [symmetric] power_add [symmetric]) simp_all
  note d = this
  from assms consider "n div 2 ^ 32 = 0xFFFF" | "n div 2 ^ 32 = 0" | "n div 2 ^ 32 = 0x64FF9B * 2 ^ 64" | "n div 2 ^ 112 = 0x2002" by (elim disjE)
  then show ?thesis
  proof cases
    case 4
    have "n div 2 ^ 96 \<noteq> 0x20010000" "n div 2 ^ 64 \<noteq> 0x0100000000000000" "n div 2 ^ 80 \<noteq> 0x64FF9B0001"
      using d(8-10) unfolding 4 by auto
    then show ?thesis unfolding leading_v6 d(1-3) 4 by simp
  qed (unfold leading_v6 d(1-7), simp_all)
qed

text \<open>
  Claim C21. An IPv6 address without a zone is refused exactly when it is the unspecified or the loopback
  address, has the leading bits of one of the seven ranges the documentation names, or carries, mapped,
  compatible, behind NAT64 or by 6to4, an IPv4 address that is refused.
\<close>

theorem classify_ipv6_exact: "internal_addr (V6 a []) \<longleftrightarrow> internal_ipv6 (unat a)"
proof -
  define n where "n = unat a"
  have q: "unat (quad6 12 a) = n mod 2 ^ 32" "unat (quad6 2 a) = n div 2 ^ 80 mod 2 ^ 32" "unat (ucast a :: 32 word) = n mod 2 ^ 32"
    using unat_part [of 0 a, where 'b = 32] by (simp_all add: quad6_unat n_def)
  have mapped: "drop_bit 32 a = 0xFFFF \<longleftrightarrow> n div 2 ^ 32 = 0xFFFF" by (simp add: drop_eq_iff n_def)
  show ?thesis
  proof (cases "n div 2 ^ 32 = 0xFFFF")
    case True
    then have "internal_addr (V6 a []) \<longleftrightarrow> internal_addr (V4 (ucast a))"
      using mapped by (simp add: internal_addr_def unmap_def)
    moreover have "\<not> n \<le> 1" using True by (auto simp: le_Suc_eq)
    ultimately show ?thesis using carrier_not_leading [of n] True
      by (simp add: classify_ipv4_exact internal_ipv6_def n_def [symmetric] carried_def q)
  next
    case False
    then have "internal_addr (V6 a []) \<longleftrightarrow> never_public (V6 a []) \<or> (case embedded_ipv4 (V6 a []) of
        Some e \<Rightarrow> internal_plain e | None \<Rightarrow> list_ex (\<lambda>p. prefix_contains p (V6 a [])) blocked_prefixes)"
      using mapped by (simp add: internal_addr_def unmap_def Let_def)
    also have "\<dots> \<longleftrightarrow> internal_ipv6 n"
      using False carrier_not_leading [of n] unfolding internal_ipv6_def carried_def never_public_v6 [OF n_def] blocked_v6 [OF n_def]
        embedded_v6 [OF n_def] leading_v6 by (simp add: internal_plain_v4 q)
    finally show ?thesis by (simp add: n_def)
  qed
qed

section \<open>What the dialer tries\<close>

lemma dial_targets_tried: "dial_targets connect xs r0 = (tried, r) \<Longrightarrow> set tried \<subseteq> set xs"
proof (induction xs arbitrary: r0 tried r)
  case (Cons x xs)
  then show ?case by (fastforce split: sum.splits prod.splits)
qed simp

lemma check_addr_ok: "check_addr deny source x = Inr () \<longleftrightarrow>
    \<not> internal_addr x \<and> \<not> denied (unmap x) deny \<and> (\<forall>now. source = Some now \<longrightarrow> \<not> denied (unmap x) now)"
  by (auto simp: check_addr_def split: option.splits)

lemma resolve_target_ok:
  assumes "resolve_target N deny source host = Inr targets" "x \<in> set targets"
  shows "check_addr deny source x = Inr ()" "parse_addr N host = Some x \<or> (\<exists>found. lookup_ip N host = Some found \<and> x \<in> set found)"
  using assms by (auto simp: resolve_target_def bind_result_Inr_iff each_ok split: option.splits if_splits)

text \<open>
  Every address a dial tries was itself checked: it is not internal and on no deny list. When one
  of the answers for a name is internal or denied, none is tried, so that a name that answers differently
  the next time gains nothing.
\<close>

theorem dials_only_checked:
  assumes "dial_context N deny source connect address = (tried, r)"
  shows "(\<forall>x \<in> set tried. \<not> internal_addr x \<and> \<not> denied (unmap x) deny \<and> (\<forall>now. source = Some now \<longrightarrow> \<not> denied (unmap x) now)) \<and>
    (\<forall>host port found. split_address N address = Some (host, port) \<and> parse_addr N host = None \<and> lookup_ip N host = Some found \<and>
      (\<exists>y \<in> set found. check_addr deny source y \<noteq> Inr ()) \<longrightarrow> tried = [])"
proof (rule conjI; intro ballI allI impI)
  fix x assume "x \<in> set tried"
  then obtain host port targets where "resolve_target N deny source host = Inr targets" "x \<in> set targets"
    using assms dial_targets_tried by (fastforce simp: dial_context_def split: option.splits prod.splits sum.splits)
  then show "\<not> internal_addr x \<and> \<not> denied (unmap x) deny \<and> (\<forall>now. source = Some now \<longrightarrow> \<not> denied (unmap x) now)"
    using resolve_target_ok(1) check_addr_ok by blast
next
  fix host port found
  assume h: "split_address N address = Some (host, port) \<and> parse_addr N host = None \<and> lookup_ip N host = Some found \<and>
      (\<exists>y \<in> set found. check_addr deny source y \<noteq> Inr ())"
  then have "each (check_addr deny source) found \<noteq> Inr ()" unfolding each_ok by blast
  then obtain e where "each (check_addr deny source) found = Inl e" by (cases "each (check_addr deny source) found") auto
  with h obtain e where "resolve_target N deny source host = Inl e" by (cases "found = []") (auto simp: resolve_target_def)
  with h assms show "tried = []" by (simp add: dial_context_def)
qed

text \<open>
  Claim C22. A dial to a host that passed the syntax check tries only addresses that are public in the exact sense
  of the two classifications and that neither the deny list of the install nor the one its source answers at
  the dial covers, in themselves or by an IPv4 address they carry. The host's name is taken as the dial hands it over, without brackets;
  the parser puts a zone only where a percent sign stands, and the resolver answers none.
\<close>

theorem validated_dials_public:
  assumes "validate_host_syntax N host = Inr ()" "\<not> prefix ''['' host" "\<not> suffix '']'' host"
    "split_address N address = Some (host, port)" "dial_context N deny source connect address = (tried, r)" "x \<in> set tried"
    "\<forall>s y. parse_addr N s = Some y \<and> zone_of y \<noteq> [] \<longrightarrow> CHR ''%'' \<in> set s"
    "\<forall>h ys y. lookup_ip N h = Some ys \<and> y \<in> set ys \<longrightarrow> zone_of y = []"
  shows "(\<forall>a. x = V4 a \<longrightarrow> \<not> in_internal_range (unat a)) \<and> (\<forall>a zone. x = V6 a zone \<longrightarrow> zone = [] \<and> \<not> internal_ipv6 (unat a)) \<and>
    (\<forall>p \<in> set (deny @ (case source of None \<Rightarrow> [] | Some now \<Rightarrow> now)).
       \<not> prefix_contains p (unmap x) \<and> (\<forall>e. embedded_ipv4 (unmap x) = Some e \<longrightarrow> \<not> prefix_contains p e))"
proof -
  obtain targets where t: "resolve_target N deny source host = Inr targets" "x \<in> set targets"
    using assms(4-6) dial_targets_tried by (fastforce simp: dial_context_def split: sum.splits)
  note ok = resolve_target_ok [OF t]
  have "trim_suffix '']'' (trim_prefix ''['' host) = host"
    using assms(2,3) by (simp add: trim_suffix_def trim_prefix_def cut_suffix_def cut_prefix_def)
  then have lit: "parse_literal N host = (case parse_addr N host of None \<Rightarrow> None | Some y \<Rightarrow> if zone_of y \<noteq> [] then None else Some y)"
    using assms(2,3) by (simp add: parse_literal_def)
  have "zone_of x = []"
  proof (cases "parse_addr N host = Some x")
    case True
    have "CHR ''%'' \<notin> set host" if "parse_literal N host = None"
      using that assms(1) by (auto simp: validate_host_syntax_def looks_like_address_def split: if_splits)
    with True lit assms(7) show ?thesis by (auto split: if_splits)
  qed (use ok(2) assms(8) in blast)
  moreover have "\<not> internal_addr x" using ok(1) check_addr_ok by blast
  moreover have "\<not> denied (unmap x) (deny @ (case source of None \<Rightarrow> [] | Some now \<Rightarrow> now))"
    using ok(1) by (auto simp: check_addr_ok denied_def split: option.splits)
  ultimately show ?thesis by (auto simp: zone_of_def classify_ipv4_exact classify_ipv6_exact denied_def list_ex_iff)
qed

text \<open>
  The tests by prefix see no address with a zone: with one, the unspecified address, loopback in its
  compatible form and the other carriers of IPv4 pass, though the socket reaches the same host.
\<close>

lemma zone_hides_internal:
  "internal_addr (V6 0 [])" "\<not> internal_addr (V6 0 ''lo'')"
  "internal_addr (V6 0x7F000001 [])" "\<not> internal_addr (V6 0x7F000001 ''lo'')"
  by (simp_all add: internal_addr_def unmap_def never_public_def embedded_ipv4_def internal_plain_v4 internal_range_leading blocked_prefixes_def
      prefix_nat64_def prefix_6to4_def prefix_v4_compatible_def byte6_def pair6_def quad6_def)

definition sample_network :: network where
  "sample_network = \<lparr>split_address = (\<lambda>s. Some (''db.example.org'', ''443'')), parse_addr = (\<lambda>s. None),
     lookup_ip = (\<lambda>s. Some [V4 0x08080808])\<rparr>"

lemma sample_dial: "dial_context sample_network [] None (\<lambda>x port. Inr ()) ''db.example.org:443'' = ([V4 0x08080808], Inr ())"
proof -
  have "\<not> internal_addr (V4 0x08080808)" by (simp add: classify_ipv4_exact internal_range_leading)
  then show ?thesis by (simp add: dial_context_def sample_network_def resolve_target_def check_addr_def denied_def)
qed

lemma dials_only_checked_witness: "\<not> internal_addr (V4 0x08080808)"
  using dials_only_checked [OF sample_dial] by simp

lemma validated_dials_public_witness: "\<not> in_internal_range (unat (0x08080808 :: 32 word))"
proof -
  have v: "validate_host_syntax sample_network ''db.example.org'' = Inr ()" "\<not> prefix ''['' ''db.example.org''" "\<not> suffix '']'' ''db.example.org''"
    by code_simp+
  have s: "split_address sample_network ''db.example.org:443'' = Some (''db.example.org'', ''443'')" by (simp add: sample_network_def)
  show ?thesis using validated_dials_public [OF v s sample_dial, of "V4 0x08080808"] by (simp add: sample_network_def zone_of_def)
qed

end
