(* ===== verification/Nats_Access.thy ===== *)
theory Nats_Access
  imports Bool_Exp
begin

text \<open>
  Who may publish and subscribe on the platform's bus, after \<^verbatim>\<open>internal/natsauth\<close>: the permission matrix
  (\<^verbatim>\<open>permissions.go\<close>), the check of a credential (\<^verbatim>\<open>credentials.go\<close>), the answer to the server's request for an
  authorization (\<^verbatim>\<open>callout.go\<close>) and the seeding of the service credentials (\<^verbatim>\<open>seed.go\<close>). The password hash, the
  signed tokens and the bus's matching of subjects are third-party code and parameters.
\<close>

section \<open>The permission matrix\<close>

definition principal_graphql :: string where "principal_graphql = ''svc-graphql''"
definition principal_provisioning :: string where "principal_provisioning = ''svc-provisioning''"
definition tenant_watcher_prefix :: string where "tenant_watcher_prefix = ''tenant-watcher:''"
definition inbox_prefix_root :: string where "inbox_prefix_root = ''_INBOX_''"

definition subject_cdc_all :: string where "subject_cdc_all = ''cdc.>''"
definition subject_policies_all :: string where "subject_policies_all = ''policies.>''"
definition subject_js_info :: string where "subject_js_info = ''$JS.API.INFO''"
definition subject_js_stream_all :: string where "subject_js_stream_all = ''$JS.API.STREAM.>''"
definition subject_js_consumer_all :: string where "subject_js_consumer_all = ''$JS.API.CONSUMER.>''"
definition subject_js_ack_all :: string where "subject_js_ack_all = ''$JS.ACK.>''"

record bus_permissions =
  may_publish :: "string list"
  may_subscribe :: "string list"
  inbox_prefix :: string

definition token_char :: "char \<Rightarrow> bool" where
  "token_char c \<longleftrightarrow> is_letter c \<or> is_digit c \<or> c = CHR ''_'' \<or> c = CHR ''-''"

definition safe_token :: "string \<Rightarrow> bool" where
  "safe_token s = (case s of [] \<Rightarrow> False | c # r \<Rightarrow> (is_letter c \<or> is_digit c) \<and> list_all token_char r \<and> length r \<le> 63)"

definition tenant_watcher_principal :: "string \<Rightarrow> string" where
  "tenant_watcher_principal project = tenant_watcher_prefix @ project"

definition project_for_principal :: "string \<Rightarrow> string option" where
  "project_for_principal who = (case cut_prefix tenant_watcher_prefix who of None \<Rightarrow> None
     | Some project \<Rightarrow> if safe_token project then Some project else None)"

definition stream_info_subject :: "string \<Rightarrow> string" where
  "stream_info_subject stream = ''$JS.API.STREAM.INFO.'' @ stream"

definition tenant_inbox_token :: "string \<Rightarrow> string" where
  "tenant_inbox_token project = ''tw_'' @ project"

definition with_inbox :: "string \<Rightarrow> string list \<Rightarrow> string list \<Rightarrow> bus_permissions" where
  "with_inbox token pub sub = (let p = inbox_prefix_root @ token in
     \<lparr>may_publish = pub, may_subscribe = sub @ [p @ ''.>''], inbox_prefix = p\<rparr>)"

datatype bus_error = Unsafe_Stream | Unknown_Principal

definition permissions_for :: "string \<Rightarrow> string \<Rightarrow> (bus_error, bus_permissions) result" where
  "permissions_for who stream =
     (if \<not> safe_token stream then Inl Unsafe_Stream
      else if who = principal_graphql then Inr (with_inbox who
        [subject_js_info, stream_info_subject stream, subject_js_consumer_all, subject_js_ack_all]
        [subject_cdc_all, subject_policies_all])
      else if who = principal_provisioning then Inr (with_inbox who
        [subject_policies_all, subject_js_info, subject_js_stream_all] [])
      else case project_for_principal who of None \<Rightarrow> Inl Unknown_Principal
      | Some project \<Rightarrow> Inr (with_inbox (tenant_inbox_token project)
          [''cdc.'' @ project @ ''.>'', subject_js_info, stream_info_subject stream] []))"

definition inbox_prefix_for :: "string \<Rightarrow> string" where
  "inbox_prefix_for who = (case permissions_for who ''CDC'' of Inl e \<Rightarrow> [] | Inr p \<Rightarrow> inbox_prefix p)"

section \<open>Credentials\<close>

text \<open>The store answers an error, or the hash it holds if it holds one; \<open>compare\<close> is the password hash's.\<close>

type_synonym credential_store = "string \<Rightarrow> (unit, string option) result"

definition authenticate_principal :: "(string \<Rightarrow> string \<Rightarrow> bool) \<Rightarrow> credential_store option \<Rightarrow> string \<Rightarrow> string \<Rightarrow> bool" where
  "authenticate_principal compare_hash store who password = (case store of None \<Rightarrow> False
     | Some lookup \<Rightarrow> password \<noteq> [] \<and> (case lookup who of Inr (Some h) \<Rightarrow> compare_hash h password | _ \<Rightarrow> False))"

text \<open>Each boot writes the hashes of the service passwords it has, and stops at the first failure.\<close>

datatype seed_error = Seed_No_Store | Seed_Hash string | Seed_Store string

type_synonym seeded = "(string \<times> string) list"

fun seed_all :: "(string \<Rightarrow> string option) \<Rightarrow> (string \<Rightarrow> string \<Rightarrow> bool) \<Rightarrow> (string \<Rightarrow> string) \<Rightarrow> string list \<Rightarrow> seeded \<Rightarrow>
    (seed_error, unit) result \<times> seeded" where
  "seed_all hash upsert passwords [] written = (Inr (), written)"
| "seed_all hash upsert passwords (p # ps) written =
     (if passwords p = [] then seed_all hash upsert passwords ps written
      else case hash (passwords p) of None \<Rightarrow> (Inl (Seed_Hash p), written)
      | Some h \<Rightarrow> if upsert p h then seed_all hash upsert passwords ps (written @ [(p, h)]) else (Inl (Seed_Store p), written))"

definition seed_service_principals :: "(string \<Rightarrow> string option) \<Rightarrow> (string \<Rightarrow> string \<Rightarrow> bool) option \<Rightarrow> (string \<Rightarrow> string) \<Rightarrow>
    (seed_error, unit) result \<times> seeded" where
  "seed_service_principals hash store passwords = (case store of None \<Rightarrow> (Inl Seed_No_Store, [])
     | Some upsert \<Rightarrow> seed_all hash upsert passwords [principal_provisioning, principal_graphql] [])"

section \<open>The answer to the server\<close>

record auth_request =
  user_nkey :: string
  server_id :: string
  connect_user :: string
  connect_password :: string

record subject_rules =
  rules_allow :: "string list"
  rules_deny :: "string list"

record user_token =
  token_subject :: string
  token_name :: string
  token_audience :: string
  token_pub :: subject_rules
  token_sub :: subject_rules
  token_bearer :: bool

record auth_response =
  response_subject :: string
  response_audience :: string
  response_token :: "user_token option"
  response_error :: string

text \<open>An empty list would mean everything to the server, so it becomes a denial of everything.\<close>

definition deny_all_subject :: string where "deny_all_subject = ''>''"

definition apply_allow_list :: "string list \<Rightarrow> subject_rules" where
  "apply_allow_list subjects = (if subjects = [] then \<lparr>rules_allow = [], rules_deny = [deny_all_subject]\<rparr>
     else \<lparr>rules_allow = subjects, rules_deny = []\<rparr>)"

definition user_token_for :: "string \<Rightarrow> string \<Rightarrow> string \<Rightarrow> bus_permissions \<Rightarrow> user_token" where
  "user_token_for account nkey who perms = \<lparr>token_subject = nkey, token_name = who, token_audience = account,
     token_pub = apply_allow_list (may_publish perms), token_sub = apply_allow_list (may_subscribe perms), token_bearer = True\<rparr>"

record responder =
  resp_account :: string
  resp_stream :: string
  resp_verify :: "string \<Rightarrow> string \<Rightarrow> bool"
  can_sign_token :: "user_token \<Rightarrow> bool"
  can_sign_response :: "auth_response \<Rightarrow> bool"

definition refusal_reason :: string where "refusal_reason = ''not authorized''"

text \<open>A response that cannot be signed is not sent.\<close>

definition respond :: "responder \<Rightarrow> auth_request \<Rightarrow> user_token option \<Rightarrow> string \<Rightarrow> auth_response option" where
  "respond R req token why = (let response = \<lparr>response_subject = user_nkey req, response_audience = server_id req,
       response_token = token, response_error = why\<rparr> in
     if can_sign_response R response then Some response else None)"

definition mint_user_token :: "responder \<Rightarrow> string \<Rightarrow> string \<Rightarrow> bus_permissions \<Rightarrow> user_token option" where
  "mint_user_token R nkey who perms = (let t = user_token_for (resp_account R) nkey who perms in
     if can_sign_token R t then Some t else None)"

text \<open>A request that the server did not sign decodes to nothing and is dropped.\<close>

definition handle_callout :: "responder \<Rightarrow> auth_request option \<Rightarrow> auth_response option" where
  "handle_callout R request = (case request of None \<Rightarrow> None
     | Some req \<Rightarrow> (case permissions_for (connect_user req) (resp_stream R) of
         Inl e \<Rightarrow> respond R req None refusal_reason
       | Inr perms \<Rightarrow> if \<not> resp_verify R (connect_user req) (connect_password req) then respond R req None refusal_reason
           else (case mint_user_token R (user_nkey req) (connect_user req) perms of
               None \<Rightarrow> respond R req None refusal_reason
             | Some t \<Rightarrow> respond R req (Some t) [])))"

definition refuse_callout :: "responder \<Rightarrow> auth_request option \<Rightarrow> auth_response option" where
  "refuse_callout R request = (case request of None \<Rightarrow> None | Some req \<Rightarrow> respond R req None refusal_reason)"

section \<open>Tenants are apart on the bus\<close>

text \<open>
  What the bus documents of its matching, for the patterns the matrix has: a pattern without wildcards
  matches itself, and one that ends in the full wildcard matches what continues the rest.
\<close>

definition plain_subject :: "string \<Rightarrow> bool" where
  "plain_subject s \<longleftrightarrow> CHR ''*'' \<notin> set s \<and> CHR ''>'' \<notin> set s"

definition bus_matching :: "(string \<Rightarrow> string \<Rightarrow> bool) \<Rightarrow> bool" where
  "bus_matching m \<longleftrightarrow> (\<forall>p s. plain_subject p \<longrightarrow> m p s = (s = p)) \<and>
     (\<forall>p s. plain_subject p \<longrightarrow> m (p @ ''.>'') s = (\<exists>r. r \<noteq> [] \<and> s = p @ ''.'' @ r))"

lemma safe_token_plain:
  assumes "safe_token s"
  shows "CHR ''.'' \<notin> set s" "plain_subject s"
proof -
  have "\<forall>c \<in> set s. token_char c" using assms by (cases s) (auto simp: safe_token_def token_char_def list_all_iff)
  moreover have "\<not> token_char CHR ''.''" "\<not> token_char CHR ''*''" "\<not> token_char CHR ''>''" by code_simp+
  ultimately show "CHR ''.'' \<notin> set s" "plain_subject s" unfolding plain_subject_def by blast+
qed

lemma first_token:
  assumes "CHR ''.'' \<notin> set a" "CHR ''.'' \<notin> set b" "a @ ''.'' @ r = b @ ''.'' @ s"
  shows "a = b"
proof -
  have "takeWhile (\<lambda>c. c \<noteq> CHR ''.'') (x @ ''.'' @ t) = x" if "CHR ''.'' \<notin> set x" for x t
    using that by (induction x) auto
  with assms show ?thesis by metis
qed

lemma after_root:
  assumes "CHR ''.'' \<notin> set a" "CHR ''.'' \<notin> set b" "root @ a @ ''.'' @ r = root @ b @ ''.'' @ s"
  shows "a = b"
  using first_token [OF assms(1,2)] assms(3) by blast

lemma watcher_permissions:
  assumes "permissions_for (tenant_watcher_principal a) stream = Inr P"
  shows "safe_token a" "safe_token stream" "may_publish P = [''cdc.'' @ a @ ''.>'', subject_js_info, stream_info_subject stream]"
    "may_subscribe P = [''_INBOX_tw_'' @ a @ ''.>'']"
  using assms
  by (auto simp: permissions_for_def tenant_watcher_principal_def tenant_watcher_prefix_def principal_graphql_def principal_provisioning_def
      project_for_principal_def cut_prefix_def with_inbox_def inbox_prefix_root_def tenant_inbox_token_def Let_def split: if_splits option.splits)

lemma inbox_plain:
  assumes "permissions_for who stream = Inr Q"
  shows "\<exists>token. inbox_prefix Q = ''_INBOX_'' @ token \<and> CHR ''.'' \<notin> set token \<and> plain_subject (''_INBOX_'' @ token) \<and>
    (\<forall>b. token = ''tw_'' @ b \<longrightarrow> who = tenant_watcher_principal b)"
proof (cases "who = principal_graphql \<or> who = principal_provisioning")
  case True
  with assms show ?thesis
    by (intro exI [of _ who]) (auto simp: plain_subject_def permissions_for_def principal_graphql_def principal_provisioning_def with_inbox_def
        inbox_prefix_root_def Let_def split: if_splits)
next
  case False
  with assms obtain c where c: "project_for_principal who = Some c" "Q = with_inbox (tenant_inbox_token c)
      [''cdc.'' @ c @ ''.>'', subject_js_info, stream_info_subject stream] []"
    by (auto simp: permissions_for_def split: if_splits option.splits)
  then have "who = tenant_watcher_principal c" "safe_token c"
    by (auto simp: project_for_principal_def tenant_watcher_principal_def cut_prefix_Some split: option.splits if_splits)
  with c(2) safe_token_plain show ?thesis
    by (intro exI [of _ "''tw_'' @ c"]) (auto simp: plain_subject_def with_inbox_def inbox_prefix_root_def tenant_inbox_token_def Let_def)
qed

text \<open>
  Claim C23. On the bus a project's watcher is apart from every other project: what it may publish is on no
  other project's change stream, and what it may read is on no change stream at all, on no policy
  subject and in no other principal's inbox.
\<close>

theorem tenants_apart_on_bus:
  assumes "bus_matching m" "permissions_for (tenant_watcher_principal a) stream = Inr P"
  shows "(\<forall>s b. b \<noteq> a \<and> safe_token b \<and> (\<exists>p \<in> set (may_publish P). m p s) \<longrightarrow> \<not> m (''cdc.'' @ b @ ''.>'') s) \<and>
    (\<forall>s. (\<exists>p \<in> set (may_subscribe P). m p s) \<longrightarrow> \<not> m subject_cdc_all s \<and> \<not> m subject_policies_all s \<and>
      (\<forall>who st Q. permissions_for who st = Inr Q \<and> who \<noteq> tenant_watcher_principal a \<longrightarrow> \<not> m (inbox_prefix Q @ ''.>'') s))"
proof -
  note w = watcher_permissions [OF assms(2)]
  note ta = safe_token_plain [OF w(1)] and ts = safe_token_plain [OF w(2)]
  have self: "plain_subject p \<Longrightarrow> m p s \<Longrightarrow> s = p" and below: "plain_subject p \<Longrightarrow> m (p @ ''.>'') s \<Longrightarrow> \<exists>r. s = p @ ''.'' @ r" for p s
    using assms(1) unfolding bus_matching_def by blast+
  have cdc: "m (''cdc.'' @ c @ ''.>'') s \<Longrightarrow> \<exists>r. s = ''cdc.'' @ c @ ''.'' @ r" if "plain_subject c" for c s
    using below [of "''cdc.'' @ c"] that by (simp add: plain_subject_def)
  have info: "m subject_js_info s \<Longrightarrow> hd s = CHR ''$''" "m (stream_info_subject stream) s \<Longrightarrow> hd s = CHR ''$''" for s
    using self [of subject_js_info s] self [of "stream_info_subject stream" s] ts(2)
    by (auto simp: subject_js_info_def stream_info_subject_def plain_subject_def)
  have pub: "\<not> m (''cdc.'' @ b @ ''.>'') s" if ne: "b \<noteq> a" and safe: "safe_token b" and p: "p \<in> set (may_publish P)" "m p s" for s b p
  proof
    assume "m (''cdc.'' @ b @ ''.>'') s"
    then obtain r where r: "s = ''cdc.'' @ b @ ''.'' @ r" using cdc safe_token_plain(2) [OF safe] by blast
    then have "m (''cdc.'' @ a @ ''.>'') s" using p info [of s] by (auto simp: w(3))
    then obtain r' where "s = ''cdc.'' @ a @ ''.'' @ r'" using cdc ta(2) by blast
    then show False using after_root [of a b "''cdc.''"] r ta(1) safe_token_plain(1) [OF safe] ne by metis
  qed
  have sub: "\<not> m subject_cdc_all s \<and> \<not> m subject_policies_all s \<and>
      (\<forall>who st Q. permissions_for who st = Inr Q \<and> who \<noteq> tenant_watcher_principal a \<longrightarrow> \<not> m (inbox_prefix Q @ ''.>'') s)"
    if p: "p \<in> set (may_subscribe P)" "m p s" for s p
  proof -
    obtain r where r: "s = ''_INBOX_'' @ (''tw_'' @ a) @ ''.'' @ r"
      using below [of "''_INBOX_tw_'' @ a" s] p ta(2) by (auto simp: w(4) plain_subject_def)
    have "\<not> m subject_cdc_all s" "\<not> m subject_policies_all s"
      using below [of "''cdc''" s] below [of "''policies''" s] r by (auto simp: subject_cdc_all_def subject_policies_all_def plain_subject_def)
    moreover have "\<not> m (inbox_prefix Q @ ''.>'') s" if q: "permissions_for who st = Inr Q" "who \<noteq> tenant_watcher_principal a" for who st Q
    proof
      assume hit: "m (inbox_prefix Q @ ''.>'') s"
      obtain token where t: "inbox_prefix Q = ''_INBOX_'' @ token" "CHR ''.'' \<notin> set token" "plain_subject (''_INBOX_'' @ token)"
        "token = ''tw_'' @ a \<Longrightarrow> who = tenant_watcher_principal a" using inbox_plain [OF q(1)] by blast
      then obtain r' where "s = ''_INBOX_'' @ token @ ''.'' @ r'" using below hit by fastforce
      then have "token = ''tw_'' @ a" using after_root [of token "''tw_'' @ a" "''_INBOX_''" r' r] r t(2) ta(1) by simp
      with t(4) q(2) show False by simp
    qed
    ultimately show ?thesis by blast
  qed
  show ?thesis using pub sub by blast
qed

text \<open>
  The answer to the server carries an identity only for a principal of the matrix whose password was verified,
  with exactly the matrix's subjects; every other answer has the same content.
\<close>

lemma refused_answer:
  "refuse_callout R (Some req) = Some answer \<Longrightarrow> answer = \<lparr>response_subject = user_nkey req, response_audience = server_id req,
     response_token = None, response_error = refusal_reason\<rparr>"
  by (auto simp: refuse_callout_def respond_def Let_def split: if_splits)

lemma callout_grants_matrix:
  assumes "handle_callout R (Some req) = Some answer"
  shows "(\<forall>t. response_token answer = Some t \<longrightarrow> (\<exists>perms. permissions_for (connect_user req) (resp_stream R) = Inr perms \<and>
      resp_verify R (connect_user req) (connect_password req) \<and> t = user_token_for (resp_account R) (user_nkey req) (connect_user req) perms \<and>
      rules_allow (token_sub t) = may_subscribe perms \<and> rules_allow (token_pub t) = may_publish perms \<and>
      may_subscribe perms \<noteq> [] \<and> may_publish perms \<noteq> [])) \<and>
    (response_token answer = None \<longrightarrow> answer = \<lparr>response_subject = user_nkey req, response_audience = server_id req,
      response_token = None, response_error = refusal_reason\<rparr>)"
proof -
  have out: "respond R req tok why = Some answer \<Longrightarrow> answer = \<lparr>response_subject = user_nkey req, response_audience = server_id req,
      response_token = tok, response_error = why\<rparr>" for tok why by (auto simp: respond_def Let_def split: if_splits)
  have lists: "permissions_for who st = Inr perms \<Longrightarrow> may_subscribe perms \<noteq> [] \<and> may_publish perms \<noteq> []" for who st perms
    by (auto simp: permissions_for_def with_inbox_def Let_def split: if_splits option.splits)
  show ?thesis
  proof (cases "permissions_for (connect_user req) (resp_stream R)")
    case (Inl e)
    with assms have "respond R req None refusal_reason = Some answer" by (simp add: handle_callout_def)
    from out [OF this] show ?thesis by simp
  next
    case (Inr perms)
    show ?thesis using assms lists [OF Inr] Inr
      by (auto simp: handle_callout_def mint_user_token_def user_token_for_def apply_allow_list_def Let_def dest!: out split: if_splits)
  qed
qed

section \<open>Concrete principals\<close>

definition sample_matching :: "string \<Rightarrow> string \<Rightarrow> bool" where
  "sample_matching p s = (if suffix ''.>'' p then prefix (butlast p) s \<and> length p \<le> length s else s = p)"

lemma sample_matching: "bus_matching sample_matching"
  unfolding bus_matching_def
proof (intro conjI allI impI)
  fix p s assume "plain_subject p"
  then have "\<not> suffix ''.>'' p" by (auto simp: plain_subject_def suffix_def)
  then show "sample_matching p s = (s = p)" by (simp add: sample_matching_def)
next
  fix p s
  have b: "butlast (p @ ''.>'') = p @ ''.''" "suffix ''.>'' (p @ ''.>'')" by (simp_all add: butlast_append suffix_def)
  show "sample_matching (p @ ''.>'') s = (\<exists>r. r \<noteq> [] \<and> s = p @ ''.'' @ r)"
    unfolding sample_matching_def b(1) using b(2) by (auto simp: prefix_def Suc_le_eq)
qed

lemma tenants_apart_on_bus_witness: "\<not> sample_matching ''cdc.b.>'' ''cdc.a.rows''"
proof -
  have p: "permissions_for (tenant_watcher_principal ''a'') ''CDC'' = Inr \<lparr>may_publish = [''cdc.a.>'', ''$JS.API.INFO'', ''$JS.API.STREAM.INFO.CDC''],
      may_subscribe = [''_INBOX_tw_a.>''], inbox_prefix = ''_INBOX_tw_a''\<rparr>" by code_simp
  have m: "safe_token ''b''" "sample_matching ''cdc.a.>'' ''cdc.a.rows''" by code_simp+
  have "''b'' \<noteq> ''a'' \<and> safe_token ''b'' \<and> (\<exists>q \<in> {''cdc.a.>''}. sample_matching q ''cdc.a.rows'') \<longrightarrow> \<not> sample_matching (''cdc.'' @ ''b'' @ ''.>'') ''cdc.a.rows''"
    using tenants_apart_on_bus [OF sample_matching p, THEN conjunct1, rule_format, of "''b''" "''cdc.a.rows''"] by simp
  with m show ?thesis by simp
qed

definition sample_responder :: responder where
  "sample_responder = \<lparr>resp_account = ''APP'', resp_stream = ''CDC'', resp_verify = (\<lambda>who password. password = ''right''),
     can_sign_token = (\<lambda>_. True), can_sign_response = (\<lambda>_. True)\<rparr>"

end
