(* ===== verification/Nats_Pool.thy ===== *)
theory Nats_Pool
  imports Nats_Access
begin

text \<open>
  The pool that verifies the bus's authorization requests: \<^verbatim>\<open>dispatcher\<close> of \<^verbatim>\<open>internal/natsauth/dispatch.go\<close> and
  the part of \<^verbatim>\<open>callout.go\<close> that feeds it. Every request is a goroutine whose phase is the next statement of
  \<open>run\<close> it has to execute, each update of the shared counters is one step, and the schedule is any
  interleaving of them. A worker that is free may take any request that waits, and a request may stop
  waiting at any moment: the model has no clock, so it covers every wait budget.
\<close>

section \<open>Sizes\<close>

definition workers_per_processor :: int where "workers_per_processor = 2"
definition min_workers :: int where "min_workers = 8"
definition max_workers :: int where "max_workers = 64"
definition queue_depth_per_worker :: int where "queue_depth_per_worker = 8"

definition clamp_workers :: "int \<Rightarrow> int" where
  "clamp_workers n = (if n < min_workers then min_workers else if n > max_workers then max_workers else n)"

definition default_workers :: "int \<Rightarrow> int" where
  "default_workers processors = clamp_workers (workers_per_processor * processors)"

datatype responder_option = With_Workers int | With_Queue_Capacity int

record pool_size =
  pool_workers :: int
  pool_capacity :: int

definition apply_option :: "pool_size \<Rightarrow> responder_option \<Rightarrow> pool_size" where
  "apply_option z opt = (case opt of
      With_Workers n \<Rightarrow> if n > 0 then z\<lparr>pool_workers := n\<rparr> else z
    | With_Queue_Capacity n \<Rightarrow> if n > 0 then z\<lparr>pool_capacity := n\<rparr> else z)"

definition responder_size :: "int \<Rightarrow> responder_option list \<Rightarrow> pool_size" where
  "responder_size processors opts =
     (let z = foldl apply_option \<lparr>pool_workers = default_workers processors, pool_capacity = 0\<rparr> opts in
      if pool_capacity z = 0 then z\<lparr>pool_capacity := pool_workers z * queue_depth_per_worker\<rparr> else z)"

datatype responder_error = No_Credential_Store | No_Account | Unsafe_CDC_Stream | Not_An_Account_Seed | Invalid_Seed

definition new_responder :: "(string \<Rightarrow> bool) \<Rightarrow> int \<Rightarrow> bool \<Rightarrow> string \<Rightarrow> string \<Rightarrow> string \<Rightarrow> responder_option list \<Rightarrow>
    (responder_error, pool_size) result" where
  "new_responder from_seed processors has_store issuer_seed account stream opts =
     (if \<not> has_store then Inl No_Credential_Store
      else if account = [] then Inl No_Account
      else if \<not> safe_token stream then Inl Unsafe_CDC_Stream
      else let seed = trim_space issuer_seed in
      if \<not> prefix ''SA'' seed then Inl Not_An_Account_Seed
      else if \<not> from_seed seed then Inl Invalid_Seed
      else Inr (responder_size processors opts))"

section \<open>The dispatcher\<close>

text \<open>
  \<open>Denied\<close>: not admitted, \<open>rejected\<close> is still to be called. \<open>Queued\<close>: at the select. \<open>Timed_Out\<close>: the
  timer fired. \<open>Holding\<close>: in the pool, to be counted. \<open>Serving\<close>: to call \<open>served\<close>. \<open>Answered\<close>: to leave the
  count. \<open>Leaving\<close>: to free its slot. \<open>Releasing\<close>: to give its place up. \<open>Finishing\<close>: to leave the wait group.
\<close>

datatype pool_answer = Served | Rejected

datatype job_phase = Denied | Queued | Timed_Out | Holding | Serving | Answered | Leaving
  | Releasing pool_answer | Finishing pool_answer | Finished pool_answer

record dispatcher =
  slots_taken :: int
  in_flight :: int
  pending_count :: int
  wait_group :: int
  is_draining :: bool
  job_phases :: "job_phase list"
  answer_log :: "(nat \<times> pool_answer) list"

definition new_dispatcher :: dispatcher where
  "new_dispatcher = \<lparr>slots_taken = 0, in_flight = 0, pending_count = 0, wait_group = 0, is_draining = False,
     job_phases = [], answer_log = []\<rparr>"

definition admits :: "pool_size \<Rightarrow> dispatcher \<Rightarrow> bool" where
  "admits z d \<longleftrightarrow> \<not> (is_draining d \<or> pending_count d \<ge> pool_capacity z)"

definition admit_request :: "pool_size \<Rightarrow> dispatcher \<Rightarrow> dispatcher" where
  "admit_request z d = (if admits z d
     then d\<lparr>pending_count := pending_count d + 1, wait_group := wait_group d + 1, job_phases := job_phases d @ [Queued]\<rparr>
     else d\<lparr>job_phases := job_phases d @ [Denied]\<rparr>)"

definition go_to :: "nat \<Rightarrow> job_phase \<Rightarrow> dispatcher \<Rightarrow> dispatcher" where
  "go_to i ph d = d\<lparr>job_phases := (job_phases d)[i := ph]\<rparr>"

definition log_answer :: "nat \<Rightarrow> pool_answer \<Rightarrow> dispatcher \<Rightarrow> dispatcher" where
  "log_answer i a d = d\<lparr>answer_log := answer_log d @ [(i, a)]\<rparr>"

text \<open>The next statement of request \<open>i\<close>; at the select \<open>fired\<close> tells whether the timer wins.\<close>

definition advance :: "pool_size \<Rightarrow> bool \<Rightarrow> nat \<Rightarrow> dispatcher \<Rightarrow> dispatcher option" where
  "advance z fired i d = (if i < length (job_phases d) then (case job_phases d ! i of
      Denied \<Rightarrow> Some (go_to i (Finished Rejected) (log_answer i Rejected d))
    | Queued \<Rightarrow> if fired then Some (go_to i Timed_Out d)
        else if slots_taken d < pool_workers z then Some (go_to i Holding (d\<lparr>slots_taken := slots_taken d + 1\<rparr>)) else None
    | Timed_Out \<Rightarrow> Some (go_to i (Releasing Rejected) (log_answer i Rejected d))
    | Holding \<Rightarrow> Some (go_to i Serving (d\<lparr>in_flight := in_flight d + 1\<rparr>))
    | Serving \<Rightarrow> Some (go_to i Answered (log_answer i Served d))
    | Answered \<Rightarrow> Some (go_to i Leaving (d\<lparr>in_flight := in_flight d - 1\<rparr>))
    | Leaving \<Rightarrow> if slots_taken d > 0 then Some (go_to i (Releasing Served) (d\<lparr>slots_taken := slots_taken d - 1\<rparr>)) else None
    | Releasing a \<Rightarrow> Some (go_to i (Finishing a) (d\<lparr>pending_count := pending_count d - 1\<rparr>))
    | Finishing a \<Rightarrow> Some (go_to i (Finished a) (d\<lparr>wait_group := wait_group d - 1\<rparr>))
    | Finished a \<Rightarrow> None) else None)"

definition drain :: "dispatcher \<Rightarrow> dispatcher" where "drain d = d\<lparr>is_draining := True\<rparr>"

text \<open>\<open>close\<close> returns in a state where it has set the flag and the wait group is empty.\<close>

definition close_returns :: "dispatcher \<Rightarrow> bool" where
  "close_returns d \<longleftrightarrow> is_draining d \<and> wait_group d = 0"

inductive pool_step :: "pool_size \<Rightarrow> dispatcher \<Rightarrow> dispatcher \<Rightarrow> bool" for z where
  Arrive: "pool_step z d (admit_request z d)"
| Advance: "advance z fired i d = Some d' \<Longrightarrow> pool_step z d d'"
| Drain: "pool_step z d (drain d)"

inductive_cases pool_step_cases: "pool_step z d d'"

inductive pool_reaches :: "pool_size \<Rightarrow> dispatcher \<Rightarrow> dispatcher \<Rightarrow> bool" for z d where
  Here: "pool_reaches z d d"
| Step: "pool_reaches z d d' \<Longrightarrow> pool_step z d' d'' \<Longrightarrow> pool_reaches z d d''"

section \<open>What \<open>callout.go\<close> has the pool do\<close>

text \<open>A panic of the verification is recovered and becomes a refusal.\<close>

definition serve_callout :: "responder \<Rightarrow> (auth_request \<Rightarrow> bool) \<Rightarrow> auth_request option \<Rightarrow> auth_response option" where
  "serve_callout R panics request = (case request of Some req \<Rightarrow>
       if panics req then refuse_callout R request else handle_callout R request
     | None \<Rightarrow> handle_callout R request)"

definition dispatch_callout :: "responder \<Rightarrow> (auth_request \<Rightarrow> bool) \<Rightarrow> auth_request option \<Rightarrow> pool_answer \<Rightarrow> auth_response option" where
  "dispatch_callout R panics request a = (case a of Served \<Rightarrow> serve_callout R panics request | Rejected \<Rightarrow> refuse_callout R request)"

definition pool_replies :: "responder \<Rightarrow> (auth_request \<Rightarrow> bool) \<Rightarrow> (nat \<Rightarrow> auth_request option) \<Rightarrow> dispatcher \<Rightarrow> (nat \<times> auth_response) list" where
  "pool_replies R panics requests d = List.map_filter (\<lambda>(i, a). map_option (Pair i) (dispatch_callout R panics (requests i) a)) (answer_log d)"

end
