(* ===== verification/Nats_Pool_Correct.thy ===== *)
theory Nats_Pool_Correct
  imports Nats_Pool
begin

text \<open>
  The pool's counters are what its goroutines hold, each request is answered once, \<^verbatim>\<open>close\<close> returns only when
  the admitted requests are answered, and what the bus is told follows the permission matrix.
\<close>

section \<open>The counters are functions of the phases\<close>

fun phase_answer :: "job_phase \<Rightarrow> pool_answer option" where
  "phase_answer (Releasing a) = Some a"
| "phase_answer (Finishing a) = Some a"
| "phase_answer (Finished a) = Some a"
| "phase_answer Answered = Some Served"
| "phase_answer Leaving = Some Served"
| "phase_answer _ = None"

definition has_slot :: "job_phase \<Rightarrow> bool" where "has_slot ph \<longleftrightarrow> ph \<in> {Holding, Serving, Answered, Leaving}"
definition is_counted :: "job_phase \<Rightarrow> bool" where "is_counted ph \<longleftrightarrow> ph \<in> {Serving, Answered}"
definition is_over :: "job_phase \<Rightarrow> bool" where "is_over ph = (case ph of Denied \<Rightarrow> True | Finished _ \<Rightarrow> True | _ \<Rightarrow> False)"
definition has_place :: "job_phase \<Rightarrow> bool" where
  "has_place ph = (case ph of Finishing _ \<Rightarrow> False | _ \<Rightarrow> \<not> is_over ph)"

definition how_many :: "(job_phase \<Rightarrow> bool) \<Rightarrow> job_phase list \<Rightarrow> int" where
  "how_many P xs = (\<Sum>x \<leftarrow> xs. of_bool (P x))"

lemma how_many_append [simp]: "how_many P (xs @ [x]) = how_many P xs + of_bool (P x)"
  by (simp add: how_many_def)

lemma how_many_update:
  "i < length xs \<Longrightarrow> how_many P (xs[i := x]) = how_many P xs - of_bool (P (xs ! i)) + of_bool (P x)"
  by (induction xs arbitrary: i) (auto simp: how_many_def nth_Cons split: nat.splits)

lemma how_many_mono: "(\<And>x. P x \<Longrightarrow> Q x) \<Longrightarrow> how_many P xs \<le> how_many Q xs"
  unfolding how_many_def by (induction xs) (auto intro: add_mono)

lemma how_many_nonneg: "0 \<le> how_many P xs"
  unfolding how_many_def by (induction xs) auto

lemma how_many_pos: "i < length xs \<Longrightarrow> P (xs ! i) \<Longrightarrow> 0 < how_many P xs"
proof (induction xs arbitrary: i)
  case (Cons x xs)
  with how_many_nonneg [of P xs] show ?case by (cases i) (force simp: how_many_def)+
qed simp

definition answers_of :: "nat \<Rightarrow> dispatcher \<Rightarrow> (nat \<times> pool_answer) list" where
  "answers_of i d = filter (\<lambda>(j, _). j = i) (answer_log d)"

definition expected_answers :: "nat \<Rightarrow> job_phase list \<Rightarrow> (nat \<times> pool_answer) list" where
  "expected_answers i xs = (if i < length xs then (case phase_answer (xs ! i) of None \<Rightarrow> [] | Some a \<Rightarrow> [(i, a)]) else [])"

definition pool_inv :: "pool_size \<Rightarrow> dispatcher \<Rightarrow> bool" where
  "pool_inv z d \<longleftrightarrow> pending_count d = how_many has_place (job_phases d) \<and> wait_group d = how_many (\<lambda>ph. \<not> is_over ph) (job_phases d) \<and>
     slots_taken d = how_many has_slot (job_phases d) \<and> in_flight d = how_many is_counted (job_phases d) \<and>
     pending_count d \<le> max 0 (pool_capacity z) \<and> slots_taken d \<le> max 0 (pool_workers z) \<and>
     (\<forall>i. answers_of i d = expected_answers i (job_phases d))"

lemmas phase_preds = has_slot_def is_counted_def is_over_def has_place_def

lemma pool_inv_new: "pool_inv z new_dispatcher"
  by (simp add: pool_inv_def new_dispatcher_def how_many_def answers_of_def expected_answers_def)

lemma pool_inv_admit: "pool_inv z d \<Longrightarrow> pool_inv z (admit_request z d)"
  by (auto simp: pool_inv_def admit_request_def admits_def phase_preds answers_of_def expected_answers_def nth_append)

text \<open>One statement of one goroutine, as a change of its phase and of each counter by what the two phases hold.\<close>

definition moves :: "pool_size \<Rightarrow> nat \<Rightarrow> job_phase \<Rightarrow> job_phase \<Rightarrow> dispatcher \<Rightarrow> dispatcher \<Rightarrow> bool" where
  "moves z i old new d d' \<longleftrightarrow> job_phases d' = (job_phases d)[i := new] \<and> is_draining d' = is_draining d \<and>
     pending_count d' = pending_count d - of_bool (has_place old) + of_bool (has_place new) \<and>
     wait_group d' = wait_group d - of_bool (\<not> is_over old) + of_bool (\<not> is_over new) \<and>
     slots_taken d' = slots_taken d - of_bool (has_slot old) + of_bool (has_slot new) \<and>
     in_flight d' = in_flight d - of_bool (is_counted old) + of_bool (is_counted new) \<and>
     (has_place new \<longrightarrow> has_place old) \<and> (has_slot new \<and> \<not> has_slot old \<longrightarrow> slots_taken d < pool_workers z) \<and>
     (case phase_answer old of Some a \<Rightarrow> phase_answer new = Some a \<and> answer_log d' = answer_log d
      | None \<Rightarrow> answer_log d' = answer_log d @ (case phase_answer new of None \<Rightarrow> [] | Some a \<Rightarrow> [(i, a)]))"

lemma advance_moves:
  assumes "advance z fired i d = Some d'"
  shows "i < length (job_phases d) \<and> (\<exists>new. moves z i (job_phases d ! i) new d d')"
proof -
  have i: "i < length (job_phases d)" using assms by (auto simp: advance_def split: if_splits)
  have "moves z i (job_phases d ! i) (job_phases d' ! i) d d'"
  proof (cases "job_phases d ! i")
    case Queued
    with assms i have "d' = go_to i Timed_Out d \<or> slots_taken d < pool_workers z \<and> d' = go_to i Holding (d\<lparr>slots_taken := slots_taken d + 1\<rparr>)"
      by (simp add: advance_def split: if_splits)
    with i Queued show ?thesis by (elim disjE conjE) (simp_all add: moves_def go_to_def phase_preds)
  next
    case Leaving
    with assms i have "d' = go_to i (Releasing Served) (d\<lparr>slots_taken := slots_taken d - 1\<rparr>)"
      by (simp add: advance_def split: if_splits)
    with i Leaving show ?thesis by (simp add: moves_def go_to_def phase_preds)
  qed (use assms [symmetric] i in \<open>simp_all add: advance_def moves_def go_to_def log_answer_def phase_preds\<close>)
  with i show ?thesis by blast
qed

lemma pool_inv_advance:
  assumes inv: "pool_inv z d" and adv: "advance z fired i d = Some d'"
  shows "pool_inv z d'"
proof -
  obtain new where i: "i < length (job_phases d)" and m: "moves z i (job_phases d ! i) new d d'"
    using advance_moves [OF adv] by blast
  have old: "answers_of j d = expected_answers j (job_phases d)" for j using inv by (simp add: pool_inv_def)
  have log: "answers_of j d' = expected_answers j (job_phases d')" for j
    using m i old [of j] by (cases "j = i") (auto simp: moves_def answers_of_def expected_answers_def split: option.splits)
  have "pending_count d' \<le> max 0 (pool_capacity z)" "slots_taken d' \<le> max 0 (pool_workers z)"
    using inv m by (auto simp: pool_inv_def moves_def of_bool_def split: if_splits)
  with m i inv log show ?thesis by (simp add: pool_inv_def moves_def how_many_update)
qed

lemma pool_inv_drain: "pool_inv z d \<Longrightarrow> pool_inv z (drain d)"
  by (simp add: pool_inv_def drain_def answers_of_def)

lemma pool_inv_step: "pool_step z d d' \<Longrightarrow> pool_inv z d \<Longrightarrow> pool_inv z d'"
  by (cases rule: pool_step.cases) (auto intro: pool_inv_admit pool_inv_advance pool_inv_drain)

lemma pool_inv_reached: "pool_reaches z new_dispatcher d \<Longrightarrow> pool_inv z d"
  by (induction rule: pool_reaches.induct) (auto intro: pool_inv_new pool_inv_step)

section \<open>Bounds\<close>

lemma option_sizes_positive:
  "0 < pool_workers z \<Longrightarrow> 0 \<le> pool_capacity z \<Longrightarrow>
   0 < pool_workers (foldl apply_option z opts) \<and> 0 \<le> pool_capacity (foldl apply_option z opts)"
  by (induction opts arbitrary: z) (simp_all add: apply_option_def split: responder_option.splits if_splits)

lemma responder_size_positive: "0 < pool_workers (responder_size n opts) \<and> 0 < pool_capacity (responder_size n opts)"
proof -
  have "0 < default_workers n" by (simp add: default_workers_def clamp_workers_def min_workers_def max_workers_def)
  then show ?thesis using option_sizes_positive [of "\<lparr>pool_workers = default_workers n, pool_capacity = 0\<rparr>" opts]
    by (auto simp: responder_size_def Let_def queue_depth_per_worker_def)
qed

lemma new_responder_size: "new_responder ok n store seed account stream opts = Inr z \<Longrightarrow> z = responder_size n opts"
  by (auto simp: new_responder_def Let_def split: if_splits)

text \<open>
  Claim C26. Whatever requests arrive and however their goroutines interleave, the pool of a responder that
  started never runs more verifications than it has workers, never has more requests admitted than its
  capacity, and its counters never go below zero: the count of running verifications, the slots, the
  places and the wait group stay in this order.
\<close>

theorem pool_stays_bounded:
  assumes "new_responder ok processors store seed account stream opts = Inr z" "pool_reaches z new_dispatcher d"
  shows "0 \<le> in_flight d \<and> in_flight d \<le> slots_taken d \<and> slots_taken d \<le> pool_workers z \<and>
    slots_taken d \<le> pending_count d \<and> pending_count d \<le> pool_capacity z \<and> pending_count d \<le> wait_group d"
proof -
  have z: "0 < pool_workers z" "0 < pool_capacity z"
    using new_responder_size [OF assms(1)] responder_size_positive by auto
  have inv: "pool_inv z d" by (rule pool_inv_reached [OF assms(2)])
  have "how_many is_counted xs \<le> how_many has_slot xs" "how_many has_slot xs \<le> how_many has_place xs"
    "how_many has_place xs \<le> how_many (\<lambda>ph. \<not> is_over ph) xs" for xs
    by (rule how_many_mono; auto simp: phase_preds split: job_phase.splits)+
  with inv z how_many_nonneg [of is_counted] show ?thesis by (simp add: pool_inv_def)
qed

lemma pool_stays_bounded_witness:
  "in_flight (the (advance (responder_size 4 []) False 0 (admit_request (responder_size 4 []) new_dispatcher))) \<le>
   slots_taken (the (advance (responder_size 4 []) False 0 (admit_request (responder_size 4 []) new_dispatcher))) \<and> pool_capacity (responder_size 4 []) = 64"
proof -
  let ?z = "responder_size 4 []"
  have new: "new_responder (\<lambda>_. True) 4 True ''SAxyz'' ''APP'' ''CDC'' [] = Inr ?z" "pool_capacity ?z = 64" by code_simp+
  have "advance ?z False 0 (admit_request ?z new_dispatcher) = Some (the (advance ?z False 0 (admit_request ?z new_dispatcher)))" by code_simp
  then have "pool_reaches ?z new_dispatcher (the (advance ?z False 0 (admit_request ?z new_dispatcher)))"
    by (intro pool_reaches.Step [OF pool_reaches.Step [OF pool_reaches.Here Arrive] Advance])
  from pool_stays_bounded [OF new(1) this] new(2) show ?thesis by simp
qed

section \<open>Each request is answered once\<close>

text \<open>A run without arrivals, by the number of statements it executes.\<close>

inductive pool_runs :: "pool_size \<Rightarrow> nat \<Rightarrow> dispatcher \<Rightarrow> dispatcher \<Rightarrow> bool" for z where
  Stop: "pool_runs z 0 d d"
| Go: "advance z fired i d = Some d' \<Longrightarrow> pool_runs z n d' d'' \<Longrightarrow> pool_runs z (Suc n) d d''"

fun phase_work :: "job_phase \<Rightarrow> int" where
  "phase_work Denied = 1"
| "phase_work Queued = 7"
| "phase_work Holding = 6"
| "phase_work Serving = 5"
| "phase_work Answered = 4"
| "phase_work Leaving = 3"
| "phase_work Timed_Out = 3"
| "phase_work (Releasing a) = 2"
| "phase_work (Finishing a) = 1"
| "phase_work (Finished a) = 0"

definition pool_work :: "dispatcher \<Rightarrow> int" where
  "pool_work d = (\<Sum>ph \<leftarrow> job_phases d. phase_work ph)"

lemma phase_work_nonneg: "0 \<le> phase_work ph" by (cases ph) auto

lemma pool_work_nonneg: "0 \<le> pool_work d"
  unfolding pool_work_def by (rule sum_list_nonneg) (auto intro: phase_work_nonneg)

lemma sum_work_update:
  "i < length xs \<Longrightarrow> (\<Sum>ph \<leftarrow> xs[i := x]. phase_work ph) = (\<Sum>ph \<leftarrow> xs. phase_work ph) - phase_work (xs ! i) + phase_work x"
  by (induction xs arbitrary: i) (auto simp: nth_Cons split: nat.splits)

lemma advance_works: "advance z fired i d = Some d' \<Longrightarrow> pool_work d' < pool_work d"
  by (auto simp: advance_def go_to_def log_answer_def pool_work_def sum_work_update split: if_splits job_phase.splits)

lemma pool_runs_bound: "pool_runs z n d d' \<Longrightarrow> int n \<le> pool_work d - pool_work d'"
  by (induction rule: pool_runs.induct) (auto dest: advance_works)

lemma advance_length: "advance z fired i d = Some d' \<Longrightarrow> length (job_phases d') = length (job_phases d)"
  by (drule advance_moves) (auto simp: moves_def)

lemma pool_runs_inv: "pool_runs z n d d' \<Longrightarrow> pool_inv z d \<Longrightarrow> pool_inv z d' \<and> length (job_phases d') = length (job_phases d)"
  by (induction rule: pool_runs.induct) (auto dest: pool_inv_advance simp: advance_length)

text \<open>No statement waits for ever: a request at the select has its timer, and a slot is there to be freed.\<close>

lemma unfinished_advances:
  assumes "pool_inv z d" "i < length (job_phases d)" "advance z True i d = None"
  shows "\<exists>a. job_phases d ! i = Finished a"
proof -
  have "0 < slots_taken d" if "job_phases d ! i = Leaving"
    using assms(1,2) that how_many_pos [of i "job_phases d" has_slot] by (simp add: pool_inv_def has_slot_def)
  with assms(2,3) show ?thesis by (auto simp: advance_def split: job_phase.splits)
qed

lemma settled_all_finished:
  assumes "pool_inv z d" "\<forall>i. advance z True i d = None" "i < length (job_phases d)"
  shows "\<exists>a. job_phases d ! i = Finished a \<and> answers_of i d = [(i, a)]"
proof -
  obtain a where "job_phases d ! i = Finished a" using unfinished_advances [OF assms(1,3) spec [OF assms(2)]] by blast
  with assms(1,3) show ?thesis by (simp add: pool_inv_def expected_answers_def)
qed

text \<open>
  Claim C25. In every state a responder's pool reaches, a request has at most one answer, a request that found
  a free slot can take it, no run of the admitted goroutines is longer than the work left in the
  state, and one that cannot go on has answered every request exactly once.
\<close>

theorem every_request_answered_once:
  assumes "pool_reaches z new_dispatcher d"
  shows "(\<forall>i. length (answers_of i d) \<le> 1) \<and>
    (\<forall>i < length (job_phases d). job_phases d ! i = Queued \<and> slots_taken d < pool_workers z \<longrightarrow> advance z False i d \<noteq> None) \<and>
    (\<forall>n d'. pool_runs z n d d' \<longrightarrow> int n \<le> pool_work d \<and>
       ((\<forall>fired i. advance z fired i d' = None) \<longrightarrow> (\<forall>i < length (job_phases d). \<exists>a. answers_of i d' = [(i, a)])))"
proof (intro conjI allI impI)
  have inv: "pool_inv z d" by (rule pool_inv_reached [OF assms])
  show "length (answers_of i d) \<le> 1" for i
    using inv by (auto simp: pool_inv_def expected_answers_def split: option.splits)
  show "advance z False i d \<noteq> None" if "i < length (job_phases d)" "job_phases d ! i = Queued \<and> slots_taken d < pool_workers z" for i
    using that by (simp add: advance_def)
  fix n d' assume run: "pool_runs z n d d'"
  show "int n \<le> pool_work d" using pool_runs_bound [OF run] pool_work_nonneg [of d'] by simp
  show "\<exists>a. answers_of i d' = [(i, a)]" if "\<forall>fired i. advance z fired i d' = None" "i < length (job_phases d)" for i
    using settled_all_finished [of z d' i] pool_runs_inv [OF run inv] that by auto
qed

section \<open>Draining\<close>

definition served_log :: "dispatcher \<Rightarrow> (nat \<times> pool_answer) list" where
  "served_log d = filter (\<lambda>(_, a). a = Served) (answer_log d)"

definition drained :: "dispatcher \<Rightarrow> bool" where
  "drained d \<longleftrightarrow> is_draining d \<and> (\<forall>ph \<in> set (job_phases d). is_over ph)"

lemma how_many_zero: "how_many P xs = 0 \<Longrightarrow> x \<in> set xs \<Longrightarrow> \<not> P x"
  by (metis how_many_pos in_set_conv_nth less_irrefl)

lemma close_drained: "pool_inv z d \<Longrightarrow> close_returns d \<Longrightarrow> drained d"
  by (auto simp: pool_inv_def close_returns_def drained_def dest: how_many_zero)

lemma drained_advance:
  assumes "drained d" "advance z fired i d = Some d'"
  shows "drained d' \<and> served_log d' = served_log d"
proof -
  have i: "i < length (job_phases d)" using assms(2) by (auto simp: advance_def split: if_splits)
  then have "is_over (job_phases d ! i)" using assms(1) by (simp add: drained_def)
  with assms(2) i have "d' = go_to i (Finished Rejected) (log_answer i Rejected d)"
    by (auto simp: advance_def is_over_def split: job_phase.splits)
  then show ?thesis using assms(1) set_update_subset_insert [of "job_phases d" i "Finished Rejected"]
    by (auto simp: drained_def go_to_def log_answer_def served_log_def is_over_def)
qed

lemma drained_step: "pool_step z d d' \<Longrightarrow> drained d \<Longrightarrow> drained d' \<and> served_log d' = served_log d"
  by (erule pool_step_cases) (simp_all add: drained_advance, auto simp: admit_request_def admits_def drain_def drained_def served_log_def is_over_def)

lemma drained_reaches: "pool_reaches z d d' \<Longrightarrow> drained d \<Longrightarrow> drained d' \<and> served_log d' = served_log d"
  by (induction rule: pool_reaches.induct) (use drained_step in \<open>auto\<close>)

text \<open>
  Claim C27. When closing the pool returns, every request that was admitted has been answered, exactly once, and
  nothing is verified afterwards: whatever still arrives, only refusals are added to the answers.
\<close>

theorem close_waits_for_admitted:
  assumes "pool_reaches z new_dispatcher d" "close_returns d" "pool_reaches z d d'"
  shows "(\<forall>i < length (job_phases d). job_phases d ! i = Denied \<or> (\<exists>a. job_phases d ! i = Finished a \<and> answers_of i d = [(i, a)])) \<and>
    served_log d' = served_log d \<and> in_flight d' = 0 \<and> pending_count d' = 0"
proof -
  have inv: "pool_inv z d" by (rule pool_inv_reached [OF assms(1)])
  have dr: "drained d" by (rule close_drained [OF inv assms(2)])
  have after: "drained d'" "served_log d' = served_log d" using drained_reaches [OF assms(3) dr] by auto
  have "pool_inv z d'" using assms(3) inv by (induction rule: pool_reaches.induct) (auto intro: pool_inv_step)
  moreover have "how_many is_counted xs = 0" "how_many has_place xs = 0" if "\<forall>ph \<in> set xs. is_over ph" for xs
    using that by (induction xs) (auto simp: how_many_def phase_preds split: job_phase.splits)
  ultimately have "in_flight d' = 0" "pending_count d' = 0" using after(1) by (auto simp: pool_inv_def drained_def)
  moreover have "job_phases d ! i = Denied \<or> (\<exists>a. job_phases d ! i = Finished a \<and> answers_of i d = [(i, a)])" if "i < length (job_phases d)" for i
  proof -
    have "is_over (job_phases d ! i)" using dr that by (simp add: drained_def)
    with inv that show ?thesis by (cases "job_phases d ! i") (auto simp: is_over_def pool_inv_def expected_answers_def)
  qed
  ultimately show ?thesis using after(2) by blast
qed

section \<open>What the bus is told\<close>

lemma pool_reply_in:
  "(i, answer) \<in> set (pool_replies R panics requests d) \<longleftrightarrow>
   (\<exists>a. (i, a) \<in> set (answer_log d) \<and> dispatch_callout R panics (requests i) a = Some answer)"
  by (force simp: pool_replies_def map_filter_def split: option.splits)

lemma replies_of_request:
  "length (filter (\<lambda>(j, _). j = i) (List.map_filter (\<lambda>(j, a). map_option (Pair j) (f j a)) xs)) \<le> length (filter (\<lambda>(j, _). j = i) xs)"
  by (induction xs) (auto simp: map_filter_simps split: option.splits)

text \<open>
  Claim C24. Composed with the pool, the responder sends each request at most one reply. A reply that carries an
  identity goes to a request that was verified: its principal is in the matrix, its password was
  accepted, and the identity has exactly the matrix's subjects, none of the two lists being empty (which
  would mean everything). All other replies to a request are one and the same refusal, whether the principal
  is unknown, the password wrong, the pool full or closing, or the verification panicked.
\<close>

theorem bus_identities_follow_matrix:
  assumes "pool_reaches z new_dispatcher d"
  shows "(\<forall>i. length (filter (\<lambda>(j, _). j = i) (pool_replies R panics requests d)) \<le> 1) \<and>
    (\<forall>i answer. (i, answer) \<in> set (pool_replies R panics requests d) \<longrightarrow> (\<exists>req. requests i = Some req \<and>
      (case response_token answer of
         None \<Rightarrow> answer = \<lparr>response_subject = user_nkey req, response_audience = server_id req, response_token = None, response_error = refusal_reason\<rparr>
       | Some t \<Rightarrow> (i, Served) \<in> set (answer_log d) \<and> (\<exists>perms. permissions_for (connect_user req) (resp_stream R) = Inr perms \<and>
           resp_verify R (connect_user req) (connect_password req) \<and> t = user_token_for (resp_account R) (user_nkey req) (connect_user req) perms \<and>
           rules_allow (token_sub t) = may_subscribe perms \<and> rules_allow (token_pub t) = may_publish perms \<and>
           may_subscribe perms \<noteq> [] \<and> may_publish perms \<noteq> []))))"
proof (intro conjI allI impI)
  have inv: "pool_inv z d" by (rule pool_inv_reached [OF assms])
  then have "length (answers_of i d) \<le> 1" for i by (auto simp: pool_inv_def expected_answers_def split: option.splits)
  then show "length (filter (\<lambda>(j, _). j = i) (pool_replies R panics requests d)) \<le> 1" for i
    unfolding pool_replies_def using replies_of_request [of i "\<lambda>j a. dispatch_callout R panics (requests j) a" "answer_log d"]
    by (force simp: answers_of_def intro: order_trans)
  fix i answer assume "(i, answer) \<in> set (pool_replies R panics requests d)"
  then obtain a where a: "(i, a) \<in> set (answer_log d)" "dispatch_callout R panics (requests i) a = Some answer" by (auto simp: pool_reply_in)
  then obtain req where req: "requests i = Some req"
    by (cases "requests i") (auto simp: dispatch_callout_def serve_callout_def handle_callout_def refuse_callout_def split: pool_answer.splits)
  have "handle_callout R (Some req) = Some answer \<and> a = Served \<or> refuse_callout R (Some req) = Some answer"
    using a(2) req by (auto simp: dispatch_callout_def serve_callout_def split: pool_answer.splits if_splits)
  then show "\<exists>req. requests i = Some req \<and> (case response_token answer of
         None \<Rightarrow> answer = \<lparr>response_subject = user_nkey req, response_audience = server_id req, response_token = None, response_error = refusal_reason\<rparr>
       | Some t \<Rightarrow> (i, Served) \<in> set (answer_log d) \<and> (\<exists>perms. permissions_for (connect_user req) (resp_stream R) = Inr perms \<and>
           resp_verify R (connect_user req) (connect_password req) \<and> t = user_token_for (resp_account R) (user_nkey req) (connect_user req) perms \<and>
           rules_allow (token_sub t) = may_subscribe perms \<and> rules_allow (token_pub t) = may_publish perms \<and>
           may_subscribe perms \<noteq> [] \<and> may_publish perms \<noteq> []))"
    using callout_grants_matrix [of R req answer] refused_answer [of R req answer] a(1) req by (auto split: option.splits)
qed

section \<open>Concrete pools\<close>

definition one_worker :: pool_size where "one_worker = \<lparr>pool_workers = 1, pool_capacity = 1\<rparr>"

definition after_steps :: "(bool \<times> nat) list \<Rightarrow> dispatcher \<Rightarrow> dispatcher option" where
  "after_steps steps d = fold (\<lambda>(fired, i) r. case r of None \<Rightarrow> None | Some d \<Rightarrow> advance one_worker fired i d) steps (Some d)"

lemma after_none: "fold (\<lambda>(fired, i) r. case r of None \<Rightarrow> None | Some d \<Rightarrow> advance one_worker fired i d) steps None = None"
  by (induction steps) auto

lemma after_steps_reaches:
  "after_steps steps d = Some d' \<Longrightarrow> pool_reaches one_worker d0 d \<Longrightarrow> pool_reaches one_worker d0 d'"
proof (induction steps arbitrary: d)
  case (Cons s steps)
  obtain fired i where s: "s = (fired, i)" by (cases s)
  with Cons.prems(1) obtain d1 where d1: "advance one_worker fired i d = Some d1" "after_steps steps d1 = Some d'"
    by (cases "advance one_worker fired i d") (auto simp: after_steps_def s after_none)
  show ?case by (rule Cons.IH [OF d1(2) pool_reaches.Step [OF Cons.prems(2) Advance [OF d1(1)]]])
qed (simp add: after_steps_def)

lemma admitted_reaches: "pool_reaches one_worker new_dispatcher (admit_request one_worker (admit_request one_worker new_dispatcher))"
  by (intro pool_reaches.Step [OF pool_reaches.Step [OF pool_reaches.Here Arrive] Arrive])

lemma after_steps_runs: "after_steps steps d = Some d' \<Longrightarrow> pool_runs one_worker (length steps) d d'"
proof (induction steps arbitrary: d)
  case (Cons s steps)
  obtain fired i where s: "s = (fired, i)" by (cases s)
  with Cons.prems obtain d1 where d1: "advance one_worker fired i d = Some d1" "after_steps steps d1 = Some d'"
    by (cases "advance one_worker fired i d") (auto simp: after_steps_def s after_none)
  show ?case using Go [OF d1(1) Cons.IH [OF d1(2)]] by simp
qed (simp add: after_steps_def Stop)

lemma every_request_answered_once_witness:
  "\<exists>d'. pool_runs one_worker 8 (admit_request one_worker (admit_request one_worker new_dispatcher)) d' \<and>
     (\<exists>a. answers_of 0 d' = [(0, a)]) \<and> (\<exists>a. answers_of 1 d' = [(1, a)])"
proof -
  let ?d = "admit_request one_worker (admit_request one_worker new_dispatcher)"
  let ?steps = "(False, 1) # map (Pair False) (replicate 7 0)"
  have c: "case after_steps ?steps ?d of None \<Rightarrow> False | Some d' \<Rightarrow> job_phases d' = [Finished Served, Finished Rejected]"
    "length (job_phases ?d) = 2" "length ?steps = 8" by code_simp+
  then obtain d' where d': "after_steps ?steps ?d = Some d'" by (cases "after_steps ?steps ?d") auto
  with c(1) have ph: "job_phases d' = [Finished Served, Finished Rejected]" by simp
  have run: "pool_runs one_worker 8 ?d d'" using after_steps_runs [OF d'] c(3) by metis
  have "\<forall>fired i. advance one_worker fired i d' = None" by (auto simp: advance_def ph less_Suc_eq)
  then have "\<forall>i < length (job_phases ?d). \<exists>a. answers_of i d' = [(i, a)]"
    using every_request_answered_once [OF admitted_reaches] run by blast
  with c(2) run show ?thesis by auto
qed

lemma close_waits_for_admitted_witness:
  "\<exists>d. pool_reaches one_worker new_dispatcher d \<and> close_returns d \<and> job_phases d = [Finished Served, Denied] \<and>
     served_log (admit_request one_worker d) = served_log d"
proof -
  let ?steps = "map (Pair False) (replicate 7 0)"
  have c: "case after_steps ?steps (drain (admit_request one_worker (admit_request one_worker new_dispatcher))) of None \<Rightarrow> False
     | Some d \<Rightarrow> close_returns d \<and> job_phases d = [Finished Served, Denied]" by code_simp
  then obtain d where d: "after_steps ?steps (drain (admit_request one_worker (admit_request one_worker new_dispatcher))) = Some d"
    by (cases "after_steps ?steps (drain (admit_request one_worker (admit_request one_worker new_dispatcher)))") auto
  with c have d': "close_returns d" "job_phases d = [Finished Served, Denied]" by simp_all
  have r: "pool_reaches one_worker new_dispatcher d"
    by (rule after_steps_reaches [OF d pool_reaches.Step [OF admitted_reaches Drain]])
  from close_waits_for_admitted [OF r d'(1) pool_reaches.Step [OF pool_reaches.Here Arrive]] r d' show ?thesis by blast
qed

lemma bus_identities_follow_matrix_witness:
  "\<exists>d. pool_reaches one_worker new_dispatcher d \<and> (\<exists>answer t. pool_replies sample_responder (\<lambda>_. False)
     (\<lambda>_. Some \<lparr>user_nkey = ''U'', server_id = ''S'', connect_user = ''svc-graphql'', connect_password = ''right''\<rparr>) d = [(0, answer)] \<and>
     response_token answer = Some t \<and> rules_allow (token_pub t) \<noteq> [])"
proof -
  let ?requests = "\<lambda>_ :: nat. Some \<lparr>user_nkey = ''U'', server_id = ''S'', connect_user = ''svc-graphql'', connect_password = ''right''\<rparr>"
  let ?steps = "map (Pair False) (replicate 3 0)"
  let ?replies = "pool_replies sample_responder (\<lambda>_. False) ?requests"
  have c: "case after_steps ?steps (admit_request one_worker (admit_request one_worker new_dispatcher)) of None \<Rightarrow> False
     | Some d \<Rightarrow> length (?replies d) = 1 \<and> fst (hd (?replies d)) = 0 \<and> response_token (snd (hd (?replies d))) \<noteq> None" by code_simp
  then obtain d where d: "after_steps ?steps (admit_request one_worker (admit_request one_worker new_dispatcher)) = Some d"
    by (cases "after_steps ?steps (admit_request one_worker (admit_request one_worker new_dispatcher))") auto
  with c obtain answer t where r: "?replies d = [(0, answer)]" "response_token answer = Some t"
    by (cases "?replies d") auto
  have reach: "pool_reaches one_worker new_dispatcher d" by (rule after_steps_reaches [OF d admitted_reaches])
  have "rules_allow (token_pub t) \<noteq> []"
    using bus_identities_follow_matrix [OF reach, of sample_responder "\<lambda>_. False" ?requests, THEN conjunct2, rule_format, of 0 answer] r by auto
  with reach r show ?thesis by blast
qed

end
