(* ===== verification/Sigv4_Canonical.thy ===== *)
theory Sigv4_Canonical
  imports Go_Strings "HOL-Library.Product_Lexorder"
begin

text \<open>
  The canonical form of a request that an S3 client signs, after \<^verbatim>\<open>internal/s3gateway/sigv4/canonical.go\<close>, and
  the errors of \<^verbatim>\<open>errors.go\<close>. A request is what Go's server hands over: the method, the decoded path, the raw
  query, the host, and the other headers under their names in lower case, each with at least one value.
\<close>

section \<open>Requests\<close>

record http_request =
  hr_method :: string
  hr_path :: string
  hr_query :: string
  hr_host :: string
  hr_headers :: "(string \<times> string \<times> string list) list"
  hr_content_length :: int
  hr_transfer_encoding :: "string list"
  hr_body :: string

definition values_of :: "http_request \<Rightarrow> string \<Rightarrow> string list" where
  "values_of r name = (case map_of (hr_headers r) (to_lower name) of None \<Rightarrow> [] | Some (v, vs) \<Rightarrow> v # vs)"

definition header_get :: "http_request \<Rightarrow> string \<Rightarrow> string" where
  "header_get r name = (case values_of r name of [] \<Rightarrow> [] | v # _ \<Rightarrow> v)"

section \<open>Errors\<close>

record s3_error =
  err_status :: nat
  err_code :: string
  err_message :: string

definition make_s3_error :: "nat \<Rightarrow> string \<Rightarrow> string \<Rightarrow> s3_error" where
  "make_s3_error status code message = \<lparr>err_status = status, err_code = code, err_message = message\<rparr>"

definition err_denied :: s3_error where
  "err_denied = make_s3_error 403 ''AccessDenied'' ''the access key is not valid or the request signature does not match''"

definition err_malformed :: "string \<Rightarrow> s3_error" where
  "err_malformed message = make_s3_error 400 ''AuthorizationHeaderMalformed'' message"

definition err_invalid_request :: "string \<Rightarrow> s3_error" where
  "err_invalid_request message = make_s3_error 400 ''InvalidRequest'' message"

definition err_incomplete :: s3_error where
  "err_incomplete = make_s3_error 400 ''IncompleteBody'' ''the request body is shorter than its declared length''"

definition err_bad_digest :: "string \<Rightarrow> s3_error" where
  "err_bad_digest name = make_s3_error 400 ''BadDigest'' (''the '' @ name @ '' you specified did not match the body'')"

section \<open>Encoding\<close>

abbreviation newline :: char where "newline \<equiv> CHR 0x0A"

definition unreserved :: "char \<Rightarrow> bool" where
  "unreserved c \<longleftrightarrow> c \<in> set ''ABCDEFGHIJKLMNOPQRSTUVWXYZabcdefghijklmnopqrstuvwxyz0123456789-_.~''"

definition upper_hex_digit :: "nat \<Rightarrow> char" where
  "upper_hex_digit n = ''0123456789ABCDEF'' ! n"

definition encode_char :: "bool \<Rightarrow> char \<Rightarrow> string" where
  "encode_char keep_slash c = (if unreserved c \<or> c = CHR ''/'' \<and> keep_slash then [c]
     else let n = of_char c :: nat in [CHR ''%'', upper_hex_digit (n div 16), upper_hex_digit (n mod 16)])"

definition aws_encode :: "string \<Rightarrow> bool \<Rightarrow> string" where
  "aws_encode s keep_slash = concat (map (encode_char keep_slash) s)"

text \<open>\<open>url.PathUnescape\<close>.\<close>

fun path_unescape :: "string \<Rightarrow> string option" where
  "path_unescape [] = Some []"
| "path_unescape (c # s) = (if c \<noteq> CHR ''%'' then map_option ((#) c) (path_unescape s)
     else case s of a # b # r \<Rightarrow> (case (hex_value a, hex_value b) of
         (Some m, Some n) \<Rightarrow> map_option ((#) (char_of (16 * m + n))) (path_unescape r) | _ \<Rightarrow> None)
       | _ \<Rightarrow> None)"

definition canonical_uri :: "http_request \<Rightarrow> string" where
  "canonical_uri r = (if hr_path r = [] then ''/'' else aws_encode (hr_path r) True)"

section \<open>The query\<close>

definition decode_pair :: "string \<Rightarrow> (string \<times> string) option" where
  "decode_pair part = (case cut_at CHR ''='' part of (name, val, _) \<Rightarrow>
     (case (path_unescape name, path_unescape val) of (Some n, Some v) \<Rightarrow> Some (n, v) | _ \<Rightarrow> None))"

text \<open>The pairs of a raw query in its order; \<open>None\<close> when one is not valid percent-encoding.\<close>

fun decode_pairs :: "string list \<Rightarrow> (string \<times> string) list option" where
  "decode_pairs [] = Some []"
| "decode_pairs (part # parts) = (if part = [] then decode_pairs parts
     else case (decode_pair part, decode_pairs parts) of (Some p, Some ps) \<Rightarrow> Some (p # ps) | _ \<Rightarrow> None)"

definition query_pairs :: "string \<Rightarrow> (string \<times> string) list option" where
  "query_pairs raw = (if raw = [] then Some [] else decode_pairs (split_on CHR ''&'' raw))"

definition encode_pair :: "string \<times> string \<Rightarrow> string \<times> string" where
  "encode_pair p = (aws_encode (fst p) False, aws_encode (snd p) False)"

definition canonical_query :: "string \<Rightarrow> string option" where
  "canonical_query raw = map_option (\<lambda>ps.
     join_with CHR ''&'' (map (\<lambda>(n, v). n @ ''='' @ v) (sort (map encode_pair ps)))) (query_pairs raw)"

section \<open>The headers\<close>

definition header_values :: "http_request \<Rightarrow> string \<Rightarrow> string list" where
  "header_values r name = (if name = ''host'' then [hr_host r]
     else if name = ''content-length'' then
       (if values_of r name \<noteq> [] then values_of r name else if hr_content_length r \<ge> 0 then [itoa (hr_content_length r)] else [])
     else if name = ''transfer-encoding'' \<and> hr_transfer_encoding r \<noteq> [] then hr_transfer_encoding r
     else values_of r name)"

text \<open>\<open>strings.Fields\<close>: the field under construction comes first.\<close>

function fields_loop :: "string \<Rightarrow> string \<Rightarrow> string list" where
  "fields_loop field s = (case s of [] \<Rightarrow> if field = [] then [] else [field]
     | c # r \<Rightarrow> (case find (\<lambda>sp. sp \<noteq> [] \<and> prefix sp s) space_encodings of
         None \<Rightarrow> fields_loop (field @ [c]) r
       | Some sp \<Rightarrow> (if field = [] then [] else [field]) @ fields_loop [] (drop (length sp) s)))"
  by auto
termination
proof (relation "measure (\<lambda>(_, s). length s)")
  fix s sp :: string and c r assume "s = c # r" "find (\<lambda>sp. sp \<noteq> [] \<and> prefix sp s) space_encodings = Some sp"
  then have "sp \<noteq> [] \<and> s \<noteq> []" by (auto simp: find_Some_iff)
  then show "(([], drop (length sp) s), field, s) \<in> measure (\<lambda>(_, s). length s)" for field by (cases sp) auto
qed auto

declare fields_loop.simps [simp del]

text \<open>The encodings of white space written out, for evaluation.\<close>

lemma space_encodings_code [code]: "space_encodings = [[CHR 0x09], [CHR 0x0A], [CHR 0x0B], [CHR 0x0C], [CHR 0x0D], [CHR 0x20], [CHR 0xC2, CHR 0x85], [CHR 0xC2, CHR 0xA0], [CHR 0xE1, CHR 0x9A, CHR 0x80], 
     [CHR 0xE2, CHR 0x80, CHR 0xA8], [CHR 0xE2, CHR 0x80, CHR 0xA9], [CHR 0xE2, CHR 0x80, CHR 0xAF], [CHR 0xE2, CHR 0x81, CHR 0x9F], [CHR 0xE3, CHR 0x80, CHR 0x80],
     [CHR 0xE2, CHR 0x80, CHR 0x80], [CHR 0xE2, CHR 0x80, CHR 0x81], [CHR 0xE2, CHR 0x80, CHR 0x82], [CHR 0xE2, CHR 0x80, CHR 0x83], [CHR 0xE2, CHR 0x80, CHR 0x84], [CHR 0xE2, CHR 0x80, CHR 0x85], [CHR 0xE2, CHR 0x80, CHR 0x86], [CHR 0xE2, CHR 0x80, CHR 0x87], [CHR 0xE2, CHR 0x80, CHR 0x88], [CHR 0xE2, CHR 0x80, CHR 0x89], [CHR 0xE2, CHR 0x80, CHR 0x8A]]"
  unfolding space_encodings_def by code_simp

definition str_fields :: "string \<Rightarrow> string list" where
  "str_fields s = fields_loop [] s"

definition clean_value :: "string \<Rightarrow> string" where
  "clean_value v = join_with CHR '' '' (str_fields v)"

definition canonical_header :: "http_request \<Rightarrow> string \<Rightarrow> string" where
  "canonical_header r name = name @ '':'' @ join_with CHR '','' (map clean_value (header_values r name))"

definition canonical_headers :: "http_request \<Rightarrow> string list \<Rightarrow> string" where
  "canonical_headers r names = concat (map (\<lambda>name. canonical_header r name @ [newline]) names)"

end
