(* ===== verification/Sigv4_Verify.thy ===== *)
theory Sigv4_Verify
  imports Sigv4_Canonical Go_Time
begin

text \<open>
  Who signed an S3 request, after \<^verbatim>\<open>internal/s3gateway/sigv4/verify.go\<close>. SHA-256 and HMAC are parameters, and
  so are the parser of the HTTP date and the lookup of a query parameter; \<^verbatim>\<open>time.Parse\<close> is modelled for
  the one layout the code uses.
\<close>

section \<open>Names\<close>

definition sig_algorithm :: string where "sig_algorithm = ''AWS4-HMAC-SHA256''"
definition scope_date_size :: nat where "scope_date_size = 8"
definition scope_service :: string where "scope_service = ''s3''"
definition scope_terminal :: string where "scope_terminal = ''aws4_request''"
definition signature_bytes :: nat where "signature_bytes = 32"
definition unsigned_payload :: string where "unsigned_payload = ''UNSIGNED-PAYLOAD''"
definition streaming_signed_payload :: string where "streaming_signed_payload = ''STREAMING-AWS4-HMAC-SHA256-PAYLOAD''"
definition streaming_signed_payload_trailer :: string where
  "streaming_signed_payload_trailer = ''STREAMING-AWS4-HMAC-SHA256-PAYLOAD-TRAILER''"
definition streaming_unsigned_payload_trailer :: string where
  "streaming_unsigned_payload_trailer = ''STREAMING-UNSIGNED-PAYLOAD-TRAILER''"
definition default_max_skew :: duration where "default_max_skew = 15 * 60 * second"

datatype payload_mode = Payload_Signed | Payload_Unsigned | Payload_Streaming_Signed
  | Payload_Streaming_Signed_Trailer | Payload_Streaming_Unsigned_Trailer

text \<open>The functions the package calls on bytes; a string is one \<open>char\<close> per byte.\<close>

record sig_crypto =
  sha256_of :: "string \<Rightarrow> bytes"
  hmac_of :: "bytes \<Rightarrow> string \<Rightarrow> bytes"
  http_date :: "string \<Rightarrow> string option"
  query_has :: "string \<Rightarrow> string \<Rightarrow> bool"

definition string_bytes :: "string \<Rightarrow> bytes" where
  "string_bytes s = map (\<lambda>c. of_nat (of_char c)) s"

datatype lookup_error = Unknown_Key | Lookup_Unavailable

record sig_verifier =
  key_lookup :: "string \<Rightarrow> (lookup_error, string) result"
  verifier_now :: instant
  max_skew :: duration

record sig_auth =
  auth_key_id :: string
  auth_payload :: payload_mode
  auth_payload_hash :: string
  auth_signing_key :: bytes
  auth_scope :: string
  auth_date :: string
  auth_seed :: string

record sig_authorization =
  az_key_id :: string
  az_scope_date :: string
  az_region :: string
  az_signed_headers :: "string list"
  az_signature :: string

section \<open>The header\<close>

fun parse_fields :: "string list \<Rightarrow> (string \<Rightarrow> string) \<Rightarrow> (string \<Rightarrow> string) option" where
  "parse_fields [] fs = Some fs"
| "parse_fields (part # parts) fs = (case cut_at CHR ''='' (trim_space part) of
     (name, field, ok) \<Rightarrow> if \<not> ok then None else parse_fields parts (fs(name := field)))"

definition parse_authorization :: "string \<Rightarrow> (s3_error, sig_authorization) result" where
  "parse_authorization text = (case parse_fields (split_on CHR '','' text) (\<lambda>_. []) of
     None \<Rightarrow> Inl (err_malformed ''the authorization header is malformed'')
   | Some fs \<Rightarrow> let credential = split_on CHR ''/'' (fs ''Credential'') in
       if length credential \<noteq> 5 \<or> credential ! 0 = [] \<or> length (credential ! 1) \<noteq> scope_date_size \<or> credential ! 2 = []
       then Inl (err_malformed ''the credential must be <key>/<date>/<region>/s3/aws4_request'')
       else if credential ! 3 \<noteq> scope_service \<or> credential ! 4 \<noteq> scope_terminal
       then Inl (err_malformed ''the credential scope must be for s3 and end in aws4_request'')
       else if fs ''SignedHeaders'' = [] then Inl (err_malformed ''SignedHeaders is required'')
       else (case hex_decode (fs ''Signature'') of
           None \<Rightarrow> Inl (err_malformed ''the signature must be 32 hex bytes'')
         | Some decoded \<Rightarrow> if length decoded \<noteq> signature_bytes then Inl (err_malformed ''the signature must be 32 hex bytes'')
             else Inr \<lparr>az_key_id = credential ! 0, az_scope_date = credential ! 1, az_region = credential ! 2,
               az_signed_headers = split_on CHR '';'' (fs ''SignedHeaders''), az_signature = fs ''Signature''\<rparr>))"

definition payload_mode_of :: "string \<Rightarrow> (s3_error, payload_mode) result" where
  "payload_mode_of h = (if h = unsigned_payload then Inr Payload_Unsigned
     else if h = streaming_signed_payload then Inr Payload_Streaming_Signed
     else if h = streaming_signed_payload_trailer then Inr Payload_Streaming_Signed_Trailer
     else if h = streaming_unsigned_payload_trailer then Inr Payload_Streaming_Unsigned_Trailer
     else if (case hex_decode h of None \<Rightarrow> False | Some decoded \<Rightarrow> length decoded = 32) then Inr Payload_Signed
     else Inl (make_s3_error 400 ''InvalidArgument'' ''x-amz-content-sha256 must be a sha256 or a known payload mode''))"

section \<open>The date\<close>

text \<open>\<^verbatim>\<open>time.Parse\<close> for \<^verbatim>\<open>20060102T150405Z\<close>: a fraction may follow the seconds although the layout has none.\<close>

definition digits_int :: "string \<Rightarrow> int" where
  "digits_int s = foldl (\<lambda>n c. 10 * n + int (digit_value c)) 0 s"

definition days_in :: "int \<Rightarrow> int \<Rightarrow> int" where
  "days_in m y = (if m = 2 then (if y mod 4 = 0 \<and> (y mod 100 \<noteq> 0 \<or> y mod 400 = 0) then 29 else 28)
     else if m \<in> {4, 6, 9, 11} then 30 else 31)"

definition days_since_epoch :: "int \<Rightarrow> int \<Rightarrow> int \<Rightarrow> int" where
  "days_since_epoch y m d = (let y' = (if m \<le> 2 then y - 1 else y); era = y' div 400; yoe = y' mod 400;
     doy = (153 * (if m > 2 then m - 3 else m + 9) + 2) div 5 + d - 1
     in era * 146097 + yoe * 365 + yoe div 4 - yoe div 100 + doy - 719468)"

definition parse_fraction :: "string \<Rightarrow> int \<times> string" where
  "parse_fraction s = (case s of
     c # d # r \<Rightarrow> if (c = CHR ''.'' \<or> c = CHR '','') \<and> is_digit d
       then let ds = take 9 (takeWhile is_digit (d # r)) in (digits_int ds * 10 ^ (9 - length ds), dropWhile is_digit (d # r))
       else (0, s)
   | _ \<Rightarrow> (0, s))"

definition parse_amz_date :: "string \<Rightarrow> instant option" where
  "parse_amz_date s =
     (if length s < 15 \<or> \<not> list_all is_digit (take 8 s) \<or> s ! 8 \<noteq> CHR ''T'' \<or> \<not> list_all is_digit (take 6 (drop 9 s)) then None
      else let y = digits_int (take 4 s); mo = digits_int (take 2 (drop 4 s)); d = digits_int (take 2 (drop 6 s));
        h = digits_int (take 2 (drop 9 s)); mi = digits_int (take 2 (drop 11 s)); sec = digits_int (take 2 (drop 13 s))
      in if mo < 1 \<or> 12 < mo \<or> 24 \<le> h \<or> 60 \<le> mi \<or> 60 \<le> sec then None
      else case parse_fraction (drop 15 s) of (ns, rest) \<Rightarrow>
        if rest \<noteq> ''Z'' \<or> d < 1 \<or> days_in mo y < d then None
        else Some ((((days_since_epoch y mo d * 24 + h) * 60 + mi) * 60 + sec) * second + ns))"

definition request_date :: "sig_crypto \<Rightarrow> http_request \<Rightarrow> sig_authorization \<Rightarrow> (s3_error, string \<times> instant) result" where
  "request_date C r parsed =
     (if ''host'' \<notin> set (az_signed_headers parsed) \<or> ''x-amz-content-sha256'' \<notin> set (az_signed_headers parsed)
      then Inl (err_malformed ''host and x-amz-content-sha256 must be signed'')
      else let given = header_get r ''x-amz-date'';
        (date_header, amz_date) = (if given \<noteq> [] then (''x-amz-date'', given)
          else (''date'', case http_date C (header_get r ''date'') of None \<Rightarrow> [] | Some d \<Rightarrow> d))
      in if date_header \<notin> set (az_signed_headers parsed) then Inl (err_malformed ''the request date must be signed'')
      else case parse_amz_date amz_date of None \<Rightarrow> Inl (err_malformed ''the request date is not valid'')
      | Some at \<Rightarrow> if take scope_date_size amz_date \<noteq> az_scope_date parsed
          then Inl (err_malformed ''the credential date must be the request's date'') else Inr (amz_date, at))"

definition check_skew :: "sig_verifier \<Rightarrow> instant \<Rightarrow> (s3_error, unit) result" where
  "check_skew V signed_at = (let limit = (if max_skew V \<le> 0 then default_max_skew else max_skew V);
     skew = time_sub (verifier_now V) signed_at in
     if skew > limit \<or> skew < - limit
     then Inl (make_s3_error 403 ''RequestTimeTooSkewed'' ''the difference between the request time and the server's time is too large'')
     else Inr ())"

section \<open>The signature\<close>

definition signing_key :: "sig_crypto \<Rightarrow> string \<Rightarrow> string \<Rightarrow> string \<Rightarrow> bytes" where
  "signing_key C secret date region =
     hmac_of C (hmac_of C (hmac_of C (hmac_of C (string_bytes (''AWS4'' @ secret)) date) region) scope_service) scope_terminal"

definition signature_matches :: "string \<Rightarrow> bytes \<Rightarrow> bool" where
  "signature_matches given computed = (hex_decode given = Some computed)"

definition canonical_request :: "http_request \<Rightarrow> string \<Rightarrow> string list \<Rightarrow> string \<Rightarrow> string" where
  "canonical_request r query names payload_hash = join_with newline
     [hr_method r, canonical_uri r, query, canonical_headers r names, join_with CHR '';'' names, payload_hash]"

definition auth_scope_of :: "sig_authorization \<Rightarrow> string" where
  "auth_scope_of parsed = join_with CHR ''/'' [az_scope_date parsed, az_region parsed, scope_service, scope_terminal]"

definition string_to_sign :: "sig_crypto \<Rightarrow> string \<Rightarrow> string \<Rightarrow> string \<Rightarrow> string" where
  "string_to_sign C amz_date scope canonical = join_with newline [sig_algorithm, amz_date, scope, hex_encode (sha256_of C canonical)]"

definition check_signature :: "sig_crypto \<Rightarrow> sig_verifier \<Rightarrow> http_request \<Rightarrow> sig_authorization \<Rightarrow> payload_mode \<Rightarrow> string \<Rightarrow> string \<Rightarrow>
    (s3_error, sig_auth) result" where
  "check_signature C V r parsed mode payload_hash amz_date = (case key_lookup V (az_key_id parsed) of
     Inl Unknown_Key \<Rightarrow> Inl err_denied
   | Inl Lookup_Unavailable \<Rightarrow> Inl (make_s3_error 503 ''ServiceUnavailable'' ''please retry the request later'')
   | Inr secret \<Rightarrow> (case canonical_query (hr_query r) of
       None \<Rightarrow> Inl (err_invalid_request ''the query string is not valid percent-encoding'')
     | Some query \<Rightarrow>
         let canonical = canonical_request r query (az_signed_headers parsed) payload_hash; scope = auth_scope_of parsed;
             key = signing_key C secret (az_scope_date parsed) (az_region parsed)
         in if \<not> signature_matches (az_signature parsed) (hmac_of C key (string_to_sign C amz_date scope canonical)) then Inl err_denied
            else Inr \<lparr>auth_key_id = az_key_id parsed, auth_payload = mode, auth_payload_hash = payload_hash, auth_signing_key = key,
              auth_scope = scope, auth_date = amz_date, auth_seed = az_signature parsed\<rparr>))"

text \<open>What is checked before the key is looked up.\<close>

definition before_lookup :: "sig_crypto \<Rightarrow> sig_verifier \<Rightarrow> http_request \<Rightarrow>
    (s3_error, sig_authorization \<times> payload_mode \<times> string \<times> string) result" where
  "before_lookup C V r = (let header = header_get r ''authorization'' in
     if header = [] then Inl (make_s3_error 403 ''AccessDenied''
       (if query_has C (hr_query r) ''X-Amz-Signature'' \<or> query_has C (hr_query r) ''X-Amz-Algorithm''
        then ''presigned URLs are not supported'' else ''anonymous requests are not allowed''))
     else (case cut_prefix (sig_algorithm @ '' '') header of
       None \<Rightarrow> Inl (make_s3_error 403 ''AccessDenied'' ''only AWS Signature Version 4 (AWS4-HMAC-SHA256) is supported'')
     | Some text \<Rightarrow> bind_result (parse_authorization text) (\<lambda>parsed.
         let payload_hash = header_get r ''x-amz-content-sha256'' in
         if payload_hash = [] then Inl (err_invalid_request ''x-amz-content-sha256 is required'')
         else bind_result (payload_mode_of payload_hash) (\<lambda>mode.
           bind_result (request_date C r parsed) (\<lambda>(amz_date, at).
             bind_result (check_skew V at) (\<lambda>_. Inr (parsed, mode, payload_hash, amz_date)))))))"

definition verify_request :: "sig_crypto \<Rightarrow> sig_verifier \<Rightarrow> http_request \<Rightarrow> (s3_error, sig_auth) result" where
  "verify_request C V r = bind_result (before_lookup C V r) (\<lambda>(parsed, mode, payload_hash, amz_date).
     check_signature C V r parsed mode payload_hash amz_date)"

end
