(* ===== verification/Sigv4_Verify_Correct.thy ===== *)
theory Sigv4_Verify_Correct
  imports Sigv4_Canonical_Correct
begin

text \<open>
  A verified request cannot be altered where its signature looks, and what the answers to refused requests
  tell of which access keys exist.
\<close>

section \<open>Lines\<close>

lemma line_split: "c \<notin> set a \<Longrightarrow> c \<notin> set b \<Longrightarrow> a @ c # x = b @ c # y \<longleftrightarrow> a = b \<and> x = y"
proof (induction a arbitrary: b)
  case Nil then show ?case by (cases b) auto
next
  case (Cons d a) then show ?case by (cases b) auto
qed

lemma fields_no_newline: "newline \<notin> set field \<Longrightarrow> f \<in> set (fields_loop field s) \<Longrightarrow> newline \<notin> set f"
proof (induction field s rule: fields_loop.induct)
  case (1 field s)
  show ?case
  proof (cases s)
    case Nil
    with 1 show ?thesis by (simp add: fields_loop.simps [of field "[]"] split: if_splits)
  next
    case (Cons c r)
    have nl: "[newline] \<in> set space_encodings" by code_simp
    show ?thesis
    proof (cases "find (\<lambda>sp. sp \<noteq> [] \<and> prefix sp s) space_encodings")
      case None
      then have "\<not> prefix [newline] s" using nl by (auto simp: find_None_iff)
      then have "c \<noteq> newline" using Cons by auto
      with 1 Cons None show ?thesis by (simp add: fields_loop.simps [of field "c # r"])
    next
      case (Some sp)
      with 1 Cons show ?thesis by (auto simp: fields_loop.simps [of field "c # r"] split: if_splits)
    qed
  qed
qed

lemma join_no_newline: "sep \<noteq> c \<Longrightarrow> \<forall>w \<in> set ws. c \<notin> set w \<Longrightarrow> c \<notin> set (join_with sep ws)"
  using set_join_with [of sep ws] by auto

lemma clean_value_line [simp]: "newline \<notin> set (clean_value v)"
  unfolding clean_value_def str_fields_def by (rule join_no_newline) (auto dest: fields_no_newline [rotated])

text \<open>What the signature covers of one header.\<close>

definition signed_value :: "http_request \<Rightarrow> string \<Rightarrow> string" where
  "signed_value r name = join_with CHR '','' (map clean_value (header_values r name))"

lemma signed_value_line [simp]: "newline \<notin> set (signed_value r name)"
  unfolding signed_value_def by (rule join_no_newline) auto

lemma canonical_headers_inj:
  "canonical_headers r names @ x = canonical_headers r' names @ y \<Longrightarrow>
   x = y \<and> (\<forall>name \<in> set names. signed_value r name = signed_value r' name)"
proof (induction names)
  case (Cons n names)
  have "signed_value r n @ newline # (canonical_headers r names @ x) = signed_value r' n @ newline # (canonical_headers r' names @ y)"
    using Cons.prems by (simp add: canonical_headers_def canonical_header_def signed_value_def)
  then have "signed_value r n = signed_value r' n" "canonical_headers r names @ x = canonical_headers r' names @ y"
    using line_split by (metis signed_value_line)+
  with Cons.IH show ?case by simp
qed (simp add: canonical_headers_def)

lemma canonical_uri_line [simp]: "newline \<notin> set (canonical_uri r)"
  by (simp add: canonical_uri_def)

definition same_path :: "string \<Rightarrow> string \<Rightarrow> bool" where
  "same_path p q \<longleftrightarrow> p = q \<or> p \<in> {[], ''/''} \<and> q \<in> {[], ''/''}"

lemma canonical_uri_path: "canonical_uri r = canonical_uri r' \<Longrightarrow> same_path (hr_path r) (hr_path r')"
proof -
  assume eq: "canonical_uri r = canonical_uri r'"
  have root: "aws_encode p True = ''/'' \<Longrightarrow> p = ''/''" for p
    using aws_encode_inj [of p True "''/''"] by (simp add: aws_encode_def encode_char_def)
  show ?thesis
    using eq root [of "hr_path r"] root [of "hr_path r'"] by (auto simp: canonical_uri_def same_path_def aws_encode_inj split: if_splits)
qed

lemma canonical_query_line: "canonical_query q = Some c \<Longrightarrow> newline \<notin> set c"
proof -
  assume "canonical_query q = Some c"
  then obtain ps where c: "c = join_with CHR ''&'' (map (\<lambda>(n, v). n @ ''='' @ v) (sort (map encode_pair ps)))"
    by (auto simp: canonical_query_def)
  show ?thesis unfolding c by (rule join_no_newline) (auto simp: encode_pair_def)
qed

lemma canonical_request_covers:
  assumes "canonical_request r q names h = canonical_request r' q' names h'"
    "newline \<notin> set (hr_method r)" "newline \<notin> set (hr_method r')" "canonical_query (hr_query r) = Some q" "canonical_query (hr_query r') = Some q'"
  shows "hr_method r = hr_method r' \<and> same_path (hr_path r) (hr_path r') \<and> canonical_query (hr_query r) = canonical_query (hr_query r') \<and>
    (\<forall>name \<in> set names. signed_value r name = signed_value r' name) \<and> h = h'"
proof -
  note lines = assms(2,3) canonical_uri_line [of r] canonical_uri_line [of r'] canonical_query_line [OF assms(4)] canonical_query_line [OF assms(5)]
  have "hr_method r @ newline # canonical_uri r @ newline # q @ newline # canonical_headers r names @ newline # join_with CHR '';'' names @ newline # h =
    hr_method r' @ newline # canonical_uri r' @ newline # q' @ newline # canonical_headers r' names @ newline # join_with CHR '';'' names @ newline # h'"
    using assms(1) by (simp add: canonical_request_def)
  then have "hr_method r = hr_method r'" "canonical_uri r = canonical_uri r'" "q = q'" and
    rest: "canonical_headers r names @ newline # join_with CHR '';'' names @ newline # h =
      canonical_headers r' names @ newline # join_with CHR '';'' names @ newline # h'"
    using lines by (simp_all add: line_split)
  with canonical_headers_inj [OF rest] canonical_uri_path assms(4,5) show ?thesis by simp
qed

section \<open>Dates\<close>

lemma newline_no_digit: "\<not> is_digit newline"
  by (simp add: is_digit_def)

lemma digits_no_newline: "list_all is_digit s \<Longrightarrow> newline \<notin> set s"
  unfolding list_all_iff using newline_no_digit by blast

lemma newline_not_Z: "newline \<noteq> CHR ''Z''"
  by simp

lemma fraction_no_newline:
  assumes "parse_fraction s = (ns, ''Z'')"
  shows "newline \<notin> set s"
proof (cases "\<exists>c d r. s = c # d # r \<and> (c = CHR ''.'' \<or> c = CHR '','') \<and> is_digit d")
  case True
  then obtain c d r where s: "s = c # d # r" "c = CHR ''.'' \<or> c = CHR '',''" "is_digit d" by blast
  with assms have "dropWhile is_digit (d # r) = ''Z''" by (simp add: parse_fraction_def Let_def)
  then have "d # r = takeWhile is_digit (d # r) @ ''Z''" by (metis takeWhile_dropWhile_id)
  moreover have "newline \<notin> set (takeWhile is_digit (d # r))" using newline_no_digit by (blast dest: set_takeWhileD)
  ultimately have "newline \<notin> set (d # r)" using set_append [of "takeWhile is_digit (d # r)" "''Z''"] by (metis Un_iff empty_set list.simps(15) singletonD newline_not_Z)
  with s show ?thesis by auto
next
  case False
  with assms have "s = ''Z''" by (auto simp: parse_fraction_def Let_def split: list.splits if_splits)
  then show ?thesis by simp
qed

lemma parsed_date_line: "parse_amz_date s = Some t \<Longrightarrow> newline \<notin> set s"
proof -
  assume p: "parse_amz_date s = Some t"
  then have d: "\<not> length s < 15" "list_all is_digit (take 8 s)" "s ! 8 = CHR ''T''" "list_all is_digit (take 6 (drop 9 s))"
    unfolding parse_amz_date_def by (meson option.distinct(1))+
  with p have "\<exists>ns. parse_fraction (drop 15 s) = (ns, ''Z'')"
    by (auto simp: parse_amz_date_def Let_def split: if_splits prod.splits)
  then have f: "newline \<notin> set (drop 15 s)" using fraction_no_newline by blast
  have "s = take 8 s @ drop 8 s" by simp
  also have "drop 8 s = s ! 8 # drop 9 s" using Cons_nth_drop_Suc [of 8 s] d(1) by simp
  also have "drop 9 s = take 6 (drop 9 s) @ drop 15 s" using append_take_drop_id [of 6 "drop 9 s"] by simp
  finally have e: "take 8 s @ s ! 8 # take 6 (drop 9 s) @ drop 15 s = s" by (rule sym)
  have "newline \<notin> set (take 8 s @ s ! 8 # take 6 (drop 9 s) @ drop 15 s)" using f d digits_no_newline by auto
  then show ?thesis by (simp only: e not_False_eq_True)
qed

section \<open>What an accepted request fixes\<close>

text \<open>The canonical request and the string to sign, of a request that gets as far.\<close>

definition signed_parts :: "sig_crypto \<Rightarrow> sig_verifier \<Rightarrow> http_request \<Rightarrow> string \<times> string" where
  "signed_parts C V r = (case before_lookup C V r of Inl e \<Rightarrow> ([], [])
     | Inr (parsed, mode, payload_hash, amz_date) \<Rightarrow> (case canonical_query (hr_query r) of None \<Rightarrow> ([], [])
         | Some query \<Rightarrow> let canonical = canonical_request r query (az_signed_headers parsed) payload_hash in
             (canonical, string_to_sign C amz_date (auth_scope_of parsed) canonical)))"

lemma before_lookup_ok:
  assumes "before_lookup C V r = Inr (parsed, mode, h, d)"
  shows "\<exists>text at. cut_prefix (sig_algorithm @ '' '') (header_get r ''authorization'') = Some text \<and> parse_authorization text = Inr parsed \<and>
    h = header_get r ''x-amz-content-sha256'' \<and> payload_mode_of h = Inr mode \<and> request_date C r parsed = Inr (d, at) \<and> check_skew V at = Inr ()"
  using assms by (auto simp: before_lookup_def Let_def bind_result_Inr_iff split: if_splits option.splits)

lemma request_date_ok:
  assumes "request_date C r parsed = Inr (d, at)"
  shows "''host'' \<in> set (az_signed_headers parsed) \<and> ''x-amz-content-sha256'' \<in> set (az_signed_headers parsed) \<and>
    parse_amz_date d = Some at \<and> take scope_date_size d = az_scope_date parsed"
  using assms by (auto simp: request_date_def Let_def split: if_splits option.splits prod.splits)

lemma check_skew_ok: "check_skew V at = Inr () \<Longrightarrow> 0 < max_skew V \<Longrightarrow> max_skew V < max_duration \<Longrightarrow> \<bar>verifier_now V - at\<bar> \<le> max_skew V"
  by (auto simp: check_skew_def Let_def time_sub_def max_duration_def min_duration_def split: if_splits)

lemma verify_request_ok:
  assumes "verify_request C V r = Inr a"
  shows "\<exists>parsed mode h d secret query. before_lookup C V r = Inr (parsed, mode, h, d) \<and> key_lookup V (az_key_id parsed) = Inr secret \<and>
    canonical_query (hr_query r) = Some query \<and>
    signed_parts C V r = (canonical_request r query (az_signed_headers parsed) h,
      string_to_sign C d (auth_scope_of parsed) (canonical_request r query (az_signed_headers parsed) h)) \<and>
    hex_decode (az_signature parsed) = Some (hmac_of C (signing_key C secret (az_scope_date parsed) (az_region parsed)) (snd (signed_parts C V r))) \<and>
    a = \<lparr>auth_key_id = az_key_id parsed, auth_payload = mode, auth_payload_hash = h,
      auth_signing_key = signing_key C secret (az_scope_date parsed) (az_region parsed), auth_scope = auth_scope_of parsed,
      auth_date = d, auth_seed = az_signature parsed\<rparr>"
proof -
  obtain parsed mode h d where b: "before_lookup C V r = Inr (parsed, mode, h, d)" "check_signature C V r parsed mode h d = Inr a"
    using assms by (auto simp: verify_request_def bind_result_Inr_iff)
  then show ?thesis
    by (auto simp: check_signature_def signed_parts_def signature_matches_def Let_def split: sum.splits lookup_error.splits option.splits if_splits)
qed

lemma string_to_sign_inj:
  assumes "string_to_sign C d scope x = string_to_sign C d' scope y" "newline \<notin> set d" "newline \<notin> set d'"
  shows "d = d' \<and> sha256_of C x = sha256_of C y"
proof -
  have "d @ newline # scope @ newline # hex_encode (sha256_of C x) = d' @ newline # scope @ newline # hex_encode (sha256_of C y)"
    using assms(1) by (simp add: string_to_sign_def)
  then show ?thesis using assms(2,3) by (simp add: line_split inj_hex_encode)
qed

text \<open>
  Claim C36. Two requests that are accepted under one Authorization header, where SHA-256 and HMAC do not collide on
  what the two sign, have the same method, path, query pairs, payload hash and date, and the same values
  of every signed header, among which are the host and the payload hash: what is read of the body
  afterwards is checked against the same declaration. Anything altered there is therefore refused.
\<close>

theorem accepted_request_unaltered:
  assumes "verify_request C V r = Inr a" "verify_request C V r' = Inr a'"
    "header_get r' ''authorization'' = header_get r ''authorization''"
    "newline \<notin> set (hr_method r)" "newline \<notin> set (hr_method r')"
    "inj_on (sha256_of C) {fst (signed_parts C V r), fst (signed_parts C V r')}"
    "inj_on (hmac_of C (auth_signing_key a)) {snd (signed_parts C V r), snd (signed_parts C V r')}"
  shows "a' = a \<and> hr_method r' = hr_method r \<and> same_path (hr_path r') (hr_path r) \<and>
    map_option mset (query_pairs (hr_query r')) = map_option mset (query_pairs (hr_query r)) \<and>
    (\<exists>text parsed. cut_prefix (sig_algorithm @ '' '') (header_get r ''authorization'') = Some text \<and> parse_authorization text = Inr parsed \<and>
      {''host'', ''x-amz-content-sha256''} \<subseteq> set (az_signed_headers parsed) \<and>
      list_all (\<lambda>name. signed_value r' name = signed_value r name) (az_signed_headers parsed))"
proof -
  obtain parsed mode h d secret query where v: "before_lookup C V r = Inr (parsed, mode, h, d)" "key_lookup V (az_key_id parsed) = Inr secret"
    "canonical_query (hr_query r) = Some query"
    "signed_parts C V r = (canonical_request r query (az_signed_headers parsed) h,
      string_to_sign C d (auth_scope_of parsed) (canonical_request r query (az_signed_headers parsed) h))"
    "hex_decode (az_signature parsed) = Some (hmac_of C (signing_key C secret (az_scope_date parsed) (az_region parsed)) (snd (signed_parts C V r)))"
    "a = \<lparr>auth_key_id = az_key_id parsed, auth_payload = mode, auth_payload_hash = h,
      auth_signing_key = signing_key C secret (az_scope_date parsed) (az_region parsed), auth_scope = auth_scope_of parsed,
      auth_date = d, auth_seed = az_signature parsed\<rparr>"
    using verify_request_ok [OF assms(1)] by blast
  obtain parsed' mode' h' d' secret' query' where w: "before_lookup C V r' = Inr (parsed', mode', h', d')" "key_lookup V (az_key_id parsed') = Inr secret'"
    "canonical_query (hr_query r') = Some query'"
    "signed_parts C V r' = (canonical_request r' query' (az_signed_headers parsed') h',
      string_to_sign C d' (auth_scope_of parsed') (canonical_request r' query' (az_signed_headers parsed') h'))"
    "hex_decode (az_signature parsed') = Some (hmac_of C (signing_key C secret' (az_scope_date parsed') (az_region parsed')) (snd (signed_parts C V r')))"
    "a' = \<lparr>auth_key_id = az_key_id parsed', auth_payload = mode', auth_payload_hash = h',
      auth_signing_key = signing_key C secret' (az_scope_date parsed') (az_region parsed'), auth_scope = auth_scope_of parsed',
      auth_date = d', auth_seed = az_signature parsed'\<rparr>"
    using verify_request_ok [OF assms(2)] by blast
  obtain az at where b: "cut_prefix (sig_algorithm @ '' '') (header_get r ''authorization'') = Some az" "parse_authorization az = Inr parsed"
    "payload_mode_of h = Inr mode" "request_date C r parsed = Inr (d, at)" using before_lookup_ok [OF v(1)] by blast
  obtain az' at' where b': "cut_prefix (sig_algorithm @ '' '') (header_get r' ''authorization'') = Some az'" "parse_authorization az' = Inr parsed'"
    "payload_mode_of h' = Inr mode'" "request_date C r' parsed' = Inr (d', at')" using before_lookup_ok [OF w(1)] by blast
  have same: "parsed' = parsed" "secret' = secret" using b b' assms(3) v(2) w(2) by simp_all
  have "hmac_of C (auth_signing_key a) (snd (signed_parts C V r')) = hmac_of C (auth_signing_key a) (snd (signed_parts C V r))"
    using v(5,6) w(5) same by simp
  then have sts: "snd (signed_parts C V r') = snd (signed_parts C V r)" by (rule inj_onD [OF assms(7)]) simp_all
  have "newline \<notin> set d" "newline \<notin> set d'"
    using request_date_ok [OF b(4)] request_date_ok [OF b'(4)] parsed_date_line by blast+
  then have d: "d' = d" and sha: "sha256_of C (fst (signed_parts C V r')) = sha256_of C (fst (signed_parts C V r))"
    using string_to_sign_inj [OF sts [unfolded v(4) w(4) snd_conv same]] by (simp_all add: v(4) w(4) same)
  from sha have "fst (signed_parts C V r') = fst (signed_parts C V r)" by (rule inj_onD [OF assms(6)]) simp_all
  then have canon: "canonical_request r' query' (az_signed_headers parsed) h' = canonical_request r query (az_signed_headers parsed) h"
    by (simp add: v(4) w(4) same)
  note cov = canonical_request_covers [OF canon assms(5,4) w(3) v(3)]
  have "h' = h" "mode' = mode" using cov b(3) b'(3) by auto
  moreover have "{''host'', ''x-amz-content-sha256''} \<subseteq> set (az_signed_headers parsed)" using request_date_ok [OF b(4)] by simp
  ultimately show ?thesis using b(1,2) v(6) w(6) same d cov canonical_query_exact by (simp add: list_all_iff)
qed

section \<open>What a refusal tells\<close>

text \<open>
  Claim C40. For a request that passes what is checked before the key is looked up, an unknown key is answered
  exactly like a known one with a wrong signature as long as the query is valid percent-encoding; when
  it is not, the two answers differ, so that whoever sends such a query learns which access keys exist.
\<close>

theorem access_key_oracle:
  assumes "before_lookup C V r = Inr (parsed, mode, h, d)"
  shows "verify_request C (V\<lparr>key_lookup := \<lambda>_. Inl Unknown_Key\<rparr>) r = Inl err_denied \<and>
    (canonical_query (hr_query r) \<noteq> None \<and>
       hex_decode (az_signature parsed) \<noteq> Some (hmac_of C (signing_key C secret (az_scope_date parsed) (az_region parsed)) (snd (signed_parts C V r)))
     \<longrightarrow> verify_request C (V\<lparr>key_lookup := \<lambda>_. Inr secret\<rparr>) r = Inl err_denied) \<and>
    (canonical_query (hr_query r) = None \<longrightarrow>
       verify_request C (V\<lparr>key_lookup := \<lambda>_. Inr secret\<rparr>) r = Inl (err_invalid_request ''the query string is not valid percent-encoding'') \<and>
       verify_request C (V\<lparr>key_lookup := \<lambda>_. Inr secret\<rparr>) r \<noteq> Inl err_denied)"
proof -
  have "check_skew (V\<lparr>key_lookup := l\<rparr>) = check_skew V" for l by (rule ext) (simp add: check_skew_def)
  then have "before_lookup C (V\<lparr>key_lookup := l\<rparr>) r = before_lookup C V r" for l by (simp only: before_lookup_def)
  with assms show ?thesis
    by (auto simp: verify_request_def check_signature_def signed_parts_def signature_matches_def Let_def err_denied_def err_invalid_request_def make_s3_error_def)
qed

section \<open>Concrete requests\<close>

definition sample_crypto :: sig_crypto where
  "sample_crypto = \<lparr>sha256_of = (\<lambda>s. replicate 31 0 @ [of_nat (length s)]), hmac_of = (\<lambda>k s. replicate 32 7), http_date = (\<lambda>_. None),
     query_has = (\<lambda>_ _. False)\<rparr>"

definition sample_verifier :: sig_verifier where
  "sample_verifier = \<lparr>key_lookup = (\<lambda>_. Inr ''secret''), verifier_now = 1784376300000000000, max_skew = 0\<rparr>"

definition sample_request :: "string \<Rightarrow> http_request" where
  "sample_request query = \<lparr>hr_method = ''GET'', hr_path = ''/photos/a b.txt'', hr_query = query, hr_host = ''s3.example.test'',
     hr_headers = [(''authorization'', ''AWS4-HMAC-SHA256 Credential=EXS3A/20260718/us-east-1/s3/aws4_request, '' @
         ''SignedHeaders=host;x-amz-content-sha256;x-amz-date, Signature='' @ concat (replicate 32 ''07''), []),
       (''x-amz-content-sha256'', ''UNSIGNED-PAYLOAD'', []), (''x-amz-date'', ''20260718T120000Z'', [])],
     hr_content_length = 0, hr_transfer_encoding = [], hr_body = []\<rparr>"

lemma sample_verified:
  "verify_request sample_crypto sample_verifier (sample_request ''a=1&b=%7e'') = Inr \<lparr>auth_key_id = ''EXS3A'', auth_payload = Payload_Unsigned,
     auth_payload_hash = ''UNSIGNED-PAYLOAD'', auth_signing_key = replicate 32 7, auth_scope = ''20260718/us-east-1/s3/aws4_request'',
     auth_date = ''20260718T120000Z'', auth_seed = concat (replicate 32 ''07'')\<rparr>"
  by code_simp

lemma sample_reordered:
  "verify_request sample_crypto sample_verifier (sample_request ''b=~&&a=1'') = Inr \<lparr>auth_key_id = ''EXS3A'', auth_payload = Payload_Unsigned,
     auth_payload_hash = ''UNSIGNED-PAYLOAD'', auth_signing_key = replicate 32 7, auth_scope = ''20260718/us-east-1/s3/aws4_request'',
     auth_date = ''20260718T120000Z'', auth_seed = concat (replicate 32 ''07'')\<rparr>"
  by code_simp

lemma accepted_request_unaltered_witness:
  "map_option mset (query_pairs ''b=~&&a=1'') = map_option mset (query_pairs ''a=1&b=%7e'')"
proof -
  have parts: "signed_parts sample_crypto sample_verifier (sample_request ''b=~&&a=1'') =
    signed_parts sample_crypto sample_verifier (sample_request ''a=1&b=%7e'')" by code_simp
  have "newline \<notin> set (hr_method (sample_request q))" "hr_query (sample_request q) = q"
    "header_get (sample_request q) ''authorization'' = header_get (sample_request q') ''authorization''" for q q'
    by (simp_all add: sample_request_def header_get_def values_of_def)
  with accepted_request_unaltered [OF sample_verified sample_reordered] show ?thesis by (simp add: parts)
qed

lemma access_key_oracle_witness:
  "verify_request sample_crypto (sample_verifier\<lparr>key_lookup := \<lambda>_. Inl Unknown_Key\<rparr>) (sample_request ''%zz'') = Inl err_denied \<and>
   verify_request sample_crypto (sample_verifier\<lparr>key_lookup := \<lambda>_. Inr ''secret''\<rparr>) (sample_request ''%zz'') \<noteq> Inl err_denied"
proof -
  have "is_ok (before_lookup sample_crypto sample_verifier (sample_request ''%zz''))" by code_simp
  then obtain parsed mode h d where b: "before_lookup sample_crypto sample_verifier (sample_request ''%zz'') = Inr (parsed, mode, h, d)"
    by (cases "before_lookup sample_crypto sample_verifier (sample_request ''%zz'')") (auto simp: is_ok_def)
  have "canonical_query (hr_query (sample_request ''%zz'')) = None" by code_simp
  with access_key_oracle [OF b, of "''secret''"] show ?thesis by blast
qed

end
