(* ===== verification/Sigv4_Body.thy ===== *)
theory Sigv4_Body
  imports Sigv4_Verify
begin

text \<open>
  The payload of a verified request (\<^verbatim>\<open>body.go\<close>, \<^verbatim>\<open>chunked.go\<close>, \<^verbatim>\<open>checksum.go\<close>): a reader of exactly the declared
  length, and the decoder of \<^verbatim>\<open>aws-chunked\<close> framing with its chain of chunk signatures, both feeding every
  digest the client declared. The source is the bytes that will arrive and whether they end or break off;
  each call of \<open>Read\<close> has a buffer and a number of bytes the source chooses to hand over.
\<close>

section \<open>Sources\<close>

datatype source_end = Ends | Breaks

datatype read_error = Eof | Broken | Failed s3_error

record read_choice =
  want :: nat
  granted :: nat
  end_early :: bool

text \<open>At most what is wanted, granted and there; the end may be told together with the last bytes.\<close>

definition raw_read :: "read_choice \<Rightarrow> nat \<Rightarrow> string \<Rightarrow> source_end \<Rightarrow> string \<times> string \<times> source_end option" where
  "raw_read c limit src e = (let n = min (granted c) (min limit (length src)); rest = drop n src in
     (take n src, rest, if rest = [] \<and> (end_early c \<or> src = [] \<and> 0 < limit) then Some e else None))"

section \<open>Digests\<close>

definition base64_digit :: "nat \<Rightarrow> char" where
  "base64_digit n = ''ABCDEFGHIJKLMNOPQRSTUVWXYZabcdefghijklmnopqrstuvwxyz0123456789+/'' ! n"

fun base64_encode :: "bytes \<Rightarrow> string" where
  "base64_encode [] = []"
| "base64_encode [a] = [base64_digit (unat a div 4), base64_digit (unat a mod 4 * 16), CHR ''='', CHR ''='']"
| "base64_encode [a, b] = [base64_digit (unat a div 4), base64_digit (unat a mod 4 * 16 + unat b div 16),
     base64_digit (unat b mod 16 * 4), CHR ''='']"
| "base64_encode (a # b # c # r) = [base64_digit (unat a div 4), base64_digit (unat a mod 4 * 16 + unat b div 16),
     base64_digit (unat b mod 16 * 4 + unat c div 64), base64_digit (unat c mod 64)] @ base64_encode r"

record sig_hashes =
  md5_of :: "string \<Rightarrow> bytes"
  crc32_of :: "string \<Rightarrow> bytes"
  crc32c_of :: "string \<Rightarrow> bytes"
  crc64nvme_of :: "string \<Rightarrow> bytes"
  sha1_of :: "string \<Rightarrow> bytes"

definition new_checksum :: "sig_hashes \<Rightarrow> sig_crypto \<Rightarrow> string \<Rightarrow> (string \<Rightarrow> bytes) option" where
  "new_checksum H C header = (let name = to_lower header in
     if name = ''x-amz-checksum-crc32'' then Some (crc32_of H)
     else if name = ''x-amz-checksum-crc32c'' then Some (crc32c_of H)
     else if name = ''x-amz-checksum-crc64nvme'' then Some (crc64nvme_of H)
     else if name = ''x-amz-checksum-sha1'' then Some (sha1_of H)
     else if name = ''x-amz-checksum-sha256'' then Some (sha256_of C) else None)"

record body_digest =
  dg_hash :: "string \<Rightarrow> bytes"
  dg_written :: string
  dg_expected :: string
  dg_encode :: "bytes \<Rightarrow> string"
  dg_failure :: s3_error

definition digest_matches :: "body_digest \<Rightarrow> bool" where
  "digest_matches d = (dg_encode d (dg_hash d (dg_written d)) = dg_expected d)"

definition base64_digest :: "string \<Rightarrow> (string \<Rightarrow> bytes) \<Rightarrow> string \<Rightarrow> body_digest" where
  "base64_digest name h expected = \<lparr>dg_hash = h, dg_written = [], dg_expected = expected, dg_encode = base64_encode,
     dg_failure = err_bad_digest name\<rparr>"

definition write_digest :: "string \<Rightarrow> body_digest \<Rightarrow> body_digest" where
  "write_digest data d = d\<lparr>dg_written := dg_written d @ data\<rparr>"

fun checksum_digests :: "sig_hashes \<Rightarrow> sig_crypto \<Rightarrow> (string \<times> string \<times> string list) list \<Rightarrow> (s3_error, body_digest list) result" where
  "checksum_digests H C [] = Inr []"
| "checksum_digests H C ((name, val, vals) # hs) = (let lower = to_lower name in
     if \<not> prefix ''x-amz-checksum-'' lower \<or> lower = ''x-amz-checksum-type'' \<or> lower = ''x-amz-checksum-algorithm''
     then checksum_digests H C hs
     else case new_checksum H C lower of
       None \<Rightarrow> Inl (make_s3_error 400 ''InvalidRequest'' (''the checksum '' @ lower @ '' is not supported''))
     | Some h \<Rightarrow> bind_result (checksum_digests H C hs) (\<lambda>ds. Inr (base64_digest lower h val # ds)))"

definition header_digests :: "sig_hashes \<Rightarrow> sig_crypto \<Rightarrow> http_request \<Rightarrow> (s3_error, body_digest list) result" where
  "header_digests H C r = (let md5 = header_get r ''content-md5'' in
     bind_result (checksum_digests H C (hr_headers r)) (\<lambda>ds.
       Inr ((if md5 \<noteq> [] then [base64_digest ''Content-MD5'' (md5_of H) md5] else []) @ ds)))"

fun check_digests :: "body_digest list \<Rightarrow> read_error" where
  "check_digests [] = Eof"
| "check_digests (d # ds) = (if digest_matches d then check_digests ds else Failed (dg_failure d))"

section \<open>Exactly the declared length\<close>

record exact_reader =
  ex_rest :: string
  ex_end :: source_end
  ex_left :: int
  ex_digests :: "body_digest list"
  ex_done :: "read_error option"

definition new_exact_reader :: "string \<Rightarrow> source_end \<Rightarrow> int \<Rightarrow> body_digest list \<Rightarrow> exact_reader" where
  "new_exact_reader src e len ds = \<lparr>ex_rest = src, ex_end = e, ex_left = len, ex_digests = ds, ex_done = None\<rparr>"

definition exact_finish :: "exact_reader \<Rightarrow> read_error" where
  "exact_finish R = (if ex_rest R \<noteq> [] then Failed (err_invalid_request ''the request body is longer than its declared length'')
     else check_digests (ex_digests R))"

definition exact_read :: "read_choice \<Rightarrow> exact_reader \<Rightarrow> string \<times> read_error option \<times> exact_reader" where
  "exact_read c R = (case ex_done R of Some e \<Rightarrow> ([], Some e, R)
     | None \<Rightarrow> if ex_left R = 0 then (let e = exact_finish R in ([], Some e, R\<lparr>ex_done := Some e\<rparr>))
       else let limit = (if int (want c) > ex_left R then nat (ex_left R) else want c) in
         (case raw_read c limit (ex_rest R) (ex_end R) of (data, rest, err) \<Rightarrow>
           let R' = R\<lparr>ex_rest := rest, ex_left := ex_left R - int (length data), ex_digests := map (write_digest data) (ex_digests R)\<rparr> in
           if err = Some Ends \<and> ex_left R' > 0 then (data, Some (Failed err_incomplete), R'\<lparr>ex_done := Some (Failed err_incomplete)\<rparr>)
           else if err = Some Breaks then (data, Some Broken, R')
           else (data, None, R')))"

section \<open>Chunk signatures\<close>

record chunk_signer =
  sg_key :: bytes
  sg_scope :: string
  sg_date :: string
  sg_previous :: string

definition chunk_to_sign :: "chunk_signer \<Rightarrow> string \<Rightarrow> string \<Rightarrow> string" where
  "chunk_to_sign s kind content_hash = join_with newline [kind, sg_date s, sg_scope s, sg_previous s, content_hash]"

definition signer_verify :: "sig_crypto \<Rightarrow> chunk_signer \<Rightarrow> string \<Rightarrow> string \<Rightarrow> string \<Rightarrow> chunk_signer option" where
  "signer_verify C s kind content_hash given =
     (if signature_matches given (hmac_of C (sg_key s) (chunk_to_sign s kind content_hash)) then Some (s\<lparr>sg_previous := given\<rparr>) else None)"

definition empty_sha256 :: string where
  "empty_sha256 = ''e3b0c44298fc1c149afbf4c8996fb92427ae41e4649b934ca495991b7852b855''"

definition verify_chunk :: "sig_crypto \<Rightarrow> chunk_signer \<Rightarrow> string \<Rightarrow> string \<Rightarrow> chunk_signer option" where
  "verify_chunk C s given data =
     signer_verify C s ''AWS4-HMAC-SHA256-PAYLOAD'' (empty_sha256 @ [newline] @ hex_encode (sha256_of C data)) given"

section \<open>Framing\<close>

definition max_chunk_line :: int where "max_chunk_line = 4096"
definition max_trailer_lines :: nat where "max_trailer_lines = 8"
definition chunk_signature_ext :: string where "chunk_signature_ext = ''chunk-signature=''"
definition trailer_signature_name :: string where "trailer_signature_name = ''x-amz-trailer-signature''"

record trailer_check =
  tc_name :: string
  tc_hash :: "string \<Rightarrow> bytes"
  tc_written :: string

record chunked_reader =
  ch_rest :: string
  ch_end :: source_end
  ch_declared :: int
  ch_decoded :: int
  ch_signer :: "chunk_signer option"
  ch_trailer :: "trailer_check option"
  ch_digests :: "body_digest list"
  ch_left :: int
  ch_sig :: string
  ch_hashed :: string
  ch_done :: "read_error option"

definition new_chunked_reader :: "string \<Rightarrow> source_end \<Rightarrow> int \<Rightarrow> chunk_signer option \<Rightarrow> trailer_check option \<Rightarrow> body_digest list \<Rightarrow> chunked_reader" where
  "new_chunked_reader src e declared signer trailer ds = \<lparr>ch_rest = src, ch_end = e, ch_declared = declared, ch_decoded = 0,
     ch_signer = signer, ch_trailer = trailer, ch_digests = ds, ch_left = - 1, ch_sig = [], ch_hashed = [], ch_done = None\<rparr>"

definition err_framing :: "string \<Rightarrow> s3_error" where
  "err_framing message = err_invalid_request (''aws-chunked body: '' @ message)"

definition err_trailer :: "string \<Rightarrow> s3_error" where
  "err_trailer message = make_s3_error 400 ''MalformedTrailerError'' message"

definition err_signature :: "string \<Rightarrow> s3_error" where
  "err_signature message = make_s3_error 403 ''SignatureDoesNotMatch'' message"

text \<open>\<open>ReadSlice\<close> on a buffer of 4096 bytes, and the line without its CRLF.\<close>

definition read_line :: "string \<Rightarrow> (s3_error, string \<times> string) result" where
  "read_line src = (let line = takeWhile (\<lambda>c. c \<noteq> newline) src in
     if length line < length src \<and> int (length line) < max_chunk_line then
       (if suffix [CHR 0x0D] line then Inr (butlast line, drop (length line + 1) src) else Inl (err_framing ''a line does not end in CRLF''))
     else if int (length src) \<ge> max_chunk_line then Inl (err_framing ''a line is longer than 4096 bytes'')
     else Inl err_incomplete)"

text \<open>\<^verbatim>\<open>strconv.ParseInt\<close> in base 16: a sign is allowed.\<close>

definition hex_int :: "string \<Rightarrow> int" where
  "hex_int ds = foldl (\<lambda>n c. 16 * n + int (the (hex_value c))) 0 ds"

definition parse_int16 :: "string \<Rightarrow> int option" where
  "parse_int16 s = (let (neg, ds) = (case s of [] \<Rightarrow> (False, []) | c # r \<Rightarrow>
        if c = CHR ''-'' then (True, r) else if c = CHR ''+'' then (False, r) else (False, s))
     in if ds = [] \<or> \<not> list_all (\<lambda>c. hex_value c \<noteq> None) ds then None
     else let i = (if neg then - hex_int ds else hex_int ds) in if fits64 i then Some i else None)"

definition check_chunk_signature :: "sig_crypto \<Rightarrow> chunked_reader \<Rightarrow> (s3_error, chunked_reader) result" where
  "check_chunk_signature C R = (case ch_signer R of None \<Rightarrow> Inr R
     | Some s \<Rightarrow> (case verify_chunk C s (ch_sig R) (ch_hashed R) of
         None \<Rightarrow> Inl (err_signature ''a chunk signature does not match'')
       | Some s' \<Rightarrow> Inr (R\<lparr>ch_signer := Some s'\<rparr>)))"

text \<open>The header of a chunk; True means it was the final, empty one.\<close>

definition start_chunk :: "sig_crypto \<Rightarrow> chunked_reader \<Rightarrow> (s3_error, bool \<times> chunked_reader) result" where
  "start_chunk C R = bind_result (read_line (ch_rest R)) (\<lambda>(line, rest). case cut_at CHR '';'' line of (size_field, extension, _) \<Rightarrow>
     (case parse_int16 size_field of None \<Rightarrow> Inl (err_framing ''a chunk size is not hex'')
      | Some len \<Rightarrow>
          if len < 0 \<or> length size_field > 16 then Inl (err_framing ''a chunk size is not hex'')
          else if len > ch_declared R - ch_decoded R then Inl (err_framing ''the chunks hold more than x-amz-decoded-content-length'')
          else if ch_signer R \<noteq> None \<and> \<not> prefix chunk_signature_ext extension then Inl (err_framing ''a chunk has no signature'')
          else let R' = R\<lparr>ch_rest := rest, ch_left := len,
              ch_sig := (if ch_signer R = None then [] else drop (length chunk_signature_ext) extension), ch_hashed := []\<rparr> in
            if len = 0 then bind_result (check_chunk_signature C R') (\<lambda>R''. Inr (True, R'')) else Inr (False, R')))"

definition end_chunk :: "sig_crypto \<Rightarrow> chunked_reader \<Rightarrow> (s3_error, chunked_reader) result" where
  "end_chunk C R = bind_result (check_chunk_signature C R) (\<lambda>R'. bind_result (read_line (ch_rest R')) (\<lambda>(line, rest).
     if line \<noteq> [] then Inl (err_framing ''chunk data is longer than its size'') else Inr (R'\<lparr>ch_rest := rest, ch_left := - 1\<rparr>)))"

text \<open>The trailer lines; the counter is how many may still come.\<close>

fun trailer_lines :: "nat \<Rightarrow> string \<Rightarrow> (string \<times> string) list \<Rightarrow> string \<Rightarrow> (s3_error, (string \<times> string) list \<times> string \<times> string) result" where
  "trailer_lines n src trailers raw = (case read_line src of Inl e \<Rightarrow> Inl e
     | Inr (line, rest) \<Rightarrow> if line = [] then Inr (trailers, raw, rest)
         else (case n of 0 \<Rightarrow> Inl (err_framing ''too many trailer lines'')
           | Suc m \<Rightarrow> (case cut_at CHR '':'' line of (name, val, ok) \<Rightarrow>
               if \<not> ok then Inl (err_trailer ''a trailer line is malformed'')
               else let name = to_lower (trim_space name); val = trim_space val in
                 trailer_lines m rest ((name, val) # filter (\<lambda>p. fst p \<noteq> name) trailers)
                   (if name \<noteq> trailer_signature_name then raw @ name @ '':'' @ val @ [newline] else raw))))"

definition read_trailers :: "string \<Rightarrow> (s3_error, (string \<times> string) list \<times> string \<times> string) result" where
  "read_trailers src = trailer_lines max_trailer_lines src [] []"

definition check_trailer :: "sig_crypto \<Rightarrow> chunked_reader \<Rightarrow> (string \<times> string) list \<Rightarrow> string \<Rightarrow> (s3_error, unit) result" where
  "check_trailer C R trailers raw = (case ch_trailer R of
     None \<Rightarrow> if trailers \<noteq> [] then Inl (err_trailer ''the request declared no trailer'') else Inr ()
   | Some t \<Rightarrow> (case map_of trailers (tc_name t) of
       None \<Rightarrow> Inl (err_trailer (''the trailer '' @ tc_name t @ '' is missing''))
     | Some val \<Rightarrow> if length trailers > 2 then Inl (err_trailer (''the trailer '' @ tc_name t @ '' is missing''))
         else if (case ch_signer R of None \<Rightarrow> False
           | Some s \<Rightarrow> signer_verify C s ''AWS4-HMAC-SHA256-TRAILER'' (hex_encode (sha256_of C raw))
               (case map_of trailers trailer_signature_name of None \<Rightarrow> [] | Some given \<Rightarrow> given) = None)
         then Inl (err_signature ''the trailer signature does not match'')
         else if base64_encode (tc_hash t (tc_written t)) \<noteq> val then Inl (err_bad_digest (tc_name t))
         else Inr ()))"

definition chunked_finish :: "sig_crypto \<Rightarrow> chunked_reader \<Rightarrow> read_error" where
  "chunked_finish C R = (if ch_decoded R \<noteq> ch_declared R then Failed err_incomplete
     else case bind_result (read_trailers (ch_rest R)) (\<lambda>(trailers, raw, rest).
         bind_result (check_trailer C R trailers raw) (\<lambda>_.
           if rest \<noteq> [] then Inl (err_framing ''bytes follow the final chunk'') else Inr ())) of
       Inl e \<Rightarrow> Failed e | Inr _ \<Rightarrow> check_digests (ch_digests R))"

text \<open>
  The loop at the head of \<open>read\<close>: it goes round at most once, since a chunk that is not the final one
  leaves something to read.
\<close>

definition to_data :: "sig_crypto \<Rightarrow> chunked_reader \<Rightarrow> (read_error, chunked_reader) result" where
  "to_data C R = (if ch_left R > 0 then Inr R
     else case bind_result (if ch_left R = 0 then end_chunk C R else Inr R) (start_chunk C) of
       Inl e \<Rightarrow> Inl (Failed e)
     | Inr (final, R') \<Rightarrow> if final then Inl (chunked_finish C R') else Inr R')"

definition feed_data :: "string \<Rightarrow> chunked_reader \<Rightarrow> chunked_reader" where
  "feed_data data R = R\<lparr>ch_hashed := (if ch_signer R = None then ch_hashed R else ch_hashed R @ data),
     ch_trailer := map_option (\<lambda>t. t\<lparr>tc_written := tc_written t @ data\<rparr>) (ch_trailer R),
     ch_digests := map (write_digest data) (ch_digests R)\<rparr>"

definition take_data :: "nat \<Rightarrow> chunked_reader \<Rightarrow> chunked_reader" where
  "take_data n R = feed_data (take n (ch_rest R)) (R\<lparr>ch_rest := drop n (ch_rest R), ch_left := ch_left R - int n, ch_decoded := ch_decoded R + int n\<rparr>)"

text \<open>The buffered source never hands over bytes together with its end.\<close>

definition chunked_read :: "sig_crypto \<Rightarrow> read_choice \<Rightarrow> chunked_reader \<Rightarrow> string \<times> read_error option \<times> chunked_reader" where
  "chunked_read C c R = (case ch_done R of Some e \<Rightarrow> ([], Some e, R)
     | None \<Rightarrow> (case to_data C R of Inl e \<Rightarrow> ([], Some e, R\<lparr>ch_done := Some e\<rparr>)
       | Inr R1 \<Rightarrow> let limit = (if int (want c) > ch_left R1 then nat (ch_left R1) else want c);
             early = (end_early c \<and> ch_rest R1 = []) in
           (case raw_read (c\<lparr>end_early := early\<rparr>) limit (ch_rest R1) (ch_end R1) of (data, _, err) \<Rightarrow>
             let R2 = take_data (length data) R1 in
             (case err of None \<Rightarrow> (data, None, R2)
              | Some Ends \<Rightarrow> (data, Some (Failed err_incomplete), R2\<lparr>ch_done := Some (Failed err_incomplete)\<rparr>)
              | Some Breaks \<Rightarrow> (data, Some Broken, R2\<lparr>ch_done := Some Broken\<rparr>)))))"

section \<open>The body of a request\<close>

datatype body_reader = Exact exact_reader | Chunked chunked_reader

definition body_read :: "sig_crypto \<Rightarrow> read_choice \<Rightarrow> body_reader \<Rightarrow> string \<times> read_error option \<times> body_reader" where
  "body_read C c b = (case b of
     Exact R \<Rightarrow> (case exact_read c R of (d, e, R') \<Rightarrow> (d, e, Exact R'))
   | Chunked R \<Rightarrow> (case chunked_read C c R of (d, e, R') \<Rightarrow> (d, e, Chunked R')))"

definition err_missing_length :: s3_error where
  "err_missing_length = make_s3_error 411 ''MissingContentLength'' ''the request must declare its length''"

definition plain_body :: "sig_crypto \<Rightarrow> sig_auth \<Rightarrow> http_request \<Rightarrow> source_end \<Rightarrow> body_digest list \<Rightarrow> (s3_error, body_reader \<times> int) result" where
  "plain_body C a r e ds = (if hr_content_length r < 0 then Inl err_missing_length
     else let payload = \<lparr>dg_hash = sha256_of C, dg_written = [], dg_expected = auth_payload_hash a, dg_encode = hex_encode,
         dg_failure = make_s3_error 400 ''XAmzContentSHA256Mismatch'' ''the provided x-amz-content-sha256 does not match what was computed''\<rparr>
     in Inr (Exact (new_exact_reader (hr_body r) e (hr_content_length r)
          (if auth_payload a = Payload_Signed then ds @ [payload] else ds)), hr_content_length r))"

definition signer_of :: "sig_auth \<Rightarrow> chunk_signer option" where
  "signer_of a = (if auth_payload a \<in> {Payload_Streaming_Signed, Payload_Streaming_Signed_Trailer}
     then Some \<lparr>sg_key = auth_signing_key a, sg_scope = auth_scope a, sg_date = auth_date a, sg_previous = auth_seed a\<rparr> else None)"

definition trailer_of :: "sig_hashes \<Rightarrow> sig_crypto \<Rightarrow> sig_auth \<Rightarrow> http_request \<Rightarrow> (s3_error, trailer_check option) result" where
  "trailer_of H C a r = (if auth_payload a \<notin> {Payload_Streaming_Signed_Trailer, Payload_Streaming_Unsigned_Trailer} then Inr None
     else let name = to_lower (trim_space (header_get r ''x-amz-trailer'')) in
       if name = [] then Inr None
       else case new_checksum H C name of None \<Rightarrow> Inl (err_invalid_request (''the trailer '' @ name @ '' is not supported''))
       | Some h \<Rightarrow> Inr (Some \<lparr>tc_name = name, tc_hash = h, tc_written = []\<rparr>))"

definition chunked_body :: "sig_hashes \<Rightarrow> sig_crypto \<Rightarrow> sig_auth \<Rightarrow> http_request \<Rightarrow> source_end \<Rightarrow> body_digest list \<Rightarrow> (s3_error, body_reader \<times> int) result" where
  "chunked_body H C a r e ds = (let declared = header_get r ''x-amz-decoded-content-length'' in
     if declared = [] then Inl err_missing_length
     else case atoi declared of None \<Rightarrow> Inl (err_invalid_request ''x-amz-decoded-content-length is not a length'')
     | Some len \<Rightarrow> if len < 0 then Inl (err_invalid_request ''x-amz-decoded-content-length is not a length'')
         else bind_result (trailer_of H C a r) (\<lambda>trailer.
           Inr (Chunked (new_chunked_reader (hr_body r) e len (signer_of a) trailer ds), len)))"

definition auth_body :: "sig_hashes \<Rightarrow> sig_crypto \<Rightarrow> sig_auth \<Rightarrow> http_request \<Rightarrow> source_end \<Rightarrow> (s3_error, body_reader \<times> int) result" where
  "auth_body H C a r e = bind_result (header_digests H C r) (\<lambda>ds.
     if auth_payload a \<in> {Payload_Signed, Payload_Unsigned} then plain_body C a r e ds else chunked_body H C a r e ds)"

section \<open>Reading on\<close>

text \<open>A caller that reads until it is told to stop, with one choice per call.\<close>

fun pump :: "(read_choice \<Rightarrow> 'r \<Rightarrow> string \<times> read_error option \<times> 'r) \<Rightarrow> read_choice list \<Rightarrow> 'r \<Rightarrow> string \<times> read_error option" where
  "pump rd [] R = ([], None)"
| "pump rd (c # cs) R = (case rd c R of
     (d, Some e, R') \<Rightarrow> (d, Some e)
   | (d, None, R') \<Rightarrow> (case pump rd cs R' of (ds, e) \<Rightarrow> (d @ ds, e)))"

end
