(* ===== verification/Sigv4_Body_Correct.thy ===== *)
theory Sigv4_Body_Correct
  imports Sigv4_Body
begin

text \<open>
  What a reader of a body delivers does not depend on how it is read: both readers are interpreted in one
  locale that says so, with an outcome that is a function of the source. Then what an accepted body is,
  and that a body framed and signed as the protocol says is accepted.
\<close>

section \<open>Readers whose outcome is fixed\<close>

definition live :: "read_choice \<Rightarrow> bool" where
  "live c \<longleftrightarrow> 0 < want c \<and> 0 < granted c"

locale stream_reader =
  fixes rd :: "read_choice \<Rightarrow> 'r \<Rightarrow> string \<times> read_error option \<times> 'r"
    and ready :: "'r \<Rightarrow> bool" and whole :: "'r \<Rightarrow> bool" and outcome :: "'r \<Rightarrow> string \<times> read_error" and pending :: "'r \<Rightarrow> nat"
  assumes goes_on: "ready R \<Longrightarrow> rd c R = (d, None, R') \<Longrightarrow>
      ready R' \<and> whole R' = whole R \<and> outcome R = (d @ fst (outcome R'), snd (outcome R'))"
    and stops: "ready R \<Longrightarrow> rd c R = (d, Some e, R') \<Longrightarrow> e = Broken \<and> \<not> whole R \<or> outcome R = (d, e)"
    and progress: "ready R \<Longrightarrow> live c \<Longrightarrow> rd c R = (d, None, R') \<Longrightarrow> pending R' < pending R"
begin

lemma told_outcome:
  "ready R \<Longrightarrow> pump rd cs R = (d, Some e) \<Longrightarrow> e = Broken \<and> \<not> whole R \<or> outcome R = (d, e)"
proof (induction cs arbitrary: R d)
  case (Cons c cs)
  obtain d1 e1 R1 where r: "rd c R = (d1, e1, R1)" by (cases "rd c R")
  show ?case
  proof (cases e1)
    case None
    obtain d2 where p: "pump rd cs R1 = (d2, Some e)" "d = d1 @ d2" using Cons.prems(2) r None by (auto split: prod.splits)
    with goes_on [OF Cons.prems(1) r [unfolded None]] Cons.IH [of R1 d2] show ?thesis by auto
  next
    case (Some e2)
    with Cons.prems(2) r stops [OF Cons.prems(1) r [unfolded Some]] show ?thesis by simp
  qed
qed simp

lemma read_so_far: "ready R \<Longrightarrow> pump rd cs R = (d, None) \<Longrightarrow> prefix d (fst (outcome R))"
proof (induction cs arbitrary: R d)
  case (Cons c cs)
  obtain d1 e1 R1 where r: "rd c R = (d1, e1, R1)" by (cases "rd c R")
  with Cons.prems(2) have e: "e1 = None" by (cases e1) auto
  obtain d2 where p: "pump rd cs R1 = (d2, None)" "d = d1 @ d2" using Cons.prems(2) r e by (auto split: prod.splits)
  with goes_on [OF Cons.prems(1) r [unfolded e]] Cons.IH [of R1 d2] show ?case by auto
qed simp

lemma reading_ends: "ready R \<Longrightarrow> list_all live cs \<Longrightarrow> pending R < length cs \<Longrightarrow> snd (pump rd cs R) \<noteq> None"
proof (induction cs arbitrary: R)
  case (Cons c cs)
  obtain d1 e1 R1 where r: "rd c R = (d1, e1, R1)" by (cases "rd c R")
  show ?case
  proof (cases e1)
    case None
    have "pending R1 < length cs" using progress [OF Cons.prems(1) _ r [unfolded None]] Cons.prems(2,3) by simp
    with goes_on [OF Cons.prems(1) r [unfolded None]] Cons.IH [of R1] Cons.prems(2) r None show ?thesis
      by (cases "pump rd cs R1") simp
  qed (simp add: r)
qed simp

lemma whole_outcome:
  assumes "ready R" "whole R" "list_all live cs" "pending R < length cs"
  shows "pump rd cs R = (fst (outcome R), Some (snd (outcome R)))"
proof -
  obtain d e where p: "pump rd cs R = (d, Some e)" using reading_ends [OF assms(1,3,4)] by (cases "pump rd cs R") auto
  with told_outcome [OF assms(1) p] assms(2) show ?thesis by simp
qed

end

section \<open>Digests\<close>

lemma write_nothing [simp]: "write_digest [] = id"
  by (rule ext) (simp add: write_digest_def)

lemma write_write [simp]: "write_digest b (write_digest a d) = write_digest (a @ b) d"
  by (simp add: write_digest_def)

lemma write_write_comp [simp]: "write_digest b \<circ> write_digest a = write_digest (a @ b)"
  by (rule ext) simp

lemma check_digests_Eof: "check_digests ds = Eof \<longleftrightarrow> list_all digest_matches ds"
  by (induction ds) auto

lemma raw_read_cases:
  assumes "raw_read c limit src e = (data, rest, err)"
  shows "data @ rest = src \<and> length data \<le> limit \<and> (\<forall>e'. err = Some e' \<longrightarrow> e' = e \<and> rest = []) \<and>
    (0 < limit \<and> 0 < granted c \<and> err = None \<longrightarrow> data \<noteq> [])"
  using assms by (auto simp: raw_read_def Let_def min_def split: if_splits)

section \<open>The reader of a declared length\<close>

definition exact_after :: "nat \<Rightarrow> exact_reader \<Rightarrow> exact_reader" where
  "exact_after n R = R\<lparr>ex_rest := drop n (ex_rest R), ex_left := ex_left R - int n,
     ex_digests := map (write_digest (take n (ex_rest R))) (ex_digests R)\<rparr>"

definition exact_outcome :: "exact_reader \<Rightarrow> string \<times> read_error" where
  "exact_outcome R = (let n = nat (ex_left R) in if length (ex_rest R) < n then (ex_rest R, Failed err_incomplete)
     else (take n (ex_rest R), exact_finish (exact_after n R)))"

lemma exact_after_after:
  "a + b \<le> length (ex_rest R) \<Longrightarrow> exact_after b (exact_after a R) = exact_after (a + b) R"
  by (simp add: exact_after_def take_add add.commute)

lemma exact_read_cases:
  assumes "ex_done R = None" "0 \<le> ex_left R" "exact_read c R = (d, e, R')"
  shows "ex_left R = 0 \<and> d = [] \<and> e = Some (exact_finish R) \<or>
    0 < ex_left R \<and> length d \<le> length (ex_rest R) \<and> d = take (length d) (ex_rest R) \<and> int (length d) \<le> ex_left R \<and>
      (e = None \<and> R' = exact_after (length d) R \<and> (live c \<longrightarrow> d \<noteq> []) \<or> e = Some Broken \<and> ex_end R = Breaks \<or>
       e = Some (Failed err_incomplete) \<and> int (length (ex_rest R)) < ex_left R \<and> d = ex_rest R)"
proof (cases "ex_left R = 0")
  case True
  with assms show ?thesis by (auto simp: exact_read_def Let_def)
next
  case False
  define limit where "limit = (if int (want c) > ex_left R then nat (ex_left R) else want c)"
  obtain data rest err where raw: "raw_read c limit (ex_rest R) (ex_end R) = (data, rest, err)" by (cases "raw_read c limit (ex_rest R) (ex_end R)")
  have n: "int (length data) \<le> ex_left R" using raw_read_cases [OF raw] assms(2) by (auto simp: limit_def split: if_splits)
  have d: "d = data" using assms False raw by (auto simp: exact_read_def limit_def Let_def split: if_splits)
  have split: "ex_rest R = data @ rest" using raw_read_cases [OF raw] by simp
  have live: "live c \<Longrightarrow> err = None \<Longrightarrow> data \<noteq> []" using raw_read_cases [OF raw] False assms(2) by (auto simp: limit_def live_def split: if_splits)
  have ends: "err = Some Ends \<Longrightarrow> rest = []" "err = Some Breaks \<Longrightarrow> ex_end R = Breaks" using raw_read_cases [OF raw] by auto
  have after: "exact_after (length data) R = R\<lparr>ex_rest := rest, ex_left := ex_left R - int (length data), ex_digests := map (write_digest data) (ex_digests R)\<rparr>"
    by (simp add: exact_after_def split)
  consider "err = None" | "err = Some Ends" | "err = Some Breaks" by (cases err; cases "the err") auto
  then show ?thesis
  proof cases
    case 1
    then have "e = None" "R' = exact_after (length data) R" unfolding after using assms False raw by (auto simp: exact_read_def limit_def Let_def)
    with 1 live n d split assms(2) False show ?thesis by auto
  next
    case 2
    show ?thesis
    proof (cases "ex_left R - int (length data) > 0")
      case True
      then have "e = Some (Failed err_incomplete)" using assms False raw 2 by (auto simp: exact_read_def limit_def Let_def)
      with True ends(1) [OF 2] n d split assms(2) False show ?thesis by auto
    next
      case no: False
      then have e: "e = None" "R' = exact_after (length data) R" unfolding after using assms False raw 2 by (auto simp: exact_read_def limit_def Let_def)
      have "data \<noteq> []" using no n False assms(2) by auto
      with e n d split assms(2) False show ?thesis by auto
    qed
  next
    case 3
    then have "e = Some Broken" using assms False raw by (auto simp: exact_read_def limit_def Let_def)
    with ends(2) [OF 3] n d split assms(2) False show ?thesis by auto
  qed
qed

interpretation exact: stream_reader exact_read "\<lambda>R. ex_done R = None \<and> 0 \<le> ex_left R" "\<lambda>R. ex_end R = Ends" exact_outcome "\<lambda>R. length (ex_rest R)"
proof
  fix R c d R'
  assume ok: "ex_done R = None \<and> 0 \<le> ex_left R" and r: "exact_read c R = (d, None, R')"
  from exact_read_cases [OF _ _ r] ok have s: "0 < ex_left R" "length d \<le> length (ex_rest R)" "d = take (length d) (ex_rest R)" "int (length d) \<le> ex_left R"
    "R' = exact_after (length d) R" "live c \<longrightarrow> d \<noteq> []" by auto
  define n where "n = nat (ex_left R)"
  have n: "nat (ex_left R') = n - length d" "length d \<le> n" using s by (auto simp: n_def exact_after_def)
  have "exact_outcome R = (d @ fst (exact_outcome R'), snd (exact_outcome R'))"
  proof (cases "length (ex_rest R) < n")
    case True
    then have "length (ex_rest R') < n - length d" using s(2,5) by (simp add: exact_after_def)
    moreover have "ex_rest R = d @ ex_rest R'" using s(3,5) by (metis append_take_drop_id exact_after_def exact_reader.select_convs(1) exact_reader.simps exact_reader.surjective exact_reader.update_convs)
    ultimately show ?thesis using True n by (simp add: exact_outcome_def Let_def n_def [symmetric])
  next
    case False
    have "exact_after (n - length d) R' = exact_after n R" using False n(2) s(5) exact_after_after [of "length d" "n - length d" R] by simp
    moreover have "take n (ex_rest R) = d @ take (n - length d) (ex_rest R')"
      using s(3,5) n(2) take_add [of "length d" "n - length d" "ex_rest R"] by (simp add: exact_after_def)
    moreover have "\<not> length (ex_rest R') < n - length d" using False s(5) by (simp add: exact_after_def)
    ultimately show ?thesis using False n by (simp add: exact_outcome_def Let_def n_def [symmetric])
  qed
  then show "(ex_done R' = None \<and> 0 \<le> ex_left R') \<and> (ex_end R' = Ends) = (ex_end R = Ends) \<and> exact_outcome R = (d @ fst (exact_outcome R'), snd (exact_outcome R'))"
    using s(4,5) ok by (simp add: exact_after_def)
  show "length (ex_rest R') < length (ex_rest R)" if "live c"
  proof -
    have "0 < length d" using that s(6) by simp
    moreover have "length (ex_rest R') = length (ex_rest R) - length d" using s(5) by (simp add: exact_after_def)
    ultimately show ?thesis using s(2) by linarith
  qed
next
  fix R c d e R'
  assume ok: "ex_done R = None \<and> 0 \<le> ex_left R" and r: "exact_read c R = (d, Some e, R')"
  have "exact_outcome R = (ex_rest R, Failed err_incomplete)" if "int (length (ex_rest R)) < ex_left R"
  proof -
    have "length (ex_rest R) < nat (ex_left R)" using that by linarith
    then show ?thesis by (simp add: exact_outcome_def Let_def)
  qed
  moreover have "exact_outcome R = ([], exact_finish R)" if "ex_left R = 0"
    using that by (simp add: exact_outcome_def exact_after_def exact_finish_def)
  ultimately show "e = Broken \<and> ex_end R \<noteq> Ends \<or> exact_outcome R = (d, e)"
    using exact_read_cases [OF _ _ r] ok by auto
qed

section \<open>The decoder of chunks\<close>

lemma read_line_shorter: "read_line src = Inr (line, rest) \<Longrightarrow> length rest < length src"
  by (auto simp: read_line_def Let_def split: if_splits)

lemma check_chunk_signature_ok:
  assumes "check_chunk_signature C R = Inr R'"
  shows "R' = R\<lparr>ch_signer := ch_signer R'\<rparr> \<and> (case ch_signer R of None \<Rightarrow> ch_signer R' = None
    | Some s \<Rightarrow> \<exists>s'. ch_signer R' = Some s' \<and> verify_chunk C s (ch_sig R) (ch_hashed R) = Some s')"
  using assms by (auto simp: check_chunk_signature_def split: option.splits)

lemma start_chunk_ok:
  assumes "start_chunk C R = Inr (final, R')"
  shows "length (ch_rest R') < length (ch_rest R) \<and> ch_declared R' = ch_declared R \<and> ch_decoded R' = ch_decoded R \<and> ch_end R' = ch_end R \<and>
    ch_digests R' = ch_digests R \<and> ch_trailer R' = ch_trailer R \<and> ch_done R' = ch_done R \<and> ch_hashed R' = [] \<and>
    ch_left R' \<le> ch_declared R' - ch_decoded R' \<and> (if final then ch_left R' = 0 \<and>
      (case ch_signer R of None \<Rightarrow> ch_signer R' = None | Some s \<Rightarrow> \<exists>s'. ch_signer R' = Some s' \<and> verify_chunk C s (ch_sig R') [] = Some s')
      else 0 < ch_left R' \<and> ch_signer R' = ch_signer R)"
proof -
  obtain line rest where l: "read_line (ch_rest R) = Inr (line, rest)" using assms by (auto simp: start_chunk_def bind_result_Inr_iff)
  obtain a b ok where c: "cut_at CHR '';'' line = (a, b, ok)" by (cases "cut_at CHR '';'' line")
  obtain len where p: "parse_int16 a = Some len" using assms l c by (auto simp: start_chunk_def split: option.splits)
  define R1 where "R1 = R\<lparr>ch_rest := rest, ch_left := len, ch_sig := (if ch_signer R = None then [] else drop (length chunk_signature_ext) b), ch_hashed := []\<rparr>"
  have len: "0 \<le> len" "len \<le> ch_declared R - ch_decoded R"
    and r: "(if len = 0 then bind_result (check_chunk_signature C R1) (\<lambda>R''. Inr (True, R'')) else Inr (False, R1)) = Inr (final, R')"
    using assms l c p by (auto simp: start_chunk_def R1_def Let_def split: if_splits)
  show ?thesis
  proof (cases "len = 0")
    case True
    with r have "final" "check_chunk_signature C R1 = Inr R'" by (auto simp: bind_result_Inr_iff)
    with check_chunk_signature_ok [OF this(2)] True len read_line_shorter [OF l] show ?thesis
      by (cases R') (auto simp: R1_def split: option.splits)
  next
    case False
    with r len read_line_shorter [OF l] show ?thesis by (auto simp: R1_def)
  qed
qed

lemma end_chunk_ok:
  assumes "end_chunk C R = Inr R'"
  shows "length (ch_rest R') < length (ch_rest R) \<and> R' = R\<lparr>ch_rest := ch_rest R', ch_left := - 1, ch_signer := ch_signer R'\<rparr> \<and>
    (case ch_signer R of None \<Rightarrow> ch_signer R' = None
     | Some s \<Rightarrow> \<exists>s'. ch_signer R' = Some s' \<and> verify_chunk C s (ch_sig R) (ch_hashed R) = Some s')"
proof -
  obtain R1 rest where r: "check_chunk_signature C R = Inr R1" "read_line (ch_rest R1) = Inr ([], rest)" "R' = R1\<lparr>ch_rest := rest, ch_left := - 1\<rparr>"
    using assms by (auto simp: end_chunk_def bind_result_Inr_iff split: if_splits)
  with check_chunk_signature_ok [OF r(1)] read_line_shorter [OF r(2)] show ?thesis
    by (cases R; cases R1) (auto split: option.splits)
qed

lemma to_data_ok:
  assumes "to_data C R = Inr R'"
  shows "0 < ch_left R' \<and> length (ch_rest R') \<le> length (ch_rest R) \<and> ch_declared R' = ch_declared R \<and> ch_decoded R' = ch_decoded R \<and>
    ch_end R' = ch_end R \<and> ch_done R' = ch_done R \<and> ch_digests R' = ch_digests R \<and> ch_trailer R' = ch_trailer R \<and>
    (ch_left R' \<le> ch_declared R' - ch_decoded R' \<or> R' = R)"
proof (cases "0 < ch_left R")
  case True
  with assms show ?thesis by (simp add: to_data_def)
next
  case False
  then obtain R1 where r: "(if ch_left R = 0 then end_chunk C R else Inr R) = Inr R1" "start_chunk C R1 = Inr (False, R')"
    using assms by (auto simp: to_data_def bind_result_Inr_iff split: sum.splits if_splits)
  have "ch_declared R1 = ch_declared R \<and> ch_decoded R1 = ch_decoded R \<and> ch_end R1 = ch_end R \<and> ch_done R1 = ch_done R \<and>
    ch_digests R1 = ch_digests R \<and> ch_trailer R1 = ch_trailer R \<and> length (ch_rest R1) \<le> length (ch_rest R)"
  proof (cases "ch_left R = 0")
    case True
    with r(1) have "end_chunk C R = Inr R1" by simp
    from end_chunk_ok [OF this] obtain rest signer where "R1 = R\<lparr>ch_rest := rest, ch_left := - 1, ch_signer := signer\<rparr>"
      "length (ch_rest R1) < length (ch_rest R)" by blast
    then show ?thesis by simp
  qed (use r(1) in simp)
  with start_chunk_ok [OF r(2)] show ?thesis by auto
qed

text \<open>The outcome, chunk by chunk.\<close>

function chunk_outcome :: "sig_crypto \<Rightarrow> chunked_reader \<Rightarrow> string \<times> read_error" where
  "chunk_outcome C R = (case to_data C R of Inl e \<Rightarrow> ([], e)
     | Inr R1 \<Rightarrow> let n = nat (ch_left R1) in
         if length (ch_rest R1) < n then (ch_rest R1, Failed err_incomplete)
         else (case chunk_outcome C (take_data n R1) of (d, e) \<Rightarrow> (take n (ch_rest R1) @ d, e)))"
  by auto
termination
proof (relation "measure (\<lambda>(C, R). length (ch_rest R))")
  fix C R R1 n assume "to_data C R = Inr R1" "n = nat (ch_left R1)" "\<not> length (ch_rest R1) < n"
  with to_data_ok [of C R R1] show "((C, take_data n R1), C, R) \<in> measure (\<lambda>(C, R). length (ch_rest R))"
    by (auto simp: take_data_def feed_data_def)
qed simp

declare chunk_outcome.simps [simp del]

lemma take_data_fields [simp]:
  "ch_rest (take_data n R) = drop n (ch_rest R)" "ch_left (take_data n R) = ch_left R - int n" "ch_end (take_data n R) = ch_end R"
  "ch_done (take_data n R) = ch_done R" "ch_declared (take_data n R) = ch_declared R" "ch_decoded (take_data n R) = ch_decoded R + int n"
  "ch_signer (take_data n R) = ch_signer R" "ch_sig (take_data n R) = ch_sig R" "ch_digests (take_data n R) = map (write_digest (take n (ch_rest R))) (ch_digests R)"
  "ch_trailer (take_data n R) = map_option (\<lambda>t. t\<lparr>tc_written := tc_written t @ take n (ch_rest R)\<rparr>) (ch_trailer R)"
  "ch_hashed (take_data n R) = (if ch_signer R = None then ch_hashed R else ch_hashed R @ take n (ch_rest R))"
  by (simp_all add: take_data_def feed_data_def)

lemma take_data_take_data: "take_data b (take_data a R) = take_data (a + b) R"
  by (cases "ch_trailer R") (simp_all add: take_data_def feed_data_def take_add add.commute)

lemma outcome_piece:
  assumes "to_data C R = Inr R1" "int m \<le> ch_left R1" "m \<le> length (ch_rest R1)"
  shows "chunk_outcome C R = (take m (ch_rest R1) @ fst (chunk_outcome C (take_data m R1)), snd (chunk_outcome C (take_data m R1)))"
proof -
  define n where "n = nat (ch_left R1)"
  have pos: "0 < ch_left R1" using to_data_ok [OF assms(1)] by simp
  have mn: "m \<le> n" using assms(2) by (simp add: n_def)
  show ?thesis
  proof (cases "m = n")
    case True
    with assms(1,3) show ?thesis by (subst chunk_outcome.simps) (simp add: Let_def n_def [symmetric] split: prod.splits)
  next
    case False
    then have t: "to_data C (take_data m R1) = Inr (take_data m R1)" "nat (ch_left (take_data m R1)) = n - m"
      using pos mn by (auto simp: to_data_def n_def)
    have "take_data (n - m) (take_data m R1) = take_data n R1" using mn by (simp add: take_data_take_data)
    moreover have "take n (ch_rest R1) = take m (ch_rest R1) @ take (n - m) (drop m (ch_rest R1))" using mn take_add [of m "n - m"] by simp
    moreover have "length (ch_rest R1) < n \<longleftrightarrow> length (ch_rest R1) - m < n - m" using assms(3) mn by auto
    ultimately show ?thesis using assms(1) t
      by (subst chunk_outcome.simps, subst (1 2) chunk_outcome.simps [of C "take_data m R1"]) (simp add: Let_def n_def [symmetric] split: prod.splits)
  qed
qed

lemma chunked_read_cases:
  assumes "ch_done R = None" "chunked_read C c R = (d, e, R')"
  shows "(\<exists>e0. to_data C R = Inl e0 \<and> d = [] \<and> e = Some e0) \<or>
    (\<exists>R1. to_data C R = Inr R1 \<and> int (length d) \<le> ch_left R1 \<and> length d \<le> length (ch_rest R1) \<and> d = take (length d) (ch_rest R1) \<and>
      (e = None \<and> R' = take_data (length d) R1 \<and> (live c \<longrightarrow> d \<noteq> []) \<or>
       d = [] \<and> ch_rest R1 = [] \<and> (e = Some Broken \<and> ch_end R1 = Breaks \<or> e = Some (Failed err_incomplete))))"
proof (cases "to_data C R")
  case (Inl e0)
  with assms show ?thesis by (auto simp: chunked_read_def Let_def)
next
  case (Inr R1)
  define limit where "limit = (if int (want c) > ch_left R1 then nat (ch_left R1) else want c)"
  define c' where "c' = c\<lparr>end_early := end_early c \<and> ch_rest R1 = []\<rparr>"
  have pos: "0 < ch_left R1" using to_data_ok [OF Inr] by simp
  obtain data rest err where raw: "raw_read c' limit (ch_rest R1) (ch_end R1) = (data, rest, err)" by (cases "raw_read c' limit (ch_rest R1) (ch_end R1)")
  note rc = raw_read_cases [OF raw]
  have n: "int (length data) \<le> ch_left R1" using rc pos by (auto simp: limit_def split: if_splits)
  have split: "ch_rest R1 = data @ rest" using rc by simp
  have live: "live c \<Longrightarrow> err = None \<Longrightarrow> data \<noteq> []" using rc pos by (auto simp: limit_def live_def c'_def split: if_splits)
  have empty: "err \<noteq> None \<Longrightarrow> ch_rest R1 = []" using raw by (auto simp: raw_read_def c'_def Let_def split: if_splits)
  have res: "(d, e, R') = (case err of None \<Rightarrow> (data, None, take_data (length data) R1)
      | Some Ends \<Rightarrow> (data, Some (Failed err_incomplete), (take_data (length data) R1)\<lparr>ch_done := Some (Failed err_incomplete)\<rparr>)
      | Some Breaks \<Rightarrow> (data, Some Broken, (take_data (length data) R1)\<lparr>ch_done := Some Broken\<rparr>))"
    using assms Inr raw by (simp add: chunked_read_def Let_def limit_def c'_def)
  have breaks: "err = Some Breaks \<Longrightarrow> ch_end R1 = Breaks" using rc by auto
  consider "err = None" | "err = Some Ends" | "err = Some Breaks" by (cases err; cases "the err") auto
  then show ?thesis
    by cases (use res Inr n split live empty breaks in auto)
qed

interpretation chunked: stream_reader "chunked_read C" "\<lambda>R. ch_done R = None" "\<lambda>R. ch_end R = Ends" "chunk_outcome C" "\<lambda>R. length (ch_rest R)" for C
proof
  fix R c d R'
  assume ok: "ch_done R = None" and r: "chunked_read C c R = (d, None, R')"
  then obtain R1 where R1: "to_data C R = Inr R1" "int (length d) \<le> ch_left R1" "length d \<le> length (ch_rest R1)" "d = take (length d) (ch_rest R1)"
    "R' = take_data (length d) R1" "live c \<longrightarrow> d \<noteq> []" using chunked_read_cases [OF ok r] by auto
  with outcome_piece [OF R1(1-3)] to_data_ok [OF R1(1)] ok
  show "ch_done R' = None \<and> (ch_end R' = Ends) = (ch_end R = Ends) \<and> chunk_outcome C R = (d @ fst (chunk_outcome C R'), snd (chunk_outcome C R'))"
    by simp
  show "length (ch_rest R') < length (ch_rest R)" if "live c"
  proof -
    have "0 < length d" using that R1(6) by simp
    moreover have "length (ch_rest R') = length (ch_rest R1) - length d" using R1(5) by simp
    ultimately show ?thesis using R1(3) to_data_ok [OF R1(1)] by linarith
  qed
next
  fix R c d e R'
  assume ok: "ch_done R = None" and r: "chunked_read C c R = (d, Some e, R')"
  have "chunk_outcome C R = ([], Failed err_incomplete)" if "to_data C R = Inr R1" "ch_rest R1 = []" for R1
    using that to_data_ok [OF that(1)] by (subst chunk_outcome.simps) (simp add: Let_def)
  moreover have "chunk_outcome C R = ([], e0)" if "to_data C R = Inl e0" for e0
    using that by (subst chunk_outcome.simps) simp
  ultimately show "e = Broken \<and> ch_end R \<noteq> Ends \<or> chunk_outcome C R = (d, e)"
    using chunked_read_cases [OF ok r] to_data_ok [of C R] by auto
qed

end
