(* ===== verification/Sigv4_Accepted.thy ===== *)
theory Sigv4_Accepted
  imports Sigv4_Body_Correct
begin

text \<open>
  What it means that a body was accepted, the bound on what is delivered in any case, and that a body framed
  and signed as the protocol says is accepted.
\<close>

section \<open>An accepted plain body\<close>

text \<open>
  A plain body is accepted only as it was declared: whatever the source does and however it is read, a
  reader that ends without an error has delivered all the bytes of the source, exactly as many as
  declared, and every digest matches them. If the source ends cleanly, any long enough sequence of reads
  comes to that end or to the error.
\<close>

theorem exact_body_accepted:
  assumes "0 \<le> len"
  shows "(\<forall>cs d. pump exact_read cs (new_exact_reader src e len ds) = (d, Some Eof) \<longrightarrow>
      d = src \<and> int (length d) = len \<and> list_all digest_matches (map (write_digest d) ds)) \<and>
    (\<forall>cs. e = Ends \<and> list_all live cs \<and> length src < length cs \<longrightarrow>
      pump exact_read cs (new_exact_reader src e len ds) =
        (take (nat len) src, Some (if int (length src) < len then Failed err_incomplete
           else if int (length src) > len then Failed (err_invalid_request ''the request body is longer than its declared length'')
           else check_digests (map (write_digest src) ds))))"
proof -
  let ?R = "new_exact_reader src e len ds"
  have ready: "ex_done ?R = None \<and> 0 \<le> ex_left ?R" using assms by (simp add: new_exact_reader_def)
  have out: "exact_outcome ?R = (take (nat len) src, if int (length src) < len then Failed err_incomplete
      else if int (length src) > len then Failed (err_invalid_request ''the request body is longer than its declared length'')
      else check_digests (map (write_digest src) ds))"
    using assms by (auto simp: exact_outcome_def new_exact_reader_def exact_after_def exact_finish_def Let_def)
  show ?thesis
  proof (intro conjI allI impI; (elim conjE)?)
    fix cs d assume "pump exact_read cs ?R = (d, Some Eof)"
    with exact.told_outcome [OF ready] out have "d = take (nat len) src" "\<not> int (length src) < len" "\<not> int (length src) > len"
      "check_digests (map (write_digest src) ds) = Eof" by (auto split: if_splits)
    then show "d = src" "int (length d) = len" "list_all digest_matches (map (write_digest d) ds)"
      by (simp_all add: check_digests_Eof)
  next
    fix cs assume "e = Ends" "list_all live cs" "length src < length cs"
    with exact.whole_outcome [OF ready, of cs] out show "pump exact_read cs ?R = (take (nat len) src, Some (if int (length src) < len then Failed err_incomplete
           else if int (length src) > len then Failed (err_invalid_request ''the request body is longer than its declared length'')
           else check_digests (map (write_digest src) ds)))"
      by (simp add: new_exact_reader_def)
  qed
qed

lemma exact_body_accepted_witness:
  "pump exact_read (replicate 4 \<lparr>want = 2, granted = 1, end_early = False\<rparr>) (new_exact_reader ''abc'' Ends 3 []) = (''abc'', Some Eof)"
  using exact_body_accepted [of 3 "''abc''" Ends "[]", THEN conjunct2, rule_format, of "replicate 4 \<lparr>want = 2, granted = 1, end_early = False\<rparr>"]
  by (simp add: live_def list_all_iff)

section \<open>An accepted chunked body\<close>

text \<open>A chain of signatures: each covers its chunk and the signature before it.\<close>

inductive signed_chain :: "sig_crypto \<Rightarrow> chunk_signer \<Rightarrow> (string \<times> string) list \<Rightarrow> chunk_signer \<Rightarrow> bool" for C where
  Done: "signed_chain C s [] s"
| Next: "verify_chunk C s given data = Some s' \<Longrightarrow> signed_chain C s' cs s'' \<Longrightarrow> signed_chain C s ((given, data) # cs) s''"

inductive_cases signed_chain_Cons: "signed_chain C s ((given, data) # cs) s''"

definition trailer_accepted :: "sig_crypto \<Rightarrow> trailer_check option \<Rightarrow> chunk_signer option \<Rightarrow> string \<Rightarrow> bool" where
  "trailer_accepted C t so d = (case t of None \<Rightarrow> True | Some t \<Rightarrow> \<exists>src trailers raw.
     read_trailers src = Inr (trailers, raw, []) \<and> map_of trailers (tc_name t) = Some (base64_encode (tc_hash t (tc_written t @ d))) \<and>
     (case so of None \<Rightarrow> True | Some s \<Rightarrow> \<exists>given.
        signer_verify C s ''AWS4-HMAC-SHA256-TRAILER'' (hex_encode (sha256_of C raw)) given \<noteq> None))"

lemma finish_Eof:
  assumes "chunked_finish C R = Eof"
  shows "ch_decoded R = ch_declared R \<and> list_all digest_matches (ch_digests R) \<and> trailer_accepted C (ch_trailer R) (ch_signer R) []"
proof -
  obtain trailers raw where t: "ch_decoded R = ch_declared R" "read_trailers (ch_rest R) = Inr (trailers, raw, [])"
    "check_trailer C R trailers raw = Inr ()" "check_digests (ch_digests R) = Eof"
    using assms by (auto simp: chunked_finish_def bind_result_Inr_iff split: if_splits sum.splits)
  have "trailer_accepted C (ch_trailer R) (ch_signer R) []"
  proof (cases "ch_trailer R")
    case (Some tc)
    with t(3) have v: "map_of trailers (tc_name tc) = Some (base64_encode (tc_hash tc (tc_written tc)))"
      by (auto simp: check_trailer_def split: option.splits if_splits)
    have "\<exists>given. signer_verify C s ''AWS4-HMAC-SHA256-TRAILER'' (hex_encode (sha256_of C raw)) given \<noteq> None" if "ch_signer R = Some s" for s
      using t(3) Some v that by (auto simp: check_trailer_def split: if_splits)
    then have "case ch_signer R of None \<Rightarrow> True
      | Some s \<Rightarrow> \<exists>given. signer_verify C s ''AWS4-HMAC-SHA256-TRAILER'' (hex_encode (sha256_of C raw)) given \<noteq> None"
      by (cases "ch_signer R") simp_all
    with v t(2) show ?thesis unfolding trailer_accepted_def Some option.case append_Nil2 by blast
  qed (simp add: trailer_accepted_def)
  with t(1,4) show ?thesis by (simp add: check_digests_Eof)
qed

text \<open>The signatures still to come: the first is over what of the open chunk was hashed and what of it is left.\<close>

definition chain_from :: "sig_crypto \<Rightarrow> chunked_reader \<Rightarrow> string \<Rightarrow> chunk_signer option \<Rightarrow> bool" where
  "chain_from C R d so = (case ch_signer R of None \<Rightarrow> so = None
     | Some s \<Rightarrow> \<exists>s' cs fin. so = Some s' \<and>
         (if ch_left R < 0 then d = concat (map snd cs) \<and> signed_chain C s (cs @ [(fin, [])]) s'
          else \<exists>d0. int (length d0) = ch_left R \<and> d = d0 @ concat (map snd cs) \<and> signed_chain C s ((ch_sig R, ch_hashed R @ d0) # cs @ [(fin, [])]) s'))"

lemma to_data_signer:
  assumes "to_data C R = Inr R1"
  shows "(0 < ch_left R \<longrightarrow> R1 = R) \<and> (ch_left R < 0 \<longrightarrow> ch_signer R1 = ch_signer R \<and> ch_hashed R1 = []) \<and>
    (ch_left R = 0 \<longrightarrow> ch_hashed R1 = [] \<and> (case ch_signer R of None \<Rightarrow> ch_signer R1 = None
       | Some s \<Rightarrow> \<exists>s'. ch_signer R1 = Some s' \<and> verify_chunk C s (ch_sig R) (ch_hashed R) = Some s'))"
proof (cases "0 < ch_left R")
  case True
  with assms show ?thesis by (simp add: to_data_def)
next
  case False
  then obtain Ra where r: "(if ch_left R = 0 then end_chunk C R else Inr R) = Inr Ra" "start_chunk C Ra = Inr (False, R1)"
    using assms by (auto simp: to_data_def bind_result_Inr_iff split: sum.splits if_splits)
  with start_chunk_ok [OF r(2)] end_chunk_ok [of C R Ra] False show ?thesis by (auto split: if_splits option.splits)
qed

lemma to_data_Eof:
  assumes "to_data C R = Inl Eof"
  shows "\<exists>R'. chunked_finish C R' = Eof \<and> ch_left R \<le> 0 \<and> ch_declared R' = ch_declared R \<and> ch_decoded R' = ch_decoded R \<and>
    ch_digests R' = ch_digests R \<and> ch_trailer R' = ch_trailer R \<and> chain_from C R [] (ch_signer R')"
proof -
  have le: "ch_left R \<le> 0" using assms by (auto simp: to_data_def split: if_splits)
  then obtain Ra R' where r: "(if ch_left R = 0 then end_chunk C R else Inr R) = Inr Ra" "start_chunk C Ra = Inr (True, R')" "chunked_finish C R' = Eof"
    using assms by (auto simp: to_data_def bind_result_Inr_iff split: sum.splits if_splits)
  have fin: "ch_declared R' = ch_declared Ra" "ch_decoded R' = ch_decoded Ra" "ch_digests R' = ch_digests Ra" "ch_trailer R' = ch_trailer Ra"
    "case ch_signer Ra of None \<Rightarrow> ch_signer R' = None | Some s \<Rightarrow> \<exists>s'. ch_signer R' = Some s' \<and> verify_chunk C s (ch_sig R') [] = Some s'"
    using start_chunk_ok [OF r(2)] by auto
  show ?thesis
  proof (cases "ch_left R = 0")
    case False
    with r(1) have "Ra = R" by simp
    moreover have "chain_from C R [] (ch_signer R')"
      using fin(5) False le \<open>Ra = R\<close> by (fastforce simp: chain_from_def split: option.splits intro: signed_chain.intros exI [of _ "[]"])
    ultimately show ?thesis using fin r(3) le by auto
  next
    case True
    with r(1) have e: "end_chunk C R = Inr Ra" by simp
    from end_chunk_ok [OF e] obtain rest signer where Ra: "Ra = R\<lparr>ch_rest := rest, ch_left := - 1, ch_signer := signer\<rparr>" by blast
    have sg: "case ch_signer R of None \<Rightarrow> ch_signer Ra = None
      | Some s \<Rightarrow> \<exists>s'. ch_signer Ra = Some s' \<and> verify_chunk C s (ch_sig R) (ch_hashed R) = Some s'" using end_chunk_ok [OF e] by blast
    have "chain_from C R [] (ch_signer R')"
    proof (cases "ch_signer R")
      case None
      with sg fin(5) show ?thesis by (simp add: chain_from_def)
    next
      case (Some s)
      with sg fin(5) obtain s1 s2 where v: "verify_chunk C s (ch_sig R) (ch_hashed R) = Some s1" "verify_chunk C s1 (ch_sig R') [] = Some s2" "ch_signer R' = Some s2"
        by auto
      have "signed_chain C s ((ch_sig R, ch_hashed R) # [(ch_sig R', [])]) s2"
        by (rule signed_chain.Next [OF v(1) signed_chain.Next [OF v(2) signed_chain.Done]])
      with Some True v(3) show ?thesis by (auto simp: chain_from_def intro!: exI [of _ "[]"] exI [of _ "ch_sig R'"])
    qed
    then show ?thesis using fin(1-4) r(3) le Ra by auto
  qed
qed

lemma chain_from_piece:
  assumes d: "to_data C R = Inr R1" and n: "n = nat (ch_left R1)" "n \<le> length (ch_rest R1)" and c: "chain_from C (take_data n R1) d so"
  shows "chain_from C R (take n (ch_rest R1) @ d) so"
proof -
  have pos: "0 < ch_left R1" "int n = ch_left R1" using to_data_ok [OF d] n(1) by auto
  show ?thesis
  proof (cases "ch_signer R1")
    case None
    with c have "so = None" by (simp add: chain_from_def)
    moreover have "ch_signer R = None" using to_data_signer [OF d] None pos by (cases "ch_signer R"; cases "ch_left R" "0 :: int" rule: linorder_cases) auto
    ultimately show ?thesis by (simp add: chain_from_def)
  next
    case (Some s)
    with c pos obtain s' cs fin where ch: "so = Some s'" "d = concat (map snd cs)"
      "signed_chain C s ((ch_sig R1, ch_hashed R1 @ take n (ch_rest R1)) # cs @ [(fin, [])]) s'"
      by (auto simp: chain_from_def)
    consider "0 < ch_left R" | "ch_left R < 0" | "ch_left R = 0" by linarith
    then show ?thesis
    proof cases
      case 1
      with to_data_signer [OF d] have "R1 = R" by simp
      have "int (length (take n (ch_rest R))) = ch_left R \<and> take n (ch_rest R) @ d = take n (ch_rest R) @ concat (map snd cs) \<and>
        signed_chain C s ((ch_sig R, ch_hashed R @ take n (ch_rest R)) # cs @ [(fin, [])]) s'"
        using ch(2,3) n pos \<open>R1 = R\<close> by simp
      moreover have "ch_signer R = Some s" "\<not> ch_left R < 0" using Some \<open>R1 = R\<close> 1 by auto
      ultimately show ?thesis unfolding chain_from_def using ch(1) \<open>R1 = R\<close> by (simp only: option.case if_False) blast
    next
      case 2
      with to_data_signer [OF d] Some have r: "ch_signer R = Some s" "ch_hashed R1 = []" by auto
      with ch(2,3) have "take n (ch_rest R1) @ d = concat (map snd ((ch_sig R1, take n (ch_rest R1)) # cs))"
        "signed_chain C s (((ch_sig R1, take n (ch_rest R1)) # cs) @ [(fin, [])]) s'" by simp_all
      with r(1) 2 ch(1) show ?thesis unfolding chain_from_def by (simp only: option.case) (metis (no_types))
    next
      case 3
      with to_data_signer [OF d] Some obtain s0 where r: "ch_signer R = Some s0" "ch_hashed R1 = []" "verify_chunk C s0 (ch_sig R) (ch_hashed R) = Some s"
        by (cases "ch_signer R") auto
      have "signed_chain C s0 ((ch_sig R, ch_hashed R @ []) # ((ch_sig R1, take n (ch_rest R1)) # cs) @ [(fin, [])]) s'"
        using signed_chain.Next [OF r(3)] ch(3) r(2) by simp
      moreover have "take n (ch_rest R1) @ d = [] @ concat (map snd ((ch_sig R1, take n (ch_rest R1)) # cs))" using ch(2) by simp
      moreover have "int (length []) = ch_left R" using 3 by simp
      ultimately show ?thesis unfolding chain_from_def r(1) using 3 ch(1) by (simp only: option.case if_False less_irrefl) blast
    qed
  qed
qed

lemma chunk_outcome_Eof:
  "chunk_outcome C R = (d, Eof) \<Longrightarrow> int (length d) = ch_declared R - ch_decoded R \<and>
    list_all digest_matches (map (write_digest d) (ch_digests R)) \<and> (\<exists>so. chain_from C R d so \<and> trailer_accepted C (ch_trailer R) so d)"
proof (induction C R arbitrary: d rule: chunk_outcome.induct)
  case (1 C R)
  show ?case
  proof (cases "to_data C R")
    case (Inl e)
    with "1.prems" have e: "d = []" "to_data C R = Inl Eof" by (simp_all add: chunk_outcome.simps [of C R])
    from to_data_Eof [OF e(2)] obtain R' where R': "chunked_finish C R' = Eof" "ch_declared R' = ch_declared R" "ch_decoded R' = ch_decoded R"
      "ch_digests R' = ch_digests R" "ch_trailer R' = ch_trailer R" "chain_from C R [] (ch_signer R')" by blast
    with finish_Eof [OF R'(1)] e(1) show ?thesis by auto
  next
    case (Inr R1)
    define n where "n = nat (ch_left R1)"
    have enough: "n \<le> length (ch_rest R1)" using "1.prems" Inr by (auto simp: chunk_outcome.simps [of C R] n_def Let_def split: if_splits)
    obtain d' where d': "chunk_outcome C (take_data n R1) = (d', Eof)" "d = take n (ch_rest R1) @ d'"
      using "1.prems" Inr enough by (auto simp: chunk_outcome.simps [of C R] n_def Let_def split: prod.splits if_splits)
    have ih: "int (length d') = ch_declared (take_data n R1) - ch_decoded (take_data n R1)" "list_all digest_matches (map (write_digest d') (ch_digests (take_data n R1)))"
      "\<exists>so. chain_from C (take_data n R1) d' so \<and> trailer_accepted C (ch_trailer (take_data n R1)) so d'"
      using "1.IH" [OF Inr n_def _ d'(1)] enough by auto
    obtain so where so: "chain_from C (take_data n R1) d' so" "trailer_accepted C (ch_trailer (take_data n R1)) so d'" using ih(3) by blast
    have keep: "ch_declared R1 = ch_declared R" "ch_decoded R1 = ch_decoded R" "ch_digests R1 = ch_digests R" "ch_trailer R1 = ch_trailer R"
      using to_data_ok [OF Inr] by auto
    have "int (length d) = ch_declared R - ch_decoded R" using ih(1) d'(2) enough keep by simp
    moreover have "list_all digest_matches (map (write_digest d) (ch_digests R))" using ih(2) d'(2) keep by simp
    moreover have "chain_from C R d so" using chain_from_piece [OF Inr n_def enough so(1)] d'(2) by simp
    moreover have "trailer_accepted C (ch_trailer R) so d" using so(2) d'(2) keep by (auto simp: trailer_accepted_def split: option.splits)
    ultimately show ?thesis by blast
  qed
qed

lemma chunked_read_bound:
  assumes "ch_done R = None" "ch_left R \<le> ch_declared R - ch_decoded R" "ch_decoded R \<le> ch_declared R" "chunked_read C c R = (d, e, R')"
  shows "int (length d) \<le> ch_declared R - ch_decoded R \<and> (e = None \<longrightarrow> ch_done R' = None \<and> ch_declared R' = ch_declared R \<and>
    ch_decoded R' = ch_decoded R + int (length d) \<and> ch_left R' \<le> ch_declared R' - ch_decoded R' \<and> ch_decoded R' \<le> ch_declared R')"
  using chunked_read_cases [OF assms(1,4)]
proof (elim disjE exE conjE)
  fix R1 assume R1: "to_data C R = Inr R1" "int (length d) \<le> ch_left R1" "e = None" "R' = take_data (length d) R1"
  have "ch_left R1 \<le> ch_declared R1 - ch_decoded R1" using to_data_ok [OF R1(1)] assms(2) by auto
  with R1(2) to_data_ok [OF R1(1)] assms(1) show ?thesis unfolding R1(3,4) by simp
qed (use assms(3) in auto)

lemma pump_bound:
  "ch_done R = None \<Longrightarrow> ch_left R \<le> ch_declared R - ch_decoded R \<Longrightarrow> ch_decoded R \<le> ch_declared R \<Longrightarrow>
   int (length (fst (pump (chunked_read C) cs R))) \<le> ch_declared R - ch_decoded R"
proof (induction cs arbitrary: R)
  case (Cons c cs)
  obtain d e R' where r: "chunked_read C c R = (d, e, R')" by (cases "chunked_read C c R")
  from chunked_read_bound [OF Cons.prems r] Cons.IH [of R'] r show ?case
    by (cases e; cases "pump (chunked_read C) cs R'") auto
qed simp

text \<open>
  An aws-chunked body is never delivered beyond its declared length, however it is framed, read or broken
  off. One that ends without an error has exactly that length, matches every digest and the checksum its trailer
  promised, and where chunks are signed it is the data of a chain of chunks, each signature covering its
  chunk and the signature before it from the request's own on, closed by a signed empty chunk.
\<close>

theorem chunked_body_accepted:
  assumes "0 \<le> declared"
  shows "(\<forall>cs. int (length (fst (pump (chunked_read C) cs (new_chunked_reader src e declared so t ds)))) \<le> declared) \<and>
    (\<forall>cs d. pump (chunked_read C) cs (new_chunked_reader src e declared so t ds) = (d, Some Eof) \<longrightarrow>
      int (length d) = declared \<and> list_all digest_matches (map (write_digest d) ds) \<and> (\<exists>so'. trailer_accepted C t so' d \<and>
        (case so of None \<Rightarrow> so' = None | Some s \<Rightarrow> \<exists>s' chunks fin. so' = Some s' \<and> d = concat (map snd chunks) \<and>
           signed_chain C s (chunks @ [(fin, [])]) s')))"
proof (intro conjI allI impI)
  let ?R = "new_chunked_reader src e declared so t ds"
  have ready: "ch_done ?R = None" "ch_left ?R \<le> ch_declared ?R - ch_decoded ?R" "ch_decoded ?R \<le> ch_declared ?R"
    using assms by (simp_all add: new_chunked_reader_def)
  show "int (length (fst (pump (chunked_read C) cs ?R))) \<le> declared" for cs
    using pump_bound [OF ready, of C cs] by (simp add: new_chunked_reader_def)
  fix cs d assume "pump (chunked_read C) cs ?R = (d, Some Eof)"
  with chunked.told_outcome [OF ready(1)] have "chunk_outcome C ?R = (d, Eof)" by blast
  from chunk_outcome_Eof [OF this] show "int (length d) = declared" "list_all digest_matches (map (write_digest d) ds)"
    "\<exists>so'. trailer_accepted C t so' d \<and> (case so of None \<Rightarrow> so' = None | Some s \<Rightarrow> \<exists>s' chunks fin. so' = Some s' \<and> d = concat (map snd chunks) \<and>
           signed_chain C s (chunks @ [(fin, [])]) s')"
    by (auto simp: new_chunked_reader_def chain_from_def split: option.splits)
qed

section \<open>A body is what its request signed\<close>

lemma pump_exact_body: "pump (body_read C) cs (Exact R) = pump exact_read cs R"
  by (induction cs arbitrary: R) (auto simp: body_read_def split: prod.splits option.splits)

lemma pump_chunked_body: "pump (body_read C) cs (Chunked R) = pump (chunked_read C) cs R"
  by (induction cs arbitrary: R) (auto simp: body_read_def split: prod.splits option.splits)

lemma exact_pump_bound:
  "ex_done R = None \<Longrightarrow> 0 \<le> ex_left R \<Longrightarrow> int (length (fst (pump exact_read cs R))) \<le> ex_left R"
proof (induction cs arbitrary: R)
  case (Cons c cs)
  obtain d e R' where r: "exact_read c R = (d, e, R')" by (cases "exact_read c R")
  show ?case
  proof (cases e)
    case None
    with exact_read_cases [OF Cons.prems r] have "R' = exact_after (length d) R" "int (length d) \<le> ex_left R" by auto
    with Cons.IH [of R'] Cons.prems r None show ?thesis by (cases "pump exact_read cs R'") (auto simp: exact_after_def)
  next
    case (Some x)
    with exact_read_cases [OF Cons.prems r] Cons.prems(2) r show ?thesis by auto
  qed
qed simp

lemma checksum_digests_in:
  "checksum_digests H C hs = Inr ds \<Longrightarrow> (name, val, vals) \<in> set hs \<Longrightarrow> prefix ''x-amz-checksum-'' (to_lower name) \<Longrightarrow>
   to_lower name \<noteq> ''x-amz-checksum-type'' \<Longrightarrow> to_lower name \<noteq> ''x-amz-checksum-algorithm'' \<Longrightarrow>
   \<exists>h. new_checksum H C (to_lower name) = Some h \<and> base64_digest (to_lower name) h val \<in> set ds"
  by (induction hs arbitrary: ds) (force simp: Let_def bind_result_Inr_iff split: if_splits option.splits)+

lemma base64_digest_matches:
  "digest_matches (write_digest d (base64_digest name h expected)) \<longleftrightarrow> base64_encode (h d) = expected"
  by (simp add: digest_matches_def write_digest_def base64_digest_def)

definition request_signer :: "sig_auth \<Rightarrow> chunk_signer" where
  "request_signer a = \<lparr>sg_key = auth_signing_key a, sg_scope = auth_scope a, sg_date = auth_date a, sg_previous = auth_seed a\<rparr>"

lemma plain_body_ok:
  assumes "plain_body C a r e ds = Inr (b, n)"
  shows "0 \<le> n \<and> (\<exists>ds'. b = Exact (new_exact_reader (hr_body r) e n ds') \<and> set ds \<subseteq> set ds' \<and>
    (auth_payload a = Payload_Signed \<longrightarrow> (\<exists>p \<in> set ds'. \<forall>d. digest_matches (write_digest d p) \<longrightarrow> hex_encode (sha256_of C d) = auth_payload_hash a)))"
proof (cases "auth_payload a = Payload_Signed")
  case True
  let ?p = "\<lparr>dg_hash = sha256_of C, dg_written = [], dg_expected = auth_payload_hash a, dg_encode = hex_encode,
    dg_failure = make_s3_error 400 ''XAmzContentSHA256Mismatch'' ''the provided x-amz-content-sha256 does not match what was computed''\<rparr>"
  have "\<forall>d. digest_matches (write_digest d ?p) \<longrightarrow> hex_encode (sha256_of C d) = auth_payload_hash a"
    by (simp add: digest_matches_def write_digest_def)
  moreover have "0 \<le> n" "b = Exact (new_exact_reader (hr_body r) e n (ds @ [?p]))"
    using assms True by (auto simp: plain_body_def Let_def split: if_splits)
  ultimately show ?thesis by (intro conjI exI [of _ "ds @ [?p]"]) auto
next
  case False
  with assms show ?thesis by (auto simp: plain_body_def Let_def split: if_splits)
qed

lemma chunked_body_ok:
  assumes "chunked_body H C a r e ds = Inr (b, n)"
  shows "0 \<le> n \<and> (\<exists>t. b = Chunked (new_chunked_reader (hr_body r) e n (signer_of a) t ds))"
  using assms by (auto simp: chunked_body_def Let_def bind_result_Inr_iff split: if_splits option.splits)

text \<open>
  Claim C37. Of the payload of a request, whatever its mode, never more than the declared length is delivered. When it
  ends without an error it has that length and every checksum in the headers is its own; a payload whose hash
  was signed has that hash, and a streamed one is the data of chunks whose signatures form one chain
  from the request's signature to a signed empty chunk.
\<close>

theorem payload_bound_to_signature:
  assumes "auth_body H C a r e = Inr (b, n)"
  shows "(\<forall>cs. int (length (fst (pump (body_read C) cs b))) \<le> n) \<and>
    (\<forall>cs d. pump (body_read C) cs b = (d, Some Eof) \<longrightarrow> int (length d) = n \<and>
      (auth_payload a = Payload_Signed \<longrightarrow> hex_encode (sha256_of C d) = auth_payload_hash a) \<and>
      (auth_payload a \<in> {Payload_Streaming_Signed, Payload_Streaming_Signed_Trailer} \<longrightarrow>
        (\<exists>s' chunks fin. d = concat (map snd chunks) \<and> signed_chain C (request_signer a) (chunks @ [(fin, [])]) s')) \<and>
      (header_get r ''content-md5'' \<noteq> [] \<longrightarrow> base64_encode (md5_of H d) = header_get r ''content-md5'') \<and>
      (\<forall>name val vals. (name, val, vals) \<in> set (hr_headers r) \<and> prefix ''x-amz-checksum-'' (to_lower name) \<and>
         to_lower name \<noteq> ''x-amz-checksum-type'' \<and> to_lower name \<noteq> ''x-amz-checksum-algorithm'' \<longrightarrow>
         (\<exists>h. new_checksum H C (to_lower name) = Some h \<and> base64_encode (h d) = val)))"
proof -
  obtain ds0 where ds0: "checksum_digests H C (hr_headers r) = Inr ds0"
    and b: "(if auth_payload a \<in> {Payload_Signed, Payload_Unsigned} then plain_body C a r e else chunked_body H C a r e)
       ((if header_get r ''content-md5'' \<noteq> [] then [base64_digest ''Content-MD5'' (md5_of H) (header_get r ''content-md5'')] else []) @ ds0) = Inr (b, n)"
    using assms by (auto simp: auth_body_def header_digests_def Let_def bind_result_Inr_iff split: if_splits)
  define ds where "ds = (if header_get r ''content-md5'' \<noteq> [] then [base64_digest ''Content-MD5'' (md5_of H) (header_get r ''content-md5'')] else []) @ ds0"
  define modes where "modes d \<longleftrightarrow> int (length d) = n \<and>
      (auth_payload a = Payload_Signed \<longrightarrow> hex_encode (sha256_of C d) = auth_payload_hash a) \<and>
      (auth_payload a \<in> {Payload_Streaming_Signed, Payload_Streaming_Signed_Trailer} \<longrightarrow>
        (\<exists>s' chunks fin. d = concat (map snd chunks) \<and> signed_chain C (request_signer a) (chunks @ [(fin, [])]) s')) \<and>
      (\<forall>g \<in> set ds. digest_matches (write_digest d g))" for d
  have core: "(\<forall>cs. int (length (fst (pump (body_read C) cs b))) \<le> n) \<and> (\<forall>cs d. pump (body_read C) cs b = (d, Some Eof) \<longrightarrow> modes d)"
  proof (cases "auth_payload a \<in> {Payload_Signed, Payload_Unsigned}")
    case True
    with b have "plain_body C a r e ds = Inr (b, n)" by (simp add: ds_def)
    from plain_body_ok [OF this] obtain ds' where p: "0 \<le> n" "b = Exact (new_exact_reader (hr_body r) e n ds')" "set ds \<subseteq> set ds'"
      "auth_payload a = Payload_Signed \<longrightarrow> (\<exists>p \<in> set ds'. \<forall>d. digest_matches (write_digest d p) \<longrightarrow> hex_encode (sha256_of C d) = auth_payload_hash a)" by blast
    have "modes d" if "pump exact_read cs (new_exact_reader (hr_body r) e n ds') = (d, Some Eof)" for cs d
    proof -
      have "int (length d) = n" "\<forall>g \<in> set ds'. digest_matches (write_digest d g)"
        using exact_body_accepted [OF p(1), THEN conjunct1, rule_format, OF that] by (auto simp: list_all_iff)
      with p(3,4) True show ?thesis by (auto simp: modes_def)
    qed
    moreover have "int (length (fst (pump exact_read cs (new_exact_reader (hr_body r) e n ds')))) \<le> n" for cs
      using exact_pump_bound [of "new_exact_reader (hr_body r) e n ds'" cs] p(1) by (simp add: new_exact_reader_def)
    ultimately show ?thesis unfolding p(2) pump_exact_body by blast
  next
    case False
    with b have "chunked_body H C a r e ds = Inr (b, n)" by (simp add: ds_def)
    from chunked_body_ok [OF this] obtain t where p: "0 \<le> n" "b = Chunked (new_chunked_reader (hr_body r) e n (signer_of a) t ds)" by blast
    note acc = chunked_body_accepted [OF p(1), of C "hr_body r" e "signer_of a" t ds]
    have "modes d" if "pump (chunked_read C) cs (new_chunked_reader (hr_body r) e n (signer_of a) t ds) = (d, Some Eof)" for cs d
      using acc [THEN conjunct2, rule_format, OF that] False by (auto simp: modes_def list_all_iff signer_of_def request_signer_def split: option.splits if_splits)
    with acc [THEN conjunct1] show ?thesis unfolding p(2) pump_chunked_body by blast
  qed
  have "(header_get r ''content-md5'' \<noteq> [] \<longrightarrow> base64_encode (md5_of H d) = header_get r ''content-md5'') \<and>
      (\<forall>name val vals. (name, val, vals) \<in> set (hr_headers r) \<and> prefix ''x-amz-checksum-'' (to_lower name) \<and>
         to_lower name \<noteq> ''x-amz-checksum-type'' \<and> to_lower name \<noteq> ''x-amz-checksum-algorithm'' \<longrightarrow>
         (\<exists>h. new_checksum H C (to_lower name) = Some h \<and> base64_encode (h d) = val))" if "modes d" for d
  proof -
    have m: "\<forall>g \<in> set ds. digest_matches (write_digest d g)" using that by (simp add: modes_def)
    moreover have "set ds0 \<subseteq> set ds" by (simp add: ds_def)
    ultimately show ?thesis using checksum_digests_in [OF ds0] base64_digest_matches [of d] by (fastforce simp: ds_def)
  qed
  with core show ?thesis unfolding modes_def by blast
qed

section \<open>A framed body is accepted\<close>

fun hex_nat :: "nat \<Rightarrow> string" where
  "hex_nat n = (if n < 16 then [hex_digit n] else hex_nat (n div 16) @ [hex_digit (n mod 16)])"

declare hex_nat.simps [simp del]

definition crlf :: string where "crlf = [CHR 0x0D, newline]"

definition chunk_signature :: "sig_crypto \<Rightarrow> chunk_signer \<Rightarrow> string \<Rightarrow> string" where
  "chunk_signature C s data = hex_encode (hmac_of C (sg_key s)
     (chunk_to_sign s ''AWS4-HMAC-SHA256-PAYLOAD'' (empty_sha256 @ [newline] @ hex_encode (sha256_of C data))))"

definition sign_next :: "sig_crypto \<Rightarrow> chunk_signer option \<Rightarrow> string \<Rightarrow> chunk_signer option" where
  "sign_next C so data = map_option (\<lambda>s. s\<lparr>sg_previous := chunk_signature C s data\<rparr>) so"

definition chunk_line :: "sig_crypto \<Rightarrow> chunk_signer option \<Rightarrow> string \<Rightarrow> string" where
  "chunk_line C so data = hex_nat (length data) @
     (case so of None \<Rightarrow> [] | Some s \<Rightarrow> '';'' @ chunk_signature_ext @ chunk_signature C s data)"

fun frame_chunks :: "sig_crypto \<Rightarrow> chunk_signer option \<Rightarrow> string list \<Rightarrow> string" where
  "frame_chunks C so [] = chunk_line C so [] @ crlf @ crlf"
| "frame_chunks C so (d # ds) = chunk_line C so d @ crlf @ d @ crlf @ frame_chunks C (sign_next C so d) ds"

lemma verify_own_signature: "verify_chunk C s (chunk_signature C s d) d = Some (s\<lparr>sg_previous := chunk_signature C s d\<rparr>)"
  by (simp add: verify_chunk_def signer_verify_def signature_matches_def chunk_signature_def)

definition plain_hex :: "char \<Rightarrow> bool" where
  "plain_hex c \<longleftrightarrow> c \<in> set ''0123456789abcdef''"

lemma hex_digit_plain: "n < 16 \<Longrightarrow> plain_hex (hex_digit n)"
proof -
  have "\<forall>n \<in> {0..<16}. plain_hex (hex_digit n)" unfolding plain_hex_def hex_digit_def by code_simp
  then show "n < 16 \<Longrightarrow> plain_hex (hex_digit n)" by simp
qed

lemma not_plain_hex: "\<not> plain_hex CHR '';''" "\<not> plain_hex newline" "\<not> plain_hex CHR 0x0D" "\<not> plain_hex CHR ''-''" "\<not> plain_hex CHR ''+''"
  by (simp_all add: plain_hex_def)

lemma plain_hex_value: "plain_hex c \<Longrightarrow> hex_value c \<noteq> None"
proof -
  have "\<forall>c \<in> set ''0123456789abcdef''. hex_value c \<noteq> None" by code_simp
  then show "plain_hex c \<Longrightarrow> hex_value c \<noteq> None" unfolding plain_hex_def by blast
qed

lemma hex_nat_plain: "list_all plain_hex (hex_nat n)"
  by (induction n rule: hex_nat.induct) (subst hex_nat.simps, auto intro: hex_digit_plain)

lemma hex_nat_nonempty [simp]: "hex_nat n \<noteq> []"
  by (subst hex_nat.simps) simp

lemma hex_int_nat: "hex_int (hex_nat n) = int n"
proof (induction n rule: hex_nat.induct)
  case (1 n)
  show ?case
  proof (cases "n < 16")
    case True
    then show ?thesis by (simp add: hex_nat.simps [of n] hex_int_def hex_value_digit)
  next
    case False
    have "hex_int (xs @ [c]) = 16 * hex_int xs + int (the (hex_value c))" for xs c by (simp add: hex_int_def)
    with 1 False have "hex_int (hex_nat n) = 16 * int (n div 16) + int (n mod 16)" by (simp add: hex_nat.simps [of n] hex_value_digit)
    also have "\<dots> = int (16 * (n div 16) + n mod 16)" by (simp only: of_nat_add of_nat_mult of_nat_numeral)
    finally show ?thesis by simp
  qed
qed

lemma hex_nat_short: "n < 16 ^ Suc k \<Longrightarrow> length (hex_nat n) \<le> Suc k"
proof (induction k arbitrary: n)
  case 0 then show ?case by (simp add: hex_nat.simps [of n])
next
  case (Suc k)
  have "n div 16 < 16 ^ Suc k" using Suc.prems by (simp add: less_mult_imp_div_less mult.commute)
  with Suc.IH [of "n div 16"] show ?case by (simp add: hex_nat.simps [of n])
qed

lemma parse_hex_nat:
  assumes "int n < 2 ^ 63"
  shows "parse_int16 (hex_nat n) = Some (int n)" "length (hex_nat n) \<le> 16"
proof -
  obtain c r where h: "hex_nat n = c # r" by (cases "hex_nat n") auto
  have p: "list_all plain_hex (c # r)" using hex_nat_plain [of n] h by simp
  then have "c \<noteq> CHR ''-''" "c \<noteq> CHR ''+''" using not_plain_hex by auto
  moreover have "list_all (\<lambda>c. hex_value c \<noteq> None) (c # r)" using p plain_hex_value by (auto simp: list_all_iff)
  moreover have "fits64 (int n)" using assms by (simp add: fits64_def)
  ultimately show "parse_int16 (hex_nat n) = Some (int n)" using hex_int_nat [of n] by (simp add: parse_int16_def h Let_def)
  have "int n < 16 ^ Suc 15" using assms by simp
  then have "n < 16 ^ Suc 15" by (metis of_nat_less_iff of_nat_numeral of_nat_power)
  then show "length (hex_nat n) \<le> 16" using hex_nat_short [of n 15] by simp
qed

lemma read_framed_line:
  assumes "newline \<notin> set line" "int (length line) < 4000"
  shows "read_line (line @ crlf @ rest) = Inr (line, rest)"
proof -
  have "takeWhile (\<lambda>c. c \<noteq> newline) (line @ crlf @ rest) = line @ [CHR 0x0D]"
    using assms(1) by (subst takeWhile_append2) (auto simp: crlf_def)
  with assms(2) show ?thesis by (simp add: read_line_def Let_def max_chunk_line_def crlf_def)
qed

definition hmac_is_32 :: "sig_crypto \<Rightarrow> bool" where
  "hmac_is_32 C \<longleftrightarrow> (\<forall>k s. length (hmac_of C k s) = 32)"

lemma hex_encode_plain: "list_all plain_hex (hex_encode bs)"
proof -
  have "unat b div 16 < 16" for b :: byte using unat_byte [of b] by simp
  then show ?thesis by (auto simp: list_all_iff hex_encode_def hex_byte_def intro: hex_digit_plain)
qed

lemma plain_free: "list_all plain_hex s \<Longrightarrow> \<not> plain_hex c \<Longrightarrow> c \<notin> set s"
  by (auto simp: list_all_iff)

lemma chunk_line_read:
  assumes "hmac_is_32 C" "int (length d) < 2 ^ 63"
  shows "read_line (chunk_line C so d @ crlf @ rest) = Inr (chunk_line C so d, rest)"
    "cut_at CHR '';'' (chunk_line C so d) = (hex_nat (length d), (case so of None \<Rightarrow> [] | Some s \<Rightarrow> chunk_signature_ext @ chunk_signature C s d), so \<noteq> None)"
proof -
  note h = plain_free [OF hex_nat_plain [of "length d"]]
  have sig: "length (chunk_signature C s d) = 64" "newline \<notin> set (chunk_signature C s d)" for s
    using assms(1) plain_free [OF hex_encode_plain] not_plain_hex(2) by (auto simp: chunk_signature_def hmac_is_32_def)
  have "newline \<notin> set (chunk_line C so d)" "int (length (chunk_line C so d)) < 4000"
    using h not_plain_hex(2) sig parse_hex_nat(2) [OF assms(2)] by (auto simp: chunk_line_def chunk_signature_ext_def split: option.splits)
  then show "read_line (chunk_line C so d @ crlf @ rest) = Inr (chunk_line C so d, rest)" by (rule read_framed_line)
  have "CHR '';'' \<notin> set (hex_nat (length d))" using h not_plain_hex(1) by blast
  then have tw: "takeWhile (\<lambda>x. x \<noteq> CHR '';'') (hex_nat (length d)) = hex_nat (length d)"
    "takeWhile (\<lambda>x. x \<noteq> CHR '';'') (hex_nat (length d) @ CHR '';'' # r) = hex_nat (length d)" for r
    by (auto simp: takeWhile_eq_all_conv takeWhile_append)
  show "cut_at CHR '';'' (chunk_line C so d) = (hex_nat (length d), (case so of None \<Rightarrow> [] | Some s \<Rightarrow> chunk_signature_ext @ chunk_signature C s d), so \<noteq> None)"
    by (cases so) (simp_all add: cut_at_def chunk_line_def Let_def tw)
qed

lemma start_framed:
  assumes "hmac_is_32 C" "int (length d) < 2 ^ 63" "int (length d) \<le> ch_declared R - ch_decoded R" "ch_rest R = chunk_line C (ch_signer R) d @ crlf @ rest"
  shows "start_chunk C R = (let R' = R\<lparr>ch_rest := rest, ch_left := int (length d),
      ch_sig := (case ch_signer R of None \<Rightarrow> [] | Some s \<Rightarrow> chunk_signature C s d), ch_hashed := []\<rparr> in
    if d = [] then Inr (True, R'\<lparr>ch_signer := sign_next C (ch_signer R) []\<rparr>) else Inr (False, R'))"
  using assms(3,4) chunk_line_read [OF assms(1,2)] parse_hex_nat [OF assms(2)] verify_own_signature [of C _ "[]"]
  by (cases "ch_signer R") (auto simp: start_chunk_def check_chunk_signature_def sign_next_def Let_def)

lemma end_framed:
  assumes "ch_rest R = crlf @ rest" "ch_signer R = so" "ch_hashed R = (if so = None then ch_hashed R else d)" "ch_sig R = (case so of None \<Rightarrow> [] | Some s \<Rightarrow> chunk_signature C s d)"
  shows "end_chunk C R = Inr (R\<lparr>ch_rest := rest, ch_left := - 1, ch_signer := sign_next C so d\<rparr>)"
  using assms read_framed_line [of "[]" rest] verify_own_signature [of C _ d]
  by (cases so) (auto simp: end_chunk_def check_chunk_signature_def sign_next_def)

lemma frame_outcome:
  "hmac_is_32 C \<Longrightarrow> ch_left R = - 1 \<Longrightarrow> ch_rest R = frame_chunks C (ch_signer R) ds \<Longrightarrow> ch_trailer R = None \<Longrightarrow> list_all (\<lambda>d. d \<noteq> []) ds \<Longrightarrow>
   0 \<le> ch_decoded R \<Longrightarrow> ch_declared R < 2 ^ 63 \<Longrightarrow> ch_decoded R + int (length (concat ds)) = ch_declared R \<Longrightarrow>
   chunk_outcome C R = (concat ds, check_digests (map (write_digest (concat ds)) (ch_digests R)))"
proof (induction ds arbitrary: R)
  case Nil
  have line: "read_line crlf = Inr ([], [])" using read_framed_line [of "[]" "[]"] by simp
  have "start_chunk C R = Inr (True, R\<lparr>ch_rest := crlf, ch_left := 0, ch_sig := (case ch_signer R of None \<Rightarrow> [] | Some s \<Rightarrow> chunk_signature C s []),
      ch_hashed := [], ch_signer := sign_next C (ch_signer R) []\<rparr>)"
    using Nil.prems start_framed [of C "[]" R crlf] by (simp add: Let_def)
  with Nil.prems line show ?case
    by (simp add: chunk_outcome.simps [of C R] to_data_def chunked_finish_def read_trailers_def check_trailer_def max_trailer_lines_def)
next
  case (Cons d ds)
  let ?sig = "case ch_signer R of None \<Rightarrow> [] | Some s \<Rightarrow> chunk_signature C s d"
  define rest where "rest = frame_chunks C (sign_next C (ch_signer R) d) ds"
  define R1 where "R1 = R\<lparr>ch_rest := d @ crlf @ rest, ch_left := int (length d), ch_sig := ?sig, ch_hashed := []\<rparr>"
  define R2 where "R2 = take_data (length d) R1"
  define R3 where "R3 = R2\<lparr>ch_rest := rest, ch_left := - 1, ch_signer := sign_next C (ch_signer R) d\<rparr>"
  have len: "int (length d) < 2 ^ 63" "int (length d) \<le> ch_declared R - ch_decoded R" "d \<noteq> []" using Cons.prems by simp_all
  have "start_chunk C R = Inr (False, R1)"
    using start_framed [OF Cons.prems(1) len(1,2), of "d @ crlf @ rest"] Cons.prems(3) len(3) by (simp add: Let_def R1_def rest_def)
  then have to1: "to_data C R = Inr R1" using Cons.prems(2) by (simp add: to_data_def)
  have "end_chunk C R2 = Inr R3"
    unfolding R3_def by (rule end_framed) (simp_all add: R2_def R1_def)
  then have "to_data C R2 = to_data C R3" by (simp add: to_data_def R2_def R1_def) (simp add: R3_def)
  then have same: "chunk_outcome C R2 = chunk_outcome C R3" by (simp only: chunk_outcome.simps [of C R2] chunk_outcome.simps [of C R3])
  have "chunk_outcome C R3 = (concat ds, check_digests (map (write_digest (concat ds)) (ch_digests R3)))"
    by (rule Cons.IH) (use Cons.prems in \<open>simp_all add: R3_def R2_def R1_def rest_def\<close>)
  then have "chunk_outcome C R2 = (concat ds, check_digests (map (write_digest (d @ concat ds)) (ch_digests R)))"
    using same by (simp add: R3_def R2_def R1_def)
  with outcome_piece [OF to1, of "length d"] show ?case by (simp add: R2_def R1_def)
qed

text \<open>
  Claim C38. Framing and decoding are inverse: what a client frames into chunks, signed with the request's key or
  not, is read back as the same bytes and accepted, however the source and the reader cut it, as soon as the
  declared length and the digests are those of the data.
\<close>

theorem framed_body_roundtrip:
  assumes "hmac_is_32 C" "list_all (\<lambda>d. d \<noteq> []) chunks" "int (length (concat chunks)) = declared" "declared < 2 ^ 63"
    "list_all digest_matches (map (write_digest (concat chunks)) ds)" "list_all live cs" "length (frame_chunks C so chunks) < length cs"
  shows "pump (chunked_read C) cs (new_chunked_reader (frame_chunks C so chunks) Ends declared so None ds) = (concat chunks, Some Eof)"
proof -
  let ?R = "new_chunked_reader (frame_chunks C so chunks) Ends declared so None ds"
  have "chunk_outcome C ?R = (concat chunks, check_digests (map (write_digest (concat chunks)) (ch_digests ?R)))"
    by (rule frame_outcome) (use assms(1-4) in \<open>simp_all add: new_chunked_reader_def\<close>)
  with assms(5) have "chunk_outcome C ?R = (concat chunks, Eof)" by (simp add: new_chunked_reader_def check_digests_Eof)
  with chunked.whole_outcome [of ?R cs C] assms(6,7) show ?thesis by (simp add: new_chunked_reader_def)
qed

section \<open>Concrete bodies\<close>

definition body_crypto :: sig_crypto where
  "body_crypto = \<lparr>sha256_of = (\<lambda>s. [of_nat (length s)]), hmac_of = (\<lambda>k s. replicate 31 0 @ [of_nat (length s)]), http_date = (\<lambda>_. None),
     query_has = (\<lambda>_ _. False)\<rparr>"

definition body_signer :: chunk_signer where
  "body_signer = \<lparr>sg_key = [], sg_scope = ''scope'', sg_date = ''date'', sg_previous = ''seed''\<rparr>"

definition byte_reads :: "nat \<Rightarrow> read_choice list" where
  "byte_reads n = replicate n \<lparr>want = 1, granted = 1, end_early = True\<rparr>"

lemma byte_reads_live: "list_all live (byte_reads n)"
  by (simp add: byte_reads_def live_def list_all_iff)

lemma body_crypto_32: "hmac_is_32 body_crypto"
  by (simp add: hmac_is_32_def body_crypto_def)

lemma framed_body_roundtrip_witness:
  "pump (chunked_read body_crypto) (byte_reads (Suc (length (frame_chunks body_crypto (Some body_signer) [''ab'', ''c'']))))
     (new_chunked_reader (frame_chunks body_crypto (Some body_signer) [''ab'', ''c'']) Ends 3 (Some body_signer) None []) = (''abc'', Some Eof)"
  using framed_body_roundtrip [OF body_crypto_32, of "[''ab'', ''c'']" 3 "[]" "byte_reads (Suc (length (frame_chunks body_crypto (Some body_signer) [''ab'', ''c''])))" "Some body_signer"]
  by (simp add: byte_reads_live del: frame_chunks.simps) (simp add: byte_reads_def)

lemma chunked_body_accepted_witness:
  "int (length (fst (pump (chunked_read body_crypto) (byte_reads 9) (new_chunked_reader ''5;x'' Breaks 2 None None [])))) \<le> 2"
  using chunked_body_accepted [of 2 body_crypto "''5;x''" Breaks None None "[]"] by simp

definition body_hashes :: sig_hashes where
  "body_hashes = \<lparr>md5_of = (\<lambda>_. []), crc32_of = (\<lambda>_. []), crc32c_of = (\<lambda>_. []), crc64nvme_of = (\<lambda>_. []), sha1_of = (\<lambda>s. [of_nat (length s)])\<rparr>"

definition body_request :: http_request where
  "body_request = \<lparr>hr_method = ''PUT'', hr_path = ''/photos/a'', hr_query = [], hr_host = ''s3'', hr_headers = [(''x-amz-checksum-sha1'', ''Aw=='', [])],
     hr_content_length = 3, hr_transfer_encoding = [], hr_body = ''abc''\<rparr>"

definition body_auth :: sig_auth where
  "body_auth = \<lparr>auth_key_id = ''EXS3A'', auth_payload = Payload_Unsigned, auth_payload_hash = ''UNSIGNED-PAYLOAD'', auth_signing_key = [],
     auth_scope = ''scope'', auth_date = ''date'', auth_seed = ''seed''\<rparr>"

lemma payload_bound_to_signature_witness:
  "\<exists>b. auth_body body_hashes body_crypto body_auth body_request Ends = Inr (b, 3) \<and>
     pump (body_read body_crypto) (byte_reads 5) b = (''abc'', Some Eof) \<and> base64_encode (sha1_of body_hashes ''abc'') = ''Aw==''"
proof -
  have c: "case auth_body body_hashes body_crypto body_auth body_request Ends of Inl _ \<Rightarrow> False
     | Inr (b, n) \<Rightarrow> n = 3 \<and> pump (body_read body_crypto) (byte_reads 5) b = (''abc'', Some Eof)" by code_simp
  then obtain b n where b: "auth_body body_hashes body_crypto body_auth body_request Ends = Inr (b, n)"
    by (cases "auth_body body_hashes body_crypto body_auth body_request Ends") auto
  with c have p: "n = 3" "pump (body_read body_crypto) (byte_reads 5) b = (''abc'', Some Eof)" by simp_all
  have name: "prefix ''x-amz-checksum-'' (to_lower ''x-amz-checksum-sha1'')" "to_lower ''x-amz-checksum-sha1'' \<noteq> ''x-amz-checksum-type''"
    "to_lower ''x-amz-checksum-sha1'' \<noteq> ''x-amz-checksum-algorithm''" "(''x-amz-checksum-sha1'', ''Aw=='', []) \<in> set (hr_headers body_request)"
    "new_checksum body_hashes body_crypto (to_lower ''x-amz-checksum-sha1'') = Some (sha1_of body_hashes)"
    by (code_simp, code_simp, code_simp, simp add: body_request_def, simp add: new_checksum_def to_lower_def lower_char_def)
  have "\<exists>h. new_checksum body_hashes body_crypto (to_lower ''x-amz-checksum-sha1'') = Some h \<and> base64_encode (h ''abc'') = ''Aw==''"
    using payload_bound_to_signature [OF b, THEN conjunct2] p(2) name by blast
  with name(5) b p show ?thesis by auto
qed

text \<open>A sign passes for a digit of a chunk's size.\<close>

lemma chunk_size_with_sign: "parse_int16 ''+a'' = Some 10 \<and> parse_int16 ''-0'' = Some 0"
  by code_simp

end
