(* ===== verification/Spec2Isabelle.thy ===== *)
theory Spec2Isabelle
  imports Vault_Correct Vault_Safety Vault_Concurrent_Correct Vault_Handler Task_Queue_Correct Cron_Correct Fanout Login_Guard Key_Limiter_Correct
    Client_Address Route_Policy_Correct Live_Schema_Correct Engine_Proxy_Correct Public_Address_Correct Nats_Pool_Correct
    Sigv4_Verify_Correct Sigv4_Accepted
begin

text \<open>
  Verification of the control plane of Excalibase, the Go server under \<^verbatim>\<open>src/server-go\<close>. The server keeps
  the platform's secrets in a sealed vault, decides for each request who the caller is and what the caller
  may do, runs the tenants' scheduled functions, and checks what tenants declare about their databases.
  The theories follow that order; paths below are relative to \<^verbatim>\<open>src/server-go\<close>.

  \<^bold>\<open>Shared vocabulary.\<close> \<^verbatim>\<open>Prelude\<close> holds results (an error on the left), state-passing operations with their
  rewrite collections \<open>op_simps\<close> and \<open>preserves_intros\<close>, and the stream of random bytes. \<^verbatim>\<open>Go_Std\<close>,
  \<^verbatim>\<open>Go_Strings\<close>, \<^verbatim>\<open>Go_Time\<close>, \<^verbatim>\<open>Go_Float\<close> and \<^verbatim>\<open>Go_Json\<close> model what the code uses of the standard library: hexadecimal,
  trimming, splitting, \<^verbatim>\<open>path.Clean\<close>, 64-bit integers that wrap, saturating time differences, rounding to 53 bits, decoded JSON
  and the iteration over Go maps, whose order is a parameter everywhere it could show. \<^verbatim>\<open>Programs\<close> has methods as
  trees of calls, their interleaved runs, and the locale that lifts a rule of each method and an invariant of each
  call to every run.

  \<^bold>\<open>The vault.\<close> \<^verbatim>\<open>GF256\<close>, \<^verbatim>\<open>Lagrange\<close> and \<^verbatim>\<open>Shamir\<close> are \<^verbatim>\<open>pkg/vault/shamir\<close>: the branch-free arithmetic of the
  code is shown to be the field of 256 elements, interpolation to be Lagrange's, and from that the round trip
  of a split and the secrecy of fewer shares than the threshold. \<^verbatim>\<open>Vault_Store\<close> is the store interface
  as a locale, with the memory store and the Postgres store interpreted. \<^verbatim>\<open>Vault\<close> has one operation per
  method of \<^verbatim>\<open>pkg/vault\<close> over a record of the process state; \<^verbatim>\<open>Vault_Correct\<close> shows what init, seal, unseal,
  put, get and rekey do, errors included, and \<^verbatim>\<open>Vault_Safety\<close> the invariant of every state reached
  by calls that do not overlap. \<^verbatim>\<open>Vault_Concurrent\<close> takes the methods apart into their locked sections, store calls and
  draws, and shows that alone they are those operations; \<^verbatim>\<open>Vault_Concurrent_Correct\<close> says how the vault can come to be
  unsealed in any interleaving with any store call failing, and gives two runs in which interleaving does harm. \<^verbatim>\<open>Vault_Handler\<close> is its HTTP surface, \<^verbatim>\<open>internal/handler/vault.go\<close>.

  \<^bold>\<open>Requests.\<close> \<^verbatim>\<open>Auth\<close> and \<^verbatim>\<open>Capability\<close> are \<^verbatim>\<open>internal/auth\<close>: roles, scopes, token lifetimes, capability lists.
  \<^verbatim>\<open>Request_Gates\<close> and \<^verbatim>\<open>Project_Access\<close> are the middleware of \<^verbatim>\<open>internal/middleware\<close> that a request passes in
  turn, as functions from a request and a context to a refusal or to the next gate. \<^verbatim>\<open>Client_Address\<close>
  (\<^verbatim>\<open>internal/clientaddr\<close>), \<^verbatim>\<open>Key_Limiter\<close> and \<^verbatim>\<open>Login_Guard\<close> (\<^verbatim>\<open>internal/loginguard\<close>) bound how often a caller may
  try; their theorems quantify over every interleaving of calls, \<^verbatim>\<open>Key_Limiter_Correct\<close> with the roundings of
  \<^verbatim>\<open>Go_Float\<close> and with a request's look-up and take as two steps. \<^verbatim>\<open>Route_Policy\<close> and \<^verbatim>\<open>Route_Table\<close>
  hold the table of \<^verbatim>\<open>internal/routepolicy\<close> row by row, and \<^verbatim>\<open>Route_Policy_Correct\<close> shows that the outcome the
  table declares for a caller is what the gates answer, a refinement between two components.

  \<^bold>\<open>Scheduled work.\<close> \<^verbatim>\<open>Task_Queue\<close> and \<^verbatim>\<open>Cron\<close> are \<^verbatim>\<open>internal/scheduler\<close>: each SQL statement is an update of the list
  of rows, and since tenants write those rows themselves no row is assumed to be well formed.
  \<^verbatim>\<open>Task_Queue_Correct\<close> proves its invariant for a step relation of any number of workers, crashes and
  cancellations; \<^verbatim>\<open>Cron_Correct\<close> the cadence of jobs and the effect of a deploy; \<^verbatim>\<open>Fanout\<close> that a sweep over the
  projects keeps them apart.

  \<^bold>\<open>Permissions over a project's data.\<close> \<^verbatim>\<open>Bool_Exp\<close> is the walker of boolean expressions and the normal form of a
  permission (\<^verbatim>\<open>internal/permissions/boolexp.go\<close>, \<^verbatim>\<open>validate.go\<close>); \<^verbatim>\<open>Bool_Exp_Correct\<close> states the language as an
  inductive grammar with node counts and depth and shows that the walker accepts exactly that.
  \<^verbatim>\<open>Graphql_Names\<close> is \<^verbatim>\<open>internal/graphqlnames\<close>, the names foreign keys give to relationships. \<^verbatim>\<open>Live_Schema\<close> checks
  a permission against the project's database (\<^verbatim>\<open>live_schema.go\<close>, \<^verbatim>\<open>functions.go\<close>); \<^verbatim>\<open>Live_Schema_Correct\<close>
  characterises what passes, bounds the reads through a locale interpreted on the checker, and shows
  that validation and check agree on the shape of a document.

  \<^bold>\<open>The proxy before the container engine.\<close> Provisioning reaches the engine's socket, which is root on the host, only
  through \<^verbatim>\<open>internal/engineproxy\<close>. \<^verbatim>\<open>Engine_Json\<close> is the strict reader of bodies and \<open>engine_member\<close> the engine's
  own reading, which matches names without regard to case; \<^verbatim>\<open>Engine_Policy\<close> has every check of a body,
  \<^verbatim>\<open>Engine_Proxy\<close> the decision on every call, with the engine's answers as a parameter. The theorems of
  \<^verbatim>\<open>Engine_Policy_Correct\<close> and \<^verbatim>\<open>Engine_Proxy_Correct\<close> are stated in what the engine reads of what is sent:
  which settings, mounts, ports, networks and namespaces a container can get, whom a call addresses, and
  that a volume is shared within one owner only.

  \<^bold>\<open>Outbound targets.\<close> \<^verbatim>\<open>Public_Address\<close> is \<^verbatim>\<open>internal/publicaddr\<close>: which addresses the platform dials for a
  tenant, the dialer that checks every answer of the resolver, and the syntax of hosts.
  \<^verbatim>\<open>Public_Address_Correct\<close> states the refused addresses as ranges of numbers, shows the bitwise
  classification equal to them, and that a dial tries checked addresses only.

  \<^bold>\<open>The bus.\<close> \<^verbatim>\<open>Nats_Access\<close> is the permission matrix of \<^verbatim>\<open>internal/natsauth\<close> and the answer to a connection's
  authorization request; a project's watcher is shown apart from every other project. \<^verbatim>\<open>Nats_Pool\<close> is the bounded
  pool behind it as a step relation, one phase per statement of a request's goroutine, and
  \<^verbatim>\<open>Nats_Pool_Correct\<close> its counters, one answer per request, draining, and the composition with the matrix.

  \<^bold>\<open>S3 requests.\<close> \<^verbatim>\<open>internal/s3gateway/sigv4\<close> checks who signed a request and reads its payload. \<^verbatim>\<open>Sigv4_Canonical\<close>
  and \<^verbatim>\<open>Sigv4_Verify\<close> are the canonical form and the verification; \<^verbatim>\<open>Sigv4_Canonical_Correct\<close> and
  \<^verbatim>\<open>Sigv4_Verify_Correct\<close> show what the form determines and that an accepted request cannot be altered.
  \<^verbatim>\<open>Sigv4_Body\<close> has the two readers of a payload, a step per call of \<open>Read\<close>; \<^verbatim>\<open>Sigv4_Body_Correct\<close> interprets both
  in the locale \<open>stream_reader\<close>, by which what is delivered does not depend on buffers and short reads, and
  \<^verbatim>\<open>Sigv4_Accepted\<close> says what an accepted payload is and that framed payloads are accepted.

  \<^bold>\<open>Abstractions and bounds.\<close> Where the code holds a mutex or a transaction over a whole method, the
  method is one step; the vault's methods, which do not, are also given call by call. Cryptography (AES-GCM, SHA-256, key
  generation), Go's network, URL and cron parsers, JSON texts, database collations, Unicode case tables,
  the routing of chi and the registry of functions are parameters; where a theorem needs one of them
  to behave, the behaviour is a named hypothesis that a witness discharges on a concrete instance. A \<^verbatim>\<open>float64\<close> is the
  rational it stands for, with each operation rounded. No definition runs on fuel:
  recursion is structural or has a proved measure, so that every operation returns. The limits 16 and
  200 of expressions, 255 of shares, and the widths of words are the code's own.

  \<^bold>\<open>Not modelled.\<close> The provisioners and the Kubernetes client (\<^verbatim>\<open>internal/provisioner\<close>, \<^verbatim>\<open>internal/k8s\<close>), which
  only issue calls to a cluster; the service and handler layers outside those named (request decoding,
  SQL against the platform database, JSON answers); configuration and wiring (\<^verbatim>\<open>internal/config\<close>,
  \<^verbatim>\<open>cmd/server\<close>); builds, sites, log drains, metrics export, e-mail and the tool server; and the code in other
  languages. These are input and output around the decisions modelled here, or await a later extension.
\<close>

end
